(* ===== verification/Prelude.thy ===== *)
theory Prelude
  imports Main "HOL-Library.Word" "HOL-Library.Sublist" "HOL-Library.Char_ord" "HOL-Library.List_Lexorder"
begin

text \<open>
  Shared vocabulary of the development: Rust's string operations on the bytes of a
  \<^verbatim>\<open>str\<close>, the result type of fallible functions, and the lemmas on them that the
  component theories use.

  A Rust \<^verbatim>\<open>str\<close> is modelled by the list of its UTF-8 bytes, one \<^typ>\<open>char\<close> per byte.
  Byte-level operations (\<^verbatim>\<open>to_ascii_lowercase\<close>, \<^verbatim>\<open>split(':')\<close>, \<^verbatim>\<open>starts_with\<close>, \<^verbatim>\<open>len\<close>) are
  exact on every string. \<^verbatim>\<open>trim\<close> and \<^verbatim>\<open>split_whitespace\<close> recognise the UTF-8 encodings of
  all characters with the Unicode White_Space property. The Unicode case conversions
  \<^verbatim>\<open>to_lowercase\<close> and \<^verbatim>\<open>to_uppercase\<close> are modelled on ASCII text, where they agree with
  their ASCII variants.
\<close>

section \<open>Collections of facts\<close>

named_theorems str_simps \<open>equations of the string operations\<close>
named_theorems result_simps \<open>inversion of the result monad\<close>

section \<open>Results\<close>

type_synonym ('e, 'a) result = "'e + 'a"

abbreviation Ok :: "'a \<Rightarrow> ('e, 'a) result" where "Ok \<equiv> Inr"
abbreviation Err :: "'e \<Rightarrow> ('e, 'a) result" where "Err \<equiv> Inl"

text \<open>The question-mark operator: continue on success, return the error otherwise.\<close>

definition and_then :: "('e, 'a) result \<Rightarrow> ('a \<Rightarrow> ('e, 'b) result) \<Rightarrow> ('e, 'b) result" where
  "and_then r f = (case r of Inl e \<Rightarrow> Inl e | Inr a \<Rightarrow> f a)"

text \<open>An early return of an error when a condition holds.\<close>

definition fail_if :: "bool \<Rightarrow> 'e \<Rightarrow> ('e, unit) result" where
  "fail_if b e = (if b then Inl e else Inr ())"

lemma and_then_simps [simp]:
  "and_then (Inl e) f = Inl e"
  "and_then (Inr a) f = f a"
  by (simp_all add: and_then_def)

lemma and_then_Ok_iff [result_simps]:
  "and_then r f = Inr b \<longleftrightarrow> (\<exists>a. r = Inr a \<and> f a = Inr b)"
  by (cases r) auto

lemma and_then_Err_iff:
  "and_then r f = Inl e \<longleftrightarrow> r = Inl e \<or> (\<exists>a. r = Inr a \<and> f a = Inl e)"
  by (cases r) auto

lemma fail_if_simps [simp]:
  "fail_if True e = Inl e"
  "fail_if False e = Inr ()"
  by (simp_all add: fail_if_def)

lemma fail_if_Ok_iff [result_simps]: "fail_if b e = Inr u \<longleftrightarrow> \<not> b"
  by (simp add: fail_if_def)

lemma fail_if_Err_iff: "fail_if b e = Inl e' \<longleftrightarrow> b \<and> e' = e"
  by (auto simp: fail_if_def)

text \<open>Running a fallible body over a list, collecting its results and stopping at the first error.\<close>

fun try_map :: "('a \<Rightarrow> ('e, 'b) result) \<Rightarrow> 'a list \<Rightarrow> ('e, 'b list) result" where
  "try_map f [] = Inr []"
| "try_map f (x # xs) =
     and_then (f x) (\<lambda>y. and_then (try_map f xs) (\<lambda>ys. Inr (y # ys)))"

lemma try_map_Ok_iff [result_simps]:
  "try_map f xs = Inr ys \<longleftrightarrow> list_all2 (\<lambda>x y. f x = Inr y) xs ys"
proof (induction xs arbitrary: ys)
  case Nil
  then show ?case by auto
next
  case (Cons x xs)
  then show ?case by (cases ys) (auto simp: result_simps)
qed

lemma try_map_Err_D:
  "try_map f xs = Inl e \<Longrightarrow> \<exists>x \<in> set xs. f x = Inl e"
  by (induction xs) (auto simp: and_then_Err_iff)

lemma list_all2_Ok_image:
  assumes "list_all2 (\<lambda>x y. f x = Inr y) xs ys"
    and "\<And>x y. x \<in> set xs \<Longrightarrow> f x = Inr y \<Longrightarrow> g y = h x"
  shows "map g ys = map h xs"
  using assms by (induction rule: list_all2_induct) auto

lemma list_all2_source: "list_all2 P xs ys \<Longrightarrow> y \<in> set ys \<Longrightarrow> \<exists>x \<in> set xs. P x y"
  by (induction rule: list_all2_induct) auto

lemma list_all2_target: "list_all2 P xs ys \<Longrightarrow> x \<in> set xs \<Longrightarrow> \<exists>y \<in> set ys. P x y"
  by (induction rule: list_all2_induct) auto

section \<open>Options\<close>

text \<open>\<^verbatim>\<open>Option::or_else\<close> and \<^verbatim>\<open>unwrap_or\<close>.\<close>

definition opt_or :: "'a option \<Rightarrow> 'a option \<Rightarrow> 'a option" where
  "opt_or a b = (case a of None \<Rightarrow> b | Some x \<Rightarrow> Some x)"

definition unwrap_or :: "'a option \<Rightarrow> 'a \<Rightarrow> 'a" where
  "unwrap_or a d = (case a of None \<Rightarrow> d | Some x \<Rightarrow> x)"

definition opt_filter :: "('a \<Rightarrow> bool) \<Rightarrow> 'a option \<Rightarrow> 'a option" where
  "opt_filter P a = (case a of None \<Rightarrow> None | Some x \<Rightarrow> if P x then Some x else None)"

lemma opt_simps [simp]:
  "opt_or None b = b"
  "opt_or (Some x) b = Some x"
  "unwrap_or None d = d"
  "unwrap_or (Some x) d = x"
  "opt_filter P None = None"
  "opt_filter P (Some x) = (if P x then Some x else None)"
  by (simp_all add: opt_or_def unwrap_or_def opt_filter_def)

section \<open>Searching and sorting\<close>

lemma find_SomeD: "find P xs = Some x \<Longrightarrow> x \<in> set xs \<and> P x"
  by (induction xs) (auto split: if_splits)

lemma set_map_filter_eq: "set (List.map_filter f xs) = {y. \<exists>x \<in> set xs. f x = Some y}"
  by (induction xs) (auto simp: List.map_filter_simps split: option.split)

lemma find_append_None: "find P xs = None \<Longrightarrow> find P (xs @ ys) = find P ys"
  by (induction xs) (auto split: if_splits)

lemma distinct_remdups_adj_sorted: "sorted xs \<Longrightarrow> distinct (remdups_adj xs)"
  by (induction xs rule: remdups_adj.induct) (auto simp: antisym)

section \<open>Normal forms\<close>

text \<open>
  A normalisation brings a value into the form under which it is compared or stored. Trimming,
  principal normalisation and path normalisation are interpretations of this interface; what
  their clients use is that a stored key is its own normal form and that the normal forms are
  exactly the fixed points.
\<close>

locale normal_form =
  fixes norm :: "'a \<Rightarrow> 'a"
  assumes norm_idem: "norm (norm x) = norm x"
begin

lemma fixed_iff_image: "norm y = y \<longleftrightarrow> (\<exists>x. y = norm x)"
  using norm_idem by metis

lemma same_class: "norm x = norm y \<longleftrightarrow> norm (norm x) = norm y"
  by (simp add: norm_idem)

lemma norm_map_idem: "map norm (map norm xs) = map norm xs"
  by (simp add: norm_idem)

end

section \<open>Escaping\<close>

text \<open>
  An escaping writes a string byte by byte; a decoder reads it back. The bytes for which the
  decoder undoes one step (\<open>ok\<close>) are those for which escaping loses nothing. The LDAP filter
  escaping and the XML escaping of the Avahi service files are interpretations.
\<close>

locale escaping =
  fixes esc :: "char \<Rightarrow> string"
    and unesc :: "string \<Rightarrow> string option"
    and ok :: "char \<Rightarrow> bool"
  assumes unesc_Nil: "unesc [] = Some []"
    and unesc_step: "ok c \<Longrightarrow> unesc (esc c @ s) = map_option (Cons c) (unesc s)"
begin

lemma unesc_concat: "list_all ok s \<Longrightarrow> unesc (concat (map esc s)) = Some s"
  by (induction s) (auto simp: unesc_Nil unesc_step)

lemma esc_inject:
  assumes "list_all ok s" "list_all ok t" "concat (map esc s) = concat (map esc t)"
  shows "s = t"
  using assms unesc_concat by (metis option.inject)

end

section \<open>Characters\<close>

text \<open>The value of a byte, and the ASCII classes as ranges of it.\<close>

abbreviation byte :: "char \<Rightarrow> nat" where "byte c \<equiv> of_char c"

definition is_ascii_digit :: "char \<Rightarrow> bool" where
  "is_ascii_digit c = (48 \<le> byte c \<and> byte c \<le> 57)"

definition is_ascii_upper :: "char \<Rightarrow> bool" where
  "is_ascii_upper c = (65 \<le> byte c \<and> byte c \<le> 90)"

definition is_ascii_lower :: "char \<Rightarrow> bool" where
  "is_ascii_lower c = (97 \<le> byte c \<and> byte c \<le> 122)"

definition is_ascii_alnum :: "char \<Rightarrow> bool" where
  "is_ascii_alnum c = (is_ascii_digit c \<or> is_ascii_upper c \<or> is_ascii_lower c)"

definition is_ascii_hexdigit :: "char \<Rightarrow> bool" where
  "is_ascii_hexdigit c =
     (is_ascii_digit c \<or> (97 \<le> byte c \<and> byte c \<le> 102) \<or> (65 \<le> byte c \<and> byte c \<le> 70))"

definition is_ascii :: "char \<Rightarrow> bool" where
  "is_ascii c = (byte c < 128)"

definition ascii_lower :: "char \<Rightarrow> char" where
  "ascii_lower c = (if is_ascii_upper c then char_of (byte c + 32) else c)"

definition ascii_upper :: "char \<Rightarrow> char" where
  "ascii_upper c = (if is_ascii_lower c then char_of (byte c - 32) else c)"

lemmas char_class_defs = is_ascii_digit_def is_ascii_upper_def is_ascii_lower_def
  is_ascii_alnum_def is_ascii_hexdigit_def ascii_lower_def ascii_upper_def

definition to_ascii_lowercase :: "string \<Rightarrow> string" where
  "to_ascii_lowercase s = map ascii_lower s"

definition to_ascii_uppercase :: "string \<Rightarrow> string" where
  "to_ascii_uppercase s = map ascii_upper s"

text \<open>\<^verbatim>\<open>str::to_lowercase\<close> and \<^verbatim>\<open>str::to_uppercase\<close> on ASCII text.\<close>

definition to_lowercase :: "string \<Rightarrow> string" where
  "to_lowercase s = map ascii_lower s"

definition to_uppercase :: "string \<Rightarrow> string" where
  "to_uppercase s = map ascii_upper s"

definition eq_ignore_ascii_case :: "string \<Rightarrow> string \<Rightarrow> bool" where
  "eq_ignore_ascii_case s t = (to_ascii_lowercase s = to_ascii_lowercase t)"

lemma byte_ascii_lower: "byte (ascii_lower c) = (if is_ascii_upper c then byte c + 32 else byte c)"
  by (auto simp: ascii_lower_def is_ascii_upper_def)

lemma byte_ascii_upper: "byte (ascii_upper c) = (if is_ascii_lower c then byte c - 32 else byte c)"
  by (auto simp: ascii_upper_def is_ascii_lower_def)

lemma byte_inject: "byte c = byte d \<longleftrightarrow> c = d"
  by simp

lemma ascii_lower_idem [simp]: "ascii_lower (ascii_lower c) = ascii_lower c"
  by (simp add: byte_inject [symmetric] byte_ascii_lower del: of_char_eq_iff)
    (auto simp: is_ascii_upper_def byte_ascii_lower)

lemma ascii_upper_idem [simp]: "ascii_upper (ascii_upper c) = ascii_upper c"
  by (simp add: byte_inject [symmetric] byte_ascii_upper del: of_char_eq_iff)
    (auto simp: is_ascii_lower_def byte_ascii_upper)

lemma ascii_lower_upper [simp]: "ascii_lower (ascii_upper c) = ascii_lower c"
  by (simp add: byte_inject [symmetric] byte_ascii_lower byte_ascii_upper del: of_char_eq_iff)
    (auto simp: is_ascii_lower_def is_ascii_upper_def byte_ascii_upper)

lemma case_idem [simp]:
  "to_ascii_lowercase (to_ascii_lowercase s) = to_ascii_lowercase s"
  "to_ascii_uppercase (to_ascii_uppercase s) = to_ascii_uppercase s"
  "to_ascii_lowercase (to_ascii_uppercase s) = to_ascii_lowercase s"
  by (simp_all add: to_ascii_lowercase_def to_ascii_uppercase_def)

lemma eq_ignore_ascii_case_refl [simp]: "eq_ignore_ascii_case s s"
  by (simp add: eq_ignore_ascii_case_def)

end
