(* ===== verification/Rust_Str.thy ===== *)
theory Rust_Str
  imports Prelude
begin

text \<open>
  The operations of Rust's \<^verbatim>\<open>str\<close> that the program calls, on byte lists, with the laws the
  component theories use: trimming, splitting, joining, prefix tests, decimal parsing and
  printing.
\<close>

section \<open>Prefixes, suffixes, substrings\<close>

abbreviation starts_with :: "string \<Rightarrow> string \<Rightarrow> bool" where
  "starts_with s p \<equiv> prefix p s"

abbreviation ends_with :: "string \<Rightarrow> string \<Rightarrow> bool" where
  "ends_with s p \<equiv> suffix p s"

fun contains_str :: "string \<Rightarrow> string \<Rightarrow> bool" where
  "contains_str [] p = (p = [])"
| "contains_str (c # s) p = (prefix p (c # s) \<or> contains_str s p)"

lemma contains_str_sublist: "contains_str s p \<longleftrightarrow> sublist p s"
  by (induction s) (auto simp: sublist_Cons_right)

definition strip_prefix :: "string \<Rightarrow> string \<Rightarrow> string option" where
  "strip_prefix p s = (if prefix p s then Some (drop (length p) s) else None)"

definition strip_suffix :: "string \<Rightarrow> string \<Rightarrow> string option" where
  "strip_suffix p s = (if suffix p s then Some (take (length s - length p) s) else None)"

lemma strip_prefix_Some_iff: "strip_prefix p s = Some r \<longleftrightarrow> s = p @ r"
  by (auto simp: strip_prefix_def prefix_def)

lemma strip_prefix_append [simp]: "strip_prefix p (p @ r) = Some r"
  by (simp add: strip_prefix_Some_iff)

section \<open>Splitting at a separator\<close>

fun split_once :: "char \<Rightarrow> string \<Rightarrow> (string \<times> string) option" where
  "split_once c [] = None"
| "split_once c (x # xs) =
     (if x = c then Some ([], xs) else map_option (\<lambda>(a, b). (x # a, b)) (split_once c xs))"

lemma split_once_Some_iff:
  "split_once c s = Some (a, b) \<longleftrightarrow> s = a @ c # b \<and> c \<notin> set a"
proof (induction s arbitrary: a)
  case Nil
  then show ?case by simp
next
  case (Cons x xs)
  show ?case
  proof (cases a)
    case Nil
    then show ?thesis by auto
  next
    case (Cons y ys)
    then show ?thesis using Cons.IH [of ys] by auto
  qed
qed

lemma split_once_None_iff: "split_once c s = None \<longleftrightarrow> c \<notin> set s"
  by (induction s) auto

lemma split_once_append: "c \<notin> set a \<Longrightarrow> split_once c (a @ c # b) = Some (a, b)"
  by (simp add: split_once_Some_iff)

definition rsplit_once :: "char \<Rightarrow> string \<Rightarrow> (string \<times> string) option" where
  "rsplit_once c s = map_option (\<lambda>(a, b). (rev b, rev a)) (split_once c (rev s))"

lemma rsplit_once_Some_iff:
  "rsplit_once c s = Some (a, b) \<longleftrightarrow> s = a @ c # b \<and> c \<notin> set b"
proof -
  have "rsplit_once c s = Some (a, b) \<longleftrightarrow> split_once c (rev s) = Some (rev b, rev a)"
    by (auto simp: rsplit_once_def)
  also have "\<dots> \<longleftrightarrow> rev s = rev b @ c # rev a \<and> c \<notin> set b"
    by (simp add: split_once_Some_iff)
  also have "rev s = rev b @ c # rev a \<longleftrightarrow> s = a @ c # b"
    by (metis append.assoc append_Cons append_Nil rev.simps(2) rev_append rev_rev_ident)
  finally show ?thesis .
qed

lemma rsplit_once_None_iff: "rsplit_once c s = None \<longleftrightarrow> c \<notin> set s"
  by (simp add: rsplit_once_def split_once_None_iff)

text \<open>\<^verbatim>\<open>s.split(c)\<close>: all pieces, at least one.\<close>

fun split_on :: "char \<Rightarrow> string \<Rightarrow> string list" where
  "split_on c [] = [[]]"
| "split_on c (x # xs) =
     (if x = c then [] # split_on c xs
      else (case split_on c xs of [] \<Rightarrow> [[x]] | y # ys \<Rightarrow> (x # y) # ys))"

text \<open>\<^verbatim>\<open>s.splitn(n, c)\<close>: at most \<open>n\<close> pieces, the last one unsplit.\<close>

fun splitn :: "nat \<Rightarrow> char \<Rightarrow> string \<Rightarrow> string list" where
  "splitn 0 c s = []"
| "splitn (Suc 0) c s = [s]"
| "splitn (Suc (Suc n)) c s =
     (case split_once c s of None \<Rightarrow> [s] | Some (a, b) \<Rightarrow> a # splitn (Suc n) c b)"

text \<open>\<^verbatim>\<open>parts.join(sep)\<close>.\<close>

fun join :: "string \<Rightarrow> string list \<Rightarrow> string" where
  "join sep [] = []"
| "join sep [x] = x"
| "join sep (x # y # ys) = x @ sep @ join sep (y # ys)"

lemma split_on_not_Nil [simp]: "split_on c s \<noteq> []"
  by (cases s) (auto split: list.split)

lemma join_Cons: "ys \<noteq> [] \<Longrightarrow> join sep (x # ys) = x @ sep @ join sep ys"
  by (cases ys) auto

lemma join_split_on [simp]: "join [c] (split_on c s) = s"
proof (induction s)
  case Nil
  then show ?case by simp
next
  case (Cons x xs)
  obtain y ys where y: "split_on c xs = y # ys"
    by (meson list.exhaust split_on_not_Nil)
  have "join [c] ((x # y) # ys) = x # join [c] (y # ys)"
    by (cases ys) auto
  with Cons y show ?case
    by (auto simp: join_Cons)
qed

lemma split_on_no_sep: "p \<in> set (split_on c s) \<Longrightarrow> c \<notin> set p"
  by (induction s arbitrary: p) (fastforce split: if_splits list.splits)+

lemma split_on_single: "c \<notin> set s \<Longrightarrow> split_on c s = [s]"
  by (induction s) auto

lemma split_on_append_sep: "c \<notin> set a \<Longrightarrow> split_on c (a @ c # b) = a # split_on c b"
  by (induction a) auto

lemma split_on_join:
  "xs \<noteq> [] \<Longrightarrow> \<forall>x \<in> set xs. c \<notin> set x \<Longrightarrow> split_on c (join [c] xs) = xs"
  by (induction xs rule: list_nonempty_induct)
    (auto simp: split_on_single join_Cons split_on_append_sep)

lemma hd_split_on: "hd (split_on c s) = takeWhile (\<lambda>x. x \<noteq> c) s"
  by (induction s) (auto split: list.split)

lemma hd_split_on_prefix: "prefix (hd (split_on c s)) s"
  by (simp add: hd_split_on takeWhile_is_prefix)

lemma hd_split_on_append: "c \<notin> set a \<Longrightarrow> hd (split_on c (a @ c # b)) = a"
  by (simp add: split_on_append_sep)

text \<open>Splitting at a separator string, first occurrence.\<close>

fun split_once_str :: "string \<Rightarrow> string \<Rightarrow> (string \<times> string) option" where
  "split_once_str p [] = (if p = [] then Some ([], []) else None)"
| "split_once_str p (x # xs) =
     (if prefix p (x # xs) then Some ([], drop (length p) (x # xs))
      else map_option (\<lambda>(a, b). (x # a, b)) (split_once_str p xs))"

lemma split_once_str_SomeD: "split_once_str p s = Some (a, b) \<Longrightarrow> s = a @ p @ b"
  by (induction s arbitrary: a) (auto split: if_splits elim: prefixE)

text \<open>\<^verbatim>\<open>s.replace(c, r)\<close> for a character \<open>c\<close>.\<close>

definition replace_char :: "char \<Rightarrow> string \<Rightarrow> string \<Rightarrow> string" where
  "replace_char c r s = concat (map (\<lambda>x. if x = c then r else [x]) s)"

section \<open>Trimming\<close>

text \<open>
  The width in bytes of a white-space character at the head of a string (0 when there is
  none): tab to carriage return and space, U+0085 and U+00A0 (two bytes), U+1680, U+2000 to
  U+200A, U+2028, U+2029, U+202F, U+205F and U+3000 (three bytes).
\<close>

definition ws1 :: "char \<Rightarrow> bool" where
  "ws1 c = ((9 \<le> byte c \<and> byte c \<le> 13) \<or> byte c = 32)"

definition ws2 :: "char \<Rightarrow> char \<Rightarrow> bool" where
  "ws2 a b = (byte a = 194 \<and> (byte b = 133 \<or> byte b = 160))"

definition ws3 :: "char \<Rightarrow> char \<Rightarrow> char \<Rightarrow> bool" where
  "ws3 a b c =
     ((byte a = 225 \<and> byte b = 154 \<and> byte c = 128) \<or>
      (byte a = 226 \<and> byte b = 128 \<and>
         ((128 \<le> byte c \<and> byte c \<le> 138) \<or> byte c = 168 \<or> byte c = 169 \<or> byte c = 175)) \<or>
      (byte a = 226 \<and> byte b = 129 \<and> byte c = 159) \<or>
      (byte a = 227 \<and> byte b = 128 \<and> byte c = 128))"

fun ws_width :: "string \<Rightarrow> nat" where
  "ws_width (a # b # c # s) =
     (if ws1 a then 1 else if ws2 a b then 2 else if ws3 a b c then 3 else 0)"
| "ws_width [a, b] = (if ws1 a then 1 else if ws2 a b then 2 else 0)"
| "ws_width [a] = (if ws1 a then 1 else 0)"
| "ws_width [] = 0"

text \<open>The same for a string given in reverse, as met from its end.\<close>

fun ws_width_rev :: "string \<Rightarrow> nat" where
  "ws_width_rev (c # b # a # s) =
     (if ws1 c then 1 else if ws2 b c then 2 else if ws3 a b c then 3 else 0)"
| "ws_width_rev [b, a] = (if ws1 b then 1 else if ws2 a b then 2 else 0)"
| "ws_width_rev [a] = (if ws1 a then 1 else 0)"
| "ws_width_rev [] = 0"

lemma ws_width_le: "ws_width s \<le> length s"
  by (cases s rule: ws_width.cases) auto

lemma ws_width_rev_le: "ws_width_rev s \<le> length s"
  by (cases s rule: ws_width_rev.cases) auto

function drop_ws :: "(string \<Rightarrow> nat) \<Rightarrow> string \<Rightarrow> string" where
  "drop_ws w s = (if s = [] \<or> w s = 0 then s else drop_ws w (drop (w s) s))"
  by pat_completeness auto
termination
  by (relation "measure (\<lambda>(w, s). length s)") auto

declare drop_ws.simps [simp del]

definition trim_start :: "string \<Rightarrow> string" where
  "trim_start s = drop_ws ws_width s"

definition trim_end :: "string \<Rightarrow> string" where
  "trim_end s = rev (drop_ws ws_width_rev (rev s))"

definition trim :: "string \<Rightarrow> string" where
  "trim s = trim_end (trim_start s)"

text \<open>\<^verbatim>\<open>s.trim().is_empty()\<close>.\<close>

definition is_blank :: "string \<Rightarrow> bool" where
  "is_blank s = (trim s = [])"

lemma drop_ws_suffix: "suffix (drop_ws w s) s"
proof (induction w s rule: drop_ws.induct)
  case (1 w s)
  show ?case
  proof (cases "s = [] \<or> w s = 0")
    case True
    then show ?thesis by (simp add: drop_ws.simps [of w s])
  next
    case False
    with 1 have "suffix (drop_ws w (drop (w s) s)) (drop (w s) s)" by simp
    then have "suffix (drop_ws w (drop (w s) s)) s"
      using suffix_drop suffix_order.trans by blast
    with False show ?thesis by (simp add: drop_ws.simps [of w s])
  qed
qed

lemma drop_ws_stop: "drop_ws w s = [] \<or> w (drop_ws w s) = 0"
proof (induction w s rule: drop_ws.induct)
  case (1 w s)
  show ?case
    by (cases "s = [] \<or> w s = 0") (use 1 in \<open>auto simp: drop_ws.simps [of w s]\<close>)
qed

lemma drop_ws_id: "s = [] \<or> w s = 0 \<Longrightarrow> drop_ws w s = s"
  by (simp add: drop_ws.simps)

lemma ws_width_prefix: "prefix p s \<Longrightarrow> ws_width s = 0 \<Longrightarrow> ws_width p = 0"
  by (cases p rule: ws_width.cases; cases s rule: ws_width.cases) (auto split: if_splits)

lemma trim_start_suffix: "suffix (trim_start s) s"
  by (simp add: trim_start_def drop_ws_suffix)

lemma trim_end_prefix: "prefix (trim_end s) s"
  using drop_ws_suffix [of ws_width_rev "rev s"]
  by (simp add: trim_end_def suffix_to_prefix)

lemma trim_start_stop: "ws_width (trim_start s) = 0"
  using drop_ws_stop [of ws_width s] by (auto simp: trim_start_def)

lemma trim_end_stop: "ws_width_rev (rev (trim_end s)) = 0"
  using drop_ws_stop [of ws_width_rev "rev s"] by (auto simp: trim_end_def)

lemma trim_start_id: "ws_width s = 0 \<Longrightarrow> trim_start s = s"
  by (simp add: trim_start_def drop_ws_id)

lemma trim_end_id: "ws_width_rev (rev s) = 0 \<Longrightarrow> trim_end s = s"
  by (simp add: trim_end_def drop_ws_id)

lemma ws_width_trim [simp]: "ws_width (trim s) = 0"
  unfolding trim_def using ws_width_prefix [OF trim_end_prefix trim_start_stop] .

lemma ws_width_rev_trim [simp]: "ws_width_rev (rev (trim s)) = 0"
  by (simp add: trim_def trim_end_stop)

lemma trim_id_iff: "trim s = s \<longleftrightarrow> ws_width s = 0 \<and> ws_width_rev (rev s) = 0"
  by (metis trim_def trim_end_id trim_start_id ws_width_rev_trim ws_width_trim)

lemma trim_idem [simp]: "trim (trim s) = trim s"
  by (simp add: trim_id_iff)

lemma trim_sublist: "sublist (trim s) s"
proof -
  obtain a where a: "s = a @ trim_start s"
    using trim_start_suffix by (auto elim: suffixE)
  obtain b where "trim_start s = trim s @ b"
    using trim_end_prefix [of "trim_start s"] by (auto simp: trim_def elim: prefixE)
  with a have "s = a @ trim s @ b" by simp
  then show ?thesis unfolding sublist_def by blast
qed

lemma set_trim_subset: "set (trim s) \<subseteq> set s"
  by (simp add: set_mono_sublist trim_sublist)

lemma trim_Nil [simp]: "trim [] = []"
  by (simp add: trim_id_iff)

lemma is_blank_Nil [simp]: "is_blank []"
  by (simp add: is_blank_def)

lemma is_blank_trim [simp]: "is_blank (trim s) = is_blank s"
  by (simp add: is_blank_def)

lemma trim_Nil_iff [simp]: "trim s = [] \<longleftrightarrow> is_blank s"
  by (simp add: is_blank_def)

lemma is_blank_trim_Nil [simp]: "is_blank s \<Longrightarrow> trim s = []"
  by (simp only: is_blank_def)

text \<open>A string whose first and last bytes begin and end no white space is its own trim.\<close>

definition inked :: "char \<Rightarrow> bool" where
  "inked c = (is_ascii c \<and> \<not> ws1 c)"

lemma ws_width_inked: "inked a \<Longrightarrow> ws_width (a # s) = 0"
  by (cases "a # s" rule: ws_width.cases) (auto simp: inked_def is_ascii_def ws2_def ws3_def)

lemma ws_width_rev_inked: "inked a \<Longrightarrow> ws_width_rev (a # s) = 0"
  by (cases "a # s" rule: ws_width_rev.cases) (auto simp: inked_def is_ascii_def ws2_def ws3_def)

text \<open>
  A printable ASCII byte separates: what follows it cannot be part of white space that starts
  before it.
\<close>

lemma ws_width_barrier: "inked c \<Longrightarrow> ws_width (s @ c # t) = ws_width s"
  by (cases s rule: ws_width.cases; cases t)
    (simp_all add: ws_width_inked, auto simp: inked_def is_ascii_def ws2_def ws3_def)

lemma ws_width_rev_barrier: "inked c \<Longrightarrow> ws_width_rev (s @ c # t) = ws_width_rev s"
  by (cases s rule: ws_width_rev.cases; cases t)
    (simp_all add: ws_width_rev_inked, auto simp: inked_def is_ascii_def ws2_def ws3_def)

lemma trim_barrier_iff:
  "inked c \<Longrightarrow> trim (l @ c # r) = l @ c # r \<longleftrightarrow> ws_width l = 0 \<and> ws_width_rev (rev r) = 0"
  by (simp add: trim_id_iff ws_width_barrier ws_width_rev_barrier)

lemma drop_ws_barrier:
  assumes "\<And>s. w (s @ b) = w s" and "\<And>s. w s \<le> length s"
  shows "drop_ws w (s @ b) = drop_ws w s @ b"
proof (induction "length s" arbitrary: s rule: less_induct)
  case less
  show ?case
  proof (cases "s = [] \<or> w s = 0")
    case True
    then show ?thesis
      using assms(1) [of s] assms(2) [of "[]"] by (auto simp: drop_ws.simps [of w s] drop_ws.simps [of w "s @ b"])
  next
    case False
    then have "length (drop (w s) s) < length s" by auto
    from less [OF this] False assms(1,2) [of s] show ?thesis
      by (auto simp: drop_ws.simps [of w s] drop_ws.simps [of w "s @ b"])
  qed
qed

lemma ws_upper:
  "ws1 (ascii_upper c) = ws1 c"
  "ws2 (ascii_upper a) (ascii_upper b) = ws2 a b"
  "ws3 (ascii_upper a) (ascii_upper b) (ascii_upper c) = ws3 a b c"
  by (auto simp: ws1_def ws2_def ws3_def byte_ascii_upper is_ascii_lower_def)

lemma ws_lower:
  "ws1 (ascii_lower c) = ws1 c"
  "ws2 (ascii_lower a) (ascii_lower b) = ws2 a b"
  "ws3 (ascii_lower a) (ascii_lower b) (ascii_lower c) = ws3 a b c"
  by (auto simp: ws1_def ws2_def ws3_def byte_ascii_lower is_ascii_upper_def)

lemma ws_width_case [simp]:
  "ws_width (map ascii_upper s) = ws_width s"
  "ws_width_rev (map ascii_upper s) = ws_width_rev s"
  "ws_width (map ascii_lower s) = ws_width s"
  "ws_width_rev (map ascii_lower s) = ws_width_rev s"
  by (cases s rule: ws_width.cases; simp add: ws_upper ws_lower)
    (cases s rule: ws_width_rev.cases; simp add: ws_upper ws_lower)+

lemma trim_case_fixed:
  assumes "trim s = s"
  shows "trim (to_ascii_uppercase s) = to_ascii_uppercase s"
    and "trim (to_ascii_lowercase s) = to_ascii_lowercase s"
  using assms
  by (simp_all add: trim_id_iff to_ascii_uppercase_def to_ascii_lowercase_def rev_map)

lemma case_Nil_iff [simp]:
  "to_ascii_uppercase s = [] \<longleftrightarrow> s = []"
  "to_ascii_lowercase s = [] \<longleftrightarrow> s = []"
  "to_lowercase s = [] \<longleftrightarrow> s = []"
  by (simp_all add: to_ascii_uppercase_def to_ascii_lowercase_def to_lowercase_def)

interpretation trim_nf: normal_form trim
  by unfold_locales simp

lemma trim_inked:
  assumes "s \<noteq> []" and "inked (hd s)" and "inked (last s)"
  shows "trim s = s"
proof -
  have "ws_width s = 0"
    using assms(1,2) by (cases s) (auto simp: ws_width_inked)
  moreover have "ws_width_rev (rev s) = 0"
    using assms(1,3) by (cases s rule: rev_cases) (auto simp: ws_width_rev_inked)
  ultimately show ?thesis by (simp add: trim_id_iff)
qed

lemma trim_inked_front: "inked a \<Longrightarrow> ws_width_rev (rev (a # s)) = 0 \<Longrightarrow> trim (a # s) = a # s"
  by (simp add: trim_id_iff ws_width_inked)

text \<open>\<^verbatim>\<open>s.trim_end_matches(c)\<close> and \<^verbatim>\<open>s.trim_matches(c)\<close> for a character.\<close>

definition trim_end_char :: "char \<Rightarrow> string \<Rightarrow> string" where
  "trim_end_char c s = rev (dropWhile (\<lambda>x. x = c) (rev s))"

definition trim_char :: "char \<Rightarrow> string \<Rightarrow> string" where
  "trim_char c s = trim_end_char c (dropWhile (\<lambda>x. x = c) s)"

lemma trim_end_char_id: "s = [] \<or> last s \<noteq> c \<Longrightarrow> trim_end_char c s = s"
  by (cases s rule: rev_cases) (auto simp: trim_end_char_def)

lemma trim_end_char_last: "trim_end_char c s \<noteq> [] \<Longrightarrow> last (trim_end_char c s) \<noteq> c"
  using hd_dropWhile [of "\<lambda>x. x = c" "rev s"] by (auto simp: trim_end_char_def last_rev)

lemma trim_end_char_idem [simp]: "trim_end_char c (trim_end_char c s) = trim_end_char c s"
  using trim_end_char_id trim_end_char_last by blast

lemma trim_end_char_prefix: "prefix (trim_end_char c s) s"
  using suffix_dropWhile [of "\<lambda>x. x = c" "rev s"]
  by (simp add: trim_end_char_def suffix_to_prefix)

lemma takeWhile_trim_end_char:
  "takeWhile (\<lambda>x. x \<noteq> c) (trim_end_char c s) = takeWhile (\<lambda>x. x \<noteq> c) s"
proof -
  obtain t where t: "s = trim_end_char c s @ t"
    using trim_end_char_prefix [of c s] by (auto elim: prefixE)
  have "rev s = takeWhile (\<lambda>x. x = c) (rev s) @ rev (trim_end_char c s)"
    by (simp add: trim_end_char_def)
  then have "s = trim_end_char c s @ rev (takeWhile (\<lambda>x. x = c) (rev s))"
    by (metis rev_append rev_rev_ident)
  with t have "t = rev (takeWhile (\<lambda>x. x = c) (rev s))" by (metis same_append_eq)
  then have "\<forall>x \<in> set t. x = c" by (auto dest: set_takeWhileD)
  then have "takeWhile (\<lambda>x. x \<noteq> c) t = []" by (cases t) auto
  then show ?thesis
    by (subst (2) t) (auto simp: takeWhile_append takeWhile_eq_all_conv)
qed

section \<open>Lines and words\<close>

text \<open>
  \<^verbatim>\<open>str::lines\<close>: split at line feeds, a final empty piece dropped, one carriage return
  removed before each line feed.
\<close>

definition strip_cr :: "string \<Rightarrow> string" where
  "strip_cr s = (if s \<noteq> [] \<and> byte (last s) = 13 then butlast s else s)"

definition line_feed :: char where "line_feed = CHR 0x0A"

definition lines :: "string \<Rightarrow> string list" where
  "lines s = (let ps = split_on line_feed s
              in map strip_cr (butlast ps) @ (if last ps = [] then [] else [last ps]))"

text \<open>\<^verbatim>\<open>str::split_whitespace\<close>: the maximal runs without white space.\<close>

function split_whitespace_acc :: "string \<Rightarrow> string \<Rightarrow> string list" where
  "split_whitespace_acc acc s =
     (if s = [] then (if acc = [] then [] else [rev acc])
      else if ws_width s = 0 then split_whitespace_acc (hd s # acc) (tl s)
      else (if acc = [] then [] else [rev acc]) @ split_whitespace_acc [] (drop (ws_width s) s))"
  by pat_completeness auto
termination
  by (relation "measure (\<lambda>(acc, s). length s)") auto

declare split_whitespace_acc.simps [simp del]

definition split_whitespace :: "string \<Rightarrow> string list" where
  "split_whitespace s = split_whitespace_acc [] s"

lemma split_whitespace_acc_nonempty: "w \<in> set (split_whitespace_acc acc s) \<Longrightarrow> w \<noteq> []"
proof (induction acc s rule: split_whitespace_acc.induct)
  case (1 acc s)
  then show ?case
    by (subst (asm) (3) split_whitespace_acc.simps) (auto split: if_splits)
qed

lemma split_whitespace_nonempty: "w \<in> set (split_whitespace s) \<Longrightarrow> w \<noteq> []"
  by (simp add: split_whitespace_def split_whitespace_acc_nonempty)

lemma split_whitespace_acc_sublist:
  "w \<in> set (split_whitespace_acc acc s) \<Longrightarrow> sublist w (rev acc @ s)"
proof (induction acc s rule: split_whitespace_acc.induct)
  case (1 acc s)
  consider "s = []" | "s \<noteq> []" "ws_width s = 0" | "s \<noteq> []" "ws_width s \<noteq> 0" by blast
  then show ?case
  proof cases
    case 1
    with "1.prems" show ?thesis by (auto simp: split_whitespace_acc.simps [of acc "[]"] split: if_splits)
  next
    case 2
    with "1.prems" have "w \<in> set (split_whitespace_acc (hd s # acc) (tl s))"
      by (simp add: split_whitespace_acc.simps [of acc s])
    from "1.IH"(1) [OF 2(1) 2(2) this] 2(1) show ?thesis by simp
  next
    case 3
    then have "w = rev acc \<or> w \<in> set (split_whitespace_acc [] (drop (ws_width s) s))"
      using "1.prems" by (auto simp: split_whitespace_acc.simps [of acc s] split: if_splits)
    then show ?thesis
    proof
      assume "w \<in> set (split_whitespace_acc [] (drop (ws_width s) s))"
      with "1.IH"(2) 3 have "sublist w (drop (ws_width s) s)" by simp
      then have "sublist w s" using sublist_drop sublist_order.order_trans by blast
      then show ?thesis by (simp add: sublist_append_rightI sublist_append)
    qed simp
  qed
qed

lemma split_whitespace_sublist: "w \<in> set (split_whitespace s) \<Longrightarrow> sublist w s"
  using split_whitespace_acc_sublist [of w "[]" s] by (simp add: split_whitespace_def)

section \<open>Decimal numbers\<close>

definition digit_value :: "char \<Rightarrow> nat" where
  "digit_value c = byte c - 48"

fun digits_value :: "nat \<Rightarrow> string \<Rightarrow> nat" where
  "digits_value acc [] = acc"
| "digits_value acc (c # s) = digits_value (10 * acc + digit_value c) s"

text \<open>
  \<^verbatim>\<open>str::parse\<close> for an unsigned type with maximum \<open>m\<close>: an optional plus sign, then at
  least one digit and nothing else, and no overflow.
\<close>

definition parse_unsigned :: "nat \<Rightarrow> string \<Rightarrow> nat option" where
  "parse_unsigned m s =
     (let ds = (case s of c # r \<Rightarrow> if c = CHR ''+'' then r else s | [] \<Rightarrow> s)
      in if ds \<noteq> [] \<and> list_all is_ascii_digit ds \<and> digits_value 0 ds \<le> m
         then Some (digits_value 0 ds) else None)"

definition parse_u32 :: "string \<Rightarrow> 32 word option" where
  "parse_u32 s = map_option of_nat (parse_unsigned (2 ^ 32 - 1) s)"

definition parse_u16 :: "string \<Rightarrow> 16 word option" where
  "parse_u16 s = map_option of_nat (parse_unsigned (2 ^ 16 - 1) s)"

fun show_nat :: "nat \<Rightarrow> string" where
  "show_nat n = (if n < 10 then [char_of (48 + n)] else show_nat (n div 10) @ [char_of (48 + n mod 10)])"

declare show_nat.simps [simp del]

definition show_word :: "'a::len word \<Rightarrow> string" where
  "show_word w = show_nat (unat w)"

lemma parse_unsigned_bound: "parse_unsigned m s = Some n \<Longrightarrow> n \<le> m"
  by (auto simp: parse_unsigned_def Let_def split: if_splits)

lemma digit_byte: "d < 10 \<Longrightarrow> byte (char_of (48 + d)) = 48 + d"
  by simp

lemma show_nat_digits: "list_all is_ascii_digit (show_nat n)"
proof (induction n rule: show_nat.induct)
  case (1 n)
  have "n mod 10 < 10" by simp
  then have "is_ascii_digit (char_of (48 + n mod 10))"
    unfolding is_ascii_digit_def by (simp only: digit_byte) simp
  moreover have "n < 10 \<Longrightarrow> is_ascii_digit (char_of (48 + n))"
    unfolding is_ascii_digit_def by (simp only: digit_byte) simp
  ultimately show ?case
    using 1 by (subst show_nat.simps) simp
qed

lemma show_nat_not_Nil [simp]: "show_nat n \<noteq> []"
  by (subst show_nat.simps) simp

lemma digits_value_append: "digits_value acc (s @ t) = digits_value (digits_value acc s) t"
  by (induction s arbitrary: acc) auto

lemma digits_value_show_nat: "digits_value 0 (show_nat n) = n"
proof (induction n rule: show_nat.induct)
  case (1 n)
  show ?case
  proof (cases "n < 10")
    case True
    then show ?thesis by (subst show_nat.simps) (simp add: digit_value_def)
  next
    case False
    with 1 have "digits_value 0 (show_nat (n div 10)) = n div 10" by simp
    with False show ?thesis
      by (subst show_nat.simps) (simp add: digits_value_append digit_value_def)
  qed
qed

lemma length_show_nat: "n < 10 ^ Suc k \<Longrightarrow> length (show_nat n) \<le> Suc k"
proof (induction k arbitrary: n)
  case 0
  then show ?case by (simp add: show_nat.simps [of n])
next
  case (Suc k)
  then have "n div 10 < 10 ^ Suc k" by (simp add: div_less_iff_less_mult)
  from Suc.IH [OF this] show ?case by (simp add: show_nat.simps [of n])
qed

lemma hd_show_nat: "0 < n \<Longrightarrow> hd (show_nat n) \<noteq> CHR ''0''"
proof (induction n rule: show_nat.induct)
  case (1 n)
  show ?case
  proof (cases "n < 10")
    case True
    then have "byte (hd (show_nat n)) = 48 + n" by (simp add: show_nat.simps [of n])
    then show ?thesis using 1(2) by auto
  next
    case False
    then have "0 < n div 10" by (simp add: div_greater_zero_iff)
    with 1(1) False have "hd (show_nat (n div 10)) \<noteq> CHR ''0''" by simp
    with False show ?thesis by (simp add: show_nat.simps [of n])
  qed
qed

lemma plus_not_digit: "\<not> is_ascii_digit (CHR ''+'')"
  by (simp add: is_ascii_digit_def)

lemma parse_show_nat: "n \<le> m \<Longrightarrow> parse_unsigned m (show_nat n) = Some n"
proof -
  assume "n \<le> m"
  have "(case show_nat n of c # r \<Rightarrow> if c = CHR ''+'' then r else show_nat n | [] \<Rightarrow> show_nat n) = show_nat n"
    using show_nat_digits [of n] plus_not_digit by (cases "show_nat n") auto
  with \<open>n \<le> m\<close> show ?thesis
    by (simp add: parse_unsigned_def show_nat_digits digits_value_show_nat)
qed

lemma parse_u32_show: "parse_u32 (show_word w) = Some w"
proof -
  have "unat w < 2 ^ LENGTH(32)"
    by (rule unsigned_less)
  then have "unat w \<le> 2 ^ 32 - 1"
    by simp
  then show ?thesis
    by (simp add: parse_u32_def show_word_def parse_show_nat)
qed

section \<open>Lines and numbers\<close>

lemma lines_terminated:
  "\<forall>l \<in> set ls. line_feed \<notin> set l \<and> strip_cr l = l \<Longrightarrow> lines (concat (map (\<lambda>l. l @ [line_feed]) ls)) = ls"
proof -
  have "split_on line_feed (concat (map (\<lambda>l. l @ [line_feed]) ls)) = ls @ [[]]"
    if "\<forall>l \<in> set ls. line_feed \<notin> set l"
    using that by (induction ls) (simp_all add: split_on_append_sep)
  then show "\<forall>l \<in> set ls. line_feed \<notin> set l \<and> strip_cr l = l \<Longrightarrow> lines (concat (map (\<lambda>l. l @ [line_feed]) ls)) = ls"
    by (simp add: lines_def map_idI)
qed

lemma digits_plain: "c \<in> set (show_word w) \<Longrightarrow> is_ascii_digit c"
  using show_nat_digits [of "unat w"] by (simp add: show_word_def list_all_iff)

lemma set_join: "set (join sep xs) \<subseteq> set sep \<union> \<Union> (set ` set xs)"
  by (induction xs rule: induct_list012) auto

end
