(* ===== verification/Krb5.thy ===== *)
theory Krb5
  imports Rust_Str
begin

text \<open>
  Kerberos names, from \<^verbatim>\<open>nfs-klldap-identity/src/krb5\<close>: principals (\<^verbatim>\<open>principal.rs\<close>), the realm
  derived from an LDAP URI (\<^verbatim>\<open>realm.rs\<close>), the short and qualified host names of the NFS
  service (\<^verbatim>\<open>hostname.rs\<close>) and the reading of \<^verbatim>\<open>klist\<close> output (\<^verbatim>\<open>keytab.rs\<close>).
\<close>

section \<open>Principals\<close>

definition MACHINE_PRINCIPAL_PREFIXES :: "string list" where
  "MACHINE_PRINCIPAL_PREFIXES = [''host/'', ''nfs/'', ''root/'']"

definition principal_local_part :: "string \<Rightarrow> string" where
  "principal_local_part p = hd (split_on CHR ''@'' (trim p))"

definition is_numeric_local_principal :: "string \<Rightarrow> bool" where
  "is_numeric_local_principal p =
     (let local = principal_local_part p in local \<noteq> [] \<and> list_all is_ascii_digit local)"

definition machine_short_name :: "string \<Rightarrow> string" where
  "machine_short_name p = last (split_on CHR ''/'' (principal_local_part p))"

text \<open>The reason strings of \<^verbatim>\<open>classify_principal\<close>, by the branch that produces them.\<close>

datatype classify_reason =
    MachinePrefix string
  | RealmMismatch string string
  | ServerHostPrincipal string
  | BareServiceName
  | RegularUser

definition classify_principal ::
  "string \<Rightarrow> string \<Rightarrow> string list \<Rightarrow> bool \<times> classify_reason" where
  "classify_principal p realm server_variants =
     (let prin = trim p;
          local = to_ascii_lowercase (principal_local_part prin);
          realm_u = to_ascii_uppercase (trim realm);
          p_realm = (case rsplit_once CHR ''@'' prin of
                       None \<Rightarrow> [] | Some (_, r) \<Rightarrow> to_ascii_uppercase (trim r))
      in if list_ex (\<lambda>pref. starts_with local pref) MACHINE_PRINCIPAL_PREFIXES
         then (True, MachinePrefix local)
         else if realm_u \<noteq> [] \<and> CHR ''@'' \<in> set prin \<and> p_realm \<noteq> [] \<and> p_realm \<noteq> realm_u
         then (False, RealmMismatch p_realm realm_u)
         else (case find (\<lambda>v. let v_l = to_ascii_lowercase v
                              in local = ''host/'' @ v_l \<or> local = ''nfs/'' @ v_l) server_variants of
                 Some v \<Rightarrow> (True, ServerHostPrincipal v)
               | None \<Rightarrow>
                   if local = ''host'' \<or> local = ''nfs'' \<or> local = ''root''
                   then (True, BareServiceName) else (False, RegularUser)))"

definition principal_has_realm :: "string \<Rightarrow> bool" where
  "principal_has_realm p =
     (case rsplit_once CHR ''@'' (trim p) of None \<Rightarrow> False | Some (_, r) \<Rightarrow> \<not> is_blank r)"

definition normalize_principal :: "string \<Rightarrow> string" where
  "normalize_principal p0 =
     (let p = trim p0 in
      case split_once CHR ''@'' p of
        Some (_, r) \<Rightarrow> principal_local_part p @ ''@'' @ to_ascii_uppercase (trim r)
      | None \<Rightarrow> p)"

definition canonicalize_principal :: "string \<Rightarrow> string \<Rightarrow> string" where
  "canonicalize_principal p0 realm =
     (let p = trim p0; realm_u = to_ascii_uppercase (trim realm) in
      if realm_u = [] then normalize_principal p
      else case split_once CHR ''@'' p of
             Some (local, r) \<Rightarrow>
               if is_blank r then local @ ''@'' @ realm_u else normalize_principal p
           | None \<Rightarrow>
               if CHR ''/'' \<in> set p \<or> p \<noteq> [] then p @ ''@'' @ realm_u
               else normalize_principal p)"

section \<open>Realms\<close>

definition extract_host_from_uri :: "string \<Rightarrow> string" where
  "extract_host_from_uri uri =
     (let after = (case split_once_str ''://'' uri of
                     None \<Rightarrow> uri
                   | Some (_, r) \<Rightarrow> (case split_once_str ''://'' r of None \<Rightarrow> r | Some (a, _) \<Rightarrow> a));
          plain = takeWhile (\<lambda>c. c \<noteq> CHR '':'' \<and> c \<noteq> CHR ''/'') after
      in case strip_prefix ''['' after of
           Some rest \<Rightarrow> (case split_once CHR '']'' rest of Some (h, _) \<Rightarrow> h | None \<Rightarrow> plain)
         | None \<Rightarrow> plain)"

definition derive_realm_from_uri :: "string \<Rightarrow> string option" where
  "derive_realm_from_uri uri =
     (let host = extract_host_from_uri uri in
      if host = [] then None
      else Some (to_uppercase (case split_once CHR ''.'' host of Some (_, d) \<Rightarrow> d | None \<Rightarrow> host)))"

text \<open>
  \<^verbatim>\<open>str::parse::<IpAddr>\<close> of the standard library, as the recursive-descent reader it is: each
  reader returns the unread rest of the input. A decimal group has at most three digits and no
  leading zero; a hexadecimal group has at most four digits.
\<close>

definition read_octet :: "string \<Rightarrow> string option" where
  "read_octet s =
     (let ds = takeWhile is_ascii_digit s in
      if ds = [] \<or> length ds > 3 \<or> (length ds > 1 \<and> hd ds = CHR ''0'') \<or> digits_value 0 ds > 255
      then None else Some (drop (length ds) s))"

fun read_octets :: "nat \<Rightarrow> string \<Rightarrow> string option" where
  "read_octets 0 s = Some s"
| "read_octets (Suc n) s =
     (case s of
        c # r \<Rightarrow> if c = CHR ''.'' then Option.bind (read_octet r) (read_octets n) else None
      | [] \<Rightarrow> None)"

definition read_ipv4 :: "string \<Rightarrow> string option" where
  "read_ipv4 s = Option.bind (read_octet s) (read_octets 3)"

definition read_group :: "string \<Rightarrow> string option" where
  "read_group s =
     (let ds = takeWhile is_ascii_hexdigit s in
      if ds = [] \<or> length ds > 4 then None else Some (drop (length ds) s))"

definition read_sep :: "nat \<Rightarrow> (string \<Rightarrow> string option) \<Rightarrow> string \<Rightarrow> string option" where
  "read_sep i f s =
     (if i = 0 then f s
      else case s of c # r \<Rightarrow> if c = CHR '':'' then f r else None | [] \<Rightarrow> None)"

text \<open>\<open>read_groups left i s\<close>: up to \<open>left\<close> more groups, \<open>i\<close> read so far; the number read, whether
  the last was an IPv4 tail, and the rest.\<close>

fun read_groups :: "nat \<Rightarrow> nat \<Rightarrow> string \<Rightarrow> nat \<times> bool \<times> string" where
  "read_groups 0 i s = (i, False, s)"
| "read_groups (Suc k) i s =
     (case (if k > 0 then read_sep i read_ipv4 s else None) of
        Some r \<Rightarrow> (i + 2, True, r)
      | None \<Rightarrow> (case read_sep i read_group s of
                   Some r \<Rightarrow> read_groups k (Suc i) r
                 | None \<Rightarrow> (i, False, s)))"

definition read_ipv6 :: "string \<Rightarrow> string option" where
  "read_ipv6 s =
     (case read_groups 8 0 s of (n, v4, r) \<Rightarrow>
        if n = 8 then Some r
        else if v4 then None
        else case strip_prefix ''::'' r of
               None \<Rightarrow> None
             | Some t \<Rightarrow> (case read_groups (7 - n) 0 t of (_, _, u) \<Rightarrow> Some u))"

definition parses_ip :: "string \<Rightarrow> bool" where
  "parses_ip s = (read_ipv4 s = Some [] \<or> read_ipv6 s = Some [])"

definition host_is_ip :: "string \<Rightarrow> bool" where
  "host_is_ip host =
     parses_ip (unwrap_or (Option.bind (strip_prefix ''['' host) (strip_suffix '']'')) host)"

section \<open>Host names of the NFS service\<close>

record NfsHostIdentity =
  short :: string
  fqdn :: "string option"

definition variants :: "NfsHostIdentity \<Rightarrow> string list" where
  "variants h =
     (case fqdn h of
        Some f \<Rightarrow> if \<not> eq_ignore_ascii_case f (short h) then [short h, f]
                  else if short h = [] then [] else [short h]
      | None \<Rightarrow> if short h = [] then [] else [short h])"

definition preferred :: "NfsHostIdentity \<Rightarrow> string" where
  "preferred h = unwrap_or (fqdn h) (short h)"

definition realm_dns_domain :: "string \<Rightarrow> string option" where
  "realm_dns_domain realm =
     (let r = trim_char CHR ''.'' (trim realm) in
      if r = [] then None
      else if eq_ignore_ascii_case r ''YOUR.REALM'' \<or> eq_ignore_ascii_case r ''YOUR'' then None
      else Some (to_ascii_lowercase r))"

definition resolve_nfs_host_identity :: "string \<Rightarrow> string \<Rightarrow> NfsHostIdentity" where
  "resolve_nfs_host_identity host realm =
     (let h = trim_char CHR ''.'' (trim host) in
      if h = [] then \<lparr>short = [], fqdn = None\<rparr>
      else let s = hd (split_on CHR ''.'' h) in
           if CHR ''.'' \<in> set h then \<lparr>short = s, fqdn = Some h\<rparr>
           else \<lparr>short = s, fqdn = map_option (\<lambda>d. s @ ''.'' @ d) (realm_dns_domain realm)\<rparr>)"

definition nfs_keytab_host_variants :: "string \<Rightarrow> string \<Rightarrow> string list" where
  "nfs_keytab_host_variants host realm = variants (resolve_nfs_host_identity host realm)"

definition format_nfs_principal_list :: "string \<Rightarrow> string \<Rightarrow> string" where
  "format_nfs_principal_list host realm =
     join '', '' (map (\<lambda>h. ''nfs/'' @ h @ ''@'' @ realm) (nfs_keytab_host_variants host realm))"

definition nfs_keytab_host_matches :: "string \<Rightarrow> string \<Rightarrow> bool" where
  "nfs_keytab_host_matches keytab_host container_host =
     (let k = to_lowercase (trim keytab_host); c = to_lowercase (trim container_host) in
      k \<noteq> [] \<and> c \<noteq> [] \<and> (k = c \<or> hd (split_on CHR ''.'' k) = hd (split_on CHR ''.'' c)))"

definition looks_like_docker_default_hostname :: "string \<Rightarrow> bool" where
  "looks_like_docker_default_hostname h0 =
     (let h = trim h0 in
      CHR ''.'' \<notin> set h \<and> 8 \<le> length h \<and> length h \<le> 20 \<and> list_all is_ascii_hexdigit h)"

section \<open>Keytabs\<close>

text \<open>\<^verbatim>\<open>sort\<close> followed by \<^verbatim>\<open>dedup\<close>; strings compare bytewise.\<close>

definition sort_dedup :: "string list \<Rightarrow> string list" where
  "sort_dedup xs = remdups_adj (sort xs)"

definition nfs_tokens_of_line :: "string \<Rightarrow> string list" where
  "nfs_tokens_of_line line =
     (if contains_str line ''nfs/''
      then filter (\<lambda>t. starts_with t ''nfs/'' \<and> CHR ''@'' \<in> set t) (split_whitespace line)
      else [])"

definition parse_klist_nfs_principals :: "string \<Rightarrow> string list" where
  "parse_klist_nfs_principals stdout = sort_dedup (concat (map nfs_tokens_of_line (lines stdout)))"

definition nfs_principal_host :: "string \<Rightarrow> string option" where
  "nfs_principal_host p =
     Option.bind (strip_prefix ''nfs/'' p) (\<lambda>r. map_option fst (split_once CHR ''@'' r))"

definition parse_klist_nfs_hosts :: "string \<Rightarrow> string list" where
  "parse_klist_nfs_hosts stdout =
     sort_dedup (List.map_filter nfs_principal_host (parse_klist_nfs_principals stdout))"

text \<open>
  What running \<^verbatim>\<open>klist\<close> yields: the keytab may be missing, the tool may fail to start, exit
  with an error, or print text.
\<close>

datatype klist_run = KeytabMissing | KlistUnavailable string | KlistFailed | KlistOutput string

datatype keytab_error = KeytabNotFound | KlistNotAvailable string

fun read_keytab_nfs_principals :: "klist_run \<Rightarrow> (keytab_error, string list) result" where
  "read_keytab_nfs_principals KeytabMissing = Err KeytabNotFound"
| "read_keytab_nfs_principals (KlistUnavailable e) = Err (KlistNotAvailable e)"
| "read_keytab_nfs_principals KlistFailed = Ok []"
| "read_keytab_nfs_principals (KlistOutput out) = Ok (parse_klist_nfs_principals out)"

definition principal_matches_host :: "string \<Rightarrow> string \<Rightarrow> string \<Rightarrow> bool" where
  "principal_matches_host p expected_host expected_realm =
     (case strip_prefix ''nfs/'' p of
        None \<Rightarrow> False
      | Some rest \<Rightarrow>
          (case split_once CHR ''@'' rest of
             None \<Rightarrow> False
           | Some (host_part, realm_part) \<Rightarrow>
               eq_ignore_ascii_case realm_part expected_realm
                 \<and> nfs_keytab_host_matches host_part expected_host))"

datatype keytab_alert = NoMatch string "string list" | Unreadable string keytab_error

record KeytabInfo =
  keytab_path :: string
  expected_host :: string
  expected_realm :: string
  found_nfs_principals :: "string list"
  alert :: "keytab_alert option"

definition get_keytab_info :: "klist_run \<Rightarrow> string \<Rightarrow> string \<Rightarrow> KeytabInfo" where
  "get_keytab_info run host realm =
     (let expected_list = format_nfs_principal_list host realm;
          (found, al) =
            (case read_keytab_nfs_principals run of
               Inr principals \<Rightarrow>
                 (principals,
                  if filter (\<lambda>p. principal_matches_host p host realm) principals \<noteq> [] then None
                  else Some (NoMatch expected_list principals))
             | Inl err \<Rightarrow> ([], Some (Unreadable expected_list err)))
      in \<lparr>keytab_path = ''/etc/krb5.keytab'', expected_host = host, expected_realm = realm, found_nfs_principals = found, alert = al\<rparr>)"

section \<open>Laws of principals\<close>

lemma inked_at [simp]: "inked (CHR ''@'')"
  by (simp add: inked_def is_ascii_def ws1_def)

lemma local_part_at:
  assumes "split_once CHR ''@'' (trim p) = Some (l, r)"
  shows "principal_local_part p = l"
  using assms by (auto simp: principal_local_part_def split_once_Some_iff hd_split_on_append)

lemma local_part_no_at:
  assumes "CHR ''@'' \<notin> set (trim p)"
  shows "principal_local_part p = trim p"
  using assms by (simp add: principal_local_part_def split_on_single)

lemma local_part_trim [simp]: "principal_local_part (trim p) = principal_local_part p"
  by (simp add: principal_local_part_def)

lemma normalize_principal_at:
  assumes "split_once CHR ''@'' (trim p) = Some (l, r)"
  shows "normalize_principal p = l @ ''@'' @ to_ascii_uppercase (trim r)"
  using assms by (simp add: normalize_principal_def local_part_at)

lemma normalize_principal_no_at:
  assumes "CHR ''@'' \<notin> set (trim p)"
  shows "normalize_principal p = trim p"
  using assms by (simp add: normalize_principal_def split_once_None_iff [THEN iffD2])

lemma normalize_principal_trim [simp]: "normalize_principal (trim p) = normalize_principal p"
  by (simp add: normalize_principal_def)

text \<open>Putting a trimmed realm behind the local part of a trimmed principal leaves it trimmed.\<close>

lemma trim_with_realm:
  assumes "split_once CHR ''@'' (trim p) = Some (l, r)" and "trim R = R"
  shows "trim (l @ ''@'' @ R) = l @ ''@'' @ R"
proof -
  from assms(1) have "trim p = l @ CHR ''@'' # r"
    by (simp add: split_once_Some_iff)
  with trim_idem [of p] have "ws_width l = 0"
    by (simp add: trim_barrier_iff)
  with assms(2) show ?thesis
    by (simp add: trim_id_iff ws_width_barrier ws_width_rev_barrier)
qed

lemma trim_append_realm:
  assumes "trim R = R"
  shows "trim (trim p @ ''@'' @ R) = trim p @ ''@'' @ R"
  using assms by (simp add: trim_id_iff [of R] trim_barrier_iff)

lemma trim_upper_realm [simp]:
  "trim (to_ascii_uppercase (trim r)) = to_ascii_uppercase (trim r)"
  by (simp add: trim_case_fixed)

lemma split_once_prefix_at:
  assumes "split_once CHR ''@'' s = Some (l, r)"
  shows "split_once CHR ''@'' (l @ ''@'' @ R) = Some (l, R)"
  using assms by (simp add: split_once_Some_iff)

lemma normalize_principal_idem: "normalize_principal (normalize_principal p) = normalize_principal p"
proof (cases "split_once CHR ''@'' (trim p)")
  case None
  then have no_at: "CHR ''@'' \<notin> set (trim p)"
    by (simp add: split_once_None_iff)
  then show ?thesis
    by (simp add: normalize_principal_no_at)
next
  case (Some lr)
  obtain l r where lr: "lr = (l, r)" by fastforce
  let ?n = "l @ ''@'' @ to_ascii_uppercase (trim r)"
  have n: "normalize_principal p = ?n"
    using Some lr by (simp add: normalize_principal_at)
  have "split_once CHR ''@'' (trim ?n) = Some (l, to_ascii_uppercase (trim r))"
    using Some lr by (simp only: trim_with_realm trim_upper_realm split_once_prefix_at)
  then have "normalize_principal ?n = l @ ''@'' @ to_ascii_uppercase (trim (to_ascii_uppercase (trim r)))"
    by (rule normalize_principal_at)
  with n show ?thesis by simp
qed

interpretation principal_nf: normal_form normalize_principal
  by unfold_locales (rule normalize_principal_idem)

text \<open>The three shapes of a canonical principal when a realm is configured.\<close>

lemma canonicalize_cases:
  assumes "\<not> is_blank realm"
  shows "canonicalize_principal p realm =
    (case split_once CHR ''@'' (trim p) of
       Some (l, r) \<Rightarrow>
         l @ ''@'' @ (if is_blank r then to_ascii_uppercase (trim realm) else to_ascii_uppercase (trim r))
     | None \<Rightarrow> if is_blank p then [] else trim p @ ''@'' @ to_ascii_uppercase (trim realm))"
proof (cases "split_once CHR ''@'' (trim p)")
  case None
  then have "CHR ''@'' \<notin> set (trim p)" by (simp add: split_once_None_iff)
  with None assms show ?thesis
    by (simp add: canonicalize_principal_def Let_def normalize_principal_no_at)
next
  case (Some lr)
  then have "CHR ''@'' \<in> set (trim p)" "\<not> is_blank p"
    by (cases lr; auto simp: split_once_Some_iff)+
  with Some assms show ?thesis
    by (cases lr) (simp add: canonicalize_principal_def Let_def normalize_principal_at)
qed

lemma canonicalize_has_at:
  assumes "\<not> is_blank realm" and "\<not> is_blank p"
  shows "\<exists>l R. canonicalize_principal p realm = l @ ''@'' @ R \<and> CHR ''@'' \<notin> set l
    \<and> R \<noteq> [] \<and> trim R = R \<and> to_ascii_uppercase R = R
    \<and> trim (canonicalize_principal p realm) = canonicalize_principal p realm"
proof (cases "split_once CHR ''@'' (trim p)")
  case None
  define R where "R = to_ascii_uppercase (trim realm)"
  have R: "R \<noteq> []" "trim R = R" "to_ascii_uppercase R = R"
    using assms(1) by (auto simp: R_def)
  have "canonicalize_principal p realm = trim p @ ''@'' @ R"
    using None assms by (simp add: canonicalize_cases R_def)
  moreover have "trim (trim p @ ''@'' @ R) = trim p @ ''@'' @ R"
    using R(2) by (rule trim_append_realm)
  moreover have "CHR ''@'' \<notin> set (trim p)"
    using None by (simp add: split_once_None_iff)
  ultimately show ?thesis using R by auto
next
  case (Some lr)
  obtain l r where lr: "lr = (l, r)" by fastforce
  define R where "R = (if is_blank r then to_ascii_uppercase (trim realm) else to_ascii_uppercase (trim r))"
  have R: "R \<noteq> []" "trim R = R" "to_ascii_uppercase R = R"
    using assms(1) by (auto simp: R_def)
  have c: "canonicalize_principal p realm = l @ ''@'' @ R"
    using Some lr assms(1) by (simp add: canonicalize_cases R_def)
  moreover have "trim (l @ ''@'' @ R) = l @ ''@'' @ R"
    using Some lr R(2) by (simp only: trim_with_realm)
  moreover have "CHR ''@'' \<notin> set l"
    using Some lr by (simp add: split_once_Some_iff)
  ultimately show ?thesis using R by auto
qed

lemma canonicalize_local_part:
  assumes "\<not> is_blank realm" and "\<not> is_blank p"
  shows "\<exists>R. canonicalize_principal p realm = principal_local_part p @ ''@'' @ R
    \<and> R \<noteq> [] \<and> trim R = R \<and> to_ascii_uppercase R = R"
proof (cases "split_once CHR ''@'' (trim p)")
  case None
  then have "principal_local_part p = trim p"
    by (simp add: local_part_no_at split_once_None_iff)
  then show ?thesis using None assms by (auto simp: canonicalize_cases)
next
  case (Some lr)
  obtain l r where lr: "lr = (l, r)" by fastforce
  with Some have "principal_local_part p = l" by (simp add: local_part_at)
  then show ?thesis using Some lr assms by (auto simp: canonicalize_cases)
qed

lemma canonicalize_principal_idem:
  assumes "\<not> is_blank realm"
  shows "canonicalize_principal (canonicalize_principal p realm) realm = canonicalize_principal p realm"
proof (cases "is_blank p")
  case True
  with assms have "canonicalize_principal p realm = []"
    by (simp add: canonicalize_cases)
  then show ?thesis using assms by (simp add: canonicalize_cases)
next
  case False
  from canonicalize_has_at [OF assms False] obtain l R where
    c: "canonicalize_principal p realm = l @ ''@'' @ R" and l: "CHR ''@'' \<notin> set l"
    and R: "R \<noteq> []" "trim R = R" "to_ascii_uppercase R = R"
    and t: "trim (canonicalize_principal p realm) = canonicalize_principal p realm"
    by blast
  have nb: "\<not> is_blank R"
    using R(1,2) by (metis trim_Nil_iff)
  have "split_once CHR ''@'' (trim (canonicalize_principal p realm)) = Some (l, R)"
    using c l t by (simp add: split_once_Some_iff)
  then have "canonicalize_principal (canonicalize_principal p realm) realm = l @ ''@'' @ R"
    using assms R nb by (simp add: canonicalize_cases)
  with c show ?thesis by simp
qed

text \<open>A server variant can only name a principal that the prefix test has already accepted.\<close>

lemma variant_branch_dead:
  assumes "\<not> list_ex (\<lambda>pref. starts_with local pref) MACHINE_PRINCIPAL_PREFIXES"
  shows "find (\<lambda>v. let v_l = to_ascii_lowercase v in local = ''host/'' @ v_l \<or> local = ''nfs/'' @ v_l) vs = None"
  using assms
  by (auto simp: MACHINE_PRINCIPAL_PREFIXES_def find_None_iff Let_def)

text \<open>A principal names a foreign realm when it carries a non-blank realm other than the configured one.\<close>

definition foreign_realm :: "string \<Rightarrow> string \<Rightarrow> bool" where
  "foreign_realm p realm =
     (case rsplit_once CHR ''@'' (trim p) of
        None \<Rightarrow> False
      | Some (_, r) \<Rightarrow> \<not> is_blank realm \<and> \<not> is_blank r
          \<and> to_ascii_uppercase (trim r) \<noteq> to_ascii_uppercase (trim realm))"

text \<open>A principal is classified as a machine account exactly when its lower-cased local part has
  one of the machine prefixes, or when its realm is not a foreign one and the local part is a
  bare service name. The list of server names never matters: the branch that consults it can
  only be reached by principals that the prefix test has already accepted.\<close>

theorem classify_principal_machine_iff:
  "classify_principal p realm server_variants = classify_principal p realm [] \<and>
   (fst (classify_principal p realm server_variants) \<longleftrightarrow>
     list_ex (\<lambda>pref. prefix pref (to_ascii_lowercase (principal_local_part p))) MACHINE_PRINCIPAL_PREFIXES \<or>
     (to_ascii_lowercase (principal_local_part p) \<in> {''host'', ''nfs'', ''root''} \<and> \<not> foreign_realm p realm))"
proof
  define local where "local = to_ascii_lowercase (principal_local_part p)"
  note dead = variant_branch_dead [of local server_variants]
  show "classify_principal p realm server_variants = classify_principal p realm []"
    unfolding classify_principal_def Let_def local_part_trim trim_idem local_def [symmetric]
    using dead by (auto simp: Let_def)
  have at: "CHR ''@'' \<in> set (trim p) \<longleftrightarrow> (\<exists>l r. rsplit_once CHR ''@'' (trim p) = Some (l, r))"
    using rsplit_once_None_iff [of "CHR ''@''" "trim p"] by fastforce
  show "fst (classify_principal p realm server_variants) \<longleftrightarrow>
     list_ex (\<lambda>pref. prefix pref (to_ascii_lowercase (principal_local_part p))) MACHINE_PRINCIPAL_PREFIXES \<or>
     (to_ascii_lowercase (principal_local_part p) \<in> {''host'', ''nfs'', ''root''} \<and> \<not> foreign_realm p realm)"
    unfolding classify_principal_def Let_def local_part_trim trim_idem local_def [symmetric]
      foreign_realm_def at
    using dead by (auto simp: Let_def split: option.splits)
qed

text \<open>With a realm configured, canonicalising a non-blank principal yields a trimmed principal
  whose realm is present and in upper case, and canonicalising it again changes nothing; the
  local part of a principal that had one is kept.\<close>

theorem canonicalize_principal_canonical:
  assumes "\<not> is_blank realm"
  shows "canonicalize_principal (canonicalize_principal p realm) realm = canonicalize_principal p realm
    \<and> (\<not> is_blank p \<longrightarrow>
        (\<exists>R. canonicalize_principal p realm = principal_local_part p @ ''@'' @ R
           \<and> R \<noteq> [] \<and> trim R = R \<and> to_ascii_uppercase R = R))"
  using canonicalize_principal_idem [OF assms] canonicalize_local_part [OF assms] by blast

theorem canonicalize_principal_canonical_witness:
  "canonicalize_principal (canonicalize_principal '' alice@'' ''example.com '') ''example.com '' =
     canonicalize_principal '' alice@'' ''example.com ''
   \<and> canonicalize_principal '' alice@'' ''example.com '' = ''alice@EXAMPLE.COM''"
proof -
  have "\<not> is_blank ''example.com ''" by code_simp
  from canonicalize_principal_canonical [OF this, of "'' alice@''"]
  have "canonicalize_principal (canonicalize_principal '' alice@'' ''example.com '') ''example.com '' =
     canonicalize_principal '' alice@'' ''example.com ''" by (rule conjunct1)
  moreover have "canonicalize_principal '' alice@'' ''example.com '' = ''alice@EXAMPLE.COM''" by code_simp
  ultimately show ?thesis by (rule conjI)
qed

section \<open>Laws of host names and keytabs\<close>

text \<open>Names made of letters, digits, hyphens and dots: host names and Kerberos realms.\<close>

definition dns_char :: "char \<Rightarrow> bool" where
  "dns_char c = (is_ascii_alnum c \<or> c = CHR ''-'' \<or> c = CHR ''.'')"

definition dns_name :: "string \<Rightarrow> bool" where
  "dns_name s = list_all dns_char s"

lemma dns_char_inked: "dns_char c \<Longrightarrow> inked c"
  by (auto simp: dns_char_def inked_def is_ascii_def ws1_def char_class_defs)

lemma dns_char_lower: "dns_char c \<Longrightarrow> dns_char (ascii_lower c)"
  by (auto simp: dns_char_def is_ascii_alnum_def is_ascii_digit_def is_ascii_upper_def
      is_ascii_lower_def byte_ascii_lower) (auto simp: ascii_lower_def is_ascii_upper_def)

lemma trim_dns_name: "dns_name s \<Longrightarrow> trim s = s"
  by (cases "s = []") (auto simp: dns_name_def list_all_iff intro!: trim_inked dns_char_inked)

lemma dns_name_no_at: "dns_name s \<Longrightarrow> CHR ''@'' \<notin> set s"
  by (auto simp: dns_name_def list_all_iff dns_char_def char_class_defs)

lemma dns_name_sub: "dns_name s \<Longrightarrow> set t \<subseteq> set s \<Longrightarrow> dns_name t"
  by (auto simp: dns_name_def list_all_iff)

lemma dns_name_lower: "dns_name s \<Longrightarrow> dns_name (to_ascii_lowercase s)"
  by (auto simp: dns_name_def list_all_iff to_ascii_lowercase_def dns_char_lower)

lemma set_trim_char: "set (trim_char c s) \<subseteq> set s"
  unfolding trim_char_def trim_end_char_def
  by (auto dest!: set_dropWhileD)

lemma first_label_trim_char:
  assumes "s \<noteq> []" "hd s \<noteq> c"
  shows "takeWhile (\<lambda>x. x \<noteq> c) (trim_char c s) = takeWhile (\<lambda>x. x \<noteq> c) s"
proof -
  have "dropWhile (\<lambda>x. x = c) s = s" using assms by (cases s) auto
  then show ?thesis by (simp add: trim_char_def takeWhile_trim_end_char)
qed

lemma lower_dot_iff [simp]: "ascii_lower c = CHR ''.'' \<longleftrightarrow> c = CHR ''.''"
proof -
  have "ascii_lower c = CHR ''.'' \<longleftrightarrow> byte (ascii_lower c) = byte (CHR ''.'')"
    by (simp only: byte_inject)
  also have "\<dots> \<longleftrightarrow> byte c = byte (CHR ''.'')"
    by (simp add: byte_ascii_lower is_ascii_upper_def)
  finally show ?thesis by (simp only: byte_inject)
qed

lemma first_label_lower:
  "takeWhile (\<lambda>x. x \<noteq> CHR ''.'') (to_lowercase s) = to_lowercase (takeWhile (\<lambda>x. x \<noteq> CHR ''.'') s)"
  by (induction s) (auto simp: to_lowercase_def)

text \<open>Two host names match exactly when both are non-blank and agree on the first label, up to case.\<close>

lemma nfs_keytab_host_matches_iff:
  "nfs_keytab_host_matches k c \<longleftrightarrow> \<not> is_blank k \<and> \<not> is_blank c \<and>
     hd (split_on CHR ''.'' (to_lowercase (trim k))) = hd (split_on CHR ''.'' (to_lowercase (trim c)))"
  by (auto simp: nfs_keytab_host_matches_def Let_def)

text \<open>Every recommended variant of a host name has the host name's first label.\<close>

lemma variant_first_label:
  assumes "dns_name host" "dns_name realm" "host \<noteq> []" "hd host \<noteq> CHR ''.''"
    and "v \<in> set (nfs_keytab_host_variants host realm)"
  shows "dns_name v"
    and "takeWhile (\<lambda>x. x \<noteq> CHR ''.'') v = takeWhile (\<lambda>x. x \<noteq> CHR ''.'') host"
proof -
  define s where "s = takeWhile (\<lambda>x. x \<noteq> CHR ''.'') host"
  define h where "h = trim_char CHR ''.'' host"
  have label: "takeWhile (\<lambda>x. x \<noteq> CHR ''.'') h = s"
    using assms(3,4) by (simp add: h_def s_def first_label_trim_char)
  have s: "dns_name s" "CHR ''.'' \<notin> set s"
    using assms(1) by (auto simp: s_def dest: set_takeWhileD intro: dns_name_sub)
  have h: "dns_name h"
    using assms(1) set_trim_char by (auto simp: h_def intro: dns_name_sub)
  have d: "dns_name (to_ascii_lowercase (trim_char CHR ''.'' realm))"
    using assms(2) set_trim_char by (auto intro!: dns_name_lower intro: dns_name_sub)
  have domn: "realm_dns_domain realm = Some d' \<Longrightarrow> dns_name d'" for d'
    using d assms(2) by (auto simp: realm_dns_domain_def Let_def trim_dns_name split: if_splits)
  have "v = s \<or> v = h \<or> (\<exists>d'. realm_dns_domain realm = Some d' \<and> v = s @ ''.'' @ d')"
    using assms(5)
    by (cases "realm_dns_domain realm") (auto simp: nfs_keytab_host_variants_def resolve_nfs_host_identity_def variants_def Let_def
        trim_dns_name [OF assms(1)] h_def [symmetric] hd_split_on label
        split: if_splits option.splits)
  then show "dns_name v" and "takeWhile (\<lambda>x. x \<noteq> CHR ''.'') v = takeWhile (\<lambda>x. x \<noteq> CHR ''.'') host"
    using s h label domn
    by (auto simp: s_def [symmetric] takeWhile_eq_all_conv dns_name_def dns_char_def
        takeWhile_append)
qed

lemma variant_matches_host:
  assumes "dns_name host" "dns_name realm" "host \<noteq> []" "hd host \<noteq> CHR ''.''"
    and "v \<in> set (nfs_keytab_host_variants host realm)"
  shows "principal_matches_host (''nfs/'' @ v @ ''@'' @ realm) host realm"
proof -
  note v = variant_first_label [OF assms]
  have "v \<noteq> []"
    using v(2) assms(3,4) by (cases host) auto
  then have "nfs_keytab_host_matches v host"
    using v assms(1,3)
    by (simp add: nfs_keytab_host_matches_iff trim_dns_name hd_split_on first_label_lower is_blank_def
        del: trim_Nil_iff)
  moreover have "split_once CHR ''@'' (v @ ''@'' @ realm) = Some (v, realm)"
    using v(1) by (simp add: split_once_append dns_name_no_at)
  ultimately show ?thesis
    using strip_prefix_append [of "''nfs/''"] by (simp add: principal_matches_host_def)
qed

lemma set_sort_dedup [simp]: "set (sort_dedup xs) = set xs"
  by (simp add: sort_dedup_def)

lemma sort_dedup_strict: "sorted (sort_dedup xs) \<and> distinct (sort_dedup xs)"
  by (simp add: sort_dedup_def distinct_remdups_adj_sorted)

text \<open>Reading \<^verbatim>\<open>klist\<close> output collects, in strictly increasing order and without repetition,
  exactly the words of its lines that begin with \<^verbatim>\<open>nfs/\<close> and contain an at sign; the line-wise
  pre-test for \<^verbatim>\<open>nfs/\<close> loses none.\<close>

theorem parse_klist_nfs_principals_exact:
  "sorted (parse_klist_nfs_principals out) \<and> distinct (parse_klist_nfs_principals out) \<and>
   set (parse_klist_nfs_principals out) =
     {t. (\<exists>line. line \<in> set (lines out) \<and> t \<in> set (split_whitespace line))
       \<and> prefix ''nfs/'' t \<and> CHR ''@'' \<in> set t}"
proof -
  have "t \<in> set (nfs_tokens_of_line line) \<longleftrightarrow>
      t \<in> set (split_whitespace line) \<and> prefix ''nfs/'' t \<and> CHR ''@'' \<in> set t" for t line
    using split_whitespace_sublist [of t line]
    by (auto simp: nfs_tokens_of_line_def contains_str_sublist
        dest: prefix_imp_sublist sublist_order.order_trans)
  then show ?thesis
    by (auto simp: parse_klist_nfs_principals_def sort_dedup_strict)
qed

text \<open>No false alarm. When the keytab listing holds the NFS principal of any host name variant
  the user interface recommends, the keytab report raises no alert and lists that principal.\<close>

theorem get_keytab_info_no_false_alarm:
  assumes "dns_name host" "dns_name realm" "host \<noteq> []" "hd host \<noteq> CHR ''.''"
    and "v \<in> set (nfs_keytab_host_variants host realm)"
    and "''nfs/'' @ v @ ''@'' @ realm \<in> set (parse_klist_nfs_principals out)"
  shows "alert (get_keytab_info (KlistOutput out) host realm) = None \<and>
    ''nfs/'' @ v @ ''@'' @ realm \<in> set (found_nfs_principals (get_keytab_info (KlistOutput out) host realm))"
proof -
  have "filter (\<lambda>p. principal_matches_host p host realm) (parse_klist_nfs_principals out) \<noteq> []"
    using variant_matches_host [OF assms(1-5)] assms(6) by (auto simp: filter_empty_conv)
  with assms(6) show ?thesis
    by (simp add: get_keytab_info_def)
qed

theorem get_keytab_info_no_false_alarm_witness:
  "alert (get_keytab_info (KlistOutput ''  2 nfs/nas.example.com@EXAMPLE.COM '') ''nas'' ''EXAMPLE.COM'') = None"
proof -
  have v: "''nas.example.com'' \<in> set (nfs_keytab_host_variants ''nas'' ''EXAMPLE.COM'')" by code_simp
  have f: "''nfs/'' @ ''nas.example.com'' @ ''@'' @ ''EXAMPLE.COM''
      \<in> set (parse_klist_nfs_principals ''  2 nfs/nas.example.com@EXAMPLE.COM '')" by code_simp
  have n: "dns_name ''nas''" "dns_name ''EXAMPLE.COM''" by code_simp+
  show ?thesis
    using get_keytab_info_no_false_alarm [OF n _ _ v f] by simp
qed

section \<open>Laws of realms and addresses\<close>

lemma show_octet_shape:
  assumes "n \<le> 255"
  shows "length (show_nat n) \<le> 3 \<and> (Suc 0 < length (show_nat n) \<longrightarrow> hd (show_nat n) \<noteq> CHR ''0'')"
  using length_show_nat [of n 2] assms hd_show_nat [of n]
  by (cases "n = 0") (simp_all add: show_nat.simps [of 0])

lemma read_octet_show:
  assumes "n \<le> 255" and "r = [] \<or> \<not> is_ascii_digit (hd r)"
  shows "read_octet (show_nat n @ r) = Some r"
proof -
  have "takeWhile is_ascii_digit r = []" using assms(2) by (cases r) auto
  then have "takeWhile is_ascii_digit (show_nat n @ r) = show_nat n"
    using show_nat_digits [of n] by (simp add: takeWhile_append list_all_iff)
  then show ?thesis
    using show_octet_shape [OF assms(1)] assms(1)
    by (auto simp: read_octet_def Let_def digits_value_show_nat)
qed

lemma dot_not_digit [simp]: "\<not> is_ascii_digit (CHR ''.'')"
  by (simp add: is_ascii_digit_def)

text \<open>Every IPv4 address in dotted decimal notation is recognised as an address, so that no
  realm or certificate host name is derived from it.\<close>

theorem host_is_ip_dotted_quad:
  assumes "a \<le> 255" "b \<le> 255" "c \<le> 255" "d \<le> 255"
  shows "host_is_ip (join ''.'' [show_nat a, show_nat b, show_nat c, show_nat d])"
proof -
  have "hd (show_nat a) \<noteq> CHR ''[''"
    using show_nat_digits [of a] by (cases "show_nat a") (auto simp: is_ascii_digit_def)
  then have "strip_prefix ''['' (join ''.'' [show_nat a, show_nat b, show_nat c, show_nat d]) = None"
    by (cases "show_nat a") (auto simp: strip_prefix_def)
  moreover have "read_ipv4 (join ''.'' [show_nat a, show_nat b, show_nat c, show_nat d]) = Some []"
    using assms read_octet_show [of d "[]"]
    by (simp add: read_ipv4_def read_octet_show numeral_3_eq_3)
  ultimately show ?thesis by (simp add: host_is_ip_def parses_ip_def)
qed

theorem host_is_ip_dotted_quad_witness:
  "host_is_ip (join ''.'' [show_nat 192, show_nat 168, show_nat 0, show_nat 255])"
  by (rule host_is_ip_dotted_quad) simp_all

lemma uri_after_scheme:
  assumes "sch = ''ldap'' \<or> sch = ''ldaps''"
  shows "split_once_str ''://'' (sch @ ''://'' @ r) = Some (sch, r)"
  using assms by auto

lemma uri_host_plain:
  assumes "sch = ''ldap'' \<or> sch = ''ldaps''" and "strip_prefix ''['' r = None"
  shows "extract_host_from_uri (sch @ ''://'' @ r) = takeWhile (\<lambda>c. c \<noteq> CHR '':'' \<and> c \<noteq> CHR ''/'') r"
proof (cases "split_once_str ''://'' r")
  case None
  then show ?thesis
    using uri_after_scheme [OF assms(1)] assms(2) by (simp add: extract_host_from_uri_def)
next
  case (Some ab)
  obtain a b where ab: "ab = (a, b)" by fastforce
  with Some have r: "r = a @ ''://'' @ b" by (auto dest: split_once_str_SomeD)
  have "strip_prefix ''['' a = None"
    using assms(2) unfolding r by (auto simp: strip_prefix_def)
  moreover have "takeWhile (\<lambda>c. c \<noteq> CHR '':'' \<and> c \<noteq> CHR ''/'') r
      = takeWhile (\<lambda>c. c \<noteq> CHR '':'' \<and> c \<noteq> CHR ''/'') a"
    unfolding r by (simp add: takeWhile_tail)
  ultimately show ?thesis
    using Some ab uri_after_scheme [OF assms(1)] by (simp add: extract_host_from_uri_def)
qed

text \<open>The realm derived from an LDAP URI is the domain of its host, in upper case, whatever
  port or path follows the host.\<close>

theorem derive_realm_from_uri_domain:
  assumes "sch = ''ldap'' \<or> sch = ''ldaps''"
    and "set label \<inter> {CHR ''.'', CHR '':'', CHR ''/'', CHR ''[''} = {}"
    and "set domn \<inter> {CHR '':'', CHR ''/''} = {}"
    and "rest = [] \<or> hd rest = CHR '':'' \<or> hd rest = CHR ''/''"
  shows "derive_realm_from_uri (sch @ ''://'' @ label @ ''.'' @ domn @ rest) = Some (to_uppercase domn)"
proof -
  have "strip_prefix ''['' (label @ ''.'' @ domn @ rest) = None"
    using assms(2) by (cases label) (auto simp: strip_prefix_def)
  then have "extract_host_from_uri (sch @ ''://'' @ label @ ''.'' @ domn @ rest)
      = takeWhile (\<lambda>c. c \<noteq> CHR '':'' \<and> c \<noteq> CHR ''/'') (label @ ''.'' @ domn @ rest)"
    by (rule uri_host_plain [OF assms(1)])
  also have "\<dots> = label @ ''.'' @ domn"
  proof -
    have "takeWhile (\<lambda>c. c \<noteq> CHR '':'' \<and> c \<noteq> CHR ''/'') rest = []"
      using assms(4) by (cases rest) auto
    moreover have "\<forall>c \<in> set (label @ ''.'' @ domn). c \<noteq> CHR '':'' \<and> c \<noteq> CHR ''/''"
      using assms(2,3) by auto
    ultimately show ?thesis
      using takeWhile_append2 [of "label @ ''.'' @ domn" "\<lambda>c. c \<noteq> CHR '':'' \<and> c \<noteq> CHR ''/''" rest]
      by simp
  qed
  finally show ?thesis
    using assms(2) by (simp add: derive_realm_from_uri_def split_once_append)
qed

theorem derive_realm_from_uri_domain_witness:
  "derive_realm_from_uri ''ldaps://lldap.example.com:6360'' = Some ''EXAMPLE.COM''"
proof -
  have "to_uppercase ''example.com'' = ''EXAMPLE.COM''" by code_simp
  then show ?thesis
    using derive_realm_from_uri_domain [of "''ldaps''" "''lldap''" "''example.com''" "'':6360''"] by simp
qed

end
