(* ===== verification/Identity_Ldap.thy ===== *)
theory Identity_Ldap
  imports Krb5
begin

text \<open>
  The LDAP side of \<^verbatim>\<open>nfs-klldap-identity\<close>: filter escaping (\<^verbatim>\<open>ldap/filter.rs\<close>), the attribute
  mapping and search bases (\<^verbatim>\<open>ldap/posix.rs\<close>), the TLS policy (\<^verbatim>\<open>ldap/tls.rs\<close>) and the parsers
  of \<^verbatim>\<open>getent\<close> rows (\<^verbatim>\<open>nss/getent.rs\<close>), with the constants of \<^verbatim>\<open>constants.rs\<close>.
\<close>

section \<open>Filter escaping\<close>

definition hex_digit :: "nat \<Rightarrow> char" where
  "hex_digit n = (if n < 10 then char_of (48 + n) else char_of (87 + n))"

text \<open>\<^verbatim>\<open>format!("\\{:02x}", b)\<close> and \<^verbatim>\<open>b as char\<close>: the character U+00bb, in UTF-8.\<close>

definition backslash :: char where "backslash = CHR 0x5C"

definition hex_escape :: "char \<Rightarrow> string" where
  "hex_escape c = [backslash, hex_digit (byte c div 16), hex_digit (byte c mod 16)]"

definition byte_as_char :: "char \<Rightarrow> string" where
  "byte_as_char c =
     (if is_ascii c then [c] else [char_of (192 + byte c div 64), char_of (128 + byte c mod 64)])"

definition escape_filter_byte :: "char \<Rightarrow> string" where
  "escape_filter_byte b =
     (if b = CHR ''*'' then backslash # ''2a''
      else if b = CHR ''('' then backslash # ''28''
      else if b = CHR '')'' then backslash # ''29''
      else if b = backslash then backslash # ''5c''
      else if byte b \<le> 31 \<or> byte b = 127 then hex_escape b
      else byte_as_char b)"

definition escape_ldap_filter :: "string \<Rightarrow> string" where
  "escape_ldap_filter s = concat (map escape_filter_byte s)"

section \<open>Attribute mapping and search bases\<close>

definition DEFAULT_USER_OBJECT_CLASS :: string where "DEFAULT_USER_OBJECT_CLASS = ''posixAccount''"
definition DEFAULT_GROUP_OBJECT_CLASS :: string where "DEFAULT_GROUP_OBJECT_CLASS = ''posixGroup''"
definition DEFAULT_USER_NAME_ATTR :: string where "DEFAULT_USER_NAME_ATTR = ''uid''"
definition DEFAULT_USER_UID_ATTR :: string where "DEFAULT_USER_UID_ATTR = ''uidNumber''"
definition DEFAULT_USER_GID_ATTR :: string where "DEFAULT_USER_GID_ATTR = ''gidNumber''"
definition DEFAULT_GROUP_GID_ATTR :: string where "DEFAULT_GROUP_GID_ATTR = ''gidNumber''"
definition DEFAULT_USER_HOME_ATTR :: string where "DEFAULT_USER_HOME_ATTR = ''homeDirectory''"
definition DEFAULT_USER_SHELL_ATTR :: string where "DEFAULT_USER_SHELL_ATTR = ''loginShell''"
definition DEFAULT_USER_FULLNAME_ATTR :: string where "DEFAULT_USER_FULLNAME_ATTR = ''displayName''"
definition DEFAULT_GROUP_NAME_ATTR :: string where "DEFAULT_GROUP_NAME_ATTR = ''cn''"
definition DEFAULT_USER_PRINCIPAL_ATTR :: string where "DEFAULT_USER_PRINCIPAL_ATTR = ''krbPrincipalName''"
definition DEFAULT_GROUP_MEMBER_ATTR_KLLDAP :: string where "DEFAULT_GROUP_MEMBER_ATTR_KLLDAP = ''member''"
definition DEFAULT_GROUP_MEMBER_ATTR_LEGACY :: string where "DEFAULT_GROUP_MEMBER_ATTR_LEGACY = ''memberUid''"

record PosixAttributeMapping =
  user_object_class :: string
  group_object_class :: string
  user_name :: string
  user_uid_number :: string
  user_gid_number :: string
  user_home_directory :: string
  user_shell :: string
  user_full_name :: string
  group_name :: string
  group_gid_number :: string
  group_member :: string
  user_principal_name :: string

record PosixMappingInput =
  ldap_user_object_class :: "string option"
  ldap_group_object_class :: "string option"
  ldap_user_name :: "string option"
  ldap_user_uid_number :: "string option"
  ldap_user_gid_number :: "string option"
  ldap_user_home_directory :: "string option"
  ldap_user_shell :: "string option"
  ldap_user_fullname :: "string option"
  ldap_group_name :: "string option"
  ldap_group_gid_number :: "string option"
  ldap_group_member :: "string option"
  ldap_user_principal_name :: "string option"
  kllldap_ignored_attributes :: "bool option"

definition non_empty :: "string option \<Rightarrow> string option" where
  "non_empty s = opt_filter (\<lambda>v. \<not> is_blank v) s"

text \<open>The pattern of each field: the trimmed override, or the default.\<close>

definition override_or :: "string option \<Rightarrow> string \<Rightarrow> string" where
  "override_or s d = unwrap_or (map_option trim (non_empty s)) d"

definition resolve_posix_attribute_mapping :: "PosixMappingInput \<Rightarrow> PosixAttributeMapping" where
  "resolve_posix_attribute_mapping i =
     (let kllldap_mode = unwrap_or (kllldap_ignored_attributes i) True in
      \<lparr>user_object_class = override_or (ldap_user_object_class i) DEFAULT_USER_OBJECT_CLASS,
       group_object_class = override_or (ldap_group_object_class i) DEFAULT_GROUP_OBJECT_CLASS,
       user_name = override_or (ldap_user_name i) DEFAULT_USER_NAME_ATTR,
       user_uid_number = override_or (ldap_user_uid_number i) DEFAULT_USER_UID_ATTR,
       user_gid_number = override_or (ldap_user_gid_number i) DEFAULT_USER_GID_ATTR,
       user_home_directory = override_or (ldap_user_home_directory i) DEFAULT_USER_HOME_ATTR,
       user_shell = override_or (ldap_user_shell i) DEFAULT_USER_SHELL_ATTR,
       user_full_name = override_or (ldap_user_fullname i) DEFAULT_USER_FULLNAME_ATTR,
       group_name = override_or (ldap_group_name i) DEFAULT_GROUP_NAME_ATTR,
       group_gid_number = override_or (ldap_group_gid_number i) DEFAULT_GROUP_GID_ATTR,
       group_member = override_or (ldap_group_member i)
         (if kllldap_mode then DEFAULT_GROUP_MEMBER_ATTR_KLLDAP else DEFAULT_GROUP_MEMBER_ATTR_LEGACY),
       user_principal_name = override_or (ldap_user_principal_name i) DEFAULT_USER_PRINCIPAL_ATTR\<rparr>)"

record LdapSearchBasesInput =
  ldap_search_base :: "string option"
  ldap_user_search_base :: "string option"
  ldap_group_search_base :: "string option"

definition effective_ldap_search_bases :: "LdapSearchBasesInput \<Rightarrow> string \<Rightarrow> string \<times> string" where
  "effective_ldap_search_bases i realm =
     (let search_base = unwrap_or (non_empty (ldap_search_base i))
            (''dc='' @ replace_char CHR ''.'' '',dc='' (to_lowercase realm))
      in (unwrap_or (non_empty (ldap_user_search_base i)) search_base,
          unwrap_or (non_empty (ldap_group_search_base i)) search_base))"

section \<open>TLS policy\<close>

definition ldap_tls_policy ::
  "string \<Rightarrow> string option \<Rightarrow> string option \<Rightarrow> bool option \<Rightarrow> bool \<times> bool" where
  "ldap_tls_policy ldap_uri reqcert cacert id_use_start_tls =
     (let has_custom = (case cacert of None \<Rightarrow> False | Some s \<Rightarrow> \<not> is_blank s);
          never = (\<lambda>v. eq_ignore_ascii_case v ''never'');
          no_verify =
            (if has_custom then (case reqcert of None \<Rightarrow> False | Some v \<Rightarrow> never v)
             else if starts_with ldap_uri ''ldaps://''
             then (case reqcert of None \<Rightarrow> True | Some v \<Rightarrow> never v)
             else (case reqcert of None \<Rightarrow> False | Some v \<Rightarrow> never v))
      in (no_verify, unwrap_or id_use_start_tls False))"

text \<open>
  The connection settings. Loading the certificates of a file into a TLS client configuration
  is the work of the \<^verbatim>\<open>rustls\<close> packages: \<open>client_config\<close> maps a path to the configuration, or to
  none when the file is unreadable or holds no usable certificate.
\<close>

record 'cfg LdapConnSettings =
  conn_timeout_secs :: nat
  starttls :: bool
  no_tls_verify :: bool
  tls_config :: "'cfg option"

definition ldap_conn_settings ::
  "(string \<Rightarrow> 'cfg option) \<Rightarrow> bool \<Rightarrow> bool \<Rightarrow> string option \<Rightarrow> 'cfg LdapConnSettings" where
  "ldap_conn_settings client_config no_verify start_tls tls_cacert =
     (let s = \<lparr>conn_timeout_secs = 10, starttls = False, no_tls_verify = False, tls_config = None\<rparr>;
          s = (if start_tls then s\<lparr>starttls := True\<rparr> else s)
      in if no_verify then s\<lparr>no_tls_verify := True\<rparr>
         else case non_empty tls_cacert of
                None \<Rightarrow> s
              | Some ca \<Rightarrow> (case client_config ca of
                              Some cfg \<Rightarrow> s\<lparr>tls_config := Some cfg\<rparr>
                            | None \<Rightarrow> s))"

section \<open>Rows of getent\<close>

record PasswdRow =
  pw_name :: string
  pw_uid :: "32 word"
  pw_gid :: "32 word"

record GroupRow =
  gr_name :: string
  gr_gid :: "32 word"
  gr_members :: "string list"

definition parse_passwd_row :: "string \<Rightarrow> PasswdRow option" where
  "parse_passwd_row line0 =
     (let line = trim line0 in
      if line = [] \<or> starts_with line ''#'' then None
      else let parts = splitn 7 CHR '':'' line in
           if length parts < 4 then None
           else Option.bind (parse_u32 (trim (parts ! 2))) (\<lambda>uid.
                Option.bind (parse_u32 (trim (parts ! 3))) (\<lambda>gid.
                  Some \<lparr>pw_name = trim (parts ! 0), pw_uid = uid, pw_gid = gid\<rparr>)))"

definition parse_group_row :: "string \<Rightarrow> GroupRow option" where
  "parse_group_row line0 =
     (let line = trim line0 in
      if line = [] \<or> starts_with line ''#'' then None
      else let parts = splitn 4 CHR '':'' line in
           if length parts < 3 then None
           else Option.bind (parse_u32 (trim (parts ! 2))) (\<lambda>gid.
                  Some \<lparr>gr_name = trim (parts ! 0), gr_gid = gid,
                        gr_members = filter (\<lambda>s. s \<noteq> [])
                          (map trim (split_on CHR '',''
                             (if 3 < length parts then trim (parts ! 3) else [])))\<rparr>))"

definition parse_getent_passwd :: "string \<Rightarrow> (32 word \<times> 32 word) option" where
  "parse_getent_passwd line = map_option (\<lambda>r. (pw_uid r, pw_gid r)) (parse_passwd_row line)"

section \<open>Laws of filter escaping\<close>

text \<open>The reader of an assertion value in a filter (RFC 4515): a backslash takes two hexadecimal digits.\<close>

definition hex_value :: "char \<Rightarrow> nat option" where
  "hex_value c =
     (if is_ascii_digit c then Some (byte c - 48)
      else if 97 \<le> byte c \<and> byte c \<le> 102 then Some (byte c - 87)
      else if 65 \<le> byte c \<and> byte c \<le> 70 then Some (byte c - 55) else None)"

fun unescape_filter :: "string \<Rightarrow> string option" where
  "unescape_filter [] = Some []"
| "unescape_filter (c # s) =
     (if c = backslash
      then (case s of
              a # b # t \<Rightarrow>
                (case (hex_value a, hex_value b) of
                   (Some x, Some y) \<Rightarrow> map_option (Cons (char_of (16 * x + y))) (unescape_filter t)
                 | _ \<Rightarrow> None)
            | _ \<Rightarrow> None)
      else map_option (Cons c) (unescape_filter s))"

lemma hex_value_digit: "n < 16 \<Longrightarrow> hex_value (hex_digit n) = Some n"
  by (auto simp: hex_value_def hex_digit_def is_ascii_digit_def)

lemma unescape_hex_escape:
  "unescape_filter (hex_escape c @ s) = map_option (Cons c) (unescape_filter s)"
proof -
  have "byte c < 256" by (metis of_char_of char_of_char mod_less_divisor zero_less_numeral of_char_mod_256)
  then have "byte c div 16 < 16" by (simp add: div_less_iff_less_mult)
  moreover have "char_of (16 * (byte c div 16) + byte c mod 16) = c"
    by (simp add: mult_div_mod_eq)
  ultimately show ?thesis
    by (simp add: hex_escape_def hex_value_digit)
qed

lemma hex_escape_literal:
  "backslash # ''2a'' = hex_escape (CHR ''*'')" "backslash # ''28'' = hex_escape (CHR ''('')"
  "backslash # ''29'' = hex_escape (CHR '')'')" "backslash # ''5c'' = hex_escape backslash"
  by code_simp+

lemma escape_filter_byte_cases:
  "escape_filter_byte b =
    (if b \<in> {CHR ''*'', CHR ''('', CHR '')'', backslash} \<or> byte b \<le> 31 \<or> byte b = 127
     then hex_escape b else byte_as_char b)"
  by (simp add: escape_filter_byte_def hex_escape_literal)

lemma byte_as_char_high: "\<not> is_ascii c \<Longrightarrow> x \<in> set (byte_as_char c) \<Longrightarrow> \<not> is_ascii x"
proof -
  have "byte c div 64 < 4" by (simp add: div_less_iff_less_mult)
  then show "\<not> is_ascii c \<Longrightarrow> x \<in> set (byte_as_char c) \<Longrightarrow> \<not> is_ascii x"
    by (auto simp: byte_as_char_def is_ascii_def)
qed

lemma byte_as_char_ascii: "is_ascii x \<Longrightarrow> x \<in> set (byte_as_char c) \<longleftrightarrow> is_ascii c \<and> x = c"
  using byte_as_char_high [of c x] by (auto simp: byte_as_char_def)

lemma ascii_specials [simp]: "is_ascii (CHR ''*'')" "is_ascii (CHR ''('')" "is_ascii (CHR '')'')" "is_ascii (CHR 0x00)"
  "is_ascii backslash"
  by (simp_all add: is_ascii_def backslash_def)

lemma unescape_plain:
  "backslash \<notin> set p \<Longrightarrow> unescape_filter (p @ s) = map_option (append p) (unescape_filter s)"
  by (cases "unescape_filter s"; induction p) auto

lemma unescape_escape_byte:
  "unescape_filter (escape_filter_byte c @ s) = map_option (append (byte_as_char c)) (unescape_filter s)"
proof (cases "c \<in> {CHR ''*'', CHR ''('', CHR '')'', backslash} \<or> byte c \<le> 31 \<or> byte c = 127")
  case True
  then have "is_ascii c" by (auto simp: is_ascii_def backslash_def)
  then have "byte_as_char c = [c]" by (simp add: byte_as_char_def)
  then show ?thesis
    using True by (simp add: escape_filter_byte_cases unescape_hex_escape fun_eq_iff
        option.map_cong0 [of _ "append [c]" "Cons c"])
next
  case False
  then have "backslash \<notin> set (byte_as_char c)"
    by (auto simp: byte_as_char_ascii)
  with False show ?thesis by (simp add: escape_filter_byte_cases unescape_plain)
qed

interpretation ldap_filter: escaping escape_filter_byte unescape_filter is_ascii
proof
  fix c s assume "is_ascii c"
  then have "append (byte_as_char c) = Cons c" by (simp add: byte_as_char_def fun_eq_iff)
  then show "unescape_filter (escape_filter_byte c @ s) = map_option (Cons c) (unescape_filter s)"
    by (simp add: unescape_escape_byte)
qed simp

lemma unescape_escape:
  "unescape_filter (escape_ldap_filter s) = Some (concat (map byte_as_char s))"
  by (induction s) (simp_all add: escape_ldap_filter_def unescape_escape_byte)

lemma length_byte_as_char_concat:
  "length (concat (map byte_as_char s)) = length s + length (filter (\<lambda>c. \<not> is_ascii c) s)"
  by (induction s) (auto simp: byte_as_char_def)

lemma escape_byte_clean:
  "set (escape_filter_byte c) \<inter> {CHR ''*'', CHR ''('', CHR '')'', CHR 0x00} = {}"
proof (cases "c \<in> {CHR ''*'', CHR ''('', CHR '')'', backslash} \<or> byte c \<le> 31 \<or> byte c = 127")
  case True
  have hex: "n < 16 \<Longrightarrow> hex_digit n \<notin> {CHR ''*'', CHR ''('', CHR '')'', CHR 0x00}" for n
    using hex_value_digit [of n] by (auto simp: hex_value_def is_ascii_digit_def)
  have "byte c div 16 < 16" by (simp add: div_less_iff_less_mult)
  with hex [of "byte c div 16"] hex [of "byte c mod 16"] True show ?thesis
    by (auto simp: escape_filter_byte_cases hex_escape_def backslash_def)
next
  case False
  then show ?thesis
    by (simp add: escape_filter_byte_cases byte_as_char_ascii) (auto simp: backslash_def)
qed

text \<open>C40: an escaped filter value contains none of the characters that structure a filter (star,
  parentheses, NUL), whatever bytes the value has, and every backslash in it introduces a
  well-formed escape: user input cannot change the shape of a query.\<close>

theorem escape_ldap_filter_safe:
  "set (escape_ldap_filter s) \<inter> {CHR ''*'', CHR ''('', CHR '')'', CHR 0x00} = {} \<and>
   (\<exists>v. unescape_filter (escape_ldap_filter s) = Some v)"
  using escape_byte_clean unescape_escape by (auto simp: escape_ldap_filter_def)

text \<open>The server reads back exactly the value that was escaped when, and only when, the value
  is ASCII: each byte of a multi-byte character is encoded a second time.\<close>

theorem escape_ldap_filter_roundtrip_iff_ascii:
  "unescape_filter (escape_ldap_filter s) = Some s \<longleftrightarrow> list_all is_ascii s"
proof
  assume "unescape_filter (escape_ldap_filter s) = Some s"
  then have "length (concat (map byte_as_char s)) = length s" by (simp add: unescape_escape)
  then show "list_all is_ascii s"
    by (simp add: length_byte_as_char_concat filter_empty_conv list_all_iff)
next
  assume "list_all is_ascii s"
  then show "unescape_filter (escape_ldap_filter s) = Some s"
    unfolding escape_ldap_filter_def by (rule ldap_filter.unesc_concat)
qed

section \<open>Laws of the attribute mapping, search bases and TLS\<close>

lemma dc_replace:
  "''dc='' @ replace_char CHR ''.'' '',dc='' s = join '','' (map (\<lambda>l. ''dc='' @ l) (split_on CHR ''.'' s))"
proof -
  have "p @ replace_char CHR ''.'' '',dc='' s =
      join '','' ((p @ hd (split_on CHR ''.'' s)) # map (\<lambda>l. ''dc='' @ l) (tl (split_on CHR ''.'' s)))" for p
  proof (induction s arbitrary: p)
    case Nil
    then show ?case by (simp add: replace_char_def)
  next
    case (Cons x xs)
    obtain y ys where y: "split_on CHR ''.'' xs = y # ys"
      by (meson list.exhaust split_on_not_Nil)
    show ?case
    proof (cases "x = CHR ''.''")
      case True
      then show ?thesis using Cons [of "''dc=''"] y by (simp add: replace_char_def)
    next
      case False
      then show ?thesis using Cons [of "p @ [x]"] y by (simp add: replace_char_def)
    qed
  qed
  from this [of "''dc=''"] show ?thesis
    by (cases "split_on CHR ''.'' s") auto
qed

text \<open>A mapping used again as explicit overrides.\<close>

definition mapping_as_input :: "PosixAttributeMapping \<Rightarrow> bool option \<Rightarrow> PosixMappingInput" where
  "mapping_as_input m k =
     \<lparr>ldap_user_object_class = Some (user_object_class m),
      ldap_group_object_class = Some (group_object_class m),
      ldap_user_name = Some (user_name m),
      ldap_user_uid_number = Some (user_uid_number m),
      ldap_user_gid_number = Some (user_gid_number m),
      ldap_user_home_directory = Some (user_home_directory m),
      ldap_user_shell = Some (user_shell m),
      ldap_user_fullname = Some (user_full_name m),
      ldap_group_name = Some (group_name m),
      ldap_group_gid_number = Some (group_gid_number m),
      ldap_group_member = Some (group_member m),
      ldap_user_principal_name = Some (user_principal_name m),
      kllldap_ignored_attributes = k\<rparr>"

lemma override_or_clean: "\<not> is_blank d \<Longrightarrow> \<not> is_blank (override_or s d)"
  by (cases s) (auto simp: override_or_def non_empty_def)

lemma override_or_again:
  "trim d = d \<Longrightarrow> \<not> is_blank d \<Longrightarrow> override_or (Some (override_or s d)) d' = override_or s d"
  by (cases s) (auto simp: override_or_def non_empty_def)

lemma default_attrs_clean:
  "list_all (\<lambda>d. trim d = d \<and> \<not> is_blank d)
    [DEFAULT_USER_OBJECT_CLASS, DEFAULT_GROUP_OBJECT_CLASS, DEFAULT_USER_NAME_ATTR, DEFAULT_USER_UID_ATTR,
     DEFAULT_USER_GID_ATTR, DEFAULT_GROUP_GID_ATTR, DEFAULT_USER_HOME_ATTR, DEFAULT_USER_SHELL_ATTR,
     DEFAULT_USER_FULLNAME_ATTR, DEFAULT_GROUP_NAME_ATTR, DEFAULT_USER_PRINCIPAL_ATTR,
     DEFAULT_GROUP_MEMBER_ATTR_KLLDAP, DEFAULT_GROUP_MEMBER_ATTR_LEGACY]"
  by code_simp

text \<open>The resolved attribute names are stable: feeding a resolved mapping back as explicit
  settings, under either membership mode, resolves to the same mapping. The user interface and
  the identity helper therefore agree once one of them has written the names out.\<close>

theorem resolve_posix_attribute_mapping_stable:
  "resolve_posix_attribute_mapping (mapping_as_input (resolve_posix_attribute_mapping i) k)
     = resolve_posix_attribute_mapping i"
  using default_attrs_clean
  by (simp add: resolve_posix_attribute_mapping_def mapping_as_input_def override_or_again)

text \<open>Without explicit bases both searches use the distinguished name with one domain component
  per label of the realm, in order and in lower case.\<close>

theorem default_search_base_domain_components:
  assumes "non_empty (ldap_search_base i) = None"
    and "non_empty (ldap_user_search_base i) = None" and "non_empty (ldap_group_search_base i) = None"
  shows "effective_ldap_search_bases i realm =
    (let b = join '','' (map (\<lambda>l. ''dc='' @ l) (split_on CHR ''.'' (to_lowercase realm))) in (b, b))"
  using assms dc_replace [of "to_lowercase realm"]
  by (simp add: effective_ldap_search_bases_def Let_def)

theorem default_search_base_domain_components_witness:
  "effective_ldap_search_bases
     \<lparr>ldap_search_base = Some '' '', ldap_user_search_base = None, ldap_group_search_base = None\<rparr> ''EX.COM''
   = (''dc=ex,dc=com'', ''dc=ex,dc=com'')"
proof -
  let ?i = "\<lparr>ldap_search_base = Some '' '', ldap_user_search_base = None, ldap_group_search_base = None\<rparr>"
  have "non_empty (ldap_search_base ?i) = None" "non_empty (ldap_user_search_base ?i) = None"
    "non_empty (ldap_group_search_base ?i) = None" by code_simp+
  from default_search_base_domain_components [OF this, of "''EX.COM''"]
  show ?thesis by (simp only: Let_def) code_simp
qed

text \<open>A custom CA certificate is never silently ignored: unless the configuration says
  \<^verbatim>\<open>never\<close>, a configured certificate that loads is the trust configuration of the connection, and
  verification stays on, for every URI scheme.\<close>

theorem custom_ca_is_used:
  assumes "cacert = Some ca" and "\<not> is_blank ca" and "client_config ca = Some cfg"
    and "\<not> (\<exists>v. reqcert = Some v \<and> eq_ignore_ascii_case v ''never'')"
  shows "let (no_verify, start) = ldap_tls_policy uri reqcert cacert tls;
             st = ldap_conn_settings client_config no_verify start cacert
         in \<not> no_tls_verify st \<and> tls_config st = Some cfg \<and> starttls st = unwrap_or tls False"
  using assms
  by (auto simp: ldap_tls_policy_def ldap_conn_settings_def non_empty_def Let_def split: option.splits)

theorem custom_ca_is_used_witness:
  "let (no_verify, start) = ldap_tls_policy ''ldaps://kl:636'' (Some ''demand'') (Some ''/ca.pem'') None;
       st = ldap_conn_settings (\<lambda>p. if p = ''/ca.pem'' then Some (1::nat) else None) no_verify start (Some ''/ca.pem'')
   in \<not> no_tls_verify st \<and> tls_config st = Some 1 \<and> starttls st = unwrap_or None False"
proof -
  have "\<not> is_blank ''/ca.pem''" "\<not> eq_ignore_ascii_case ''demand'' ''never''" by code_simp+
  then show ?thesis
    using custom_ca_is_used [of "Some ''/ca.pem''" "''/ca.pem''"
        "\<lambda>p. if p = ''/ca.pem'' then Some (1::nat) else None" 1 "Some ''demand''" "''ldaps://kl:636''" None]
    by simp
qed

section \<open>Laws of getent rows\<close>

text \<open>Rows as the name service prints them.\<close>

definition format_passwd_row :: "PasswdRow \<Rightarrow> string \<Rightarrow> string" where
  "format_passwd_row r rest =
     pw_name r @ '':x:'' @ show_word (pw_uid r) @ '':'' @ show_word (pw_gid r) @ '':'' @ rest"

definition format_group_row :: "GroupRow \<Rightarrow> string" where
  "format_group_row g = gr_name g @ '':x:'' @ show_word (gr_gid g) @ '':'' @ join '','' (gr_members g)"

text \<open>A name that survives the row format: not blank, trimmed, no colon, no comment sign in front.\<close>

definition row_name :: "string \<Rightarrow> bool" where
  "row_name n = (n \<noteq> [] \<and> trim n = n \<and> CHR '':'' \<notin> set n \<and> hd n \<noteq> CHR ''#'')"

definition member_name :: "string \<Rightarrow> bool" where
  "member_name n = (n \<noteq> [] \<and> trim n = n \<and> CHR '','' \<notin> set n)"

lemma inked_colon [simp]: "inked (CHR '':'')" and inked_comma [simp]: "inked (CHR '','')"
  by (simp_all add: inked_def is_ascii_def ws1_def)

lemma trim_end_barrier: "inked c \<Longrightarrow> trim_end (l @ c # r) = l @ c # trim_end r"
proof -
  assume c: "inked c"
  have "drop_ws ws_width_rev (rev r @ (c # rev l)) = drop_ws ws_width_rev (rev r) @ c # rev l"
    by (rule drop_ws_barrier) (simp_all add: ws_width_rev_barrier c ws_width_rev_le)
  then show ?thesis by (simp add: trim_end_def)
qed

lemma trim_row:
  assumes "row_name n"
  shows "trim (n @ CHR '':'' # r) = n @ CHR '':'' # trim_end r"
proof -
  have "ws_width n = 0" using assms by (auto simp: row_name_def trim_id_iff)
  then have "trim_start (n @ CHR '':'' # r) = n @ CHR '':'' # r"
    by (simp add: trim_start_id ws_width_barrier)
  then show ?thesis by (simp add: trim_def trim_end_barrier)
qed

lemma row_not_comment: "row_name n \<Longrightarrow> \<not> starts_with (n @ s) ''#''"
  by (cases n) (auto simp: row_name_def)

lemma digits_no_colon: "CHR '':'' \<notin> set (show_nat n)"
  using show_nat_digits [of n] by (auto simp: list_all_iff is_ascii_digit_def)

lemma digits_inked: "is_ascii_digit c \<Longrightarrow> inked c"
  by (auto simp: inked_def is_ascii_digit_def is_ascii_def ws1_def)

lemma trim_show_word [simp]: "trim (show_word w) = show_word w"
  using show_nat_digits [of "unat w"]
  by (auto simp: show_word_def list_all_iff intro!: trim_inked digits_inked)

lemma splitn_step: "c \<notin> set a \<Longrightarrow> splitn (Suc (Suc n)) c (a @ c # b) = a # splitn (Suc n) c b"
  by (simp add: split_once_append)

lemma trim_row_passwd:
  assumes "row_name (pw_name r)"
  shows "trim (format_passwd_row r rest) = format_passwd_row r (trim_end rest)"
proof -
  have "trim_end (''x:'' @ show_word (pw_uid r) @ '':'' @ show_word (pw_gid r) @ '':'' @ rest)
      = ''x:'' @ show_word (pw_uid r) @ '':'' @ show_word (pw_gid r) @ '':'' @ trim_end rest"
    using trim_end_barrier [of "CHR '':''" "''x:'' @ show_word (pw_uid r) @ '':'' @ show_word (pw_gid r)" rest]
    by simp
  with trim_row [OF assms, of "''x:'' @ show_word (pw_uid r) @ '':'' @ show_word (pw_gid r) @ '':'' @ rest"]
  show ?thesis by (simp add: format_passwd_row_def)
qed

text \<open>Parsing a passwd row recovers what it was printed from, whatever the remaining fields hold.\<close>

lemma passwd_row_back:
  assumes "row_name (pw_name r)"
  shows "parse_passwd_row (format_passwd_row r rest) = Some r"
proof -
  let ?t = "trim_end rest"
  have parts: "splitn 7 CHR '':'' (format_passwd_row r ?t) =
      [pw_name r, ''x'', show_word (pw_uid r), show_word (pw_gid r)] @ splitn 3 CHR '':'' ?t"
    using assms splitn_step [of "CHR '':''" "pw_name r" 5] splitn_step [of "CHR '':''" "''x''" 4]
      splitn_step [of "CHR '':''" "show_word (pw_uid r)" 3] splitn_step [of "CHR '':''" "show_word (pw_gid r)" 2]
    by (simp add: format_passwd_row_def row_name_def digits_no_colon show_word_def)
  have "\<not> starts_with (format_passwd_row r ?t) ''#''" "format_passwd_row r ?t \<noteq> []"
    using row_not_comment [OF assms] by (auto simp: format_passwd_row_def)
  with assms show ?thesis
    by (simp add: parse_passwd_row_def trim_row_passwd parts parse_u32_show Let_def row_name_def)
qed

lemma trim_join_members:
  assumes "list_all member_name ms"
  shows "trim (join '','' ms) = join '','' ms"
proof (cases ms)
  case Nil
  then show ?thesis by simp
next
  case (Cons m ms')
  have last: "ms \<noteq> [] \<Longrightarrow> list_all member_name ms \<Longrightarrow> ws_width_rev (rev (join '','' ms)) = 0" for ms
    by (induction ms rule: list_nonempty_induct)
      (auto simp: member_name_def trim_id_iff ws_width_rev_barrier join_Cons)
  have "ws_width (join '','' (m # ms')) = ws_width m"
    by (cases ms') (simp_all add: ws_width_barrier)
  then show ?thesis
    using assms Cons last [of ms] by (auto simp: trim_id_iff member_name_def)
qed

lemma members_back:
  assumes "list_all member_name ms"
  shows "filter (\<lambda>s. s \<noteq> []) (map trim (split_on CHR '','' (join '','' ms))) = ms"
proof (cases "ms = []")
  case False
  then have "split_on CHR '','' (join '','' ms) = ms"
    using assms by (intro split_on_join) (auto simp: list_all_iff member_name_def)
  moreover have "filter (\<lambda>s. s \<noteq> []) (map trim ms) = ms"
    using assms by (induction ms) (auto simp: member_name_def)
  ultimately show ?thesis by simp
qed simp

text \<open>Parsing a group row recovers the name, gid and member list it was printed from.\<close>

theorem parse_group_row_format:
  assumes "row_name (gr_name g)" and "list_all member_name (gr_members g)"
  shows "parse_group_row (format_group_row g) = Some g"
proof -
  let ?m = "join '','' (gr_members g)"
  have tm: "trim ?m = ?m" using assms(2) by (rule trim_join_members)
  then have "trim_end ?m = ?m" by (simp add: trim_id_iff trim_end_id)
  then have "trim_end (''x:'' @ show_word (gr_gid g) @ '':'' @ ?m) = ''x:'' @ show_word (gr_gid g) @ '':'' @ ?m"
    using trim_end_barrier [of "CHR '':''" "''x:'' @ show_word (gr_gid g)" ?m] by simp
  with trim_row [OF assms(1), of "''x:'' @ show_word (gr_gid g) @ '':'' @ ?m"]
  have t: "trim (format_group_row g) = format_group_row g" by (simp add: format_group_row_def)
  have parts: "splitn 4 CHR '':'' (format_group_row g) = [gr_name g, ''x'', show_word (gr_gid g), ?m]"
    using assms(1)
    by (simp add: eval_nat_numeral split_once_append format_group_row_def row_name_def digits_no_colon show_word_def)
  have "\<not> starts_with (format_group_row g) ''#''" "format_group_row g \<noteq> []"
    using row_not_comment [OF assms(1)] by (auto simp: format_group_row_def)
  with assms show ?thesis
    by (simp add: parse_group_row_def t parts parse_u32_show Let_def row_name_def tm members_back)
qed

theorem parse_group_row_format_witness:
  "parse_group_row (format_group_row \<lparr>gr_name = ''devs'', gr_gid = 3005, gr_members = [''alice'', ''bob'']\<rparr>)
     = Some \<lparr>gr_name = ''devs'', gr_gid = 3005, gr_members = [''alice'', ''bob'']\<rparr>"
proof -
  let ?g = "\<lparr>gr_name = ''devs'', gr_gid = 3005, gr_members = [''alice'', ''bob'']\<rparr>"
  have "row_name (gr_name ?g)" "list_all member_name (gr_members ?g)" by code_simp+
  then show ?thesis by (rule parse_group_row_format)
qed

end
