(* ===== verification/Config_Model.thy ===== *)
theory Config_Model
  imports Identity_Ldap
begin

text \<open>
  The data model of \<^verbatim>\<open>nfs-klldap.conf\<close>, from \<^verbatim>\<open>nfs-klldap-config/src/config.rs\<close>, with the
  constants of \<^verbatim>\<open>constants.rs\<close>. A field whose Rust name is shared by several structs carries the
  section's name as a prefix; all others keep their names. Paths are strings.
\<close>

section \<open>Constants\<close>

definition GANESHA_PROTOCOLS :: string where "GANESHA_PROTOCOLS = ''4''"
definition GANESHA_PWNAM_IMPL :: string where "GANESHA_PWNAM_IMPL = ''nsswitch''"
definition GANESHA_ROOT_KRB_PRINCIPALS :: string where "GANESHA_ROOT_KRB_PRINCIPALS = ''nfs, root''"
definition GANESHA_ROOT_KRB_PRINCIPAL_TOKENS :: "string list" where
  "GANESHA_ROOT_KRB_PRINCIPAL_TOKENS = [''none'', ''nfs'', ''root'', ''host'', ''all'']"
definition GANESHA_IDMAPPED_VALIDITY_SECS :: "32 word" where "GANESHA_IDMAPPED_VALIDITY_SECS = 180"
definition GANESHA_MANAGE_GIDS_EXPIRATION_MAX :: "64 word" where
  "GANESHA_MANAGE_GIDS_EXPIRATION_MAX = 7 * 24 * 60 * 60"
definition GANESHA_NEGATIVE_CACHE_VALIDITY_SECS :: "32 word" where "GANESHA_NEGATIVE_CACHE_VALIDITY_SECS = 60"
definition GANESHA_MAX_UID_TO_GROUP_REQS :: "32 word" where "GANESHA_MAX_UID_TO_GROUP_REQS = 64"
definition GANESHA_READDIR_RES_SIZE :: "32 word" where "GANESHA_READDIR_RES_SIZE = 32 * 1024"
definition GANESHA_READDIR_RES_SIZE_MIN :: "32 word" where "GANESHA_READDIR_RES_SIZE_MIN = 4096"
definition GANESHA_READDIR_RES_SIZE_MAX :: "32 word" where "GANESHA_READDIR_RES_SIZE_MAX = 64 * 1024 * 1024"
definition GANESHA_READDIR_MAX_COUNT_MIN :: "32 word" where "GANESHA_READDIR_MAX_COUNT_MIN = 32"
definition GANESHA_READDIR_MAX_COUNT_MAX :: "32 word" where "GANESHA_READDIR_MAX_COUNT_MAX = 1024 * 1024"
definition GANESHA_MALLOC_TRIM_MIN_MB :: "32 word" where "GANESHA_MALLOC_TRIM_MIN_MB = 1024"
definition GANESHA_RECOVERY_ROOT :: string where "GANESHA_RECOVERY_ROOT = ''/var/lib/nfs/ganesha''"
definition GANESHA_DEFAULT_SECTYPE :: string where "GANESHA_DEFAULT_SECTYPE = ''krb5p''"
definition GANESHA_DEFAULT_SQUASH :: string where "GANESHA_DEFAULT_SQUASH = ''root_squash''"
definition GANESHA_ALLOWED_SECTYPES :: "string list" where
  "GANESHA_ALLOWED_SECTYPES = [''krb5p'', ''krb5i'', ''krb5'']"
definition GANESHA_ALLOWED_SQUASH :: "string list" where
  "GANESHA_ALLOWED_SQUASH = [''no_root_squash'', ''root_squash'', ''root_id_squash'', ''all_squash'']"
definition GANESHA_READ_ACCESS_POLICIES :: "string list" where
  "GANESHA_READ_ACCESS_POLICIES = [''pre'', ''post'']"
definition IDMAPD_TRANSLATION_METHOD :: string where "IDMAPD_TRANSLATION_METHOD = ''nsswitch''"
definition IDMAPD_GSS_METHODS :: string where "IDMAPD_GSS_METHODS = ''nsswitch''"
definition IDMAPD_NOBODY_USER :: string where "IDMAPD_NOBODY_USER = ''nobody''"
definition IDMAPD_NOBODY_GROUP :: string where "IDMAPD_NOBODY_GROUP = ''nogroup''"

section \<open>Sections of the configuration\<close>

record ShareFieldWarning =
  share_index :: nat
  warning_share_name :: "string option"
  unknown_keys :: "string list"

record StorageSection =
  container_root :: string

record ServerSection =
  hostname :: "string option"

record SssdSection =
  ldap_default_bind_dn :: string
  ldap_default_authtok :: string
  sssd_port :: "16 word option"
  sssd_user_search_base :: "string option"
  sssd_group_search_base :: "string option"
  sssd_search_base :: "string option"
  ldap_tls_reqcert :: "string option"
  ldap_tls_cacert :: "string option"
  ldap_id_use_start_tls :: "bool option"
  enumerate :: "bool option"
  sssd_user_object_class :: "string option"
  sssd_group_object_class :: "string option"
  sssd_user_name :: "string option"
  sssd_user_uid_number :: "string option"
  sssd_user_gid_number :: "string option"
  sssd_user_home_directory :: "string option"
  sssd_user_shell :: "string option"
  sssd_user_fullname :: "string option"
  sssd_group_name :: "string option"
  sssd_group_gid_number :: "string option"
  sssd_group_member :: "string option"
  sssd_domain :: "string option"
  sssd_ignored_attributes :: "bool option"
  auth_provider :: "string option"
  chpass_provider :: "string option"
  ldap_schema :: "string option"
  ldap_id_mapping :: "bool option"
  ldap_auth_disable_tls :: "bool option"
  access_provider :: "string option"
  use_fully_qualified_names :: "bool option"
  krb5_server :: "string option"
  krb5_kpasswd :: "string option"
  krb5_validate :: "bool option"
  krb5_store_password_if_offline :: "bool option"
  sssd_user_principal_name :: "string option"
  entry_cache_timeout :: "32 word option"
  entry_negative_timeout :: "32 word option"

record KerberosSection =
  realm :: "string option"

record GaneshaSection =
  default_security :: string
  post_generate_hook :: "string option"
  warm_principals :: "string list"
  enable_rpc_cred_fallback :: "bool option"
  idmapped_validity_secs :: "32 word option"
  root_kerberos_principals :: "string option"
  manage_gids_expiration_secs :: "64 word option"
  negative_cache_validity_secs :: "32 word option"
  max_uid_to_group_reqs :: "32 word option"
  readdir_res_size :: "32 word option"
  readdir_max_count :: "32 word option"
  getattrs_in_complete_read :: "bool option"
  malloc_trim :: "bool option"
  malloc_trim_min_threshold_mb :: "32 word option"
  ganesha_attr_expiration_secs :: "int option"

record ManagementSection =
  webui_admin_group :: "string option"

record ProbeSection =
  user_principal :: "string option"
  client_host :: "string option"

record HostSection =
  host_nfs :: "bool option"

record WebuiSection =
  tls :: "bool option"
  tls_cert :: "string option"
  tls_key :: "string option"
  session_timeout_minutes :: "16 word option"

record Share =
  name :: string
  host_path :: string
  pseudo_path :: "string option"
  security :: "string option"
  rw :: "bool option"
  squash :: "string option"
  cache_profile :: "string option"
  pref_read :: "64 word option"
  pref_write :: "64 word option"
  enable_acl :: "bool option"
  manage_gids :: "bool option"
  read_access_policy :: "string option"
  manage_gids_expiration :: "64 word option"
  container_path :: string
  source_path :: "string option"
  attr_expiration_secs :: "int option"
  navahi_insecure :: "bool option"
  umask :: "string option"

record NfsKlldapConfig =
  ldap_uri :: string
  navahi_discovery :: bool
  storage :: StorageSection
  server :: ServerSection
  sssd :: SssdSection
  kerberos :: KerberosSection
  ganesha :: GaneshaSection
  management :: ManagementSection
  probe :: ProbeSection
  host :: HostSection
  webui :: WebuiSection
  shares :: "Share list"
  share_warnings :: "ShareFieldWarning list"

section \<open>Defaults\<close>

definition default_share :: Share where
  "default_share =
     \<lparr>name = [], host_path = [], pseudo_path = None, security = None, rw = Some True,
      squash = Some ''root_squash'', cache_profile = Some ''Default'', pref_read = None, pref_write = None,
      enable_acl = None, manage_gids = None, read_access_policy = None, manage_gids_expiration = None,
      container_path = [], source_path = None, attr_expiration_secs = None, navahi_insecure = None,
      umask = None\<rparr>"

text \<open>\<^verbatim>\<open>derive(Default)\<close>: empty strings, no options set.\<close>

definition default_sssd :: SssdSection where
  "default_sssd =
     \<lparr>ldap_default_bind_dn = [], ldap_default_authtok = [], sssd_port = None,
      sssd_user_search_base = None, sssd_group_search_base = None, sssd_search_base = None,
      ldap_tls_reqcert = None, ldap_tls_cacert = None, ldap_id_use_start_tls = None, enumerate = None,
      sssd_user_object_class = None, sssd_group_object_class = None, sssd_user_name = None,
      sssd_user_uid_number = None, sssd_user_gid_number = None, sssd_user_home_directory = None,
      sssd_user_shell = None, sssd_user_fullname = None, sssd_group_name = None,
      sssd_group_gid_number = None, sssd_group_member = None, sssd_domain = None,
      sssd_ignored_attributes = None, auth_provider = None, chpass_provider = None, ldap_schema = None,
      ldap_id_mapping = None, ldap_auth_disable_tls = None, access_provider = None,
      use_fully_qualified_names = None, krb5_server = None, krb5_kpasswd = None, krb5_validate = None,
      krb5_store_password_if_offline = None, sssd_user_principal_name = None,
      entry_cache_timeout = None, entry_negative_timeout = None\<rparr>"

definition default_ganesha :: GaneshaSection where
  "default_ganesha =
     \<lparr>default_security = [], post_generate_hook = None, warm_principals = [],
      enable_rpc_cred_fallback = None, idmapped_validity_secs = None, root_kerberos_principals = None,
      manage_gids_expiration_secs = None, negative_cache_validity_secs = None,
      max_uid_to_group_reqs = None, readdir_res_size = None, readdir_max_count = None,
      getattrs_in_complete_read = None, malloc_trim = None, malloc_trim_min_threshold_mb = None,
      ganesha_attr_expiration_secs = None\<rparr>"

definition default_config :: NfsKlldapConfig where
  "default_config =
     \<lparr>ldap_uri = [], navahi_discovery = False, storage = \<lparr>container_root = []\<rparr>,
      server = \<lparr>hostname = None\<rparr>, sssd = default_sssd, kerberos = \<lparr>realm = None\<rparr>,
      ganesha = default_ganesha, management = \<lparr>webui_admin_group = None\<rparr>,
      probe = \<lparr>user_principal = None, client_host = None\<rparr>, host = \<lparr>host_nfs = None\<rparr>,
      webui = \<lparr>tls = None, tls_cert = None, tls_key = None, session_timeout_minutes = None\<rparr>,
      shares = [], share_warnings = []\<rparr>"

section \<open>Derived values\<close>

definition SHARE_KNOWN_KEYS :: "string list" where
  "SHARE_KNOWN_KEYS =
     [''name'', ''host_path'', ''pseudo_path'', ''security'', ''rw'', ''squash'', ''cache_profile'',
      ''pref_read'', ''pref_write'', ''enable_acl'', ''manage_gids'', ''read_access_policy'',
      ''manage_gids_expiration'', ''container_path'', ''source_path'', ''umask'',
      ''attr_expiration_secs'', ''navahi_insecure'']"

definition warning_for_share :: "ShareFieldWarning list \<Rightarrow> nat \<Rightarrow> string \<Rightarrow> ShareFieldWarning option" where
  "warning_for_share ws i n = find (\<lambda>w. share_index w = i \<or> warning_share_name w = Some n) ws"

definition derive_share_pseudo :: "Share \<Rightarrow> string" where
  "derive_share_pseudo share =
     (let raw = unwrap_or (pseudo_path share) (''/'' @ name share) in
      if starts_with raw ''/'' then raw else ''/'' @ raw)"

definition share_navahi_effective :: "NfsKlldapConfig \<Rightarrow> Share \<Rightarrow> bool" where
  "share_navahi_effective cfg share = (navahi_discovery cfg \<and> navahi_insecure share = Some True)"

record GenerationPaths =
  sssd_conf :: string
  krb5_conf :: string
  ganesha_conf :: string
  exports_dir :: string
  idmap_conf :: string
  nfs_conf :: string
  avahi_services_dir :: string

text \<open>The environment of the process: a variable that is set and valid text has a value.\<close>

type_synonym env = "string \<Rightarrow> string option"

definition from_env :: "env \<Rightarrow> GenerationPaths" where
  "from_env env =
     (let env_path = (\<lambda>key default. unwrap_or (env key) default) in
      \<lparr>sssd_conf = env_path ''SSSD_CONF'' ''/etc/sssd/sssd.conf'',
       krb5_conf = env_path ''KRB5_CONF'' ''/etc/krb5.conf'',
       ganesha_conf = env_path ''GANESHA_CONF'' ''/etc/ganesha/ganesha.conf'',
       exports_dir = env_path ''EXPORTS_DIR'' ''/etc/ganesha/exports.d'',
       idmap_conf = env_path ''IDMAP_CONF'' ''/etc/idmapd.conf'',
       nfs_conf = env_path ''NFS_CONF'' ''/etc/nfs.conf'',
       avahi_services_dir = env_path ''AVAHI_SERVICES_DIR'' ''/etc/avahi/services''\<rparr>)"

definition CACHE_PROFILES :: "string list" where
  "CACHE_PROFILES = [''Default'', ''Read - Basic'', ''Read - Heavy'', ''Mixed Use'', ''Write - Heavy'']"

definition resolve_cache_profile :: "string \<Rightarrow> (64 word \<times> 64 word) option" where
  "resolve_cache_profile profile =
     (let p = trim profile in
      if p = ''Default'' then Some (1048576, 1048576)
      else if p = ''Read - Basic'' then Some (4194304, 4194304)
      else if p = ''Read - Heavy'' then Some (16777216, 8388608)
      else if p = ''Mixed Use'' then Some (4194304, 4194304)
      else if p = ''Write - Heavy'' then Some (2097152, 16777216)
      else None)"

section \<open>Laws\<close>

lemma derive_share_pseudo_absolute: "starts_with (derive_share_pseudo share) ''/''"
  by (simp add: derive_share_pseudo_def Let_def)

lemma derive_share_pseudo_fixed:
  "pseudo_path share = Some p \<Longrightarrow> starts_with p ''/'' \<Longrightarrow> derive_share_pseudo share = p"
  by (simp add: derive_share_pseudo_def)

text \<open>The list of cache profiles offered to the user and the resolver agree: a name resolves
  exactly when, trimmed, it is one of the offered profiles.\<close>

theorem resolve_cache_profile_iff_offered:
  "resolve_cache_profile profile \<noteq> None \<longleftrightarrow> trim profile \<in> set CACHE_PROFILES"
  by (simp add: resolve_cache_profile_def CACHE_PROFILES_def Let_def)

end
