(* ===== verification/Fingerprint.thy ===== *)
theory Fingerprint
  imports Config_Model "HOL-Library.Multiset"
begin

unbundle bit_operations_syntax

text \<open>
  Fingerprints of the generated artifacts, from \<^verbatim>\<open>nfs-klldap-config/src/exports_fingerprint.rs\<close>:
  FNV-1a over 64-bit words with wrapping multiplication. The supervisor compares them to decide
  which services a configuration change touches, so the laws say which changes they detect.
\<close>

section \<open>Byte hashes\<close>

text \<open>
  The interface of a byte-wise hash: the state after a byte determines the state before it, and
  the byte. The 64-bit FNV-1a of the fingerprints and the 32-bit FNV-1 behind the export
  identifiers are its interpretations.
\<close>

locale byte_hash =
  fixes step :: "'h \<Rightarrow> char \<Rightarrow> 'h"
  assumes step_state: "step h c = step h' c \<Longrightarrow> h = h'"
    and step_byte: "step h c = step h c' \<Longrightarrow> c = c'"
begin

lemma fold_state: "foldl step h s = foldl step h' s \<longleftrightarrow> h = h'"
  by (induction s arbitrary: h h') (auto dest: step_state)

lemma single_byte:
  "foldl step h (p @ a # s) = foldl step h (p @ b # s) \<longleftrightarrow> a = b"
  by (auto simp: fold_state dest: step_byte)

end

section \<open>The fingerprints\<close>

definition FNV1A_SEED :: "64 word" where
  "FNV1A_SEED = 0xcbf29ce484222325"

definition FNV_PRIME :: "64 word" where
  "FNV_PRIME = 0x100000001b3"

text \<open>One round: exclusive or with a 64-bit value, then the wrapping multiplication.\<close>

definition fnv_mix :: "64 word \<Rightarrow> 64 word \<Rightarrow> 64 word" where
  "fnv_mix h x = (h XOR x) * FNV_PRIME"

definition fnv_step :: "64 word \<Rightarrow> char \<Rightarrow> 64 word" where
  "fnv_step h b = fnv_mix h (of_nat (byte b))"

definition fingerprint_bytes :: "string \<Rightarrow> 64 word \<Rightarrow> 64 word" where
  "fingerprint_bytes bytes h = foldl fnv_step h bytes"

text \<open>A file is its contents, or nothing when it cannot be read.\<close>

definition fingerprint_file :: "string option \<Rightarrow> 64 word" where
  "fingerprint_file f = (case f of None \<Rightarrow> 0 | Some bytes \<Rightarrow> fingerprint_bytes bytes FNV1A_SEED)"

definition fingerprint_identity_artifacts ::
  "string option \<Rightarrow> string option \<Rightarrow> string option \<Rightarrow> 64 word" where
  "fingerprint_identity_artifacts sssd_file krb5_file idmap_file =
     foldl (\<lambda>h f. fnv_mix h (fingerprint_file f)) FNV1A_SEED [sssd_file, krb5_file, idmap_file]"

text \<open>\<^verbatim>\<open>Path::extension\<close> of a file name.\<close>

definition path_extension :: "string \<Rightarrow> string option" where
  "path_extension f =
     (if f = ''..'' then None
      else case rsplit_once CHR ''.'' f of
             None \<Rightarrow> None
           | Some (stem, ext) \<Rightarrow> if stem = [] then None else Some ext)"

text \<open>
  A directory listing: the file names with their contents (none when unreadable), in the order
  the operating system returns them. A directory that cannot be read is \<^const>\<open>None\<close>.
\<close>

type_synonym listing = "(string \<times> string option) list"

definition hash_entry :: "64 word \<Rightarrow> string \<times> string option \<Rightarrow> 64 word" where
  "hash_entry h e =
     (case snd e of None \<Rightarrow> h | Some bytes \<Rightarrow> fnv_mix (fingerprint_bytes bytes h) 0xff)"

definition fingerprint_exports_dir :: "listing option \<Rightarrow> 64 word" where
  "fingerprint_exports_dir d =
     (case d of
        None \<Rightarrow> 0
      | Some entries \<Rightarrow>
          foldl hash_entry FNV1A_SEED
            (sort_key fst
              (filter (\<lambda>e. path_extension (fst e) = Some ''conf'' \<or> path_extension (fst e) = Some ''cfg'')
                entries)))"

definition fingerprint_avahi_dir :: "listing option \<Rightarrow> 64 word" where
  "fingerprint_avahi_dir d =
     (case d of
        None \<Rightarrow> 0
      | Some entries \<Rightarrow>
          foldl hash_entry FNV1A_SEED
            (sort_key fst (filter (\<lambda>e. path_extension (fst e) = Some ''service'') entries)))"

definition hash_share :: "64 word \<Rightarrow> Share \<Rightarrow> 64 word" where
  "hash_share h share =
     (let h = fingerprint_bytes (name share) h;
          h = fingerprint_bytes (host_path share) h;
          h = (case pseudo_path share of Some p \<Rightarrow> fingerprint_bytes p h | None \<Rightarrow> h);
          h = fingerprint_bytes (container_path share) h
      in fnv_mix h 0xff)"

definition fingerprint_shares :: "NfsKlldapConfig \<Rightarrow> 64 word" where
  "fingerprint_shares cfg =
     (let h = fingerprint_bytes (container_root (storage cfg)) FNV1A_SEED;
          h = fnv_mix h 0x01
      in foldl hash_share h (shares cfg))"

section \<open>Laws\<close>

lemma fnv_prime_inverse: "FNV_PRIME * 14886173955864302971 = 1"
  by (simp add: FNV_PRIME_def)

lemma fnv_mix_state: "fnv_mix h x = fnv_mix h' x \<longleftrightarrow> h = h'"
proof
  assume "fnv_mix h x = fnv_mix h' x"
  then have "(h XOR x) * (FNV_PRIME * 14886173955864302971) = (h' XOR x) * (FNV_PRIME * 14886173955864302971)"
    by (simp add: fnv_mix_def mult.assoc [symmetric] del: mult_cancel_left mult_cancel_right)
  then have "(h XOR x) XOR x = (h' XOR x) XOR x" by (simp only: fnv_prime_inverse mult_1_right)
  then show "h = h'" by (simp add: xor.assoc)
qed simp

lemma fnv_mix_value: "fnv_mix h x = fnv_mix h x' \<longleftrightarrow> x = x'"
  using fnv_mix_state [of x h x'] by (simp add: fnv_mix_def xor.commute)

lemma byte_word_inject: "(of_nat (byte a) :: 64 word) = of_nat (byte b) \<longleftrightarrow> a = b"
proof -
  have "unat (of_nat (byte c) :: 64 word) = byte c" for c
    using order_less_trans [OF nat_of_char_less_256 [of c], of "2 ^ 64"] by (simp add: unat_of_nat)
  then show ?thesis by (metis byte_inject)
qed

interpretation fnv1a: byte_hash fnv_step
  by unfold_locales (simp_all add: fnv_step_def fnv_mix_state fnv_mix_value byte_word_inject)

lemma fingerprint_bytes_state [simp]: "fingerprint_bytes s h = fingerprint_bytes s h' \<longleftrightarrow> h = h'"
  by (simp add: fingerprint_bytes_def fnv1a.fold_state)

lemma fingerprint_bytes_append [simp]:
  "fingerprint_bytes (s @ t) h = fingerprint_bytes t (fingerprint_bytes s h)"
  by (simp add: fingerprint_bytes_def)

lemma fingerprint_bytes_single:
  "fingerprint_bytes (p @ a # s) h = fingerprint_bytes (p @ b # s) h \<longleftrightarrow> a = b"
  unfolding fingerprint_bytes_def by (rule fnv1a.single_byte)

lemma hash_entry_state: "hash_entry h e = hash_entry h' e \<longleftrightarrow> h = h'"
  by (cases e) (auto simp: hash_entry_def fnv_mix_state split: option.split)

lemma hash_entries_state: "foldl hash_entry h es = foldl hash_entry h' es \<longleftrightarrow> h = h'"
  by (induction es arbitrary: h h') (auto simp: hash_entry_state)

lemma insort_key_map:
  "(\<And>x. f (g x) = f x) \<Longrightarrow> insort_key f (g x) (map g xs) = map g (insort_key f x xs)"
  by (induction xs) auto

lemma sort_key_map:
  "(\<And>x. f (g x) = f x) \<Longrightarrow> sort_key f (map g xs) = map g (sort_key f xs)"
  by (induction xs) (auto simp: insort_key_map)

text \<open>Replacing the contents of one file of a listing whose names are distinct.\<close>

definition replace_file :: "string \<Rightarrow> string option \<Rightarrow> string \<times> string option \<Rightarrow> string \<times> string option" where
  "replace_file n c e = (if fst e = n then (n, c) else e)"

lemma fst_replace_file [simp]: "fst (replace_file n c e) = fst e"
  by (simp add: replace_file_def)

lemma sorted_listing_replace:
  assumes "distinct (map fst es)" and "(n, c) \<in> set es" and "P n"
  shows "\<exists>xs ys. sort_key fst (filter (\<lambda>e. P (fst e)) es) = xs @ (n, c) # ys \<and>
    sort_key fst (filter (\<lambda>e. P (fst e)) (map (replace_file n c') es)) = xs @ (n, c') # ys"
proof -
  define zs where "zs = sort_key fst (filter (\<lambda>e. P (fst e)) es)"
  have "(n, c) \<in> set zs" using assms by (simp add: zs_def)
  then obtain xs ys where z: "zs = xs @ (n, c) # ys" by (meson split_list)
  have d: "distinct (map fst zs)"
  proof -
    have "distinct (map fst (filter (\<lambda>e. P (fst e)) es))"
      using assms(1) by (simp add: distinct_map_filter)
    then show ?thesis
      by (simp add: zs_def distinct_map)
  qed
  have "sort_key fst (filter (\<lambda>e. P (fst e)) (map (replace_file n c') es)) = map (replace_file n c') zs"
    by (simp add: zs_def sort_key_map filter_map o_def)
  also have "map (replace_file n c') xs = xs" "map (replace_file n c') ys = ys"
    using d unfolding z by (auto simp: replace_file_def rev_image_eqI intro!: map_idI)
  then have "map (replace_file n c') zs = xs @ (n, c') # ys"
    by (simp add: z replace_file_def)
  finally show ?thesis using z zs_def by metis
qed

lemma sorted_listing_perm:
  assumes "distinct (map fst es)" and "mset es = mset es'"
  shows "sort_key fst (filter P es) = sort_key fst (filter P es')"
proof (rule sort_key_inj_key_eq)
  show "mset (filter P es) = mset (sort_key fst (filter P es'))" using assms(2) by (simp add: mset_filter)
  show "sorted (map fst (sort_key fst (filter P es')))" by simp
  show "inj_on fst (set (filter P es))"
    using assms(1) by (auto simp: distinct_map intro: inj_on_subset)
qed

text \<open>The export fingerprint does not depend on the order in which the directory is listed.\<close>

theorem fingerprint_exports_dir_order:
  assumes "distinct (map fst es)" and "mset es = mset es'"
  shows "fingerprint_exports_dir (Some es) = fingerprint_exports_dir (Some es')"
  using sorted_listing_perm [OF assms] by (simp add: fingerprint_exports_dir_def)

theorem fingerprint_exports_dir_order_witness:
  "fingerprint_exports_dir (Some [(''11-b.conf'', Some ''x''), (''10-a.conf'', Some ''y'')])
     = fingerprint_exports_dir (Some [(''10-a.conf'', Some ''y''), (''11-b.conf'', Some ''x'')])"
  by (rule fingerprint_exports_dir_order) (simp_all add: add_mset_commute)

text \<open>Changing any one byte of any export fragment changes the export fingerprint, so the
  supervisor sees the edit; replacing a byte by itself does not.\<close>

theorem fingerprint_exports_dir_detects_byte:
  assumes "distinct (map fst es)" and "(n, Some (p @ a # s)) \<in> set es"
    and "path_extension n = Some ''conf''"
  shows "fingerprint_exports_dir (Some (map (replace_file n (Some (p @ b # s))) es))
      = fingerprint_exports_dir (Some es) \<longleftrightarrow> a = b"
proof -
  let ?P = "\<lambda>f. path_extension f = Some ''conf'' \<or> path_extension f = Some ''cfg''"
  from sorted_listing_replace [OF assms(1,2), of ?P "Some (p @ b # s)"] assms(3) obtain xs ys where
    "sort_key fst (filter (\<lambda>e. ?P (fst e)) es) = xs @ (n, Some (p @ a # s)) # ys"
    "sort_key fst (filter (\<lambda>e. ?P (fst e)) (map (replace_file n (Some (p @ b # s))) es))
       = xs @ (n, Some (p @ b # s)) # ys"
    by auto
  then have "fingerprint_exports_dir (Some (map (replace_file n (Some (p @ b # s))) es))
      = fingerprint_exports_dir (Some es) \<longleftrightarrow>
    hash_entry (foldl hash_entry FNV1A_SEED xs) (n, Some (p @ b # s))
      = hash_entry (foldl hash_entry FNV1A_SEED xs) (n, Some (p @ a # s))"
    by (simp add: fingerprint_exports_dir_def hash_entries_state)
  also have "\<dots> \<longleftrightarrow> a = b"
    using fingerprint_bytes_single [of p b s _ a]
    by (auto simp: hash_entry_def fnv_mix_state simp del: fingerprint_bytes_append)
  finally show ?thesis .
qed

theorem fingerprint_exports_dir_detects_byte_witness:
  "fingerprint_exports_dir (Some [(''10-a.conf'', Some ''Path = /b;'')])
     \<noteq> fingerprint_exports_dir (Some [(''10-a.conf'', Some ''Path = /a;'')])"
proof -
  have e: "path_extension ''10-a.conf'' = Some ''conf''" by code_simp
  show ?thesis
    using fingerprint_exports_dir_detects_byte
      [of "[(''10-a.conf'', Some ''Path = /a;'')]" "''10-a.conf''" "''Path = /''" "CHR ''a''" "'';''" "CHR ''b''"] e
    by (simp add: replace_file_def)
qed

text \<open>Changing one byte of any one of the SSSD, Kerberos and idmap configurations changes the
  identity fingerprint.\<close>

theorem fingerprint_identity_detects_byte:
  assumes "a \<noteq> b"
  shows "fingerprint_identity_artifacts (Some (p @ a # s)) g h \<noteq> fingerprint_identity_artifacts (Some (p @ b # s)) g h
    \<and> fingerprint_identity_artifacts g (Some (p @ a # s)) h \<noteq> fingerprint_identity_artifacts g (Some (p @ b # s)) h
    \<and> fingerprint_identity_artifacts g h (Some (p @ a # s)) \<noteq> fingerprint_identity_artifacts g h (Some (p @ b # s))"
  using assms fingerprint_bytes_single [of p a s FNV1A_SEED b]
  by (simp add: fingerprint_identity_artifacts_def fnv_mix_state fnv_mix_value fingerprint_file_def
      del: fingerprint_bytes_append)

theorem fingerprint_identity_detects_byte_witness:
  "fingerprint_identity_artifacts (Some ''[sssd]a'') None (Some ''x'')
     \<noteq> fingerprint_identity_artifacts (Some ''[sssd]b'') None (Some ''x'')"
proof -
  have "CHR ''a'' \<noteq> CHR ''b''" by simp
  from fingerprint_identity_detects_byte [OF this, of "''[sssd]''" "[]"] show ?thesis by simp
qed

text \<open>The bytes a share contributes: its four fields without separators, then an end mark.\<close>

lemma hash_share_bytes:
  "hash_share h sh =
     fnv_mix (fingerprint_bytes
       (name sh @ host_path sh @ unwrap_or (pseudo_path sh) [] @ container_path sh) h) 0xff"
  by (simp add: hash_share_def Let_def fingerprint_bytes_def split: option.split)

lemma hash_shares_state: "foldl hash_share h ss = foldl hash_share h' ss \<longleftrightarrow> h = h'"
  by (induction ss arbitrary: h h') (auto simp: hash_share_bytes fnv_mix_state)

text \<open>The share fingerprint sees any one-byte change of a share's host path, at any position of
  the share list; but the fields of one share are hashed without separators, so bytes that move
  from one field to the next go unnoticed.\<close>

theorem fingerprint_shares_host_path:
  "(fingerprint_shares (cfg\<lparr>shares := xs @ sh\<lparr>host_path := p @ a # s\<rparr> # ys\<rparr>)
      = fingerprint_shares (cfg\<lparr>shares := xs @ sh\<lparr>host_path := p @ b # s\<rparr> # ys\<rparr>) \<longleftrightarrow> a = b)
   \<and> fingerprint_shares (cfg\<lparr>shares := xs @ sh\<lparr>host_path := p @ q, pseudo_path := Some s\<rparr> # ys\<rparr>)
      = fingerprint_shares (cfg\<lparr>shares := xs @ sh\<lparr>host_path := p, pseudo_path := Some (q @ s)\<rparr> # ys\<rparr>)"
  using fingerprint_bytes_single [of p a "s @ unwrap_or (pseudo_path sh) [] @ container_path sh" _ b]
  by (simp add: fingerprint_shares_def Let_def hash_shares_state hash_share_bytes fnv_mix_state)

end
