(* ===== verification/Fs_Probe.thy ===== *)
theory Fs_Probe
  imports Fingerprint
begin

text \<open>
  ACL capability of the served file systems, from \<^verbatim>\<open>nfs-klldap-config/src/fs_probe.rs\<close>: reading
  \<^verbatim>\<open>/proc/self/mountinfo\<close>, finding the mount of a path, the layered ACL verdict and the export
  flags that follow from it. What the kernel and the ACL tools answer is an input.
\<close>

section \<open>Mount table\<close>

record FsCapabilities =
  fstype :: string
  mount_options :: "string list"
  acl_capable :: bool

record MountEntry =
  mount_point :: string
  mnt_fstype :: string
  mount_source :: string
  super_options :: "string list"

definition normalize_path :: "string \<Rightarrow> string" where
  "normalize_path path =
     (let trimmed = trim_end_char CHR ''/'' path in if trimmed = [] then ''/'' else trimmed)"

definition path_under_mount :: "string \<Rightarrow> string \<Rightarrow> bool" where
  "path_under_mount path mp =
     (if path = mp then True
      else if mp = ''/'' then starts_with path ''/''
      else starts_with path (mp @ ''/''))"

text \<open>\<^verbatim>\<open>position\<close> of the first element equal to \<open>x\<close>.\<close>

fun position :: "string \<Rightarrow> string list \<Rightarrow> nat option" where
  "position x [] = None"
| "position x (y # ys) = (if y = x then Some 0 else map_option Suc (position x ys))"

definition parse_mountinfo_line :: "string \<Rightarrow> MountEntry option" where
  "parse_mountinfo_line line =
     (let parts = split_whitespace line in
      if length parts < 10 then None
      else case position ''-'' parts of
             None \<Rightarrow> None
           | Some dash \<Rightarrow>
               if dash + 3 \<ge> length parts then None
               else Some \<lparr>mount_point = parts ! 4,
                          mnt_fstype = parts ! (dash + 1),
                          mount_source = parts ! (dash + 2),
                          super_options = filter (\<lambda>s. s \<noteq> [])
                            (map trim (concat (map (split_on CHR '','') (drop (dash + 3) parts))))\<rparr>)"

definition parse_mountinfo :: "string \<Rightarrow> MountEntry list" where
  "parse_mountinfo content = List.map_filter parse_mountinfo_line (lines content)"

text \<open>\<^verbatim>\<open>max_by_key\<close>: the last of the elements with the greatest key.\<close>

fun max_by_key :: "('a \<Rightarrow> nat) \<Rightarrow> 'a list \<Rightarrow> 'a option" where
  "max_by_key f [] = None"
| "max_by_key f (x # xs) =
     (case max_by_key f xs of None \<Rightarrow> Some x | Some y \<Rightarrow> if f x \<le> f y then Some y else Some x)"

definition resolve_mount_for_path :: "MountEntry list \<Rightarrow> string \<Rightarrow> MountEntry option" where
  "resolve_mount_for_path entries path =
     (let norm = normalize_path path in
      max_by_key (\<lambda>e. length (normalize_path (mount_point e)))
        (filter (\<lambda>e. path_under_mount norm (normalize_path (mount_point e))) entries))"

definition acl_capable_from_mount :: "string \<Rightarrow> string list \<Rightarrow> string \<Rightarrow> bool" where
  "acl_capable_from_mount fstyp options source =
     (if list_ex (\<lambda>opt. eq_ignore_ascii_case opt ''noacl'') options then False
      else let fs = to_ascii_lowercase fstyp in
           if fs \<in> {''vfat'', ''fat'', ''msdos'', ''exfat''} then False
           else if fs \<in> {''ntfs'', ''ntfs3'', ''fuseblk''} then False
           else if contains_str (to_ascii_lowercase source) ''ntfs'' then False
           else True)"

definition entry_capable :: "MountEntry \<Rightarrow> bool" where
  "entry_capable e = acl_capable_from_mount (mnt_fstype e) (super_options e) (mount_source e)"

definition unknown_caps :: FsCapabilities where
  "unknown_caps = \<lparr>fstype = ''unknown'', mount_options = [], acl_capable = False\<rparr>"

definition probe_from_mountinfo_with_root :: "string \<Rightarrow> string \<Rightarrow> FsCapabilities \<times> string option" where
  "probe_from_mountinfo_with_root content path =
     (case resolve_mount_for_path (parse_mountinfo content) path of
        Some e \<Rightarrow> (\<lparr>fstype = mnt_fstype e, mount_options = super_options e, acl_capable = entry_capable e\<rparr>,
                   Some (mount_point e))
      | None \<Rightarrow> (unknown_caps, None))"

definition probe_from_mountinfo :: "string \<Rightarrow> string \<Rightarrow> FsCapabilities" where
  "probe_from_mountinfo content path = fst (probe_from_mountinfo_with_root content path)"

text \<open>Reading the mount table can fail; a failed read is an error of the probe.\<close>

definition probe_fs_capabilities_with_root ::
  "string option \<Rightarrow> string \<Rightarrow> (unit, FsCapabilities \<times> string option) result" where
  "probe_fs_capabilities_with_root mountinfo path =
     (case mountinfo of None \<Rightarrow> Err () | Some c \<Rightarrow> Ok (probe_from_mountinfo_with_root c path))"

definition probe_fs_capabilities :: "string option \<Rightarrow> string \<Rightarrow> (unit, FsCapabilities) result" where
  "probe_fs_capabilities mountinfo path =
     and_then (probe_fs_capabilities_with_root mountinfo path) (\<lambda>r. Ok (fst r))"

section \<open>Snapshots of the mount table\<close>

text \<open>The two-second cache of the live table: what it returns and what it stores, at time \<open>now\<close>.\<close>

definition cached_live_mountinfo ::
  "nat \<Rightarrow> string option \<Rightarrow> (nat \<times> string) option \<Rightarrow> string option \<times> (nat \<times> string) option" where
  "cached_live_mountinfo now proc_read cache =
     (let fresh = (case proc_read of None \<Rightarrow> (None, cache) | Some c \<Rightarrow> (Some c, Some (now, c))) in
      case cache of
        Some (t, c) \<Rightarrow> if now - t < 2 * 1000000000 then (Some c, cache) else fresh
      | None \<Rightarrow> fresh)"

text \<open>
  Sources of a snapshot: the fixture file, if given and readable; the file named by the
  environment, if the variable is set; the live table.
\<close>

definition capture :: "string option \<Rightarrow> string option option \<Rightarrow> string option \<Rightarrow> string option" where
  "capture fixture_read env_read live =
     (case fixture_read of
        Some c \<Rightarrow> Some c
      | None \<Rightarrow> (case env_read of Some r \<Rightarrow> r | None \<Rightarrow> live))"

definition probe_with_root :: "string option \<Rightarrow> string \<Rightarrow> (FsCapabilities \<times> string option) option" where
  "probe_with_root snapshot path = map_option (\<lambda>c. probe_from_mountinfo_with_root c path) snapshot"

definition probe_snapshot :: "string option \<Rightarrow> string \<Rightarrow> FsCapabilities option" where
  "probe_snapshot snapshot path = map_option fst (probe_with_root snapshot path)"

text \<open>The entries visible at each mount point: later entries replace earlier ones.\<close>

definition visible_mount :: "MountEntry list \<Rightarrow> string \<Rightarrow> MountEntry option" where
  "visible_mount entries mp = find (\<lambda>e. normalize_path (mount_point e) = mp) (rev entries)"

record AclIncapableMount =
  inc_mount_point :: string
  inc_fstype :: string

definition acl_incapable_mounts_under :: "string option \<Rightarrow> string \<Rightarrow> AclIncapableMount list" where
  "acl_incapable_mounts_under snapshot root =
     (case snapshot of
        None \<Rightarrow> []
      | Some content \<Rightarrow>
          let root_norm = normalize_path root;
              entries = parse_mountinfo content;
              keys = sort_dedup (map (\<lambda>e. normalize_path (mount_point e)) entries)
          in List.map_filter
               (\<lambda>mp. case visible_mount entries mp of
                  None \<Rightarrow> None
                | Some e \<Rightarrow>
                    if mp \<noteq> root_norm \<and> path_under_mount mp root_norm \<and> \<not> entry_capable e
                    then Some \<lparr>inc_mount_point = mp, inc_fstype = mnt_fstype e\<rparr> else None)
               keys)"

section \<open>ACL probe\<close>

datatype AclProbeVerdict = Capable | Incapable | Inconclusive

text \<open>A run of an ACL tool: it did not start or timed out, or it exited.\<close>

datatype tool_run = ToolFailed | ToolExit (exit_ok: bool) (tool_stdout: string) (tool_stderr: string)

definition stderr_says_not_supported :: "string \<Rightarrow> bool" where
  "stderr_says_not_supported s = contains_str (to_ascii_lowercase s) ''not supported''"

fun serve_path_posix_acl_supported :: "tool_run \<Rightarrow> bool option" where
  "serve_path_posix_acl_supported ToolFailed = None"
| "serve_path_posix_acl_supported (ToolExit ok out err) =
     (if ok then Some True else if stderr_says_not_supported err then Some False else None)"

definition write_probe_round_trip :: "tool_run \<Rightarrow> tool_run \<Rightarrow> bool option" where
  "write_probe_round_trip set_run get_run =
     (case set_run of
        ToolFailed \<Rightarrow> None
      | ToolExit ok _ err \<Rightarrow>
          if \<not> ok then (if stderr_says_not_supported err then Some False else None)
          else case get_run of
                 ToolFailed \<Rightarrow> None
               | ToolExit ok out _ \<Rightarrow>
                   if \<not> ok then None
                   else if list_ex (\<lambda>l. trim l = ''user:0:rwx'') (lines out) then Some True else None)"

definition serve_path_posix_acl_write_probe :: "bool \<Rightarrow> tool_run \<Rightarrow> tool_run \<Rightarrow> bool option" where
  "serve_path_posix_acl_write_probe file_created set_run get_run =
     (if \<not> file_created then None else write_probe_round_trip set_run get_run)"

definition acl_probe_verdict :: "FsCapabilities \<Rightarrow> bool option \<Rightarrow> bool option \<Rightarrow> AclProbeVerdict" where
  "acl_probe_verdict caps write_probe read_sniff =
     (if \<not> acl_capable caps then Incapable
      else case write_probe of
             Some True \<Rightarrow> Capable
           | Some False \<Rightarrow> Incapable
           | None \<Rightarrow> (case read_sniff of Some False \<Rightarrow> Incapable | _ \<Rightarrow> Inconclusive))"

definition verdict_from_caps :: "FsCapabilities \<Rightarrow> AclProbeVerdict" where
  "verdict_from_caps caps = (if acl_capable caps then Inconclusive else Incapable)"

section \<open>Export flags\<close>

record EffectiveShareFlags =
  eff_enable_acl :: bool
  eff_manage_gids :: bool
  auto_applied :: bool
  auto_enabled :: bool

definition compute_effective_flags_probed ::
  "Share \<Rightarrow> FsCapabilities \<Rightarrow> AclProbeVerdict \<Rightarrow> EffectiveShareFlags" where
  "compute_effective_flags_probed share caps verdict =
     (let acl = (case enable_acl share of Some v \<Rightarrow> v | None \<Rightarrow> verdict = Capable) in
      \<lparr>eff_enable_acl = acl,
       eff_manage_gids = unwrap_or (manage_gids share) True,
       auto_applied = (\<not> acl_capable caps \<and> enable_acl share = None),
       auto_enabled = (acl \<and> enable_acl share = None)\<rparr>)"

definition compute_effective_flags :: "Share \<Rightarrow> FsCapabilities \<Rightarrow> EffectiveShareFlags" where
  "compute_effective_flags share caps = compute_effective_flags_probed share caps (verdict_from_caps caps)"

datatype ReadAccessPolicyEmit = Omit | Pre | Post

definition compute_read_access_policy_emit :: "Share \<Rightarrow> EffectiveShareFlags \<Rightarrow> ReadAccessPolicyEmit" where
  "compute_read_access_policy_emit share eff =
     (case read_access_policy share of
        Some raw \<Rightarrow>
          if to_ascii_lowercase (trim raw) = ''post'' then (if eff_enable_acl eff then Post else Pre) else Pre
      | None \<Rightarrow> if eff_enable_acl eff then Omit else Pre)"

section \<open>Laws of paths\<close>

lemma normalize_path_idem: "normalize_path (normalize_path p) = normalize_path p"
proof (cases "trim_end_char CHR ''/'' p = []")
  case True
  then show ?thesis by (simp add: normalize_path_def trim_end_char_def)
next
  case False
  then show ?thesis by (simp add: normalize_path_def)
qed

interpretation path_nf: normal_form normalize_path
  by unfold_locales (rule normalize_path_idem)

lemma normalize_path_end: "normalize_path p = ''/'' \<or> (normalize_path p \<noteq> [] \<and> last (normalize_path p) \<noteq> CHR ''/'')"
  using trim_end_char_last [of "CHR ''/''" p] by (auto simp: normalize_path_def Let_def)

lemma split_on_append: "split_on c (a @ c # b) = split_on c a @ split_on c b"
proof (induction a)
  case Nil
  then show ?case by simp
next
  case (Cons x a)
  obtain y ys where "split_on c a = y # ys" by (meson list.exhaust split_on_not_Nil)
  with Cons show ?case by auto
qed

text \<open>The components of a path; for normal paths, being under a mount is having its components as a prefix.\<close>

definition components :: "string \<Rightarrow> string list" where
  "components p = (if p = ''/'' then [[]] else split_on CHR ''/'' p)"

lemma path_under_components:
  assumes "mp \<noteq> ''/''"
  shows "p = mp \<or> starts_with p (mp @ ''/'') \<longleftrightarrow> prefix (split_on CHR ''/'' mp) (split_on CHR ''/'' p)"
proof
  assume "p = mp \<or> starts_with p (mp @ ''/'')"
  then show "prefix (split_on CHR ''/'' mp) (split_on CHR ''/'' p)"
    by (auto simp: split_on_append elim!: prefixE)
next
  assume "prefix (split_on CHR ''/'' mp) (split_on CHR ''/'' p)"
  then obtain r where r: "split_on CHR ''/'' p = split_on CHR ''/'' mp @ r" by (auto elim: prefixE)
  have "join ''/'' (a @ b) = join ''/'' a @ ''/'' @ join ''/'' b" if "a \<noteq> []" "b \<noteq> []" for a b
    using that by (induction a rule: list_nonempty_induct) (simp_all add: join_Cons)
  then have "join ''/'' (split_on CHR ''/'' mp @ r) = mp \<or> (\<exists>t. join ''/'' (split_on CHR ''/'' mp @ r) = mp @ ''/'' @ t)"
    by (cases "r = []") auto
  then show "p = mp \<or> starts_with p (mp @ ''/'')"
    unfolding r [symmetric] by (auto simp: prefix_def)
qed

lemma path_under_mount_components:
  assumes "starts_with p ''/''" and "starts_with mp ''/''"
  shows "path_under_mount p mp \<longleftrightarrow> prefix (components mp) (components p)"
proof (cases "mp = ''/''")
  case True
  from assms(1) obtain t where p: "p = CHR ''/'' # t" by (auto elim: prefixE)
  with True show ?thesis by (auto simp: path_under_mount_def components_def)
next
  case False
  have "\<not> prefix (split_on CHR ''/'' mp) [[]]"
  proof
    assume "prefix (split_on CHR ''/'' mp) [[]]"
    then have "split_on CHR ''/'' mp = [[]]" by (simp add: prefix_Cons)
    then have "join ''/'' (split_on CHR ''/'' mp) = []" by simp
    with assms(2) show False by simp
  qed
  moreover have "\<not> starts_with ''/'' (mp @ ''/'')"
    using assms(2) by (auto simp: prefix_Cons)
  ultimately show ?thesis
    using False path_under_components [OF False, of p]
    by (auto simp: path_under_mount_def components_def)
qed

section \<open>Laws of mount resolution\<close>

lemma max_by_key_None [simp]: "max_by_key f xs = None \<longleftrightarrow> xs = []"
  by (cases xs) (auto split: option.split)

lemma max_by_key_Some:
  "max_by_key f xs = Some y \<Longrightarrow>
     \<exists>us vs. xs = us @ y # vs \<and> (\<forall>u \<in> set us. f u \<le> f y) \<and> (\<forall>v \<in> set vs. f v < f y)"
proof (induction xs arbitrary: y)
  case (Cons x xs)
  show ?case
  proof (cases "max_by_key f xs")
    case None
    with Cons.prems show ?thesis by (intro exI [of _ "[]"]) auto
  next
    case (Some z)
    from Cons.IH [OF Some] obtain us vs where z: "xs = us @ z # vs"
      "\<forall>u \<in> set us. f u \<le> f z" "\<forall>v \<in> set vs. f v < f z" by blast
    show ?thesis
    proof (cases "f x \<le> f z")
      case True
      then show ?thesis using Cons.prems Some z by (intro exI [of _ "x # us"] exI [of _ vs]) auto
    next
      case False
      then show ?thesis using Cons.prems Some z by (intro exI [of _ "[]"] exI [of _ xs]) fastforce
    qed
  qed
qed simp

lemma filter_split:
  "filter P xs = us @ e # vs \<Longrightarrow> \<exists>ys zs. xs = ys @ e # zs \<and> filter P zs = vs \<and> P e"
proof (induction xs arbitrary: us)
  case (Cons x xs)
  show ?case
  proof (cases "P x \<and> us = []")
    case True
    with Cons.prems show ?thesis by (intro exI [of _ "[]"] exI [of _ xs]) auto
  next
    case False
    then have "filter P xs = (if P x then tl us else us) @ e # vs"
      using Cons.prems by (cases us) auto
    from Cons.IH [OF this] obtain ys zs where "xs = ys @ e # zs" "filter P zs = vs" "P e" by blast
    then show ?thesis by (intro exI [of _ "x # ys"] exI [of _ zs]) simp
  qed
qed simp

lemma under_two_mounts:
  assumes "path_under_mount p (normalize_path a)" "path_under_mount p (normalize_path b)"
    and "length (normalize_path a) = length (normalize_path b)"
  shows "normalize_path a = normalize_path b"
proof -
  have "prefix (normalize_path m) p" if "path_under_mount p (normalize_path m)" for m
    using that by (auto simp: path_under_mount_def dest: append_prefixD split: if_splits)
  with assms show ?thesis
    by (metis prefix_same_cases prefix_length_prefix prefix_order.antisym order_refl)
qed


text \<open>For absolute paths, being under a mount point is having all of its components, in order, as
  the first components of the path; a sibling whose name merely starts alike is not under it.\<close>

theorem path_under_mount_iff_components:
  assumes "starts_with p ''/''" and "starts_with mp ''/''"
  shows "path_under_mount p mp \<longleftrightarrow> prefix (components mp) (components p)"
  using assms by (rule path_under_mount_components)

theorem path_under_mount_iff_components_witness:
  "path_under_mount ''/srv/data/x'' ''/srv/data'' \<longleftrightarrow> prefix (components ''/srv/data'') (components ''/srv/data/x'')"
  by (rule path_under_mount_iff_components) simp_all

text \<open>The survey of a share tree reports exactly the mounts strictly below its root whose visible
  entry cannot store ACLs, each once and in order; the root's own mount is never among them.\<close>

theorem acl_incapable_mounts_exact:
  "sorted (map inc_mount_point (acl_incapable_mounts_under (Some content) root))
   \<and> distinct (map inc_mount_point (acl_incapable_mounts_under (Some content) root))
   \<and> set (acl_incapable_mounts_under (Some content) root) =
      {m. inc_mount_point m \<noteq> normalize_path root \<and> path_under_mount (inc_mount_point m) (normalize_path root)
        \<and> (\<exists>e. visible_mount (parse_mountinfo content) (inc_mount_point m) = Some e
             \<and> \<not> entry_capable e \<and> inc_fstype m = mnt_fstype e)}"
proof -
  define entries where "entries = parse_mountinfo content"
  define keys where "keys = sort_dedup (map (\<lambda>e. normalize_path (mount_point e)) entries)"
  define g where "g mp = (case visible_mount entries mp of
      None \<Rightarrow> None
    | Some e \<Rightarrow> if mp \<noteq> normalize_path root \<and> path_under_mount mp (normalize_path root) \<and> \<not> entry_capable e
               then Some \<lparr>inc_mount_point = mp, inc_fstype = mnt_fstype e\<rparr> else None)" for mp
  have r: "acl_incapable_mounts_under (Some content) root = List.map_filter g keys"
    by (simp add: acl_incapable_mounts_under_def Let_def entries_def keys_def g_def [abs_def])
  have key: "g mp = Some m \<Longrightarrow> inc_mount_point m = mp" for mp m
    by (auto simp: g_def split: option.splits if_splits)
  have names: "map inc_mount_point (List.map_filter g xs) = filter (\<lambda>mp. g mp \<noteq> None) xs" for xs
    by (induction xs) (auto simp: List.map_filter_simps key split: option.split)
  have "visible_mount entries mp = Some e \<Longrightarrow> mp \<in> set keys" for mp e
    using find_SomeD [of _ "rev entries" e] by (fastforce simp: visible_mount_def keys_def)
  then have "g mp = Some m \<Longrightarrow> mp \<in> set keys" for mp m
    by (auto simp: g_def split: option.splits)
  then have "set (List.map_filter g keys) = {m. \<exists>mp. g mp = Some m}"
    by (auto simp: set_map_filter_eq)
  also have "\<dots> = {m. inc_mount_point m \<noteq> normalize_path root \<and> path_under_mount (inc_mount_point m) (normalize_path root)
        \<and> (\<exists>e. visible_mount entries (inc_mount_point m) = Some e \<and> \<not> entry_capable e \<and> inc_fstype m = mnt_fstype e)}"
  proof -
    have "g mp = Some m \<longleftrightarrow> mp = inc_mount_point m \<and> mp \<noteq> normalize_path root
        \<and> path_under_mount mp (normalize_path root)
        \<and> (\<exists>e. visible_mount entries mp = Some e \<and> \<not> entry_capable e \<and> inc_fstype m = mnt_fstype e)" for mp m
      by (cases "visible_mount entries mp"; cases m) (auto simp: g_def)
    then show ?thesis by simp
  qed
  finally show ?thesis
    using sort_dedup_strict [of "map (\<lambda>e. normalize_path (mount_point e)) entries"]
    by (simp add: r names keys_def entries_def sorted_filter [of id, simplified])
qed

section \<open>Laws of the probe and the flags\<close>

text \<open>Access control lists are switched on automatically only on proof: with no explicit setting a
  share gets them exactly when a named entry was stored and read back on a file system that is
  not on the denylist; an explicit setting always wins, and the static view without a live probe
  never enables them.\<close>

theorem auto_acl_needs_proof:
  "(enable_acl share = None \<longrightarrow>
     (eff_enable_acl (compute_effective_flags_probed share caps
        (acl_probe_verdict caps (serve_path_posix_acl_write_probe created set_run get_run) sniff)) \<longleftrightarrow>
      acl_capable caps \<and> created \<and> (\<exists>out err. set_run = ToolExit True out err)
      \<and> (\<exists>out err. get_run = ToolExit True out err \<and> list_ex (\<lambda>l. trim l = ''user:0:rwx'') (lines out)))
     \<and> \<not> eff_enable_acl (compute_effective_flags share caps))
   \<and> (enable_acl share = Some b \<longrightarrow>
       eff_enable_acl (compute_effective_flags_probed share caps v) = b
       \<and> \<not> auto_enabled (compute_effective_flags_probed share caps v)
       \<and> \<not> auto_applied (compute_effective_flags_probed share caps v))"
  by (auto simp: compute_effective_flags_probed_def compute_effective_flags_def acl_probe_verdict_def
      serve_path_posix_acl_write_probe_def write_probe_round_trip_def verdict_from_caps_def Let_def
      split: tool_run.splits option.splits bool.splits if_splits)

theorem auto_acl_needs_proof_witness:
  "let share = default_share;
       caps = \<lparr>fstype = ''ext4'', mount_options = [], acl_capable = True\<rparr>;
       out = ''user:0:rwx''
   in eff_enable_acl (compute_effective_flags_probed share caps
        (acl_probe_verdict caps (serve_path_posix_acl_write_probe True (ToolExit True [] []) (ToolExit True out [])) None))"
proof -
  have "enable_acl default_share = None" by (simp add: default_share_def)
  moreover have "list_ex (\<lambda>l. trim l = ''user:0:rwx'') (lines ''user:0:rwx'')" by code_simp
  ultimately show ?thesis
    using auto_acl_needs_proof [of default_share "\<lparr>fstype = ''ext4'', mount_options = [], acl_capable = True\<rparr>"
        True "ToolExit True [] []" "ToolExit True ''user:0:rwx'' []" None] by (simp add: Let_def)
qed

text \<open>The read access policy \<^verbatim>\<open>post\<close> is emitted only on exports with access control lists, and the
  policy line is left out only there.\<close>

theorem read_policy_emit_needs_acl:
  "(compute_read_access_policy_emit share eff = Post \<longleftrightarrow>
      eff_enable_acl eff \<and> (\<exists>raw. read_access_policy share = Some raw \<and> to_ascii_lowercase (trim raw) = ''post''))
   \<and> (compute_read_access_policy_emit share eff = Omit \<longleftrightarrow> eff_enable_acl eff \<and> read_access_policy share = None)"
  by (auto simp: compute_read_access_policy_emit_def split: option.splits)

text \<open>The cached mount table is never served when it is two seconds old or older.\<close>

lemma cached_mountinfo_fresh:
  "fst (cached_live_mountinfo now rd cache) = Some c \<Longrightarrow>
     rd = Some c \<or> (\<exists>t. cache = Some (t, c) \<and> now < t + 2 * 1000000000)"
  by (auto simp: cached_live_mountinfo_def Let_def split: option.splits if_splits)

text \<open>Mount points are compared as the kernel prints them: a blank in a mount point is written as
  an octal escape, which is not decoded, so the path is resolved to an outer mount.\<close>

lemma mount_point_escape_not_decoded:
  "snd (probe_from_mountinfo_with_root
     (''1 0 8:1 / / rw - ext4 /dev/a rw'' @ [line_feed] @
      ''2 1 8:2 / /mnt/my'' @ [backslash] @ ''040disk rw - vfat /dev/b rw'')
     ''/mnt/my disk/x'') = Some ''/''"
  by code_simp

end
