(* ===== verification/Validate.thy ===== *)
theory Validate
  imports Config_Model
begin

text \<open>
  Validation and derivation of the configuration, from \<^verbatim>\<open>nfs-klldap-config/src/validate.rs\<close>, with
  the environment overrides (\<^verbatim>\<open>apply_core_env_overrides\<close>, and the two readers of \<^verbatim>\<open>hostname.rs\<close> it
  calls). \<^verbatim>\<open>validate_and_derive\<close> is cut at its blocks into one definition each, composed in the
  order of the code. A rejected configuration is an error value that names the branch; lines the
  code only prints to the log are not modelled, nor is the file system probe that decides
  whether to print one of them.
\<close>

section \<open>Errors\<close>

text \<open>\<^verbatim>\<open>ConfigError\<close>, with one constructor per message of \<^verbatim>\<open>ConfigError::Validation\<close>.\<close>

datatype validation_error =
    LdapUriRequired
  | SessionTimeoutTooShort
  | LdapHostIsIp
  | RealmRequired
  | BadDefaultSecurity string
  | ShareNameEmpty
  | DuplicateShareName string
  | HostPathRequired string
  | BadSecurity string string
  | BadSquash string string
  | BadPrefRead string "64 word"
  | BadPrefWrite string "64 word"
  | BadCacheProfile string string
  | NegativeAttrExpiration string int
  | ContainerPathRequired string
  | ContainerPathNotAbsolute string string
  | ContainerPathOutsideRoot string string string
  | SourcePathNotAbsolute string string
  | SourcePathOutsideRoot string string string
  | PseudoRootReserved string
  | DuplicatePseudo string string
  | DuplicateServePath string string
  | BadReadAccessPolicy string string
  | BindDnRequired
  | AuthtokRequired
  | RootPrincipalsEmpty
  | BadRootPrincipalToken string
  | NegativeGaneshaAttrExpiration int
  | ManageGidsExpirationTooLarge "64 word"
  | ReaddirResSizeRange "32 word"
  | ReaddirMaxCountRange "32 word"
  | MallocTrimThresholdZero

section \<open>Helpers\<close>

definition is_kerberos_placeholder_realm :: "string \<Rightarrow> bool" where
  "is_kerberos_placeholder_realm r =
     (let t = trim r in
      if t = [] then True
      else if list_ex is_ascii_lower t then False
      else eq_ignore_ascii_case t ''EXAMPLE.COM'' \<or> eq_ignore_ascii_case t ''EXAMPLE'')"

text \<open>
  The scan for unknown keys in the share tables of a parsed document. A table is the list of its
  keys; the value of \<^verbatim>\<open>name\<close> is given when it is text. An entry that is not a table is \<^const>\<open>None\<close>.
\<close>

definition detect_share_unknown_keys_value ::
  "(string list \<times> string option) option list \<Rightarrow> ShareFieldWarning list" where
  "detect_share_unknown_keys_value entries =
     List.map_filter
       (\<lambda>(idx, entry).
          case entry of
            None \<Rightarrow> None
          | Some (keys, nm) \<Rightarrow>
              let unknown = filter (\<lambda>k. k \<notin> set SHARE_KNOWN_KEYS \<and> k \<noteq> ''export_path'') keys in
              if unknown = [] then None
              else Some \<lparr>share_index = idx, warning_share_name = nm, unknown_keys = unknown\<rparr>)
       (List.enumerate 0 entries)"

definition normalize_blank :: "string option \<Rightarrow> string option" where
  "normalize_blank f =
     (case f of None \<Rightarrow> None | Some v \<Rightarrow> if is_blank v then None else Some (trim v))"

definition parse_host_nfs_env_value :: "string \<Rightarrow> bool" where
  "parse_host_nfs_env_value v =
     (to_ascii_lowercase (trim v) \<in> {''true'', ''1'', ''yes'', ''on''})"

definition webui_tls_disabled :: "env \<Rightarrow> bool" where
  "webui_tls_disabled env =
     (case env ''NFS_KLLDAP_WEBUI_TLS'' of
        Some v \<Rightarrow> to_ascii_lowercase (trim v) \<in> {''off'', ''false'', ''0'', ''no''}
      | None \<Rightarrow> False)"

definition host_nfs_from_env :: "env \<Rightarrow> bool option" where
  "host_nfs_from_env env =
     map_option parse_host_nfs_env_value (opt_or (env ''HOST_NFS'') (env ''NFS_KLLDAP_HOST_NFS''))"

section \<open>Environment overrides\<close>

text \<open>The three patterns: a non-blank value replaces, a blank one clears, a value is read as a flag.\<close>

definition env_set :: "env \<Rightarrow> string \<Rightarrow> string \<Rightarrow> string" where
  "env_set env key old =
     (case env key of None \<Rightarrow> old | Some v \<Rightarrow> if is_blank v then old else trim v)"

definition env_set_opt :: "env \<Rightarrow> string \<Rightarrow> string option \<Rightarrow> string option" where
  "env_set_opt env key old =
     (case env key of None \<Rightarrow> old | Some v \<Rightarrow> if is_blank v then old else Some (trim v))"

definition env_replace_opt :: "env \<Rightarrow> string \<Rightarrow> string option \<Rightarrow> string option" where
  "env_replace_opt env key old =
     (case env key of None \<Rightarrow> old | Some v \<Rightarrow> if is_blank v then None else Some (trim v))"

definition env_flag :: "env \<Rightarrow> string \<Rightarrow> bool option \<Rightarrow> bool option" where
  "env_flag env key old =
     (case env key of
        None \<Rightarrow> old
      | Some v \<Rightarrow> Some (to_ascii_lowercase (trim v) \<in> {''true'', ''1'', ''yes'', ''on''}))"

definition env_webui_tls :: "env \<Rightarrow> bool option \<Rightarrow> bool option" where
  "env_webui_tls env old =
     (if env ''NFS_KLLDAP_WEBUI_TLS'' \<noteq> None then Some (\<not> webui_tls_disabled env) else old)"

definition apply_core_env_overrides :: "env \<Rightarrow> NfsKlldapConfig \<Rightarrow> NfsKlldapConfig" where
  "apply_core_env_overrides env cfg =
     cfg\<lparr>ldap_uri := env_set env ''NFS_KLLDAP_LDAP_URI'' (ldap_uri cfg),
         kerberos := (kerberos cfg)\<lparr>realm := env_set_opt env ''NFS_KLLDAP_KERBEROS_REALM'' (realm (kerberos cfg))\<rparr>,
         sssd := (sssd cfg)
           \<lparr>ldap_default_bind_dn :=
              env_set env ''NFS_KLLDAP_LLDAP_USER''
                (env_set env ''NFS_KLLDAP_SSSD_LDAP_DEFAULT_BIND_DN'' (ldap_default_bind_dn (sssd cfg))),
            ldap_default_authtok :=
              env_set env ''NFS_KLLDAP_LLDAP_PW''
                (env_set env ''NFS_KLLDAP_SSSD_LDAP_DEFAULT_AUTHTOK'' (ldap_default_authtok (sssd cfg))),
            sssd_ignored_attributes :=
              env_flag env ''NFS_KLLDAP_SSSD_KLLLDAP_IGNORED_ATTRIBUTES'' (sssd_ignored_attributes (sssd cfg)),
            ldap_tls_reqcert :=
              env_set_opt env ''NFS_KLLDAP_SSSD_LDAP_TLS_REQCERT'' (ldap_tls_reqcert (sssd cfg)),
            ldap_tls_cacert :=
              env_set_opt env ''NFS_KLLDAP_SSSD_LDAP_TLS_CACERT'' (ldap_tls_cacert (sssd cfg)),
            ldap_id_use_start_tls :=
              env_flag env ''NFS_KLLDAP_SSSD_LDAP_ID_USE_START_TLS'' (ldap_id_use_start_tls (sssd cfg))\<rparr>,
         server := (server cfg)\<lparr>hostname := env_replace_opt env ''NFS_KLLDAP_SERVER_HOSTNAME'' (hostname (server cfg))\<rparr>,
         host := (host cfg)\<lparr>host_nfs := opt_or (host_nfs_from_env env) (host_nfs (host cfg))\<rparr>,
         storage := (storage cfg)
           \<lparr>container_root := env_set env ''NFS_KLLDAP_STORAGE_CONTAINER_ROOT'' (container_root (storage cfg))\<rparr>,
         ganesha := (ganesha cfg)
           \<lparr>default_security := env_set env ''NFS_KLLDAP_GANESHA_DEFAULT_SECURITY'' (default_security (ganesha cfg)),
            post_generate_hook :=
              env_replace_opt env ''NFS_KLLDAP_POST_GENERATE_HOOK'' (post_generate_hook (ganesha cfg))\<rparr>,
         management := (management cfg)
           \<lparr>webui_admin_group :=
              env_replace_opt env ''NFS_KLLDAP_MANAGEMENT_WEBUI_ADMIN_GROUP'' (webui_admin_group (management cfg))\<rparr>,
         webui := (webui cfg)
           \<lparr>tls := env_webui_tls env (tls (webui cfg)),
            tls_cert := env_set_opt env ''NFS_KLLDAP_WEBUI_TLS_CERT'' (tls_cert (webui cfg)),
            tls_key := env_set_opt env ''NFS_KLLDAP_WEBUI_TLS_KEY'' (tls_key (webui cfg))\<rparr>\<rparr>"

section \<open>Derivation\<close>

definition normalize_fields :: "NfsKlldapConfig \<Rightarrow> NfsKlldapConfig" where
  "normalize_fields cfg =
     cfg\<lparr>sssd := (sssd cfg)
           \<lparr>sssd_search_base := normalize_blank (sssd_search_base (sssd cfg)),
            sssd_user_search_base := normalize_blank (sssd_user_search_base (sssd cfg)),
            sssd_group_search_base := normalize_blank (sssd_group_search_base (sssd cfg)),
            ldap_tls_reqcert := normalize_blank (ldap_tls_reqcert (sssd cfg)),
            ldap_tls_cacert := normalize_blank (ldap_tls_cacert (sssd cfg)),
            sssd_user_object_class := normalize_blank (sssd_user_object_class (sssd cfg)),
            sssd_group_object_class := normalize_blank (sssd_group_object_class (sssd cfg)),
            sssd_user_name := normalize_blank (sssd_user_name (sssd cfg)),
            sssd_user_uid_number := normalize_blank (sssd_user_uid_number (sssd cfg)),
            sssd_user_gid_number := normalize_blank (sssd_user_gid_number (sssd cfg)),
            sssd_user_home_directory := normalize_blank (sssd_user_home_directory (sssd cfg)),
            sssd_user_shell := normalize_blank (sssd_user_shell (sssd cfg)),
            sssd_user_fullname := normalize_blank (sssd_user_fullname (sssd cfg)),
            sssd_group_name := normalize_blank (sssd_group_name (sssd cfg)),
            sssd_group_gid_number := normalize_blank (sssd_group_gid_number (sssd cfg)),
            sssd_group_member := normalize_blank (sssd_group_member (sssd cfg)),
            sssd_domain := normalize_blank (sssd_domain (sssd cfg)),
            auth_provider := normalize_blank (auth_provider (sssd cfg)),
            chpass_provider := normalize_blank (chpass_provider (sssd cfg)),
            ldap_schema := normalize_blank (ldap_schema (sssd cfg)),
            krb5_server := normalize_blank (krb5_server (sssd cfg)),
            krb5_kpasswd := normalize_blank (krb5_kpasswd (sssd cfg))\<rparr>,
         webui := (webui cfg)
           \<lparr>tls_cert := normalize_blank (tls_cert (webui cfg)),
            tls_key := normalize_blank (tls_key (webui cfg))\<rparr>\<rparr>"

definition derive_realm :: "env \<Rightarrow> NfsKlldapConfig \<Rightarrow> NfsKlldapConfig" where
  "derive_realm env cfg =
     (let r = opt_or (realm (kerberos cfg)) (derive_realm_from_uri (ldap_uri cfg))
      in cfg\<lparr>kerberos := (kerberos cfg)\<lparr>realm := env_set_opt env ''NFS_KLLDAP_KERBEROS_REALM'' r\<rparr>\<rparr>)"

text \<open>\<^verbatim>\<open>effective_realm\<close> panics on a configuration that did not pass validation.\<close>

definition effective_realm :: "NfsKlldapConfig \<Rightarrow> string option" where
  "effective_realm cfg = realm (kerberos cfg)"

definition derive_bases :: "NfsKlldapConfig \<Rightarrow> NfsKlldapConfig" where
  "derive_bases cfg =
     (let port = (case sssd_port (sssd cfg) of
                    Some p \<Rightarrow> p
                  | None \<Rightarrow> if starts_with (ldap_uri cfg) ''ldaps://'' then 636 else 389);
          base_dn = ''dc='' @ replace_char CHR ''.'' '',dc='' (to_lowercase (unwrap_or (effective_realm cfg) []));
          main_base = unwrap_or (opt_filter (\<lambda>v. \<not> is_blank v) (sssd_search_base (sssd cfg))) base_dn
      in cfg\<lparr>sssd := (sssd cfg)
               \<lparr>sssd_port := Some port,
                sssd_user_search_base := Some (unwrap_or (sssd_user_search_base (sssd cfg)) main_base),
                sssd_group_search_base := Some (unwrap_or (sssd_group_search_base (sssd cfg)) main_base)\<rparr>\<rparr>)"

definition derive_security :: "NfsKlldapConfig \<Rightarrow> NfsKlldapConfig" where
  "derive_security cfg =
     (if is_blank (default_security (ganesha cfg))
      then cfg\<lparr>ganesha := (ganesha cfg)\<lparr>default_security := GANESHA_DEFAULT_SECTYPE\<rparr>\<rparr> else cfg)"

definition derive_container_root :: "NfsKlldapConfig \<Rightarrow> NfsKlldapConfig" where
  "derive_container_root cfg =
     (if is_blank (container_root (storage cfg))
      then cfg\<lparr>storage := (storage cfg)\<lparr>container_root := ''/export''\<rparr>\<rparr> else cfg)"

section \<open>Shares\<close>

definition normalized_pseudo :: "Share \<Rightarrow> string" where
  "normalized_pseudo share =
     (case pseudo_path share of
        Some v \<Rightarrow> let t = trim v in
          if t = [] then ''/'' @ name share else if starts_with t ''/'' then t else ''/'' @ t
      | None \<Rightarrow> ''/'' @ name share)"

definition in_pref_range :: "64 word \<Rightarrow> bool" where
  "in_pref_range v = (512 \<le> v \<and> v \<le> 64 * 1024 * 1024)"

text \<open>The body of the first loop, after the two tests on the name.\<close>

definition check_share_fields :: "Share \<Rightarrow> (validation_error, Share) result" where
  "check_share_fields share =
     and_then (fail_if (host_path share = []) (HostPathRequired (name share))) (\<lambda>_.
     let share = share\<lparr>container_path := trim (container_path share)\<rparr>;
         share = share\<lparr>pseudo_path := Some (normalized_pseudo share)\<rparr>
     in
     and_then (case security share of
                 Some sec \<Rightarrow> fail_if (sec \<notin> set GANESHA_ALLOWED_SECTYPES) (BadSecurity (name share) sec)
               | None \<Rightarrow> Ok ()) (\<lambda>_.
     and_then (case squash share of
                 Some sq \<Rightarrow> fail_if (sq \<notin> set GANESHA_ALLOWED_SQUASH) (BadSquash (name share) sq)
               | None \<Rightarrow> Ok ()) (\<lambda>_.
     and_then (case pref_read share of
                 Some v \<Rightarrow> fail_if (\<not> in_pref_range v) (BadPrefRead (name share) v)
               | None \<Rightarrow> Ok ()) (\<lambda>_.
     and_then (case pref_write share of
                 Some v \<Rightarrow> fail_if (\<not> in_pref_range v) (BadPrefWrite (name share) v)
               | None \<Rightarrow> Ok ()) (\<lambda>_.
     and_then (case cache_profile share of
                 Some p \<Rightarrow> fail_if (resolve_cache_profile p = None) (BadCacheProfile (name share) p)
               | None \<Rightarrow> Ok ()) (\<lambda>_.
     and_then (case attr_expiration_secs share of
                 Some v \<Rightarrow> fail_if (v < 0) (NegativeAttrExpiration (name share) v)
               | None \<Rightarrow> Ok ()) (\<lambda>_. Ok share)))))))"

fun validate_share_names :: "string set \<Rightarrow> Share list \<Rightarrow> (validation_error, Share list) result" where
  "validate_share_names seen [] = Ok []"
| "validate_share_names seen (share # rest) =
     (if is_blank (name share) then Err ShareNameEmpty
      else if name share \<in> seen then Err (DuplicateShareName (name share))
      else and_then (check_share_fields share) (\<lambda>s.
           and_then (validate_share_names (insert (name share) seen) rest) (\<lambda>ss. Ok (s # ss))))"

definition under_root :: "string \<Rightarrow> string \<Rightarrow> bool" where
  "under_root root p = (p = root \<or> starts_with p (root @ ''/''))"

definition validate_share_paths :: "string \<Rightarrow> Share \<Rightarrow> (validation_error, Share) result" where
  "validate_share_paths root share =
     and_then (fail_if (container_path share = []) (ContainerPathRequired (name share))) (\<lambda>_.
     and_then (fail_if (\<not> starts_with (container_path share) ''/'')
                 (ContainerPathNotAbsolute (name share) (container_path share))) (\<lambda>_.
     and_then (fail_if (\<not> under_root root (container_path share))
                 (ContainerPathOutsideRoot (name share) (container_path share) root)) (\<lambda>_.
     case source_path share of
       None \<Rightarrow> Ok share
     | Some src0 \<Rightarrow>
         let src = trim src0 in
         if src = [] then Ok (share\<lparr>source_path := None\<rparr>)
         else if \<not> starts_with src ''/'' then Err (SourcePathNotAbsolute (name share) src)
         else if \<not> under_root root src then Err (SourcePathOutsideRoot (name share) src root)
         else Ok (share\<lparr>source_path := Some src\<rparr>))))"

definition serve_path_for :: "Share \<Rightarrow> string" where
  "serve_path_for share = trim (container_path share)"

fun validate_share_collisions ::
  "string set \<Rightarrow> string set \<Rightarrow> Share list \<Rightarrow> (validation_error, unit) result" where
  "validate_share_collisions seen_pseudo seen_serve [] = Ok ()"
| "validate_share_collisions seen_pseudo seen_serve (share # rest) =
     (let pseudo = derive_share_pseudo share; serve = serve_path_for share in
      if pseudo = ''/'' then Err (PseudoRootReserved (name share))
      else if pseudo \<in> seen_pseudo then Err (DuplicatePseudo (name share) pseudo)
      else if serve \<in> seen_serve then Err (DuplicateServePath (name share) serve)
      else validate_share_collisions (insert pseudo seen_pseudo) (insert serve seen_serve) rest)"

definition validate_read_policy :: "Share \<Rightarrow> (validation_error, unit) result" where
  "validate_read_policy share =
     (case read_access_policy share of
        None \<Rightarrow> Ok ()
      | Some rap \<Rightarrow> fail_if (to_ascii_lowercase (trim rap) \<notin> set GANESHA_READ_ACCESS_POLICIES)
                     (BadReadAccessPolicy (name share) rap))"

section \<open>Ganesha tuning\<close>

definition root_principal_tokens :: "string \<Rightarrow> string list" where
  "root_principal_tokens raw =
     filter (\<lambda>t. t \<noteq> []) (map (\<lambda>t. to_ascii_lowercase (trim t)) (split_on CHR '','' raw))"

definition validate_root_principals :: "string option \<Rightarrow> (validation_error, string option) result" where
  "validate_root_principals f =
     (case normalize_blank f of
        None \<Rightarrow> Ok None
      | Some raw \<Rightarrow>
          let tokens = root_principal_tokens raw in
          if tokens = [] then Err RootPrincipalsEmpty
          else case find (\<lambda>t. t \<notin> set GANESHA_ROOT_KRB_PRINCIPAL_TOKENS) tokens of
                 Some t \<Rightarrow> Err (BadRootPrincipalToken t)
               | None \<Rightarrow> Ok (Some (join '', '' tokens)))"

definition validate_ganesha_tuning :: "GaneshaSection \<Rightarrow> (validation_error, GaneshaSection) result" where
  "validate_ganesha_tuning g =
     and_then (validate_root_principals (root_kerberos_principals g)) (\<lambda>rkp.
     and_then (case ganesha_attr_expiration_secs g of
                 Some v \<Rightarrow> fail_if (v < 0) (NegativeGaneshaAttrExpiration v)
               | None \<Rightarrow> Ok ()) (\<lambda>_.
     and_then (case manage_gids_expiration_secs g of
                 Some v \<Rightarrow> fail_if (v > GANESHA_MANAGE_GIDS_EXPIRATION_MAX) (ManageGidsExpirationTooLarge v)
               | None \<Rightarrow> Ok ()) (\<lambda>_.
     and_then (case readdir_res_size g of
                 Some v \<Rightarrow> fail_if (\<not> (GANESHA_READDIR_RES_SIZE_MIN \<le> v \<and> v \<le> GANESHA_READDIR_RES_SIZE_MAX))
                            (ReaddirResSizeRange v)
               | None \<Rightarrow> Ok ()) (\<lambda>_.
     and_then (case readdir_max_count g of
                 Some v \<Rightarrow> fail_if (\<not> (GANESHA_READDIR_MAX_COUNT_MIN \<le> v \<and> v \<le> GANESHA_READDIR_MAX_COUNT_MAX))
                            (ReaddirMaxCountRange v)
               | None \<Rightarrow> Ok ()) (\<lambda>_.
     and_then (fail_if (malloc_trim_min_threshold_mb g = Some 0) MallocTrimThresholdZero) (\<lambda>_.
     Ok (g\<lparr>root_kerberos_principals := rkp\<rparr>)))))))"

section \<open>The whole of validation\<close>

definition validate_and_derive :: "env \<Rightarrow> NfsKlldapConfig \<Rightarrow> (validation_error, NfsKlldapConfig) result" where
  "validate_and_derive env cfg0 =
     (let cfg = apply_core_env_overrides env cfg0 in
      and_then (fail_if (is_blank (ldap_uri cfg)) LdapUriRequired) (\<lambda>_.
      let cfg = normalize_fields cfg in
      and_then (case session_timeout_minutes (webui cfg) of
                  Some m \<Rightarrow> fail_if (m < 5) SessionTimeoutTooShort | None \<Rightarrow> Ok ()) (\<lambda>_.
      and_then (fail_if (host_is_ip (extract_host_from_uri (ldap_uri cfg))) LdapHostIsIp) (\<lambda>_.
      let cfg = derive_realm env cfg in
      and_then (fail_if (is_kerberos_placeholder_realm (unwrap_or (realm (kerberos cfg)) [])) RealmRequired) (\<lambda>_.
      let cfg = derive_security (derive_bases cfg) in
      and_then (fail_if (default_security (ganesha cfg) \<notin> set GANESHA_ALLOWED_SECTYPES)
                  (BadDefaultSecurity (default_security (ganesha cfg)))) (\<lambda>_.
      let cfg = derive_container_root cfg in
      and_then (validate_share_names {} (shares cfg)) (\<lambda>ss1.
      and_then (try_map (validate_share_paths (trim_end_char CHR ''/'' (container_root (storage cfg)))) ss1) (\<lambda>ss2.
      and_then (validate_share_collisions {} {} ss2) (\<lambda>_.
      and_then (try_map validate_read_policy ss2) (\<lambda>_.
      and_then (fail_if (is_blank (ldap_default_bind_dn (sssd cfg))) BindDnRequired) (\<lambda>_.
      and_then (fail_if (is_blank (ldap_default_authtok (sssd cfg))) AuthtokRequired) (\<lambda>_.
      and_then (validate_ganesha_tuning (ganesha cfg)) (\<lambda>g.
      Ok (cfg\<lparr>shares := ss2, ganesha := g\<rparr>))))))))))))))"

section \<open>Derived views\<close>

definition nfsv4_domain :: "NfsKlldapConfig \<Rightarrow> string option" where
  "nfsv4_domain cfg = map_option to_ascii_uppercase (effective_realm cfg)"

definition display_realm :: "NfsKlldapConfig \<Rightarrow> string" where
  "display_realm cfg =
     unwrap_or (opt_filter (\<lambda>r. r \<noteq> [] \<and> \<not> eq_ignore_ascii_case r ''EXAMPLE.COM''
                               \<and> \<not> eq_ignore_ascii_case r ''EXAMPLE'')
                 (map_option trim (realm (kerberos cfg)))) ''YOUR.REALM''"

definition is_host_nfs :: "NfsKlldapConfig \<Rightarrow> bool" where
  "is_host_nfs cfg = unwrap_or (host_nfs (host cfg)) False"

definition host_paths :: "NfsKlldapConfig \<Rightarrow> string list" where
  "host_paths cfg = map host_path (shares cfg)"

section \<open>Valid configurations\<close>

text \<open>What the generators rely on, share by share and for the whole configuration.\<close>

definition valid_share :: "string \<Rightarrow> Share \<Rightarrow> bool" where
  "valid_share root share =
     (\<not> is_blank (name share) \<and> host_path share \<noteq> []
      \<and> trim (container_path share) = container_path share
      \<and> starts_with (container_path share) ''/'' \<and> under_root root (container_path share)
      \<and> (case pseudo_path share of None \<Rightarrow> False | Some p \<Rightarrow> starts_with p ''/'' \<and> p \<noteq> ''/'')
      \<and> pred_option (\<lambda>s. s \<in> set GANESHA_ALLOWED_SECTYPES) (security share)
      \<and> pred_option (\<lambda>s. s \<in> set GANESHA_ALLOWED_SQUASH) (squash share)
      \<and> pred_option in_pref_range (pref_read share) \<and> pred_option in_pref_range (pref_write share)
      \<and> pred_option (\<lambda>p. resolve_cache_profile p \<noteq> None) (cache_profile share)
      \<and> pred_option (\<lambda>v. 0 \<le> v) (attr_expiration_secs share)
      \<and> pred_option (\<lambda>s. trim s = s \<and> starts_with s ''/'' \<and> under_root root s) (source_path share)
      \<and> pred_option (\<lambda>r. to_ascii_lowercase (trim r) \<in> set GANESHA_READ_ACCESS_POLICIES) (read_access_policy share))"

definition valid_ganesha :: "GaneshaSection \<Rightarrow> bool" where
  "valid_ganesha g =
     (default_security g \<in> set GANESHA_ALLOWED_SECTYPES
      \<and> pred_option (\<lambda>r. root_principal_tokens r \<noteq> []
            \<and> set (root_principal_tokens r) \<subseteq> set GANESHA_ROOT_KRB_PRINCIPAL_TOKENS) (root_kerberos_principals g)
      \<and> pred_option (\<lambda>v. 0 \<le> v) (ganesha_attr_expiration_secs g)
      \<and> pred_option (\<lambda>v. v \<le> GANESHA_MANAGE_GIDS_EXPIRATION_MAX) (manage_gids_expiration_secs g)
      \<and> pred_option (\<lambda>v. GANESHA_READDIR_RES_SIZE_MIN \<le> v \<and> v \<le> GANESHA_READDIR_RES_SIZE_MAX) (readdir_res_size g)
      \<and> pred_option (\<lambda>v. GANESHA_READDIR_MAX_COUNT_MIN \<le> v \<and> v \<le> GANESHA_READDIR_MAX_COUNT_MAX) (readdir_max_count g)
      \<and> malloc_trim_min_threshold_mb g \<noteq> Some 0)"

definition valid_config :: "NfsKlldapConfig \<Rightarrow> bool" where
  "valid_config cfg =
     (\<not> is_blank (ldap_uri cfg) \<and> \<not> host_is_ip (extract_host_from_uri (ldap_uri cfg))
      \<and> (case realm (kerberos cfg) of None \<Rightarrow> False | Some r \<Rightarrow> \<not> is_kerberos_placeholder_realm r)
      \<and> pred_option (\<lambda>m. 5 \<le> m) (session_timeout_minutes (webui cfg))
      \<and> sssd_port (sssd cfg) \<noteq> None \<and> sssd_user_search_base (sssd cfg) \<noteq> None
      \<and> sssd_group_search_base (sssd cfg) \<noteq> None
      \<and> \<not> is_blank (ldap_default_bind_dn (sssd cfg)) \<and> \<not> is_blank (ldap_default_authtok (sssd cfg))
      \<and> \<not> is_blank (container_root (storage cfg)) \<and> valid_ganesha (ganesha cfg)
      \<and> list_all (valid_share (trim_end_char CHR ''/'' (container_root (storage cfg)))) (shares cfg)
      \<and> distinct (map name (shares cfg)) \<and> distinct (map derive_share_pseudo (shares cfg))
      \<and> distinct (map serve_path_for (shares cfg)))"

lemma fail_case_iff [result_simps]:
  "(case x of Some v \<Rightarrow> fail_if (P v) (e v) | None \<Rightarrow> Ok ()) = Inr u \<longleftrightarrow> pred_option (\<lambda>v. \<not> P v) x"
  by (cases x) (auto simp: result_simps)

lemma normalized_pseudo_container [simp]:
  "normalized_pseudo (sh\<lparr>container_path := x\<rparr>) = normalized_pseudo sh"
  by (cases "pseudo_path sh") (simp_all add: normalized_pseudo_def Let_def)

lemma check_share_fields_Ok_iff:
  "check_share_fields sh = Inr sh' \<longleftrightarrow>
     sh' = sh\<lparr>container_path := trim (container_path sh), pseudo_path := Some (normalized_pseudo sh)\<rparr>
     \<and> host_path sh \<noteq> []
     \<and> pred_option (\<lambda>s. s \<in> set GANESHA_ALLOWED_SECTYPES) (security sh)
     \<and> pred_option (\<lambda>s. s \<in> set GANESHA_ALLOWED_SQUASH) (squash sh)
     \<and> pred_option in_pref_range (pref_read sh) \<and> pred_option in_pref_range (pref_write sh)
     \<and> pred_option (\<lambda>p. resolve_cache_profile p \<noteq> None) (cache_profile sh)
     \<and> pred_option (\<lambda>v. 0 \<le> v) (attr_expiration_secs sh)"
  by (auto simp: check_share_fields_def Let_def result_simps not_less)

lemma validate_share_names_Ok_iff:
  "validate_share_names seen ss = Inr ss' \<longleftrightarrow>
     list_all2 (\<lambda>s s'. check_share_fields s = Inr s') ss ss' \<and> list_all (\<lambda>s. \<not> is_blank (name s)) ss
     \<and> distinct (map name ss) \<and> set (map name ss) \<inter> seen = {}"
proof (induction seen ss arbitrary: ss' rule: validate_share_names.induct)
  case (1 seen)
  then show ?case by auto
next
  case (2 seen share rest)
  show ?case
    by (cases ss'; cases "check_share_fields share") (auto simp: 2 result_simps)
qed

lemma validate_share_paths_Ok_iff:
  "validate_share_paths root sh = Inr sh' \<longleftrightarrow>
     starts_with (container_path sh) ''/'' \<and> under_root root (container_path sh) \<and>
     (case source_path sh of
        None \<Rightarrow> sh' = sh
      | Some s \<Rightarrow> if is_blank s then sh' = sh\<lparr>source_path := None\<rparr>
                  else starts_with (trim s) ''/'' \<and> under_root root (trim s)
                    \<and> sh' = sh\<lparr>source_path := Some (trim s)\<rparr>)"
  by (auto simp: validate_share_paths_def result_simps Let_def split: option.splits if_splits)

lemma validate_share_collisions_Ok_iff:
  "validate_share_collisions P S ss = Inr u \<longleftrightarrow>
     list_all (\<lambda>s. derive_share_pseudo s \<noteq> ''/'') ss
     \<and> distinct (map derive_share_pseudo ss) \<and> set (map derive_share_pseudo ss) \<inter> P = {}
     \<and> distinct (map serve_path_for ss) \<and> set (map serve_path_for ss) \<inter> S = {}"
  by (induction P S ss rule: validate_share_collisions.induct) (auto simp: Let_def)

lemma validate_read_policy_Ok_iff:
  "validate_read_policy sh = Inr u \<longleftrightarrow>
     pred_option (\<lambda>r. to_ascii_lowercase (trim r) \<in> set GANESHA_READ_ACCESS_POLICIES) (read_access_policy sh)"
  by (cases "read_access_policy sh") (auto simp: validate_read_policy_def result_simps)

text \<open>The tokens of the canonical comma-space form are the tokens it was built from.\<close>

lemma split_on_comma_space:
  assumes "ts \<noteq> []" and "\<forall>t \<in> set ts. CHR '','' \<notin> set t"
  shows "split_on CHR '','' (join '', '' ts) = hd ts # map (\<lambda>t. CHR '' '' # t) (tl ts)"
  using assms
proof (induction ts rule: list_nonempty_induct)
  case (single t)
  then show ?case by (simp add: split_on_single)
next
  case (cons t ts)
  obtain u us where ts: "ts = u # us" using cons.hyps by (cases ts) auto
  have "split_on CHR '','' (CHR '' '' # join '', '' ts)
      = (CHR '' '' # hd (split_on CHR '','' (join '', '' ts))) # tl (split_on CHR '','' (join '', '' ts))"
    by (cases "split_on CHR '','' (join '', '' ts)") auto
  with cons ts show ?case by (simp add: split_on_append_sep)
qed

lemma trim_space_front: "trim (CHR '' '' # t) = trim t"
proof -
  have "drop_ws ws_width (CHR '' '' # t) = drop_ws ws_width t"
  proof (subst drop_ws.simps)
    have "ws1 (CHR '' '')" by (simp add: ws1_def)
    then have "ws_width (CHR '' '' # t) = 1" by (cases "CHR '' '' # t" rule: ws_width.cases) auto
    then show "(if CHR '' '' # t = [] \<or> ws_width (CHR '' '' # t) = 0 then CHR '' '' # t
        else drop_ws ws_width (drop (ws_width (CHR '' '' # t)) (CHR '' '' # t))) = drop_ws ws_width t"
      by simp
  qed
  then show ?thesis by (simp add: trim_def trim_start_def)
qed

definition plain_token :: "string \<Rightarrow> bool" where
  "plain_token t = (t \<noteq> [] \<and> trim t = t \<and> to_ascii_lowercase t = t \<and> CHR '','' \<notin> set t)"

lemma root_principal_tokens_join:
  assumes "ts \<noteq> []" and "list_all plain_token ts"
  shows "root_principal_tokens (join '', '' ts) = ts"
proof -
  have "\<forall>t \<in> set ts. CHR '','' \<notin> set t"
    using assms(2) by (auto simp: list_all_iff plain_token_def)
  then have "root_principal_tokens (join '', '' ts)
      = filter (\<lambda>t. t \<noteq> []) (map (\<lambda>t. to_ascii_lowercase (trim t)) (hd ts # map (\<lambda>t. CHR '' '' # t) (tl ts)))"
    using assms(1) by (simp add: root_principal_tokens_def split_on_comma_space)
  also have "\<dots> = filter (\<lambda>t. t \<noteq> []) (map (\<lambda>t. to_ascii_lowercase (trim t)) ts)"
    using assms(1) by (cases ts) (simp_all add: trim_space_front o_def)
  also have "\<dots> = ts"
    using assms(2) by (induction ts) (auto simp: plain_token_def)
  finally show ?thesis .
qed

lemma allowed_tokens_plain: "list_all plain_token GANESHA_ROOT_KRB_PRINCIPAL_TOKENS"
  by code_simp

lemma validate_root_principals_Ok:
  assumes "validate_root_principals f = Inr f'"
  shows "pred_option (\<lambda>r. root_principal_tokens r \<noteq> []
    \<and> set (root_principal_tokens r) \<subseteq> set GANESHA_ROOT_KRB_PRINCIPAL_TOKENS) f'"
proof (cases f')
  case (Some r)
  with assms obtain raw where raw: "normalize_blank f = Some raw"
    and ne: "root_principal_tokens raw \<noteq> []" and r: "r = join '', '' (root_principal_tokens raw)"
    and ok: "set (root_principal_tokens raw) \<subseteq> set GANESHA_ROOT_KRB_PRINCIPAL_TOKENS"
    by (auto simp: validate_root_principals_def Let_def find_None_iff split: option.splits if_splits)
  have "list_all plain_token (root_principal_tokens raw)"
    using ok allowed_tokens_plain by (auto simp: list_all_iff)
  with ne have "root_principal_tokens r = root_principal_tokens raw"
    unfolding r by (rule root_principal_tokens_join)
  with ne ok Some show ?thesis by simp
qed simp

lemma validate_ganesha_tuning_Ok:
  assumes "validate_ganesha_tuning g = Inr g'" and "default_security g \<in> set GANESHA_ALLOWED_SECTYPES"
  shows "valid_ganesha g'"
proof -
  from assms(1) obtain rkp where rkp: "validate_root_principals (root_kerberos_principals g) = Inr rkp"
    and g': "g' = g\<lparr>root_kerberos_principals := rkp\<rparr>"
    and bounds: "pred_option (\<lambda>v. \<not> v < 0) (ganesha_attr_expiration_secs g)"
      "pred_option (\<lambda>v. \<not> v > GANESHA_MANAGE_GIDS_EXPIRATION_MAX) (manage_gids_expiration_secs g)"
      "pred_option (\<lambda>v. \<not> \<not> (GANESHA_READDIR_RES_SIZE_MIN \<le> v \<and> v \<le> GANESHA_READDIR_RES_SIZE_MAX)) (readdir_res_size g)"
      "pred_option (\<lambda>v. \<not> \<not> (GANESHA_READDIR_MAX_COUNT_MIN \<le> v \<and> v \<le> GANESHA_READDIR_MAX_COUNT_MAX)) (readdir_max_count g)"
      "malloc_trim_min_threshold_mb g \<noteq> Some 0"
    by (auto simp: validate_ganesha_tuning_def result_simps)
  show ?thesis
    unfolding valid_ganesha_def g'
    using validate_root_principals_Ok [OF rkp] bounds assms(2) by (simp add: not_less)
qed

lemma normalized_pseudo_absolute: "starts_with (normalized_pseudo sh) ''/''"
  by (cases "pseudo_path sh") (auto simp: normalized_pseudo_def Let_def)

lemma derive_pseudo_normalized:
  "pseudo_path sh = Some p \<Longrightarrow> starts_with p ''/'' \<Longrightarrow> derive_share_pseudo sh = p"
  by (simp add: derive_share_pseudo_def)

lemma shares_valid:
  assumes names: "validate_share_names {} ss = Inr ss1"
    and paths: "try_map (validate_share_paths root) ss1 = Inr ss2"
    and coll: "validate_share_collisions {} {} ss2 = Inr u"
    and pol: "try_map validate_read_policy ss2 = Inr us"
  shows "list_all (valid_share root) ss2 \<and> distinct (map name ss2)
    \<and> distinct (map derive_share_pseudo ss2) \<and> distinct (map serve_path_for ss2)
    \<and> map name ss2 = map name ss \<and> map host_path ss2 = map host_path ss"
proof -
  note N = names [unfolded validate_share_names_Ok_iff]
  note P = paths [unfolded try_map_Ok_iff]
  have step: "validate_share_paths root a = Inr b \<Longrightarrow> \<exists>x. b = a\<lparr>source_path := x\<rparr>
      \<and> pred_option (\<lambda>s. trim s = s \<and> starts_with s ''/'' \<and> under_root root s) x
      \<and> starts_with (container_path a) ''/'' \<and> under_root root (container_path a)" for a b
    by (cases a) (auto simp: validate_share_paths_Ok_iff split: option.splits if_splits)
  have kept: "validate_share_paths root a = Inr b \<Longrightarrow> name b = name a \<and> host_path b = host_path a" for a b
    using step [of a b] by auto
  have fields: "check_share_fields a = Inr b \<Longrightarrow> name b = name a \<and> host_path b = host_path a" for a b
    by (auto simp: check_share_fields_Ok_iff)
  have "map name ss1 = map name ss" "map host_path ss1 = map host_path ss"
    using list_all2_Ok_image [of check_share_fields ss ss1] N fields by blast+
  moreover have "map name ss2 = map name ss1" "map host_path ss2 = map host_path ss1"
    using list_all2_Ok_image [OF P] kept by blast+
  ultimately have same: "map name ss2 = map name ss" "map host_path ss2 = map host_path ss" by simp_all
  have "valid_share root s2" if "s2 \<in> set ss2" for s2
  proof -
    from list_all2_source [OF P that] obtain s1
      where s1: "s1 \<in> set ss1" "validate_share_paths root s1 = Inr s2" by blast
    from list_all2_source [OF conjunct1 [OF N] s1(1)] N obtain s0
      where s0: "s0 \<in> set ss" "check_share_fields s0 = Inr s1" "\<not> is_blank (name s0)"
      by (auto simp: list_all_iff)
    have rp: "validate_read_policy s2 = Inr ()"
      using pol that by (auto simp: try_map_Ok_iff in_set_conv_nth list_all2_conv_all_nth)
    from step [OF s1(2)] obtain x where x: "s2 = s1\<lparr>source_path := x\<rparr>"
      "pred_option (\<lambda>s. trim s = s \<and> starts_with s ''/'' \<and> under_root root s) x"
      "starts_with (container_path s1) ''/''" "under_root root (container_path s1)" by blast
    have "derive_share_pseudo s2 \<noteq> ''/''"
      using coll that by (auto simp: validate_share_collisions_Ok_iff list_all_iff)
    moreover have "pseudo_path s2 = Some (normalized_pseudo s0)"
      using x(1) s0(2) by (auto simp: check_share_fields_Ok_iff)
    ultimately show ?thesis
      using x s0 rp normalized_pseudo_absolute [of s0]
      by (auto simp: valid_share_def check_share_fields_Ok_iff validate_read_policy_Ok_iff derive_pseudo_normalized)
  qed
  moreover have "distinct (map name ss2)" using same N by simp
  ultimately show ?thesis
    using coll same by (auto simp: validate_share_collisions_Ok_iff list_all_iff)
qed

lemma derive_fields [simp]:
  "ldap_uri (normalize_fields c) = ldap_uri c" "kerberos (normalize_fields c) = kerberos c"
  "shares (normalize_fields c) = shares c" "storage (normalize_fields c) = storage c"
  "session_timeout_minutes (webui (normalize_fields c)) = session_timeout_minutes (webui c)"
  "ganesha (normalize_fields c) = ganesha c"
  "ldap_default_bind_dn (sssd (normalize_fields c)) = ldap_default_bind_dn (sssd c)"
  "ldap_default_authtok (sssd (normalize_fields c)) = ldap_default_authtok (sssd c)"
  "ldap_uri (derive_realm env c) = ldap_uri c" "shares (derive_realm env c) = shares c"
  "webui (derive_realm env c) = webui c" "storage (derive_realm env c) = storage c"
  "sssd (derive_realm env c) = sssd c" "ganesha (derive_realm env c) = ganesha c"
  "ldap_uri (derive_bases c) = ldap_uri c" "kerberos (derive_bases c) = kerberos c"
  "shares (derive_bases c) = shares c" "webui (derive_bases c) = webui c"
  "storage (derive_bases c) = storage c" "ganesha (derive_bases c) = ganesha c"
  "ldap_default_bind_dn (sssd (derive_bases c)) = ldap_default_bind_dn (sssd c)"
  "ldap_default_authtok (sssd (derive_bases c)) = ldap_default_authtok (sssd c)"
  "ldap_uri (derive_security c) = ldap_uri c" "kerberos (derive_security c) = kerberos c"
  "shares (derive_security c) = shares c" "webui (derive_security c) = webui c"
  "storage (derive_security c) = storage c" "sssd (derive_security c) = sssd c"
  "ldap_uri (derive_container_root c) = ldap_uri c" "kerberos (derive_container_root c) = kerberos c"
  "shares (derive_container_root c) = shares c" "webui (derive_container_root c) = webui c"
  "ganesha (derive_container_root c) = ganesha c" "sssd (derive_container_root c) = sssd c"
  by (simp_all add: normalize_fields_def derive_realm_def derive_bases_def derive_security_def
      derive_container_root_def Let_def)

text \<open>Acceptance, unfolded into the conditions of the code's branches.\<close>

definition derived_config :: "env \<Rightarrow> NfsKlldapConfig \<Rightarrow> NfsKlldapConfig" where
  "derived_config env cfg =
     derive_container_root (derive_security (derive_bases (derive_realm env
       (normalize_fields (apply_core_env_overrides env cfg)))))"

lemma validate_and_derive_Ok_iff:
  fixes env cfg
  defines "c \<equiv> derived_config env cfg"
  shows "validate_and_derive env cfg = Inr cfg' \<longleftrightarrow>
     (\<exists>ss1 ss2 us g.
        \<not> is_blank (ldap_uri c) \<and> pred_option (\<lambda>m. \<not> m < 5) (session_timeout_minutes (webui c))
        \<and> \<not> host_is_ip (extract_host_from_uri (ldap_uri c))
        \<and> \<not> is_kerberos_placeholder_realm (unwrap_or (realm (kerberos c)) [])
        \<and> default_security (ganesha c) \<in> set GANESHA_ALLOWED_SECTYPES
        \<and> validate_share_names {} (shares c) = Inr ss1
        \<and> try_map (validate_share_paths (trim_end_char CHR ''/'' (container_root (storage c)))) ss1 = Inr ss2
        \<and> validate_share_collisions {} {} ss2 = Inr () \<and> try_map validate_read_policy ss2 = Inr us
        \<and> \<not> is_blank (ldap_default_bind_dn (sssd c)) \<and> \<not> is_blank (ldap_default_authtok (sssd c))
        \<and> validate_ganesha_tuning (ganesha c) = Inr g \<and> cfg' = c\<lparr>shares := ss2, ganesha := g\<rparr>)"
  unfolding validate_and_derive_def Let_def derived_config_def c_def
  by (simp add: result_simps) blast

lemma derived_bases_set:
  "sssd_port (sssd (derived_config env cfg)) \<noteq> None
   \<and> sssd_user_search_base (sssd (derived_config env cfg)) \<noteq> None
   \<and> sssd_group_search_base (sssd (derived_config env cfg)) \<noteq> None
   \<and> \<not> is_blank (container_root (storage (derived_config env cfg)))"
proof -
  have "\<not> is_blank ''/export''" by code_simp
  then have "\<not> is_blank (container_root (storage (derive_container_root c)))" for c
    by (simp add: derive_container_root_def)
  moreover have "sssd_port (sssd (derive_bases c)) \<noteq> None \<and> sssd_user_search_base (sssd (derive_bases c)) \<noteq> None
      \<and> sssd_group_search_base (sssd (derive_bases c)) \<noteq> None" for c
    by (simp add: derive_bases_def Let_def)
  ultimately show ?thesis by (simp add: derived_config_def)
qed

lemma placeholder_Nil: "is_kerberos_placeholder_realm []"
  by (simp add: is_kerberos_placeholder_realm_def)

lemma derived_shares: "shares (derived_config env cfg) = shares cfg"
  by (simp add: derived_config_def apply_core_env_overrides_def)


definition sample_share :: Share where
  "sample_share = default_share\<lparr>name := ''media'', host_path := ''/srv/media'', container_path := '' /export/media '',
     read_access_policy := Some ''Post''\<rparr>"

definition sample_config :: NfsKlldapConfig where
  "sample_config = default_config
     \<lparr>ldap_uri := ''ldaps://lldap.home.arpa:6360'',
      sssd := default_sssd\<lparr>ldap_default_bind_dn := ''uid=svc'', ldap_default_authtok := ''secret''\<rparr>,
      ganesha := default_ganesha\<lparr>root_kerberos_principals := Some ''Root ,nfs''\<rparr>,
      shares := [sample_share]\<rparr>"

lemma sample_accepted: "isl (validate_and_derive (\<lambda>_. None) sample_config) = False"
  by code_simp


section \<open>Validating twice\<close>

text \<open>Fixed points of the override patterns.\<close>

lemma env_patterns_idem [simp]:
  "env_set env k (env_set env k x) = env_set env k x"
  "env_set_opt env k (env_set_opt env k y) = env_set_opt env k y"
  "env_replace_opt env k (env_replace_opt env k y) = env_replace_opt env k y"
  "env_flag env k (env_flag env k z) = env_flag env k z"
  "env_webui_tls env (env_webui_tls env z) = env_webui_tls env z"
  by (auto simp: env_webui_tls_def env_set_def env_set_opt_def env_replace_opt_def env_flag_def split: option.splits)

lemma env_set_twice [simp]:
  "env_set env k (env_set env l (env_set env k (env_set env l x))) = env_set env k (env_set env l x)"
  by (auto simp: env_set_def split: option.splits)

lemma env_set_opt_normalize:
  "env_set_opt env k x = x \<Longrightarrow> env_set_opt env k (normalize_blank x) = normalize_blank x"
  by (auto simp: env_set_opt_def normalize_blank_def split: option.splits if_splits)

lemma normalize_blank_idem [simp]: "normalize_blank (normalize_blank f) = normalize_blank f"
  by (auto simp: normalize_blank_def split: option.splits)

lemma opt_or_idem [simp]: "opt_or a (opt_or a b) = opt_or a b"
  by (cases a) auto

text \<open>A configuration on which the overrides have acted.\<close>

definition overridden :: "env \<Rightarrow> NfsKlldapConfig \<Rightarrow> bool" where
  "overridden env c =
    (env_set env ''NFS_KLLDAP_LDAP_URI'' (ldap_uri c) = ldap_uri c
   \<and> env_set_opt env ''NFS_KLLDAP_KERBEROS_REALM'' (realm (kerberos c)) = realm (kerberos c)
   \<and> env_set env ''NFS_KLLDAP_LLDAP_USER''
       (env_set env ''NFS_KLLDAP_SSSD_LDAP_DEFAULT_BIND_DN'' (ldap_default_bind_dn (sssd c))) = ldap_default_bind_dn (sssd c)
   \<and> env_set env ''NFS_KLLDAP_LLDAP_PW''
       (env_set env ''NFS_KLLDAP_SSSD_LDAP_DEFAULT_AUTHTOK'' (ldap_default_authtok (sssd c))) = ldap_default_authtok (sssd c)
   \<and> env_flag env ''NFS_KLLDAP_SSSD_KLLLDAP_IGNORED_ATTRIBUTES'' (sssd_ignored_attributes (sssd c)) = sssd_ignored_attributes (sssd c)
   \<and> env_set_opt env ''NFS_KLLDAP_SSSD_LDAP_TLS_REQCERT'' (ldap_tls_reqcert (sssd c)) = ldap_tls_reqcert (sssd c)
   \<and> env_set_opt env ''NFS_KLLDAP_SSSD_LDAP_TLS_CACERT'' (ldap_tls_cacert (sssd c)) = ldap_tls_cacert (sssd c)
   \<and> env_flag env ''NFS_KLLDAP_SSSD_LDAP_ID_USE_START_TLS'' (ldap_id_use_start_tls (sssd c)) = ldap_id_use_start_tls (sssd c)
   \<and> env_replace_opt env ''NFS_KLLDAP_SERVER_HOSTNAME'' (hostname (server c)) = hostname (server c)
   \<and> opt_or (host_nfs_from_env env) (host_nfs (host c)) = host_nfs (host c)
   \<and> env_set env ''NFS_KLLDAP_STORAGE_CONTAINER_ROOT'' (container_root (storage c)) = container_root (storage c)
   \<and> env_set env ''NFS_KLLDAP_GANESHA_DEFAULT_SECURITY'' (default_security (ganesha c)) = default_security (ganesha c)
   \<and> env_replace_opt env ''NFS_KLLDAP_POST_GENERATE_HOOK'' (post_generate_hook (ganesha c)) = post_generate_hook (ganesha c)
   \<and> env_replace_opt env ''NFS_KLLDAP_MANAGEMENT_WEBUI_ADMIN_GROUP'' (webui_admin_group (management c)) = webui_admin_group (management c)
   \<and> env_webui_tls env (tls (webui c)) = tls (webui c)
   \<and> env_set_opt env ''NFS_KLLDAP_WEBUI_TLS_CERT'' (tls_cert (webui c)) = tls_cert (webui c)
   \<and> env_set_opt env ''NFS_KLLDAP_WEBUI_TLS_KEY'' (tls_key (webui c)) = tls_key (webui c))"

lemma overridden_overrides: "overridden env (apply_core_env_overrides env c)"
  by (simp add: overridden_def apply_core_env_overrides_def)

lemma overridden_fixed: "overridden env c \<Longrightarrow> apply_core_env_overrides env c = c"
  by (simp add: overridden_def apply_core_env_overrides_def)

lemma env_set_blank: "env_set env k x = x \<Longrightarrow> is_blank x \<Longrightarrow> env_set env k y = y"
  by (auto simp: env_set_def split: option.splits if_splits)

lemma overridden_stages:
  assumes "overridden env c"
  shows "overridden env (normalize_fields c)" "overridden env (derive_realm env c)"
    "overridden env (derive_bases c)" "overridden env (derive_security c)"
    "overridden env (derive_container_root c)"
    "overridden env (c\<lparr>shares := ss, ganesha := (ganesha c)\<lparr>root_kerberos_principals := r\<rparr>\<rparr>)"
  using assms
  by (simp_all add: overridden_def normalize_fields_def derive_realm_def derive_bases_def derive_security_def
      derive_container_root_def Let_def env_set_opt_normalize) (metis env_set_blank)+

text \<open>A configuration whose optional texts are trimmed and not blank.\<close>

definition normal_text :: "string option \<Rightarrow> bool" where
  "normal_text f = (normalize_blank f = f)"

definition normalized :: "NfsKlldapConfig \<Rightarrow> bool" where
  "normalized c =
     (list_all (\<lambda>f. normal_text (f (sssd c)))
        [sssd_search_base, sssd_user_search_base, sssd_group_search_base, ldap_tls_reqcert,
         ldap_tls_cacert, sssd_user_object_class, sssd_group_object_class, sssd_user_name,
         sssd_user_uid_number, sssd_user_gid_number, sssd_user_home_directory, sssd_user_shell,
         sssd_user_fullname, sssd_group_name, sssd_group_gid_number, sssd_group_member,
         sssd_domain, auth_provider, chpass_provider, ldap_schema,
         krb5_server, krb5_kpasswd]
      \<and> normal_text (tls_cert (webui c)) \<and> normal_text (tls_key (webui c)))"

lemma normalized_normalize: "normalized (normalize_fields c)"
  by (simp add: normalized_def normalize_fields_def normal_text_def)

lemma normalized_fixed: "normalized c \<Longrightarrow> normalize_fields c = c"
  by (simp add: normalized_def normalize_fields_def normal_text_def)

lemma normalized_stages:
  assumes "normalized c"
  shows "normalized (derive_realm env c)" "normalized (derive_security c)"
    "normalized (derive_container_root c)" "normalized (c\<lparr>shares := ss, ganesha := g\<rparr>)"
  using assms by (simp_all add: normalized_def)

text \<open>A configuration on which all stages before the shares have acted.\<close>

definition settled :: "env \<Rightarrow> NfsKlldapConfig \<Rightarrow> bool" where
  "settled env c =
     (overridden env c \<and> normalized c \<and> realm (kerberos c) \<noteq> None
      \<and> sssd_port (sssd c) \<noteq> None \<and> sssd_user_search_base (sssd c) \<noteq> None
      \<and> sssd_group_search_base (sssd c) \<noteq> None \<and> \<not> is_blank (default_security (ganesha c))
      \<and> \<not> is_blank (container_root (storage c)))"

lemma settled_fixed: "settled env c \<Longrightarrow> derived_config env c = c"
  by (auto simp: settled_def derived_config_def overridden_fixed normalized_fixed derive_realm_def derive_bases_def
      derive_security_def derive_container_root_def Let_def overridden_def)

lemma replace_char_absent: "c \<notin> set s \<Longrightarrow> replace_char c r s = s"
  by (induction s) (auto simp: replace_char_def)

lemma base_dn_trimmed:
  assumes "trim r = r"
  shows "trim (''dc='' @ replace_char CHR ''.'' '',dc='' (to_lowercase r)) = ''dc='' @ replace_char CHR ''.'' '',dc='' (to_lowercase r)"
proof -
  have inked: "inked (CHR ''d'')" "inked (CHR ''='')" "inked (CHR ''.'')"
    by (simp_all add: inked_def is_ascii_def ws1_def)
  define l where "l = to_lowercase r"
  have l: "ws_width_rev (rev l) = 0"
    using assms by (simp add: l_def trim_id_iff to_lowercase_def rev_map)
  have "ws_width_rev (rev (''dc='' @ replace_char CHR ''.'' '',dc='' l)) = 0"
  proof (cases "rsplit_once CHR ''.'' l")
    case None
    then have "replace_char CHR ''.'' '',dc='' l = l"
      by (simp add: rsplit_once_None_iff replace_char_absent)
    then show ?thesis using l ws_width_rev_barrier [OF inked(2), of "rev l"] by simp
  next
    case (Some ab)
    obtain a b where "ab = (a, b)" by fastforce
    with Some have ab: "l = a @ CHR ''.'' # b" "CHR ''.'' \<notin> set b"
      by (auto simp: rsplit_once_Some_iff)
    then have "replace_char CHR ''.'' '',dc='' l = replace_char CHR ''.'' '',dc='' a @ '',dc='' @ b"
      using replace_char_absent [of "CHR ''.''" b] by (simp add: replace_char_def)
    moreover have "ws_width_rev (rev b) = 0"
      using l ws_width_rev_barrier [OF inked(3), of "rev b"] by (simp add: ab)
    ultimately show ?thesis using ws_width_rev_barrier [OF inked(2), of "rev b"] by simp
  qed
  then show ?thesis
    unfolding l_def [symmetric] by (simp add: trim_inked_front inked)
qed

lemma normalize_blank_fixed: "normalize_blank (Some v) = Some v \<longleftrightarrow> trim v = v \<and> v \<noteq> []"
  by (auto simp: normalize_blank_def)

lemma normalized_bases:
  assumes "normalized c" and "effective_realm c = Some r" and "trim r = r"
  shows "normalized (derive_bases c)"
proof -
  define dn where "dn = ''dc='' @ replace_char CHR ''.'' '',dc='' (to_lowercase r)"
  have dn: "trim dn = dn" "dn \<noteq> []" using base_dn_trimmed [OF assms(3)] by (simp_all add: dn_def)
  define base where "base = unwrap_or (opt_filter (\<lambda>v. \<not> is_blank v) (sssd_search_base (sssd c))) dn"
  have "normal_text (sssd_search_base (sssd c))" using assms(1) by (simp add: normalized_def)
  then have base: "normalize_blank (Some base) = Some base"
    using dn by (cases "sssd_search_base (sssd c)") (auto simp: base_def normal_text_def normalize_blank_fixed)
  have "normal_text x \<Longrightarrow> normal_text (Some (unwrap_or x base))" for x
    using base by (cases x) (simp_all add: normal_text_def)
  then show ?thesis
    using assms(1,2) by (simp add: normalized_def derive_bases_def Let_def base_def dn_def)
qed

lemma derived_config_settled:
  assumes "realm (kerberos (derived_config env cfg)) = Some r" and "trim r = r"
  shows "settled env ((derived_config env cfg)
    \<lparr>shares := ss, ganesha := (ganesha (derived_config env cfg))\<lparr>root_kerberos_principals := rkp\<rparr>\<rparr>)"
proof -
  define c2 where "c2 = derive_realm env (normalize_fields (apply_core_env_overrides env cfg))"
  define c3 where "c3 = derive_bases c2"
  define c5 where "c5 = derive_container_root (derive_security c3)"
  have c5: "derived_config env cfg = c5"
    by (simp add: derived_config_def c2_def c3_def c5_def)
  have o: "overridden env c5"
    unfolding c2_def c3_def c5_def by (intro overridden_stages overridden_overrides)
  have "normalized c2" unfolding c2_def by (intro normalized_stages normalized_normalize)
  moreover have "effective_realm c2 = Some r"
    using assms(1) by (simp add: c5 c5_def c3_def effective_realm_def)
  ultimately have "normalized c3"
    unfolding c3_def using assms(2) by (rule normalized_bases)
  then have n: "normalized c5" unfolding c5_def by (intro normalized_stages)
  have "\<not> is_blank GANESHA_DEFAULT_SECTYPE" by code_simp
  then have "\<not> is_blank (default_security (ganesha c5))"
    by (simp add: c5_def) (simp add: derive_security_def)
  then show ?thesis
    using o n derived_bases_set [of env cfg] assms(1)
    by (simp add: settled_def c5 overridden_stages normalized_stages)
qed

lemma inked_slash [simp]: "inked (CHR ''/'')"
  by (simp add: inked_def is_ascii_def ws1_def)

lemma trim_slash: "trim n = n \<Longrightarrow> trim (CHR ''/'' # n) = CHR ''/'' # n"
  using ws_width_rev_barrier [of "CHR ''/''" "rev n" "[]"] by (simp add: trim_inked_front trim_id_iff)

lemma normalized_pseudo_trimmed: "trim (name s) = name s \<Longrightarrow> trim (normalized_pseudo s) = normalized_pseudo s"
  by (cases "pseudo_path s") (auto simp: normalized_pseudo_def Let_def trim_slash)

lemma valid_share_stable:
  assumes "valid_share root s" and "pseudo_path s = Some p" and "trim p = p"
  shows "check_share_fields s = Inr s \<and> validate_share_paths root s = Inr s \<and> validate_read_policy s = Inr ()"
proof -
  have p: "starts_with p ''/''" using assms(1,2) by (simp add: valid_share_def)
  then have "normalized_pseudo s = p"
    using assms(2,3) by (auto simp: normalized_pseudo_def Let_def)
  then have "check_share_fields s = Inr s"
    using assms(1,2) by (simp add: check_share_fields_Ok_iff valid_share_def)
  moreover have "validate_share_paths root s = Inr s"
  proof -
    have "pred_option (\<lambda>x. trim x = x \<and> starts_with x ''/'' \<and> under_root root x) (source_path s)"
      using assms(1) by (simp add: valid_share_def)
    then show ?thesis
      using assms(1) by (cases "source_path s") (auto simp: validate_share_paths_Ok_iff valid_share_def)
  qed
  ultimately show ?thesis
    using assms(1) by (simp add: validate_read_policy_Ok_iff valid_share_def)
qed

lemma share_pseudo_kept:
  assumes "validate_share_names {} ss = Inr ss1" and "try_map (validate_share_paths root) ss1 = Inr ss2"
  shows "list_all2 (\<lambda>s s2. pseudo_path s2 = Some (normalized_pseudo s)) ss ss2"
proof (rule list_all2_trans)
  show "list_all2 (\<lambda>s s1. check_share_fields s = Inr s1) ss ss1"
    using assms(1) by (simp add: validate_share_names_Ok_iff)
  show "list_all2 (\<lambda>s1 s2. validate_share_paths root s1 = Inr s2) ss1 ss2"
    using assms(2) by (simp add: try_map_Ok_iff)
qed (auto simp: check_share_fields_Ok_iff validate_share_paths_Ok_iff split: option.splits if_splits)

lemma tokens_join_trimmed:
  assumes "ts \<noteq> []" and "set ts \<subseteq> set GANESHA_ROOT_KRB_PRINCIPAL_TOKENS"
  shows "trim (join '', '' ts) = join '', '' ts \<and> join '', '' ts \<noteq> []"
proof -
  have "list_all (\<lambda>t. t \<noteq> [] \<and> list_all inked t) GANESHA_ROOT_KRB_PRINCIPAL_TOKENS" by code_simp
  then have t: "\<forall>t \<in> set ts. t \<noteq> [] \<and> (\<forall>c \<in> set t. inked c)"
    using assms(2) by (auto simp: list_all_iff)
  have "join '', '' ts \<noteq> [] \<and> hd (join '', '' ts) = hd (hd ts) \<and> last (join '', '' ts) = last (last ts)"
    using assms(1) t by (induction ts rule: list_nonempty_induct) (auto simp: join_Cons)
  moreover have "inked (hd (hd ts))" "inked (last (last ts))"
    using t assms(1) by (meson hd_in_set last_in_set)+
  ultimately show ?thesis by (metis trim_inked)
qed

lemma validate_root_principals_stable:
  assumes "validate_root_principals f = Inr f'"
  shows "validate_root_principals f' = Inr f'"
proof (cases f')
  case None
  then show ?thesis by (simp add: validate_root_principals_def normalize_blank_def)
next
  case (Some r)
  with assms obtain raw where ne: "root_principal_tokens raw \<noteq> []"
    and r: "r = join '', '' (root_principal_tokens raw)"
    and ok: "set (root_principal_tokens raw) \<subseteq> set GANESHA_ROOT_KRB_PRINCIPAL_TOKENS"
    by (auto simp: validate_root_principals_def Let_def find_None_iff split: option.splits if_splits)
  have t: "root_principal_tokens r = root_principal_tokens raw"
    unfolding r using ne ok allowed_tokens_plain by (intro root_principal_tokens_join) (auto simp: list_all_iff)
  have "normalize_blank (Some r) = Some r"
    using tokens_join_trimmed [OF ne ok] by (simp add: r normalize_blank_fixed)
  moreover have "find (\<lambda>t. t \<notin> set GANESHA_ROOT_KRB_PRINCIPAL_TOKENS) (root_principal_tokens raw) = None"
    using ok by (auto simp: find_None_iff)
  ultimately show ?thesis
    using ne by (simp add: Some validate_root_principals_def t [unfolded r] r Let_def)
qed

lemma validate_ganesha_tuning_stable:
  assumes "validate_ganesha_tuning g = Inr g'"
  shows "validate_ganesha_tuning g' = Inr g' \<and> (\<exists>r. g' = g\<lparr>root_kerberos_principals := r\<rparr>)"
  using assms validate_root_principals_stable
  by (auto simp: validate_ganesha_tuning_def result_simps)

text \<open>Validating an accepted configuration again, in the same environment, accepts it and changes
  nothing, provided the share names and the realm carry no surrounding white space. Settings can
  be saved and re-validated any number of times.\<close>

theorem validate_and_derive_idempotent:
  assumes "validate_and_derive env cfg = Ok cfg'"
    and "list_all (\<lambda>s. trim (name s) = name s) (shares cfg)"
    and "realm (kerberos cfg') = Some r" and "trim r = r"
  shows "validate_and_derive env cfg' = Ok cfg'"
proof -
  define c where "c = derived_config env cfg"
  from assms(1) obtain ss1 ss2 us g where
    ok: "\<not> is_blank (ldap_uri c)" "pred_option (\<lambda>m. \<not> m < 5) (session_timeout_minutes (webui c))"
      "\<not> host_is_ip (extract_host_from_uri (ldap_uri c))"
      "\<not> is_kerberos_placeholder_realm (unwrap_or (realm (kerberos c)) [])"
      "default_security (ganesha c) \<in> set GANESHA_ALLOWED_SECTYPES"
      "\<not> is_blank (ldap_default_bind_dn (sssd c))" "\<not> is_blank (ldap_default_authtok (sssd c))"
    and sh: "validate_share_names {} (shares c) = Inr ss1"
      "try_map (validate_share_paths (trim_end_char CHR ''/'' (container_root (storage c)))) ss1 = Inr ss2"
      "validate_share_collisions {} {} ss2 = Inr ()" "try_map validate_read_policy ss2 = Inr us"
    and g: "validate_ganesha_tuning (ganesha c) = Inr g" and cfg': "cfg' = c\<lparr>shares := ss2, ganesha := g\<rparr>"
    unfolding validate_and_derive_Ok_iff c_def by blast
  let ?root = "trim_end_char CHR ''/'' (container_root (storage c))"
  from validate_ganesha_tuning_stable [OF g] obtain rkp
    where g': "validate_ganesha_tuning g = Inr g" "g = (ganesha c)\<lparr>root_kerberos_principals := rkp\<rparr>" by blast
  have "settled env cfg'"
    unfolding cfg' g'(2) c_def using assms(3,4) by (intro derived_config_settled) (simp_all add: cfg' c_def)
  then have d: "derived_config env cfg' = cfg'" by (rule settled_fixed)
  have V: "list_all (valid_share ?root) ss2" "distinct (map name ss2)" using shares_valid [OF sh] by blast+
  have st: "check_share_fields s = Inr s \<and> validate_share_paths ?root s = Inr s \<and> validate_read_policy s = Inr ()"
    if "s \<in> set ss2" for s
  proof -
    from list_all2_source [OF share_pseudo_kept [OF sh(1,2)] that] obtain s0
      where "s0 \<in> set (shares c)" "pseudo_path s = Some (normalized_pseudo s0)" by blast
    moreover have "trim (normalized_pseudo s0) = normalized_pseudo s0" if "s0 \<in> set (shares c)" for s0
      using that assms(2) derived_shares [of env cfg] by (simp add: c_def list_all_iff normalized_pseudo_trimmed)
    moreover have "valid_share ?root s" using V(1) that by (simp add: list_all_iff)
    ultimately show ?thesis by (intro valid_share_stable) auto
  qed
  have "validate_share_names {} ss2 = Inr ss2"
    using st V by (auto simp: validate_share_names_Ok_iff list_all2_same list_all_iff valid_share_def)
  moreover have "try_map (validate_share_paths ?root) ss2 = Inr ss2"
    using st by (simp add: try_map_Ok_iff list_all2_same)
  ultimately show ?thesis
    unfolding validate_and_derive_Ok_iff d using ok sh(3,4) g' by (simp add: cfg')
qed

theorem validate_and_derive_idempotent_witness:
  "\<exists>cfg'. validate_and_derive (\<lambda>_. None) sample_config = Ok cfg' \<and> validate_and_derive (\<lambda>_. None) cfg' = Ok cfg'"
proof -
  obtain cfg' where c: "validate_and_derive (\<lambda>_. None) sample_config = Ok cfg'"
    using sample_accepted by (cases "validate_and_derive (\<lambda>_. None) sample_config") auto
  have n: "list_all (\<lambda>s. trim (name s) = name s) (shares sample_config)" by code_simp
  have "(case validate_and_derive (\<lambda>_. None) sample_config of Inl _ \<Rightarrow> None | Inr x \<Rightarrow> realm (kerberos x))
      = Some ''HOME.ARPA''" by code_simp
  then have r: "realm (kerberos cfg') = Some ''HOME.ARPA''" by (simp add: c)
  have t: "trim ''HOME.ARPA'' = ''HOME.ARPA''" by code_simp
  show ?thesis
    using c validate_and_derive_idempotent [OF c n r t] by (intro exI [of _ cfg'] conjI)
qed

text \<open>The environment wins. A non-blank \<^verbatim>\<open>NFS_KLLDAP_LDAP_URI\<close>, realm, bind user or password in
  the environment is, trimmed, the value of the accepted configuration, whatever the file says;
  the short bind variables win over the long ones.\<close>

theorem validate_env_wins:
  assumes "validate_and_derive env cfg = Ok cfg'"
  shows "(\<forall>v. env ''NFS_KLLDAP_LDAP_URI'' = Some v \<and> \<not> is_blank v \<longrightarrow> ldap_uri cfg' = trim v)
    \<and> (\<forall>v. env ''NFS_KLLDAP_KERBEROS_REALM'' = Some v \<and> \<not> is_blank v \<longrightarrow> realm (kerberos cfg') = Some (trim v))
    \<and> (\<forall>v. env ''NFS_KLLDAP_LLDAP_USER'' = Some v \<and> \<not> is_blank v \<longrightarrow> ldap_default_bind_dn (sssd cfg') = trim v)
    \<and> (\<forall>v. env ''NFS_KLLDAP_LLDAP_PW'' = Some v \<and> \<not> is_blank v \<longrightarrow> ldap_default_authtok (sssd cfg') = trim v)"
proof -
  from assms obtain ss g where "cfg' = (derived_config env cfg)\<lparr>shares := ss, ganesha := g\<rparr>"
    unfolding validate_and_derive_Ok_iff by blast
  then have "ldap_uri cfg' = ldap_uri (apply_core_env_overrides env cfg)"
    "realm (kerberos cfg') = realm (kerberos (derive_realm env (normalize_fields (apply_core_env_overrides env cfg))))"
    "ldap_default_bind_dn (sssd cfg') = ldap_default_bind_dn (sssd (apply_core_env_overrides env cfg))"
    "ldap_default_authtok (sssd cfg') = ldap_default_authtok (sssd (apply_core_env_overrides env cfg))"
    by (simp_all add: derived_config_def)
  then show ?thesis
    by (simp add: apply_core_env_overrides_def derive_realm_def Let_def env_set_def env_set_opt_def)
qed

text \<open>The test that a served path lies under the container root is textual: a path with parent
  components passes it and can name a directory outside the root, and two spellings of one
  directory pass the test for duplicate served paths.\<close>

lemma container_root_check_is_textual:
  "isl (validate_and_derive (\<lambda>_. None) (sample_config\<lparr>shares := [sample_share\<lparr>container_path := ''/export/../etc''\<rparr>]\<rparr>)) = False
   \<and> isl (validate_and_derive (\<lambda>_. None) (sample_config\<lparr>shares :=
        [sample_share, sample_share\<lparr>name := ''copy'', container_path := ''/export/media/''\<rparr>]\<rparr>)) = False"
  by code_simp

text \<open>The banner hides a realm that validation accepted: a lower-case \<^verbatim>\<open>example.com\<close> is a real
  realm to the validator and a placeholder to \<^verbatim>\<open>display_realm\<close>.\<close>

lemma display_realm_hides_accepted_realm:
  "(case validate_and_derive (\<lambda>_. None) (sample_config\<lparr>kerberos := \<lparr>realm = Some ''example.com''\<rparr>\<rparr>) of
      Inl _ \<Rightarrow> None | Inr c \<Rightarrow> Some (effective_realm c, display_realm c))
   = Some (Some ''example.com'', ''YOUR.REALM'')"
  by code_simp

end
