(* ===== verification/Generate_Fragments.thy ===== *)
theory Generate_Fragments
  imports Fs_Probe Validate
begin

text \<open>
  Export fragments, from \<^verbatim>\<open>nfs-klldap-config/src/generate/directives.rs\<close> and
  \<^verbatim>\<open>generate/fragments.rs\<close>: the text of one fragment per share, the staging of all fragments
  before the first write, and the pruning of stale ones. A directory maps file names to contents.
  The predicate \<open>alnum\<close> stands for the Unicode tables behind \<^verbatim>\<open>char::is_alphanumeric\<close> on
  characters outside ASCII, given as their UTF-8 bytes.
\<close>

section \<open>Text\<close>

definition nl :: string where "nl = [line_feed]"

definition quot :: string where "quot = [CHR 0x22]"

definition em_dash :: string where "em_dash = [CHR 0xE2, CHR 0x80, CHR 0x94]"

definition show_bool :: "bool \<Rightarrow> string" where
  "show_bool b = (if b then ''true'' else ''false'')"

definition show_int :: "int \<Rightarrow> string" where
  "show_int i = (if i < 0 then ''-'' @ show_nat (nat (- i)) else show_nat (nat i))"

section \<open>Directives\<close>

text \<open>The characters of a string: a byte followed by its UTF-8 continuation bytes.\<close>

definition is_continuation :: "char \<Rightarrow> bool" where
  "is_continuation c = (128 \<le> byte c \<and> byte c < 192)"

function utf8_chars :: "string \<Rightarrow> string list" where
  "utf8_chars [] = []"
| "utf8_chars (c # s) = (c # takeWhile is_continuation s) # utf8_chars (dropWhile is_continuation s)"
  by pat_completeness auto
termination
  by (relation "measure length") (auto simp: le_imp_less_Suc length_dropWhile_le)

definition is_alphanumeric :: "(string \<Rightarrow> bool) \<Rightarrow> string \<Rightarrow> bool" where
  "is_alphanumeric alnum c = (if is_ascii (hd c) then is_ascii_alnum (hd c) else alnum c)"

definition sanitize_name :: "(string \<Rightarrow> bool) \<Rightarrow> string \<Rightarrow> string" where
  "sanitize_name alnum s =
     concat (map (\<lambda>c. if is_alphanumeric alnum c \<or> c = ''-'' \<or> c = ''_'' then c else ''-'') (utf8_chars s))"

definition export_hash_step :: "32 word \<Rightarrow> char \<Rightarrow> 32 word" where
  "export_hash_step h b = (h * 16777619) XOR of_nat (byte b)"

definition export_hash :: "string \<Rightarrow> 32 word" where
  "export_hash nm = foldl export_hash_step 0x811c9dc5 nm"

definition derive_export_id :: "string \<Rightarrow> 16 word \<Rightarrow> 16 word" where
  "derive_export_id nm base =
     (let h = export_hash nm;
          floor = ucast base :: 32 word;
          span = min 55000 (max (65535 - floor) 1)
      in ucast (floor + h mod span))"

text \<open>\<^verbatim>\<open>{:02}\<close>: at least two digits.\<close>

definition show_02 :: "nat \<Rightarrow> string" where
  "show_02 n = (if n < 10 then CHR ''0'' # show_nat n else show_nat n)"

definition fragment_basename :: "(string \<Rightarrow> bool) \<Rightarrow> nat \<Rightarrow> string \<Rightarrow> string" where
  "fragment_basename alnum index nm = show_02 (index + 10) @ ''-'' @ sanitize_name alnum nm @ ''.conf''"

definition auto_detected_comment :: "FsCapabilities \<Rightarrow> string" where
  "auto_detected_comment caps =
     ''# Auto-detected: '' @ fstype caps
       @ (if mount_options caps = [] then [] else '' ('' @ join '','' (mount_options caps) @ '')'')
       @ '' '' @ em_dash @ '' cannot store POSIX ACLs. The 9.13 VFS backend'' @ nl
       @ ''# fetches ACLs on every attribute refresh, so exports on this filesystem are'' @ nl
       @ ''# expected to fail attribute fetches regardless of Disable_ACL; stage onto an'' @ nl
       @ ''# ACL-capable serve tree. See docs/ganesha-architecture.md#acl-and-filesystem-compatibility'' @ nl"

definition auto_enabled_comment :: "FsCapabilities \<Rightarrow> string" where
  "auto_enabled_comment caps =
     ''# Auto-enabled: enable_acl unset and the ACL write probe passed on '' @ fstype caps @ ''.'' @ nl
       @ ''# See docs/ganesha-architecture.md#acl-and-filesystem-compatibility'' @ nl"

text \<open>The Disable_ACL line, the Manage_Gids line, the retired umask line and the comment.\<close>

definition export_fs_directives :: "FsCapabilities \<Rightarrow> EffectiveShareFlags \<Rightarrow> string \<times> string \<times> string \<times> string" where
  "export_fs_directives caps eff =
     (let manage_gids_line = ''    Manage_Gids = '' @ show_bool (eff_manage_gids eff) @ '';'' @ nl;
          (disable_acl_line, comment) =
            (if \<not> eff_enable_acl eff
             then (''    Disable_ACL = true;'' @ nl, if auto_applied eff then auto_detected_comment caps else [])
             else (''    Disable_ACL = false;'' @ nl, if auto_enabled eff then auto_enabled_comment caps else []))
      in (disable_acl_line, manage_gids_line, [], comment))"

definition export_read_access_line :: "Share \<Rightarrow> EffectiveShareFlags \<Rightarrow> string" where
  "export_read_access_line share eff =
     (case compute_read_access_policy_emit share eff of
        Omit \<Rightarrow> []
      | Pre \<Rightarrow> ''    Read_Access_Check_Policy = pre;'' @ nl
      | Post \<Rightarrow> ''    Read_Access_Check_Policy = post;'' @ nl)"

definition export_pseudo_line :: "string \<Rightarrow> string" where
  "export_pseudo_line pseudo = ''    Pseudo = '' @ pseudo @ '';'' @ nl"

section \<open>One fragment\<close>

datatype generation_error =
    AclRefused string string string
  | UmaskRetired string
  | IoFailed string

text \<open>
  What the probes of a served path answer: the mount table, the write round trip, the read sniff.
\<close>

record path_probe =
  write_probe :: "bool option"
  read_sniff :: "bool option"

definition share_sectype :: "NfsKlldapConfig \<Rightarrow> Share \<Rightarrow> string" where
  "share_sectype cfg share =
     (let base_sec = unwrap_or (security share) (default_security (ganesha cfg)) in
      if share_navahi_effective cfg share \<and> \<not> list_ex (\<lambda>s. trim s = ''sys'') (split_on CHR '','' base_sec)
      then base_sec @ '', sys'' else base_sec)"

definition share_prefs :: "Share \<Rightarrow> 64 word option \<times> 64 word option" where
  "share_prefs share =
     (case Option.bind (cache_profile share) resolve_cache_profile of
        Some (r, w) \<Rightarrow> (Some r, Some w)
      | None \<Rightarrow> (pref_read share, pref_write share))"

definition opt_line :: "string \<Rightarrow> string option \<Rightarrow> string" where
  "opt_line key v = (case v of None \<Rightarrow> [] | Some s \<Rightarrow> ''    '' @ key @ '' = '' @ s @ '';'' @ nl)"

definition share_caps :: "string option \<Rightarrow> string \<Rightarrow> FsCapabilities" where
  "share_caps mountinfo path =
     (case mountinfo of Some c \<Rightarrow> probe_from_mountinfo c path | None \<Rightarrow> unknown_caps)"

definition share_verdict :: "Share \<Rightarrow> FsCapabilities \<Rightarrow> path_probe \<Rightarrow> AclProbeVerdict" where
  "share_verdict share caps pr =
     (if enable_acl share = Some False then verdict_from_caps caps
      else acl_probe_verdict caps (write_probe pr) (read_sniff pr))"

definition export_block ::
  "NfsKlldapConfig \<Rightarrow> Share \<Rightarrow> 16 word \<Rightarrow> FsCapabilities \<Rightarrow> AclProbeVerdict \<Rightarrow> string" where
  "export_block cfg share export_id caps verdict =
     (let path = serve_path_for share;
          pseudo = derive_share_pseudo share;
          navahi = share_navahi_effective cfg share;
          access = (if unwrap_or (rw share) True then ''RW'' else ''RO'');
          sq = unwrap_or (squash share) GANESHA_DEFAULT_SQUASH;
          (pref_r, pref_w) = share_prefs share;
          eff = compute_effective_flags_probed share caps verdict;
          (disable_acl_line, manage_gids_line, umask_line, comment0) = export_fs_directives caps eff;
          comment = comment0 @ (if navahi then ''# Navahi: advertised via mDNS; NFSv3 + AUTH_SYS click-mount enabled (navahi_discovery + navahi_insecure).'' @ nl else []);
          proto = (if navahi then ''3,4'' else GANESHA_PROTOCOLS)
      in ''# Generated from nfs-klldap.conf share '' @ quot @ name share @ quot @ nl
         @ comment @ ''EXPORT {'' @ nl
         @ ''    Export_Id = '' @ show_word export_id @ '';'' @ nl
         @ ''    Path = '' @ path @ '';'' @ nl
         @ export_pseudo_line pseudo
         @ (if navahi then ''    Protocols = 3,4;'' @ nl else [])
         @ disable_acl_line
         @ ''    SecType = '' @ share_sectype cfg share @ '';'' @ nl
         @ ''    Squash = '' @ sq @ '';'' @ nl
         @ manage_gids_line @ export_read_access_line share eff
         @ opt_line ''PrefRead'' (map_option show_word pref_r)
         @ opt_line ''PrefWrite'' (map_option show_word pref_w)
         @ opt_line ''Attr_Expiration_Time'' (map_option show_int (attr_expiration_secs share))
         @ nl @ ''    CLIENT {'' @ nl
         @ ''        Clients = *;'' @ nl
         @ ''        Access_Type = '' @ access @ '';'' @ nl
         @ ''        Protocols = '' @ proto @ '';'' @ nl
         @ ''    }'' @ nl @ nl
         @ ''    FSAL {'' @ nl @ ''        Name = VFS;'' @ nl @ umask_line @ ''    }'' @ nl @ ''}'' @ nl)"

text \<open>The base of the identifiers: \<^verbatim>\<open>1000 + (i as u16 * 10)\<close> in 16-bit arithmetic.\<close>

definition export_id_of :: "nat \<Rightarrow> string \<Rightarrow> 16 word" where
  "export_id_of i nm = derive_export_id nm (1000 + of_nat i * 10)"

text \<open>The body of the staging loop for share number \<open>i\<close>: the file name and contents, or a refusal.\<close>

definition stage_share ::
  "(string \<Rightarrow> bool) \<Rightarrow> string option \<Rightarrow> (string \<Rightarrow> path_probe) \<Rightarrow> NfsKlldapConfig \<Rightarrow> nat \<times> Share
     \<Rightarrow> (generation_error, string \<times> string) result" where
  "stage_share alnum mountinfo pr cfg = (\<lambda>(i, share).
     let path = serve_path_for share;
         caps = share_caps mountinfo path;
         verdict = share_verdict share caps (pr path)
     in and_then (fail_if (enable_acl share = Some True \<and> verdict = Incapable)
                    (AclRefused (name share) path (fstype caps))) (\<lambda>_.
        and_then (fail_if (umask share \<noteq> None) (UmaskRetired (name share))) (\<lambda>_.
        Ok (fragment_basename alnum i (name share),
            export_block cfg share (export_id_of i (name share)) caps verdict))))"

section \<open>Writing a directory\<close>

type_synonym dir = "string \<Rightarrow> string option"

text \<open>Writing the staged files in order; \<open>io\<close> says which writes succeed, the first failure stops.\<close>

fun write_staged :: "(string \<Rightarrow> bool) \<Rightarrow> (string \<times> string) list \<Rightarrow> dir \<Rightarrow> string option \<times> dir" where
  "write_staged io [] d = (None, d)"
| "write_staged io ((n, c) # rest) d =
     (if io n then write_staged io rest (d(n \<mapsto> c)) else (Some n, d))"

definition prune_dir :: "(string \<Rightarrow> bool) \<Rightarrow> string set \<Rightarrow> dir \<Rightarrow> dir" where
  "prune_dir managed written d = (\<lambda>n. if n \<notin> written \<and> managed n then None else d n)"

definition sync_dir ::
  "(string \<Rightarrow> bool) \<Rightarrow> (string \<Rightarrow> bool) \<Rightarrow> (string \<times> string) list \<Rightarrow> dir \<Rightarrow> (generation_error, unit) result \<times> dir" where
  "sync_dir io managed staged d =
     (case write_staged io staged d of
        (Some n, d') \<Rightarrow> (Err (IoFailed n), d')
      | (None, d') \<Rightarrow> (Ok (), prune_dir managed (set (map fst staged)) d'))"

text \<open>The names the generator considers its own: two digits, a hyphen, and the suffix.\<close>

definition is_fragment_name :: "string \<Rightarrow> bool" where
  "is_fragment_name n =
     (ends_with n ''.conf'' \<and> 7 \<le> length n \<and> is_ascii_digit (n ! 0) \<and> is_ascii_digit (n ! 1)
       \<and> n ! 2 = CHR ''-'')"

definition write_export_fragments ::
  "(string \<Rightarrow> bool) \<Rightarrow> (string \<Rightarrow> bool) \<Rightarrow> string option \<Rightarrow> (string \<Rightarrow> path_probe) \<Rightarrow> NfsKlldapConfig \<Rightarrow> dir
     \<Rightarrow> (generation_error, unit) result \<times> dir" where
  "write_export_fragments alnum io mountinfo pr cfg d =
     (case try_map (stage_share alnum mountinfo pr cfg) (List.enumerate 0 (shares cfg)) of
        Inl e \<Rightarrow> (Err e, d)
      | Inr staged \<Rightarrow> sync_dir io is_fragment_name staged d)"

section \<open>Synchronised directories\<close>

text \<open>
  A generator that owns part of a directory: it stages a list of files, all of whose names it
  recognises as its own, writes them and prunes its other files. The fragment writer and the
  Avahi writer are interpretations.
\<close>

locale synced_dir =
  fixes managed :: "string \<Rightarrow> bool"
    and stages :: "(string \<times> string) list \<Rightarrow> bool"
  assumes staged_managed: "stages fs \<Longrightarrow> n \<in> set (map fst fs) \<Longrightarrow> managed n"
begin

lemma written_content:
  "write_staged io fs d = (None, d') \<Longrightarrow> distinct (map fst fs) \<Longrightarrow>
     d' n = (case map_of fs n of Some c \<Rightarrow> Some c | None \<Rightarrow> d n)"
proof (induction io fs d rule: write_staged.induct)
  case (2 io m c rest d)
  have "d' n = (case map_of rest n of Some c \<Rightarrow> Some c | None \<Rightarrow> (d(m \<mapsto> c)) n)"
    using "2.IH" "2.prems" by (simp del: fun_upd_apply split: if_splits)
  moreover have "n = m \<Longrightarrow> map_of rest n = None"
    using "2.prems"(2) by (simp add: map_of_eq_None_iff)
  ultimately show ?case by (auto split: option.split)
qed simp

lemma failed_write_keeps:
  "write_staged io fs d = (Some m, d') \<Longrightarrow> d n \<noteq> None \<Longrightarrow> d' n \<noteq> None"
  by (induction io fs d rule: write_staged.induct) (auto split: if_splits)

lemma untouched:
  "n \<notin> set (map fst fs) \<Longrightarrow> snd (write_staged io fs d) n = d n"
  by (induction io fs d rule: write_staged.induct) auto

text \<open>After a successful run the generator's own files are exactly the staged ones.\<close>

lemma sync_exact:
  assumes "sync_dir io managed fs d = (Ok (), d')" and "stages fs" and "distinct (map fst fs)"
  shows "d' n = (if managed n then map_of fs n else d n)"
proof -
  from assms(1) obtain e where w: "write_staged io fs d = (None, e)" and d': "d' = prune_dir managed (set (map fst fs)) e"
    by (auto simp: sync_dir_def split: prod.splits option.splits)
  have e: "e n = (case map_of fs n of Some c \<Rightarrow> Some c | None \<Rightarrow> d n)"
    using w assms(3) by (rule written_content)
  show ?thesis
  proof (cases "n \<in> set (map fst fs)")
    case True
    then obtain c where "map_of fs n = Some c" by (metis map_of_eq_None_iff not_None_eq set_map)
    with True e d' staged_managed [OF assms(2) True] show ?thesis by (simp add: prune_dir_def)
  next
    case False
    then have "map_of fs n = None" by (simp add: map_of_eq_None_iff)
    with False e d' show ?thesis by (simp add: prune_dir_def)
  qed
qed

text \<open>A failed run removes nothing.\<close>

lemma sync_failure_keeps:
  assumes "sync_dir io managed fs d = (Err err, d')" and "d n \<noteq> None"
  shows "d' n \<noteq> None"
  using assms failed_write_keeps by (fastforce simp: sync_dir_def split: prod.splits option.splits)

end

lemma sync_all_writes: "fst (sync_dir (\<lambda>_. True) managed fs d) = Ok ()"
proof -
  have "fst (write_staged (\<lambda>_. True) fs d) = None" for d
    by (induction fs arbitrary: d) auto
  then obtain e where "write_staged (\<lambda>_. True) fs d = (None, e)" by (metis prod.collapse)
  then show ?thesis by (simp add: sync_dir_def)
qed

section \<open>Laws of names and identifiers\<close>

lemma utf8_chars_concat: "concat (utf8_chars s) = s"
  by (induction s rule: utf8_chars.induct) simp_all

lemma utf8_chars_shape:
  "c \<in> set (utf8_chars s) \<Longrightarrow> c \<noteq> [] \<and> list_all is_continuation (tl c)"
  by (induction s rule: utf8_chars.induct) (auto simp: list_all_iff dest: set_takeWhileD)

lemma continuation_not_ascii: "is_continuation x \<Longrightarrow> \<not> is_ascii x"
  by (simp add: is_continuation_def is_ascii_def)

lemma ascii_slash_dot: "is_ascii (CHR ''/'')" "\<not> is_ascii_alnum (CHR ''/'')"
  "is_ascii (CHR ''.'')" "\<not> is_ascii_alnum (CHR ''.'')"
  by (simp_all add: is_ascii_def char_class_defs)

lemma sanitize_name_plain:
  assumes "is_ascii x" and "\<not> is_ascii_alnum x" and "x \<noteq> CHR ''-''" and "x \<noteq> CHR ''_''"
  shows "x \<notin> set (sanitize_name alnum s)"
proof -
  have "x \<notin> set c" if "c \<in> set (utf8_chars s)" "is_alphanumeric alnum c" for c
  proof
    assume x: "x \<in> set c"
    from utf8_chars_shape [OF that(1)] obtain a t where c: "c = a # t" "list_all is_continuation t"
      by (cases c) auto
    with x assms(1) have "x = a" by (auto simp: list_all_iff dest: continuation_not_ascii)
    with c that(2) assms(1,2) show False by (simp add: is_alphanumeric_def)
  qed
  with assms(3,4) show ?thesis by (auto simp: sanitize_name_def)
qed

lemma hyphen_not_digit [simp]: "\<not> is_ascii_digit (CHR ''-'')"
  by (simp add: is_ascii_digit_def)

lemma show_nat_inject: "show_nat a = show_nat b \<longleftrightarrow> a = b"
  by (metis digits_value_show_nat)

lemma takeWhile_digits: "takeWhile is_ascii_digit (show_nat n @ CHR ''-'' # s) = show_nat n"
  using show_nat_digits [of n] by (auto simp: takeWhile_append list_all_iff)

lemma fragment_basename_index:
  "fragment_basename alnum i a = fragment_basename alnum j b \<Longrightarrow> i = j"
proof -
  assume "fragment_basename alnum i a = fragment_basename alnum j b"
  then have "takeWhile is_ascii_digit (fragment_basename alnum i a) = takeWhile is_ascii_digit (fragment_basename alnum j b)"
    by simp
  then have "show_nat (i + 10) = show_nat (j + 10)"
    by (simp add: fragment_basename_def show_02_def takeWhile_digits)
  then show "i = j" by (simp add: show_nat_inject)
qed

lemma length_show_two: "10 \<le> n \<Longrightarrow> n < 100 \<Longrightarrow> length (show_nat n) = 2"
  by (subst show_nat.simps, simp) (subst show_nat.simps, simp)

lemma fragment_basename_managed:
  assumes "i < 90"
  shows "is_fragment_name (fragment_basename alnum i nm)"
proof -
  from length_show_two [of "i + 10"] assms obtain a b where ab: "show_nat (i + 10) = [a, b]"
    by (auto simp: length_Suc_conv numeral_2_eq_2)
  then have "is_ascii_digit a" "is_ascii_digit b"
    using show_nat_digits [of "i + 10"] by auto
  then show ?thesis
    by (simp add: is_fragment_name_def fragment_basename_def show_02_def ab suffix_def numeral_2_eq_2)
qed

text \<open>The list the staging loop produces.\<close>

definition staged_by_index :: "(string \<Rightarrow> bool) \<Rightarrow> (string \<times> string) list \<Rightarrow> bool" where
  "staged_by_index alnum fs = (length fs \<le> 90 \<and>
     (\<forall>i < length fs. \<exists>nm. fst (fs ! i) = fragment_basename alnum i nm))"

lemma stage_share_name:
  "stage_share alnum mi pr cfg (i, sh) = Inr f \<Longrightarrow> fst f = fragment_basename alnum i (name sh)"
  by (auto simp: stage_share_def Let_def result_simps)

lemma staged_names:
  assumes "try_map (stage_share alnum mi pr cfg) (List.enumerate 0 ss) = Inr fs"
  shows "map fst fs = map (\<lambda>(i, sh). fragment_basename alnum i (name sh)) (List.enumerate 0 ss)"
  using assms by (intro list_all2_Ok_image [of "stage_share alnum mi pr cfg"])
    (auto simp: try_map_Ok_iff dest: stage_share_name)

lemma enumerate_distinct:
  assumes "\<And>i j a b. f i a = f j b \<Longrightarrow> i = j"
  shows "distinct (map (\<lambda>(i, x). f i x) (List.enumerate n xs))"
  by (auto simp: distinct_conv_nth nth_enumerate_eq dest: assms)

interpretation fragments_dir: synced_dir is_fragment_name "staged_by_index alnum" for alnum
proof
  fix fs n
  assume s: "staged_by_index alnum fs" and "n \<in> set (map fst fs)"
  then obtain i where i: "i < length fs" "n = fst (fs ! i)" by (auto simp: in_set_conv_nth)
  with s show "is_fragment_name n"
    by (auto simp: staged_by_index_def) (metis fragment_basename_managed order_less_le_trans)
qed



text \<open>A refused configuration leaves the export directory as it was, and no failure, not even of a
  write half way, removes a file: fragments are staged before the first write and pruned after
  the last.\<close>

theorem write_export_fragments_failure:
  assumes "write_export_fragments alnum io mountinfo pr cfg d = (Err e, d')"
  shows "((\<exists>n. e = IoFailed n) \<or> d' = d) \<and> dom d \<subseteq> dom d'"
proof (cases "try_map (stage_share alnum mountinfo pr cfg) (List.enumerate 0 (shares cfg))")
  case (Inl a)
  then show ?thesis using assms by (simp add: write_export_fragments_def)
next
  case (Inr fs)
  with assms have s: "sync_dir io is_fragment_name fs d = (Err e, d')"
    by (simp add: write_export_fragments_def)
  then have "\<exists>n. e = IoFailed n"
    by (auto simp: sync_dir_def split: prod.splits option.splits)
  with fragments_dir.sync_failure_keeps [OF s] show ?thesis by auto
qed

theorem write_export_fragments_failure_witness:
  "\<exists>d'. write_export_fragments (\<lambda>_. False) (\<lambda>_. True) None (\<lambda>_. \<lparr>write_probe = None, read_sniff = None\<rparr>)
        (sample_config\<lparr>shares := [sample_share\<lparr>umask := Some ''022''\<rparr>]\<rparr>) [''10-media.conf'' \<mapsto> ''old''] = (Err (UmaskRetired ''media''), d')
      \<and> d' = [''10-media.conf'' \<mapsto> ''old'']"
proof -
  define d where "d = [''10-media.conf'' \<mapsto> ''old'']"
  define w where "w = write_export_fragments (\<lambda>_. False) (\<lambda>_. True) None (\<lambda>_. \<lparr>write_probe = None, read_sniff = None\<rparr>)
        (sample_config\<lparr>shares := [sample_share\<lparr>umask := Some ''022''\<rparr>]\<rparr>) d"
  have "fst w = Err (UmaskRetired ''media'')" unfolding w_def d_def by code_simp
  then obtain d' where w: "w = (Err (UmaskRetired ''media''), d')" by (metis prod.collapse)
  from write_export_fragments_failure [OF w [unfolded w_def]] have "d' = d" by simp
  with w show ?thesis unfolding w_def d_def by (intro exI [of _ d'] conjI)
qed

text \<open>An ACL export is refused, before anything is written, when the probe proved that its file
  system cannot store ACLs; no fragment is staged for it.\<close>

theorem incapable_acl_share_refused:
  assumes "sh \<in> set (shares cfg)" and "enable_acl sh = Some True"
    and "share_verdict sh (share_caps mountinfo (serve_path_for sh)) (pr (serve_path_for sh)) = Incapable"
  shows "\<exists>e. write_export_fragments alnum io mountinfo pr cfg d = (Err e, d)"
proof -
  from assms(1) obtain i where i: "(i, sh) \<in> set (List.enumerate 0 (shares cfg))"
    by (auto simp: in_set_conv_nth nth_enumerate_eq) (metis nth_enumerate_eq add_0)
  have bad: "\<exists>e. stage_share alnum mountinfo pr cfg (i, sh) = Inl e"
    using assms(2,3) by (simp add: stage_share_def Let_def)
  have "\<nexists>fs. try_map (stage_share alnum mountinfo pr cfg) (List.enumerate 0 (shares cfg)) = Inr fs"
  proof
    assume "\<exists>fs. try_map (stage_share alnum mountinfo pr cfg) (List.enumerate 0 (shares cfg)) = Inr fs"
    then obtain fs where "list_all2 (\<lambda>x y. stage_share alnum mountinfo pr cfg x = Inr y) (List.enumerate 0 (shares cfg)) fs"
      by (auto simp: try_map_Ok_iff)
    from list_all2_target [OF this i] obtain f where "stage_share alnum mountinfo pr cfg (i, sh) = Inr f"
      by blast
    with bad show False by simp
  qed
  then show ?thesis
    by (cases "try_map (stage_share alnum mountinfo pr cfg) (List.enumerate 0 (shares cfg))")
      (auto simp: write_export_fragments_def)
qed

theorem incapable_acl_share_refused_witness:
  "\<exists>e. write_export_fragments (\<lambda>_. False) (\<lambda>_. True) None (\<lambda>_. \<lparr>write_probe = None, read_sniff = None\<rparr>)
        (sample_config\<lparr>shares := [sample_share\<lparr>enable_acl := Some True\<rparr>]\<rparr>) [''a'' \<mapsto> ''b''] = (Err e, [''a'' \<mapsto> ''b''])"
  by (rule incapable_acl_share_refused [of "sample_share\<lparr>enable_acl := Some True\<rparr>"])
    (simp_all add: share_verdict_def share_caps_def unknown_caps_def acl_probe_verdict_def)

text \<open>An export identifier is computed without wrap-around: it is the base plus the hash reduced
  to the span that is left, so it lies between the base and 65535 for every base and name.\<close>

theorem derive_export_id_range:
  "unat (derive_export_id nm base) =
     unat base + unat (export_hash nm) mod min 55000 (max (65535 - unat base) 1)
   \<and> unat base \<le> unat (derive_export_id nm base)"
proof -
  define f :: "32 word" where "f = ucast base"
  have "unat base < 2 ^ LENGTH(16)" by (rule unsigned_less)
  then have b: "unat base \<le> 65535" by simp
  have f: "unat f = unat base"
    using b by (simp add: f_def unsigned_ucast_eq take_bit_nat_eq_self)
  have sub: "unat (65535 - f) = 65535 - unat base"
    using b f by (subst unat_sub) (simp_all add: word_le_nat_alt)
  define span :: "32 word" where "span = min 55000 (max (65535 - f) 1)"
  have span: "unat span = min 55000 (max (65535 - unat base) 1)"
    by (simp add: span_def min_def max_def word_le_nat_alt sub)
  define m where "m = unat (export_hash nm) mod min 55000 (max (65535 - unat base) 1)"
  have m: "unat (export_hash nm mod span) = m" by (simp add: unat_mod span m_def)
  have "m < min 55000 (max (65535 - unat base) 1)"
    unfolding m_def by (rule mod_less_divisor) simp
  then have bound: "unat base + m \<le> 65535" using b by linarith
  have "unat (f + export_hash nm mod span) = unat base + m"
    using bound f m by (subst unat_add_lem [THEN iffD1]) simp_all
  then have "unat (derive_export_id nm base) = unat base + m"
    using bound by (simp add: derive_export_id_def Let_def f_def span_def unsigned_ucast_eq take_bit_nat_eq_self)
  then show ?thesis by (simp add: m_def)
qed

text \<open>
  The identifiers are not checked for collisions, and names that differ in the last letter hash
  to neighbouring values, which the offset of ten per share can make equal.
\<close>

lemma export_id_collision: "export_id_of 0 ''share8'' = export_id_of 1 ''share2''"
  by code_simp

text \<open>From the ninety-first share on the file name has three digits, which pruning does not recognise.\<close>

lemma fragment_90_not_managed: "\<not> is_fragment_name (fragment_basename (\<lambda>_. False) 90 ''media'')"
  by code_simp

lemma navahi_free:
  "serve_path_for (sh\<lparr>navahi_insecure := x\<rparr>) = serve_path_for sh"
  "derive_share_pseudo (sh\<lparr>navahi_insecure := x\<rparr>) = derive_share_pseudo sh"
  "share_prefs (sh\<lparr>navahi_insecure := x\<rparr>) = share_prefs sh"
  "compute_effective_flags_probed (sh\<lparr>navahi_insecure := x\<rparr>) caps v = compute_effective_flags_probed sh caps v"
  "share_verdict (sh\<lparr>navahi_insecure := x\<rparr>) caps pp = share_verdict sh caps pp"
  "export_read_access_line (sh\<lparr>navahi_insecure := x\<rparr>) eff = export_read_access_line sh eff"
  by (simp_all add: serve_path_for_def derive_share_pseudo_def share_prefs_def compute_effective_flags_probed_def
      share_verdict_def export_read_access_line_def compute_read_access_policy_emit_def
      split: option.split)

lemma navahi_off_block:
  assumes "\<not> navahi_discovery cfg"
  shows "export_block (cfg\<lparr>shares := ss\<rparr>) (sh\<lparr>navahi_insecure := x\<rparr>) i caps v = export_block cfg sh i caps v"
proof -
  have off: "share_navahi_effective cfg sh = False"
    "share_navahi_effective (cfg\<lparr>shares := ss\<rparr>) (sh\<lparr>navahi_insecure := x\<rparr>) = False"
    using assms by (simp_all add: share_navahi_effective_def)
  then have "share_sectype (cfg\<lparr>shares := ss\<rparr>) (sh\<lparr>navahi_insecure := x\<rparr>) = share_sectype cfg sh"
    by (simp add: share_sectype_def)
  with off show ?thesis unfolding export_block_def by (simp add: navahi_free)
qed

text \<open>With the discovery toggle off, the fragments do not depend on the per-share discovery flag.\<close>

theorem navahi_off_fragments_unchanged:
  assumes "\<not> navahi_discovery cfg"
  shows "write_export_fragments alnum io mountinfo pr
      (cfg\<lparr>shares := map (\<lambda>sh. sh\<lparr>navahi_insecure := f sh\<rparr>) (shares cfg)\<rparr>) d
    = write_export_fragments alnum io mountinfo pr cfg d"
proof -
  let ?g = "\<lambda>sh. sh\<lparr>navahi_insecure := f sh\<rparr>"
  have st: "stage_share alnum mountinfo pr (cfg\<lparr>shares := ss\<rparr>) (i, ?g sh) = stage_share alnum mountinfo pr cfg (i, sh)" for i sh ss
    using navahi_off_block [OF assms, where ss = ss and sh = sh and x = "f sh"] by (simp add: stage_share_def navahi_free)
  have "try_map (stage_share alnum mountinfo pr (cfg\<lparr>shares := ss\<rparr>)) (List.enumerate n (map ?g xs))
      = try_map (stage_share alnum mountinfo pr cfg) (List.enumerate n xs)" for ss xs n
    by (induction xs arbitrary: n) (simp_all add: st)
  then show ?thesis by (simp add: write_export_fragments_def)
qed

theorem navahi_off_fragments_unchanged_witness:
  "write_export_fragments (\<lambda>_. False) (\<lambda>_. True) None (\<lambda>_. \<lparr>write_probe = None, read_sniff = None\<rparr>)
      (sample_config\<lparr>shares := map (\<lambda>sh. sh\<lparr>navahi_insecure := Some True\<rparr>) (shares sample_config)\<rparr>) Map.empty
    = write_export_fragments (\<lambda>_. False) (\<lambda>_. True) None (\<lambda>_. \<lparr>write_probe = None, read_sniff = None\<rparr>)
        sample_config Map.empty"
proof -
  have "\<not> navahi_discovery sample_config" by code_simp
  then show ?thesis by (rule navahi_off_fragments_unchanged)
qed

end
