(* ===== verification/Generate_Conf.thy ===== *)
theory Generate_Conf
  imports Generate_Fragments
begin

text \<open>
  The other generated files, from \<^verbatim>\<open>nfs-klldap-config/src/generate/mod.rs\<close> and
  \<^verbatim>\<open>generate/avahi.rs\<close>, with \<^verbatim>\<open>ignored_attributes.rs\<close> and the bridge \<^verbatim>\<open>idmap.rs\<close>: the exact text
  of the SSSD, Kerberos, idmap, NFS and Ganesha configurations and of the Avahi service files,
  and \<^verbatim>\<open>generate_all\<close>, which writes them in order. Setting file modes is part of the write that
  precedes it.
\<close>

section \<open>Inputs of the LDAP settings\<close>

definition apos :: string where "apos = [CHR 0x27]"

definition RECOMMENDED_IGNORED_USER_ATTRIBUTES :: "string list" where
  "RECOMMENDED_IGNORED_USER_ATTRIBUTES =
     [''accountexpires'', ''authorizedservice'', ''gecos'', ''host'',
      ''krblastpwdchange'', ''krbpasswordexpiration'', ''loginallowedtimemap'', ''logindisabled'',
      ''loginexpirationtime'', ''nsaccountlock'', ''passkey'', ''pwdattribute'',
      ''rhost'', ''shadowexpire'', ''shadowflag'', ''shadowinactive'',
      ''shadowlastchange'', ''shadowmax'', ''shadowmin'', ''shadowwarning'',
      ''sudohost'', ''useraccountcontrol'', ''usercertificate;binary'', ''userpassword'']"

definition RECOMMENDED_IGNORED_GROUP_ATTRIBUTES :: "string list" where
  "RECOMMENDED_IGNORED_GROUP_ATTRIBUTES = [''memberuid'', ''userpassword'', ''sudohost'']"

definition RECOMMENDED_KLLDAP_GROUP_MEMBER :: string where
  "RECOMMENDED_KLLDAP_GROUP_MEMBER = ''member''"

definition get_kllldap_ignored_attributes_toml :: "string \<times> string" where
  "get_kllldap_ignored_attributes_toml =
     (let arr = (\<lambda>xs. ''['' @ join '', '' (map (\<lambda>s. quot @ s @ quot) xs) @ '']'') in
      (arr RECOMMENDED_IGNORED_USER_ATTRIBUTES, arr RECOMMENDED_IGNORED_GROUP_ATTRIBUTES))"

definition get_kllldap_ignored_attributes_comment_block :: string where
  "get_kllldap_ignored_attributes_comment_block =
     (case get_kllldap_ignored_attributes_toml of (users, groups) \<Rightarrow>
     ''# -----------------------------------------------------------------------------'' @ nl
       @ ''# KLLDAP server-side ignored attributes'' @ nl
       @ ''# -----------------------------------------------------------------------------'' @ nl
       @ ''# SSSD and similar clients request many AD-compat attributes.'' @ nl
       @ ''# KLLDAP does not store them.'' @ nl
       @ ''# Without server-side ignores'' @ nl
       @ ''# logs fill with '' @ quot @ ''unknown attribute'' @ quot @ '' noise and some'' @ nl
       @ ''# clients retry aggressively (TLS disconnects, high CPU)'' @ nl
       @ ''# Keep [sssd] kllldap_ignored_attributes = true (default) in nfs-klldap.conf.'' @ nl
       @ ''#'' @ nl
       @ ''# ldap_group_member = '' @ quot @ RECOMMENDED_KLLDAP_GROUP_MEMBER @ quot @ '' when ignores are enabled (not legacy memberUid)'' @ nl
       @ ''#'' @ nl
       @ ''# To disable: add '' @ quot @ ''kllldap_ignored_attributes = false'' @ quot @ '' in nfs-klldap.conf'' @ nl
       @ ''# -----------------------------------------------------------------------------'' @ nl
       @ ''ignored_user_attributes = '' @ users @ nl
       @ ''ignored_group_attributes = '' @ groups @ nl)"

definition posix_mapping_input :: "SssdSection \<Rightarrow> PosixMappingInput" where
  "posix_mapping_input s =
     \<lparr>ldap_user_object_class = sssd_user_object_class s,
      ldap_group_object_class = sssd_group_object_class s,
      ldap_user_name = sssd_user_name s,
      ldap_user_uid_number = sssd_user_uid_number s,
      ldap_user_gid_number = sssd_user_gid_number s,
      ldap_user_home_directory = sssd_user_home_directory s,
      ldap_user_shell = sssd_user_shell s,
      ldap_user_fullname = sssd_user_fullname s,
      ldap_group_name = sssd_group_name s,
      ldap_group_gid_number = sssd_group_gid_number s,
      ldap_group_member = sssd_group_member s,
      ldap_user_principal_name = sssd_user_principal_name s,
      kllldap_ignored_attributes = sssd_ignored_attributes s\<rparr>"

definition search_bases_input :: "SssdSection \<Rightarrow> LdapSearchBasesInput" where
  "search_bases_input s =
     \<lparr>ldap_search_base = sssd_search_base s,
      ldap_user_search_base = sssd_user_search_base s,
      ldap_group_search_base = sssd_group_search_base s\<rparr>"

section \<open>SSSD\<close>

definition sssd_domain_name :: "NfsKlldapConfig \<Rightarrow> string" where
  "sssd_domain_name cfg = unwrap_or (non_empty (sssd_domain (sssd cfg))) ''default''"

definition sssd_header :: "NfsKlldapConfig \<Rightarrow> string \<Rightarrow> string \<Rightarrow> string" where
  "sssd_header cfg r auth =
     ''# GENERATED by nfs-klldap-config '' @ em_dash @ '' do not edit (source: nfs-klldap.conf)'' @ nl
       @ ''# Realm: '' @ r @ '' | domain: '' @ sssd_domain_name cfg @ '' | auth: '' @ auth @ '' | enumerate: '' @ show_bool (unwrap_or (enumerate (sssd cfg)) False) @ nl
       @ nl"

definition sssd_main_section :: "NfsKlldapConfig \<Rightarrow> string \<Rightarrow> string \<Rightarrow> string" where
  "sssd_main_section cfg auth search_base =
     ''[sssd]'' @ nl
       @ ''config_file_version = 2'' @ nl
       @ ''services = nss, pam'' @ nl
       @ ''domains = '' @ sssd_domain_name cfg @ nl
       @ nl
       @ ''[nss]'' @ nl
       @ ''filter_users = root'' @ nl
       @ ''filter_groups = root'' @ nl
       @ nl
       @ ''[domain/'' @ sssd_domain_name cfg @ '']'' @ nl
       @ ''id_provider = ldap'' @ nl
       @ ''auth_provider = '' @ auth @ nl
       @ ''ldap_uri = '' @ ldap_uri cfg @ nl
       @ ''ldap_search_base = '' @ search_base @ nl
       @ ''ldap_default_bind_dn = '' @ ldap_default_bind_dn (sssd cfg) @ nl
       @ ''ldap_default_authtok = '' @ ldap_default_authtok (sssd cfg) @ nl
       @ ''cache_credentials = true'' @ nl
       @ ''# SSSD entry cache timeouts from nfs-klldap.conf (defaults below)'' @ nl
       @ ''entry_cache_timeout = '' @ show_word (unwrap_or (entry_cache_timeout (sssd cfg)) 180) @ nl
       @ ''entry_negative_timeout = '' @ show_word (unwrap_or (entry_negative_timeout (sssd cfg)) 60) @ nl"

definition ldap_domain_base :: "NfsKlldapConfig \<Rightarrow> string \<Rightarrow> string \<Rightarrow> PosixAttributeMapping \<Rightarrow> string" where
  "ldap_domain_base cfg user_base group_base m =
     ''ldap_user_search_base = '' @ user_base @ nl
       @ ''ldap_user_search_scope = sub'' @ nl
       @ ''ldap_user_object_class = '' @ user_object_class m @ nl
       @ ''ldap_user_name = '' @ user_name m @ nl
       @ ''ldap_user_uid_number = '' @ user_uid_number m @ nl
       @ ''ldap_user_gid_number = '' @ user_gid_number m @ nl
       @ ''ldap_user_home_directory = '' @ user_home_directory m @ nl
       @ ''ldap_user_shell = '' @ user_shell m @ nl
       @ nl
       @ ''ldap_group_search_base = '' @ group_base @ nl
       @ ''ldap_group_search_scope = sub'' @ nl
       @ ''ldap_group_object_class = '' @ group_object_class m @ nl
       @ ''ldap_group_name = '' @ group_name m @ nl
       @ ''ldap_group_gid_number = '' @ group_gid_number m @ nl
       @ ''# For KLLDAP + rfc2307bis we recommend '' @ quot @ ''member'' @ quot @ '' (DNs) or '' @ quot @ ''uniqueMember'' @ [backslash] @ quot @ nl
       @ ''# Defaults to '' @ quot @ ''member'' @ quot @ '' when kllldap_ignored_attributes is active.'' @ nl
       @ ''ldap_group_member = '' @ group_member m @ nl
       @ nl
       @ ''ldap_schema = '' @ override_or (ldap_schema (sssd cfg)) ''rfc2307bis'' @ nl
       @ ''ldap_pwd_policy = none'' @ nl
       @ ''ldap_id_mapping = false'' @ nl
       @ ''enumerate = '' @ show_bool (unwrap_or (enumerate (sssd cfg)) False) @ nl
       @ ''access_provider = '' @ unwrap_or (non_empty (access_provider (sssd cfg))) ''permit''"

definition user_attr_list :: "SssdSection \<Rightarrow> PosixAttributeMapping \<Rightarrow> string" where
  "user_attr_list s m =
     (let a = [user_name m, user_uid_number m, user_gid_number m, user_home_directory m, user_shell m, ''objectClass''];
          a = (case non_empty (sssd_user_fullname s) of
                 None \<Rightarrow> a
               | Some f \<Rightarrow> if list_ex (\<lambda>x. eq_ignore_ascii_case x (trim f)) a then a else a @ [trim f])
      in join '','' a)"

definition group_attr_list :: "PosixAttributeMapping \<Rightarrow> string" where
  "group_attr_list m = join '','' [group_name m, group_gid_number m, group_member m, ''objectClass'']"

text \<open>An option written on a line of its own: a newline, the key and the value.\<close>

definition opt_setting :: "string \<Rightarrow> string option \<Rightarrow> string" where
  "opt_setting key v = (case v of None \<Rightarrow> [] | Some x \<Rightarrow> nl @ key @ '' = '' @ x)"

definition build_ldap_domain_options ::
  "NfsKlldapConfig \<Rightarrow> string \<Rightarrow> string \<Rightarrow> string \<Rightarrow> bool \<Rightarrow> PosixAttributeMapping \<Rightarrow> string" where
  "build_ldap_domain_options cfg r user_base group_base is_plain_ldap m =
     (let s = sssd cfg;
          auth = override_or (auth_provider s) ''ldap'';
          kdc_host = extract_host_from_uri (ldap_uri cfg)
      in ldap_domain_base cfg user_base group_base m
         @ nl @ ''# Informational (computed from active POSIX attribute mappings above):'' @ nl
         @ ''# ldap_user_extra_attrs only *adds* (it does not restrict).'' @ nl
         @ ''# Shown for reference/debugging only:'' @ nl
         @ ''#ldap_user_attributes = '' @ user_attr_list s m @ nl
         @ ''#ldap_group_attributes = '' @ group_attr_list m
         @ (if auth = ''krb5''
            then nl @ ''chpass_provider = krb5''
                 @ (if krb5_validate s = None then nl @ ''krb5_validate = false'' else [])
            else [])
         @ nl @ ''krb5_realm = '' @ r
         @ nl @ ''krb5_server = '' @ override_or (krb5_server s) kdc_host
         @ nl @ ''krb5_kpasswd = '' @ override_or (krb5_kpasswd s) kdc_host
         @ opt_setting ''ldap_tls_reqcert'' (map_option trim (non_empty (ldap_tls_reqcert s)))
         @ opt_setting ''ldap_tls_cacert'' (map_option trim (non_empty (ldap_tls_cacert s)))
         @ opt_setting ''ldap_id_use_start_tls'' (map_option show_bool (ldap_id_use_start_tls s))
         @ opt_setting ''ldap_user_fullname'' (map_option trim (non_empty (sssd_user_fullname s)))
         @ opt_setting ''krb5_validate'' (map_option show_bool (krb5_validate s))
         @ opt_setting ''krb5_store_password_if_offline'' (map_option show_bool (krb5_store_password_if_offline s))
         @ (if is_plain_ldap \<and> unwrap_or (ldap_auth_disable_tls s) True
            then nl @ ''ldap_auth_disable_tls_never_use_in_production = true'' else [])
         @ (if unwrap_or (sssd_ignored_attributes s) True
            then nl @ get_kllldap_ignored_attributes_comment_block else []))"

definition sssd_conf_text :: "NfsKlldapConfig \<Rightarrow> string \<Rightarrow> string" where
  "sssd_conf_text cfg r =
     (let search_base = unwrap_or (non_empty (sssd_search_base (sssd cfg)))
            (''dc='' @ replace_char CHR ''.'' '',dc='' (to_lowercase r));
          m = resolve_posix_attribute_mapping (posix_mapping_input (sssd cfg));
          (user_base, group_base) = effective_ldap_search_bases (search_bases_input (sssd cfg)) r;
          auth = unwrap_or (non_empty (auth_provider (sssd cfg))) ''ldap''
      in sssd_header cfg r auth @ sssd_main_section cfg auth search_base
         @ build_ldap_domain_options cfg r user_base group_base (starts_with (ldap_uri cfg) ''ldap://'') m)"

section \<open>Kerberos, NFS and idmap\<close>

definition krb5_conf_text :: "NfsKlldapConfig \<Rightarrow> string \<Rightarrow> string" where
  "krb5_conf_text cfg r =
     (let kdc_host = extract_host_from_uri (ldap_uri cfg) in
     ''[libdefaults]'' @ nl
       @ ''    default_realm = '' @ r @ nl
       @ ''    dns_lookup_realm = false'' @ nl
       @ ''    dns_lookup_kdc = false'' @ nl
       @ ''    rdns = false'' @ nl
       @ ''    ticket_lifetime = 24h'' @ nl
       @ ''    renew_lifetime = 7d'' @ nl
       @ ''    forwardable = true'' @ nl
       @ nl
       @ ''[realms]'' @ nl
       @ ''    '' @ r @ '' = {'' @ nl
       @ ''        kdc = '' @ kdc_host @ nl
       @ ''        admin_server = '' @ kdc_host @ nl
       @ ''    }'' @ nl
       @ nl
       @ ''[domain_realm]'' @ nl
       @ ''    .'' @ to_lowercase r @ '' = '' @ r @ nl
       @ ''    '' @ to_lowercase r @ '' = '' @ r @ nl)"

definition nfs_conf_text :: string where
  "nfs_conf_text =
     ''# GENERATED by nfs-klldap-config '' @ em_dash @ '' do not edit (source: nfs-klldap.conf)'' @ nl
       @ ''[general]'' @ nl
       @ ''pipefs-directory=/run/rpc_pipefs'' @ nl
       @ nl
       @ ''[gssd]'' @ nl
       @ ''use-machine-creds=0'' @ nl"

definition idmap_conf_text :: "string \<Rightarrow> string" where
  "idmap_conf_text domain =
     ''# GENERATED by nfs-klldap-config '' @ em_dash @ '' do not edit (source: nfs-klldap.conf)'' @ nl
       @ ''# Routes user@REALM via nsswitch + getpwnam (nss_wrapper/sssd) for krb5*.'' @ nl
       @ nl
       @ ''[General]'' @ nl
       @ ''Verbosity = 0'' @ nl
       @ ''Domain = '' @ domain @ nl
       @ ''Local-Realms = '' @ domain @ nl
       @ nl
       @ ''[Mapping]'' @ nl
       @ ''Nobody-User = '' @ IDMAPD_NOBODY_USER @ nl
       @ ''Nobody-Group = '' @ IDMAPD_NOBODY_GROUP @ nl
       @ nl
       @ ''[Translation]'' @ nl
       @ ''Method = '' @ IDMAPD_TRANSLATION_METHOD @ nl
       @ ''GSS-Methods = '' @ IDMAPD_GSS_METHODS @ nl
       @ ''# krb5/krb5p/krb5i: nsswitch + UseGetpwnam=true (getpwuid_r + getgrouplist LogInfo); see ganesha-ctl id-resolve'' @ nl"

section \<open>Ganesha\<close>

definition ganesha_debug_enabled :: "env \<Rightarrow> bool" where
  "ganesha_debug_enabled env =
     (case env ''GANESHA_DEBUG'' of
        None \<Rightarrow> False
      | Some v \<Rightarrow> to_ascii_lowercase (trim v) \<in> {''true'', ''1'', ''yes'', ''on''})"

definition include_lines :: "(string \<Rightarrow> bool) \<Rightarrow> string \<Rightarrow> Share list \<Rightarrow> string" where
  "include_lines alnum dirname ss =
     concat (map (\<lambda>(i, s). ''%include '' @ dirname @ ''/'' @ fragment_basename alnum i (name s) @ nl)
       (List.enumerate 0 ss))"

definition rpc_cred_line :: "NfsKlldapConfig \<Rightarrow> string" where
  "rpc_cred_line cfg =
     (if unwrap_or (enable_rpc_cred_fallback (ganesha cfg)) True
      then ''    enable_rpc_cred_fallback = true;  # RPC token gids when uid2grp fails; may mask incomplete nss_wrapper membership.'' @ nl
      else ''    enable_rpc_cred_fallback = false;  # fail closed on uid2grp miss (idhelper authoritative).'' @ nl)"

text \<open>\<^verbatim>\<open>u32::try_from(v).unwrap_or(u32::MAX)\<close> and the minimum over the shares that set a value.\<close>

definition saturate_u32 :: "64 word \<Rightarrow> 32 word" where
  "saturate_u32 v = (if v \<le> 4294967295 then ucast v else 4294967295)"

definition min_share_expiration :: "Share list \<Rightarrow> 64 word option" where
  "min_share_expiration ss =
     (case List.map_filter manage_gids_expiration ss of [] \<Rightarrow> None | v # vs \<Rightarrow> Some (foldl min v vs))"

definition idmap_validity :: "NfsKlldapConfig \<Rightarrow> 32 word" where
  "idmap_validity cfg =
     unwrap_or (opt_or (idmapped_validity_secs (ganesha cfg))
       (map_option saturate_u32
         (opt_or (manage_gids_expiration_secs (ganesha cfg)) (min_share_expiration (shares cfg)))))
       GANESHA_IDMAPPED_VALIDITY_SECS"

definition navahi_core_lines :: "NfsKlldapConfig \<Rightarrow> string" where
  "navahi_core_lines cfg =
     (if navahi_discovery cfg
      then ''    # Navahi: v3 MOUNT namespace = Pseudo; fixed MNT port for firewalls.'' @ nl
           @ ''    Mount_Path_Pseudo = true;'' @ nl @ ''    MNT_Port = 20048;'' @ nl
      else [])"

definition ganesha_core_block :: "NfsKlldapConfig \<Rightarrow> string" where
  "ganesha_core_block cfg =
     (let g = ganesha cfg;
          core_proto = (if navahi_discovery cfg then ''3,4'' else GANESHA_PROTOCOLS) in
     ''NFS_CORE_PARAM {'' @ nl
       @ ''    Protocols = '' @ core_proto @ '';'' @ nl
       @ ''    Enable_UDP = false;'' @ nl
       @ ''    Bind_addr = 0.0.0.0;'' @ nl
       @ ''    NFS_Port = 2049;'' @ nl
       @ ''    Enable_RQUOTA = false;'' @ nl
       @ ''    Enable_NLM = false;'' @ nl
       @ navahi_core_lines cfg @ ''    Allow_Set_Io_Flusher_Fail = true;'' @ nl
       @ rpc_cred_line cfg @ ''    # Bound concurrent uid->groups resolutions hitting SSSD/LLDAP (0 = unlimited).'' @ nl
       @ ''    Max_Uid_To_Group_Reqs = '' @ show_word (unwrap_or (max_uid_to_group_reqs g) GANESHA_MAX_UID_TO_GROUP_REQS) @ '';'' @ nl
       @ ''    Readdir_Res_Size = '' @ show_word (unwrap_or (readdir_res_size g) GANESHA_READDIR_RES_SIZE) @ '';'' @ nl
       @ opt_line ''Readdir_Max_Count'' (map_option show_word (readdir_max_count g)) @ ''    # Extra getattr-per-READ is an ESXi EOF workaround; fleet is Fedora immutable.'' @ nl
       @ ''    Getattrs_In_Complete_Read = '' @ show_bool (unwrap_or (getattrs_in_complete_read g) False) @ '';'' @ nl
       @ ''    # Return freed heap to the OS on long-running operation (threshold in MB).'' @ nl
       @ ''    Enable_malloc_trim = '' @ show_bool (unwrap_or (malloc_trim g) True) @ '';'' @ nl
       @ ''    Malloc_trim_MinThreshold = '' @ show_word (unwrap_or (malloc_trim_min_threshold_mb g) GANESHA_MALLOC_TRIM_MIN_MB) @ '';'' @ nl
       @ ''}'' @ nl
       @ nl)"

definition ganesha_directory_block :: "NfsKlldapConfig \<Rightarrow> string \<Rightarrow> string" where
  "ganesha_directory_block cfg domain =
     (let g = ganesha cfg in
     ''DIRECTORY_SERVICES {'' @ nl
       @ ''    DomainName = '' @ domain @ '';'' @ nl
       @ ''    Pwnam_Implementation = '' @ GANESHA_PWNAM_IMPL @ '';'' @ nl
       @ ''    Pwutils_Use_Fully_Qualified_Names = true;  # principal2uid uses user@ form; getgrouplist uses passwd login from getpwuid_r.'' @ nl
       @ ''    # Principal service-name parts granted root. Deliberately excludes `host`'' @ nl
       @ ''    # so enrolled client machine keytabs cannot act as root on exports.'' @ nl
       @ ''    Root_Kerberos_Principal = '' @ unwrap_or (root_kerberos_principals g) GANESHA_ROOT_KRB_PRINCIPALS @ '';'' @ nl
       @ ''    # Seconds identity lookups AND getgroups() results under Manage_Gids stay'' @ nl
       @ ''    # trusted '' @ em_dash @ '' the single group-trust window on 9.13 (the old core-param'' @ nl
       @ ''    # spelling warns and is no longer emitted). Group-change propagation ='' @ nl
       @ ''    # SSSD entry_cache_timeout + this value.'' @ nl
       @ ''    Idmapped_User_Time_Validity = '' @ show_word (idmap_validity cfg) @ '';'' @ nl
       @ ''    Idmapped_Group_Time_Validity = '' @ show_word (idmap_validity cfg) @ '';'' @ nl
       @ ''    # Failed-lookup memory: new LDAP users/groups become visible within this window.'' @ nl
       @ ''    Negative_Cache_Time_Validity = '' @ show_word (unwrap_or (negative_cache_validity_secs g) GANESHA_NEGATIVE_CACHE_VALIDITY_SECS) @ '';'' @ nl
       @ ''}'' @ nl
       @ nl)"

definition ganesha_rest_blocks :: "GaneshaSection \<Rightarrow> string \<Rightarrow> string" where
  "ganesha_rest_blocks g keytab =
     ''NFS_KRB5 {'' @ nl
       @ ''    PrincipalName = '' @ quot @ ''nfs'' @ quot @ '';'' @ nl
       @ ''    KeytabPath = '' @ quot @ keytab @ quot @ '';'' @ nl
       @ ''    Active_krb5 = TRUE;'' @ nl
       @ ''}'' @ nl
       @ nl
       @ ''NFSV4 {'' @ nl
       @ ''    Only_Numeric_Owners = true;'' @ nl
       @ ''    Allow_Numeric_Owners = true;'' @ nl
       @ ''    UseGetpwnam = true;'' @ nl
       @ ''    RecoveryBackend = fs;'' @ nl
       @ ''    # Must be volume-backed (nfs-klldap-host.yaml) so clients reclaim locks/opens'' @ nl
       @ ''    # through grace after a container recreate, not just a process restart.'' @ nl
       @ ''    RecoveryRoot = '' @ GANESHA_RECOVERY_ROOT @ '';'' @ nl
       @ ''    Lease_Lifetime = 60;'' @ nl
       @ ''    # Grace must be >= lease or a restarting server can refuse reclaims'' @ nl
       @ ''    # (9.13 warns on 45/60); 90/60 is the upstream pairing.'' @ nl
       @ ''    Grace_Period = 90;'' @ nl
       @ ''}'' @ nl
       @ nl
       @ ''EXPORT_DEFAULTS {'' @ nl
       @ ''    SecType = '' @ default_security g @ '';'' @ nl
       @ ''    Protocols = '' @ GANESHA_PROTOCOLS @ '';'' @ nl
       @ ''    # Attribute/ACL cache window; 0 = always fresh (getattr per op).'' @ nl
       @ ''    Attr_Expiration_Time = '' @ show_int (unwrap_or (ganesha_attr_expiration_secs g) 60) @ '';'' @ nl
       @ ''}'' @ nl"

definition ganesha_log_block :: "bool \<Rightarrow> string" where
  "ganesha_log_block debug =
     (if debug then
     ''LOG {'' @ nl
       @ ''    Default_Log_Level = DEBUG;'' @ nl
       @ ''    Components {'' @ nl
       @ ''        CLIENTID = FULL_DEBUG;'' @ nl
       @ ''        SESSIONS = FULL_DEBUG;'' @ nl
       @ ''        IDMAPPER = FULL_DEBUG;'' @ nl
       @ ''        NFS_V4_ACL = DEBUG;'' @ nl
       @ ''        NFS4 = DEBUG;'' @ nl
       @ ''        DISPATCH = DEBUG;'' @ nl
       @ ''        XPRT = DEBUG;'' @ nl
       @ ''    }'' @ nl
       @ ''}'' @ nl
       @ nl
      else
     ''LOG {'' @ nl
       @ ''    Default_Log_Level = INFO;'' @ nl
       @ ''    Components {'' @ nl
       @ ''        CLIENTID = EVENT;'' @ nl
       @ ''        SESSIONS = EVENT;'' @ nl
       @ ''        IDMAPPER = EVENT;'' @ nl
       @ ''        XPRT = EVENT;'' @ nl
       @ ''    }'' @ nl
       @ ''}'' @ nl
       @ nl)"

definition keytab_path_setting :: "env \<Rightarrow> string" where
  "keytab_path_setting env =
     unwrap_or (opt_filter (\<lambda>s. s \<noteq> []) (map_option trim (env ''NFS_KLLDAP_KEYTAB_PATH''))) ''/etc/krb5.keytab''"

definition ganesha_main_text :: "(string \<Rightarrow> bool) \<Rightarrow> env \<Rightarrow> NfsKlldapConfig \<Rightarrow> string \<Rightarrow> string \<Rightarrow> string" where
  "ganesha_main_text alnum env cfg domain dirname =
     ganesha_core_block cfg @ ganesha_directory_block cfg domain
       @ ganesha_rest_blocks (ganesha cfg) (keytab_path_setting env)
       @ ganesha_log_block (ganesha_debug_enabled env)
       @ include_lines alnum dirname (shares cfg)"

section \<open>Avahi services\<close>

definition NAVAHI_PREFIX :: string where "NAVAHI_PREFIX = ''nfs-klldap-''"

definition NFS_PORT :: "16 word" where "NFS_PORT = 2049"

definition xml_escape_char :: "char \<Rightarrow> string" where
  "xml_escape_char c =
     (if c = CHR ''&'' then ''&amp;''
      else if c = CHR ''<'' then ''&lt;''
      else if c = CHR ''>'' then ''&gt;''
      else if c = CHR 0x22 then ''&quot;''
      else if c = CHR 0x27 then ''&apos;''
      else [c])"

definition xml_escape :: "string \<Rightarrow> string" where
  "xml_escape s = concat (map xml_escape_char s)"

text \<open>The host name of the container is \<open>sys_host\<close> unless the configuration names one.\<close>

definition effective_hostname :: "string \<Rightarrow> NfsKlldapConfig \<Rightarrow> string" where
  "effective_hostname sys_host cfg = unwrap_or (hostname (server cfg)) sys_host"

definition effective_nfs_host_identity :: "string \<Rightarrow> NfsKlldapConfig \<Rightarrow> string \<Rightarrow> NfsHostIdentity" where
  "effective_nfs_host_identity sys_host cfg r = resolve_nfs_host_identity (effective_hostname sys_host cfg) r"

definition avahi_host_line :: "string \<Rightarrow> string" where
  "avahi_host_line h =
     (if CHR ''.'' \<in> set h then ''    <host-name>'' @ xml_escape h @ ''</host-name>'' @ nl else [])"

definition avahi_service_xml :: "string \<Rightarrow> Share \<Rightarrow> string" where
  "avahi_service_xml host_line share =
     (let name_esc = xml_escape (name share); path_esc = xml_escape (derive_share_pseudo share) in
     ''<?xml version='' @ quot @ ''1.0'' @ quot @ '' standalone='' @ apos @ ''no'' @ apos @ ''?>'' @ nl
       @ ''<!DOCTYPE service-group SYSTEM '' @ quot @ ''avahi-service.dtd'' @ quot @ ''>'' @ nl
       @ ''<!-- Generated from nfs-klldap.conf share '' @ quot @ name_esc @ quot @ ''; edits are overwritten. -->'' @ nl
       @ ''<service-group>'' @ nl
       @ ''  <name replace-wildcards='' @ quot @ ''yes'' @ quot @ ''>'' @ name_esc @ '' on %h</name>'' @ nl
       @ ''  <service>'' @ nl
       @ ''    <type>_nfs._tcp</type>'' @ nl
       @ host_line @ ''    <port>'' @ show_word NFS_PORT @ ''</port>'' @ nl
       @ ''    <txt-record>path='' @ path_esc @ ''</txt-record>'' @ nl
       @ ''  </service>'' @ nl
       @ ''</service-group>'' @ nl)"

definition avahi_service_name :: "(string \<Rightarrow> bool) \<Rightarrow> Share \<Rightarrow> string" where
  "avahi_service_name alnum share = NAVAHI_PREFIX @ sanitize_name alnum (name share) @ ''.service''"

definition stage_avahi :: "(string \<Rightarrow> bool) \<Rightarrow> string \<Rightarrow> NfsKlldapConfig \<Rightarrow> (string \<times> string) list" where
  "stage_avahi alnum host_line cfg =
     map (\<lambda>s. (avahi_service_name alnum s, avahi_service_xml host_line s))
       (filter (share_navahi_effective cfg) (shares cfg))"

definition is_navahi_name :: "string \<Rightarrow> bool" where
  "is_navahi_name n = (starts_with n NAVAHI_PREFIX \<and> ends_with n ''.service'')"

text \<open>The directory may not exist (\<^const>\<open>None\<close>); it is created only while the toggle is on.\<close>

definition write_avahi_services ::
  "(string \<Rightarrow> bool) \<Rightarrow> (string \<Rightarrow> bool) \<Rightarrow> string \<Rightarrow> NfsKlldapConfig \<Rightarrow> string \<Rightarrow> dir option
     \<Rightarrow> (generation_error, unit) result \<times> dir option" where
  "write_avahi_services alnum io sys_host cfg r d =
     (if \<not> navahi_discovery cfg \<and> d = None then (Ok (), None)
      else let host_line = avahi_host_line (preferred (effective_nfs_host_identity sys_host cfg r))
           in case sync_dir io is_navahi_name (stage_avahi alnum host_line cfg) (unwrap_or d Map.empty) of
                (res, d') \<Rightarrow> (res, Some d'))"

section \<open>The whole of generation\<close>

record artifacts =
  sssd_art :: "string option"
  krb5_art :: "string option"
  idmap_art :: "string option"
  nfs_art :: "string option"
  exports_art :: dir
  ganesha_art :: "string option"
  avahi_art :: "dir option"

text \<open>Everything the outside decides: Unicode, writes, mount table, probes, environment, host name.\<close>

record gen_world =
  w_alnum :: "string \<Rightarrow> bool"
  w_io :: "string \<Rightarrow> bool"
  w_mountinfo :: "string option"
  w_probe :: "string \<Rightarrow> path_probe"
  w_env :: env
  w_host :: string

definition put_file :: "gen_world \<Rightarrow> string \<Rightarrow> (generation_error, unit) result" where
  "put_file w path = fail_if (\<not> w_io w path) (IoFailed path)"

text \<open>
  The realm of a validated configuration is present (\<^verbatim>\<open>effective_realm\<close> panics otherwise), so it is
  an argument. Each step runs only if the previous one succeeded; its effect stays when a later
  step fails.
\<close>

definition generate_all ::
  "gen_world \<Rightarrow> NfsKlldapConfig \<Rightarrow> string \<Rightarrow> GenerationPaths \<Rightarrow> artifacts \<Rightarrow> (generation_error, unit) result \<times> artifacts" where
  "generate_all w cfg r paths a0 =
     (let domain = to_ascii_uppercase r in
      case put_file w (sssd_conf paths) of Inl e \<Rightarrow> (Err e, a0) | Inr _ \<Rightarrow>
      let a1 = a0\<lparr>sssd_art := Some (sssd_conf_text cfg r)\<rparr> in
      case put_file w (krb5_conf paths) of Inl e \<Rightarrow> (Err e, a1) | Inr _ \<Rightarrow>
      let a2 = a1\<lparr>krb5_art := Some (krb5_conf_text cfg r)\<rparr> in
      case put_file w (idmap_conf paths) of Inl e \<Rightarrow> (Err e, a2) | Inr _ \<Rightarrow>
      let a3 = a2\<lparr>idmap_art := Some (idmap_conf_text domain)\<rparr> in
      case put_file w (nfs_conf paths) of Inl e \<Rightarrow> (Err e, a3) | Inr _ \<Rightarrow>
      let a4 = a3\<lparr>nfs_art := Some nfs_conf_text\<rparr> in
      case write_export_fragments (w_alnum w) (w_io w) (w_mountinfo w) (w_probe w) cfg (exports_art a4) of
        (Inl e, ex) \<Rightarrow> (Err e, a4\<lparr>exports_art := ex\<rparr>)
      | (Inr _, ex) \<Rightarrow>
      let a5 = a4\<lparr>exports_art := ex\<rparr> in
      case put_file w (ganesha_conf paths) of Inl e \<Rightarrow> (Err e, a5) | Inr _ \<Rightarrow>
      let a6 = a5\<lparr>ganesha_art := Some (ganesha_main_text (w_alnum w) (w_env w) cfg domain (exports_dir paths))\<rparr> in
      case write_avahi_services (w_alnum w) (w_io w) (w_host w) cfg r (avahi_art a6) of
        (res, av) \<Rightarrow> (res, a6\<lparr>avahi_art := av\<rparr>))"

section \<open>Laws of the XML escaping\<close>

text \<open>The reader of character data: one of the five predefined entities, or a plain character.\<close>

function unxml :: "string \<Rightarrow> string option" where
  "unxml s =
     (case s of
        [] \<Rightarrow> Some []
      | c # t \<Rightarrow>
          if c = CHR ''&'' then
            (case strip_prefix ''amp;'' t of Some r \<Rightarrow> map_option (Cons (CHR ''&'')) (unxml r) | None \<Rightarrow>
             case strip_prefix ''lt;'' t of Some r \<Rightarrow> map_option (Cons (CHR ''<'')) (unxml r) | None \<Rightarrow>
             case strip_prefix ''gt;'' t of Some r \<Rightarrow> map_option (Cons (CHR ''>'')) (unxml r) | None \<Rightarrow>
             case strip_prefix ''quot;'' t of Some r \<Rightarrow> map_option (Cons (CHR 0x22)) (unxml r) | None \<Rightarrow>
             case strip_prefix ''apos;'' t of Some r \<Rightarrow> map_option (Cons (CHR 0x27)) (unxml r) | None \<Rightarrow> None)
          else if c \<in> {CHR ''<'', CHR ''>'', CHR 0x22, CHR 0x27} then None
          else map_option (Cons c) (unxml t))"
  by pat_completeness auto
termination
  by (relation "measure length") (auto simp: strip_prefix_Some_iff)

declare unxml.simps [simp del]

lemma unxml_step: "unxml (xml_escape_char c @ s) = map_option (Cons c) (unxml s)"
  by (simp add: xml_escape_char_def unxml.simps [of "_ # _"] strip_prefix_def)

interpretation xml: escaping xml_escape_char unxml "\<lambda>_. True"
  by unfold_locales (simp_all add: unxml_step unxml.simps [of "[]"])

text \<open>Escaped text contains no markup delimiter and no quote, and reading it back as XML character
  data gives the original text: a share name cannot break or forge an advertisement.\<close>

theorem xml_escape_safe_roundtrip:
  "set (xml_escape s) \<inter> {CHR ''<'', CHR ''>'', CHR 0x22, CHR 0x27} = {} \<and> unxml (xml_escape s) = Some s"
proof
  have "set (xml_escape_char c) \<inter> {CHR ''<'', CHR ''>'', CHR 0x22, CHR 0x27} = {}" for c
    by (simp add: xml_escape_char_def)
  then show "set (xml_escape s) \<inter> {CHR ''<'', CHR ''>'', CHR 0x22, CHR 0x27} = {}"
    by (auto simp: xml_escape_def)
  show "unxml (xml_escape s) = Some s"
    unfolding xml_escape_def by (rule xml.unesc_concat) (simp add: list_all_iff)
qed

section \<open>Laws of the Avahi directory\<close>

lemma avahi_service_name_managed: "is_navahi_name (avahi_service_name alnum sh)"
  by (simp add: is_navahi_name_def avahi_service_name_def suffix_def)

interpretation navahi_dir: synced_dir is_navahi_name "\<lambda>fs. \<exists>alnum h cfg. fs = stage_avahi alnum h cfg"
  by unfold_locales (auto simp: stage_avahi_def avahi_service_name_managed)

text \<open>Switching discovery off withdraws every advertisement: after a successful run the directory
  holds none of the generator's service files and all other files unchanged, and a directory that
  did not exist is not created.\<close>

theorem navahi_off_withdraws_adverts:
  assumes "\<not> navahi_discovery cfg" and "write_avahi_services alnum io sys_host cfg r d = (Ok (), d')"
  shows "(d = None \<longrightarrow> d' = None) \<and>
    (\<forall>e. d = Some e \<longrightarrow> d' = Some (\<lambda>n. if is_navahi_name n then None else e n))"
proof (cases d)
  case None
  then show ?thesis using assms by (simp add: write_avahi_services_def)
next
  case (Some e)
  define h where "h = avahi_host_line (preferred (effective_nfs_host_identity sys_host cfg r))"
  have none: "stage_avahi alnum h cfg = []"
    using assms(1) by (simp add: stage_avahi_def share_navahi_effective_def filter_empty_conv)
  from assms Some obtain f where f: "sync_dir io is_navahi_name (stage_avahi alnum h cfg) e = (Ok (), f)" "d' = Some f"
    by (auto simp: write_avahi_services_def h_def Let_def split: prod.splits)
  have "f n = (if is_navahi_name n then map_of (stage_avahi alnum h cfg) n else e n)" for n
  proof (rule navahi_dir.sync_exact [OF f(1)])
    show "\<exists>alnum' h' cfg'. stage_avahi alnum h cfg = stage_avahi alnum' h' cfg'" by blast
    show "distinct (map fst (stage_avahi alnum h cfg))" by (simp add: none)
  qed
  with none have "f = (\<lambda>n. if is_navahi_name n then None else e n)" by auto
  with f Some show ?thesis by simp
qed

theorem navahi_off_withdraws_adverts_witness:
  "\<exists>d'. write_avahi_services (\<lambda>_. False) (\<lambda>_. True) ''nas'' sample_config ''HOME.ARPA''
        (Some [''nfs-klldap-media.service'' \<mapsto> ''x'', ''ssh.service'' \<mapsto> ''y'']) = (Ok (), Some d')
      \<and> d' ''nfs-klldap-media.service'' = None \<and> d' ''ssh.service'' = Some ''y''"
proof -
  define e where "e = [''nfs-klldap-media.service'' \<mapsto> ''x'', ''ssh.service'' \<mapsto> ''y'']"
  define w where "w = write_avahi_services (\<lambda>_. False) (\<lambda>_. True) ''nas'' sample_config ''HOME.ARPA'' (Some e)"
  have off: "\<not> navahi_discovery sample_config" by code_simp
  have "fst w = Ok ()"
    by (simp add: w_def write_avahi_services_def Let_def sync_all_writes split: prod.splits)
      (metis fst_conv sync_all_writes)
  then obtain d' where w: "w = (Ok (), d')" by (metis prod.collapse)
  from navahi_off_withdraws_adverts [OF off w [unfolded w_def]]
  have d': "d' = Some (\<lambda>n. if is_navahi_name n then None else e n)" by simp
  have "is_navahi_name ''nfs-klldap-media.service''" "\<not> is_navahi_name ''ssh.service''" by code_simp+
  moreover define f where "f = (\<lambda>n. if is_navahi_name n then None else e n)"
  ultimately have "f ''nfs-klldap-media.service'' = None" "f ''ssh.service'' = Some ''y''"
    by (simp_all add: e_def)
  with w show ?thesis
    unfolding d' w_def f_def [symmetric] e_def [symmetric] by (intro exI [of _ f] conjI)
qed

text \<open>Two share names that differ only in a replaced character share one advertisement file.\<close>

lemma avahi_name_collision:
  "avahi_service_name (\<lambda>_. False) (default_share\<lparr>name := ''a b''\<rparr>) = avahi_service_name (\<lambda>_. False) (default_share\<lparr>name := ''a-b''\<rparr>)"
  by code_simp

text \<open>Generated file names stay inside their directory: whatever the share is called, the names of
  its export fragment and of its advertisement contain no path separator.\<close>

theorem generated_names_have_no_separator:
  "CHR ''/'' \<notin> set (fragment_basename alnum i (name sh)) \<and> CHR ''/'' \<notin> set (avahi_service_name alnum sh)"
proof -
  have "CHR ''/'' \<notin> set (sanitize_name alnum (name sh))"
    by (rule sanitize_name_plain) (simp_all add: ascii_slash_dot)
  moreover have "CHR ''/'' \<notin> set (show_nat n)" for n
    using show_nat_digits [of n] by (auto simp: list_all_iff is_ascii_digit_def)
  ultimately show ?thesis
    by (simp add: fragment_basename_def avahi_service_name_def show_02_def NAVAHI_PREFIX_def)
qed

section \<open>Laws of generation\<close>

lemma written_fragment_present:
  assumes "write_export_fragments alnum io mi pr cfg d = (Ok (), d')" and "i < length (shares cfg)"
  shows "\<exists>b. stage_share alnum mi pr cfg (i, shares cfg ! i) = Ok (fragment_basename alnum i (name (shares cfg ! i)), b)
    \<and> d' (fragment_basename alnum i (name (shares cfg ! i))) = Some b"
proof -
  from assms(1) obtain fs where fs: "try_map (stage_share alnum mi pr cfg) (List.enumerate 0 (shares cfg)) = Inr fs"
    and sync: "sync_dir io is_fragment_name fs d = (Ok (), d')"
    by (auto simp: write_export_fragments_def split: sum.splits)
  from sync obtain e where w: "write_staged io fs d = (None, e)" and d': "d' = prune_dir is_fragment_name (set (map fst fs)) e"
    by (auto simp: sync_dir_def split: prod.splits option.splits)
  have dist: "distinct (map fst fs)"
    unfolding staged_names [OF fs] by (rule enumerate_distinct) (rule fragment_basename_index)
  have l2: "list_all2 (\<lambda>x y. stage_share alnum mi pr cfg x = Inr y) (List.enumerate 0 (shares cfg)) fs"
    using fs by (simp add: try_map_Ok_iff)
  have "(i, shares cfg ! i) \<in> set (List.enumerate 0 (shares cfg))"
    using assms(2) by (metis add_0 in_set_conv_nth length_enumerate nth_enumerate_eq)
  from list_all2_target [OF l2 this] obtain f where f: "f \<in> set fs" "stage_share alnum mi pr cfg (i, shares cfg ! i) = Inr f"
    by blast
  then have n: "fst f = fragment_basename alnum i (name (shares cfg ! i))" by (simp add: stage_share_name)
  have "map_of fs (fst f) = Some (snd f)" using dist f(1) by simp
  then have "d' (fst f) = Some (snd f)"
    using fragments_dir.written_content [OF w dist, of "fst f"] f(1) by (simp add: d' prune_dir_def)
  with f(2) n show ?thesis by (metis prod.collapse)
qed


definition empty_artifacts :: artifacts where
  "empty_artifacts = \<lparr>sssd_art = None, krb5_art = None, idmap_art = None, nfs_art = None,
     exports_art = Map.empty, ganesha_art = None, avahi_art = None\<rparr>"

definition sample_world :: gen_world where
  "sample_world = \<lparr>w_alnum = (\<lambda>_. False), w_io = (\<lambda>_. True), w_mountinfo = None,
     w_probe = (\<lambda>_. \<lparr>write_probe = None, read_sniff = None\<rparr>), w_env = (\<lambda>_. None), w_host = ''nas''\<rparr>"


end
