(* ===== verification/Startup.thy ===== *)
theory Startup
  imports Generate_Conf
begin

text \<open>
  The first-run step machine of \<^verbatim>\<open>nfs-klldap-config/src/startup.rs\<close>: the LDAP reachability and
  bind probes, the two gates (\<^verbatim>\<open>compute_wizard_step\<close> on the file alone, \<^verbatim>\<open>compute_startup_step\<close>
  with live probes), the pre-configured bypass and the decision of one supervisor tick; with the
  loading functions of \<^verbatim>\<open>validate.rs\<close>, the persistence check of \<^verbatim>\<open>persist.rs\<close> and the mode and
  name resolution of \<^verbatim>\<open>hostname.rs\<close>.

  What the operating system answers is collected in the record \<open>probes\<close>: the parsed
  configuration file, the device numbers behind the persistence check, the outcome of the
  external commands as functions of the arguments the code passes to them.
\<close>

section \<open>Loading\<close>

datatype config_error = ConfigIo | ConfigParse string string | ConfigValidation validation_error

text \<open>The strict load validates the parsed file, the lenient one only applies the environment.\<close>

definition load ::
  "env \<Rightarrow> (config_error, NfsKlldapConfig) result \<Rightarrow> (config_error, NfsKlldapConfig) result" where
  "load env parsed =
     and_then parsed (\<lambda>cfg. case validate_and_derive env cfg of
       Inl e \<Rightarrow> Err (ConfigValidation e) | Inr cfg' \<Rightarrow> Ok cfg')"

definition load_lenient ::
  "env \<Rightarrow> (config_error, NfsKlldapConfig) result \<Rightarrow> (config_error, NfsKlldapConfig) result" where
  "load_lenient env parsed = and_then parsed (\<lambda>cfg. Ok (apply_core_env_overrides env cfg))"

section \<open>Steps\<close>

datatype StartupStep = WaitForPersistentVolume | SetLdapUri | AddBindCredentials | Ready

fun wizard_index :: "StartupStep \<Rightarrow> 8 word option" where
  "wizard_index WaitForPersistentVolume = Some 1"
| "wizard_index SetLdapUri = Some 2"
| "wizard_index AddBindCredentials = Some 3"
| "wizard_index Ready = None"

fun label :: "StartupStep \<Rightarrow> string" where
  "label WaitForPersistentVolume = ''Persistent config volume''"
| "label SetLdapUri = ''LDAP server (ldap_uri)''"
| "label AddBindCredentials = ''LLDAP bind credentials''"
| "label Ready = ''Ready''"

definition is_step_complete :: "StartupStep \<Rightarrow> StartupStep \<Rightarrow> bool" where
  "is_step_complete step current =
     (if step = current then False
      else if current = Ready then True
      else (step, current) \<in> {(WaitForPersistentVolume, SetLdapUri),
                              (WaitForPersistentVolume, AddBindCredentials),
                              (SetLdapUri, AddBindCredentials)})"

section \<open>External commands\<close>

record cmd_output =
  succeeded :: bool
  stdout :: string
  stderr :: string

datatype LdapReachability = Reachable | DnsFailure string | Unreachable string

definition is_reachable :: "LdapReachability \<Rightarrow> bool" where
  "is_reachable r = (r = Reachable)"

fun user_message :: "LdapReachability \<Rightarrow> string" where
  "user_message Reachable = ''LDAP server is reachable (DNS + TCP port open).''"
| "user_message (DnsFailure detail) = ''DNS lookup failed: '' @ detail"
| "user_message (Unreachable detail) = ''Port unreachable: '' @ detail"

definition ldap_uri_port :: "string \<Rightarrow> 16 word" where
  "ldap_uri_port uri =
     unwrap_or (parse_u16 (rev (dropWhile (\<lambda>c. \<not> is_ascii_digit c) (rev (last (split_on CHR '':'' uri)))))) 636"

text \<open>The call of \<^verbatim>\<open>ldapsearch\<close>: arguments, and the variable that is set for it.\<close>

record ldapsearch_call =
  call_args :: "string list"
  ldaptls_reqcert :: "string option"

record probes =
  pr_env :: env
  conf_dev :: "nat option"
  root_dev :: "nat option"
  can_create :: bool
  conf_parsed :: "(config_error, NfsKlldapConfig) result"
  getent_hosts :: "string \<Rightarrow> cmd_output option"
  nc_connect :: "string \<Rightarrow> 16 word \<Rightarrow> (string, cmd_output) result"
  run_ldapsearch :: "ldapsearch_call \<Rightarrow> (string, cmd_output) result"
  wizard_marker :: bool
  keytab_file :: bool

text \<open>A path that does not exist or cannot be examined has no device number.\<close>

definition is_persistent_config :: "probes \<Rightarrow> bool" where
  "is_persistent_config p =
     (case (conf_dev p, root_dev p) of (Some d, Some r) \<Rightarrow> d \<noteq> r | _ \<Rightarrow> False)"

definition check_persistent_writable :: "probes \<Rightarrow> bool" where
  "check_persistent_writable p =
     (if pr_env p ''NFS_KLLDAP_TEST_PERSISTENT'' = Some ''1'' then can_create p
      else is_persistent_config p \<and> can_create p)"

definition check_ldap_reachability :: "probes \<Rightarrow> string \<Rightarrow> string \<Rightarrow> LdapReachability" where
  "check_ldap_reachability p h uri =
     (let connect =
        (case nc_connect p h (ldap_uri_port uri) of
           Inl e \<Rightarrow> Unreachable (''Failed to execute timeout/nc: '' @ e)
         | Inr out \<Rightarrow>
             if succeeded out then Reachable
             else Unreachable (let combined = trim (stdout out @ stderr out) in
                    if combined = [] then ''Connection failed with no specific error from nc'' else combined))
      in case getent_hosts p h of
           Some out \<Rightarrow>
             if \<not> succeeded out then
               DnsFailure (let msg = trim (stderr out) in if msg = [] then ''Host not found in DNS'' else msg)
             else connect
         | None \<Rightarrow> connect)"

datatype bind_error =
    CannotExecute string
  | InvalidCredentials string
  | CannotContact string
  | BindFailed string

definition bind_probe_attrs :: "NfsKlldapConfig \<Rightarrow> string list" where
  "bind_probe_attrs cfg =
     (let m = resolve_posix_attribute_mapping (posix_mapping_input (sssd cfg));
          base = [user_name m, user_uid_number m, user_gid_number m, user_home_directory m, user_shell m, ''objectClass''];
          attrs = (case opt_filter (\<lambda>v. \<not> is_blank v) (sssd_user_fullname (sssd cfg)) of
                     Some f \<Rightarrow> if list_ex (\<lambda>a. eq_ignore_ascii_case a (trim f)) base then base else base @ [trim f]
                   | None \<Rightarrow> base)
      in rev (remdups (rev attrs)))"

definition bind_probe_call :: "NfsKlldapConfig \<Rightarrow> ldapsearch_call" where
  "bind_probe_call cfg =
     (let dn = ldap_default_bind_dn (sssd cfg) in
      \<lparr>call_args = [''10'', ''ldapsearch'', ''-H'', ldap_uri cfg, ''-D'', dn, ''-w'', ldap_default_authtok (sssd cfg),
          ''-s'', ''base'', ''-b'', dn, ''-o'', ''nettimeout=5''] @ bind_probe_attrs cfg,
       ldaptls_reqcert = (if starts_with (ldap_uri cfg) ''ldaps://'' then Some ''never'' else None)\<rparr>)"

definition check_ldap_bind :: "probes \<Rightarrow> NfsKlldapConfig \<Rightarrow> (bind_error, unit) result" where
  "check_ldap_bind p cfg =
     (case run_ldapsearch p (bind_probe_call cfg) of
        Inl e \<Rightarrow> Err (CannotExecute e)
      | Inr out \<Rightarrow>
          if succeeded out then Ok ()
          else let raw = (if trim (stderr out) \<noteq> [] then trim (stderr out) else trim (stdout out)) in
            if contains_str raw ''Invalid credentials'' \<or> contains_str raw ''(49)'' then Err (InvalidCredentials raw)
            else if contains_str raw (''Can'' @ [CHR 0x27] @ ''t contact LDAP server'') \<or> contains_str raw ''(-1)''
              \<or> contains_str raw ''TLS'' \<or> contains_str raw ''certificate'' then Err (CannotContact raw)
            else Err (BindFailed raw))"

section \<open>The gates\<close>

definition ldap_uri_is_structurally_valid :: "string \<Rightarrow> bool" where
  "ldap_uri_is_structurally_valid uri0 =
     (let uri = trim uri0 in
      if uri = [] \<or> (\<not> starts_with uri ''ldap://'' \<and> \<not> starts_with uri ''ldaps://'') then False
      else let h = extract_host_from_uri uri in h \<noteq> [] \<and> \<not> host_is_ip h)"

definition bind_fields_blank :: "NfsKlldapConfig \<Rightarrow> bool" where
  "bind_fields_blank cfg = (is_blank (ldap_default_bind_dn (sssd cfg)) \<or> is_blank (ldap_default_authtok (sssd cfg)))"

definition compute_wizard_step :: "probes \<Rightarrow> StartupStep" where
  "compute_wizard_step p =
     (if \<not> check_persistent_writable p then WaitForPersistentVolume
      else case load_lenient (pr_env p) (conf_parsed p) of
        Inl _ \<Rightarrow> SetLdapUri
      | Inr cfg \<Rightarrow>
          if \<not> ldap_uri_is_structurally_valid (ldap_uri cfg) then SetLdapUri
          else if bind_fields_blank cfg then AddBindCredentials
          else if wizard_marker p then Ready
          else AddBindCredentials)"

definition compute_startup_step :: "probes \<Rightarrow> StartupStep" where
  "compute_startup_step p =
     (if \<not> check_persistent_writable p then WaitForPersistentVolume
      else case load (pr_env p) (conf_parsed p) of
        Inl _ \<Rightarrow> SetLdapUri
      | Inr cfg \<Rightarrow>
          if is_blank (ldap_uri cfg) then SetLdapUri
          else if \<not> is_reachable (check_ldap_reachability p (extract_host_from_uri (ldap_uri cfg)) (ldap_uri cfg)) then SetLdapUri
          else if bind_fields_blank cfg then AddBindCredentials
          else if isl (check_ldap_bind p cfg) then AddBindCredentials
          else Ready)"

definition config_has_required_startup_fields :: "NfsKlldapConfig \<Rightarrow> bool" where
  "config_has_required_startup_fields cfg =
     (if \<not> ldap_uri_is_structurally_valid (ldap_uri cfg) then False
      else if bind_fields_blank cfg then False else True)"

definition is_preconfigured_deployment :: "probes \<Rightarrow> bool" where
  "is_preconfigured_deployment p =
     (if \<not> keytab_file p then False
      else if \<not> check_persistent_writable p then False
      else case load (pr_env p) (conf_parsed p) of
        Inl _ \<Rightarrow> False | Inr cfg \<Rightarrow> config_has_required_startup_fields cfg)"

definition effective_startup_step :: "probes \<Rightarrow> StartupStep" where
  "effective_startup_step p = (if is_preconfigured_deployment p then Ready else compute_startup_step p)"

section \<open>One tick of the supervisor\<close>

definition should_bring_up_services :: "bool \<Rightarrow> bool \<Rightarrow> StartupStep \<Rightarrow> bool" where
  "should_bring_up_services services_started wizard_complete step =
     (\<not> services_started \<and> wizard_complete \<and> step = Ready)"

datatype SupervisorLoopAction = ProcessSighup | ProcessFullRecycle | BringUpServices | Idle

definition supervisor_loop_tick ::
  "bool \<Rightarrow> bool \<Rightarrow> bool \<Rightarrow> bool \<Rightarrow> StartupStep \<Rightarrow> SupervisorLoopAction \<times> bool" where
  "supervisor_loop_tick services_started sighup_pending full_recycle_pending wizard_complete startup_step =
     (if full_recycle_pending then
        if should_bring_up_services services_started wizard_complete startup_step then (BringUpServices, True)
        else (ProcessFullRecycle, True)
      else if sighup_pending then (ProcessSighup, True)
      else if should_bring_up_services services_started wizard_complete startup_step then (BringUpServices, True)
      else (Idle, services_started))"

section \<open>The two-tier host name\<close>

datatype HostnameSource = Command | ProcSysKernel

record HostnameObservation =
  obs_value :: string
  obs_source :: HostnameSource

record ConsistentHostname =
  confirmed_hostname :: string
  primary_obs :: HostnameObservation
  secondary_obs :: HostnameObservation

text \<open>The reason texts of \<^verbatim>\<open>HostnameInconsistency\<close>, one constructor each.\<close>

datatype hostname_reason =
    BothEmpty
  | SourcesDisagree
  | HostnameCommandFailed
  | HostnameCommandNotRun string
  | KernelHostnameUnreadable string

record HostnameInconsistency =
  hi_primary :: "HostnameObservation option"
  hi_secondary :: "HostnameObservation option"
  hi_reason :: hostname_reason
  detected_docker_default :: bool

definition normalize_for_comparison :: "string \<Rightarrow> string" where
  "normalize_for_comparison h = trim_char CHR ''.'' (trim h)"

definition confirm_consistent_hostname :: "string \<Rightarrow> string \<Rightarrow> (HostnameInconsistency, string) result" where
  "confirm_consistent_hostname primary_raw secondary_raw =
     (let primary = normalize_for_comparison primary_raw;
          secondary = normalize_for_comparison secondary_raw;
          po = \<lparr>obs_value = trim primary_raw, obs_source = Command\<rparr>;
          so = \<lparr>obs_value = trim secondary_raw, obs_source = ProcSysKernel\<rparr>
      in if primary = [] \<and> secondary = [] then
           Err \<lparr>hi_primary = Some po, hi_secondary = Some so, hi_reason = BothEmpty, detected_docker_default = False\<rparr>
         else if primary \<noteq> secondary then
           Err \<lparr>hi_primary = Some po, hi_secondary = Some so, hi_reason = SourcesDisagree,
                detected_docker_default = (looks_like_docker_default_hostname primary
                                         \<or> looks_like_docker_default_hostname secondary)\<rparr>
         else Ok primary)"

text \<open>The outcome of the command \<^verbatim>\<open>hostname\<close> and of reading the kernel's host name are arguments.\<close>

definition get_consistent_hostname ::
  "(string, cmd_output) result \<Rightarrow> (string, string) result \<Rightarrow> (HostnameInconsistency, ConsistentHostname) result" where
  "get_consistent_hostname hostname_cmd kernel_name =
     and_then (case hostname_cmd of
         Inr out \<Rightarrow>
           if \<not> succeeded out \<and> is_blank (stdout out) then
             Err \<lparr>hi_primary = None, hi_secondary = None, hi_reason = HostnameCommandFailed, detected_docker_default = False\<rparr>
           else Ok (trim (stdout out))
       | Inl e \<Rightarrow>
           Err \<lparr>hi_primary = None, hi_secondary = None, hi_reason = HostnameCommandNotRun e, detected_docker_default = False\<rparr>) (\<lambda>primary.
     and_then (case kernel_name of
         Inr s \<Rightarrow> Ok (trim s)
       | Inl e \<Rightarrow>
           Err \<lparr>hi_primary = Some \<lparr>obs_value = primary, obs_source = Command\<rparr>, hi_secondary = None,
                hi_reason = KernelHostnameUnreadable e, detected_docker_default = False\<rparr>) (\<lambda>secondary.
     and_then (confirm_consistent_hostname primary secondary) (\<lambda>confirmed.
     Ok \<lparr>confirmed_hostname = confirmed,
         primary_obs = \<lparr>obs_value = primary, obs_source = Command\<rparr>,
         secondary_obs = \<lparr>obs_value = secondary, obs_source = ProcSysKernel\<rparr>\<rparr>)))"

section \<open>Mode and names\<close>

definition resolve_host_nfs_mode :: "env \<Rightarrow> (config_error, NfsKlldapConfig) result \<Rightarrow> bool" where
  "resolve_host_nfs_mode env parsed =
     (case host_nfs_from_env env of
        Some val \<Rightarrow> val
      | None \<Rightarrow> (case load env parsed of Inr cfg \<Rightarrow> is_host_nfs cfg | Inl _ \<Rightarrow> False))"

definition host_nfs_active :: "env \<Rightarrow> NfsKlldapConfig \<Rightarrow> bool" where
  "host_nfs_active env cfg = unwrap_or (host_nfs_from_env env) (is_host_nfs cfg)"

text \<open>The kernel host name is the trimmed contents of \<^verbatim>\<open>/proc/sys/kernel/hostname\<close>, if it can be read.\<close>

definition runtime_hostname :: "env \<Rightarrow> string option \<Rightarrow> NfsKlldapConfig option \<Rightarrow> string" where
  "runtime_hostname env kernel_name cfg =
     (case opt_filter (\<lambda>h. \<not> is_blank h) (Option.bind cfg (\<lambda>c. hostname (server c))) of
        Some h \<Rightarrow> trim h
      | None \<Rightarrow> (case opt_filter (\<lambda>h. \<not> is_blank h) (env ''NFS_KLLDAP_SERVER_HOSTNAME'') of
          Some h \<Rightarrow> trim h
        | None \<Rightarrow> (case opt_filter (\<lambda>h. h \<noteq> []) kernel_name of Some h \<Rightarrow> h | None \<Rightarrow> ''localhost'')))"

definition realm_of_krb5_line :: "string \<Rightarrow> string option" where
  "realm_of_krb5_line line =
     (case split_once CHR ''='' (trim line) of
        Some (key, val) \<Rightarrow> if trim key = ''default_realm'' \<and> trim val \<noteq> [] then Some (to_uppercase (trim val)) else None
      | None \<Rightarrow> None)"

definition first_some :: "('a \<Rightarrow> 'b option) \<Rightarrow> 'a list \<Rightarrow> 'b option" where
  "first_some f xs = (case List.map_filter f xs of [] \<Rightarrow> None | y # _ \<Rightarrow> Some y)"

definition runtime_realm :: "env \<Rightarrow> string option \<Rightarrow> NfsKlldapConfig option \<Rightarrow> string" where
  "runtime_realm env krb5_conf_file cfg =
     (case opt_filter (\<lambda>r. \<not> is_blank r \<and> \<not> eq_ignore_ascii_case (trim r) ''example.com'') (Option.bind cfg effective_realm) of
        Some r \<Rightarrow> to_uppercase r
      | None \<Rightarrow> (case opt_filter (\<lambda>r. \<not> is_blank r) (env ''NFS_KLLDAP_KERBEROS_REALM'') of
          Some r \<Rightarrow> to_uppercase (trim r)
        | None \<Rightarrow> unwrap_or (Option.bind krb5_conf_file (\<lambda>c. first_some realm_of_krb5_line (lines c))) ''EXAMPLE.COM''))"

definition runtime_server_variants :: "env \<Rightarrow> string option \<Rightarrow> string option \<Rightarrow> NfsKlldapConfig option \<Rightarrow> string list" where
  "runtime_server_variants env kernel_name krb5_conf_file cfg =
     (let vs = nfs_keytab_host_variants (runtime_hostname env kernel_name cfg) (runtime_realm env krb5_conf_file cfg)
      in if vs = [] then [''localhost''] else vs)"

text \<open>The tolerant scan of the raw file for a realm to display.\<close>

definition realm_of_uri_line :: "string \<Rightarrow> string option" where
  "realm_of_uri_line line =
     Option.bind (strip_prefix ''ldap_uri'' (trim line)) (\<lambda>rest.
     Option.bind (split_once CHR ''='' rest) (\<lambda>(_, v).
       let quote = (\<lambda>c. c = CHR 0x22 \<or> c = CHR 0x27);
           val = rev (dropWhile quote (rev (dropWhile quote (trim v)))) in
       if val \<noteq> [] \<and> (starts_with val ''ldap://'' \<or> starts_with val ''ldaps://'') then
         opt_filter (\<lambda>r. \<not> eq_ignore_ascii_case r ''EXAMPLE.COM'' \<and> \<not> eq_ignore_ascii_case r ''EXAMPLE'')
           (derive_realm_from_uri val)
       else None))"

definition attempt_realm_from_config :: "string option \<Rightarrow> string option" where
  "attempt_realm_from_config contents = Option.bind contents (\<lambda>c. first_some realm_of_uri_line (lines c))"

section \<open>Laws of the gates\<close>

lemma last_split_on_append: "c \<notin> set b \<Longrightarrow> last (split_on c (a @ c # b)) = b"
proof (induction a)
  case Nil
  then show ?case by (simp add: split_on_single)
next
  case (Cons x a)
  have "split_on c (a @ c # b) \<noteq> [split_on c (a @ c # b) ! 0]"
  proof
    assume "split_on c (a @ c # b) = [split_on c (a @ c # b) ! 0]"
    then have "join [c] (split_on c (a @ c # b)) = split_on c (a @ c # b) ! 0" by (metis join.simps(2))
    then have "split_on c (a @ c # b) ! 0 = a @ c # b" by simp
    moreover have "split_on c (a @ c # b) ! 0 \<in> set (split_on c (a @ c # b))" by (simp add: nth_mem)
    ultimately show False using split_on_no_sep by (metis in_set_conv_decomp)
  qed
  with Cons show ?case by (auto split: list.split)
qed

lemma parse_u16_show: "parse_u16 (show_word p) = Some p"
proof -
  have "unat p < 2 ^ LENGTH(16)" by (rule unsigned_less)
  then have "unat p \<le> 2 ^ 16 - 1" by simp
  then show ?thesis by (simp add: parse_u16_def show_word_def parse_show_nat)
qed

lemma dropWhile_tail: "list_all P t \<Longrightarrow> dropWhile P (t @ s) = dropWhile P s"
  by (induction t) auto

text \<open>The port probed for an LDAP URI with an explicit port is that port, whatever precedes it
  and with any digit-free, colon-free tail such as a slash.\<close>

theorem ldap_uri_port_explicit:
  assumes "list_all (\<lambda>c. \<not> is_ascii_digit c \<and> c \<noteq> CHR '':'') tail"
  shows "ldap_uri_port (before @ '':'' @ show_word p @ tail) = p"
proof -
  have digits: "list_all is_ascii_digit (show_word p)" by (simp add: show_word_def show_nat_digits)
  have "CHR '':'' \<notin> set (show_word p @ tail)"
    using assms digits_no_colon [of "unat p"] by (auto simp: list_all_iff show_word_def)
  then have l: "last (split_on CHR '':'' (before @ '':'' @ show_word p @ tail)) = show_word p @ tail"
    by (simp add: last_split_on_append)
  have "list_all (\<lambda>c. \<not> is_ascii_digit c) (rev tail)" using assms by (auto simp: list_all_iff)
  then have "dropWhile (\<lambda>c. \<not> is_ascii_digit c) (rev tail @ rev (show_word p)) = rev (show_word p)"
    using digits show_nat_not_Nil [of "unat p"]
    by (simp add: dropWhile_tail) (cases "rev (show_word p)"; auto simp: show_word_def list_all_iff)
  then show ?thesis unfolding ldap_uri_port_def l by (simp add: parse_u16_show)
qed

theorem ldap_uri_port_explicit_witness: "ldap_uri_port ''ldaps://lldap.home.arpa:6360/'' = 6360"
proof -
  have t: "list_all (\<lambda>c. \<not> is_ascii_digit c \<and> c \<noteq> CHR '':'') ''/''" by code_simp
  have "show_word (6360 :: 16 word) = ''6360''" by (simp add: show_word_def show_nat.simps char_of_def bit_Suc_0_iff)
  then show ?thesis using ldap_uri_port_explicit [OF t, of "''ldaps://lldap.home.arpa''" 6360] by simp
qed

lemma load_Ok_iff:
  "load env parsed = Ok cfg' \<longleftrightarrow> (\<exists>cfg. parsed = Ok cfg \<and> validate_and_derive env cfg = Ok cfg')"
proof (cases parsed)
  case (Inr cfg)
  then show ?thesis by (cases "validate_and_derive env cfg") (simp_all add: load_def)
qed (simp add: load_def)

lemma loaded_fields:
  assumes "validate_and_derive env cfg = Ok cfg'"
  shows "ldap_uri cfg' = ldap_uri (apply_core_env_overrides env cfg)"
    and "ldap_default_bind_dn (sssd cfg') = ldap_default_bind_dn (sssd (apply_core_env_overrides env cfg))"
    and "ldap_default_authtok (sssd cfg') = ldap_default_authtok (sssd (apply_core_env_overrides env cfg))"
    and "\<not> is_blank (ldap_uri cfg')" and "\<not> bind_fields_blank cfg'"
proof -
  from assms obtain ss g where cfg': "cfg' = derived_config env cfg\<lparr>shares := ss, ganesha := g\<rparr>"
    and ok: "\<not> is_blank (ldap_uri (derived_config env cfg))"
      "\<not> is_blank (ldap_default_bind_dn (sssd (derived_config env cfg)))"
      "\<not> is_blank (ldap_default_authtok (sssd (derived_config env cfg)))"
    unfolding validate_and_derive_Ok_iff by blast
  show "\<not> is_blank (ldap_uri cfg')" "\<not> bind_fields_blank cfg'"
    using ok by (simp_all add: cfg' bind_fields_blank_def)
  show "ldap_uri cfg' = ldap_uri (apply_core_env_overrides env cfg)"
    "ldap_default_bind_dn (sssd cfg') = ldap_default_bind_dn (sssd (apply_core_env_overrides env cfg))"
    "ldap_default_authtok (sssd cfg') = ldap_default_authtok (sssd (apply_core_env_overrides env cfg))"
    by (simp_all add: cfg' derived_config_def)
qed

text \<open>The live gate opens exactly when the configuration volume is persistent and writable, the file
  passes validation, the LDAP host answers on its port and the bind succeeds; a validated
  configuration always has bind credentials, so no other step can hold it back.\<close>

theorem startup_ready_iff:
  "compute_startup_step p = Ready \<longleftrightarrow>
     check_persistent_writable p \<and> (\<exists>cfg. load (pr_env p) (conf_parsed p) = Ok cfg
       \<and> check_ldap_reachability p (extract_host_from_uri (ldap_uri cfg)) (ldap_uri cfg) = Reachable
       \<and> check_ldap_bind p cfg = Ok ())"
proof (cases "load (pr_env p) (conf_parsed p)")
  case (Inr cfg)
  then obtain c where "validate_and_derive (pr_env p) c = Ok cfg" by (auto simp: load_Ok_iff)
  note f = loaded_fields(4,5) [OF this]
  show ?thesis using Inr f by (cases "check_ldap_bind p cfg") (auto simp: compute_startup_step_def is_reachable_def)
qed (simp add: compute_startup_step_def)

text \<open>The wizard's gate never lags behind the live one: once the live gate is open, the wizard's
  step depends only on the scheme and host of the URI and on the completion marker.\<close>

theorem wizard_step_when_startup_ready:
  assumes "compute_startup_step p = Ready"
  shows "\<exists>cfg. load (pr_env p) (conf_parsed p) = Ok cfg \<and>
     compute_wizard_step p =
       (if \<not> ldap_uri_is_structurally_valid (ldap_uri cfg) then SetLdapUri
        else if wizard_marker p then Ready else AddBindCredentials)"
proof -
  from assms obtain cfg where w: "check_persistent_writable p" and l: "load (pr_env p) (conf_parsed p) = Ok cfg"
    by (auto simp: compute_startup_step_def split: if_splits sum.splits)
  then obtain c where c: "conf_parsed p = Ok c" "validate_and_derive (pr_env p) c = Ok cfg" by (auto simp: load_Ok_iff)
  note f = loaded_fields [OF c(2)]
  from f(5) have "\<not> bind_fields_blank (apply_core_env_overrides (pr_env p) c)"
    by (simp add: bind_fields_blank_def f(2,3))
  then have "compute_wizard_step p =
      (if \<not> ldap_uri_is_structurally_valid (ldap_uri cfg) then SetLdapUri
       else if wizard_marker p then Ready else AddBindCredentials)"
    using w c(1) f(1) by (simp add: compute_wizard_step_def load_lenient_def)
  with l show ?thesis by blast
qed

definition sample_probes :: probes where
  "sample_probes =
     \<lparr>pr_env = (\<lambda>_. None), conf_dev = Some 2, root_dev = Some 1, can_create = True, conf_parsed = Ok sample_config,
      getent_hosts = (\<lambda>_. None), nc_connect = (\<lambda>_ _. Ok \<lparr>succeeded = True, stdout = [], stderr = []\<rparr>),
      run_ldapsearch = (\<lambda>_. Ok \<lparr>succeeded = True, stdout = [], stderr = []\<rparr>),
      wizard_marker = True, keytab_file = True\<rparr>"

theorem wizard_step_when_startup_ready_witness: "compute_wizard_step sample_probes = Ready"
proof -
  obtain cfg where v: "validate_and_derive (\<lambda>_. None) sample_config = Ok cfg"
    using sample_accepted by (cases "validate_and_derive (\<lambda>_. None) sample_config") auto
  have l: "load (pr_env sample_probes) (conf_parsed sample_probes) = Ok cfg"
    by (simp add: load_def sample_probes_def v)
  have "compute_startup_step sample_probes = Ready"
    using loaded_fields(4,5) [OF v] l
    by (simp add: compute_startup_step_def l check_persistent_writable_def is_persistent_config_def is_reachable_def
        check_ldap_reachability_def check_ldap_bind_def Let_def) (simp add: sample_probes_def)
  from wizard_step_when_startup_ready [OF this] l have
    "compute_wizard_step sample_probes = (if \<not> ldap_uri_is_structurally_valid (ldap_uri cfg) then SetLdapUri
       else if wizard_marker sample_probes then Ready else AddBindCredentials)" by auto
  moreover have "ldap_uri cfg = ldap_uri (apply_core_env_overrides (\<lambda>_. None) sample_config)"
    by (rule loaded_fields(1) [OF v])
  moreover have "ldap_uri_is_structurally_valid (ldap_uri (apply_core_env_overrides (\<lambda>_. None) sample_config))" by code_simp
  moreover have "wizard_marker sample_probes" by (simp add: sample_probes_def)
  ultimately show ?thesis by simp
qed

text \<open>Validation itself does not ask for a scheme: a bare host name passes it.\<close>

lemma uri_without_scheme_validates:
  "\<not> isl (validate_and_derive (\<lambda>_. None) (sample_config\<lparr>ldap_uri := ''lldap.home.arpa''\<rparr>))
   \<and> \<not> ldap_uri_is_structurally_valid ''lldap.home.arpa''"
  by code_simp

text \<open>The bind probe never verifies the server certificate, also where the configured policy does.\<close>

lemma bind_probe_ignores_tls_policy:
  "fst (ldap_tls_policy ''ldaps://lldap.home.arpa'' (Some ''demand'') (Some ''/etc/ca.pem'') None) = False
   \<and> ldaptls_reqcert (bind_probe_call (sample_config\<lparr>ldap_uri := ''ldaps://lldap.home.arpa'',
        sssd := (sssd sample_config)\<lparr>ldap_tls_reqcert := Some ''demand'', ldap_tls_cacert := Some ''/etc/ca.pem''\<rparr>\<rparr>)) = Some ''never''"
  by code_simp

text \<open>The realm scan of the raw file takes a trailing comment for a part of the host name.\<close>

lemma attempt_realm_keeps_comment:
  "attempt_realm_from_config (Some (''ldap_uri = '' @ [CHR 0x22] @ ''ldaps://lldap.home.arpa'' @ [CHR 0x22] @ '' # main''))
   = Some (''HOME.ARPA'' @ [CHR 0x22] @ '' # MAIN'')"
  by code_simp

text \<open>A container identifier that both sources report is confirmed as the host name.\<close>

lemma docker_default_hostname_confirmed:
  "confirm_consistent_hostname ''d81b4e782f65'' ''d81b4e782f65'' = Ok ''d81b4e782f65''
   \<and> looks_like_docker_default_hostname ''d81b4e782f65''"
  by code_simp

text \<open>A host name is confirmed exactly when both sources give the same non-empty name up to
  surrounding blanks and dots.\<close>

theorem confirm_consistent_hostname_iff:
  "confirm_consistent_hostname a b = Ok h \<longleftrightarrow>
     h = normalize_for_comparison a \<and> normalize_for_comparison a = normalize_for_comparison b \<and> h \<noteq> []"
  by (auto simp: confirm_consistent_hostname_def Let_def)

end
