(* ===== verification/Respawn.thy ===== *)
theory Respawn
  imports Prelude
begin

text \<open>
  The respawn budget of the supervisor, from \<^verbatim>\<open>nfs-klldap-config/src/supervisor/respawn.rs\<close>, and
  the recycle plans of \<^verbatim>\<open>recycle_plan.rs\<close>. Instants are natural numbers of nanoseconds, and
  \<^verbatim>\<open>duration_since\<close> saturates at zero as truncated subtraction does.
\<close>

section \<open>Respawn budget\<close>

type_synonym instant = nat

definition RESPAWN_WINDOW :: nat where "RESPAWN_WINDOW = 600 * 1000000000"
definition RESPAWN_BUDGET :: nat where "RESPAWN_BUDGET = 3"
definition RESPAWN_COOLDOWN :: nat where "RESPAWN_COOLDOWN = 10 * 1000000000"

datatype RespawnDecision = Go | Cooldown | Exhausted bool

text \<open>
  The two hash maps are total functions: a missing entry is the default the code inserts for it
  (the empty history, not logged).
\<close>

record RespawnBudget =
  attempts :: "string \<Rightarrow> instant list"
  exhausted_logged :: "string \<Rightarrow> bool"

definition empty_budget :: RespawnBudget where
  "empty_budget = \<lparr>attempts = (\<lambda>_. []), exhausted_logged = (\<lambda>_. False)\<rparr>"

definition decide :: "RespawnBudget \<Rightarrow> string \<Rightarrow> instant \<Rightarrow> RespawnDecision \<times> RespawnBudget" where
  "decide b service now =
     (let hist = filter (\<lambda>t. now - t < RESPAWN_WINDOW) (attempts b service);
          b = b\<lparr>attempts := (attempts b)(service := hist)\<rparr>
      in if hist \<noteq> [] \<and> now - last hist < RESPAWN_COOLDOWN then (Cooldown, b)
         else if length hist \<ge> RESPAWN_BUDGET
         then (Exhausted (\<not> exhausted_logged b service),
               b\<lparr>exhausted_logged := (exhausted_logged b)(service := True)\<rparr>)
         else (Go, b\<lparr>attempts := (attempts b)(service := hist @ [now]),
                     exhausted_logged := (exhausted_logged b)(service := False)\<rparr>))"

section \<open>Rate limiters\<close>

text \<open>
  What the supervisor relies on: a limiter keeps, per key, the instants it granted within the
  last \<open>window\<close>; it grants only when fewer than \<open>budget\<close> of them are left and the latest is at
  least \<open>cooldown\<close> old; nothing else touches the history, apart from forgetting what is older
  than the window.
\<close>

locale rate_limiter =
  fixes ask :: "'b \<Rightarrow> string \<Rightarrow> nat \<Rightarrow> bool \<times> 'b"
    and hist :: "'b \<Rightarrow> string \<Rightarrow> nat list"
    and window budget cooldown :: nat
  assumes other: "k' \<noteq> k \<Longrightarrow> hist (snd (ask b k now)) k' = hist b k'"
    and grant_hist: "fst (ask b k now) \<Longrightarrow>
      hist (snd (ask b k now)) k = filter (\<lambda>t. now - t < window) (hist b k) @ [now]"
    and refuse_hist: "\<not> fst (ask b k now) \<Longrightarrow>
      hist (snd (ask b k now)) k = filter (\<lambda>t. now - t < window) (hist b k)"
    and grant_budget: "fst (ask b k now) \<Longrightarrow>
      length (filter (\<lambda>t. now - t < window) (hist b k)) < budget"
    and grant_cooldown: "fst (ask b k now) \<Longrightarrow> sorted (hist b k) \<Longrightarrow> t \<in> set (hist b k) \<Longrightarrow>
      now - t < window \<Longrightarrow> cooldown \<le> now - t"
    and available: "filter (\<lambda>t. now - t < window) (hist b k) = [] \<Longrightarrow> fst (ask b k now)"
    and cooldown_window: "cooldown \<le> window"
begin

text \<open>A run of requests; the instants granted to one key.\<close>

fun run :: "'b \<Rightarrow> (string \<times> nat) list \<Rightarrow> 'b" where
  "run b [] = b"
| "run b ((k, t) # rs) = run (snd (ask b k t)) rs"

fun granted :: "string \<Rightarrow> 'b \<Rightarrow> (string \<times> nat) list \<Rightarrow> nat list" where
  "granted key b [] = []"
| "granted key b ((k, t) # rs) =
     (if fst (ask b k t) \<and> k = key then [t] else []) @ granted key (snd (ask b k t)) rs"

lemma granted_append: "granted key b (xs @ ys) = granted key b xs @ granted key (run b xs) ys"
  by (induction xs arbitrary: b) auto

lemma run_append: "run b (xs @ ys) = run (run b xs) ys"
  by (induction xs arbitrary: b) auto

text \<open>
  The history after a run in time order: sorted, made of request times, and within the last
  window exactly the instants granted.
\<close>

lemma history_tracks:
  assumes "sorted (map snd rs)" and "hist b key = []"
  shows "sorted (hist (run b rs) key) \<and> set (hist (run b rs) key) \<subseteq> snd ` set rs \<and>
    set (granted key b rs) \<subseteq> snd ` set rs \<and>
    (\<forall>now. (\<forall>r \<in> set rs. snd r \<le> now) \<longrightarrow>
      filter (\<lambda>t. now - t < window) (hist (run b rs) key)
        = filter (\<lambda>t. now - t < window) (granted key b rs))"
  using assms
proof (induction rs rule: rev_induct)
  case Nil
  then show ?case by simp
next
  case (snoc r rs)
  obtain k u where r: "r = (k, u)" by fastforce
  define h where "h = hist (run b rs) key"
  define h' where "h' = hist (snd (ask (run b rs) k u)) key"
  define g where "g = (if fst (ask (run b rs) k u) \<and> k = key then [u] else [])"
  from snoc.prems r have prev: "\<forall>q \<in> set rs. snd q \<le> u"
    by (auto simp: sorted_append)
  from snoc have IH: "sorted h" "set h \<subseteq> snd ` set rs" "set (granted key b rs) \<subseteq> snd ` set rs"
    "\<And>now. \<forall>q \<in> set rs. snd q \<le> now \<Longrightarrow> filter (\<lambda>t. now - t < window) h
        = filter (\<lambda>t. now - t < window) (granted key b rs)"
    by (simp_all add: h_def sorted_append)
  have past: "\<forall>t \<in> set h. t \<le> u" using IH(2) prev by auto
  have narrow: "u \<le> now \<Longrightarrow> filter (\<lambda>t. now - t < window) (filter (\<lambda>t. u - t < window) ts)
      = filter (\<lambda>t. now - t < window) ts" for now ts
    by (auto simp: conj_commute intro!: filter_cong)
  have h': "h' = h @ g \<or> h' = filter (\<lambda>t. u - t < window) h @ g"
    using grant_hist [of "run b rs" k u] refuse_hist [of "run b rs" k u] other [of key k "run b rs" u]
    by (auto simp: h_def h'_def g_def)
  have "sorted h'"
    using h' IH(1) past by (auto simp: g_def sorted_append sorted_filter [of id, simplified])
  moreover have "set h' \<subseteq> snd ` set (rs @ [r])"
    using h' IH(2) r by (auto simp: g_def split: if_splits)
  moreover have "set (granted key b rs @ g) \<subseteq> snd ` set (rs @ [r])"
    using IH(3) r by (auto simp: g_def)
  moreover have "filter (\<lambda>t. now - t < window) h' = filter (\<lambda>t. now - t < window) (granted key b rs @ g)"
    if "\<forall>q \<in> set (rs @ [r]). snd q \<le> now" for now
  proof -
    have "u \<le> now" "\<forall>q \<in> set rs. snd q \<le> now" using that r by auto
    with IH(4) [of now] h' narrow [of now h] show ?thesis by auto
  qed
  ultimately show ?case
    by (simp add: run_append granted_append r h'_def g_def)
qed

text \<open>The instants granted within any window are at most the budget.\<close>

lemma window_bound:
  assumes "sorted (map snd rs)" and "hist b key = []"
  shows "length (filter (\<lambda>t. T \<le> t \<and> t < T + window) (granted key b rs)) \<le> budget"
  using assms
proof (induction rs rule: rev_induct)
  case Nil
  then show ?case by simp
next
  case (snoc r rs)
  obtain k u where r: "r = (k, u)" by fastforce
  from snoc.prems r have prev: "\<forall>q \<in> set rs. snd q \<le> u" and s: "sorted (map snd rs)"
    by (auto simp: sorted_append)
  show ?case
  proof (cases "fst (ask (run b rs) k u) \<and> k = key \<and> T \<le> u \<and> u < T + window")
    case True
    have "length (filter (\<lambda>t. T \<le> t \<and> t < T + window) (granted key b rs))
        \<le> length (filter (\<lambda>t. u - t < window) (granted key b rs))"
      using True by (auto simp: length_filter_conv_card intro!: card_mono)
    also have "\<dots> = length (filter (\<lambda>t. u - t < window) (hist (run b rs) key))"
      using history_tracks [OF s snoc.prems(2)] prev by simp
    also have "\<dots> < budget" using True grant_budget by blast
    finally show ?thesis using True r by (simp add: granted_append)
  next
    case False
    with snoc s r show ?thesis by (auto simp: granted_append)
  qed
qed

text \<open>Two grants are at least the cooldown apart.\<close>

lemma spacing:
  assumes "sorted (map snd rs)" and "hist b key = []"
  shows "sorted_wrt (\<lambda>s t. s + cooldown \<le> t) (granted key b rs)"
  using assms
proof (induction rs rule: rev_induct)
  case Nil
  then show ?case by simp
next
  case (snoc r rs)
  obtain k u where r: "r = (k, u)" by fastforce
  from snoc.prems r have prev: "\<forall>q \<in> set rs. snd q \<le> u" and s: "sorted (map snd rs)"
    by (auto simp: sorted_append)
  note H = history_tracks [OF s snoc.prems(2)]
  have "t + cooldown \<le> u" if g: "fst (ask (run b rs) k u)" "k = key" and t: "t \<in> set (granted key b rs)" for t
  proof -
    have "t \<le> u" using H t prev by auto
    moreover have "cooldown \<le> u - t"
    proof (cases "u - t < window")
      case True
      with t have "t \<in> set (filter (\<lambda>t. u - t < window) (granted key b rs))" by simp
      then have "t \<in> set (filter (\<lambda>t. u - t < window) (hist (run b rs) key))"
        using H prev by simp
      with True g H show ?thesis by (auto intro: grant_cooldown)
    qed (use cooldown_window in linarith)
    ultimately show ?thesis by linarith
  qed
  with snoc s r show ?case by (auto simp: granted_append sorted_wrt_append)
qed

text \<open>A key that was granted nothing for a whole window is granted again.\<close>

lemma recovers:
  assumes "sorted (map snd rs)" and "hist b key = []" and "\<forall>r \<in> set rs. snd r \<le> now"
    and "\<forall>t \<in> set (granted key b rs). window \<le> now - t"
  shows "fst (ask (run b rs) key now)"
proof (rule available)
  have "filter (\<lambda>t. now - t < window) (granted key b rs) = []"
    using assms(4) by (auto simp: filter_empty_conv not_less)
  then show "filter (\<lambda>t. now - t < window) (hist (run b rs) key) = []"
    using history_tracks [OF assms(1,2)] assms(3) by simp
qed

end

section \<open>The respawn budget is a rate limiter\<close>

definition asks_go :: "RespawnBudget \<Rightarrow> string \<Rightarrow> instant \<Rightarrow> bool \<times> RespawnBudget" where
  "asks_go b service now = (case decide b service now of (d, b') \<Rightarrow> (d = Go, b'))"

lemmas decide_simps = decide_def Let_def asks_go_def

lemma asks_go_eq: "decide b k t = (d, b') \<Longrightarrow> asks_go b k t = (d = Go, b')"
  by (simp add: asks_go_def)

lemma last_is_latest: "sorted xs \<Longrightarrow> t \<in> set xs \<Longrightarrow> (t :: nat) \<le> last xs"
  by (metis empty_iff last_in_set list.set(1) append_butlast_last_id sorted_append in_set_conv_decomp
      order_refl set_ConsD list.set_intros(1) UnE set_append)

interpretation respawn: rate_limiter asks_go attempts
  RESPAWN_WINDOW RESPAWN_BUDGET RESPAWN_COOLDOWN
proof
  fix b :: RespawnBudget and k now t
  let ?h = "filter (\<lambda>t. now - t < RESPAWN_WINDOW) (attempts b k)"
  assume go: "fst (asks_go b k now)" and s: "sorted (attempts b k)"
    and t: "t \<in> set (attempts b k)" "now - t < RESPAWN_WINDOW"
  from t have "t \<in> set ?h" by simp
  moreover from s have "sorted ?h" by (simp add: sorted_filter [of id, simplified])
  ultimately have "t \<le> last ?h" by (simp add: last_is_latest)
  moreover have "RESPAWN_COOLDOWN \<le> now - last ?h"
  proof -
    have "?h \<noteq> []" using \<open>t \<in> set ?h\<close> by (metis empty_iff list.set(1))
    with go show ?thesis by (auto simp: decide_simps simp del: filter_empty_conv split: if_splits)
  qed
  ultimately show "RESPAWN_COOLDOWN \<le> now - t" by linarith
qed (auto simp: decide_simps RESPAWN_WINDOW_def RESPAWN_BUDGET_def RESPAWN_COOLDOWN_def split: if_splits)

text \<open>The instants at which a service is revived when the supervisor asks at the given times.\<close>

fun go_times :: "string \<Rightarrow> RespawnBudget \<Rightarrow> (string \<times> instant) list \<Rightarrow> instant list" where
  "go_times svc b [] = []"
| "go_times svc b ((k, t) # rs) =
     (case decide b k t of (d, b') \<Rightarrow> (if d = Go \<and> k = svc then [t] else []) @ go_times svc b' rs)"

fun decisions :: "string \<Rightarrow> RespawnBudget \<Rightarrow> (string \<times> instant) list \<Rightarrow> RespawnDecision list" where
  "decisions svc b [] = []"
| "decisions svc b ((k, t) # rs) =
     (case decide b k t of (d, b') \<Rightarrow> (if k = svc then [d] else []) @ decisions svc b' rs)"

lemma go_times_granted: "go_times svc b rs = respawn.granted svc b rs"
  by (induction svc b rs rule: go_times.induct) (auto simp: asks_go_eq split: prod.split)

lemma empty_budget_hist [simp]: "attempts empty_budget svc = []"
  by (simp add: empty_budget_def)

text \<open>C38: no restart storm. Whatever requests the supervisor makes, in time order and for any mix of
  services, a service is revived at most three times in any window of 600 seconds, and two
  revivals are at least 10 seconds apart.\<close>

theorem respawn_rate_bound:
  assumes "sorted (map snd rs)"
  shows "length (filter (\<lambda>t. T \<le> t \<and> t < T + 600 * 1000000000) (go_times svc empty_budget rs)) \<le> 3
    \<and> sorted_wrt (\<lambda>s t. s + 10 * 1000000000 \<le> t) (go_times svc empty_budget rs)"
  using respawn.window_bound [OF assms, of empty_budget svc T] respawn.spacing [OF assms, of empty_budget svc]
  by (simp add: go_times_granted RESPAWN_WINDOW_def RESPAWN_BUDGET_def RESPAWN_COOLDOWN_def)

theorem respawn_rate_bound_witness:
  "length (filter (\<lambda>t. 0 \<le> t \<and> t < 0 + 600 * 1000000000)
     (go_times ''webui'' empty_budget (map (\<lambda>i. (''webui'', i * 60000000000)) [0, 1, 2, 3, 4]))) \<le> 3"
proof -
  have "sorted (map snd (map (\<lambda>i. (''webui'', i * 60000000000 :: nat)) [0, 1, 2, 3, 4]))" by simp
  from respawn_rate_bound [OF this, of 0 "''webui''"] show ?thesis by blast
qed

text \<open>The budget recovers. A service that has not been revived during the last 600 seconds is
  revived when the supervisor asks, however often it was refused meanwhile.\<close>

theorem respawn_recovers:
  assumes "sorted (map snd (rs @ [(svc, now)]))"
    and "\<forall>t \<in> set (go_times svc empty_budget rs). t + 600 * 1000000000 \<le> now"
  shows "go_times svc empty_budget (rs @ [(svc, now)]) = go_times svc empty_budget rs @ [now]"
proof -
  have "sorted (map snd rs)" "\<forall>r \<in> set rs. snd r \<le> now"
    using assms(1) by (auto simp: sorted_append)
  moreover have "\<forall>t \<in> set (respawn.granted svc empty_budget rs). RESPAWN_WINDOW \<le> now - t"
    using assms(2) by (auto simp: go_times_granted RESPAWN_WINDOW_def)
  ultimately have "fst (asks_go (respawn.run empty_budget rs) svc now)"
    by (intro respawn.recovers) simp_all
  then show ?thesis by (simp add: go_times_granted respawn.granted_append)
qed

theorem respawn_recovers_witness:
  "go_times ''webui'' empty_budget ([(''webui'', 0)] @ [(''webui'', 700 * 1000000000)])
     = go_times ''webui'' empty_budget [(''webui'', 0)] @ [700 * 1000000000]"
proof -
  have s: "sorted (map snd ([(''webui'', 0)] @ [(''webui'', 700 * 1000000000 :: nat)]))" by simp
  have "\<forall>t \<in> set (go_times ''webui'' empty_budget [(''webui'', 0)]). t + 600 * 1000000000 \<le> 700 * 1000000000"
    by (auto split: prod.split)
  from respawn_recovers [OF s this] show ?thesis .
qed

lemma decide_logged:
  "decide b k t = (d, b') \<Longrightarrow> exhausted_logged b svc \<Longrightarrow>
     (k = svc \<longrightarrow> d \<noteq> Exhausted True) \<and> (k \<noteq> svc \<or> d \<noteq> Go \<longrightarrow> exhausted_logged b' svc)"
  by (auto simp: decide_def Let_def split: if_splits)

text \<open>The fatal-degraded line is written once per exhaustion. After a decision that reports
  exhaustion for the first time, no later decision for that service does so again before a
  revival has been granted.\<close>

theorem exhaustion_logged_once:
  assumes "decide b svc t = (Exhausted True, b')"
    and "decisions svc b' rs = ds @ Exhausted True # ds'"
  shows "Go \<in> set ds"
proof -
  have "exhausted_logged b svc \<Longrightarrow> decisions svc b rs = ds @ Exhausted True # ds' \<Longrightarrow> Go \<in> set ds" for b
  proof (induction svc b rs arbitrary: ds rule: decisions.induct)
    case (2 svc b k t rs)
    obtain d b' where d: "decide b k t = (d, b')" by fastforce
    from decide_logged [OF d 2(2)] 2(1) [OF d [symmetric]] 2(3) d show ?case
      by (cases "k = svc"; cases ds) auto
  qed simp
  moreover have "exhausted_logged b' svc"
    using assms(1) by (auto simp: decide_def Let_def split: if_splits)
  ultimately show ?thesis using assms(2) by blast
qed

theorem exhaustion_logged_once_witness:
  "let b = \<lparr>attempts = (\<lambda>_. [0, 30000000000, 40000000000]), exhausted_logged = (\<lambda>_. False)\<rparr>;
       b' = snd (decide b ''sssd'' 60000000000)
   in fst (decide b ''sssd'' 60000000000) = Exhausted True \<and>
      decisions ''sssd'' b' [(''sssd'', 601000000000), (''sssd'', 612000000000)] = [Go, Exhausted True] \<and>
      Go \<in> set [Go]"
proof -
  let ?b = "\<lparr>attempts = (\<lambda>_. [0, 30000000000, 40000000000]), exhausted_logged = (\<lambda>_. False)\<rparr>"
  let ?b' = "snd (decide ?b ''sssd'' 60000000000)"
  note defs = decide_simps RESPAWN_WINDOW_def RESPAWN_BUDGET_def RESPAWN_COOLDOWN_def
  have e: "decide ?b ''sssd'' 60000000000 = (Exhausted True, ?b')" by (simp add: defs)
  have d: "decisions ''sssd'' ?b' [(''sssd'', 601000000000), (''sssd'', 612000000000)] = [Go] @ Exhausted True # []"
    by (simp add: defs)
  have "Go \<in> set [Go]" by (rule exhaustion_logged_once [OF e d])
  moreover have "fst (decide ?b ''sssd'' 60000000000) = Exhausted True" by (simp add: defs)
  ultimately show ?thesis using d unfolding Let_def append.simps by (intro conjI)
qed

section \<open>Recycle plans\<close>

datatype GaneshaAction = GaneshaSkip | Sighup | StopStart
datatype WebuiAction = WebuiSkip | Reload | Restart

record ServiceRecyclePlan =
  ganesha_action :: GaneshaAction
  plan_restart_sssd :: bool
  plan_restart_idhelper :: bool
  webui_action :: WebuiAction
  identity_staged :: bool
  restart_avahi :: bool

definition is_noop :: "ServiceRecyclePlan \<Rightarrow> bool" where
  "is_noop p =
     (ganesha_action p = GaneshaSkip \<and> \<not> plan_restart_sssd p \<and> \<not> plan_restart_idhelper p
       \<and> webui_action p = WebuiSkip \<and> \<not> restart_avahi p)"

definition plan_from_changes :: "bool \<Rightarrow> bool \<Rightarrow> bool \<Rightarrow> bool \<Rightarrow> bool \<Rightarrow> ServiceRecyclePlan" where
  "plan_from_changes exports_changed identity_changed shares_changed host_nfs_mode ganesha_running =
     \<lparr>ganesha_action = (if host_nfs_mode \<or> \<not> exports_changed then GaneshaSkip
                        else if ganesha_running then Sighup else StopStart),
      plan_restart_sssd = False,
      plan_restart_idhelper = False,
      webui_action = (if exports_changed \<or> shares_changed then Reload else WebuiSkip),
      identity_staged = identity_changed,
      restart_avahi = False\<rparr>"

definition plan_full_recycle :: "bool \<Rightarrow> ServiceRecyclePlan" where
  "plan_full_recycle host_nfs_mode =
     \<lparr>ganesha_action = (if host_nfs_mode then GaneshaSkip else StopStart),
      plan_restart_sssd = True,
      plan_restart_idhelper = True,
      webui_action = Restart,
      identity_staged = False,
      restart_avahi = True\<rparr>"

definition ganesha_sighup_failed :: "ServiceRecyclePlan \<Rightarrow> ServiceRecyclePlan" where
  "ganesha_sighup_failed plan =
     (if ganesha_action plan = Sighup then plan\<lparr>ganesha_action := StopStart\<rparr> else plan)"

lemma plan_noop_iff:
  "is_noop (plan_from_changes e i s h g) \<longleftrightarrow> \<not> e \<and> \<not> s"
  by (auto simp: is_noop_def plan_from_changes_def)

end
