(* ===== verification/Supervisor.thy ===== *)
theory Supervisor
  imports Startup Respawn
begin

text \<open>
  The process supervisor of \<^verbatim>\<open>nfs-klldap-config/src/supervisor/\<close> (\<^verbatim>\<open>mod.rs\<close>, \<^verbatim>\<open>services.rs\<close>), with the
  signal flags of \<^verbatim>\<open>signals.rs\<close>, the liveness test of \<^verbatim>\<open>ganesha_liveness.rs\<close>, the hooks of
  \<^verbatim>\<open>hook.rs\<close> and the generate command of \<^verbatim>\<open>main.rs\<close>.

  The state \<open>sup\<close> holds the fields of the \<^verbatim>\<open>Supervisor\<close> struct together with the part of the world
  it changes: the generated files, the marker files, the signal flags and the trace of signals
  sent and processes started, latest first. What the operating system answers is the record
  \<open>os\<close>, a function of a counter that every interaction advances, so that no two observations
  are forced to agree: a process can be gone at the very next look. Sleeps, log lines and waits
  whose outcome the code ignores only advance the counter.
\<close>

section \<open>The operating system\<close>

text \<open>One constructor per field of \<^verbatim>\<open>ChildPids\<close>.\<close>

datatype service = Watcher | Sssd | Ganesha | Webui | Dbus | Idhelper | Avahi

datatype event =
    Spawned service nat
  | Adopted nat
  | HupSent service nat
  | TermSent service nat
  | KillSent service nat
  | PkillTerm string

datatype proc_entry = NoProc | ProcUnreadable | ProcStatus string

record os =
  o_env :: env
  o_proc :: "nat \<Rightarrow> nat \<Rightarrow> proc_entry"
  o_spawn :: "nat \<Rightarrow> service \<Rightarrow> nat option"
  o_pgrep :: "nat \<Rightarrow> string \<Rightarrow> nat list"
  o_pidfile :: "nat \<Rightarrow> string option"
  o_conf :: "nat \<Rightarrow> (config_error, NfsKlldapConfig) result"
  o_gen :: "nat \<Rightarrow> gen_world option"
  o_list :: "dir \<Rightarrow> listing"
  o_executable :: "nat \<Rightarrow> string \<Rightarrow> bool"
  o_hook :: "nat \<Rightarrow> string \<Rightarrow> (string \<times> string) list \<Rightarrow> bool"
  o_probes :: "nat \<Rightarrow> probes"
  o_polls :: "nat \<Rightarrow> nat"
  o_warm :: "nat \<Rightarrow> bool"
  o_idhelper_socket :: "nat \<Rightarrow> bool"
  o_ready :: "nat \<Rightarrow> bool"
  o_instant :: "nat \<Rightarrow> instant"
  o_marker_write :: "nat \<Rightarrow> bool"
  o_inotifywait :: "nat \<Rightarrow> bool"
  o_nss_wrapper_so :: "nat \<Rightarrow> bool"
  o_conf_file :: "nat \<Rightarrow> bool"
  o_conf_init :: "nat \<Rightarrow> bool option"

record sup =
  now :: nat
  trace :: "event list"
  disk :: artifacts
  pids :: "service \<Rightarrow> nat option"
  services_started :: bool
  ganesha_managed :: bool
  avahi_managed :: bool
  host_nfs_mode :: bool
  last_shares_fingerprint :: "64 word"
  respawn_budget :: RespawnBudget
  recycle_marker :: bool
  setup_marker :: bool
  shutdown_flag :: bool
  sighup_flag :: bool
  full_recycle_flag :: bool

definition tick :: "sup \<Rightarrow> sup" where
  "tick s = s\<lparr>now := Suc (now s)\<rparr>"

definition emit :: "event \<Rightarrow> sup \<Rightarrow> sup" where
  "emit e s = s\<lparr>trace := e # trace s\<rparr>"

definition set_pid :: "service \<Rightarrow> nat option \<Rightarrow> sup \<Rightarrow> sup" where
  "set_pid svc p s = s\<lparr>pids := (pids s)(svc := p)\<rparr>"

text \<open>The state line of \<^verbatim>\<open>/proc/<pid>/status\<close> decides; a process without one counts as live.\<close>

fun process_is_live :: "proc_entry \<Rightarrow> bool" where
  "process_is_live NoProc = False"
| "process_is_live ProcUnreadable = True"
| "process_is_live (ProcStatus status) =
     (case first_some (strip_prefix ''State:'') (lines status) of
        Some rest \<Rightarrow> (case split_whitespace rest of w # _ \<Rightarrow> w \<noteq> ''Z'' | [] \<Rightarrow> True)
      | None \<Rightarrow> True)"

definition live_at :: "os \<Rightarrow> nat \<Rightarrow> nat \<Rightarrow> bool" where
  "live_at os t p = process_is_live (o_proc os t p)"

definition look :: "os \<Rightarrow> nat \<Rightarrow> sup \<Rightarrow> bool \<times> sup" where
  "look os p s = (live_at os (now s) p, tick s)"

text \<open>\<^verbatim>\<open>self.pids.x.is_some_and(process_is_live)\<close>.\<close>

definition tracked_live :: "os \<Rightarrow> service \<Rightarrow> sup \<Rightarrow> bool \<times> sup" where
  "tracked_live os svc s = (case pids s svc of None \<Rightarrow> (False, s) | Some p \<Rightarrow> look os p s)"

definition spawn :: "os \<Rightarrow> service \<Rightarrow> sup \<Rightarrow> nat option \<times> sup" where
  "spawn os svc s =
     (case o_spawn os (now s) svc of
        Some p \<Rightarrow> (Some p, emit (Spawned svc p) (tick s))
      | None \<Rightarrow> (None, tick s))"

text \<open>Spawn a child and track it; a failed spawn leaves the tracked process as it was.\<close>

definition spawn_tracked :: "os \<Rightarrow> service \<Rightarrow> sup \<Rightarrow> sup" where
  "spawn_tracked os svc s =
     (case spawn os svc s of (Some p, s) \<Rightarrow> set_pid svc (Some p) s | (None, s) \<Rightarrow> s)"

definition term_tracked :: "service \<Rightarrow> sup \<Rightarrow> sup" where
  "term_tracked svc s = (case pids s svc of Some p \<Rightarrow> emit (TermSent svc p) s | None \<Rightarrow> s)"

section \<open>Modes\<close>

definition env_is_one :: "os \<Rightarrow> string \<Rightarrow> bool" where
  "env_is_one os key = (o_env os key = Some ''1'')"

definition supervise_probe :: "os \<Rightarrow> bool" where
  "supervise_probe os = env_is_one os ''NFS_KLLDAP_SUPERVISE_PROBE''"
definition supervise_wizard_probe :: "os \<Rightarrow> bool" where
  "supervise_wizard_probe os = env_is_one os ''NFS_KLLDAP_SUPERVISE_WIZARD_PROBE''"
definition supervise_loop_probe :: "os \<Rightarrow> bool" where
  "supervise_loop_probe os = env_is_one os ''NFS_KLLDAP_SUPERVISE_LOOP_PROBE''"
definition supervise_recycle_probe :: "os \<Rightarrow> bool" where
  "supervise_recycle_probe os = env_is_one os ''NFS_KLLDAP_SUPERVISE_RECYCLE_PROBE''"
definition supervise_sighup_hook_probe :: "os \<Rightarrow> bool" where
  "supervise_sighup_hook_probe os = env_is_one os ''NFS_KLLDAP_SUPERVISE_SIGHUP_HOOK_PROBE''"
definition supervise_identity_recycle_probe :: "os \<Rightarrow> bool" where
  "supervise_identity_recycle_probe os = env_is_one os ''NFS_KLLDAP_SUPERVISE_IDENTITY_RECYCLE_PROBE''"

definition any_probe_mode :: "os \<Rightarrow> bool" where
  "any_probe_mode os =
     (supervise_probe os \<or> supervise_wizard_probe os \<or> supervise_loop_probe os \<or> supervise_recycle_probe os
      \<or> supervise_identity_recycle_probe os \<or> supervise_sighup_hook_probe os)"

text \<open>The configuration file, read afresh each time.\<close>

definition read_config :: "os \<Rightarrow> sup \<Rightarrow> (config_error, NfsKlldapConfig) result \<times> sup" where
  "read_config os s = (load (o_env os) (o_conf os (now s)), tick s)"

section \<open>Services\<close>

definition refresh_tracked_ganesha_pid :: "os \<Rightarrow> sup \<Rightarrow> sup" where
  "refresh_tracked_ganesha_pid os s =
     (case pids s Ganesha of
        None \<Rightarrow> s
      | Some p \<Rightarrow> (case look os p s of (alive, s) \<Rightarrow> if alive then s else set_pid Ganesha None s))"

definition ganesha_running :: "os \<Rightarrow> sup \<Rightarrow> bool \<times> sup" where
  "ganesha_running os s = tracked_live os Ganesha (refresh_tracked_ganesha_pid os s)"

definition reload_ganesha_exports :: "os \<Rightarrow> sup \<Rightarrow> bool \<times> sup" where
  "reload_ganesha_exports os s0 =
     (let s = refresh_tracked_ganesha_pid os s0 in
      case pids s Ganesha of
        None \<Rightarrow> (False, s)
      | Some p \<Rightarrow> (case look os p s of (alive, s) \<Rightarrow>
          if \<not> alive then (False, set_pid Ganesha None s)
          else (True, emit (HupSent Ganesha p) s)))"

text \<open>Poll until the process is gone or the deadline passes; the number of polls that fit is given.\<close>

fun wait_gone :: "os \<Rightarrow> nat \<Rightarrow> nat \<Rightarrow> sup \<Rightarrow> bool \<times> sup" where
  "wait_gone os polls p s =
     (case look os p s of (alive, s) \<Rightarrow>
        if \<not> alive then (True, s)
        else (case polls of 0 \<Rightarrow> (False, s) | Suc n \<Rightarrow> wait_gone os n p s))"

declare wait_gone.simps [simp del]

definition forget_ganesha :: "sup \<Rightarrow> sup" where
  "forget_ganesha s = (set_pid Ganesha None s)\<lparr>ganesha_managed := False\<rparr>"

definition stop_ganesha :: "os \<Rightarrow> sup \<Rightarrow> sup" where
  "stop_ganesha os s0 =
     (let s = refresh_tracked_ganesha_pid os s0 in
      case pids s Ganesha of
        None \<Rightarrow> s\<lparr>ganesha_managed := False\<rparr>
      | Some p \<Rightarrow> (case look os p s of (alive, s) \<Rightarrow>
          if \<not> alive then forget_ganesha s
          else let s = emit (TermSent Ganesha p) s in
            case wait_gone os (o_polls os (now s)) p s of (gone, s) \<Rightarrow>
              if gone then forget_ganesha s
              else case look os p s of (alive, s) \<Rightarrow>
                let s = (if alive then emit (KillSent Ganesha p) s else s) in
                case wait_gone os (o_polls os (now s)) p s of (gone, s) \<Rightarrow>
                  if gone then forget_ganesha s else s))"

definition krb5_shares_enabled :: "NfsKlldapConfig \<Rightarrow> bool" where
  "krb5_shares_enabled cfg =
     list_ex (\<lambda>sh. starts_with (unwrap_or (security sh) (default_security (ganesha cfg))) ''krb5'') (shares cfg)"

definition ldap_bind_configured :: "NfsKlldapConfig \<Rightarrow> bool" where
  "ldap_bind_configured cfg =
     (\<not> is_blank (ldap_default_bind_dn (sssd cfg)) \<and> \<not> is_blank (ldap_default_authtok (sssd cfg)))"

text \<open>Whether all principals resolve before the deadline is the answer of the identity daemon.\<close>

definition warm_identity_principals_before_ganesha :: "os \<Rightarrow> sup \<Rightarrow> bool \<times> sup" where
  "warm_identity_principals_before_ganesha os s0 =
     (if any_probe_mode os \<or> host_nfs_mode s0 \<or> o_env os ''NFS_KLLDAP_SUPERVISOR_TICK_MS'' \<noteq> None
         \<or> o_env os ''NFS_KLLDAP_TEST_PERSISTENT'' \<noteq> None \<or> o_env os ''NFS_KLLDAP_SKIP_PRINCIPAL_WARM'' \<noteq> None
      then (True, s0)
      else case read_config os s0 of (cfg, s) \<Rightarrow>
        case read_config os s of (cfg2, s) \<Rightarrow>
        let krb5 = (case cfg2 of Inr c \<Rightarrow> krb5_shares_enabled c | Inl _ \<Rightarrow> False);
            degraded = (o_env os ''NFS_KLLDAP_ALLOW_LDAP_DEGRADED'' \<noteq> None) in
        if krb5 \<and> (case cfg of Inr c \<Rightarrow> \<not> ldap_bind_configured c | Inl _ \<Rightarrow> False) \<and> \<not> degraded then (False, s)
        else (o_warm os (now s) \<or> degraded, tick s))"

fun live_pids :: "os \<Rightarrow> nat list \<Rightarrow> sup \<Rightarrow> nat list \<times> sup" where
  "live_pids os [] s = ([], s)"
| "live_pids os (p # ps) s =
     (case look os p s of (alive, s) \<Rightarrow>
        case live_pids os ps s of (qs, s) \<Rightarrow> (if alive then p # qs else qs, s))"

definition discover_ganesha_daemon_pid :: "os \<Rightarrow> sup \<Rightarrow> nat option \<times> sup" where
  "discover_ganesha_daemon_pid os s =
     (case live_pids os (o_pgrep os (now s) ''ganesha.nfsd'') (tick s) of
        (p # _, s) \<Rightarrow> (Some p, s) | ([], s) \<Rightarrow> (None, s))"

definition adopt_ganesha :: "nat \<Rightarrow> sup \<Rightarrow> sup" where
  "adopt_ganesha p s = set_pid Ganesha (Some p) (emit (Adopted p) s)"

definition confirm_ganesha_daemon_pid_env :: "os \<Rightarrow> sup \<Rightarrow> sup" where
  "confirm_ganesha_daemon_pid_env os s0 =
     (if \<not> ganesha_managed s0 then s0
      else case tracked_live os Ganesha s0 of (alive, s) \<Rightarrow>
        if alive then s
        else case discover_ganesha_daemon_pid os s of
          (Some p, s) \<Rightarrow> if pids s Ganesha \<noteq> Some p then adopt_ganesha p s else s
        | (None, s) \<Rightarrow>
            (case Option.bind (o_pidfile os (now s)) (\<lambda>c. parse_u32 (trim c)) of
               Some w \<Rightarrow> (case look os (unat w) s of (alive, s) \<Rightarrow> if alive then adopt_ganesha (unat w) s else s)
             | None \<Rightarrow> tick s))"

definition start_ganesha :: "os \<Rightarrow> sup \<Rightarrow> sup" where
  "start_ganesha os s0 =
     (case tracked_live os Ganesha s0 of (alive, s) \<Rightarrow>
        if alive then s
        else case warm_identity_principals_before_ganesha os (tick (set_pid Ganesha None s)) of (warm, s) \<Rightarrow>
          if \<not> warm then s
          else case spawn os Ganesha s of
            (None, s) \<Rightarrow> s
          | (Some p, s) \<Rightarrow>
              confirm_ganesha_daemon_pid_env os (tick ((set_pid Ganesha (Some p) s)\<lparr>ganesha_managed := True\<rparr>)))"

definition start_avahi :: "os \<Rightarrow> sup \<Rightarrow> sup" where
  "start_avahi os s0 =
     (case read_config os s0 of (cfg, s) \<Rightarrow>
        if \<not> (case cfg of Inr c \<Rightarrow> navahi_discovery c | Inl _ \<Rightarrow> False) then s
        else if host_nfs_mode s then s
        else case tracked_live os Avahi s of (alive, s) \<Rightarrow>
          if alive then s
          else case spawn os Avahi (set_pid Avahi None s) of
            (Some p, s) \<Rightarrow> (set_pid Avahi (Some p) s)\<lparr>avahi_managed := True\<rparr>
          | (None, s) \<Rightarrow> s)"

definition stop_avahi :: "os \<Rightarrow> sup \<Rightarrow> sup" where
  "stop_avahi os s0 =
     (case pids s0 Avahi of
        None \<Rightarrow> s0\<lparr>avahi_managed := False\<rparr>
      | Some p \<Rightarrow>
          let s = (case look os p s0 of (alive, s) \<Rightarrow>
                if \<not> alive then s
                else let s = emit (TermSent Avahi p) s in
                  case wait_gone os (o_polls os (now s)) p s of (_, s) \<Rightarrow>
                  case look os p s of (alive, s) \<Rightarrow> if alive then emit (KillSent Avahi p) s else s)
          in (set_pid Avahi None s)\<lparr>avahi_managed := False\<rparr>)"

datatype sup_error =
    GenerateNotRun
  | GenerateFailed
  | HookConfigLoad config_error
  | HookNotExecutable string
  | HookFailed string string
  | WatcherSpawnFailed
  | WebuiSpawnFailed
  | PreflightFailed
  | ConfigInitNotRun
  | ConfigInitFailed

definition start_watcher :: "os \<Rightarrow> sup \<Rightarrow> (sup_error, unit) result \<times> sup" where
  "start_watcher os s =
     (if supervise_probe os then (Ok (), s)
      else case spawn os Watcher s of
        (Some p, s) \<Rightarrow> (Ok (), set_pid Watcher (Some p) s)
      | (None, s) \<Rightarrow> (Err WatcherSpawnFailed, s))"

definition start_webui :: "os \<Rightarrow> sup \<Rightarrow> (sup_error, unit) result \<times> sup" where
  "start_webui os s =
     (if supervise_recycle_probe os \<or> supervise_identity_recycle_probe os \<or> supervise_probe os then (Ok (), s)
      else case spawn os Webui (tick (term_tracked Webui s)) of
        (Some p, s) \<Rightarrow> (Ok (), tick (set_pid Webui (Some p) s))
      | (None, s) \<Rightarrow> (Err WebuiSpawnFailed, s))"

definition restart_sssd_and_wait :: "os \<Rightarrow> sup \<Rightarrow> sup" where
  "restart_sssd_and_wait os s =
     tick (spawn_tracked os Sssd (tick (emit (PkillTerm ''sssd'') (term_tracked Sssd s))))"

definition idhelper_bin :: "os \<Rightarrow> string" where
  "idhelper_bin os = unwrap_or (o_env os ''IDHELPER_BIN'') ''/usr/local/bin/nfs-klldap-idhelper''"

definition restart_idhelper_and_wait_bulk :: "os \<Rightarrow> sup \<Rightarrow> sup" where
  "restart_idhelper_and_wait_bulk os s =
     (case read_config os s of (_, s) \<Rightarrow>
        tick (spawn_tracked os Idhelper (tick (emit (PkillTerm (idhelper_bin os)) (term_tracked Idhelper s)))))"

definition ensure_ganesha_prereqs :: "os \<Rightarrow> sup \<Rightarrow> sup" where
  "ensure_ganesha_prereqs os s0 =
     (let s = tick s0 in
      tick (if o_pgrep os (now s) ''dbus-daemon'' = [] then spawn_tracked os Dbus (tick s) else tick s))"

section \<open>Generation and hooks\<close>

datatype generate_exit = GenerateLoad config_error | GenerateWrite generation_error | RealmMissing

text \<open>The generate command without \<^verbatim>\<open>--dry-run\<close>. A validated configuration has a realm; \<^verbatim>\<open>effective_realm\<close> panics without one.\<close>

definition handle_generate ::
  "env \<Rightarrow> gen_world \<Rightarrow> (config_error, NfsKlldapConfig) result \<Rightarrow> artifacts \<Rightarrow> (generate_exit, unit) result \<times> artifacts" where
  "handle_generate env w parsed a =
     (case load env parsed of
        Inl e \<Rightarrow> (Err (GenerateLoad e), a)
      | Inr cfg \<Rightarrow>
          (case effective_realm cfg of
             None \<Rightarrow> (Err RealmMissing, a)
           | Some r \<Rightarrow>
               (case generate_all (w\<lparr>w_env := env\<rparr>) cfg r (from_env env) a of
                  (Inl e, a') \<Rightarrow> (Err (GenerateWrite e), a')
                | (Inr _, a') \<Rightarrow> (Ok (), a'))))"

text \<open>The supervisor runs it as a child process, which may fail to start.\<close>

definition run_generate :: "os \<Rightarrow> sup \<Rightarrow> (sup_error, unit) result \<times> sup" where
  "run_generate os s =
     (case o_gen os (now s) of
        None \<Rightarrow> (Err GenerateNotRun, tick s)
      | Some w \<Rightarrow>
          (case handle_generate (o_env os) w (o_conf os (now s)) (disk s) of
             (Inl _, a) \<Rightarrow> (Err GenerateFailed, tick (s\<lparr>disk := a\<rparr>))
           | (Inr _, a) \<Rightarrow> (Ok (), tick (s\<lparr>disk := a\<rparr>))))"

definition effective_post_generate_hook :: "env \<Rightarrow> NfsKlldapConfig \<Rightarrow> string option" where
  "effective_post_generate_hook env cfg =
     (case opt_filter (\<lambda>t. t \<noteq> []) (map_option trim (env ''NFS_KLLDAP_POST_GENERATE_HOOK'')) of
        Some t \<Rightarrow> Some t
      | None \<Rightarrow> opt_filter (\<lambda>t. t \<noteq> []) (map_option trim (post_generate_hook (ganesha cfg))))"

definition hook_env :: "Share \<Rightarrow> (string \<times> string) list" where
  "hook_env share =
     (let serve_path = serve_path_for share;
          staging = unwrap_or (source_path share) serve_path;
          pseudo = derive_share_pseudo share
      in [(''SHARE_NAME'', name share), (''HOST_PATH'', host_path share), (''SOURCE_PATH'', staging),
          (''SERVE_PATH'', serve_path), (''CONTAINER_PATH'', serve_path), (''PSEUDO_PATH'', pseudo),
          (''EXPORT_PATH'', pseudo)])"

fun run_hooks :: "os \<Rightarrow> string \<Rightarrow> Share list \<Rightarrow> sup \<Rightarrow> (sup_error, unit) result \<times> sup" where
  "run_hooks os hook [] s = (Ok (), s)"
| "run_hooks os hook (share # rest) s =
     (if o_hook os (now s) hook (hook_env share) then run_hooks os hook rest (tick s)
      else (Err (HookFailed hook (name share)), tick s))"

definition run_post_generate_hooks :: "os \<Rightarrow> sup \<Rightarrow> (sup_error, unit) result \<times> sup" where
  "run_post_generate_hooks os s0 =
     (case read_config os s0 of
        (Inl e, s) \<Rightarrow> (Err (HookConfigLoad e), s)
      | (Inr cfg, s) \<Rightarrow>
          (case effective_post_generate_hook (o_env os) cfg of
             None \<Rightarrow> (Ok (), s)
           | Some hook \<Rightarrow>
               if \<not> o_executable os (now s) hook then (Err (HookNotExecutable hook), tick s)
               else run_hooks os hook (shares cfg) (tick s)))"

definition exports_fp :: "os \<Rightarrow> sup \<Rightarrow> 64 word" where
  "exports_fp os s = fingerprint_exports_dir (Some (o_list os (exports_art (disk s))))"

definition identity_fp :: "sup \<Rightarrow> 64 word" where
  "identity_fp s = fingerprint_identity_artifacts (sssd_art (disk s)) (krb5_art (disk s)) (idmap_art (disk s))"

definition avahi_fp :: "os \<Rightarrow> sup \<Rightarrow> 64 word" where
  "avahi_fp os s = fingerprint_avahi_dir (map_option (o_list os) (avahi_art (disk s)))"

record FingerprintChanges =
  exports_changed :: bool
  identity_changed :: bool
  shares_changed :: bool
  avahi_changed :: bool

definition shares_fp_now :: "os \<Rightarrow> 64 word \<Rightarrow> sup \<Rightarrow> 64 word \<times> sup" where
  "shares_fp_now os fallback s =
     (case read_config os s of (cfg, s) \<Rightarrow> ((case cfg of Inr c \<Rightarrow> fingerprint_shares c | Inl _ \<Rightarrow> fallback), s))"

definition regenerate_and_diff :: "os \<Rightarrow> sup \<Rightarrow> (sup_error, FingerprintChanges) result \<times> sup" where
  "regenerate_and_diff os s0 =
     (let exports_fp_before = exports_fp os s0;
          identity_fp_before = identity_fp s0;
          shares_fp_before = last_shares_fingerprint s0;
          avahi_fp_before = avahi_fp os s0 in
      case run_generate os s0 of
        (Inl e, s) \<Rightarrow> (Err e, s)
      | (Inr _, s) \<Rightarrow>
      case run_post_generate_hooks os s of
        (Inl e, s) \<Rightarrow> (Err e, s)
      | (Inr _, s) \<Rightarrow>
      let s = tick (s\<lparr>host_nfs_mode := resolve_host_nfs_mode (o_env os) (o_conf os (now s))\<rparr>) in
      case shares_fp_now os shares_fp_before s of (shares_fp_after, s) \<Rightarrow>
        (Ok \<lparr>exports_changed = (exports_fp_before \<noteq> exports_fp os s),
             identity_changed = (identity_fp_before \<noteq> identity_fp s),
             shares_changed = (shares_fp_before \<noteq> shares_fp_after),
             avahi_changed = (avahi_fp_before \<noteq> avahi_fp os s)\<rparr>,
         s\<lparr>last_shares_fingerprint := shares_fp_after\<rparr>))"

section \<open>Recycling\<close>

definition reload_webui :: "os \<Rightarrow> sup \<Rightarrow> sup" where
  "reload_webui os s0 =
     (case tracked_live os Webui s0 of (alive, s) \<Rightarrow>
        case (if alive then pids s Webui else None) of
          None \<Rightarrow> snd (start_webui os (set_pid Webui None s))
        | Some p \<Rightarrow>
            (case look os p (tick (emit (HupSent Webui p) s)) of (alive, s) \<Rightarrow>
               if alive then s else snd (start_webui os (set_pid Webui None s))))"

definition reload_avahi_services :: "os \<Rightarrow> sup \<Rightarrow> sup" where
  "reload_avahi_services os s0 =
     (case tracked_live os Avahi s0 of (alive, s) \<Rightarrow>
        case (if alive then pids s Avahi else None) of None \<Rightarrow> s | Some p \<Rightarrow> emit (HupSent Avahi p) s)"

text \<open>The Ganesha half of a plan before the identity services restart; a failed reload changes the plan.\<close>

definition recycle_ganesha :: "os \<Rightarrow> ServiceRecyclePlan \<Rightarrow> sup \<Rightarrow> ServiceRecyclePlan \<times> sup" where
  "recycle_ganesha os plan s =
     (if host_nfs_mode s then (plan, s)
      else case ganesha_action plan of
        GaneshaSkip \<Rightarrow> (plan, s)
      | Sighup \<Rightarrow>
          (case reload_ganesha_exports os s of (reloaded, s) \<Rightarrow>
             if reloaded then (plan, s)
             else case ganesha_running os s of (running, s) \<Rightarrow>
               (ganesha_sighup_failed plan, if running then stop_ganesha os s else s))
      | StopStart \<Rightarrow> (plan, stop_ganesha os s))"

definition recycle_identity :: "os \<Rightarrow> ServiceRecyclePlan \<Rightarrow> sup \<Rightarrow> sup" where
  "recycle_identity os plan s =
     (let s = (if plan_restart_sssd plan then restart_sssd_and_wait os s else s)
      in if plan_restart_idhelper plan then restart_idhelper_and_wait_bulk os s else s)"

definition restart_stopped_ganesha :: "os \<Rightarrow> ServiceRecyclePlan \<Rightarrow> sup \<Rightarrow> sup" where
  "restart_stopped_ganesha os plan s0 =
     (if host_nfs_mode s0 \<or> ganesha_action plan \<noteq> StopStart then s0
      else case ganesha_running os s0 of (running, s) \<Rightarrow>
        if running then s else start_ganesha os (ensure_ganesha_prereqs os s))"

definition recycle_webui :: "os \<Rightarrow> ServiceRecyclePlan \<Rightarrow> sup \<Rightarrow> sup" where
  "recycle_webui os plan s =
     (case webui_action plan of WebuiSkip \<Rightarrow> s | Restart \<Rightarrow> snd (start_webui os s) | Reload \<Rightarrow> reload_webui os s)"

definition execute_recycle_plan :: "os \<Rightarrow> ServiceRecyclePlan \<Rightarrow> sup \<Rightarrow> sup" where
  "execute_recycle_plan os plan s0 =
     (if supervise_probe os \<and> \<not> supervise_recycle_probe os \<and> \<not> supervise_identity_recycle_probe os then s0
      else if is_noop plan then s0
      else case recycle_ganesha os plan s0 of (plan, s) \<Rightarrow>
        let s = recycle_webui os plan (restart_stopped_ganesha os plan (recycle_identity os plan s))
        in if restart_avahi plan then start_avahi os (stop_avahi os s) else s)"

definition touch_recycle_marker :: "os \<Rightarrow> sup \<Rightarrow> sup" where
  "touch_recycle_marker os s = tick (if o_marker_write os (now s) then s\<lparr>recycle_marker := True\<rparr> else s)"

definition finish_recycle :: "os \<Rightarrow> sup \<Rightarrow> sup" where
  "finish_recycle os s =
     (let s = (if \<not> services_started s then snd (start_watcher os (s\<lparr>services_started := True\<rparr>)) else s)
      in touch_recycle_marker os s)"

definition handle_sighup :: "os \<Rightarrow> sup \<Rightarrow> (sup_error, unit) result \<times> sup" where
  "handle_sighup os s0 =
     (case regenerate_and_diff os (refresh_tracked_ganesha_pid os (tick s0)) of
        (Inl e, s) \<Rightarrow> (Err e, s)
      | (Inr changes, s) \<Rightarrow>
          (case (if services_started s
                 then (case ganesha_running os s of (running, s) \<Rightarrow>
                   (plan_from_changes (exports_changed changes) (identity_changed changes) (shares_changed changes)
                      (host_nfs_mode s) running, s))
                 else (plan_full_recycle (host_nfs_mode s), s)) of
             (plan, s) \<Rightarrow>
               let s = execute_recycle_plan os plan s;
                   s = (if avahi_changed changes \<and> \<not> restart_avahi plan then reload_avahi_services os s else s)
               in (Ok (), finish_recycle os s)))"

definition handle_full_recycle :: "os \<Rightarrow> sup \<Rightarrow> (sup_error, unit) result \<times> sup" where
  "handle_full_recycle os s0 =
     (case regenerate_and_diff os (refresh_tracked_ganesha_pid os (tick s0)) of
        (Inl e, s) \<Rightarrow> (Err e, s)
      | (Inr _, s) \<Rightarrow> (Ok (), finish_recycle os (execute_recycle_plan os (plan_full_recycle (host_nfs_mode s)) s)))"

section \<open>Bring-up\<close>

definition bring_up_services :: "os \<Rightarrow> sup \<Rightarrow> (sup_error, unit) result \<times> sup" where
  "bring_up_services os s0 =
     (case run_generate os s0 of
        (Inl e, s) \<Rightarrow> (Err e, s)
      | (Inr _, s) \<Rightarrow>
      case run_post_generate_hooks os s of
        (Inl e, s) \<Rightarrow> (Err e, s)
      | (Inr _, s) \<Rightarrow>
      case shares_fp_now os 0 s of (fp, s) \<Rightarrow>
      let s = s\<lparr>last_shares_fingerprint := fp\<rparr> in
      if supervise_probe os then (Ok (), s)
      else let s = restart_idhelper_and_wait_bulk os (restart_sssd_and_wait os s) in
        (Ok (), if host_nfs_mode s then s
                else start_avahi os (start_ganesha os (ensure_ganesha_prereqs os s))))"

definition wait_for_ganesha_readiness :: "os \<Rightarrow> sup \<Rightarrow> bool \<times> sup" where
  "wait_for_ganesha_readiness os s0 =
     (if any_probe_mode os \<or> host_nfs_mode s0 then (True, s0)
      else if o_env os ''NFS_KLLDAP_SUPERVISOR_TICK_MS'' \<noteq> None \<or> o_env os ''NFS_KLLDAP_TEST_PERSISTENT'' \<noteq> None
      then (True, tick s0)
      else if \<not> o_idhelper_socket os (now s0) then (False, tick s0)
      else let s = refresh_tracked_ganesha_pid os s0 in (o_ready os (now s), tick s))"

definition mark_setup_wizard_complete :: "os \<Rightarrow> sup \<Rightarrow> sup" where
  "mark_setup_wizard_complete os s =
     tick (if o_marker_write os (now s) then s\<lparr>setup_marker := True\<rparr> else s)"

section \<open>Steady state\<close>

fun service_key :: "service \<Rightarrow> string" where
  "service_key Watcher = ''watcher''"
| "service_key Sssd = ''sssd''"
| "service_key Ganesha = ''ganesha''"
| "service_key Webui = ''webui''"
| "service_key Dbus = ''dbus''"
| "service_key Idhelper = ''idhelper''"
| "service_key Avahi = ''avahi''"

text \<open>A tracked process that is not live; without a tracked process there is nothing to look at.\<close>

definition tracked_dead :: "os \<Rightarrow> service \<Rightarrow> sup \<Rightarrow> bool \<times> sup" where
  "tracked_dead os svc s =
     (case pids s svc of None \<Rightarrow> (False, s) | Some p \<Rightarrow> (case look os p s of (alive, s) \<Rightarrow> (\<not> alive, s)))"

definition respawn_needed :: "os \<Rightarrow> service \<Rightarrow> sup \<Rightarrow> bool \<times> sup" where
  "respawn_needed os svc s =
     (case svc of
        Webui \<Rightarrow> tracked_dead os Webui s
      | Ganesha \<Rightarrow>
          if ganesha_managed s \<and> \<not> host_nfs_mode s
          then (case tracked_live os Ganesha s of (alive, s) \<Rightarrow> (\<not> alive, s)) else (False, s)
      | Avahi \<Rightarrow>
          if avahi_managed s \<and> \<not> host_nfs_mode s
          then (case tracked_live os Avahi s of (alive, s) \<Rightarrow> (\<not> alive, s)) else (False, s)
      | _ \<Rightarrow> if services_started s then tracked_dead os svc s else (False, s))"

fun respawn_service :: "os \<Rightarrow> service \<Rightarrow> sup \<Rightarrow> sup" where
  "respawn_service os Webui s = snd (start_webui os s)"
| "respawn_service os Watcher s = snd (start_watcher os s)"
| "respawn_service os Sssd s = restart_sssd_and_wait os s"
| "respawn_service os Idhelper s = restart_idhelper_and_wait_bulk os s"
| "respawn_service os Dbus s = ensure_ganesha_prereqs os s"
| "respawn_service os Ganesha s = start_ganesha os s"
| "respawn_service os Avahi s = start_avahi os s"

definition check_service :: "os \<Rightarrow> instant \<Rightarrow> service \<Rightarrow> sup \<Rightarrow> sup" where
  "check_service os at svc s0 =
     (case respawn_needed os svc s0 of (needed, s) \<Rightarrow>
        if \<not> needed then s
        else case decide (respawn_budget s) (service_key svc) at of (decision, b) \<Rightarrow>
          let s = s\<lparr>respawn_budget := b\<rparr> in
          if decision = Go then respawn_service os svc s else s)"

definition check_and_respawn_services :: "os \<Rightarrow> sup \<Rightarrow> sup" where
  "check_and_respawn_services os s =
     fold (check_service os (o_instant os (now s)))
       [Dbus, Sssd, Idhelper, Watcher, Webui, Ganesha, Avahi] (tick s)"

section \<open>The loop\<close>

definition startup_probes :: "os \<Rightarrow> sup \<Rightarrow> probes" where
  "startup_probes os s = (o_probes os (now s))\<lparr>pr_env := o_env os, conf_parsed := o_conf os (now s)\<rparr>"

text \<open>The completion marker is written by the supervisor or by the setup wizard of the WebUI.\<close>

definition is_setup_wizard_complete :: "os \<Rightarrow> sup \<Rightarrow> bool" where
  "is_setup_wizard_complete os s = (setup_marker s \<or> wizard_marker (o_probes os (now s)))"

definition reload_outcome :: "os \<Rightarrow> (os \<Rightarrow> sup \<Rightarrow> (sup_error, unit) result \<times> sup) \<Rightarrow> sup \<Rightarrow> sup" where
  "reload_outcome os handler s0 =
     (case handler os s0 of
        (Inr _, s) \<Rightarrow>
          let s = s\<lparr>services_started := True\<rparr>
          in if pids s0 Watcher = None then snd (start_watcher os s) else s
      | (Inl _, s) \<Rightarrow> s)"

definition bring_up_outcome :: "os \<Rightarrow> sup \<Rightarrow> sup" where
  "bring_up_outcome os s0 =
     (case bring_up_services os (mark_setup_wizard_complete os s0) of
        (Inl _, s) \<Rightarrow> s
      | (Inr _, s) \<Rightarrow>
          let s = snd (start_watcher os (s\<lparr>services_started := True\<rparr>));
              s = (if \<not> host_nfs_mode s \<and> pids s Ganesha \<noteq> None then snd (wait_for_ganesha_readiness os s) else s);
              s = snd (start_webui os s)
          in touch_recycle_marker os s)"

definition perform :: "os \<Rightarrow> SupervisorLoopAction \<Rightarrow> sup \<Rightarrow> sup" where
  "perform os action s =
     (case action of
        ProcessSighup \<Rightarrow> reload_outcome os handle_sighup s
      | ProcessFullRecycle \<Rightarrow> reload_outcome os handle_full_recycle s
      | BringUpServices \<Rightarrow> bring_up_outcome os s
      | Idle \<Rightarrow> check_and_respawn_services os s)"

text \<open>One pass of the loop after the shutdown test: both request flags are taken, then acted upon.\<close>

definition tick_action :: "os \<Rightarrow> sup \<Rightarrow> SupervisorLoopAction" where
  "tick_action os s =
     (let step = (if services_started s then Ready
                  else if supervise_probe os
                  then compute_wizard_step ((startup_probes os s)\<lparr>wizard_marker := is_setup_wizard_complete os s\<rparr>)
                  else compute_startup_step (startup_probes os s))
      in fst (supervisor_loop_tick (services_started s) (sighup_flag s) (full_recycle_flag s)
           (is_setup_wizard_complete os s) step))"

definition loop_pass :: "os \<Rightarrow> sup \<Rightarrow> sup" where
  "loop_pass os s =
     tick (perform os (tick_action os s) (tick (s\<lparr>sighup_flag := False, full_recycle_flag := False\<rparr>)))"

definition cleanup :: "os \<Rightarrow> sup \<Rightarrow> sup" where
  "cleanup os s0 =
     (let s = fold term_tracked [Webui, Ganesha, Sssd, Watcher, Dbus, Idhelper, Avahi] s0;
          s = (stop_ganesha os s)\<lparr>ganesha_managed := False, avahi_managed := False\<rparr>
      in fold (\<lambda>n s. emit (PkillTerm n) s)
           [''avahi-daemon'', ''sssd'', unwrap_or (o_env os ''WATCHER_BIN'') ''/usr/local/bin/nfs-klldap-conf-watcher'',
            ''dbus-daemon'', idhelper_bin os] s)"

text \<open>Signals arrive between passes; a pass runs while no shutdown is requested.\<close>

inductive sup_step :: "os \<Rightarrow> sup \<Rightarrow> sup \<Rightarrow> bool" for os where
  sigterm: "sup_step os s (s\<lparr>shutdown_flag := True\<rparr>)"
| sighup: "sup_step os s (s\<lparr>sighup_flag := True\<rparr>)"
| sigusr1: "sup_step os s (s\<lparr>full_recycle_flag := True\<rparr>)"
| pass: "\<not> shutdown_flag s \<Longrightarrow> sup_step os s (loop_pass os s)"

inductive_simps sup_step_simps: "sup_step os s t"

text \<open>
  The start of the supervisor up to the loop. The three CI modes that run a scripted reload in
  place of the loop leave before the preflight checks and are not part of it.
\<close>

definition use_nss_wrapper :: "os \<Rightarrow> bool" where
  "use_nss_wrapper os =
     (case o_env os ''USE_NSS_WRAPPER'' of
        Some v \<Rightarrow> v \<noteq> ''0'' \<and> \<not> eq_ignore_ascii_case v ''false''
      | None \<Rightarrow> True)"

definition required_bins :: "os \<Rightarrow> string list" where
  "required_bins os =
     (let env_path = (\<lambda>key default. unwrap_or (o_env os key) default) in
      [env_path ''CONFIG_BIN'' ''/usr/local/bin/nfs-klldap-config'',
       env_path ''UI_BIN'' ''/usr/local/bin/nfs-klldap-ui'',
       env_path ''WATCHER_BIN'' ''/usr/local/bin/nfs-klldap-conf-watcher'',
       idhelper_bin os,
       env_path ''HEALTHCHECK'' ''/container/healthcheck.sh''])"

definition preflight_checks :: "os \<Rightarrow> sup \<Rightarrow> (sup_error, unit) result \<times> sup" where
  "preflight_checks os s =
     (if list_all (o_executable os (now s)) (required_bins os)
         \<and> (supervise_probe os \<or> o_inotifywait os (now s))
         \<and> (use_nss_wrapper os \<longrightarrow> o_nss_wrapper_so os (now s))
      then (Ok (), tick s) else (Err PreflightFailed, tick s))"

definition ensure_config_initialized :: "os \<Rightarrow> sup \<Rightarrow> (sup_error, unit) result \<times> sup" where
  "ensure_config_initialized os s =
     (if o_conf_file os (now s) then (Ok (), tick s)
      else case o_conf_init os (now s) of
        None \<Rightarrow> (Err ConfigInitNotRun, tick s)
      | Some success \<Rightarrow> (if success then Ok () else Err ConfigInitFailed, tick s))"

definition boot_services :: "os \<Rightarrow> sup \<Rightarrow> (sup_error, unit) result \<times> sup" where
  "boot_services os s0 =
     (if is_preconfigured_deployment (startup_probes os s0) then
        (case bring_up_services os (mark_setup_wizard_complete os s0) of
           (Inl e, s) \<Rightarrow> (Err e, s)
         | (Inr _, s) \<Rightarrow>
             let s = s\<lparr>services_started := True, recycle_marker := False\<rparr>;
                 s = (if \<not> host_nfs_mode s then snd (wait_for_ganesha_readiness os s) else s);
                 s = snd (start_watcher os s)
             in (Ok (), if \<not> host_nfs_mode s then snd (start_webui os s) else s))
      else case start_webui os s0 of
        (Inl e, s) \<Rightarrow> (Err e, s)
      | (Inr _, s) \<Rightarrow> (Ok (), s\<lparr>recycle_marker := False\<rparr>))"

definition boot :: "os \<Rightarrow> sup \<Rightarrow> (sup_error, unit) result \<times> sup" where
  "boot os s0 =
     (case preflight_checks os s0 of
        (Inl e, s) \<Rightarrow> (Err e, s)
      | (Inr _, s) \<Rightarrow>
          (case ensure_config_initialized os s of
             (Inl e, s) \<Rightarrow> (Err e, s)
           | (Inr _, s) \<Rightarrow> boot_services os s))"

definition fresh_supervisor :: "os \<Rightarrow> artifacts \<Rightarrow> sup" where
  "fresh_supervisor os a =
     \<lparr>now = 0, trace = [], disk = a, pids = (\<lambda>_. None), services_started = False, ganesha_managed = False,
      avahi_managed = False, host_nfs_mode = resolve_host_nfs_mode (o_env os) (o_conf os 0),
      last_shares_fingerprint = 0, respawn_budget = empty_budget, recycle_marker = False, setup_marker = False,
      shutdown_flag = False, sighup_flag = False, full_recycle_flag = False\<rparr>"

inductive reachable :: "os \<Rightarrow> artifacts \<Rightarrow> sup \<Rightarrow> bool" for os a where
  booted: "boot os (fresh_supervisor os a) = (Ok (), s) \<Longrightarrow> reachable os a s"
| step: "reachable os a s \<Longrightarrow> sup_step os s t \<Longrightarrow> reachable os a t"

section \<open>Invariants of the supervisor\<close>

lemma state_simps [simp]:
  "now (tick s) = Suc (now s)" "trace (tick s) = trace s" "pids (tick s) = pids s"
  "host_nfs_mode (tick s) = host_nfs_mode s" "services_started (tick s) = services_started s"
  "ganesha_managed (tick s) = ganesha_managed s" "disk (tick s) = disk s"
  "last_shares_fingerprint (tick s) = last_shares_fingerprint s"
  "now (emit e s) = now s" "trace (emit e s) = e # trace s" "pids (emit e s) = pids s"
  "host_nfs_mode (emit e s) = host_nfs_mode s" "services_started (emit e s) = services_started s"
  "now (set_pid svc x s) = now s" "trace (set_pid svc x s) = trace s" "pids (set_pid svc x s) = (pids s)(svc := x)"
  "host_nfs_mode (set_pid svc x s) = host_nfs_mode s" "services_started (set_pid svc x s) = services_started s"
  by (simp_all add: tick_def emit_def set_pid_def)

lemma look_simps [simp]: "look os p s = (live_at os (now s) p, tick s)"
  by (simp add: look_def)

lemma generate_started: "services_started (snd (run_generate os s)) = services_started s"
  by (simp add: run_generate_def split: option.split prod.split sum.split)

lemma run_hooks_started: "services_started (snd (run_hooks os hook shs s)) = services_started s"
  by (induction shs arbitrary: s) auto

lemma hooks_started: "services_started (snd (run_post_generate_hooks os s)) = services_started s"
  by (simp add: run_post_generate_hooks_def read_config_def run_hooks_started split: sum.split option.split)

lemma regenerate_started: "services_started (snd (regenerate_and_diff os s)) = services_started s"
proof -
  obtain r1 s1 where g: "run_generate os s = (r1, s1)" by fastforce
  obtain r2 s2 where h: "run_post_generate_hooks os s1 = (r2, s2)" by fastforce
  show ?thesis
    using generate_started [of os s] hooks_started [of os s1]
    by (auto simp: regenerate_and_diff_def Let_def g h shares_fp_now_def read_config_def split: sum.split)
qed

definition sends_only :: "event \<Rightarrow> bool" where
  "sends_only e = (case e of Spawned _ _ \<Rightarrow> False | Adopted _ \<Rightarrow> False | _ \<Rightarrow> True)"

lemma sends_only_simps [simp]:
  "sends_only (HupSent svc p)" "sends_only (TermSent svc p)" "sends_only (KillSent svc p)" "sends_only (PkillTerm n)"
  "\<not> sends_only (Spawned svc p)" "\<not> sends_only (Adopted p)"
  by (simp_all add: sends_only_def)

text \<open>
  What an invariant of the supervisor has to survive: time passing, signals being sent, children
  other than Ganesha being tracked and untracked, the mode being resolved again; and, for
  Ganesha, that it is dropped only after it was seen dead, spawned only while none is tracked
  and not in host mode, and replaced by a process found running only after it was seen dead.
  The operations that restart the identity services are the extension.
\<close>

text \<open>At some instant before \<open>n\<close>, while process \<open>p\<close> was tracked as Ganesha, it was looked at and not live.\<close>

definition seen_dead :: "os \<Rightarrow> (sup \<Rightarrow> bool) \<Rightarrow> nat \<Rightarrow> nat \<Rightarrow> bool" where
  "seen_dead os I p n = (\<exists>s0 t. I s0 \<and> pids s0 Ganesha = Some p \<and> now s0 \<le> t \<and> t < n \<and> \<not> live_at os t p)"

lemma seen_dead_mono: "seen_dead os I p m \<Longrightarrow> m \<le> n \<Longrightarrow> seen_dead os I p n"
  unfolding seen_dead_def by (meson order_less_le_trans)

lemma seen_deadI: "I s \<Longrightarrow> pids s Ganesha = Some p \<Longrightarrow> \<not> live_at os (now s) p \<Longrightarrow> seen_dead os I p (Suc (now s))"
  unfolding seen_dead_def by blast

locale sup_ops =
  fixes os :: os and I :: "sup \<Rightarrow> bool"
  assumes frame: "I s \<Longrightarrow> now s' = now s \<Longrightarrow> trace s' = trace s \<Longrightarrow> pids s' = pids s
      \<Longrightarrow> host_nfs_mode s' = host_nfs_mode s \<Longrightarrow> I s'"
    and time: "I s \<Longrightarrow> I (tick s)"
    and signal: "I s \<Longrightarrow> sends_only e \<Longrightarrow> I (emit e s)"
    and mode: "I s \<Longrightarrow> I (s\<lparr>host_nfs_mode := resolve_host_nfs_mode (o_env os) parsed\<rparr>)"
    and untrack: "I s \<Longrightarrow> svc \<noteq> Ganesha \<Longrightarrow> I (set_pid svc None s)"
    and track: "I s \<Longrightarrow> svc \<in> {Watcher, Webui, Dbus} \<Longrightarrow> I (spawn_tracked os svc s)"
    and track_avahi: "I s \<Longrightarrow> \<not> host_nfs_mode s \<Longrightarrow> I (spawn_tracked os Avahi s)"
    and drop_dead: "I s \<Longrightarrow> pids s Ganesha = Some p \<Longrightarrow> seen_dead os I p (now s) \<Longrightarrow> I (set_pid Ganesha None s)"
    and spawn_ganesha: "I s \<Longrightarrow> pids s Ganesha = None \<Longrightarrow> \<not> host_nfs_mode s \<Longrightarrow> o_spawn os (now s) Ganesha = Some p
      \<Longrightarrow> I (set_pid Ganesha (Some p) (emit (Spawned Ganesha p) (tick s)))"
    and adopt: "I s \<Longrightarrow> (\<And>q. pids s Ganesha = Some q \<Longrightarrow> seen_dead os I q (now s)) \<Longrightarrow> \<not> host_nfs_mode s
      \<Longrightarrow> live_at os t p \<Longrightarrow> t < now s \<Longrightarrow> I (adopt_ganesha p s)"
begin

lemma upd [simp]:
  "I (s\<lparr>disk := a\<rparr>) \<longleftrightarrow> I s" "I (s\<lparr>services_started := b\<rparr>) \<longleftrightarrow> I s" "I (s\<lparr>ganesha_managed := b\<rparr>) \<longleftrightarrow> I s"
  "I (s\<lparr>avahi_managed := b\<rparr>) \<longleftrightarrow> I s" "I (s\<lparr>last_shares_fingerprint := w\<rparr>) \<longleftrightarrow> I s"
  "I (s\<lparr>respawn_budget := rb\<rparr>) \<longleftrightarrow> I s" "I (s\<lparr>recycle_marker := b\<rparr>) \<longleftrightarrow> I s" "I (s\<lparr>setup_marker := b\<rparr>) \<longleftrightarrow> I s"
  "I (s\<lparr>shutdown_flag := b\<rparr>) \<longleftrightarrow> I s" "I (s\<lparr>sighup_flag := b\<rparr>) \<longleftrightarrow> I s" "I (s\<lparr>full_recycle_flag := b\<rparr>) \<longleftrightarrow> I s"
  by (rule iffI; erule frame; simp)+

lemma tracked_live_I: "I s \<Longrightarrow> I (snd (tracked_live os svc s))"
  by (auto simp: tracked_live_def time split: option.split)

lemma tracked_live_pids [simp]:
  "pids (snd (tracked_live os svc s)) = pids s" "host_nfs_mode (snd (tracked_live os svc s)) = host_nfs_mode s"
  by (auto simp: tracked_live_def split: option.split)

lemma tracked_live_dead:
  "I s \<Longrightarrow> \<not> fst (tracked_live os Ganesha s) \<Longrightarrow> pids s Ganesha = Some p \<Longrightarrow>
     seen_dead os I p (now (snd (tracked_live os Ganesha s)))"
  by (simp add: tracked_live_def seen_deadI)

lemma refresh_I: "I s \<Longrightarrow> I (refresh_tracked_ganesha_pid os s)"
  by (auto simp: refresh_tracked_ganesha_pid_def time seen_deadI split: option.split intro: drop_dead)

lemma refresh_host [simp]: "host_nfs_mode (refresh_tracked_ganesha_pid os s) = host_nfs_mode s"
  "services_started (refresh_tracked_ganesha_pid os s) = services_started s"
  by (auto simp: refresh_tracked_ganesha_pid_def split: option.split)

lemma running_I: "I s \<Longrightarrow> I (snd (ganesha_running os s))"
  by (simp add: ganesha_running_def tracked_live_I refresh_I)

lemma reload_I: "I s \<Longrightarrow> I (snd (reload_ganesha_exports os s))"
  using refresh_I [of s]
  by (auto simp: reload_ganesha_exports_def Let_def time signal seen_deadI split: option.split intro: drop_dead)

lemma wait_gone_props:
  "I s \<Longrightarrow> I (snd (wait_gone os n p s)) \<and> pids (snd (wait_gone os n p s)) = pids s
     \<and> host_nfs_mode (snd (wait_gone os n p s)) = host_nfs_mode s
     \<and> (fst (wait_gone os n p s) \<longrightarrow> pids s Ganesha = Some p \<longrightarrow> seen_dead os I p (now (snd (wait_gone os n p s))))"
proof (induction n arbitrary: s)
  case 0
  then show ?case by (auto simp: wait_gone.simps [of os 0] time seen_deadI)
next
  case (Suc n)
  from Suc.IH [OF time [OF Suc.prems]] Suc.prems show ?case
    by (auto simp: wait_gone.simps [of os "Suc n"] time seen_deadI)
qed

lemma forget_I: "I s \<Longrightarrow> pids s Ganesha = Some p \<Longrightarrow> seen_dead os I p (now s) \<Longrightarrow> I (forget_ganesha s)"
  by (simp add: forget_ganesha_def drop_dead)

lemma escalate_I:
  assumes "I s" "pids s Ganesha = Some p" and next_step: "\<And>s'. I s' \<Longrightarrow> pids s' Ganesha = Some p \<Longrightarrow> I (f s')"
  shows "I (case wait_gone os n p s of (gone, s) \<Rightarrow> if gone then forget_ganesha s else f s)"
  using wait_gone_props [OF assms(1), of n p] assms(2) next_step
  by (auto split: prod.split intro: forget_I)

lemma stop_ganesha_I:
  assumes "I s"
  shows "I (stop_ganesha os s)"
proof (cases "pids (refresh_tracked_ganesha_pid os s) Ganesha")
  case None
  then show ?thesis
    by (auto simp: stop_ganesha_def intro: frame [OF refresh_I [OF assms]])
next
  case (Some p)
  define s1 where "s1 = tick (refresh_tracked_ganesha_pid os s)"
  have s1: "I s1" "pids s1 Ganesha = Some p" using Some by (simp_all add: s1_def time refresh_I assms)
  show ?thesis
  proof (cases "live_at os (now (refresh_tracked_ganesha_pid os s)) p")
    case False
    then have "seen_dead os I p (now s1)" using Some by (simp add: s1_def seen_deadI refresh_I assms)
    with s1 have "I (forget_ganesha s1)" by (rule forget_I)
    with False Some show ?thesis by (simp add: stop_ganesha_def s1_def [symmetric])
  next
    case True
    have "I (case wait_gone os n p (emit (TermSent Ganesha p) s1) of (gone, s) \<Rightarrow> if gone then forget_ganesha s
        else case look os p s of (alive, s) \<Rightarrow>
          let s = (if alive then emit (KillSent Ganesha p) s else s)
          in case wait_gone os (o_polls os (now s)) p s of (gone, s) \<Rightarrow> if gone then forget_ganesha s else s)" for n
      by (rule escalate_I) (auto simp: s1 signal Let_def time intro!: escalate_I)
    with True Some show ?thesis by (simp add: stop_ganesha_def s1_def [symmetric] Let_def [of "emit _ _"])
  qed
qed

lemma read_config_I: "I s \<Longrightarrow> I (snd (read_config os s))"
  by (simp add: read_config_def time)

lemma warm_I: "I s \<Longrightarrow> I (snd (warm_identity_principals_before_ganesha os s))"
  by (simp add: warm_identity_principals_before_ganesha_def read_config_def Let_def time)

lemma warm_frame [simp]:
  "pids (snd (warm_identity_principals_before_ganesha os s)) = pids s"
  "host_nfs_mode (snd (warm_identity_principals_before_ganesha os s)) = host_nfs_mode s"
  by (simp_all add: warm_identity_principals_before_ganesha_def read_config_def Let_def)

lemma live_pids_props:
  "I s \<Longrightarrow> I (snd (live_pids os ps s)) \<and> pids (snd (live_pids os ps s)) = pids s
     \<and> host_nfs_mode (snd (live_pids os ps s)) = host_nfs_mode s \<and> now s \<le> now (snd (live_pids os ps s))
     \<and> (\<forall>p \<in> set (fst (live_pids os ps s)). \<exists>t < now (snd (live_pids os ps s)). live_at os t p)"
proof (induction ps arbitrary: s)
  case (Cons p ps)
  from Cons.IH [OF time [OF Cons.prems]] show ?case
    by (auto split: prod.split intro: exI [of _ "now s"])
qed simp

lemma discover_props:
  assumes "I s"
  shows "I (snd (discover_ganesha_daemon_pid os s)) \<and> pids (snd (discover_ganesha_daemon_pid os s)) = pids s
     \<and> host_nfs_mode (snd (discover_ganesha_daemon_pid os s)) = host_nfs_mode s
     \<and> now s \<le> now (snd (discover_ganesha_daemon_pid os s))
     \<and> (\<forall>p. fst (discover_ganesha_daemon_pid os s) = Some p \<longrightarrow>
          (\<exists>t < now (snd (discover_ganesha_daemon_pid os s)). live_at os t p))"
  using live_pids_props [OF time [OF assms], of "o_pgrep os (now s) ''ganesha.nfsd''"]
  by (auto simp: discover_ganesha_daemon_pid_def split: prod.split list.split)

lemma confirm_I:
  assumes "I s" "\<not> host_nfs_mode s"
  shows "I (confirm_ganesha_daemon_pid_env os s)"
proof (cases "ganesha_managed s \<and> \<not> fst (tracked_live os Ganesha s)")
  case False
  then show ?thesis
    using assms(1) tracked_live_I [OF assms(1), of Ganesha]
    by (auto simp: confirm_ganesha_daemon_pid_env_def split: prod.split)
next
  case True
  define s1 where "s1 = snd (tracked_live os Ganesha s)"
  define d where "d = discover_ganesha_daemon_pid os s1"
  define s2 where "s2 = snd d"
  have s1: "I s1" "pids s1 = pids s" "\<not> host_nfs_mode s1" by (simp_all add: s1_def assms tracked_live_I)
  note props = discover_props [OF s1(1), folded d_def s2_def]
  have s2: "I s2" "\<not> host_nfs_mode s2" using props s1 by simp_all
  have dead: "seen_dead os I q (now s2)" if "pids s2 Ganesha = Some q" for q
    using tracked_live_dead [OF assms(1), of q, folded s1_def] True that props s1(2) by (auto intro: seen_dead_mono)
  have adopt2: "I (adopt_ganesha p s2)" if "\<exists>t < now s2. live_at os t p" for p
    using adopt [OF s2(1) dead s2(2)] that by blast
  have late: "I (adopt_ganesha p (tick s2))" if "live_at os (now s2) p" for p
  proof (rule adopt [OF time [OF s2(1)] _ _ that])
    show "seen_dead os I q (now (tick s2))" if "pids (tick s2) Ganesha = Some q" for q
      using dead [of q] that by (auto intro: seen_dead_mono)
  qed (use s2 in simp_all)
  obtain r where d: "d = (r, s2)" by (simp add: s2_def) (metis prod.collapse)
  have "tracked_live os Ganesha s = (False, s1)" using True by (metis prod.collapse s1_def)
  then have "confirm_ganesha_daemon_pid_env os s =
      (case d of (Some p, s) \<Rightarrow> if pids s Ganesha \<noteq> Some p then adopt_ganesha p s else s
       | (None, s) \<Rightarrow> (case Option.bind (o_pidfile os (now s)) (\<lambda>c. parse_u32 (trim c)) of
               Some w \<Rightarrow> (case look os (unat w) s of (alive, s) \<Rightarrow> if alive then adopt_ganesha (unat w) s else s)
             | None \<Rightarrow> tick s))"
    using True by (simp add: confirm_ganesha_daemon_pid_env_def d_def)
  then show ?thesis
    using props s2 adopt2 late by (auto simp: d time split: option.split)
qed

lemma start_ganesha_I:
  assumes "I s" "\<not> host_nfs_mode s"
  shows "I (start_ganesha os s)"
proof (cases "fst (tracked_live os Ganesha s)")
  case True
  then show ?thesis using tracked_live_I [OF assms(1), of Ganesha] by (auto simp: start_ganesha_def split: prod.split)
next
  case False
  define s1 where "s1 = set_pid Ganesha None (snd (tracked_live os Ganesha s))"
  have s1: "I s1" "pids s1 Ganesha = None" "\<not> host_nfs_mode s1"
  proof -
    show "I s1"
    proof (cases "pids s Ganesha")
      case None
      show ?thesis unfolding s1_def
        by (rule frame [OF tracked_live_I [OF assms(1), of Ganesha]]) (use None in auto)
    next
      case (Some p)
      with tracked_live_dead [OF assms(1) False] Some show ?thesis
        unfolding s1_def by (intro drop_dead [OF tracked_live_I [OF assms(1)]]) auto
    qed
  qed (simp_all add: s1_def assms)
  define s2 where "s2 = snd (warm_identity_principals_before_ganesha os (tick s1))"
  have s2: "I s2" "pids s2 Ganesha = None" "\<not> host_nfs_mode s2"
    using s1 by (simp_all add: s2_def warm_I time)
  have "I (case spawn os Ganesha s2 of (None, s) \<Rightarrow> s
      | (Some p, s) \<Rightarrow> confirm_ganesha_daemon_pid_env os (tick ((set_pid Ganesha (Some p) s)\<lparr>ganesha_managed := True\<rparr>)))"
  proof (cases "o_spawn os (now s2) Ganesha")
    case None
    then show ?thesis by (simp add: spawn_def time s2)
  next
    case (Some p)
    have "I (tick ((set_pid Ganesha (Some p) (emit (Spawned Ganesha p) (tick s2)))\<lparr>ganesha_managed := True\<rparr>))"
      by (rule time, rule frame [OF spawn_ganesha [OF s2 Some]]) simp_all
    with Some s2(3) show ?thesis by (simp add: spawn_def confirm_I)
  qed
  moreover obtain w where "warm_identity_principals_before_ganesha os (tick s1) = (w, s2)"
    by (metis prod.collapse s2_def)
  moreover obtain s0 where "tracked_live os Ganesha s = (False, s0)" "s1 = set_pid Ganesha None s0"
    using False by (metis prod.collapse s1_def)
  ultimately show ?thesis using s2(1) by (simp add: start_ganesha_def)
qed

lemma track_result_I: "I s \<Longrightarrow> svc \<in> {Watcher, Webui, Dbus} \<Longrightarrow> spawn os svc s = (Some p, t) \<Longrightarrow> I (set_pid svc (Some p) t)"
  using track [of s svc] by (simp add: spawn_tracked_def)

lemma spawn_failed_I: "I s \<Longrightarrow> spawn os svc s = (None, t) \<Longrightarrow> I t"
  by (auto simp: spawn_def time split: option.splits)

lemma start_watcher_I: "I s \<Longrightarrow> I (snd (start_watcher os s))"
  by (auto simp: start_watcher_def split: prod.split option.split intro: track_result_I spawn_failed_I)

lemma term_tracked_I: "I s \<Longrightarrow> I (term_tracked svc s)"
  by (auto simp: term_tracked_def signal split: option.split)

lemma start_webui_I: "I s \<Longrightarrow> I (snd (start_webui os s))"
  using time [OF term_tracked_I [of s Webui]]
  by (auto simp: start_webui_def split: prod.split option.split intro: time track_result_I spawn_failed_I)

lemma start_avahi_I:
  assumes "I s"
  shows "I (start_avahi os s)"
proof (cases "host_nfs_mode s")
  case True
  then show ?thesis using assms by (simp add: start_avahi_def read_config_def time)
next
  case False
  define s1 where "s1 = snd (tracked_live os Avahi (tick s))"
  have s1: "I s1" "\<not> host_nfs_mode s1" by (simp_all add: s1_def assms time tracked_live_I False)
  then have s2: "I (set_pid Avahi None s1)" by (simp add: untrack)
  have "I ((set_pid Avahi (Some p) t)\<lparr>avahi_managed := True\<rparr>)" if "spawn os Avahi (set_pid Avahi None s1) = (Some p, t)" for p t
  proof (rule frame)
    show "I (set_pid Avahi (Some p) t)" using track_avahi [OF s2] s1(2) that by (simp add: spawn_tracked_def)
  qed simp_all
  with s1 s2 spawn_failed_I [OF s2] False assms show ?thesis
    by (auto simp: start_avahi_def read_config_def s1_def time split: prod.split option.split)
qed

lemma stop_avahi_I:
  assumes "I s"
  shows "I (stop_avahi os s)"
proof (cases "pids s Avahi")
  case None
  then show ?thesis by (auto simp: stop_avahi_def intro: frame [OF assms])
next
  case (Some p)
  define s1 where "s1 = emit (TermSent Avahi p) (tick s)"
  obtain g s2 where w: "wait_gone os (o_polls os (now s1)) p s1 = (g, s2)" by fastforce
  have s1: "I s1" by (simp add: s1_def signal time assms)
  have s2: "I s2" using wait_gone_props [OF s1] w by (metis snd_conv)
  have "I (if \<not> live_at os (now s) p then tick s
      else if live_at os (now s2) p then emit (KillSent Avahi p) (tick s2) else tick s2)"
    by (simp add: s2 time signal assms)
  then show ?thesis
    using w by (simp add: stop_avahi_def Some Let_def s1_def [symmetric] untrack split: if_splits)
qed

lemma prereqs_I: "I s \<Longrightarrow> I (ensure_ganesha_prereqs os s)"
  by (simp add: ensure_ganesha_prereqs_def Let_def time track)

lemma prereqs_host: "host_nfs_mode (ensure_ganesha_prereqs os s) = host_nfs_mode s"
  by (simp add: ensure_ganesha_prereqs_def Let_def spawn_tracked_def spawn_def split: option.split)

lemma run_generate_I: "I s \<Longrightarrow> I (snd (run_generate os s))"
  by (auto simp: run_generate_def split: option.split prod.split sum.split intro!: time elim: frame)

lemma run_hooks_I: "I s \<Longrightarrow> I (snd (run_hooks os hook shs s))"
  by (induction shs arbitrary: s) (auto simp: time)

lemma post_hooks_I: "I s \<Longrightarrow> I (snd (run_post_generate_hooks os s))"
  by (auto simp: run_post_generate_hooks_def read_config_def time run_hooks_I split: sum.split option.split)

lemma shares_fp_I: "I s \<Longrightarrow> I (snd (shares_fp_now os x s))"
  by (simp add: shares_fp_now_def read_config_def time)

lemma of_pair: "I (snd x) \<Longrightarrow> x = (r, s) \<Longrightarrow> I s"
  by simp

lemmas generate_D = of_pair [OF run_generate_I]
lemmas hooks_D = of_pair [OF post_hooks_I]
lemmas shares_fp_D = of_pair [OF shares_fp_I]
lemmas running_D = of_pair [OF running_I]
lemmas reload_D = of_pair [OF reload_I]
lemmas tracked_live_D = of_pair [OF tracked_live_I]

lemma regenerate_I:
  assumes "I s"
  shows "I (snd (regenerate_and_diff os s))"
proof -
  obtain r1 s1 where g: "run_generate os s = (r1, s1)" by fastforce
  obtain r2 s2 where h: "run_post_generate_hooks os s1 = (r2, s2)" by fastforce
  define s3 where "s3 = tick (s2\<lparr>host_nfs_mode := resolve_host_nfs_mode (o_env os) (o_conf os (now s2))\<rparr>)"
  obtain fp s4 where f: "shares_fp_now os (last_shares_fingerprint s) s3 = (fp, s4)" by fastforce
  have "I s1" using assms g by (rule generate_D)
  moreover from this h have "I s2" by (rule hooks_D)
  moreover from this have "I s3" by (simp add: s3_def time mode)
  from this f have "I s4" by (rule shares_fp_D)
  ultimately show ?thesis
    using f by (auto simp: regenerate_and_diff_def Let_def g h s3_def [symmetric] split: sum.split)
qed

lemmas regenerate_D = of_pair [OF regenerate_I]

lemma reload_webui_I:
  assumes "I s"
  shows "I (reload_webui os s)"
proof -
  obtain b s1 where t: "tracked_live os Webui s = (b, s1)" by fastforce
  have s1: "I s1" using assms t by (rule tracked_live_D)
  show ?thesis
    using s1 by (simp add: reload_webui_def t start_webui_I untrack time signal split: option.split)
qed

lemma reload_avahi_I:
  assumes "I s"
  shows "I (reload_avahi_services os s)"
proof -
  obtain b s1 where t: "tracked_live os Avahi s = (b, s1)" by fastforce
  have "I s1" using assms t by (rule tracked_live_D)
  then show ?thesis by (simp add: reload_avahi_services_def t signal split: option.split)
qed

lemma recycle_ganesha_I: "I s \<Longrightarrow> I (snd (recycle_ganesha os plan s))"
  by (auto simp: recycle_ganesha_def split: prod.split GaneshaAction.split
      intro: stop_ganesha_I reload_D running_D)

lemma running_host: "ganesha_running os s = (b, s1) \<Longrightarrow> host_nfs_mode s1 = host_nfs_mode s \<and> services_started s1 = services_started s"
  by (auto simp: ganesha_running_def tracked_live_def refresh_tracked_ganesha_pid_def split: option.splits if_splits)

lemma restart_stopped_I:
  assumes "I s"
  shows "I (restart_stopped_ganesha os plan s)"
proof -
  obtain b s1 where r: "ganesha_running os s = (b, s1)" by fastforce
  have s1: "I s1" using assms r by (rule running_D)
  show ?thesis
    using running_host [OF r] s1 assms
    by (simp add: restart_stopped_ganesha_def r prereqs_I prereqs_host start_ganesha_I)
qed

lemma recycle_webui_I: "I s \<Longrightarrow> I (recycle_webui os plan s)"
  by (simp add: recycle_webui_def start_webui_I reload_webui_I split: WebuiAction.split)

lemma touch_marker_I: "I s \<Longrightarrow> I (touch_recycle_marker os s)"
  by (simp add: touch_recycle_marker_def time)

lemma finish_recycle_I: "I s \<Longrightarrow> I (finish_recycle os s)"
  by (simp add: finish_recycle_def Let_def touch_marker_I start_watcher_I)

lemma execute_I:
  assumes "I s" and identity: "\<And>plan' s. plan_restart_sssd plan' = plan_restart_sssd plan \<Longrightarrow>
      plan_restart_idhelper plan' = plan_restart_idhelper plan \<Longrightarrow> I s \<Longrightarrow> I (recycle_identity os plan' s)"
  shows "I (execute_recycle_plan os plan s)"
proof -
  obtain plan' s1 where r: "recycle_ganesha os plan s = (plan', s1)" by fastforce
  have s1: "I s1" using recycle_ganesha_I [OF assms(1)] r by (rule of_pair)
  have "plan_restart_sssd plan' = plan_restart_sssd plan" "plan_restart_idhelper plan' = plan_restart_idhelper plan"
    using r by (auto simp: recycle_ganesha_def ganesha_sighup_failed_def split: if_splits GaneshaAction.splits prod.splits)
  then have "I (recycle_identity os plan' s1)" using s1 by (rule identity)
  then have "I (recycle_webui os plan' (restart_stopped_ganesha os plan' (recycle_identity os plan' s1)))"
    by (intro recycle_webui_I restart_stopped_I)
  with assms(1) show ?thesis
    by (simp add: execute_recycle_plan_def r Let_def start_avahi_I stop_avahi_I)
qed

lemma identity_kept: "\<not> plan_restart_sssd plan \<Longrightarrow> \<not> plan_restart_idhelper plan \<Longrightarrow> recycle_identity os plan s = s"
  by (simp add: recycle_identity_def)

lemma handle_sighup_I:
  assumes "I s" "services_started s"
  shows "I (snd (handle_sighup os s))"
proof -
  define s0 where "s0 = refresh_tracked_ganesha_pid os (tick s)"
  obtain r s1 where g: "regenerate_and_diff os s0 = (r, s1)" by fastforce
  obtain b s2 where rn: "ganesha_running os s1 = (b, s2)" by fastforce
  have "I s0" by (simp add: s0_def refresh_I time assms)
  then have s1: "I s1" using g by (rule regenerate_D)
  then have s2: "I s2" using rn by (rule running_D)
  have st: "services_started s1" using regenerate_started [of os s0] g assms(2) by (simp add: s0_def)
  have "I (execute_recycle_plan os (plan_from_changes e i c (host_nfs_mode s2) b) s2)" for e i c
    by (rule execute_I [OF s2]) (simp add: identity_kept plan_from_changes_def)
  with s1 show ?thesis
    by (auto simp: handle_sighup_def s0_def [symmetric] g st rn Let_def finish_recycle_I reload_avahi_I split: sum.split)
qed

end

text \<open>The restarts of SSSD and of the identity helper; with them every handler and the whole loop.\<close>

locale sup_invariant = sup_ops +
  assumes track_identity: "I s \<Longrightarrow> svc \<in> {Sssd, Idhelper} \<Longrightarrow> I (spawn_tracked os svc s)"
begin

lemma restart_sssd_I: "I s \<Longrightarrow> I (restart_sssd_and_wait os s)"
  by (simp add: restart_sssd_and_wait_def time track_identity signal term_tracked_I)

lemma restart_idhelper_I: "I s \<Longrightarrow> I (restart_idhelper_and_wait_bulk os s)"
  by (simp add: restart_idhelper_and_wait_bulk_def read_config_def time track_identity signal term_tracked_I)

lemma recycle_identity_I: "I s \<Longrightarrow> I (recycle_identity os plan s)"
  by (simp add: recycle_identity_def Let_def restart_sssd_I restart_idhelper_I)

lemma full_execute_I: "I s \<Longrightarrow> I (execute_recycle_plan os plan s)"
  by (rule execute_I) (simp_all add: recycle_identity_I)

lemma any_sighup_I:
  assumes "I s"
  shows "I (snd (handle_sighup os s))"
proof (cases "services_started s")
  case True
  with assms show ?thesis by (rule handle_sighup_I)
next
  case False
  define s0 where "s0 = refresh_tracked_ganesha_pid os (tick s)"
  obtain r s1 where g: "regenerate_and_diff os s0 = (r, s1)" by fastforce
  have "I s0" by (simp add: s0_def refresh_I time assms)
  then have s1: "I s1" using g by (rule regenerate_D)
  have "\<not> services_started s1" using regenerate_started [of os s0] g False by (simp add: s0_def)
  with s1 show ?thesis
    by (auto simp: handle_sighup_def s0_def [symmetric] g Let_def finish_recycle_I reload_avahi_I full_execute_I split: sum.split)
qed

lemma full_recycle_I:
  assumes "I s"
  shows "I (snd (handle_full_recycle os s))"
proof -
  define s0 where "s0 = refresh_tracked_ganesha_pid os (tick s)"
  obtain r s1 where g: "regenerate_and_diff os s0 = (r, s1)" by fastforce
  have "I s0" by (simp add: s0_def refresh_I time assms)
  then have s1: "I s1" using g by (rule regenerate_D)
  then show ?thesis
    by (auto simp: handle_full_recycle_def s0_def [symmetric] g finish_recycle_I full_execute_I split: sum.split)
qed

lemma bring_up_I:
  assumes "I s"
  shows "I (snd (bring_up_services os s))"
proof -
  obtain r1 s1 where g: "run_generate os s = (r1, s1)" by fastforce
  obtain r2 s2 where h: "run_post_generate_hooks os s1 = (r2, s2)" by fastforce
  obtain fp s3 where f: "shares_fp_now os 0 s2 = (fp, s3)" by fastforce
  have s1: "I s1" using assms g by (rule generate_D)
  from this h have s2: "I s2" by (rule hooks_D)
  from this f have s3: "I s3" by (rule shares_fp_D)
  define s4 where "s4 = restart_idhelper_and_wait_bulk os (restart_sssd_and_wait os (s3\<lparr>last_shares_fingerprint := fp\<rparr>))"
  have "I s4" by (simp add: s4_def restart_idhelper_I restart_sssd_I s3)
  then have "I (if host_nfs_mode s4 then s4 else start_avahi os (start_ganesha os (ensure_ganesha_prereqs os s4)))"
    by (simp add: start_avahi_I start_ganesha_I prereqs_I prereqs_host)
  with s1 s2 s3 show ?thesis
    by (auto simp: bring_up_services_def g h f Let_def s4_def split: sum.split if_splits)
qed

lemma readiness_I: "I s \<Longrightarrow> I (snd (wait_for_ganesha_readiness os s))"
  by (simp add: wait_for_ganesha_readiness_def Let_def time refresh_I)

lemma mark_I: "I s \<Longrightarrow> I (mark_setup_wizard_complete os s)"
  by (simp add: mark_setup_wizard_complete_def time)

lemma tracked_dead_I: "I s \<Longrightarrow> I (snd (tracked_dead os svc s))"
  by (simp add: tracked_dead_def time split: option.split)

lemma respawn_needed_props:
  assumes "I s"
  shows "I (snd (respawn_needed os svc s)) \<and> (fst (respawn_needed os svc s) \<longrightarrow> svc \<in> {Ganesha, Avahi} \<longrightarrow>
     \<not> host_nfs_mode (snd (respawn_needed os svc s)))"
proof -
  obtain g s1 where t: "tracked_live os svc s = (g, s1)" by fastforce
  have "I s1" "host_nfs_mode s1 = host_nfs_mode s"
    using tracked_live_I [OF assms, of svc] tracked_live_pids(2) [of svc s] t by simp_all
  with t show ?thesis
    using tracked_dead_I [OF assms, of svc] by (cases svc) (simp_all add: respawn_needed_def assms)
qed

lemma respawn_service_I:
  "I s \<Longrightarrow> (svc \<in> {Ganesha, Avahi} \<Longrightarrow> \<not> host_nfs_mode s) \<Longrightarrow> I (respawn_service os svc s)"
  by (cases svc) (simp_all add: start_webui_I start_watcher_I restart_sssd_I restart_idhelper_I prereqs_I
      start_ganesha_I start_avahi_I)

lemma check_service_I:
  assumes "I s"
  shows "I (check_service os at svc s)"
proof -
  obtain needed s1 where n: "respawn_needed os svc s = (needed, s1)" by fastforce
  obtain d b where d: "decide (respawn_budget s1) (service_key svc) at = (d, b)" by fastforce
  show ?thesis
    using respawn_needed_props [OF assms, of svc] n
    by (auto simp: check_service_def d Let_def intro!: respawn_service_I)
qed

lemma check_and_respawn_I: "I s \<Longrightarrow> I (check_and_respawn_services os s)"
  unfolding check_and_respawn_services_def by (simp add: check_service_I time)

lemma reload_outcome_I:
  assumes "I s" and handler: "I (snd (handler os s))"
  shows "I (reload_outcome os handler s)"
proof -
  obtain r s1 where h: "handler os s = (r, s1)" by fastforce
  from handler h have "I s1" by (rule of_pair)
  then show ?thesis by (simp add: reload_outcome_def h Let_def start_watcher_I split: sum.split)
qed

lemma bring_up_outcome_I:
  assumes "I s"
  shows "I (bring_up_outcome os s)"
proof -
  obtain r s1 where b: "bring_up_services os (mark_setup_wizard_complete os s) = (r, s1)" by fastforce
  from bring_up_I [OF mark_I [OF assms]] b have "I s1" by (rule of_pair)
  then show ?thesis
    by (simp add: bring_up_outcome_def b Let_def start_watcher_I start_webui_I readiness_I touch_marker_I split: sum.split)
qed

lemma loop_pass_I:
  assumes "I s"
  shows "I (loop_pass os s)"
proof -
  have "I (tick (s\<lparr>sighup_flag := False, full_recycle_flag := False\<rparr>))" by (simp add: time assms)
  then have "I (perform os a (tick (s\<lparr>sighup_flag := False, full_recycle_flag := False\<rparr>)))" for a
    by (simp add: perform_def reload_outcome_I any_sighup_I full_recycle_I bring_up_outcome_I check_and_respawn_I
        split: SupervisorLoopAction.split)
  then show ?thesis by (simp add: loop_pass_def time)
qed

lemma step_I: "sup_step os s t \<Longrightarrow> I s \<Longrightarrow> I t"
  by (induction rule: sup_step.induct) (simp_all add: loop_pass_I)

lemma boot_services_I:
  assumes "I s"
  shows "I (snd (boot_services os s))"
proof -
  obtain r s1 where b: "bring_up_services os (mark_setup_wizard_complete os s) = (r, s1)" by fastforce
  obtain r' s2 where w: "start_webui os s = (r', s2)" by fastforce
  from bring_up_I [OF mark_I [OF assms]] b have "I s1" by (rule of_pair)
  moreover from start_webui_I [OF assms] w have "I s2" by (rule of_pair)
  ultimately show ?thesis
    by (simp add: boot_services_def b w Let_def start_watcher_I start_webui_I readiness_I split: sum.split)
qed

lemma boot_I: "I s \<Longrightarrow> I (snd (boot os s))"
  by (simp add: boot_def preflight_checks_def ensure_config_initialized_def boot_services_I time
      split: option.split)

lemma reachable_I:
  assumes "reachable os a s" and "I (fresh_supervisor os a)"
  shows "I s"
  using assms
proof (induction rule: reachable.induct)
  case (booted s)
  then show ?case using boot_I [of "fresh_supervisor os a"] by simp
next
  case (step s t)
  then show ?case by (blast intro: step_I)
qed

end

end
