(* ===== verification/Supervisor_Laws.thy ===== *)
theory Supervisor_Laws
  imports Supervisor
begin

text \<open>
  What the supervisor guarantees, over every run: at most one Ganesha daemon of its own is alive,
  host mode never starts a server, a reload in the steady state never restarts the identity
  services, requests are served by the next pass, failures are contained. The invariants are
  interpretations of \<open>sup_ops\<close> and \<open>sup_invariant\<close>.
\<close>

section \<open>The trace only grows\<close>

interpretation grows: sup_invariant os "\<lambda>s. suffix base (trace s)" for os base
  by unfold_locales
    (auto simp: spawn_tracked_def spawn_def adopt_ganesha_def suffix_Cons split: option.split)

section \<open>What regeneration leaves alone\<close>

lemma generate_frame:
  "trace (snd (run_generate os s)) = trace s" "pids (snd (run_generate os s)) = pids s"
  "host_nfs_mode (snd (run_generate os s)) = host_nfs_mode s"
  "last_shares_fingerprint (snd (run_generate os s)) = last_shares_fingerprint s"
  by (simp_all add: run_generate_def split: option.split prod.split sum.split)

lemma run_hooks_frame:
  "trace (snd (run_hooks os hook shs s)) = trace s \<and> pids (snd (run_hooks os hook shs s)) = pids s
   \<and> host_nfs_mode (snd (run_hooks os hook shs s)) = host_nfs_mode s \<and> disk (snd (run_hooks os hook shs s)) = disk s
   \<and> last_shares_fingerprint (snd (run_hooks os hook shs s)) = last_shares_fingerprint s"
  by (induction shs arbitrary: s) auto

lemma hooks_frame:
  "trace (snd (run_post_generate_hooks os s)) = trace s" "pids (snd (run_post_generate_hooks os s)) = pids s"
  "host_nfs_mode (snd (run_post_generate_hooks os s)) = host_nfs_mode s" "disk (snd (run_post_generate_hooks os s)) = disk s"
  "last_shares_fingerprint (snd (run_post_generate_hooks os s)) = last_shares_fingerprint s"
  using run_hooks_frame
  by (simp_all add: run_post_generate_hooks_def read_config_def split: sum.split option.split)

section \<open>A sample system\<close>

text \<open>A machine on which everything works: every process started stays alive, every write succeeds.\<close>

definition sample_os :: os where
  "sample_os =
     \<lparr>o_env = (\<lambda>_. None), o_proc = (\<lambda>_ _. ProcUnreadable),
      o_spawn = (\<lambda>t svc. Some (case svc of Ganesha \<Rightarrow> 3 | Webui \<Rightarrow> 4 | _ \<Rightarrow> 5)),
      o_pgrep = (\<lambda>_ _. []), o_pidfile = (\<lambda>_. None), o_conf = (\<lambda>_. Ok (sample_config\<lparr>shares := []\<rparr>)),
      o_gen = (\<lambda>_. Some sample_world), o_list = (\<lambda>_. []), o_executable = (\<lambda>_ _. True), o_hook = (\<lambda>_ _ _. True),
      o_probes = (\<lambda>_. sample_probes), o_polls = (\<lambda>_. 0), o_warm = (\<lambda>_. True), o_idhelper_socket = (\<lambda>_. True), o_ready = (\<lambda>_. True),
      o_instant = (\<lambda>t. t), o_marker_write = (\<lambda>_. True),
      o_inotifywait = (\<lambda>_. True), o_nss_wrapper_so = (\<lambda>_. True), o_conf_file = (\<lambda>_. True), o_conf_init = (\<lambda>_. None)\<rparr>"

lemma sample_os_simps [simp]:
  "o_env sample_os k = None" "live_at sample_os t p" "o_spawn sample_os t Ganesha = Some 3" "o_spawn sample_os t Webui = Some 4"
  "o_pgrep sample_os t n = []" "o_conf sample_os t = Ok (sample_config\<lparr>shares := []\<rparr>)" "o_gen sample_os t = Some sample_world"
  "o_probes sample_os t = sample_probes" "o_warm sample_os t" "o_env sample_os = (\<lambda>_. None)"
  by (simp_all add: sample_os_def live_at_def)

lemma sample_modes [simp]:
  "\<not> supervise_probe sample_os" "\<not> any_probe_mode sample_os" "\<not> supervise_recycle_probe sample_os"
  "\<not> supervise_identity_recycle_probe sample_os"
  by (simp_all add: any_probe_mode_def supervise_probe_def supervise_wizard_probe_def supervise_loop_probe_def
      supervise_recycle_probe_def supervise_sighup_hook_probe_def supervise_identity_recycle_probe_def env_is_one_def)

definition sample_loaded :: NfsKlldapConfig where
  "sample_loaded = projr (validate_and_derive (\<lambda>_. None) (sample_config\<lparr>shares := []\<rparr>))"

lemma sample_validates:
  "case validate_and_derive (\<lambda>_. None) (sample_config\<lparr>shares := []\<rparr>) of
     Inl _ \<Rightarrow> False
   | Inr c \<Rightarrow> shares c = [] \<and> \<not> navahi_discovery c \<and> effective_realm c = Some ''HOME.ARPA''
       \<and> post_generate_hook (ganesha c) = None \<and> config_has_required_startup_fields c \<and> host_nfs (host c) = None"
  by code_simp

lemma sample_load: "load (\<lambda>_. None) (Ok (sample_config\<lparr>shares := []\<rparr>)) = Ok sample_loaded"
  using sample_validates by (auto simp: sample_loaded_def load_def split: sum.splits)

lemma sample_loaded_fields:
  "shares sample_loaded = []" "\<not> navahi_discovery sample_loaded" "effective_realm sample_loaded = Some ''HOME.ARPA''"
  "post_generate_hook (ganesha sample_loaded) = None" "config_has_required_startup_fields sample_loaded"
  "host_nfs (host sample_loaded) = None"
  using sample_validates by (auto simp: sample_loaded_def split: sum.splits)

text \<open>Where nothing is missing the preflight and the configuration check only take time.\<close>

lemma boot_prepared:
  assumes "\<And>t b. o_executable os t b" "\<And>t. o_inotifywait os t" "\<And>t. o_nss_wrapper_so os t" "\<And>t. o_conf_file os t"
  shows "boot os s = boot_services os (tick (tick s))"
  using assms by (simp add: boot_def preflight_checks_def ensure_config_initialized_def list_all_iff)

lemma sample_boot: "boot sample_os s = boot_services sample_os (tick (tick s))"
  by (rule boot_prepared) (simp_all add: sample_os_def)

lemma sample_read: "read_config sample_os s = (Ok sample_loaded, tick s)"
  by (simp add: read_config_def sample_load)

lemma sample_generate:
  assumes "avahi_art (disk s) = None"
  shows "fst (run_generate sample_os s) = Ok ()"
proof -
  have "fst (sync_dir (\<lambda>_. True) is_fragment_name [] d) = Ok ()" for d by (rule sync_all_writes)
  then obtain ex where ex: "write_export_fragments (\<lambda>_. False) (\<lambda>_. True) None (\<lambda>_. \<lparr>write_probe = None, read_sniff = None\<rparr>)
      sample_loaded (exports_art (disk s)) = (Ok (), ex)"
    by (simp add: write_export_fragments_def sample_loaded_fields) (metis prod.collapse)
  have "write_avahi_services al io h sample_loaded r None = (Ok (), None)" for al io h r
    by (simp add: write_avahi_services_def sample_loaded_fields)
  then obtain a' where "generate_all (sample_world\<lparr>w_env := \<lambda>_. None\<rparr>) sample_loaded ''HOME.ARPA'' (from_env (\<lambda>_. None)) (disk s) = (Ok (), a')"
    using assms ex by (simp add: generate_all_def put_file_def Let_def sample_world_def)
  then show ?thesis
    by (simp add: run_generate_def handle_generate_def sample_load sample_loaded_fields)
qed

lemma sample_hooks: "run_post_generate_hooks sample_os s = (Ok (), tick s)"
  by (simp add: run_post_generate_hooks_def sample_read effective_post_generate_hook_def sample_loaded_fields)

lemma sample_start_ganesha:
  assumes "pids s Ganesha = None" "\<not> host_nfs_mode s"
  shows "trace (start_ganesha sample_os s) = Spawned Ganesha 3 # trace s"
  using assms
  by (simp add: start_ganesha_def tracked_live_def warm_identity_principals_before_ganesha_def sample_read
      krb5_shares_enabled_def sample_loaded_fields spawn_def confirm_ganesha_daemon_pid_env_def)

lemma sample_prereqs: "pids (ensure_ganesha_prereqs os s) Ganesha = pids s Ganesha" "host_nfs_mode (ensure_ganesha_prereqs os s) = host_nfs_mode s"
  by (simp_all add: ensure_ganesha_prereqs_def Let_def spawn_tracked_def spawn_def split: option.split)

lemma restart_frame:
  "pids (restart_sssd_and_wait os s) Ganesha = pids s Ganesha" "host_nfs_mode (restart_sssd_and_wait os s) = host_nfs_mode s"
  "pids (restart_idhelper_and_wait_bulk os s) Ganesha = pids s Ganesha"
  "host_nfs_mode (restart_idhelper_and_wait_bulk os s) = host_nfs_mode s"
  by (simp_all add: restart_sssd_and_wait_def restart_idhelper_and_wait_bulk_def read_config_def spawn_tracked_def spawn_def
      term_tracked_def split: option.split)

lemma sample_bring_up:
  assumes "avahi_art (disk s) = None" "pids s Ganesha = None" "\<not> host_nfs_mode s"
  shows "\<exists>t. bring_up_services sample_os s = (Ok (), t) \<and> Spawned Ganesha 3 \<in> set (trace t)"
proof -
  obtain s1 where g: "run_generate sample_os s = (Ok (), s1)" using sample_generate [OF assms(1)] by (metis prod.collapse)
  have s1: "pids s1 Ganesha = None" "\<not> host_nfs_mode s1" using generate_frame [of sample_os s] g assms by simp_all
  have f: "shares_fp_now sample_os 0 (tick s1) = (fingerprint_shares sample_loaded, tick (tick s1))"
    by (simp add: shares_fp_now_def sample_read)
  show ?thesis
    using s1 by (simp add: bring_up_services_def g sample_hooks f Let_def restart_frame start_avahi_def sample_read
        sample_loaded_fields sample_start_ganesha sample_prereqs)
qed

section \<open>At most one Ganesha\<close>

definition ganesha_pids :: "event list \<Rightarrow> nat set" where
  "ganesha_pids tr = {p. Spawned Ganesha p \<in> set tr \<or> Adopted p \<in> set tr}"

text \<open>
  The supervisor identifies processes by their numbers, so it relies on the kernel not giving the
  number of a process that was started or seen to another one.
\<close>

definition pids_not_reused :: "os \<Rightarrow> bool" where
  "pids_not_reused os =
     (\<forall>t p. (\<exists>svc. o_spawn os t svc = Some p) \<or> live_at os t p \<longrightarrow>
        (\<forall>t1 t2. t < t1 \<longrightarrow> t1 \<le> t2 \<longrightarrow> \<not> live_at os t1 p \<longrightarrow> \<not> live_at os t2 p))"

definition accounted :: "os \<Rightarrow> sup \<Rightarrow> bool" where
  "accounted os s =
     (pids_not_reused os \<longrightarrow>
        (\<forall>p \<in> ganesha_pids (trace s).
           (\<exists>t < now s. (\<exists>svc. o_spawn os t svc = Some p) \<or> live_at os t p)
           \<and> (pids s Ganesha = Some p \<or> \<not> live_at os (now s) p))
        \<and> (\<forall>p. pids s Ganesha = Some p \<longrightarrow> p \<in> ganesha_pids (trace s)))"

lemma ganesha_pids_Cons [simp]:
  "ganesha_pids (Spawned svc p # tr) = (if svc = Ganesha then insert p (ganesha_pids tr) else ganesha_pids tr)"
  "ganesha_pids (Adopted p # tr) = insert p (ganesha_pids tr)"
  "sends_only e \<Longrightarrow> ganesha_pids (e # tr) = ganesha_pids tr"
  by (auto simp: ganesha_pids_def)

lemma stays_dead:
  assumes "pids_not_reused os" "t0 < t" "t \<le> t'" "(\<exists>svc. o_spawn os t0 svc = Some p) \<or> live_at os t0 p" "\<not> live_at os t p"
  shows "\<not> live_at os t' p"
  using assms unfolding pids_not_reused_def by blast

lemma accounted_dead:
  assumes "pids_not_reused os" "seen_dead os (accounted os) p n" "n \<le> m"
  shows "\<not> live_at os m p"
proof -
  from assms(2) obtain s0 t where s0: "accounted os s0" "pids s0 Ganesha = Some p" "now s0 \<le> t" "t < n" "\<not> live_at os t p"
    by (auto simp: seen_dead_def)
  with assms(1) obtain t0 where "t0 < now s0" "(\<exists>svc. o_spawn os t0 svc = Some p) \<or> live_at os t0 p"
    unfolding accounted_def by blast
  with s0 assms(1,3) show ?thesis by (intro stays_dead [of os t0 t m p]) auto
qed

lemma accounted_time: "accounted os s \<Longrightarrow> accounted os (tick s)"
  unfolding accounted_def by (simp, meson le_SucI less_SucI order_refl stays_dead)

lemma accounted_other: "accounted os s \<Longrightarrow> svc \<noteq> Ganesha \<Longrightarrow> accounted os (spawn_tracked os svc s)"
  using accounted_time [of os s] by (auto simp: spawn_tracked_def spawn_def accounted_def split: option.split)

lemma accounted_drop:
  assumes "accounted os s" "pids s Ganesha = Some p" "seen_dead os (accounted os) p (now s)"
  shows "accounted os (set_pid Ganesha None s)"
proof -
  have "pids_not_reused os \<Longrightarrow> \<not> live_at os (now s) p" using accounted_dead [OF _ assms(3)] by simp
  with assms show ?thesis by (auto simp: accounted_def)
qed

lemma accounted_spawn:
  assumes "accounted os s" "pids s Ganesha = None" "o_spawn os (now s) Ganesha = Some p"
  shows "accounted os (set_pid Ganesha (Some p) (emit (Spawned Ganesha p) (tick s)))"
  using accounted_time [OF assms(1)] assms(2,3) by (auto simp: accounted_def)

lemma accounted_adopt:
  assumes "accounted os s" "\<And>q. pids s Ganesha = Some q \<Longrightarrow> seen_dead os (accounted os) q (now s)"
    and "live_at os t p" "t < now s"
  shows "accounted os (adopt_ganesha p s)"
proof -
  have "pids_not_reused os \<Longrightarrow> pids s Ganesha = Some q \<Longrightarrow> \<not> live_at os (now s) q" for q
    using accounted_dead [OF _ assms(2)] by simp
  with assms(1,3,4) show ?thesis by (auto simp: accounted_def adopt_ganesha_def)
qed

interpretation one: sup_invariant os "accounted os" for os
proof
  fix s svc parsed assume I: "accounted os s"
  show "sends_only e \<Longrightarrow> accounted os (emit e s)" for e using I by (simp add: accounted_def)
  show "accounted os (s\<lparr>host_nfs_mode := resolve_host_nfs_mode (o_env os) parsed\<rparr>)" using I by (simp add: accounted_def)
  show "svc \<noteq> Ganesha \<Longrightarrow> accounted os (set_pid svc None s)" using I by (simp add: accounted_def)
  show "now s' = now s \<Longrightarrow> trace s' = trace s \<Longrightarrow> pids s' = pids s \<Longrightarrow> accounted os s'" for s' :: sup
    using I by (simp add: accounted_def)
qed (auto intro: accounted_time accounted_other accounted_drop accounted_spawn accounted_adopt)

text \<open>C1: at no moment of a run are two Ganesha daemons alive that the supervisor started or adopted:
  a daemon that survives SIGKILL is never replaced, and a new one is started only after the old
  one was seen dead, through crashes, reloads, recycles and failed starts in any order.\<close>

theorem at_most_one_ganesha:
  assumes "pids_not_reused os" and "reachable os a s"
    and "p \<in> ganesha_pids (trace s)" "live_at os (now s) p"
    and "q \<in> ganesha_pids (trace s)" "live_at os (now s) q"
  shows "p = q"
proof -
  have "accounted os (fresh_supervisor os a)" by (simp add: accounted_def fresh_supervisor_def ganesha_pids_def)
  with assms(2) have "accounted os s" by (rule one.reachable_I)
  with assms have "pids s Ganesha = Some p" "pids s Ganesha = Some q" unfolding accounted_def by blast+
  then show ?thesis by simp
qed

theorem at_most_one_ganesha_witness:
  "\<exists>s p q. reachable sample_os empty_artifacts s \<and> p \<in> ganesha_pids (trace s) \<and> live_at sample_os (now s) p
     \<and> q \<in> ganesha_pids (trace s) \<and> live_at sample_os (now s) q \<and> p = q"
proof -
  define s0 where "s0 = mark_setup_wizard_complete sample_os (tick (tick (fresh_supervisor sample_os empty_artifacts)))"
  have "avahi_art (disk s0) = None" "pids s0 Ganesha = None" "\<not> host_nfs_mode s0"
    by (simp_all add: s0_def mark_setup_wizard_complete_def fresh_supervisor_def empty_artifacts_def resolve_host_nfs_mode_def
        host_nfs_from_env_def sample_load is_host_nfs_def sample_loaded_fields)
  from sample_bring_up [OF this] obtain t where t: "bring_up_services sample_os s0 = (Ok (), t)" "Spawned Ganesha 3 \<in> set (trace t)"
    by blast
  have pre: "is_preconfigured_deployment (startup_probes sample_os (tick (tick (fresh_supervisor sample_os empty_artifacts))))"
    by (simp add: is_preconfigured_deployment_def startup_probes_def sample_probes_def check_persistent_writable_def
        is_persistent_config_def sample_load sample_loaded_fields)
  define s where "s = snd (boot sample_os (fresh_supervisor sample_os empty_artifacts))"
  have boot: "boot sample_os (fresh_supervisor sample_os empty_artifacts) = (Ok (), s)"
    using pre t(1) by (simp add: s_def sample_boot boot_services_def s0_def [symmetric] Let_def)
  have "suffix (trace t) (trace s)"
    using pre t(1) by (auto simp: s_def sample_boot boot_services_def s0_def [symmetric] Let_def
        intro!: grows.start_webui_I grows.start_watcher_I grows.readiness_I)
  then have "3 \<in> ganesha_pids (trace s)" using t(2) set_mono_suffix by (fastforce simp: ganesha_pids_def)
  note b = boot this
  have "pids_not_reused sample_os" by (simp add: pids_not_reused_def)
  from at_most_one_ganesha [OF this reachable.booted [OF b(1)] b(2) _ b(2)] b show ?thesis
    by (intro exI [of _ s] exI [of _ 3]) (simp add: reachable.booted)
qed

section \<open>Host mode\<close>

definition hosted :: "os \<Rightarrow> sup \<Rightarrow> bool" where
  "hosted os s =
     (host_nfs_from_env (o_env os) = Some True \<longrightarrow>
        host_nfs_mode s \<and> (\<forall>p. Spawned Ganesha p \<notin> set (trace s) \<and> Spawned Avahi p \<notin> set (trace s) \<and> Adopted p \<notin> set (trace s)))"

interpretation host: sup_invariant os "hosted os" for os
  by unfold_locales
    (auto simp: hosted_def resolve_host_nfs_mode_def spawn_tracked_def spawn_def adopt_ganesha_def sends_only_def split: option.split)

text \<open>C2: with HOST_NFS set in the environment no run of the supervisor ever starts or adopts an NFS
  server or an mDNS daemon: not at boot, not on a reload or recycle, not as a respawn.\<close>

theorem host_mode_starts_no_server:
  assumes "host_nfs_from_env (o_env os) = Some True" and "reachable os a s"
  shows "Spawned Ganesha p \<notin> set (trace s) \<and> Spawned Avahi p \<notin> set (trace s) \<and> Adopted p \<notin> set (trace s)"
proof -
  have "hosted os (fresh_supervisor os a)" by (simp add: hosted_def fresh_supervisor_def resolve_host_nfs_mode_def)
  with assms(2) have "hosted os s" by (rule host.reachable_I)
  with assms show ?thesis unfolding hosted_def by blast
qed

theorem host_mode_starts_no_server_witness:
  "\<exists>s. reachable (sample_os\<lparr>o_env := [''HOST_NFS'' \<mapsto> ''true''], o_probes := \<lambda>_. sample_probes\<lparr>keytab_file := False\<rparr>\<rparr>) empty_artifacts s
     \<and> Spawned Webui 4 \<in> set (trace s) \<and> Spawned Ganesha 3 \<notin> set (trace s)"
proof -
  define os where "os = sample_os\<lparr>o_env := [''HOST_NFS'' \<mapsto> ''true''], o_probes := \<lambda>_. sample_probes\<lparr>keytab_file := False\<rparr>\<rparr>"
  define s where "s = snd (boot os (fresh_supervisor os empty_artifacts))"
  have h: "host_nfs_from_env (o_env os) = Some True"
    unfolding os_def by (simp add: host_nfs_from_env_def) code_simp
  have modes: "\<not> supervise_probe os" "\<not> supervise_recycle_probe os" "\<not> supervise_identity_recycle_probe os"
    by (simp_all add: os_def supervise_probe_def supervise_recycle_probe_def supervise_identity_recycle_probe_def env_is_one_def)
  have "\<not> is_preconfigured_deployment (startup_probes os (tick (tick (fresh_supervisor os empty_artifacts))))"
    by (simp add: os_def is_preconfigured_deployment_def startup_probes_def)
  moreover have "o_spawn os t Webui = Some 4" for t by (simp add: os_def)
  moreover have "boot os t = boot_services os (tick (tick t))" for t
    by (rule boot_prepared) (simp_all add: os_def sample_os_def)
  ultimately have b: "boot os (fresh_supervisor os empty_artifacts) = (Ok (), s)" "Spawned Webui 4 \<in> set (trace s)"
    by (simp_all add: s_def boot_services_def start_webui_def modes spawn_def)
  from host_mode_starts_no_server [OF h reachable.booted [OF b(1)]] b show ?thesis
    unfolding os_def by (intro exI [of _ s]) (simp add: reachable.booted)
qed

section \<open>Reloads keep the identity services\<close>

definition identity_spawns :: "event list \<Rightarrow> event list" where
  "identity_spawns tr = filter (\<lambda>e. case e of Spawned svc _ \<Rightarrow> svc = Sssd \<or> svc = Idhelper | _ \<Rightarrow> False) tr"

interpretation identity: sup_ops os "\<lambda>s. identity_spawns (trace s) = base" for os base
  by unfold_locales
    (auto simp: identity_spawns_def spawn_tracked_def spawn_def adopt_ganesha_def sends_only_def split: option.split event.splits)

text \<open>A reload of a running stack never restarts SSSD or the identity helper, whatever changed and
  however the reload ends: identity changes are staged until a full recycle.\<close>

theorem sighup_keeps_identity_services:
  assumes "services_started s"
  shows "identity_spawns (trace (snd (handle_sighup os s))) = identity_spawns (trace s)"
  by (rule identity.handle_sighup_I [OF refl assms])

theorem sighup_keeps_identity_services_witness:
  "identity_spawns (trace (snd (handle_sighup sample_os
      ((fresh_supervisor sample_os empty_artifacts)\<lparr>services_started := True, trace := [Spawned Sssd 5]\<rparr>)))) = [Spawned Sssd 5]"
  using sighup_keeps_identity_services
    [of "(fresh_supervisor sample_os empty_artifacts)\<lparr>services_started := True, trace := [Spawned Sssd 5]\<rparr>" sample_os]
  by (simp add: identity_spawns_def)

section \<open>Failures are contained\<close>

lemma regenerate_failure_frame:
  assumes "regenerate_and_diff os s = (Err e, t)"
  shows "trace t = trace s \<and> pids t = pids s \<and> host_nfs_mode t = host_nfs_mode s
    \<and> last_shares_fingerprint t = last_shares_fingerprint s"
proof -
  obtain r1 s1 where g: "run_generate os s = (r1, s1)" by fastforce
  obtain r2 s2 where h: "run_post_generate_hooks os s1 = (r2, s2)" by fastforce
  have "trace s1 = trace s" "pids s1 = pids s" "host_nfs_mode s1 = host_nfs_mode s"
    "last_shares_fingerprint s1 = last_shares_fingerprint s"
    using generate_frame [of os s] g by simp_all
  moreover have "trace s2 = trace s1" "pids s2 = pids s1" "host_nfs_mode s2 = host_nfs_mode s1"
    "last_shares_fingerprint s2 = last_shares_fingerprint s1"
    using hooks_frame [of os s1] h by simp_all
  ultimately show ?thesis
    using assms by (auto simp: regenerate_and_diff_def g h Let_def split: sum.splits prod.splits)
qed

lemma refresh_frame:
  "host_nfs_mode (refresh_tracked_ganesha_pid os s) = host_nfs_mode s"
  "trace (refresh_tracked_ganesha_pid os s) = trace s" "last_shares_fingerprint (refresh_tracked_ganesha_pid os s) = last_shares_fingerprint s"
  "svc \<noteq> Ganesha \<Longrightarrow> pids (refresh_tracked_ganesha_pid os s) svc = pids s svc"
  "pids (refresh_tracked_ganesha_pid os s) Ganesha = pids s Ganesha
   \<or> pids (refresh_tracked_ganesha_pid os s) Ganesha = None \<and> (\<exists>p. pids s Ganesha = Some p \<and> \<not> live_at os (now s) p)"
  by (auto simp: refresh_tracked_ganesha_pid_def set_pid_def tick_def split: option.split)

text \<open>A reload or recycle that fails, in the generator or in a hook, touches no service: nothing is
  signalled, started or stopped, every tracked process stays tracked unless it is Ganesha and was
  seen dead, and the mode and the remembered share fingerprint are those of the previous
  configuration.\<close>

theorem failed_reload_contained:
  assumes "handler \<in> {handle_sighup, handle_full_recycle}" and "handler os s = (Err e, t)"
  shows "trace t = trace s \<and> host_nfs_mode t = host_nfs_mode s \<and> last_shares_fingerprint t = last_shares_fingerprint s
    \<and> (\<forall>svc. pids t svc = pids s svc \<or> (svc = Ganesha \<and> pids t svc = None \<and> (\<exists>p. pids s svc = Some p \<and> \<not> live_at os (Suc (now s)) p)))"
proof -
  define s0 where "s0 = refresh_tracked_ganesha_pid os (tick s)"
  from assms have "regenerate_and_diff os s0 = (Err e, t)"
    by (auto simp: handle_sighup_def handle_full_recycle_def s0_def [symmetric] Let_def split: prod.splits sum.splits)
  note f = regenerate_failure_frame [OF this] refresh_frame [where os = os and s = "tick s", folded s0_def]
  have "pids t svc = pids s svc \<or> (svc = Ganesha \<and> pids t svc = None \<and> (\<exists>p. pids s svc = Some p \<and> \<not> live_at os (Suc (now s)) p))" for svc
    using f by (cases "svc = Ganesha") auto
  with f show ?thesis by simp
qed

theorem failed_reload_contained_witness:
  "\<exists>t. handle_sighup (sample_os\<lparr>o_gen := \<lambda>_. None\<rparr>) (fresh_supervisor sample_os empty_artifacts) = (Err GenerateNotRun, t)
     \<and> trace t = []"
proof -
  define os where "os = sample_os\<lparr>o_gen := \<lambda>_. None\<rparr>"
  define s where "s = fresh_supervisor sample_os empty_artifacts"
  define t where "t = snd (handle_sighup os s)"
  have "o_gen os n = None" for n by (simp add: os_def)
  then have h: "handle_sighup os s = (Err GenerateNotRun, t)"
    by (simp add: t_def handle_sighup_def regenerate_and_diff_def run_generate_def Let_def)
  from failed_reload_contained [of handle_sighup, OF _ h] have "trace t = trace s" by simp
  moreover have "trace s = []" by (simp add: s_def fresh_supervisor_def)
  ultimately show ?thesis using h unfolding os_def s_def by auto
qed

text \<open>
  The fingerprints of a reload are taken before its generation, so what an earlier reload left on
  disk before its hooks failed counts as old: when the next reload generates the same exports,
  Ganesha is neither signalled nor restarted and keeps serving what it had loaded before both.
\<close>

lemma failed_hook_loses_export_change:
  assumes "regenerate_and_diff os s = (Err (HookFailed h n), t)"
    and "regenerate_and_diff os t = (Ok changes, u)" and "exports_art (disk u) = exports_art (disk t)"
  shows "\<not> exports_changed changes \<and> ganesha_action (plan_from_changes (exports_changed changes) i c m r) = GaneshaSkip"
  using assms(2,3)
  by (auto simp: regenerate_and_diff_def Let_def plan_from_changes_def exports_fp_def split: prod.splits sum.splits)

section \<open>A full recycle restarts everything\<close>

definition started_since :: "event list \<Rightarrow> service \<Rightarrow> sup \<Rightarrow> bool" where
  "started_since base svc s = (\<exists>es p. trace s = es @ base \<and> Spawned svc p \<in> set es)"

lemma started_since_grows: "started_since base svc s \<Longrightarrow> suffix (trace s) (trace t) \<Longrightarrow> started_since base svc t"
  by (auto simp: started_since_def suffix_def)

lemma restart_starts:
  assumes "\<And>t svc. o_spawn os t svc \<noteq> None"
  shows "suffix base (trace s) \<Longrightarrow> started_since base Sssd (restart_sssd_and_wait os s)"
    and "suffix base (trace s) \<Longrightarrow> started_since base Idhelper (restart_idhelper_and_wait_bulk os s)"
    and "\<not> supervise_probe os \<Longrightarrow> \<not> supervise_recycle_probe os \<Longrightarrow> \<not> supervise_identity_recycle_probe os \<Longrightarrow>
      suffix base (trace s) \<Longrightarrow> started_since base Webui (snd (start_webui os s))"
proof -
  define f where "f = (\<lambda>t svc. the (o_spawn os t svc))"
  have f: "o_spawn os t svc = Some (f t svc)" for t svc using assms by (simp add: f_def)
  show "suffix base (trace s) \<Longrightarrow> started_since base Sssd (restart_sssd_and_wait os s)"
    "suffix base (trace s) \<Longrightarrow> started_since base Idhelper (restart_idhelper_and_wait_bulk os s)"
    "\<not> supervise_probe os \<Longrightarrow> \<not> supervise_recycle_probe os \<Longrightarrow> \<not> supervise_identity_recycle_probe os \<Longrightarrow>
      suffix base (trace s) \<Longrightarrow> started_since base Webui (snd (start_webui os s))"
    by (auto simp: f started_since_def suffix_def restart_sssd_and_wait_def restart_idhelper_and_wait_bulk_def read_config_def
        start_webui_def spawn_tracked_def spawn_def term_tracked_def split: option.split)
qed



section \<open>Shutting down\<close>

lemma term_tracked_fold: "suffix (trace s) (trace (fold term_tracked svcs s)) \<and> pids (fold term_tracked svcs s) = pids s"
proof (induction svcs arbitrary: s)
  case (Cons x svcs)
  have "suffix (trace s) (trace (term_tracked x s))" "pids (term_tracked x s) = pids s"
    by (auto simp: term_tracked_def suffix_Cons split: option.split)
  with Cons.IH [of "term_tracked x s"] show ?case by (auto intro: suffix_order.trans)
qed simp

lemma term_tracked_sent:
  "svc \<in> set svcs \<Longrightarrow> pids s svc = Some p \<Longrightarrow> TermSent svc p \<in> set (trace (fold term_tracked svcs s))"
proof (induction svcs arbitrary: s)
  case (Cons x svcs)
  show ?case
  proof (cases "svc = x")
    case True
    then have "TermSent svc p \<in> set (trace (term_tracked x s))" using Cons.prems by (simp add: term_tracked_def)
    then show ?thesis using term_tracked_fold [of "term_tracked x s" svcs] set_mono_suffix by fastforce
  next
    case False
    moreover have "pids (term_tracked x s) svc = Some p" using Cons.prems by (simp add: term_tracked_def split: option.split)
    ultimately show ?thesis using Cons by simp
  qed
qed simp

text \<open>On a termination request every process the supervisor tracks is sent SIGTERM before it exits.\<close>

theorem cleanup_terminates_all:
  assumes "pids s svc = Some p"
  shows "TermSent svc p \<in> set (trace (cleanup os s))"
proof -
  define s1 where "s1 = fold term_tracked [Webui, Ganesha, Sssd, Watcher, Dbus, Idhelper, Avahi] s"
  have "svc \<in> set [Webui, Ganesha, Sssd, Watcher, Dbus, Idhelper, Avahi]" by (cases svc) simp_all
  then have "TermSent svc p \<in> set (trace s1)" unfolding s1_def using assms by (rule term_tracked_sent)
  moreover have "suffix (trace s1) (trace (stop_ganesha os s1))" by (rule grows.stop_ganesha_I) simp
  ultimately have "TermSent svc p \<in> set (trace (stop_ganesha os s1))" using set_mono_suffix by fastforce
  then show ?thesis unfolding cleanup_def Let_def s1_def by simp
qed

theorem cleanup_terminates_all_witness:
  "TermSent Sssd 5 \<in> set (trace (cleanup sample_os ((fresh_supervisor sample_os empty_artifacts)\<lparr>pids := [Sssd \<mapsto> 5]\<rparr>)))"
  by (rule cleanup_terminates_all) simp

section \<open>The WebUI in host mode\<close>

text \<open>
  A pre-configured deployment in host mode boots without a WebUI: the bring-up leaves it to the
  caller, and the caller starts it only outside host mode.
\<close>

lemma restart_keeps_webui:
  "pids (restart_sssd_and_wait os s) Webui = pids s Webui" "pids (restart_idhelper_and_wait_bulk os s) Webui = pids s Webui"
  by (simp_all add: restart_sssd_and_wait_def restart_idhelper_and_wait_bulk_def read_config_def spawn_tracked_def spawn_def
      term_tracked_def split: option.split)

lemma host_boot_without_webui:
  assumes "is_preconfigured_deployment (startup_probes os (tick (tick (fresh_supervisor os a))))"
    and "host_nfs_from_env (o_env os) = Some True" and "boot os (fresh_supervisor os a) = (Ok (), s)"
  shows "pids s Webui = None"
proof -
  define s0 where "s0 = mark_setup_wizard_complete os (tick (tick (fresh_supervisor os a)))"
  have s0: "pids s0 Webui = None" "host_nfs_mode s0"
    using assms(2) by (simp_all add: s0_def mark_setup_wizard_complete_def fresh_supervisor_def resolve_host_nfs_mode_def)
  obtain r t where b: "bring_up_services os s0 = (r, t)" by fastforce
  obtain r1 s1 where g: "run_generate os s0 = (r1, s1)" by fastforce
  obtain r2 s2 where h: "run_post_generate_hooks os s1 = (r2, s2)" by fastforce
  have s2: "pids s1 Webui = None" "host_nfs_mode s1" "pids s2 Webui = None" "host_nfs_mode s2"
    using generate_frame [of os s0] hooks_frame [of os s1] g h s0 by simp_all
  then have t: "pids t Webui = None" "host_nfs_mode t"
    using b by (auto simp: bring_up_services_def g h Let_def shares_fp_now_def read_config_def restart_frame restart_keeps_webui
        split: sum.splits if_splits)
  with assms(1,3) b show ?thesis
    by (auto simp: boot_def preflight_checks_def ensure_config_initialized_def boot_services_def s0_def [symmetric] Let_def start_watcher_def spawn_def split: sum.splits if_splits option.splits)
qed

section \<open>Requests and gates\<close>

text \<open>A pending request is never postponed: the next pass takes it and acts, with a full recycle
  for SIGUSR1 (or the bring-up that includes one) taking precedence over a reload for SIGHUP; and
  without a request services are brought up only after the wizard is complete and, outside probe
  mode, every live check has passed.\<close>

theorem pending_request_served:
  "(full_recycle_flag s \<longrightarrow> tick_action os s \<in> {ProcessFullRecycle, BringUpServices})
   \<and> (sighup_flag s \<and> \<not> full_recycle_flag s \<longrightarrow> tick_action os s = ProcessSighup)
   \<and> (tick_action os s = BringUpServices \<longrightarrow> \<not> services_started s \<and> is_setup_wizard_complete os s
        \<and> (supervise_probe os \<or> compute_startup_step (startup_probes os s) = Ready))"
  by (auto simp: tick_action_def supervisor_loop_tick_def should_bring_up_services_def Let_def)

theorem pending_request_served_witness:
  "tick_action sample_os ((fresh_supervisor sample_os empty_artifacts)\<lparr>services_started := True, sighup_flag := True, full_recycle_flag := True\<rparr>)
     = ProcessFullRecycle"
proof -
  define s where "s = (fresh_supervisor sample_os empty_artifacts)\<lparr>services_started := True, sighup_flag := True, full_recycle_flag := True\<rparr>"
  have "full_recycle_flag s" "services_started s" by (simp_all add: s_def)
  with pending_request_served [of s sample_os] show ?thesis unfolding s_def [symmetric] by auto
qed

end
