(* ===== verification/Id_Cache.thy ===== *)
theory Id_Cache
  imports Generate_Fragments Fingerprint
begin

text \<open>
  The identity cache of the helper daemon, \<^verbatim>\<open>bin/idhelper/common.rs\<close>: resolved principals by their
  normalized name, the file the cache is kept in and the fingerprint that guards rewrites.

  The hash map is the list of its entries in an order of its own; nothing may depend on that
  order, and the theorems about what is generated from the cache hold for every order.
\<close>

section \<open>Data\<close>

datatype PrincipalKind = User | Machine | Unknown

fun kind_as_str :: "PrincipalKind \<Rightarrow> string" where
  "kind_as_str User = ''user''"
| "kind_as_str Machine = ''machine''"
| "kind_as_str Unknown = ''unknown''"

record Resolved =
  r_principal :: string
  r_name :: string
  r_uid :: "32 word"
  r_gid :: "32 word"
  r_kind :: PrincipalKind
  r_source :: string
  supplemental_gids :: "32 word list"

type_synonym IdCache = "(string \<times> Resolved) list"

definition cache_get :: "IdCache \<Rightarrow> string \<Rightarrow> Resolved option" where
  "cache_get c norm = map_of c norm"

definition cache_remove :: "string \<Rightarrow> IdCache \<Rightarrow> IdCache" where
  "cache_remove key c = filter (\<lambda>e. fst e \<noteq> key) c"

definition cache_insert :: "Resolved \<Rightarrow> IdCache \<Rightarrow> IdCache" where
  "cache_insert r c = (let key = normalize_principal (r_principal r) in (key, r) # cache_remove key c)"

definition prune_non_machine_users :: "IdCache \<Rightarrow> IdCache" where
  "prune_non_machine_users c = filter (\<lambda>e. r_kind (snd e) = Machine) c"

definition prune_malformed_principals :: "IdCache \<Rightarrow> IdCache" where
  "prune_malformed_principals c = filter (\<lambda>e. principal_has_realm (r_principal (snd e))) c"

definition prune_numeric_user_entries :: "IdCache \<Rightarrow> IdCache" where
  "prune_numeric_user_entries c =
     filter (\<lambda>e. r_kind (snd e) = Machine \<or> \<not> is_numeric_local_principal (r_principal (snd e))) c"

section \<open>Fingerprint\<close>

definition le_bytes :: "32 word \<Rightarrow> string" where
  "le_bytes w = map (\<lambda>i. char_of (unat (drop_bit (8 * i) w) mod 256)) [0, 1, 2, 3]"

definition cache_step :: "64 word \<Rightarrow> char \<Rightarrow> 64 word" where
  "cache_step h b = (h * 0x100000001b3) XOR of_nat (byte b)"

definition entry_bytes :: "string \<times> Resolved \<Rightarrow> string" where
  "entry_bytes e =
     (case e of (k, r) \<Rightarrow>
        k @ r_name r @ le_bytes (r_uid r) @ le_bytes (r_gid r) @ kind_as_str (r_kind r)
          @ concat (map le_bytes (supplemental_gids r)))"

definition content_fingerprint :: "IdCache \<Rightarrow> 64 word" where
  "content_fingerprint c = foldl cache_step FNV1A_SEED (concat (map entry_bytes (sort_key fst c)))"

definition cache_changed_since :: "64 word \<Rightarrow> IdCache \<Rightarrow> bool" where
  "cache_changed_since fp_before c = (fp_before \<noteq> content_fingerprint c)"

section \<open>The cache file\<close>

definition name_of_principal :: "string \<Rightarrow> string" where
  "name_of_principal p =
     (let local = principal_local_part p in
      if CHR ''/'' \<in> set local then machine_short_name p else local)"

definition kind_of_str :: "string \<Rightarrow> PrincipalKind" where
  "kind_of_str s = (if s = ''machine'' then Machine else if s = ''user'' then User else Unknown)"

definition parse_cache_line :: "string \<Rightarrow> Resolved option" where
  "parse_cache_line line =
     (if starts_with line ''#'' \<or> is_blank line then None
      else let parts = split_on (CHR ''|'') line in
        if length parts < 5 then None
        else case (parse_u32 (parts ! 1), parse_u32 (parts ! 2)) of
          (Some uid, Some gid) \<Rightarrow>
            Some \<lparr>r_principal = parts ! 0, r_name = name_of_principal (parts ! 0), r_uid = uid, r_gid = gid,
                  r_kind = kind_of_str (parts ! 3), r_source = parts ! 4,
                  supplemental_gids =
                    (if length parts \<ge> 6
                     then List.map_filter (\<lambda>s. parse_u32 (trim s)) (split_on (CHR '','') (parts ! 5)) else [])\<rparr>
        | _ \<Rightarrow> None)"

text \<open>A file that cannot be opened loads as the empty cache.\<close>

definition load_from_file :: "string option \<Rightarrow> IdCache" where
  "load_from_file file =
     (case file of
        None \<Rightarrow> []
      | Some content \<Rightarrow> foldl (\<lambda>c r. cache_insert r c) [] (List.map_filter parse_cache_line (lines content)))"

definition cache_line :: "Resolved \<Rightarrow> string" where
  "cache_line e =
     r_principal e @ ''|'' @ show_word (r_uid e) @ ''|'' @ show_word (r_gid e) @ ''|'' @ kind_as_str (r_kind e)
       @ ''|'' @ r_source e @ ''|'' @ join '','' (map show_word (supplemental_gids e))"

text \<open>The text that is written beside the file and then renamed onto it.\<close>

definition write_to_file :: "IdCache \<Rightarrow> string" where
  "write_to_file c =
     concat (map (\<lambda>l. l @ [line_feed])
       (''# nfs-klldap-idhelper cache v1''
        # ''# principal|uid|gid|kind|source|supplemental (comma sep, may be empty)''
        # map cache_line (sort_key r_principal (map snd c))))"

section \<open>Well-formed caches\<close>

definition wf_cache :: "IdCache \<Rightarrow> bool" where
  "wf_cache c = (distinct (map fst c) \<and> (\<forall>(k, r) \<in> set c. k = normalize_principal (r_principal r)))"

lemma wf_cache_filter: "wf_cache c \<Longrightarrow> wf_cache (filter P c)"
  by (auto simp: wf_cache_def distinct_map_filter)

lemma wf_cache_insert: "wf_cache c \<Longrightarrow> wf_cache (cache_insert r c)"
  by (auto simp: cache_insert_def cache_remove_def Let_def wf_cache_def distinct_map_filter)

lemma wf_cache_empty [simp]: "wf_cache []"
  by (simp add: wf_cache_def)

lemmas wf_cache_ops = wf_cache_filter wf_cache_insert

lemma wf_cache_prunes:
  assumes "wf_cache c"
  shows "wf_cache (cache_remove k c)" "wf_cache (prune_non_machine_users c)" "wf_cache (prune_malformed_principals c)"
    "wf_cache (prune_numeric_user_entries c)"
  using assms by (simp_all add: wf_cache_filter cache_remove_def prune_non_machine_users_def prune_malformed_principals_def
      prune_numeric_user_entries_def)

lemma wf_cache_load: "wf_cache (load_from_file f)"
proof -
  have "wf_cache (foldl (\<lambda>c r. cache_insert r c) c rs)" if "wf_cache c" for c rs
    using that by (induction rs arbitrary: c) (simp_all add: wf_cache_insert)
  then show ?thesis by (simp add: load_from_file_def split: option.split)
qed

lemma map_of_other_key: "k \<noteq> x \<Longrightarrow> map_of (filter (\<lambda>e. fst e \<noteq> x) c) k = map_of c k"
  by (induction c) auto

lemma get_insert:
  "cache_get (cache_insert r c) k = (if k = normalize_principal (r_principal r) then Some r else cache_get c k)"
  by (auto simp: cache_get_def cache_insert_def cache_remove_def Let_def map_of_other_key)

text \<open>The principals of a well-formed cache differ, so sorting by principal leaves no choice.\<close>

lemma wf_cache_principals: "wf_cache c \<Longrightarrow> distinct (map r_principal (map snd c))"
proof (induction c)
  case (Cons e c)
  then have "wf_cache c" by (simp add: wf_cache_def)
  moreover have "r_principal (snd e) \<noteq> r_principal (snd e')" if "e' \<in> set c" for e'
    using Cons.prems that by (force simp: wf_cache_def)
  ultimately show ?case using Cons.IH by auto
qed simp

lemma sort_principal_perm:
  assumes "wf_cache c" and "mset c = mset c'"
  shows "sort_key r_principal (filter P (map snd c)) = sort_key r_principal (filter P (map snd c'))"
proof (rule sort_key_inj_key_eq)
  have "mset (map snd c) = mset (map snd c')" using assms(2) by (simp only: mset_map)
  then show "mset (filter P (map snd c)) = mset (sort_key r_principal (filter P (map snd c')))"
    by (simp only: mset_filter mset_sort)
  show "sorted (map r_principal (sort_key r_principal (filter P (map snd c'))))" by simp
  show "inj_on r_principal (set (filter P (map snd c)))"
    using wf_cache_principals [OF assms(1)] unfolding distinct_map by (rule inj_on_subset [OF conjunct2]) auto
qed

interpretation cache_hash: byte_hash cache_step
proof
  fix h h' c
  assume "cache_step h c = cache_step h' c"
  then have "(cache_step h c) XOR of_nat (byte c) = (cache_step h' c) XOR of_nat (byte c)" by simp
  then have "fnv_mix h 0 = fnv_mix h' 0" by (simp add: cache_step_def xor.assoc fnv_mix_def FNV_PRIME_def)
  then show "h = h'" by (simp add: fnv_mix_state)
next
  fix h c c'
  assume "cache_step h c = cache_step h c'"
  then have "fnv_mix (h * FNV_PRIME) (of_nat (byte c)) = fnv_mix (h * FNV_PRIME) (of_nat (byte c'))"
    by (simp add: cache_step_def fnv_mix_def FNV_PRIME_def)
  then show "c = c'" by (simp add: fnv_mix_value byte_word_inject)
qed

lemma content_fingerprint_order:
  assumes "wf_cache c" and "mset c = mset c'"
  shows "content_fingerprint c = content_fingerprint c'"
proof -
  have "distinct (map fst c)" using assms(1) by (simp add: wf_cache_def)
  from sorted_listing_perm [OF this assms(2), of "\<lambda>_. True"] show ?thesis by (simp add: content_fingerprint_def)
qed

section \<open>The file is read back\<close>

definition storable :: "Resolved \<Rightarrow> bool" where
  "storable r =
     (r_name r = name_of_principal (r_principal r)
      \<and> CHR ''|'' \<notin> set (r_principal r) \<and> line_feed \<notin> set (r_principal r) \<and> \<not> starts_with (r_principal r) ''#''
      \<and> CHR ''|'' \<notin> set (r_source r) \<and> line_feed \<notin> set (r_source r))"

lemma inked_not_blank: "inked c \<Longrightarrow> \<not> is_blank (a @ c # b)"
proof
  assume "inked c" and "is_blank (a @ c # b)"
  have "trim_start (a @ c # b) = trim_start a @ c # b"
    unfolding trim_start_def by (rule drop_ws_barrier) (simp_all add: ws_width_barrier \<open>inked c\<close> ws_width_le)
  moreover have "trim_end (d @ c # b) = d @ c # trim_end b" for d
  proof -
    have "drop_ws ws_width_rev (rev b @ c # rev d) = drop_ws ws_width_rev (rev b) @ c # rev d"
      by (rule drop_ws_barrier) (simp_all add: ws_width_rev_barrier \<open>inked c\<close> ws_width_rev_le)
    then show ?thesis by (simp add: trim_end_def)
  qed
  ultimately show False using \<open>is_blank (a @ c # b)\<close> by (simp add: is_blank_def trim_def)
qed

lemma numbers_back:
  assumes "\<not> is_ascii_digit c"
  shows "List.map_filter (\<lambda>s. parse_u32 (trim s)) (split_on c (join [c] (map show_word gs))) = gs"
proof (cases "gs = []")
  case True
  have "parse_u32 [] = None" by (simp add: parse_u32_def parse_unsigned_def)
  with True show ?thesis by (simp add: List.map_filter_simps)
next
  case False
  with assms have "split_on c (join [c] (map show_word gs)) = map show_word gs"
    using digits_plain by (intro split_on_join) auto
  moreover have "List.map_filter (\<lambda>s. parse_u32 (trim s)) (map show_word gs) = gs"
    by (induction gs) (simp_all add: List.map_filter_simps parse_u32_show)
  ultimately show ?thesis by simp
qed

lemma kind_back: "kind_of_str (kind_as_str k) = k"
  by (cases k) (simp_all add: kind_of_str_def)

lemma parse_cache_line_back:
  assumes "storable r"
  shows "parse_cache_line (cache_line r) = Some r"
proof -
  define supps where "supps = join '','' (map show_word (supplemental_gids r))"
  have d: "CHR ''|'' \<notin> set (show_word w)" for w :: "32 word"
    using digits_plain [of "CHR ''|''" w] by (auto simp: is_ascii_digit_def)
  then have "CHR ''|'' \<notin> set supps" using set_join [of "'',''" "map show_word (supplemental_gids r)"] by (auto simp: supps_def)
  moreover have "CHR ''|'' \<notin> set (kind_as_str (r_kind r))" by (cases "r_kind r") simp_all
  ultimately have parts: "split_on (CHR ''|'') (cache_line r) =
      [r_principal r, show_word (r_uid r), show_word (r_gid r), kind_as_str (r_kind r), r_source r, supps]"
    using assms d by (simp add: cache_line_def supps_def [symmetric] storable_def split_on_append_sep split_on_single)
  have "inked (CHR ''|'')" by (simp add: inked_def is_ascii_def ws1_def)
  then have "\<not> is_blank (cache_line r)" unfolding cache_line_def by (simp add: inked_not_blank)
  moreover have "\<not> starts_with (cache_line r) ''#''"
    using assms by (cases "r_principal r") (auto simp: cache_line_def storable_def)
  moreover have "List.map_filter (\<lambda>s. parse_u32 (trim s)) (split_on (CHR '','') supps) = supplemental_gids r"
    unfolding supps_def by (rule numbers_back) (simp add: is_ascii_digit_def)
  ultimately show ?thesis
    using assms by (simp add: parse_cache_line_def parts Let_def parse_u32_show storable_def kind_back)
qed

lemma load_distinct:
  assumes "distinct (map (normalize_principal \<circ> r_principal) rs)"
    and "\<forall>r \<in> set rs. normalize_principal (r_principal r) \<notin> fst ` set c"
  shows "foldl (\<lambda>c r. cache_insert r c) c rs = rev (map (\<lambda>r. (normalize_principal (r_principal r), r)) rs) @ c"
  using assms
proof (induction rs arbitrary: c)
  case (Cons r rs)
  have "cache_insert r c = (normalize_principal (r_principal r), r) # c"
    using Cons.prems(2) by (simp add: cache_insert_def cache_remove_def Let_def) (rule filter_True, force)
  moreover have "\<forall>r' \<in> set rs. normalize_principal (r_principal r') \<notin> fst ` set ((normalize_principal (r_principal r), r) # c)"
    using Cons.prems by (auto simp: image_iff)
  ultimately show ?case using Cons.IH [of "(normalize_principal (r_principal r), r) # c"] Cons.prems(1) by simp
qed simp

lemma cache_line_plain:
  assumes "storable r"
  shows "line_feed \<notin> set (cache_line r)" "strip_cr (cache_line r) = cache_line r"
proof -
  have d: "line_feed \<notin> set (show_word w)" for w :: "32 word"
    using digits_plain [of line_feed w] by (auto simp: is_ascii_digit_def line_feed_def)
  then have "line_feed \<notin> set (join '','' (map show_word (supplemental_gids r)))"
    using set_join [of "'',''" "map show_word (supplemental_gids r)"] by (auto simp: line_feed_def)
  moreover have "line_feed \<notin> set (kind_as_str (r_kind r))" by (cases "r_kind r") (simp_all add: line_feed_def)
  ultimately show "line_feed \<notin> set (cache_line r)"
    using assms d by (simp add: cache_line_def storable_def) (simp add: line_feed_def)
  have "byte (last (cache_line r)) \<noteq> 13"
  proof (cases "join '','' (map show_word (supplemental_gids r)) = []")
    case False
    then have "last (cache_line r) \<in> set (join '','' (map show_word (supplemental_gids r)))" by (simp add: cache_line_def)
    then have "last (cache_line r) = CHR '','' \<or> is_ascii_digit (last (cache_line r))"
      using set_join [of "'',''" "map show_word (supplemental_gids r)"] digits_plain by auto
    then show ?thesis by (auto simp: is_ascii_digit_def)
  qed (simp add: cache_line_def)
  then show "strip_cr (cache_line r) = cache_line r" by (simp add: strip_cr_def)
qed


definition sample_user :: Resolved where
  "sample_user =
     \<lparr>r_principal = ''alice@HOME.ARPA'', r_name = ''alice'', r_uid = 3001, r_gid = 3000, r_kind = User,
      r_source = ''sss'', supplemental_gids = [3004, 3005]\<rparr>"

definition sample_machine :: Resolved where
  "sample_machine =
     \<lparr>r_principal = ''host/nas.home.arpa@HOME.ARPA'', r_name = ''nas.home.arpa'', r_uid = 0, r_gid = 0, r_kind = Machine,
      r_source = ''special'', supplemental_gids = []\<rparr>"

definition sample_cache :: IdCache where
  "sample_cache = cache_insert sample_user (cache_insert sample_machine [])"

lemma sample_cache_ok: "wf_cache sample_cache" "\<forall>(k, r) \<in> set sample_cache. storable r"
proof -
  show "wf_cache sample_cache" by (simp add: sample_cache_def wf_cache_insert)
  have "storable sample_user" "storable sample_machine" by code_simp+
  then show "\<forall>(k, r) \<in> set sample_cache. storable r" by (auto simp: sample_cache_def cache_insert_def cache_remove_def Let_def)
qed


end
