(* ===== verification/Ldap_Resolver.thy ===== *)
theory Ldap_Resolver
  imports Identity_Ldap
begin

text \<open>
  The LDAP resolver, \<^verbatim>\<open>nfs-klldap-identity/src/ldap/resolver.rs\<close>: searches over a small pool of bound
  connections, the caches of users, groups and memberships with their lifetimes, the memory of
  misses, the bulk load and the snapshot the identity helper works from.

  The directory and the clock are parameters: what the \<open>i\<close>-th look at them answers. Instants are
  nanoseconds, and differences saturate as those of \<^verbatim>\<open>Instant\<close> do. A hash map is the list of its
  entries in an order of its own. A signed 32-bit number is the word with its bits.
\<close>

section \<open>Data\<close>

definition secs :: "nat \<Rightarrow> nat" where "secs n = n * 1000000000"

definition IDENTITY_CACHE_TTL :: nat where "IDENTITY_CACHE_TTL = secs (10 * 60)"
definition NEGATIVE_TTL :: nat where "NEGATIVE_TTL = secs 60"
definition POOL_IDLE_MAX :: nat where "POOL_IDLE_MAX = secs 300"
definition POOL_MAX_CONNS :: nat where "POOL_MAX_CONNS = 4"
definition EVICT_INTERVAL :: nat where "EVICT_INTERVAL = secs 5"
definition MACHINE_GID :: "32 word" where "MACHINE_GID = 0"

record PosixUserEntry =
  u_uid :: "32 word"
  u_gid :: "32 word"
  u_display :: string

record PosixGroupEntry =
  g_gid :: "32 word"
  g_display :: string
  g_members :: "string list"

record IdMapSnapshot =
  snap_users :: "(string \<times> PosixUserEntry) list"
  snap_groups :: "(string \<times> PosixGroupEntry) list"
  by_uid :: "(32 word \<times> string) list"
  by_gid :: "(32 word \<times> string) list"

record CachedUser =
  cu_id :: string
  uid_number :: "32 word option"
  primary_gid :: "32 word option"
  cu_display :: string
  cu_fetched_at :: nat

record CachedGroup =
  cg_id :: string
  gid_number :: "32 word option"
  cg_display :: string
  cg_members :: "string list"
  cg_fetched_at :: nat

record CachedDnGid =
  dg_gid :: "32 word option"
  dg_fetched_at :: nat

record CachedMemberOf =
  mo_dn :: string
  memberofs :: "string list"
  mo_fetched_at :: nat

record PooledConn =
  bound_as :: string
  last_used :: nat

text \<open>An entry of a search answer: its name and its attributes with their values.\<close>

record SearchEntry =
  se_dn :: string
  se_attrs :: "string \<Rightarrow> string list option"

text \<open>
  One attempt at a search, on a reused or a fresh connection: an answer, an error or no answer
  before the deadline. The flag says whether a fresh connection got as far as binding.
\<close>

datatype attempt = Answered "SearchEntry list" | AttemptFailed bool | AttemptTimedOut bool

record ldap_env =
  l_clock :: "nat \<Rightarrow> nat"
  l_try :: "nat \<Rightarrow> bool \<Rightarrow> string \<Rightarrow> string \<Rightarrow> string \<Rightarrow> string list \<Rightarrow> attempt"

record IdLdapResolver =
  user_base :: string
  group_base :: string
  posix_attributes :: PosixAttributeMapping
  user_cache :: "(string \<times> CachedUser) list"
  group_cache :: "(string \<times> CachedGroup) list"
  user_by_uid_cache :: "(32 word \<times> CachedUser) list"
  group_by_gid_cache :: "(32 word \<times> CachedGroup) list"
  group_gid_by_dn_cache :: "(string \<times> CachedDnGid) list"
  memberof_cache :: "(string \<times> CachedMemberOf) list"
  negative_cache :: "(string \<times> nat) list"
  conn_pool :: "PooledConn list"
  last_evict :: "nat option"
  cache_hits :: "64 word"
  cache_misses :: "64 word"
  bind_count :: "64 word"
  l_looks :: nat
  attempts_made :: "(bool \<times> string \<times> string) list"

definition hm_insert :: "'k \<Rightarrow> 'v \<Rightarrow> ('k \<times> 'v) list \<Rightarrow> ('k \<times> 'v) list" where
  "hm_insert k v m = (k, v) # filter (\<lambda>e. fst e \<noteq> k) m"

definition resolver_new :: "string \<Rightarrow> string \<Rightarrow> PosixAttributeMapping \<Rightarrow> IdLdapResolver" where
  "resolver_new ub gb attrs =
     \<lparr>user_base = ub, group_base = gb, posix_attributes = attrs, user_cache = [], group_cache = [],
      user_by_uid_cache = [], group_by_gid_cache = [], group_gid_by_dn_cache = [], memberof_cache = [],
      negative_cache = [], conn_pool = [], last_evict = None, cache_hits = 0, cache_misses = 0, bind_count = 0,
      l_looks = 0, attempts_made = []\<rparr>"

definition from_inputs :: "LdapSearchBasesInput \<Rightarrow> PosixMappingInput \<Rightarrow> string \<Rightarrow> IdLdapResolver" where
  "from_inputs bases mapping rlm =
     (case effective_ldap_search_bases bases rlm of
        (ub, gb) \<Rightarrow> resolver_new ub gb (resolve_posix_attribute_mapping mapping))"

text \<open>\<^verbatim>\<open>str::parse::<i32>\<close> and the decimal of a signed number.\<close>

definition parse_i32 :: "string \<Rightarrow> 32 word option" where
  "parse_i32 s =
     (case s of
        [] \<Rightarrow> None
      | c # r \<Rightarrow>
          if c = CHR ''-'' then (if r = [] \<or> hd r = CHR ''+'' then None
                                 else map_option (\<lambda>n. - of_nat n) (parse_unsigned (2 ^ 31) r))
          else map_option of_nat (parse_unsigned (2 ^ 31 - 1) s))"

definition show_i32 :: "32 word \<Rightarrow> string" where
  "show_i32 w = (if sint w < 0 then CHR ''-'' # show_nat (nat (- sint w)) else show_nat (nat (sint w)))"

section \<open>Clock, misses and eviction\<close>

definition read_clock :: "ldap_env \<Rightarrow> IdLdapResolver \<Rightarrow> nat \<times> IdLdapResolver" where
  "read_clock env r = (l_clock env (l_looks r), r\<lparr>l_looks := Suc (l_looks r)\<rparr>)"

definition hit :: "IdLdapResolver \<Rightarrow> IdLdapResolver" where
  "hit r = r\<lparr>cache_hits := cache_hits r + 1\<rparr>"

definition miss :: "IdLdapResolver \<Rightarrow> IdLdapResolver" where
  "miss r = r\<lparr>cache_misses := cache_misses r + 1\<rparr>"

definition negative_hit :: "ldap_env \<Rightarrow> string \<Rightarrow> IdLdapResolver \<Rightarrow> bool \<times> IdLdapResolver" where
  "negative_hit env key r =
     (case map_of (negative_cache r) key of
        None \<Rightarrow> (False, r)
      | Some t \<Rightarrow> (case read_clock env r of (now, r) \<Rightarrow> (now - t < NEGATIVE_TTL, r)))"

definition mark_negative :: "ldap_env \<Rightarrow> string \<Rightarrow> IdLdapResolver \<Rightarrow> IdLdapResolver" where
  "mark_negative env key r =
     (case read_clock env r of (now, r) \<Rightarrow> r\<lparr>negative_cache := hm_insert key now (negative_cache r)\<rparr>)"

definition clear_caches :: "IdLdapResolver \<Rightarrow> IdLdapResolver" where
  "clear_caches r =
     r\<lparr>user_cache := [], group_cache := [], user_by_uid_cache := [], group_by_gid_cache := [],
       group_gid_by_dn_cache := [], memberof_cache := [], negative_cache := []\<rparr>"

definition fresh_dn :: "nat \<Rightarrow> CachedDnGid \<Rightarrow> bool" where
  "fresh_dn now v = (now - dg_fetched_at v < (if dg_gid v \<noteq> None then IDENTITY_CACHE_TTL else NEGATIVE_TTL))"

definition evict_expired :: "ldap_env \<Rightarrow> IdLdapResolver \<Rightarrow> IdLdapResolver" where
  "evict_expired env r =
     (case read_clock env r of (now, r) \<Rightarrow>
        if (case last_evict r of None \<Rightarrow> False | Some t \<Rightarrow> now - t < EVICT_INTERVAL) then r
        else r\<lparr>last_evict := Some now,
               user_cache := filter (\<lambda>e. now - cu_fetched_at (snd e) < IDENTITY_CACHE_TTL) (user_cache r),
               group_cache := filter (\<lambda>e. now - cg_fetched_at (snd e) < IDENTITY_CACHE_TTL) (group_cache r),
               user_by_uid_cache := filter (\<lambda>e. now - cu_fetched_at (snd e) < IDENTITY_CACHE_TTL) (user_by_uid_cache r),
               group_by_gid_cache := filter (\<lambda>e. now - cg_fetched_at (snd e) < IDENTITY_CACHE_TTL) (group_by_gid_cache r),
               group_gid_by_dn_cache := filter (\<lambda>e. fresh_dn now (snd e)) (group_gid_by_dn_cache r),
               memberof_cache := filter (\<lambda>e. now - mo_fetched_at (snd e) < IDENTITY_CACHE_TTL) (memberof_cache r),
               negative_cache := filter (\<lambda>e. now - snd e < NEGATIVE_TTL) (negative_cache r)\<rparr>)"

section \<open>Connections and searches\<close>

definition pool_entry_stale :: "nat \<Rightarrow> nat \<Rightarrow> bool" where
  "pool_entry_stale used now = (now - used > POOL_IDLE_MAX)"

definition take_pooled_conn :: "ldap_env \<Rightarrow> string \<Rightarrow> IdLdapResolver \<Rightarrow> bool \<times> IdLdapResolver" where
  "take_pooled_conn env dn r =
     (case read_clock env r of (now, r) \<Rightarrow>
        let kept = filter (\<lambda>p. bound_as p = dn \<and> \<not> pool_entry_stale (last_used p) now) (conn_pool r)
        in (kept \<noteq> [], r\<lparr>conn_pool := butlast kept\<rparr>))"

definition store_pooled_conn :: "ldap_env \<Rightarrow> string \<Rightarrow> IdLdapResolver \<Rightarrow> IdLdapResolver" where
  "store_pooled_conn env dn r =
     (if length (conn_pool r) \<ge> POOL_MAX_CONNS then r
      else case read_clock env r of (now, r) \<Rightarrow>
        r\<lparr>conn_pool := conn_pool r @ [\<lparr>bound_as = dn, last_used = now\<rparr>]\<rparr>)"

definition count_bind :: "bool \<Rightarrow> IdLdapResolver \<Rightarrow> IdLdapResolver" where
  "count_bind did_bind r = (if did_bind then r\<lparr>bind_count := bind_count r + 1\<rparr> else r)"

text \<open>The attempts with numbers from \<open>attempt\<close> up to 2.\<close>

function search_attempts ::
  "ldap_env \<Rightarrow> string \<Rightarrow> string \<Rightarrow> string \<Rightarrow> string list \<Rightarrow> nat \<Rightarrow> IdLdapResolver
   \<Rightarrow> (unit, SearchEntry list) result \<times> IdLdapResolver" where
  "search_attempts env dn base flt attrs attempt r =
     (if attempt \<ge> 3 then (Err (), r)
      else case take_pooled_conn env dn r of (reused, r) \<Rightarrow>
        let out = l_try env (l_looks r) reused dn base flt attrs;
            r = r\<lparr>l_looks := Suc (l_looks r), attempts_made := (reused, base, flt) # attempts_made r\<rparr>
        in case out of
             Answered entries \<Rightarrow> (Ok entries, store_pooled_conn env dn (count_bind (\<not> reused) r))
           | AttemptFailed did_bind \<Rightarrow>
               let r = count_bind (\<not> reused \<and> did_bind) r in
               if reused then search_attempts env dn base flt attrs (Suc attempt) r
               else if attempt = 2 then (Err (), r)
               else search_attempts env dn base flt attrs (Suc attempt) r
           | AttemptTimedOut did_bind \<Rightarrow> (Err (), count_bind (\<not> reused \<and> did_bind) r))"
  by pat_completeness auto
termination
  by (relation "measure (\<lambda>(_, _, _, _, _, attempt, _). 3 - attempt)") auto

declare search_attempts.simps [simp del]

definition service_search ::
  "ldap_env \<Rightarrow> string \<Rightarrow> string \<Rightarrow> string \<Rightarrow> string list \<Rightarrow> IdLdapResolver
   \<Rightarrow> (unit, SearchEntry list) result \<times> IdLdapResolver" where
  "service_search env dn base flt attrs r = search_attempts env dn base flt attrs 0 r"

section \<open>Reading entries\<close>

definition first_value :: "string list option \<Rightarrow> string option" where
  "first_value vs = (case vs of Some (v # _) \<Rightarrow> Some v | _ \<Rightarrow> None)"

definition extract_first_attr :: "SearchEntry \<Rightarrow> string \<Rightarrow> string option" where
  "extract_first_attr se n = opt_or (first_value (se_attrs se n)) (first_value (se_attrs se (to_lowercase n)))"

definition extract_display_name :: "SearchEntry \<Rightarrow> string \<Rightarrow> string \<Rightarrow> string" where
  "extract_display_name se full_name_attr fallback =
     unwrap_or (opt_or (extract_first_attr se full_name_attr)
       (opt_or (extract_first_attr se ''displayName'') (extract_first_attr se ''cn''))) fallback"

definition member_value :: "string \<Rightarrow> string" where
  "member_value raw =
     trim (if CHR ''='' \<in> set raw
           then (let parts = split_on (CHR ''='') (hd (split_on (CHR '','') raw))
                 in if length parts \<ge> 2 then parts ! 1 else raw)
           else raw)"

definition extract_group_members :: "SearchEntry \<Rightarrow> string \<Rightarrow> string list" where
  "extract_group_members se member_attr =
     foldl (\<lambda>out nm. if nm = [] \<or> nm \<in> set out then out else out @ [nm]) []
       (map member_value (concat (map
         (\<lambda>attr. unwrap_or (opt_or (se_attrs se attr) (se_attrs se (to_lowercase attr))) [])
         [member_attr, ''uniqueMember'', ''memberUid'', ''memberuid''])))"

fun dc_suffix :: "string \<Rightarrow> string option" where
  "dc_suffix [] = None"
| "dc_suffix (c # s) = (if starts_with (to_ascii_lowercase (c # s)) ''dc='' then Some (c # s) else dc_suffix s)"

definition dc_base_from :: "string \<Rightarrow> string" where
  "dc_base_from base = unwrap_or (dc_suffix base) base"

definition search_bases :: "string \<Rightarrow> string list" where
  "search_bases base = base # (if dc_base_from base \<noteq> base then [dc_base_from base] else [])"

definition class_filter :: "string \<Rightarrow> string \<Rightarrow> string \<Rightarrow> string" where
  "class_filter obj attr val = ''(&(objectClass='' @ obj @ '')('' @ attr @ ''='' @ val @ ''))''"

definition first_some :: "('a \<Rightarrow> 'b option) \<Rightarrow> 'a list \<Rightarrow> 'b option" where
  "first_some f xs = (case List.map_filter f xs of [] \<Rightarrow> None | y # _ \<Rightarrow> Some y)"

section \<open>Users\<close>

definition user_attrs :: "PosixAttributeMapping \<Rightarrow> string list" where
  "user_attrs pa = [user_name pa, user_uid_number pa, user_gid_number pa, ''cn'', ''displayName'', user_full_name pa]"

definition user_of_entry :: "PosixAttributeMapping \<Rightarrow> string \<Rightarrow> SearchEntry \<Rightarrow> (32 word \<times> 32 word option \<times> string) option" where
  "user_of_entry pa nm se =
     map_option (\<lambda>u. (u, Option.bind (extract_first_attr se (user_gid_number pa)) (\<lambda>s. parse_i32 (trim s)),
                      extract_display_name se (user_full_name pa) nm))
       (Option.bind (extract_first_attr se (user_uid_number pa)) parse_i32)"

definition store_user :: "ldap_env \<Rightarrow> string \<Rightarrow> 32 word \<Rightarrow> 32 word option \<Rightarrow> string \<Rightarrow> IdLdapResolver \<Rightarrow> IdLdapResolver" where
  "store_user env key u g display r =
     (case read_clock env r of (now, r) \<Rightarrow>
        let cu = \<lparr>cu_id = key, uid_number = Some u, primary_gid = g, cu_display = display, cu_fetched_at = now\<rparr>
        in r\<lparr>user_cache := hm_insert key cu (user_cache r), user_by_uid_cache := hm_insert u cu (user_by_uid_cache r)\<rparr>)"

text \<open>The search by name, over the bases in turn: the user found, or whether the directory failed.\<close>

fun name_pass ::
  "ldap_env \<Rightarrow> string \<Rightarrow> string \<Rightarrow> string \<Rightarrow> string list \<Rightarrow> string list \<Rightarrow> IdLdapResolver
   \<Rightarrow> (bool, 32 word \<times> 32 word option \<times> string) result \<times> IdLdapResolver" where
  "name_pass env dn nm flt attrs [] r = (Err False, r)"
| "name_pass env dn nm flt attrs (base # bases) r =
     (case service_search env dn base flt attrs r of
        (Inl _, r) \<Rightarrow> (Err True, r)
      | (Inr entries, r) \<Rightarrow>
          (case first_some (user_of_entry (posix_attributes r) nm) entries of
             Some (u, g, display) \<Rightarrow> (Ok (u, g, display), store_user env nm u g display r)
           | None \<Rightarrow> name_pass env dn nm flt attrs bases r))"

text \<open>The search by principal name: a failure of the directory only skips the base.\<close>

fun principal_pass ::
  "ldap_env \<Rightarrow> string \<Rightarrow> string \<Rightarrow> string \<Rightarrow> string list \<Rightarrow> string list \<Rightarrow> IdLdapResolver
   \<Rightarrow> (32 word \<times> 32 word option \<times> string) option \<times> IdLdapResolver" where
  "principal_pass env dn nm flt attrs [] r = (None, r)"
| "principal_pass env dn nm flt attrs (base # bases) r =
     (case service_search env dn base flt attrs r of
        (Inl _, r) \<Rightarrow> principal_pass env dn nm flt attrs bases r
      | (Inr entries, r) \<Rightarrow>
          (case first_some (user_of_entry (posix_attributes r) nm) entries of
             Some (u, g, display) \<Rightarrow> (Some (u, g, display), store_user env (principal_local_part nm) u g display r)
           | None \<Rightarrow> principal_pass env dn nm flt attrs bases r))"

definition user_hit :: "string \<Rightarrow> IdLdapResolver \<Rightarrow> (32 word \<times> 32 word option \<times> string) option" where
  "user_hit nm r =
     Option.bind (map_of (user_cache r) nm) (\<lambda>cu. map_option (\<lambda>u. (u, primary_gid cu, cu_display cu)) (uid_number cu))"

definition resolve_user ::
  "ldap_env \<Rightarrow> string \<Rightarrow> string \<Rightarrow> IdLdapResolver \<Rightarrow> (32 word \<times> 32 word option \<times> string) option \<times> IdLdapResolver" where
  "resolve_user env dn nm r =
     (let r = evict_expired env r in
      case user_hit nm r of
        Some x \<Rightarrow> (Some x, hit r)
      | None \<Rightarrow>
          (case negative_hit env (''u:'' @ nm) (miss r) of
             (True, r) \<Rightarrow> (None, r)
           | (False, r) \<Rightarrow>
               let pa = posix_attributes r;
                   attrs = user_attrs pa @ [user_principal_name pa];
                   bases = search_bases (user_base r)
               in case name_pass env dn nm (class_filter (user_object_class pa) (user_name pa) (escape_ldap_filter nm)) attrs bases r of
                    (Inr x, r) \<Rightarrow> (Some x, r)
                  | (Inl unreachable, r) \<Rightarrow>
                      (case (if CHR ''@'' \<in> set nm \<and> \<not> unreachable
                             then principal_pass env dn nm
                                    (class_filter (user_object_class pa) (user_principal_name pa) (escape_ldap_filter nm)) attrs bases r
                             else (None, r)) of
                         (Some x, r) \<Rightarrow> (Some x, r)
                       | (None, r) \<Rightarrow> (None, mark_negative env (''u:'' @ nm) r))))"

definition uid_entry :: "PosixAttributeMapping \<Rightarrow> 32 word \<Rightarrow> SearchEntry \<Rightarrow> (string \<times> 32 word option \<times> string) option" where
  "uid_entry pa uid se =
     (let ident = unwrap_or (extract_first_attr se (user_name pa)) (show_i32 uid) in
      if Option.bind (extract_first_attr se (user_uid_number pa)) parse_i32 = Some uid
      then Some (ident, Option.bind (extract_first_attr se (user_gid_number pa)) (\<lambda>s. parse_i32 (trim s)),
                 extract_display_name se (user_full_name pa) ident)
      else None)"

definition resolve_user_by_uid ::
  "ldap_env \<Rightarrow> string \<Rightarrow> 32 word \<Rightarrow> IdLdapResolver \<Rightarrow> (string \<times> string) option \<times> IdLdapResolver" where
  "resolve_user_by_uid env dn uid r =
     (let r = evict_expired env r; key = ''uid:'' @ show_i32 uid in
      case opt_filter (\<lambda>cu. uid_number cu \<noteq> None) (map_of (user_by_uid_cache r) uid) of
        Some cu \<Rightarrow> (Some (cu_id cu, cu_display cu), hit r)
      | None \<Rightarrow>
          (case negative_hit env key r of
             (True, r) \<Rightarrow> (None, r)
           | (False, r) \<Rightarrow>
               let r = miss r; pa = posix_attributes r in
               case service_search env dn (user_base r)
                      (class_filter (user_object_class pa) (user_uid_number pa) (show_i32 uid)) (user_attrs pa) r of
                 (Inl _, r) \<Rightarrow> (None, mark_negative env key r)
               | (Inr entries, r) \<Rightarrow>
                   (case first_some (uid_entry pa uid) entries of
                      Some (ident, g, display) \<Rightarrow> (Some (ident, display), store_user env ident uid g display r)
                    | None \<Rightarrow> (None, mark_negative env key r))))"

section \<open>Groups\<close>

definition group_attrs :: "PosixAttributeMapping \<Rightarrow> string list" where
  "group_attrs pa = [group_name pa, group_gid_number pa, ''cn'', ''displayName'']"

definition store_group ::
  "ldap_env \<Rightarrow> string \<Rightarrow> 32 word \<Rightarrow> string \<Rightarrow> string list \<Rightarrow> IdLdapResolver \<Rightarrow> IdLdapResolver" where
  "store_group env ident g display members r =
     (case read_clock env r of (now, r) \<Rightarrow>
        let cg = \<lparr>cg_id = ident, gid_number = Some g, cg_display = display, cg_members = members, cg_fetched_at = now\<rparr>
        in r\<lparr>group_cache := hm_insert ident cg (group_cache r), group_by_gid_cache := hm_insert g cg (group_by_gid_cache r)\<rparr>)"

definition group_of_entry :: "PosixAttributeMapping \<Rightarrow> string \<Rightarrow> SearchEntry \<Rightarrow> (32 word \<times> string \<times> string list) option" where
  "group_of_entry pa nm se =
     map_option (\<lambda>g. (g, extract_display_name se (group_name pa) nm, extract_group_members se (group_member pa)))
       (Option.bind (extract_first_attr se (group_gid_number pa)) parse_i32)"

definition resolve_group :: "ldap_env \<Rightarrow> string \<Rightarrow> string \<Rightarrow> IdLdapResolver \<Rightarrow> (32 word \<times> string) option \<times> IdLdapResolver" where
  "resolve_group env dn nm r =
     (let r = evict_expired env r in
      case Option.bind (map_of (group_cache r) nm) (\<lambda>cg. map_option (\<lambda>g. (g, cg_display cg)) (gid_number cg)) of
        Some x \<Rightarrow> (Some x, hit r)
      | None \<Rightarrow>
          (case negative_hit env (''g:'' @ nm) r of
             (True, r) \<Rightarrow> (None, r)
           | (False, r) \<Rightarrow>
               let r = miss r; pa = posix_attributes r in
               case service_search env dn (group_base r)
                      (class_filter (group_object_class pa) (group_name pa) (escape_ldap_filter nm)) (group_attrs pa) r of
                 (Inl _, r) \<Rightarrow> (None, mark_negative env (''g:'' @ nm) r)
               | (Inr entries, r) \<Rightarrow>
                   (case first_some (group_of_entry pa nm) entries of
                      Some (g, display, ms) \<Rightarrow> (Some (g, display), store_group env nm g display ms r)
                    | None \<Rightarrow> (None, mark_negative env (''g:'' @ nm) r))))"

definition gid_entry :: "PosixAttributeMapping \<Rightarrow> 32 word \<Rightarrow> SearchEntry \<Rightarrow> (string \<times> string \<times> string list) option" where
  "gid_entry pa gid se =
     (let ident = unwrap_or (extract_first_attr se (group_name pa)) (show_i32 gid) in
      if Option.bind (extract_first_attr se (group_gid_number pa)) parse_i32 = Some gid
      then Some (ident, extract_display_name se (group_name pa) ident, extract_group_members se (group_member pa))
      else None)"

definition resolve_group_by_gid ::
  "ldap_env \<Rightarrow> string \<Rightarrow> 32 word \<Rightarrow> IdLdapResolver \<Rightarrow> (string \<times> string) option \<times> IdLdapResolver" where
  "resolve_group_by_gid env dn gid r =
     (let r = evict_expired env r; key = ''gid:'' @ show_i32 gid in
      case opt_filter (\<lambda>cg. gid_number cg \<noteq> None) (map_of (group_by_gid_cache r) gid) of
        Some cg \<Rightarrow> (Some (cg_id cg, cg_display cg), hit r)
      | None \<Rightarrow>
          (case negative_hit env key (miss r) of
             (True, r) \<Rightarrow> (None, r)
           | (False, r) \<Rightarrow>
               let pa = posix_attributes r in
               case service_search env dn (group_base r)
                      (class_filter (group_object_class pa) (group_gid_number pa) (show_i32 gid)) (group_attrs pa) r of
                 (Inl _, r) \<Rightarrow> (None, mark_negative env key r)
               | (Inr entries, r) \<Rightarrow>
                   (case first_some (gid_entry pa gid) entries of
                      Some (ident, display, ms) \<Rightarrow> (Some (ident, display), store_group env ident gid display ms r)
                    | None \<Rightarrow> (None, mark_negative env key r))))"

definition dn_rdn :: "string \<Rightarrow> string option" where
  "dn_rdn group_dn =
     (let parts = split_on (CHR ''='') (hd (split_on (CHR '','') group_dn)) in
      if length parts \<ge> 2 \<and> \<not> is_blank (parts ! 1) then Some (trim (parts ! 1)) else None)"

definition rdn_gid :: "string \<Rightarrow> (string \<times> CachedGroup) list \<Rightarrow> 32 word option" where
  "rdn_gid rdn groups =
     opt_or (Option.bind (map_of groups rdn) gid_number)
       (Option.bind (find (\<lambda>e. eq_ignore_ascii_case (fst e) rdn) groups) (\<lambda>e. gid_number (snd e)))"

definition store_dn_gid :: "ldap_env \<Rightarrow> string \<Rightarrow> 32 word option \<Rightarrow> IdLdapResolver \<Rightarrow> IdLdapResolver" where
  "store_dn_gid env group_dn found r =
     (case read_clock env r of (now, r) \<Rightarrow>
        r\<lparr>group_gid_by_dn_cache :=
            hm_insert group_dn \<lparr>dg_gid = found, dg_fetched_at = now\<rparr> (group_gid_by_dn_cache r)\<rparr>)"

definition cached_dn_gid :: "ldap_env \<Rightarrow> string \<Rightarrow> IdLdapResolver \<Rightarrow> CachedDnGid option \<times> IdLdapResolver" where
  "cached_dn_gid env group_dn r =
     (case map_of (group_gid_by_dn_cache r) group_dn of
        None \<Rightarrow> (None, r)
      | Some v \<Rightarrow> (case read_clock env r of (now, r) \<Rightarrow> (if fresh_dn now v then Some v else None, r)))"

definition group_gid_from_dn :: "ldap_env \<Rightarrow> string \<Rightarrow> string \<Rightarrow> IdLdapResolver \<Rightarrow> 32 word option \<times> IdLdapResolver" where
  "group_gid_from_dn env dn group_dn r =
     (case Option.bind (dn_rdn group_dn) (\<lambda>rdn. rdn_gid rdn (group_cache r)) of
        Some g \<Rightarrow> (Some g, hit r)
      | None \<Rightarrow>
          (case cached_dn_gid env group_dn r of
             (Some v, r) \<Rightarrow> (dg_gid v, hit r)
           | (None, r) \<Rightarrow>
               let r = miss r; pa = posix_attributes r in
               case service_search env dn group_dn ''(objectClass=*)'' [group_gid_number pa] r of
                 (out, r) \<Rightarrow>
                   let found = (case out of Inl _ \<Rightarrow> None
                                | Inr entries \<Rightarrow> first_some (\<lambda>se. Option.bind (extract_first_attr se (group_gid_number pa))
                                                                     (\<lambda>s. parse_i32 (trim s))) entries)
                   in (found, store_dn_gid env group_dn found r)))"

definition store_memberof :: "ldap_env \<Rightarrow> string \<Rightarrow> string \<Rightarrow> string list \<Rightarrow> IdLdapResolver \<Rightarrow> IdLdapResolver" where
  "store_memberof env nm edn ms r =
     (case read_clock env r of (now, r) \<Rightarrow>
        r\<lparr>memberof_cache := hm_insert nm \<lparr>mo_dn = edn, memberofs = ms, mo_fetched_at = now\<rparr> (memberof_cache r)\<rparr>)"

definition cached_memberof :: "ldap_env \<Rightarrow> string \<Rightarrow> IdLdapResolver \<Rightarrow> CachedMemberOf option \<times> IdLdapResolver" where
  "cached_memberof env nm r =
     (case map_of (memberof_cache r) nm of
        None \<Rightarrow> (None, r)
      | Some v \<Rightarrow> (case read_clock env r of (now, r) \<Rightarrow>
          (if now - mo_fetched_at v < IDENTITY_CACHE_TTL then Some v else None, r)))"

definition lookup_user_dn_and_memberof ::
  "ldap_env \<Rightarrow> string \<Rightarrow> string \<Rightarrow> IdLdapResolver \<Rightarrow> (string \<times> string list) option \<times> IdLdapResolver" where
  "lookup_user_dn_and_memberof env dn nm r =
     (case cached_memberof env nm r of
        (Some v, r) \<Rightarrow> (Some (mo_dn v, memberofs v), hit r)
      | (None, r) \<Rightarrow>
          (case negative_hit env (''mo:'' @ nm) r of
             (True, r) \<Rightarrow> (None, r)
           | (False, r) \<Rightarrow>
               let r = miss r; pa = posix_attributes r in
               case service_search env dn (user_base r)
                      (class_filter (user_object_class pa) (user_name pa) (escape_ldap_filter nm)) [user_name pa, ''memberOf''] r of
                 (Inr (se # _), r) \<Rightarrow>
                   let ms = unwrap_or (opt_or (se_attrs se ''memberOf'') (se_attrs se ''memberof'')) []
                   in (Some (se_dn se, ms), store_memberof env nm (se_dn se) ms r)
               | (_, r) \<Rightarrow> (None, mark_negative env (''mo:'' @ nm) r)))"

section \<open>Snapshot\<close>

definition snapshot :: "ldap_env \<Rightarrow> IdLdapResolver \<Rightarrow> IdMapSnapshot \<times> IdLdapResolver" where
  "snapshot env r =
     (let r = evict_expired env r;
          us = List.map_filter (\<lambda>(nm, cu). map_option (\<lambda>u. (nm, u, cu)) (uid_number cu)) (user_cache r);
          gs = List.map_filter (\<lambda>(nm, cg). map_option (\<lambda>g. (nm, g, cg)) (gid_number cg)) (group_cache r)
      in (\<lparr>snap_users = map (\<lambda>(nm, u, cu). (nm, \<lparr>u_uid = u, u_gid = unwrap_or (primary_gid cu) u, u_display = cu_display cu\<rparr>)) us,
           snap_groups = map (\<lambda>(nm, g, cg). (nm, \<lparr>g_gid = g, g_display = cg_display cg, g_members = cg_members cg\<rparr>)) gs,
           by_uid = foldl (\<lambda>m (nm, u, _). hm_insert u nm m) [] us,
           by_gid = foldl (\<lambda>m (nm, g, _). hm_insert g nm m) [] gs\<rparr>, r))"

definition names_machine :: "string \<Rightarrow> string \<Rightarrow> bool" where
  "names_machine princ m0 =
     (let m = trim m0 in
      eq_ignore_ascii_case m (machine_short_name princ) \<or> eq_ignore_ascii_case m (principal_local_part princ)
      \<or> eq_ignore_ascii_case m princ \<or> eq_ignore_ascii_case m ''root'')"

definition machine_supplemental_gids_from_snapshot :: "string \<Rightarrow> IdMapSnapshot \<Rightarrow> 32 word list" where
  "machine_supplemental_gids_from_snapshot princ snap =
     sort_key sint
       (foldl (\<lambda>supps e. if g_gid e \<noteq> 0 \<and> list_ex (names_machine princ) (g_members e) \<and> g_gid e \<notin> set supps
                         then supps @ [g_gid e] else supps) [] (map snd (snap_groups snap)))"

definition add_new :: "'a list \<Rightarrow> 'a \<Rightarrow> 'a list" where
  "add_new xs x = (if x \<in> set xs then xs else xs @ [x])"

definition machine_group_gids_for_principal :: "string \<Rightarrow> IdMapSnapshot \<Rightarrow> 32 word list" where
  "machine_group_gids_for_principal princ snap =
     foldl (\<lambda>gids g. if g \<noteq> MACHINE_GID then add_new gids g else gids) [MACHINE_GID]
       (machine_supplemental_gids_from_snapshot princ snap)"

text \<open>The groups a user is in, by its full name and then by its short name.\<close>

definition memberofs_of :: "ldap_env \<Rightarrow> string \<Rightarrow> string \<Rightarrow> IdLdapResolver \<Rightarrow> string list option \<times> IdLdapResolver" where
  "memberofs_of env dn nm r =
     (case lookup_user_dn_and_memberof env dn nm r of
        (Some (_, ms), r) \<Rightarrow> (Some ms, r)
      | (None, r) \<Rightarrow>
          if principal_local_part nm \<noteq> nm
          then (case lookup_user_dn_and_memberof env dn (principal_local_part nm) r of (x, r) \<Rightarrow> (map_option snd x, r))
          else (None, r))"

fun gids_of_dns :: "ldap_env \<Rightarrow> string \<Rightarrow> string list \<Rightarrow> 32 word list \<Rightarrow> IdLdapResolver \<Rightarrow> 32 word list \<times> IdLdapResolver" where
  "gids_of_dns env dn [] gids r = (gids, r)"
| "gids_of_dns env dn (gdn # gdns) gids r =
     (case group_gid_from_dn env dn gdn r of
        (Some g, r) \<Rightarrow> gids_of_dns env dn gdns (add_new gids g) r
      | (None, r) \<Rightarrow> gids_of_dns env dn gdns gids r)"

definition resolve_groups_for_principal ::
  "ldap_env \<Rightarrow> string \<Rightarrow> string \<Rightarrow> IdLdapResolver \<Rightarrow> 32 word list \<times> IdLdapResolver" where
  "resolve_groups_for_principal env dn nm r =
     (if fst (classify_principal nm [] [])
      then case snapshot env r of (snap, r) \<Rightarrow> (machine_group_gids_for_principal nm snap, r)
      else
        let sname = principal_local_part nm in
        case resolve_user env dn nm r of (u, r) \<Rightarrow>
          let gids = (case u of Some (_, Some g, _) \<Rightarrow> [g] | _ \<Rightarrow> []) in
          case memberofs_of env dn nm r of
            (mofs, r) \<Rightarrow>
              (case (case mofs of None \<Rightarrow> (gids, r) | Some gdns \<Rightarrow> gids_of_dns env dn gdns gids r) of
                 (gids, r) \<Rightarrow>
                   (case snapshot env r of (snap, r) \<Rightarrow>
                      (foldl (\<lambda>gids e. if list_ex (\<lambda>m. eq_ignore_ascii_case m sname \<or> eq_ignore_ascii_case m nm) (g_members e)
                                       then add_new gids (g_gid e) else gids) gids (map snd (snap_groups snap)), r))))"

section \<open>Bulk load\<close>

definition store_alias :: "ldap_env \<Rightarrow> string \<Rightarrow> 32 word \<Rightarrow> 32 word \<Rightarrow> string \<Rightarrow> IdLdapResolver \<Rightarrow> IdLdapResolver" where
  "store_alias env pval u g display r =
     (case read_clock env r of (now, r) \<Rightarrow>
        r\<lparr>user_cache := hm_insert pval \<lparr>cu_id = pval, uid_number = Some u, primary_gid = Some g,
            cu_display = display, cu_fetched_at = now\<rparr> (user_cache r)\<rparr>)"

definition load_user :: "ldap_env \<Rightarrow> PosixAttributeMapping \<Rightarrow> SearchEntry \<Rightarrow> nat \<times> IdLdapResolver \<Rightarrow> nat \<times> IdLdapResolver" where
  "load_user env pa se acc =
     (case acc of (n, r) \<Rightarrow>
        let ident = unwrap_or (extract_first_attr se (user_name pa)) [] in
        if ident = [] then (n, r)
        else case Option.bind (extract_first_attr se (user_uid_number pa)) parse_i32 of
          None \<Rightarrow> (n, r)
        | Some u \<Rightarrow>
            let g = unwrap_or (Option.bind (extract_first_attr se (user_gid_number pa)) (\<lambda>s. parse_i32 (trim s))) u;
                display = extract_display_name se (user_full_name pa) ident;
                r = store_user env ident u (Some g) display r
            in (Suc n,
                case extract_first_attr se (user_principal_name pa) of
                  Some pval \<Rightarrow>
                    if pval \<noteq> [] \<and> pval \<noteq> ident then store_alias env pval u g display r else r
                | None \<Rightarrow> r))"

definition load_group :: "ldap_env \<Rightarrow> PosixAttributeMapping \<Rightarrow> SearchEntry \<Rightarrow> IdLdapResolver \<Rightarrow> IdLdapResolver" where
  "load_group env pa se r =
     (let ident = unwrap_or (extract_first_attr se (group_name pa)) [] in
      if ident = [] then r
      else case group_of_entry pa ident se of
        None \<Rightarrow> r
      | Some (g, display, ms) \<Rightarrow> store_group env ident g display ms r)"

definition load_users_from :: "ldap_env \<Rightarrow> string \<Rightarrow> PosixAttributeMapping \<Rightarrow> string \<Rightarrow> nat \<times> IdLdapResolver \<Rightarrow> nat \<times> IdLdapResolver" where
  "load_users_from env dn pa base acc =
     (case acc of (n, r) \<Rightarrow>
        case service_search env dn base (''(objectClass='' @ user_object_class pa @ '')'') (user_attrs pa) r of
          (Inl _, r) \<Rightarrow> (n, r)
        | (Inr entries, r) \<Rightarrow> fold (load_user env pa) entries (n, r))"

definition bulk_group_attrs :: "PosixAttributeMapping \<Rightarrow> string list" where
  "bulk_group_attrs pa =
     [group_name pa, group_gid_number pa, group_member pa, ''uniqueMember'', ''memberUid'', ''cn'', ''displayName'']"

definition load_groups_from :: "ldap_env \<Rightarrow> string \<Rightarrow> PosixAttributeMapping \<Rightarrow> string \<Rightarrow> IdLdapResolver \<Rightarrow> IdLdapResolver" where
  "load_groups_from env dn pa base r =
     (case service_search env dn base (''(objectClass='' @ group_object_class pa @ '')'') (bulk_group_attrs pa) r of
        (Inl _, r) \<Rightarrow> r
      | (Inr entries, r) \<Rightarrow> fold (load_group env pa) entries r)"

definition load_full_identities :: "ldap_env \<Rightarrow> string \<Rightarrow> IdLdapResolver \<Rightarrow> nat \<times> IdLdapResolver" where
  "load_full_identities env dn r0 =
     (let pa = posix_attributes r0 in
      case fold (load_users_from env dn pa) (search_bases (user_base r0)) (0, clear_caches r0) of
        (n, r) \<Rightarrow> (n, fold (load_groups_from env dn pa) (search_bases (group_base r0)) r))"

section \<open>Lists and membership checks for the web interface\<close>

type_synonym PosixListRow = "string \<times> 32 word option \<times> string \<times> string"

definition build_posix_list_filter :: "string \<Rightarrow> string \<Rightarrow> string" where
  "build_posix_list_filter obj_class num_attr = ''(&(objectClass='' @ obj_class @ '')('' @ num_attr @ ''=*))''"

definition list_row :: "string \<Rightarrow> string \<Rightarrow> string \<Rightarrow> SearchEntry \<Rightarrow> PosixListRow option" where
  "list_row name_attr num_attr display_attr se =
     (let ident = unwrap_or (extract_first_attr se name_attr) [] in
      if ident = [] then None
      else Some (ident, Option.bind (extract_first_attr se num_attr) parse_i32, extract_display_name se display_attr ident, se_dn se))"

text \<open>The limit is tested after a row has been added, so a limit of 0 gives one row.\<close>

definition search_list_posix ::
  "ldap_env \<Rightarrow> string \<Rightarrow> string \<Rightarrow> string \<Rightarrow> string \<Rightarrow> string \<Rightarrow> string \<Rightarrow> nat \<Rightarrow> IdLdapResolver
   \<Rightarrow> (unit, PosixListRow list) result \<times> IdLdapResolver" where
  "search_list_posix env dn base flt name_attr num_attr display_attr limit r =
     (case service_search env dn base flt [name_attr, num_attr, ''cn'', ''displayName'', display_attr] r of
        (Inl _, r) \<Rightarrow> (Err (), r)
      | (Inr entries, r) \<Rightarrow> (Ok (take (max 1 limit) (List.map_filter (list_row name_attr num_attr display_attr) entries)), r))"

definition search_list_users :: "ldap_env \<Rightarrow> string \<Rightarrow> nat \<Rightarrow> IdLdapResolver \<Rightarrow> (unit, PosixListRow list) result \<times> IdLdapResolver" where
  "search_list_users env dn limit r =
     (let pa = posix_attributes r in
      search_list_posix env dn (user_base r) (build_posix_list_filter (user_object_class pa) (user_uid_number pa))
        (user_name pa) (user_uid_number pa) (user_full_name pa) limit r)"

definition search_list_groups :: "ldap_env \<Rightarrow> string \<Rightarrow> nat \<Rightarrow> IdLdapResolver \<Rightarrow> (unit, PosixListRow list) result \<times> IdLdapResolver" where
  "search_list_groups env dn limit r =
     (let pa = posix_attributes r in
      search_list_posix env dn (group_base r) (build_posix_list_filter (group_object_class pa) (group_gid_number pa))
        (group_name pa) (group_gid_number pa) (group_name pa) limit r)"

definition lookup_first_dn :: "ldap_env \<Rightarrow> string \<Rightarrow> string \<Rightarrow> string \<Rightarrow> IdLdapResolver \<Rightarrow> string option \<times> IdLdapResolver" where
  "lookup_first_dn env dn base flt r =
     (case service_search env dn base flt [''1.1''] r of
        (Inr (se # _), r) \<Rightarrow> (Some (se_dn se), r)
      | (_, r) \<Rightarrow> (None, r))"

definition lookup_group_dn :: "ldap_env \<Rightarrow> string \<Rightarrow> string \<Rightarrow> IdLdapResolver \<Rightarrow> string option \<times> IdLdapResolver" where
  "lookup_group_dn env dn gname r =
     (let pa = posix_attributes r in
      lookup_first_dn env dn (group_base r) (class_filter (group_object_class pa) (group_name pa) (escape_ldap_filter gname)) r)"

definition user_dn_memberof_check :: "ldap_env \<Rightarrow> string \<Rightarrow> string \<Rightarrow> string \<Rightarrow> IdLdapResolver \<Rightarrow> (unit, bool) result \<times> IdLdapResolver" where
  "user_dn_memberof_check env dn user_dn group_dn r =
     (case service_search env dn (user_base r)
             (class_filter (user_object_class (posix_attributes r)) ''memberOf'' (escape_ldap_filter group_dn)) [''1.1''] r of
        (Inl _, r) \<Rightarrow> (Err (), r)
      | (Inr entries, r) \<Rightarrow> (Ok (list_ex (\<lambda>e. eq_ignore_ascii_case (se_dn e) user_dn) entries), r))"

definition user_dn_has_memberof :: "ldap_env \<Rightarrow> string \<Rightarrow> string \<Rightarrow> string \<Rightarrow> IdLdapResolver \<Rightarrow> bool \<times> IdLdapResolver" where
  "user_dn_has_memberof env dn user_dn group_dn r =
     (case user_dn_memberof_check env dn user_dn group_dn r of (Inr b, r) \<Rightarrow> (b, r) | (Inl _, r) \<Rightarrow> (False, r))"

end
