(* ===== verification/Nss_Files.thy ===== *)
theory Nss_Files
  imports Id_Cache Ldap_Resolver
begin

text \<open>
  What the identity helper writes for the name service of the NFS server, from
  \<^verbatim>\<open>bin/idhelper/materialize.rs\<close>: the passwd and group rows made from the cache and the directory
  snapshot (\<open>build_nss_snapshot\<close>), the guarded rewrite of the four files, the repair of a single
  membership, and the seeding of the cache from a snapshot.

  Hash maps are lists in an order of their own. A directory gid is a 32-bit word that the code
  reads signed when it sorts and unsigned when it prints.
\<close>

section \<open>Logins\<close>

definition FALLBACK_NOBODY_UID :: "32 word" where "FALLBACK_NOBODY_UID = 65534"
definition FALLBACK_NOBODY_GID :: "32 word" where "FALLBACK_NOBODY_GID = 65534"

definition is_numeric_login :: "string \<Rightarrow> bool" where
  "is_numeric_login login = (login \<noteq> [] \<and> list_all is_ascii_digit login)"

definition nss_chars :: "(char \<Rightarrow> bool) \<Rightarrow> string \<Rightarrow> string" where
  "nss_chars allowed s =
     (let out = map (\<lambda>c. if allowed (hd c) then hd c else CHR ''_'') (utf8_chars s)
      in if out = [] then ''unknown'' else out)"

definition principal_realm_login_for_nss :: "string \<Rightarrow> string" where
  "principal_realm_login_for_nss p = nss_chars (\<lambda>c. is_ascii_alnum c \<or> c \<in> set ''_-.@/'') p"

definition sanitize_for_nss :: "string \<Rightarrow> string" where
  "sanitize_for_nss s = nss_chars (\<lambda>c. is_ascii_alnum c \<or> c \<in> set ''_-.'') s"

definition nss_passwd_logins_for :: "Resolved \<Rightarrow> string list" where
  "nss_passwd_logins_for r =
     (let short = sanitize_for_nss (r_name r);
          at = principal_realm_login_for_nss (r_principal r);
          local = principal_local_part (r_principal r)
      in sort_dedup
           (if r_kind r = Machine \<and> principal_has_realm (r_principal r)
            then short # (if local \<noteq> short then [local] else []) @ [at]
            else if principal_has_realm (r_principal r)
            then short # (if at \<noteq> short then [at] else [])
            else [short]))"

definition gecos_for :: "Resolved \<Rightarrow> string" where
  "gecos_for r =
     filter (\<lambda>c. c \<noteq> CHR '':'') (if principal_has_realm (r_principal r) then r_principal r else r_name r)"

section \<open>Group rows\<close>

definition gname_for_gid :: "32 word \<Rightarrow> (string \<times> PosixGroupEntry) list option \<Rightarrow> string \<Rightarrow> string" where
  "gname_for_gid gid ldap_groups fallback =
     (if gid = FALLBACK_NOBODY_GID then ''nobody''
      else case ldap_groups of
        None \<Rightarrow> sanitize_for_nss fallback
      | Some groups \<Rightarrow>
          (case sort_key fst (filter (\<lambda>e. g_gid (snd e) = gid) groups) of
             [] \<Rightarrow> sanitize_for_nss fallback
           | e # _ \<Rightarrow> sanitize_for_nss (g_display (snd e))))"

definition group_line_with_members :: "32 word \<Rightarrow> string \<Rightarrow> string list \<Rightarrow> string" where
  "group_line_with_members gid gname members =
     (if members = [] then gname @ '':x:'' @ show_word gid @ '':''
      else gname @ '':x:'' @ show_word gid @ '':'' @ join '','' members)"

definition minimal_root_group_members :: "string list" where
  "minimal_root_group_members = [''root'', ''daemon'', ''bin'']"

text \<open>Append an element that is not there yet.\<close>

definition push_new :: "'a \<Rightarrow> 'a list \<Rightarrow> 'a list" where
  "push_new x xs = (if x \<in> set xs then xs else xs @ [x])"

definition root_supplemental_gids_from_cache :: "IdCache \<Rightarrow> 32 word list" where
  "root_supplemental_gids_from_cache c =
     sort (foldl (\<lambda>supps g. if g \<noteq> 0 then push_new g supps else supps) []
       (concat (map (\<lambda>(_, r). if (r_uid r = 0 \<or> r_gid r = 0) \<and> principal_has_realm (r_principal r)
                              then supplemental_gids r else []) c)))"

definition short_and_at :: "Resolved \<Rightarrow> string list" where
  "short_and_at r =
     (let short = sanitize_for_nss (r_name r); at = principal_realm_login_for_nss (r_principal r)
      in short # (if principal_has_realm (r_principal r) \<and> at \<noteq> short then [at] else []))"

definition users_by_gid :: "Resolved list \<Rightarrow> 32 word \<Rightarrow> string list" where
  "users_by_gid items g =
     concat (map (\<lambda>r. if r_kind r = User \<and> r_gid r \<noteq> 0 \<and> \<not> is_numeric_local_principal (r_principal r) \<and> r_gid r = g
                      then short_and_at r else []) items)"

definition member_logins :: "Resolved \<Rightarrow> string list" where
  "member_logins r =
     (if r_kind r = Machine then [''root''] else filter (\<lambda>l. \<not> is_numeric_login l) (nss_passwd_logins_for r))"

text \<open>The members claimed for a gid by the cached entries, in the order in which they are pushed.\<close>

definition add_member_entry :: "(32 word \<Rightarrow> string list) \<Rightarrow> Resolved \<Rightarrow> 32 word \<Rightarrow> string list" where
  "add_member_entry m r =
     foldl (\<lambda>m g. if g = 0 then m else m(g := foldl (\<lambda>v l. push_new l v) (m g) (member_logins r)))
       m (r_gid r # supplemental_gids r)"

definition members_by_gid :: "Resolved list \<Rightarrow> 32 word list \<Rightarrow> 32 word \<Rightarrow> string list" where
  "members_by_gid items root_supps =
     foldl (\<lambda>m g. m(g := push_new ''root'' (m g))) (foldl add_member_entry (\<lambda>_. []) items) root_supps"

section \<open>The snapshot\<close>

record nss_rows =
  seen_login :: "string set"
  seen_gid :: "32 word set"
  passwd_lines :: "string list"
  group_lines :: "string list"

definition group_row :: "32 word \<Rightarrow> string \<Rightarrow> nss_rows \<Rightarrow> nss_rows" where
  "group_row g line a =
     (if g \<in> seen_gid a then a
      else a\<lparr>seen_gid := insert g (seen_gid a), group_lines := group_lines a @ [line]\<rparr>)"

text \<open>The directory's groups, one per gid: the one with the least key, in the order of the signed gids.\<close>

definition ldap_groups_by_gid :: "(string \<times> PosixGroupEntry) list \<Rightarrow> PosixGroupEntry list" where
  "ldap_groups_by_gid groups =
     sort_key (\<lambda>e. sint (g_gid e))
       (foldl (\<lambda>es e. if g_gid e \<in> g_gid ` set es then es else es @ [e]) [] (map snd (sort_key fst groups)))"

definition ldap_row_members :: "(32 word \<Rightarrow> string list) \<Rightarrow> (32 word \<Rightarrow> string list) \<Rightarrow> PosixGroupEntry \<Rightarrow> string list" where
  "ldap_row_members users members e =
     foldl (\<lambda>v l. push_new l v) (map sanitize_for_nss (g_members e)) (users (g_gid e) @ members (g_gid e))"

definition ldap_group_line :: "(32 word \<Rightarrow> string list) \<Rightarrow> (32 word \<Rightarrow> string list) \<Rightarrow> PosixGroupEntry \<Rightarrow> string" where
  "ldap_group_line users members e =
     group_line_with_members (g_gid e)
       (if g_gid e = FALLBACK_NOBODY_GID then ''nobody'' else sanitize_for_nss (g_display e))
       (ldap_row_members users members e)"

definition passwd_line :: "Resolved \<Rightarrow> string \<Rightarrow> string" where
  "passwd_line r login =
     login @ '':x:'' @ show_word (r_uid r) @ '':'' @ show_word (r_gid r) @ '':'' @ gecos_for r
       @ '':/nonexistent:/usr/sbin/nologin''"

definition passwd_row :: "Resolved \<Rightarrow> nss_rows \<Rightarrow> string \<Rightarrow> nss_rows" where
  "passwd_row r a login =
     (if \<not> is_numeric_login login \<and> login \<notin> seen_login a
      then a\<lparr>seen_login := insert login (seen_login a), passwd_lines := passwd_lines a @ [passwd_line r login]\<rparr>
      else a)"

definition claimed_line ::
  "(string \<times> PosixGroupEntry) list option \<Rightarrow> (32 word \<Rightarrow> string list) \<Rightarrow> Resolved \<Rightarrow> 32 word \<Rightarrow> string" where
  "claimed_line ldap_groups members r g =
     (if g = 0 then group_line_with_members 0 ''root'' minimal_root_group_members
      else if r_kind r = Machine
      then group_line_with_members g (gname_for_gid g ldap_groups (CHR ''g'' # show_word g)) (push_new ''root'' (members g))
      else group_line_with_members g (gname_for_gid g ldap_groups (CHR ''g'' # show_word g))
             (foldl (\<lambda>v l. push_new l v) (members g) (short_and_at r)))"

definition private_row :: "Resolved \<Rightarrow> nss_rows \<Rightarrow> nss_rows" where
  "private_row r a =
     (if r_uid r \<noteq> r_gid r \<and> r_uid r \<notin> seen_gid a
      then a\<lparr>seen_gid := insert (r_uid r) (seen_gid a),
             group_lines := group_lines a @
               (if r_uid r = 0 then [] else [CHR ''u'' # show_word (r_uid r) @ '':x:'' @ show_word (r_uid r) @ '':''])\<rparr>
      else a)"

definition item_rows ::
  "(string \<times> PosixGroupEntry) list option \<Rightarrow> (32 word \<Rightarrow> string list) \<Rightarrow> nss_rows \<Rightarrow> Resolved \<Rightarrow> nss_rows" where
  "item_rows ldap_groups members a r =
     (if is_numeric_local_principal (r_principal r) then a
      else let a = foldl (passwd_row r) a (nss_passwd_logins_for r);
               a = foldl (\<lambda>a g. group_row g (claimed_line ldap_groups members r g) a) a (r_gid r # supplemental_gids r)
           in private_row r a)"

definition root_supp_line :: "(string \<times> PosixGroupEntry) list option \<Rightarrow> (32 word \<Rightarrow> string list) \<Rightarrow> 32 word \<Rightarrow> string" where
  "root_supp_line ldap_groups members g =
     group_line_with_members g (gname_for_gid g ldap_groups (CHR ''g'' # show_word g)) (push_new ''root'' (members g))"

definition exact_root_passwd :: string where
  "exact_root_passwd = ''root:x:0:0:root:/root:/bin/sh''"

definition finish_passwd :: "string list \<Rightarrow> string list" where
  "finish_passwd ls =
     (let ls = (if \<not> list_ex (\<lambda>l. starts_with l ''root:'') ls then exact_root_passwd # ls
                else exact_root_passwd # takeWhile (\<lambda>l. \<not> starts_with l ''root:'') ls
                       @ tl (dropWhile (\<lambda>l. \<not> starts_with l ''root:'') ls))
      in if list_ex (\<lambda>l. starts_with l ''nobody:'') ls then ls
         else ls @ [''nobody:x:'' @ show_word FALLBACK_NOBODY_UID @ '':'' @ show_word FALLBACK_NOBODY_GID
                      @ '':nfs-klldap fallback:/nonexistent:/usr/sbin/nologin''])"

definition finish_group :: "nss_rows \<Rightarrow> string list" where
  "finish_group a =
     (let root_line = group_line_with_members 0 ''root'' minimal_root_group_members;
          ls = group_lines a @ (if seen_gid a = {} \<or> 0 \<notin> seen_gid a then [root_line] else [])
      in root_line # filter (\<lambda>l. \<not> starts_with l ''root:x:0:'') ls)"

definition snapshot_items :: "IdCache \<Rightarrow> Resolved list" where
  "snapshot_items c = sort_key r_principal (filter (\<lambda>r. principal_has_realm (r_principal r)) (map snd c))"

definition no_rows :: nss_rows where
  "no_rows = \<lparr>seen_login = {}, seen_gid = {}, passwd_lines = [], group_lines = []\<rparr>"

definition snapshot_rows :: "IdCache \<Rightarrow> (string \<times> PosixGroupEntry) list option \<Rightarrow> nss_rows" where
  "snapshot_rows c ldap_groups =
     (let items = snapshot_items c;
          root_supps = root_supplemental_gids_from_cache c;
          users = users_by_gid items;
          members = members_by_gid items root_supps;
          a = (case ldap_groups of
                 None \<Rightarrow> no_rows
               | Some groups \<Rightarrow>
                   foldl (\<lambda>a e. group_row (g_gid e) (ldap_group_line users members e) a) no_rows (ldap_groups_by_gid groups));
          a = foldl (item_rows ldap_groups members) a items
      in foldl (\<lambda>a g. group_row g (root_supp_line ldap_groups members g) a) a root_supps)"

definition build_nss_snapshot :: "IdCache \<Rightarrow> (string \<times> PosixGroupEntry) list option \<Rightarrow> string list \<times> string list" where
  "build_nss_snapshot c ldap_groups =
     (let a = snapshot_rows c ldap_groups in (finish_passwd (passwd_lines a), finish_group a))"

section \<open>The files\<close>

datatype store = NssPasswd | NssGroup | ExtraPasswd | ExtraGroup

text \<open>
  Files by name; \<open>None\<close> is a file that is missing. The two predicates say which files can be
  read and which can be written.
\<close>

type_synonym stores = "store \<Rightarrow> string option"

record store_io =
  can_read :: "store \<Rightarrow> bool"
  can_write :: "store \<Rightarrow> bool"

definition write_atomic_if_changed :: "store_io \<Rightarrow> store \<Rightarrow> string \<Rightarrow> stores \<Rightarrow> (store, bool) result \<times> stores" where
  "write_atomic_if_changed io p content fs =
     (if can_read io p \<and> fs p = Some content then (Ok False, fs)
      else if can_write io p then (Ok True, fs(p := Some content)) else (Err p, fs))"

definition file_text :: "string list \<Rightarrow> string" where
  "file_text ls = concat (map (\<lambda>l. l @ [line_feed]) ls)"

fun write_stores :: "store_io \<Rightarrow> (store \<times> string) list \<Rightarrow> bool \<Rightarrow> stores \<Rightarrow> (store, bool) result \<times> stores" where
  "write_stores io [] wrote fs = (Ok wrote, fs)"
| "write_stores io ((p, content) # rest) wrote fs =
     (case write_atomic_if_changed io p content fs of
        (Inl e, fs) \<Rightarrow> (Err e, fs)
      | (Inr w, fs) \<Rightarrow> write_stores io rest (wrote \<or> w) fs)"

definition materialize_nss_wrappers_at ::
  "store_io \<Rightarrow> IdCache \<Rightarrow> (string \<times> PosixGroupEntry) list option \<Rightarrow> stores \<Rightarrow> (store, bool) result \<times> stores" where
  "materialize_nss_wrappers_at io c ldap_groups fs =
     (case build_nss_snapshot c ldap_groups of
        (pw, gr) \<Rightarrow>
          write_stores io [(NssPasswd, file_text pw), (NssGroup, file_text gr),
                           (ExtraPasswd, file_text pw), (ExtraGroup, file_text gr)] False fs)"

section \<open>Repairing one membership\<close>

definition row_of_gid :: "32 word \<Rightarrow> string \<Rightarrow> bool" where
  "row_of_gid gid line =
     (let t = trim line in
      t \<noteq> [] \<and> \<not> starts_with t ''#''
      \<and> (let parts = split_on (CHR '':'') t in length parts \<ge> 3 \<and> parse_u32 (parts ! 2) = Some gid))"

definition row_members :: "string \<Rightarrow> string" where
  "row_members line = (let parts = split_on (CHR '':'') (trim line) in if length parts \<ge> 4 then parts ! 3 else [])"

definition lacks_login :: "32 word \<Rightarrow> string \<Rightarrow> string \<Rightarrow> bool" where
  "lacks_login gid login line =
     (row_of_gid gid line \<and> login \<notin> set (split_on (CHR '','') (row_members line)))"

definition ensure_in_row :: "32 word \<Rightarrow> string \<Rightarrow> string \<Rightarrow> string" where
  "ensure_in_row gid login line =
     (if lacks_login gid login line
      then let parts = split_on (CHR '':'') (trim line) in
           parts ! 0 @ '':x:'' @ parts ! 2 @ '':''
             @ (if row_members line = [] then login else row_members line @ '','' @ login)
      else line)"

text \<open>The name of a row is found by splitting into at most four parts.\<close>

definition find_row_name :: "store_io \<Rightarrow> stores \<Rightarrow> 32 word \<Rightarrow> store \<Rightarrow> string option" where
  "find_row_name io fs gid p =
     (case (if can_read io p then fs p else None) of
        None \<Rightarrow> None
      | Some content \<Rightarrow>
          map_option (\<lambda>l. hd (splitn 4 (CHR '':'') (trim l)))
            (find (\<lambda>l. let t = trim l; parts = splitn 4 (CHR '':'') t in
                       t \<noteq> [] \<and> \<not> starts_with t ''#'' \<and> length parts \<ge> 3 \<and> parse_u32 (parts ! 2) = Some gid)
               (lines content)))"

definition stub_name :: "store_io \<Rightarrow> stores \<Rightarrow> 32 word \<Rightarrow> string" where
  "stub_name io fs gid =
     (if gid = FALLBACK_NOBODY_GID then ''nobody''
      else unwrap_or (opt_or (find_row_name io fs gid NssGroup) (find_row_name io fs gid ExtraGroup))
             (if gid = 0 then ''root'' else CHR ''g'' # show_word gid))"

definition ensured_lines :: "32 word \<Rightarrow> string \<Rightarrow> string \<Rightarrow> string list \<Rightarrow> string list" where
  "ensured_lines gid login gname ls =
     map (ensure_in_row gid login) ls
       @ (if list_ex (row_of_gid gid) ls then [] else [gname @ '':x:'' @ show_word gid @ '':'' @ login])"

definition ensure_in_file :: "store_io \<Rightarrow> 32 word \<Rightarrow> string \<Rightarrow> store \<Rightarrow> stores \<Rightarrow> (store, unit) result \<times> stores" where
  "ensure_in_file io gid login p fs =
     (if fs p \<noteq> None \<and> \<not> can_read io p then (Err p, fs)
      else let ls = lines (unwrap_or (fs p) []) in
        if list_ex (lacks_login gid login) ls \<or> \<not> list_ex (row_of_gid gid) ls
        then case write_atomic_if_changed io p (join [line_feed] (ensured_lines gid login (stub_name io fs gid) ls) @ [line_feed]) fs of
               (Inl e, fs) \<Rightarrow> (Err e, fs) | (Inr _, fs) \<Rightarrow> (Ok (), fs)
        else (Ok (), fs))"

definition ensure_nss_group_member_login ::
  "store_io \<Rightarrow> 32 word \<Rightarrow> string \<Rightarrow> stores \<Rightarrow> (store, unit) result \<times> stores" where
  "ensure_nss_group_member_login io gid login0 fs =
     (let login = trim login0 in
      if login = [] then (Ok (), fs)
      else case ensure_in_file io gid login NssGroup fs of
        (Inl e, fs) \<Rightarrow> (Err e, fs)
      | (Inr _, fs) \<Rightarrow> ensure_in_file io gid login ExtraGroup fs)"

section \<open>Seeding the cache from the directory\<close>

definition supplemental_gids_from_snapshot :: "string \<Rightarrow> string \<Rightarrow> 32 word \<Rightarrow> IdMapSnapshot \<Rightarrow> 32 word list" where
  "supplemental_gids_from_snapshot sname princ pg snap =
     (let at = principal_realm_login_for_nss princ in
      remdups_adj (sort (map g_gid
        (filter (\<lambda>e. g_gid e \<noteq> 0 \<and> g_gid e \<noteq> pg
                     \<and> list_ex (\<lambda>m. trim m \<in> {sname, princ, at}) (g_members e))
           (map snd (snap_groups snap))))))"

definition seedable :: "string \<times> PosixUserEntry \<Rightarrow> bool" where
  "seedable e =
     (u_uid (snd e) \<noteq> 0
      \<and> \<not> (CHR ''/'' \<in> set (fst e) \<and> list_ex (starts_with (fst e)) MACHINE_PRINCIPAL_PREFIXES))"

text \<open>One name and gid per uid. The map is kept in the order in which its keys were first met.\<close>

definition best_step :: "(32 word \<times> string \<times> 32 word) list \<Rightarrow> string \<times> PosixUserEntry \<Rightarrow> (32 word \<times> string \<times> 32 word) list" where
  "best_step best e =
     (let sname = principal_local_part (fst e) in
      if u_uid (snd e) \<in> fst ` set best
      then map (\<lambda>(uid, name, gid). if uid = u_uid (snd e) \<and> CHR ''@'' \<notin> set (fst e) \<and> CHR ''@'' \<in> set name
                                  then (uid, sname, gid) else (uid, name, gid)) best
      else best @ [(u_uid (snd e), sname, u_gid (snd e))])"

definition best_per_uid :: "IdMapSnapshot \<Rightarrow> (32 word \<times> string \<times> 32 word) list" where
  "best_per_uid snap = foldl best_step [] (filter seedable (snap_users snap))"

definition seeded_entry :: "IdMapSnapshot \<Rightarrow> string \<Rightarrow> 32 word \<times> string \<times> 32 word \<Rightarrow> Resolved" where
  "seeded_entry snap rlm b =
     (case b of (uid, sname, gid) \<Rightarrow>
        \<lparr>r_principal = sname @ ''@'' @ rlm, r_name = sname, r_uid = uid, r_gid = gid, r_kind = User,
         r_source = ''bulk'',
         supplemental_gids = supplemental_gids_from_snapshot sname (sname @ ''@'' @ rlm) gid snap\<rparr>)"

definition seed_cache_and_nss_from_snapshot :: "IdMapSnapshot \<Rightarrow> string \<Rightarrow> IdCache \<Rightarrow> IdCache \<times> nat" where
  "seed_cache_and_nss_from_snapshot snap rlm c =
     (let best = best_per_uid snap
      in (foldl (\<lambda>c b. cache_insert (seeded_entry snap rlm b) c) c best, length best))"

text \<open>Group edges found by resolving a user alone, by short name.\<close>

type_synonym LiveGroupEdges = "(string \<times> 32 word list) list"

definition fold_live :: "LiveGroupEdges \<Rightarrow> Resolved \<Rightarrow> Resolved" where
  "fold_live live e =
     (if r_kind e \<noteq> User \<or> \<not> principal_has_realm (r_principal e) then e
      else case map_of live (r_name e) of
        None \<Rightarrow> e
      | Some gids \<Rightarrow>
          e\<lparr>supplemental_gids := remdups_adj (sort
             (foldl (\<lambda>supps g. if g \<noteq> 0 \<and> g \<noteq> r_gid e then push_new g supps else supps) (supplemental_gids e) gids))\<rparr>)"

definition sync_user_cache_from_snapshot :: "IdMapSnapshot \<Rightarrow> string \<Rightarrow> LiveGroupEdges \<Rightarrow> IdCache \<Rightarrow> IdCache \<times> nat" where
  "sync_user_cache_from_snapshot snap rlm live c =
     (case seed_cache_and_nss_from_snapshot snap rlm (prune_non_machine_users c) of
        (c, n) \<Rightarrow>
          (prune_numeric_user_entries (prune_malformed_principals (map (\<lambda>(k, e). (k, fold_live live e)) c)), n))"

end
