(* ===== verification/Id_Resolve.thy ===== *)
theory Id_Resolve
  imports Startup Nss_Files
begin

text \<open>
  Resolution of a principal by the identity helper, \<^verbatim>\<open>bin/idhelper/resolve.rs\<close>: the policy that
  picks among the answers of the name service, the directory snapshot and a live lookup, the
  cache, the refusal of unknown realm principals, and the group list with its persistence.

  The state holds the cache and its file, the four name service files and the shared resolver;
  \<^verbatim>\<open>getent\<close>, the configuration file and the outcome of writes are answers of the environment to
  the \<open>i\<close>-th look. Warming the name service cache after a resolution and log lines have no effect.
\<close>

section \<open>Environment and state\<close>

record id_env =
  i_ldap :: ldap_env
  i_getent :: "nat \<Rightarrow> string \<Rightarrow> string option"
  i_env :: env
  i_conf :: "nat \<Rightarrow> (config_error, NfsKlldapConfig) result"
  i_io :: store_io
  i_cache_write :: "nat \<Rightarrow> bool"

record id_state =
  id_cache :: IdCache
  id_stores :: stores
  cache_file :: "string option"
  id_resolver :: "(IdLdapResolver \<times> string) option"
  i_looks :: nat
  asked :: "string list"

definition i_tick :: "id_state \<Rightarrow> id_state" where
  "i_tick s = s\<lparr>i_looks := Suc (i_looks s)\<rparr>"

definition write_cache_file :: "id_env \<Rightarrow> id_state \<Rightarrow> id_state" where
  "write_cache_file e s =
     i_tick (if i_cache_write e (i_looks s) then s\<lparr>cache_file := Some (write_to_file (id_cache s))\<rparr> else s)"

definition materialize :: "id_env \<Rightarrow> (string \<times> PosixGroupEntry) list option \<Rightarrow> id_state \<Rightarrow> id_state" where
  "materialize e groups s =
     s\<lparr>id_stores := snd (materialize_nss_wrappers_at (i_io e) (id_cache s) groups (id_stores s))\<rparr>"

definition ensure_login :: "id_env \<Rightarrow> 32 word \<Rightarrow> string \<Rightarrow> id_state \<Rightarrow> id_state" where
  "ensure_login e g login s =
     s\<lparr>id_stores := snd (ensure_nss_group_member_login (i_io e) g login (id_stores s))\<rparr>"

section \<open>The shared resolver\<close>

definition from_sssd_section :: "SssdSection \<Rightarrow> string \<Rightarrow> IdLdapResolver" where
  "from_sssd_section sd rlm =
     from_inputs \<lparr>ldap_search_base = sssd_search_base sd, ldap_user_search_base = sssd_user_search_base sd,
                  ldap_group_search_base = sssd_group_search_base sd\<rparr> (posix_mapping_input sd) rlm"

definition load_resolver_from_config :: "id_env \<Rightarrow> id_state \<Rightarrow> (IdLdapResolver \<times> string) option" where
  "load_resolver_from_config e s =
     (case load (i_env e) (i_conf e (i_looks s)) of
        Inl _ \<Rightarrow> None
      | Inr cfg \<Rightarrow>
          if is_blank (ldap_default_bind_dn (sssd cfg)) \<or> is_blank (ldap_default_authtok (sssd cfg)) then None
          else Some (from_sssd_section (sssd cfg) (unwrap_or (effective_realm cfg) []), ldap_default_bind_dn (sssd cfg)))"

definition get_or_init_resolver :: "id_env \<Rightarrow> id_state \<Rightarrow> id_state" where
  "get_or_init_resolver e s =
     (if id_resolver s = None then i_tick (s\<lparr>id_resolver := load_resolver_from_config e s\<rparr>) else s)"

text \<open>One call of the resolver, when there is one.\<close>

definition call_resolver ::
  "id_env \<Rightarrow> (ldap_env \<Rightarrow> string \<Rightarrow> IdLdapResolver \<Rightarrow> 'a \<times> IdLdapResolver) \<Rightarrow> id_state \<Rightarrow> 'a option \<times> id_state" where
  "call_resolver e f s =
     (case id_resolver s of
        None \<Rightarrow> (None, s)
      | Some (r, dn) \<Rightarrow> (case f (i_ldap e) dn r of (x, r) \<Rightarrow> (Some x, s\<lparr>id_resolver := Some (r, dn)\<rparr>)))"

definition snapshot_call :: "ldap_env \<Rightarrow> string \<Rightarrow> IdLdapResolver \<Rightarrow> IdMapSnapshot \<times> IdLdapResolver" where
  "snapshot_call env dn r = snapshot env r"

section \<open>Policy\<close>

definition RESOLVE_FAIL_CLOSED_SOURCE :: string where
  "RESOLVE_FAIL_CLOSED_SOURCE = ''unresolved-fail-closed''"

definition RESOLVE_UNRESOLVED_UID :: "32 word" where "RESOLVE_UNRESOLVED_UID = - 1"
definition RESOLVE_UNRESOLVED_GID :: "32 word" where "RESOLVE_UNRESOLVED_GID = - 1"

definition RESOLVE_ERR_UNRESOLVED :: string where
  "RESOLVE_ERR_UNRESOLVED = ''ERR unresolved principal'' @ [line_feed]"

definition is_unresolved_fail_closed :: "Resolved \<Rightarrow> bool" where
  "is_unresolved_fail_closed r = (r_source r = RESOLVE_FAIL_CLOSED_SOURCE)"

type_synonym ids = "32 word \<times> 32 word"

definition as_ldap :: "ids \<Rightarrow> 32 word \<times> 32 word \<times> string" where
  "as_ldap p = (fst p, snd p, ''ldap'')"

definition resolve_identity_candidates ::
  "string \<Rightarrow> (32 word \<times> 32 word \<times> string) option \<Rightarrow> (32 word \<times> 32 word \<times> string) option \<Rightarrow> ids option
   \<Rightarrow> ids option \<Rightarrow> ids option \<Rightarrow> ids option \<Rightarrow> ids option \<Rightarrow> (32 word \<times> 32 word \<times> string) option" where
  "resolve_identity_candidates full nss_full nss_short test_force_ldap snap_full snap_short live_full live_short =
     (let is_realm = principal_has_realm full in
      if nss_full \<noteq> None then nss_full
      else if \<not> is_realm \<and> nss_short \<noteq> None then nss_short
      else if CHR ''@'' \<in> set full \<and> test_force_ldap \<noteq> None then map_option as_ldap test_force_ldap
      else if snap_full \<noteq> None then map_option as_ldap snap_full
      else if live_full \<noteq> None then map_option as_ldap live_full
      else if \<not> is_realm \<and> snap_short \<noteq> None then map_option as_ldap snap_short
      else if \<not> is_realm \<and> live_short \<noteq> None then map_option as_ldap live_short
      else None)"

definition test_force_ldap_uid_gid :: "id_env \<Rightarrow> string \<Rightarrow> ids option" where
  "test_force_ldap_uid_gid e full =
     (if CHR ''@'' \<notin> set full then None
      else Option.bind (i_env e ''TEST_FORCE_LDAP_UID_GID'') (\<lambda>uv.
           Option.bind (split_once (CHR '':'') uv) (\<lambda>(us, gs).
           Option.bind (parse_u32 (trim us)) (\<lambda>u. map_option (\<lambda>g. (u, g)) (parse_u32 (trim gs))))))"

definition format_resolve_socket_line :: "Resolved \<Rightarrow> string" where
  "format_resolve_socket_line r =
     (if is_unresolved_fail_closed r then RESOLVE_ERR_UNRESOLVED
      else ''OK '' @ r_principal r @ ''|'' @ show_word (r_uid r) @ ''|'' @ show_word (r_gid r) @ ''|''
             @ kind_as_str (r_kind r) @ ''|'' @ r_source r @ [line_feed])"

section \<open>Name service\<close>

fun lookup_passwd_lines :: "string \<Rightarrow> string list \<Rightarrow> ids option" where
  "lookup_passwd_lines nm [] = None"
| "lookup_passwd_lines nm (l # ls) =
     (let line = trim l in
      if line = [] \<or> starts_with line ''#'' then lookup_passwd_lines nm ls
      else if hd (split_on (CHR '':'') line) = nm then parse_getent_passwd line
      else lookup_passwd_lines nm ls)"

definition read_store :: "id_env \<Rightarrow> store \<Rightarrow> stores \<Rightarrow> string option" where
  "read_store e p fs = (if can_read (i_io e) p then fs p else None)"

definition lookup_passwd_file :: "id_env \<Rightarrow> store \<Rightarrow> string \<Rightarrow> stores \<Rightarrow> ids option" where
  "lookup_passwd_file e p nm fs = Option.bind (read_store e p fs) (\<lambda>content. lookup_passwd_lines nm (lines content))"

definition with_source :: "string \<Rightarrow> ids \<Rightarrow> 32 word \<times> 32 word \<times> string" where
  "with_source src p = (fst p, snd p, src)"

definition resolve_getent :: "id_env \<Rightarrow> string \<Rightarrow> id_state \<Rightarrow> (32 word \<times> 32 word \<times> string) option \<times> id_state" where
  "resolve_getent e nm s =
     (let out = i_getent e (i_looks s) nm; s = (i_tick s)\<lparr>asked := nm # asked s\<rparr> in
      (opt_or (map_option (with_source ''sss'')
                 (Option.bind out (\<lambda>txt. parse_getent_passwd (case lines txt of [] \<Rightarrow> [] | l # _ \<Rightarrow> l))))
        (opt_or (map_option (with_source ''extrausers'') (lookup_passwd_file e ExtraPasswd nm (id_stores s)))
           (map_option (with_source ''nss'') (lookup_passwd_file e NssPasswd nm (id_stores s)))), s))"

definition lookup_group_in_content :: "string \<Rightarrow> 32 word \<Rightarrow> string option" where
  "lookup_group_in_content content gid =
     map_option gr_name (find (\<lambda>row. gr_gid row = gid) (List.map_filter parse_group_row (lines content)))"

definition lookup_group_file :: "id_env \<Rightarrow> 32 word \<Rightarrow> stores \<Rightarrow> string option" where
  "lookup_group_file e gid fs =
     opt_or (Option.bind (read_store e NssGroup fs) (\<lambda>c. lookup_group_in_content c gid))
       (Option.bind (read_store e ExtraGroup fs) (\<lambda>c. lookup_group_in_content c gid))"

section \<open>Directory\<close>

definition uid_gid_from_user_resolve :: "id_env \<Rightarrow> string \<Rightarrow> id_state \<Rightarrow> ids option \<times> id_state" where
  "uid_gid_from_user_resolve e nm s =
     (case call_resolver e (\<lambda>env dn. resolve_user env dn nm) s of
        (Some (Some (u, g, _)), s) \<Rightarrow> (Some (u, unwrap_or g u), s)
      | (_, s) \<Rightarrow> (None, s))"

definition snap_user :: "IdMapSnapshot \<Rightarrow> string \<Rightarrow> ids option" where
  "snap_user snap nm = map_option (\<lambda>u. (u_uid u, u_gid u)) (map_of (snap_users snap) nm)"

definition uid_gid_from_snapshot :: "IdMapSnapshot \<Rightarrow> string \<Rightarrow> string \<Rightarrow> ids option" where
  "uid_gid_from_snapshot snap full sname =
     opt_or (snap_user snap full) (if principal_has_realm full then None else snap_user snap sname)"

definition ldap_snapshot_pair :: "IdMapSnapshot \<Rightarrow> string \<Rightarrow> string \<Rightarrow> ids option \<times> ids option" where
  "ldap_snapshot_pair snap full sname =
     (uid_gid_from_snapshot snap full sname, if principal_has_realm full then None else snap_user snap sname)"

definition try_resolve :: "id_env \<Rightarrow> string \<Rightarrow> id_state \<Rightarrow> ids option \<times> id_state" where
  "try_resolve e nm s =
     (case call_resolver e snapshot_call s of
        (None, s) \<Rightarrow> (None, s)
      | (Some snap, s) \<Rightarrow>
          (case ldap_snapshot_pair snap nm (principal_local_part nm) of (snap_full, snap_short) \<Rightarrow>
             case uid_gid_from_user_resolve e nm s of (live_full, s) \<Rightarrow>
               case (if principal_has_realm nm then (None, s) else uid_gid_from_user_resolve e (principal_local_part nm) s) of
                 (live_short, s) \<Rightarrow>
                   (map_option (\<lambda>(u, g, _). (u, g))
                      (resolve_identity_candidates nm None None None snap_full snap_short live_full live_short), s)))"

definition resolve_via_structured_ldap :: "id_env \<Rightarrow> string \<Rightarrow> id_state \<Rightarrow> ids option \<times> id_state" where
  "resolve_via_structured_ldap e nm s0 =
     (let s = get_or_init_resolver e s0 in
      if id_resolver s = None then (None, s)
      else case try_resolve e nm s of
        (Some p, s) \<Rightarrow> (Some p, s)
      | (None, s) \<Rightarrow>
          (case try_resolve e nm (snd (call_resolver e load_full_identities s)) of
             (None, s) \<Rightarrow> (None, s)
           | (Some (u, g), s) \<Rightarrow> (Some (u, g), snd (call_resolver e (\<lambda>env dn. resolve_group_by_gid env dn g) s))))"

definition resolve_via_nss :: "id_env \<Rightarrow> string \<Rightarrow> id_state \<Rightarrow> (32 word \<times> 32 word \<times> string) option \<times> id_state" where
  "resolve_via_nss e nm0 s =
     (let nm = trim nm0; sname = principal_local_part nm in
      case resolve_getent e nm s of (nss_full, s) \<Rightarrow>
        case (if \<not> principal_has_realm nm \<and> sname \<noteq> nm then resolve_getent e sname s else (None, s)) of (nss_short, s) \<Rightarrow>
          case resolve_identity_candidates nm nss_full nss_short (test_force_ldap_uid_gid e nm) None None None None of
            Some x \<Rightarrow> (Some x, s)
          | None \<Rightarrow> (case resolve_via_structured_ldap e nm s of (p, s) \<Rightarrow> (map_option as_ldap p, s)))"

section \<open>Groups\<close>

definition merge_group_gids :: "32 word \<Rightarrow> 32 word list \<Rightarrow> 32 word list" where
  "merge_group_gids primary supplemental = foldl add_new [primary] supplemental"

definition ensure_resolver_snapshot :: "id_env \<Rightarrow> id_state \<Rightarrow> id_state" where
  "ensure_resolver_snapshot e s =
     (case call_resolver e snapshot_call s of
        (Some snap, s) \<Rightarrow> if snap_groups snap = [] then snd (call_resolver e load_full_identities s) else s
      | (None, s) \<Rightarrow> s)"

definition fetch_group :: "id_env \<Rightarrow> 32 word \<Rightarrow> id_state \<Rightarrow> id_state" where
  "fetch_group e g s = snd (call_resolver e (\<lambda>env dn. resolve_group_by_gid env dn g) s)"

definition groups_of :: "id_env \<Rightarrow> string \<Rightarrow> id_state \<Rightarrow> 32 word list \<times> id_state" where
  "groups_of e princ s =
     (case call_resolver e (\<lambda>env dn. resolve_groups_for_principal env dn princ) (ensure_resolver_snapshot e s) of
        (gids, s) \<Rightarrow> (unwrap_or gids [], s))"

definition compute_gids_for_resolved :: "id_env \<Rightarrow> Resolved \<Rightarrow> string \<Rightarrow> id_state \<Rightarrow> 32 word list \<times> id_state" where
  "compute_gids_for_resolved e r princ s0 =
     (let s = get_or_init_resolver e s0 in
      if r_kind r = Machine
      then (case (if id_resolver s = None then (supplemental_gids r, s)
                  else case groups_of e princ s of (found, s) \<Rightarrow>
                    let extra = foldl add_new (supplemental_gids r) (filter (\<lambda>g. g \<noteq> MACHINE_GID) found)
                    in (extra, fold (fetch_group e) extra s)) of
              (extra, s) \<Rightarrow> (merge_group_gids MACHINE_GID extra, s))
      else (case (if id_resolver s = None then ([], s)
                  else case groups_of e princ s of (extra, s) \<Rightarrow>
                    (extra, fold (fetch_group e) (filter (\<lambda>g. g \<noteq> r_gid r) extra) (fetch_group e (r_gid r) s))) of
              (extra, s) \<Rightarrow> (merge_group_gids (r_gid r) extra, s)))"

definition ensure_root_on_supplemental_groups :: "id_env \<Rightarrow> 32 word list \<Rightarrow> id_state \<Rightarrow> id_state" where
  "ensure_root_on_supplemental_groups e gids s = fold (\<lambda>g. ensure_login e g ''root'') (filter (\<lambda>g. g \<noteq> 0) gids) s"

text \<open>The member rows of a principal, written again for every gid and login.\<close>

definition ensure_memberships :: "id_env \<Rightarrow> Resolved \<Rightarrow> 32 word list \<Rightarrow> id_state \<Rightarrow> id_state" where
  "ensure_memberships e r gids s =
     (let logins = nss_passwd_logins_for r in
      if r_kind r = User \<and> principal_has_realm (r_principal r)
      then let s = fold (\<lambda>g. fold (\<lambda>l. ensure_login e g l) logins) gids s;
               s = ensure_login e (r_gid r) (sanitize_for_nss (r_name r)) s
           in (case find (\<lambda>l. CHR ''@'' \<in> set l) logins of None \<Rightarrow> s | Some at \<Rightarrow> ensure_login e (r_gid r) at s)
      else if r_kind r = Machine then ensure_root_on_supplemental_groups e gids s
      else s)"

definition snapshot_groups :: "id_env \<Rightarrow> id_state \<Rightarrow> (string \<times> PosixGroupEntry) list option \<times> id_state" where
  "snapshot_groups e s =
     (case call_resolver e snapshot_call (get_or_init_resolver e s) of (snap, s) \<Rightarrow> (map_option snap_groups snap, s))"

definition ensure_nss_materialized_for :: "id_env \<Rightarrow> Resolved \<Rightarrow> 32 word list \<Rightarrow> id_state \<Rightarrow> id_state" where
  "ensure_nss_materialized_for e r gids s =
     (case snapshot_groups e s of (groups, s) \<Rightarrow> ensure_memberships e r gids (materialize e groups s))"

section \<open>One principal\<close>

definition plain_result :: "string \<Rightarrow> string \<Rightarrow> 32 word \<Rightarrow> 32 word \<Rightarrow> PrincipalKind \<Rightarrow> string \<Rightarrow> Resolved" where
  "plain_result p nm u g k src =
     \<lparr>r_principal = p, r_name = nm, r_uid = u, r_gid = g, r_kind = k, r_source = src, supplemental_gids = []\<rparr>"

definition resolve_fresh :: "id_env \<Rightarrow> string \<Rightarrow> string \<Rightarrow> string list \<Rightarrow> id_state \<Rightarrow> Resolved \<times> id_state" where
  "resolve_fresh e p rlm server_variants s =
     (if fst (classify_principal p rlm server_variants)
      then (plain_result p (machine_short_name p) 0 0 Machine ''special'', s)
      else case resolve_via_nss e p s of
        (Some (u, g, src), s) \<Rightarrow>
          (plain_result p (principal_local_part p) u g User src, fetch_group e g (get_or_init_resolver e s))
      | (None, s) \<Rightarrow>
          if principal_has_realm p
          then (plain_result p (principal_local_part p) RESOLVE_UNRESOLVED_UID RESOLVE_UNRESOLVED_GID Unknown RESOLVE_FAIL_CLOSED_SOURCE, s)
          else (plain_result p (principal_local_part p) FALLBACK_NOBODY_UID FALLBACK_NOBODY_GID Unknown ''direct'', s))"

definition update_entry :: "string \<Rightarrow> (Resolved \<Rightarrow> Resolved) \<Rightarrow> IdCache \<Rightarrow> IdCache" where
  "update_entry key f c = map (\<lambda>(k, r). if k = key then (k, f r) else (k, r)) c"

definition supps_union :: "32 word list \<Rightarrow> Resolved \<Rightarrow> 32 word list" where
  "supps_union gids entry = foldl add_new (filter (\<lambda>g. g \<noteq> r_gid entry) gids) (supplemental_gids entry)"

definition persist_supps :: "id_env \<Rightarrow> Resolved \<Rightarrow> (Resolved \<Rightarrow> 32 word list) \<Rightarrow> id_state \<Rightarrow> id_state" where
  "persist_supps e r supps s =
     (let key = normalize_principal (r_principal r) in
      if cache_get (id_cache s) key = None then s
      else write_cache_file e (s\<lparr>id_cache := update_entry key (\<lambda>x. x\<lparr>supplemental_gids := supps x\<rparr>) (id_cache s)\<rparr>))"

text \<open>
  What follows a resolution that was not refused: the entry is cached, the groups are found and
  kept with it, and the files are written. A realm principal that was not refused is a user or a
  machine, so the branch of the code for other kinds cannot be taken.
\<close>

definition settle :: "id_env \<Rightarrow> Resolved \<Rightarrow> id_state \<Rightarrow> id_state" where
  "settle e r s0 =
     (let fp_before = content_fingerprint (id_cache s0);
          c = (if principal_has_realm (r_principal r) then cache_insert r (id_cache s0) else id_cache s0);
          c = prune_numeric_user_entries (prune_malformed_principals c);
          fp_after = content_fingerprint c;
          s = s0\<lparr>id_cache := c\<rparr>;
          s = (if principal_has_realm (r_principal r) \<and> r_kind r \<in> {User, Machine}
               then case compute_gids_for_resolved e r (r_principal r) s of (gids, s) \<Rightarrow>
                      ensure_nss_materialized_for e r gids
                        (persist_supps e r (if r_kind r = User then supps_union gids else (\<lambda>x. filter (\<lambda>g. g \<noteq> r_gid x) gids)) s)
               else s)
      in if fp_before \<noteq> fp_after \<or> r_uid r = 0 then write_cache_file e s else s)"

definition resolve_principal :: "id_env \<Rightarrow> string \<Rightarrow> string \<Rightarrow> string list \<Rightarrow> id_state \<Rightarrow> Resolved \<times> id_state" where
  "resolve_principal e princ rlm server_variants s0 =
     (let p = canonicalize_principal (trim princ) rlm;
          norm = normalize_principal p
      in if is_numeric_local_principal p
         then (plain_result p (principal_local_part norm) FALLBACK_NOBODY_UID FALLBACK_NOBODY_GID Unknown ''rejected-numeric'', s0)
         else case opt_filter (\<lambda>x. \<not> is_numeric_local_principal (r_principal x)) (cache_get (id_cache s0) norm) of
           Some x \<Rightarrow> (x\<lparr>r_source := ''cache''\<rparr>, s0)
         | None \<Rightarrow>
             (case resolve_fresh e p rlm server_variants (s0\<lparr>id_cache := cache_remove norm (id_cache s0)\<rparr>) of
                (r, s) \<Rightarrow> if is_unresolved_fail_closed r then (r, s) else (r, settle e r s)))"

definition resolve_gids_and_materialize ::
  "id_env \<Rightarrow> string \<Rightarrow> string \<Rightarrow> string list \<Rightarrow> bool \<Rightarrow> id_state \<Rightarrow> 32 word list \<times> id_state" where
  "resolve_gids_and_materialize e princ rlm server_variants force s =
     (if eq_ignore_ascii_case (trim princ) ''root'' \<or> trim princ = ''0''
      then let supps = root_supplemental_gids_from_cache (id_cache s)
           in (merge_group_gids MACHINE_GID supps,
               if force then fold (\<lambda>g. ensure_login e g ''root'') supps s else s)
      else case resolve_principal e princ rlm server_variants s of (r, s) \<Rightarrow>
        if is_unresolved_fail_closed r then ([], s)
        else case compute_gids_for_resolved e r princ s of (gids, s) \<Rightarrow>
          let key = normalize_principal (r_principal r);
              entry = cache_get (id_cache s) key;
              (gids, s) =
                (case entry of
                   None \<Rightarrow> (gids, s)
                 | Some x \<Rightarrow>
                     (foldl add_new gids (supps_union gids x),
                      if supplemental_gids x \<noteq> supps_union gids x then persist_supps e r (supps_union gids) s else s));
              s = (if force \<or> r_source r \<noteq> ''cache'' then ensure_nss_materialized_for e r gids s else s)
          in (gids, ensure_memberships e r gids s))"

definition refresh_supplemental_nss_for_cached_users :: "id_env \<Rightarrow> string \<Rightarrow> string list \<Rightarrow> id_state \<Rightarrow> id_state" where
  "refresh_supplemental_nss_for_cached_users e rlm server_variants s =
     fold (\<lambda>p s. snd (resolve_gids_and_materialize e p rlm server_variants True s))
       (map r_principal (filter (\<lambda>r. r_kind r \<in> {User, Machine} \<and> principal_has_realm (r_principal r)) (map snd (id_cache s)))) s"

end
