(* ===== verification/Id_Daemon.thy ===== *)
theory Id_Daemon
  imports Id_Resolve
begin

text \<open>
  The identity helper as a service, \<^verbatim>\<open>bin/idhelper/daemon.rs\<close>, and its clients: the socket requests of
  \<^verbatim>\<open>ganesha_readiness.rs\<close> and the command line of \<^verbatim>\<open>bin/idhelper/main.rs\<close>.

  A request is one line of text and so is the answer. The cache lock makes the work of a request
  atomic, so \<open>handle_client\<close> is a function from state to state; what the threads do before they hold
  the lock (waiting for a request for the same key, the limit on threads) is the step relation at
  the end. The variable \<^verbatim>\<open>NSS_PASSWD\<close>, which moves the files elsewhere, is read by the command line
  and taken as unset for the daemon.
\<close>

section \<open>Reloading everything from the directory\<close>

definition short_name :: "string \<Rightarrow> string" where
  "short_name nm = (case split_once (CHR ''@'') nm of Some (a, _) \<Rightarrow> a | None \<Rightarrow> nm)"

text \<open>The set of names already seen is the set of keys of the edges found so far.\<close>

fun warm_users :: "id_env \<Rightarrow> string \<Rightarrow> string list \<Rightarrow> LiveGroupEdges \<Rightarrow> id_state \<Rightarrow> LiveGroupEdges \<times> id_state" where
  "warm_users e rlm [] live s = (live, s)"
| "warm_users e rlm (nm # nms) live s =
     (if CHR ''/'' \<in> set nm \<or> short_name nm \<in> fst ` set live then warm_users e rlm nms live s
      else case call_resolver e (\<lambda>env dn. resolve_groups_for_principal env dn (short_name nm @ ''@'' @ rlm)) s of
        (found, s) \<Rightarrow>
          let gids = unwrap_or found []
          in warm_users e rlm nms (live @ [(short_name nm, gids)]) (fold (fetch_group e) gids s))"

definition warm_rebulk_group_cache :: "id_env \<Rightarrow> string \<Rightarrow> IdMapSnapshot \<Rightarrow> id_state \<Rightarrow> LiveGroupEdges \<times> id_state" where
  "warm_rebulk_group_cache e rlm pre s =
     warm_users e rlm (map fst (snap_users pre)) []
       (fold (\<lambda>u. fetch_group e (u_gid (snd u))) (snap_users pre) s)"

datatype rebulk_error = StoreFailed store | CacheFileFailed

definition materialize_or_fail ::
  "id_env \<Rightarrow> (string \<times> PosixGroupEntry) list option \<Rightarrow> id_state \<Rightarrow> (rebulk_error, unit) result \<times> id_state" where
  "materialize_or_fail e groups s =
     (case materialize_nss_wrappers_at (i_io e) (id_cache s) groups (id_stores s) of
        (Inl p, fs) \<Rightarrow> (Inl (StoreFailed p), s\<lparr>id_stores := fs\<rparr>)
      | (Inr _, fs) \<Rightarrow> (Inr (), s\<lparr>id_stores := fs\<rparr>))"

text \<open>
  The number of users, without the flag that tells a log line whether a file changed. A cache that
  could not be written is reported, and stays as it is in memory.
\<close>

definition rebulk_apply_sync ::
  "id_env \<Rightarrow> string \<Rightarrow> string list \<Rightarrow> IdMapSnapshot \<Rightarrow> LiveGroupEdges \<Rightarrow> id_state \<Rightarrow> (rebulk_error, nat) result \<times> id_state" where
  "rebulk_apply_sync e rlm server_variants snap live s0 =
     (let fp_before = content_fingerprint (id_cache s0);
          (c, synced) = sync_user_cache_from_snapshot snap rlm live (id_cache s0);
          user_changed = cache_changed_since fp_before c
      in case materialize_or_fail e (Some (snap_groups snap)) (s0\<lparr>id_cache := c\<rparr>) of
           (Inl err, s) \<Rightarrow> (Inl err, s)
         | (Inr _, s) \<Rightarrow>
             (case materialize_or_fail e (Some (snap_groups snap))
                     (refresh_supplemental_nss_for_cached_users e rlm server_variants s) of
                (Inl err, s) \<Rightarrow> (Inl err, s)
              | (Inr _, s) \<Rightarrow>
                  if user_changed
                  then (if i_cache_write e (i_looks s) then Inr synced else Inl CacheFileFailed, write_cache_file e s)
                  else (Inr synced, s)))"

definition rebulk_ldap_users :: "id_env \<Rightarrow> string \<Rightarrow> string list \<Rightarrow> id_state \<Rightarrow> nat option \<times> id_state" where
  "rebulk_ldap_users e rlm server_variants s0 =
     (let s = get_or_init_resolver e s0 in
      case call_resolver e load_full_identities s of
        (None, s) \<Rightarrow> (None, s)
      | (Some loaded, s) \<Rightarrow>
          if loaded = 0 then (None, s)
          else case call_resolver e snapshot_call s of
            (None, s) \<Rightarrow> (None, s)
          | (Some pre, s) \<Rightarrow>
              (case warm_rebulk_group_cache e rlm pre s of (live, s) \<Rightarrow>
                 case call_resolver e snapshot_call s of
                   (None, s) \<Rightarrow> (None, s)
                 | (Some snap, s) \<Rightarrow>
                     (case rebulk_apply_sync e rlm server_variants snap live s of
                        (Inl _, s) \<Rightarrow> (None, s) | (Inr n, s) \<Rightarrow> (Some n, s))))"

definition DEFAULT_REBULK_INTERVAL_SECS :: nat where "DEFAULT_REBULK_INTERVAL_SECS = 180"

definition rebulk_interval_secs :: "env \<Rightarrow> nat" where
  "rebulk_interval_secs ev =
     unwrap_or (Option.bind (ev ''NFS_KLLDAP_IDHELPER_REBULK_INTERVAL_SECS'') (\<lambda>v. parse_unsigned (2 ^ 64 - 1) (trim v)))
       DEFAULT_REBULK_INTERVAL_SECS"

section \<open>Requests\<close>

fun reason_text :: "classify_reason \<Rightarrow> string" where
  "reason_text (MachinePrefix local) = ''matches well-known machine prefix in '' @ local"
| "reason_text (RealmMismatch p_realm rlm) = ''principal realm '' @ p_realm @ '' != configured '' @ rlm"
| "reason_text (ServerHostPrincipal v) = ''matches server host principal for '' @ v"
| "reason_text BareServiceName = ''bare machine service name''"
| "reason_text RegularUser = ''treated as regular user principal''"

text \<open>What one \<^verbatim>\<open>read_line\<close> takes from a stream, less the line feed.\<close>

definition first_line :: "string \<Rightarrow> string" where
  "first_line stream = takeWhile (\<lambda>c. c \<noteq> line_feed) stream"

definition request_parts :: "string \<Rightarrow> string \<times> string" where
  "request_parts req =
     (let parts = splitn 2 (CHR '' '') req
      in (to_ascii_uppercase (case parts of [] \<Rightarrow> [] | v # _ \<Rightarrow> v), trim (case parts of _ # a # _ \<Rightarrow> a | _ \<Rightarrow> [])))"

definition group_verbs :: "string list" where
  "group_verbs = [''GROUPLIST'', ''GETGROUPLIST'']"

definition flight_key :: "string \<Rightarrow> string \<Rightarrow> string option" where
  "flight_key verb arg =
     (if verb \<in> set ([''RESOLVE'', ''GRPS''] @ group_verbs) \<and> arg \<noteq> [] then Some (verb @ '':'' @ arg)
      else if verb = ''REBULK'' then Some ''REBULK''
      else None)"

definition gids_text :: "string \<Rightarrow> 32 word list \<Rightarrow> string" where
  "gids_text sep gids = join sep (map show_word gids)"

definition gids_reply :: "string \<Rightarrow> 32 word list \<Rightarrow> string" where
  "gids_reply who gids =
     (if gids = [] \<and> CHR ''@'' \<in> set who then RESOLVE_ERR_UNRESOLVED
      else ''OK '' @ gids_text ''|'' gids @ [line_feed])"

definition missing_principal :: string where
  "missing_principal = ''ERR missing principal'' @ [line_feed]"

definition answer :: "id_env \<Rightarrow> string \<Rightarrow> string list \<Rightarrow> string \<Rightarrow> string \<Rightarrow> id_state \<Rightarrow> string \<times> id_state" where
  "answer e rlm server_variants verb arg s =
     (if verb = ''PING'' then (''OK'' @ [line_feed], s)
      else if verb = ''CLASSIFY'' then
        (if arg = [] then missing_principal
         else case classify_principal arg rlm server_variants of (is_m, reason) \<Rightarrow>
           ''OK '' @ (if is_m then ''machine'' else ''user'') @ ''|'' @ reason_text reason @ [line_feed], s)
      else if verb = ''RESOLVE'' then
        (if arg = [] then (missing_principal, s)
         else case resolve_principal e arg rlm server_variants s of (r, s) \<Rightarrow> (format_resolve_socket_line r, s))
      else if verb = ''REBULK'' then
        (case rebulk_ldap_users e rlm server_variants s of
           (Some n, s) \<Rightarrow> (''OK '' @ show_nat n @ [line_feed], s)
         | (None, s) \<Rightarrow> (''ERR rebulk failed'' @ [line_feed], s))
      else if verb = ''GRPS'' then
        (if arg = [] then (missing_principal, s)
         else case resolve_gids_and_materialize e arg rlm server_variants False s of (gids, s) \<Rightarrow> (gids_reply arg gids, s))
      else if verb \<in> set group_verbs then
        (let q = (if arg = [] then ''root'' else arg)
         in case resolve_gids_and_materialize e q rlm server_variants False s of (gids, s) \<Rightarrow> (gids_reply q gids, s))
      else (''ERR unknown command'' @ [line_feed], s))"

text \<open>Nothing is written for a blank line.\<close>

definition handle_client :: "id_env \<Rightarrow> string \<Rightarrow> string list \<Rightarrow> string \<Rightarrow> id_state \<Rightarrow> string \<times> id_state" where
  "handle_client e rlm server_variants stream s =
     (let req = trim (first_line stream) in
      if req = [] then ([], s)
      else case request_parts req of (verb, arg) \<Rightarrow> answer e rlm server_variants verb arg s)"

section \<open>Start\<close>

definition load_cache :: "id_env \<Rightarrow> id_state \<Rightarrow> id_state" where
  "load_cache e s =
     (let initial = load_from_file (cache_file s);
          kept = prune_malformed_principals initial;
          bad = length initial - length kept;
          kept' = prune_numeric_user_entries kept;
          numeric = length kept - length kept';
          s = s\<lparr>id_cache := kept'\<rparr>
      in if bad > 0 \<or> numeric > 0 then write_cache_file e s else s)"

definition server_principals :: "string \<Rightarrow> string list \<Rightarrow> string list" where
  "server_principals rlm server_variants =
     concat (map (\<lambda>v. map (\<lambda>prefix. prefix @ ''/'' @ v @ ''@'' @ rlm) [''host'', ''nfs'']) server_variants)"

definition resolve_all :: "id_env \<Rightarrow> string \<Rightarrow> string list \<Rightarrow> string list \<Rightarrow> id_state \<Rightarrow> id_state" where
  "resolve_all e rlm server_variants ps s = fold (\<lambda>p s. snd (resolve_principal e p rlm server_variants s)) ps s"

definition preresolve_list :: "env \<Rightarrow> string list" where
  "preresolve_list ev =
     (case ev ''NFS_KLLDAP_IDHELPER_PRERESOLVE'' of
        None \<Rightarrow> []
      | Some l \<Rightarrow> filter (\<lambda>p. p \<noteq> []) (map trim (split_on (CHR '','') l)))"

text \<open>From a bound socket to the first accept.\<close>

definition run_daemon :: "id_env \<Rightarrow> string \<Rightarrow> string list \<Rightarrow> id_state \<Rightarrow> id_state" where
  "run_daemon e rlm server_variants s0 =
     (let s = get_or_init_resolver e (load_cache e s0);
          s = snd (rebulk_ldap_users e rlm server_variants s);
          s = resolve_all e rlm server_variants (server_principals rlm server_variants) s;
          s = (case snapshot_groups e s of (groups, s) \<Rightarrow> materialize e groups s);
          s = refresh_supplemental_nss_for_cached_users e rlm server_variants s
      in resolve_all e rlm server_variants (preresolve_list (i_env e)) s)"

section \<open>Clients\<close>

text \<open>
  \<open>ask request\<close> is the answer of the socket: the trimmed first line of what came back, or nothing
  when the socket is absent or the exchange fails.
\<close>

definition socket_cmd_gids :: "(string \<Rightarrow> string option) \<Rightarrow> string \<Rightarrow> string \<Rightarrow> 32 word list option" where
  "socket_cmd_gids ask cmd princ =
     Option.bind (ask (cmd @ '' '' @ princ @ [line_feed])) (\<lambda>resp.
     Option.bind (strip_prefix ''OK '' resp) (\<lambda>rest.
       let gids = List.map_filter (\<lambda>x. parse_u32 (trim x)) (split_on (CHR ''|'') rest)
       in if gids = [] then None else Some gids))"

definition probe_socket_grps :: "(string \<Rightarrow> string option) \<Rightarrow> string \<Rightarrow> 32 word list option" where
  "probe_socket_grps ask princ = socket_cmd_gids ask ''GRPS'' princ"

definition probe_socket_grouplist :: "(string \<Rightarrow> string option) \<Rightarrow> string \<Rightarrow> 32 word list option" where
  "probe_socket_grouplist ask princ = socket_cmd_gids ask ''GROUPLIST'' princ"

definition resolved_of_parts :: "string list \<Rightarrow> Resolved option" where
  "resolved_of_parts parts =
     (if length parts \<noteq> 5 then None
      else case (parse_u32 (parts ! 1), parse_u32 (parts ! 2)) of
        (Some u, Some g) \<Rightarrow>
          Some \<lparr>r_principal = parts ! 0, r_name = principal_local_part (parts ! 0), r_uid = u, r_gid = g,
                r_kind = kind_of_str (parts ! 3), r_source = parts ! 4, supplemental_gids = []\<rparr>
      | _ \<Rightarrow> None)"

definition try_resolve_via_socket :: "(string \<Rightarrow> string option) \<Rightarrow> string \<Rightarrow> Resolved option" where
  "try_resolve_via_socket ask princ =
     Option.bind (ask (''RESOLVE '' @ princ @ [line_feed])) (\<lambda>resp.
     Option.bind (strip_prefix ''OK '' resp) (\<lambda>rest. resolved_of_parts (split_on (CHR ''|'') rest)))"

definition socket_reply_ok :: "(string \<Rightarrow> string option) \<Rightarrow> string \<Rightarrow> bool" where
  "socket_reply_ok ask request =
     (case ask (request @ [line_feed]) of None \<Rightarrow> False | Some ln \<Rightarrow> starts_with ln ''OK '')"

section \<open>Command line\<close>

record cli_result =
  cli_out :: "string list"
  cli_err :: "string list"
  exit_code :: nat

definition printed :: "string \<Rightarrow> cli_result" where
  "printed l = \<lparr>cli_out = [l], cli_err = [], exit_code = 0\<rparr>"

definition failed :: "string \<Rightarrow> nat \<Rightarrow> cli_result" where
  "failed l n = \<lparr>cli_out = [], cli_err = [l], exit_code = n\<rparr>"

definition effective_realm_for :: "string \<Rightarrow> string \<Rightarrow> string" where
  "effective_realm_for princ rt_realm =
     (case rsplit_once (CHR ''@'') princ of
        Some (_, r) \<Rightarrow> if trim r \<noteq> [] then trim r else rt_realm
      | None \<Rightarrow> rt_realm)"

text \<open>A process of its own: the cache is what its file says, the resolver is not there yet.\<close>

definition own_process :: "id_state \<Rightarrow> id_state" where
  "own_process s = s\<lparr>id_cache := load_from_file (cache_file s), id_resolver := None\<rparr>"

definition uses_local_files :: "id_env \<Rightarrow> bool" where
  "uses_local_files e = (i_env e ''NSS_PASSWD'' \<noteq> None)"

definition gids_for_cli ::
  "id_env \<Rightarrow> (string \<Rightarrow> 32 word list option) \<Rightarrow> string \<Rightarrow> string \<Rightarrow> string list \<Rightarrow> id_state \<Rightarrow> 32 word list \<times> id_state" where
  "gids_for_cli e via_socket p eff_realm server_variants s =
     (if uses_local_files e then resolve_gids_and_materialize e p eff_realm server_variants False (own_process s)
      else case via_socket p of
        Some gids \<Rightarrow> (gids, s)
      | None \<Rightarrow> resolve_gids_and_materialize e p eff_realm server_variants False (own_process s))"

definition cli_resolve ::
  "id_env \<Rightarrow> (string \<Rightarrow> string option) \<Rightarrow> string \<Rightarrow> string list \<Rightarrow> string \<Rightarrow> id_state \<Rightarrow> Resolved \<times> id_state" where
  "cli_resolve e ask rlm server_variants p s =
     (let local = resolve_principal e p (effective_realm_for p rlm) server_variants (own_process s)
      in if uses_local_files e then local
         else case try_resolve_via_socket ask p of Some r \<Rightarrow> (r, s) | None \<Rightarrow> local)"

definition quote :: char where "quote = CHR 0x22"

definition json_field :: "string \<Rightarrow> string \<Rightarrow> string" where
  "json_field k v = [quote] @ k @ [quote] @ '':'' @ v"

definition json_text :: "string \<Rightarrow> string" where
  "json_text v = [quote] @ v @ [quote]"

definition gids_json :: "string \<Rightarrow> 32 word list \<Rightarrow> string" where
  "gids_json p gids = ''{'' @ json_field ''principal'' (json_text p) @ '','' @ json_field ''gids'' (''['' @ gids_text '','' gids @ '']'') @ ''}''"

definition unresolved :: "string \<Rightarrow> cli_result" where
  "unresolved p = failed (''ERR unresolved principal: '' @ p) 1"

definition resolved_output :: "bool \<Rightarrow> string \<Rightarrow> Resolved \<Rightarrow> cli_result" where
  "resolved_output json p r =
     (if is_unresolved_fail_closed r then unresolved p
      else if json then printed (''{'' @ join '',''
        [json_field ''principal'' (json_text (r_principal r)), json_field ''name'' (json_text (r_name r)),
         json_field ''uid'' (show_word (r_uid r)), json_field ''gid'' (show_word (r_gid r)),
         json_field ''kind'' (json_text (kind_as_str (r_kind r))), json_field ''source'' (json_text (r_source r))] @ ''}'')
      else printed (r_principal r @ '' -> name='' @ r_name r @ '' uid='' @ show_word (r_uid r) @ '' gid='' @ show_word (r_gid r)
             @ '' kind='' @ kind_as_str (r_kind r) @ '' source='' @ r_source r))"

definition grps_output :: "bool \<Rightarrow> string \<Rightarrow> 32 word list \<Rightarrow> cli_result" where
  "grps_output json p gids =
     (if json then printed (gids_json p gids)
      else if gids = [] \<and> CHR ''@'' \<in> set p then unresolved p
      else printed (''OK '' @ gids_text ''|'' gids))"

definition grouplist_output :: "bool \<Rightarrow> string \<Rightarrow> 32 word list \<Rightarrow> cli_result" where
  "grouplist_output json p gids =
     (if gids = [] \<and> CHR ''@'' \<in> set p then unresolved p
      else if json then printed (gids_json p gids)
      else printed (''OK '' @ gids_text ''|'' gids))"

definition nth_arg :: "string list \<Rightarrow> nat \<Rightarrow> string \<Rightarrow> string" where
  "nth_arg args n d = (if n < length args then args ! n else d)"

definition usage :: "string \<Rightarrow> cli_result" where
  "usage l = failed (''Usage: nfs-klldap-idhelper '' @ l) 2"

text \<open>The subcommands that resolve; \<^verbatim>\<open>check\<close>, \<^verbatim>\<open>explain\<close> and the help print diagnostics.\<close>

definition handle_cli ::
  "id_env \<Rightarrow> (string \<Rightarrow> string option) \<Rightarrow> string \<Rightarrow> string list \<Rightarrow> string list \<Rightarrow> id_state \<Rightarrow> (cli_result \<times> id_state) option" where
  "handle_cli e ask rlm server_variants args s =
     (let cmd = nth_arg args 0 ''help''; json = (\<exists>a \<in> set args. a = ''--json'' \<or> a = ''-j'')
      in if cmd = ''resolve'' then
           (let p = nth_arg args 1 [] in
            if p = [] then Some (usage ''resolve <principal> [--json]'', s)
            else case cli_resolve e ask rlm server_variants p s of (r, s) \<Rightarrow> Some (resolved_output json p r, s))
         else if cmd = ''grps'' then
           (let p = nth_arg args 1 [] in
            if p = [] then Some (usage ''grps <principal> [--json]'', s)
            else case gids_for_cli e (probe_socket_grps ask) p (effective_realm_for p rlm) server_variants s of
              (gids, s) \<Rightarrow> Some (grps_output json p gids, s))
         else if cmd = ''grouplist'' \<or> cmd = ''getgrouplist'' then
           (let p = nth_arg args 1 ''root'' in
            if p = [] then Some (usage ''grouplist <principal|uid> [--json]'', s)
            else case gids_for_cli e (probe_socket_grouplist ask) p (effective_realm_for p rlm) server_variants s of
              (gids, s) \<Rightarrow> Some (grouplist_output json p gids, s))
         else if cmd = ''classify'' then
           (let p = nth_arg args 1 [] in
            if p = [] then Some (usage ''classify <principal>'', s)
            else case classify_principal p rlm server_variants of (is_m, reason) \<Rightarrow>
              Some (printed (p @ '' -> kind='' @ (if is_m then ''machine'' else ''user'') @ '' reason='' @ json_text (reason_text reason)), s))
         else None)"

section \<open>Threads\<close>

text \<open>
  A client is accepted, claims or waits for the key of its request, works and ends. The first to
  come for a key leads; one that had to wait works when the key is free again, without claiming it.
\<close>

datatype phase = Accepted "string option" | Waiting string | Leading string | Working

record threads =
  flights :: "string set"
  phases :: "nat \<Rightarrow> phase option"
  spawned :: "nat set"
  inline :: "nat option"
  live_clients :: nat

definition MAX_CLIENT_THREADS :: nat where "MAX_CLIENT_THREADS = 32"

definition set_phase :: "nat \<Rightarrow> phase option \<Rightarrow> threads \<Rightarrow> threads" where
  "set_phase i p t = t\<lparr>phases := (phases t)(i := p)\<rparr>"

definition accept_client :: "nat \<Rightarrow> string option \<Rightarrow> threads \<Rightarrow> threads" where
  "accept_client i key t =
     set_phase i (Some (Accepted key))
       (if live_clients t \<ge> MAX_CLIENT_THREADS then t\<lparr>inline := Some i\<rparr>
        else t\<lparr>live_clients := live_clients t + 1, spawned := insert i (spawned t)\<rparr>)"

definition begin_flight :: "nat \<Rightarrow> string option \<Rightarrow> threads \<Rightarrow> threads" where
  "begin_flight i key t =
     (case key of
        None \<Rightarrow> set_phase i (Some Working) t
      | Some k \<Rightarrow> if k \<in> flights t then set_phase i (Some (Waiting k)) t
                  else set_phase i (Some (Leading k)) (t\<lparr>flights := insert k (flights t)\<rparr>))"

definition wake :: "nat \<Rightarrow> string \<Rightarrow> threads \<Rightarrow> threads" where
  "wake i k t = (if k \<in> flights t then t else set_phase i (Some Working) t)"

definition drop_flight :: "phase \<Rightarrow> threads \<Rightarrow> threads" where
  "drop_flight p t = (case p of Leading k \<Rightarrow> t\<lparr>flights := flights t - {k}\<rparr> | _ \<Rightarrow> t)"

definition end_client :: "nat \<Rightarrow> phase \<Rightarrow> threads \<Rightarrow> threads" where
  "end_client i p t =
     set_phase i None
       (let t = drop_flight p t in
        if inline t = Some i then t\<lparr>inline := None\<rparr>
        else t\<lparr>live_clients := live_clients t - 1, spawned := spawned t - {i}\<rparr>)"

inductive thread_step :: "threads \<Rightarrow> threads \<Rightarrow> bool" where
  accepts: "phases t i = None \<Longrightarrow> inline t = None \<Longrightarrow> thread_step t (accept_client i key t)"
| begins: "phases t i = Some (Accepted key) \<Longrightarrow> thread_step t (begin_flight i key t)"
| wakes: "phases t i = Some (Waiting k) \<Longrightarrow> thread_step t (wake i k t)"
| ends: "phases t i = Some p \<Longrightarrow> p = Working \<or> (\<exists>k. p = Leading k) \<Longrightarrow> thread_step t (end_client i p t)"

definition no_threads :: threads where
  "no_threads = \<lparr>flights = {}, phases = (\<lambda>_. None), spawned = {}, inline = None, live_clients = 0\<rparr>"

end
