(* ===== verification/Log_Lines.thy ===== *)
theory Log_Lines
  imports Generate_Fragments Krb5
begin

text \<open>
  Reading the log of the server: the principals, host names, numbers and addresses that
  \<^verbatim>\<open>bin/idhelper/observer.rs\<close> and \<^verbatim>\<open>network.rs\<close> find in a line.

  Characters are the UTF-8 sequences of a line; \<open>alnum\<close> is the Unicode table behind
  \<^verbatim>\<open>char::is_alphanumeric\<close> beyond ASCII, as in \<open>Generate_Fragments\<close>.
\<close>

section \<open>Characters\<close>

definition is_ws :: "string \<Rightarrow> bool" where
  "is_ws c = (ws_width c > 0)"

definition one_of :: "string \<Rightarrow> string \<Rightarrow> bool" where
  "one_of cs c = (c \<in> (\<lambda>x. [x]) ` set cs)"

definition word_char :: "(string \<Rightarrow> bool) \<Rightarrow> string \<Rightarrow> string \<Rightarrow> bool" where
  "word_char alnum extra c = (is_alphanumeric alnum c \<or> one_of extra c)"

text \<open>\<^verbatim>\<open>split\<close>, \<^verbatim>\<open>trim_matches\<close>, \<^verbatim>\<open>find\<close> and the like with a predicate on characters.\<close>

fun split_chars :: "(string \<Rightarrow> bool) \<Rightarrow> string list \<Rightarrow> string list" where
  "split_chars P [] = [[]]"
| "split_chars P (c # cs) =
     (if P c then [] # split_chars P cs
      else case split_chars P cs of [] \<Rightarrow> [c] | w # ws \<Rightarrow> (c @ w) # ws)"

definition split_by :: "(string \<Rightarrow> bool) \<Rightarrow> string \<Rightarrow> string list" where
  "split_by P s = split_chars P (utf8_chars s)"

definition trim_matches :: "(string \<Rightarrow> bool) \<Rightarrow> string \<Rightarrow> string" where
  "trim_matches P s = concat (rev (dropWhile P (rev (dropWhile P (utf8_chars s)))))"

definition take_while :: "(string \<Rightarrow> bool) \<Rightarrow> string \<Rightarrow> string" where
  "take_while P s = concat (takeWhile P (utf8_chars s))"

definition after_str :: "string \<Rightarrow> string \<Rightarrow> string option" where
  "after_str p s = map_option snd (split_once_str p s)"

text \<open>The text after a marker that is looked for without regard to case.\<close>

definition after_marker :: "string \<Rightarrow> string \<Rightarrow> string option" where
  "after_marker m line =
     map_option (\<lambda>(a, _). drop (length a + length m) line) (split_once_str m (to_ascii_lowercase line))"

definition mentions :: "string \<Rightarrow> string \<Rightarrow> bool" where
  "mentions s rlm = (CHR ''@'' \<in> set s \<and> contains_str (to_ascii_lowercase s) (to_ascii_lowercase rlm))"

section \<open>Host names\<close>

definition LOG_NOISE_TOKENS :: "string list" where
  "LOG_NOISE_TOKENS =
     [''nil'', ''null'', ''clientid'', ''unique'', ''counter'', ''created'', ''client'', ''id'', ''name'', ''addr'',
      ''refcount'', ''cr'', ''conf'', ''unconf'', ''debug'', ''info'', ''warning'', ''error'', ''ffff'', ''linux'',
      ''nfsv4'']"

definition is_noise_hostname :: "string \<Rightarrow> bool" where
  "is_noise_hostname t =
     (let s = to_ascii_lowercase (trim t) in
      starts_with s ''0x''
      \<or> s \<in> set [''nil'', ''null'', ''clientid'', ''unique'', ''counter'', ''created'', ''client'', ''id'', ''name'', ''addr'',
                  ''refcount'', ''cr'', ''conf'', ''unconf'', ''debug'', ''info'', ''warning'', ''error'', ''ffff'', ''linux'',
                  ''nfsv4'']
      \<or> starts_with s ''nfsv'' \<or> starts_with s ''nfs'' \<or> (list_ex is_ascii_digit s \<and> CHR ''.'' \<in> set s))"

definition looks_like_client_hostname :: "string \<Rightarrow> bool" where
  "looks_like_client_hostname t =
     (let s = trim t in
      if length s < 2 \<or> length s > 253 then False
      else if length s \<ge> 3 \<and> starts_with s ''0x'' \<and> drop 2 s \<noteq> [] \<and> list_all is_ascii_hexdigit (drop 2 s) then False
      else if \<not> list_ex (\<lambda>c. is_ascii_upper c \<or> is_ascii_lower c) s then False
      else if is_noise_hostname s then False
      else if to_ascii_lowercase s \<in> set LOG_NOISE_TOKENS then False
      else if \<not> list_all (\<lambda>c. is_ascii_alnum c \<or> c = CHR ''-'' \<or> c = CHR ''.'') s then False
      else if \<not> list_ex is_ascii_lower s \<and> CHR ''.'' \<notin> set s then False
      else True)"

definition host_name :: "string \<Rightarrow> bool" where
  "host_name t = (looks_like_client_hostname t \<and> \<not> is_noise_hostname t)"

definition host_form :: "string \<Rightarrow> string \<Rightarrow> string" where
  "host_form h rlm = ''host/'' @ h @ ''@'' @ rlm"

text \<open>The groups in parentheses; a later group with a host name wins.\<close>

definition client_group_host :: "(string \<Rightarrow> bool) \<Rightarrow> string \<Rightarrow> string option" where
  "client_group_host alnum inside =
     (if contains_str (to_ascii_lowercase inside) ''linux'' \<or> contains_str (to_ascii_lowercase inside) ''nfsv4''
         \<or> contains_str inside ''Linux NFS''
      then find (\<lambda>t. looks_like_client_hostname t \<and> \<not> eq_ignore_ascii_case t ''linux'' \<and> \<not> is_noise_hostname t)
             (map (trim_matches (\<lambda>c. \<not> word_char alnum ''-.'' c)) (rev (split_whitespace inside)))
      else None)"

function scan_groups :: "(string \<Rightarrow> bool) \<Rightarrow> string \<Rightarrow> string option \<Rightarrow> string option" where
  "scan_groups alnum s best =
     (case split_once (CHR ''('') s of
        None \<Rightarrow> best
      | Some (_, rest) \<Rightarrow>
          (case split_once (CHR '')'') rest of
             None \<Rightarrow> best
           | Some (inside, later) \<Rightarrow> scan_groups alnum later (opt_or (client_group_host alnum inside) best)))"
  by auto

lemma split_once_shorter: "split_once c s = Some (a, b) \<Longrightarrow> length b < length s"
  by (auto simp: split_once_Some_iff)

termination scan_groups
  by (relation "measure (\<lambda>(_, s, _). length s)") (auto dest!: split_once_shorter)

declare scan_groups.simps [simp del]

definition is_internal_blob :: "string \<Rightarrow> bool" where
  "is_internal_blob line =
     list_ex (contains_str (to_ascii_lowercase line)) [''conf = (nil)'', ''clientid='', ''unique='', ''counter='', ''cr_refcount'']"

definition plain_words :: "string list" where
  "plain_words = [''linux'', ''nfsv4'', ''created'', ''client'', ''name'', ''nil'', ''null'', ''conf'', ''unconf'', ''clientid'',
     ''unique'', ''counter'', ''stuff'', ''token'', ''other'', ''value'', ''key'', ''loc'', ''ref'', ''addr'', ''server'']"

definition extract_linux_nfs_hostname :: "(string \<Rightarrow> bool) \<Rightarrow> string \<Rightarrow> string option" where
  "extract_linux_nfs_hostname alnum line =
     Option.bind (after_marker ''nfsv4'' line) (\<lambda>suffix.
       case scan_groups alnum suffix None of
         Some h \<Rightarrow> Some h
       | None \<Rightarrow>
           if is_internal_blob line then None
           else find looks_like_client_hostname
             (filter (\<lambda>t. t \<noteq> [] \<and> \<not> (to_ascii_lowercase t \<in> set plain_words \<or> is_noise_hostname t))
               (map (trim_matches (\<lambda>c. \<not> word_char alnum ''-.'' c))
                  (drop 1 (split_by (\<lambda>c. is_ws c \<or> one_of ''()[]:.'' c) suffix)))))"

section \<open>Principals\<close>

datatype panic = NotCharBoundary

fun first_found :: "(panic, string option) result list \<Rightarrow> (panic, string option) result" where
  "first_found [] = Ok None"
| "first_found (r # rs) = (case r of Inl e \<Rightarrow> Inl e | Inr (Some x) \<Rightarrow> Ok (Some x) | Inr None \<Rightarrow> first_found rs)"

definition first_some :: "('a \<Rightarrow> 'b option) \<Rightarrow> 'a list \<Rightarrow> 'b option" where
  "first_some f xs = (case List.map_filter f xs of [] \<Rightarrow> None | x # _ \<Rightarrow> Some x)"

definition if_some :: "bool \<Rightarrow> 'a \<Rightarrow> 'a option" where
  "if_some b x = (if b then Some x else None)"

definition from_unsupported :: "string \<Rightarrow> string option" where
  "from_unsupported line =
     Option.bind (after_str ''Unsupported code path for principal '' line) (\<lambda>rest.
       let cand = trim (case split_whitespace rest of [] \<Rightarrow> rest | w # _ \<Rightarrow> w)
       in if_some (CHR ''@'' \<in> set cand) cand)"

definition markers :: "string list" where
  "markers = [''getpwnam'', ''getpwuid_r for uid:'', ''getgrouplist for uname:'', ''getgrouplist'', ''getgrnam'', ''idmapper'']"

definition quote_chars :: string where "quote_chars = [CHR 0x22, CHR 0x27]"

definition token_principal :: "(string \<Rightarrow> bool) \<Rightarrow> string \<Rightarrow> string \<Rightarrow> string option" where
  "token_principal alnum rlm line =
     first_some (\<lambda>w. let t = trim w; cand = trim_matches (\<lambda>c. \<not> word_char alnum ''@/.-_'' c) t
                     in if_some (mentions t rlm \<and> mentions cand rlm) cand)
       (split_by (\<lambda>c. is_ws c \<or> one_of (''()[],:=<>'' @ quote_chars) c) line)"

definition promoted_host :: "(string \<Rightarrow> bool) \<Rightarrow> string \<Rightarrow> string option" where
  "promoted_host alnum tail =
     Option.bind (after_str ''host/'' tail) (\<lambda>rest.
       let h = take_while (word_char alnum ''-.'') rest in if_some (host_name h) h)"

definition quoted_host :: "(string \<Rightarrow> bool) \<Rightarrow> string \<Rightarrow> char \<Rightarrow> string option" where
  "quoted_host alnum tail opening =
     Option.bind (split_once opening tail) (\<lambda>(_, inner).
       let inside = take_while (\<lambda>c. \<not> one_of ('')]>'' @ quote_chars) c) inner in
       if length inside = length inner then None
       else find (\<lambda>t. \<not> (t = [] \<or> is_noise_hostname t) \<and> looks_like_client_hostname t)
              (map trim (split_by (\<lambda>c. \<not> word_char alnum ''-.'' c) inside)))"

definition idle_words :: "string list" where
  "idle_words = [''failed'', ''trying'', ''returned'', ''no'', ''entry'', ''missing'', ''not'', ''found'', ''for'', ''client'', ''user'',
     ''getpwnam'', ''getgrouplist'']"

function trim_start_matches :: "string \<Rightarrow> string \<Rightarrow> string" where
  "trim_start_matches p s =
     (if p = [] then s else case strip_prefix p s of None \<Rightarrow> s | Some r \<Rightarrow> trim_start_matches p r)"
  by auto
termination trim_start_matches
  by (relation "measure (\<lambda>(_, s). length s)") (auto simp: strip_prefix_Some_iff)

declare trim_start_matches.simps [simp del]

definition bare_host :: "(string \<Rightarrow> bool) \<Rightarrow> string \<Rightarrow> string option" where
  "bare_host alnum tail =
     first_some (\<lambda>w.
         let t = trim_matches (\<lambda>c. \<not> word_char alnum ''-./'' c) w; tl = to_ascii_lowercase t; h = trim_start_matches ''host/'' tl
         in if t = [] \<or> is_noise_hostname t \<or> tl \<in> set idle_words then None
            else if starts_with tl ''host/'' \<and> looks_like_client_hostname h then Some h
            else if_some (CHR ''.'' \<in> set t \<and> looks_like_client_hostname t) t)
       (split_by (\<lambda>c. is_ws c \<or> one_of ''=:,'' c) tail)"

definition marker_host :: "(string \<Rightarrow> bool) \<Rightarrow> string \<Rightarrow> string \<Rightarrow> string option" where
  "marker_host alnum line m =
     Option.bind (after_marker m line) (\<lambda>tail.
       opt_or (promoted_host alnum tail)
         (opt_or (first_some (quoted_host alnum tail) (''('' @ quote_chars @ ''[<''))
            (bare_host alnum tail)))"

definition from_markers :: "(string \<Rightarrow> bool) \<Rightarrow> string \<Rightarrow> string \<Rightarrow> string option" where
  "from_markers alnum rlm line =
     (if list_ex (contains_str (to_ascii_lowercase line)) markers
      then opt_or (token_principal alnum rlm line)
             (map_option (\<lambda>h. host_form h rlm) (first_some (marker_host alnum line) markers))
      else None)"

definition from_get_uid :: "(string \<Rightarrow> bool) \<Rightarrow> string \<Rightarrow> string \<Rightarrow> string option" where
  "from_get_uid alnum rlm line =
     Option.bind (after_str ''Get uid for '' line) (\<lambda>rest.
       let cand = trim (take_while (word_char alnum ''@.-_/'') rest) in if_some (mentions cand rlm) cand)"

definition from_unmapped :: "(string \<Rightarrow> bool) \<Rightarrow> string \<Rightarrow> string \<Rightarrow> string option" where
  "from_unmapped alnum rlm line =
     Option.bind (after_str ''Could not map principal '' line) (\<lambda>rest.
       let cand = take_while (word_char alnum ''@.-_'') rest in
       if length cand < length rest \<and> mentions cand rlm then Some cand
       else Option.bind (split_once (CHR ''@'') rest) (\<lambda>(ahead, after).
         let cand = ahead @ ''@'' @ take_while (word_char alnum ''.-'') after;
             cand = (case split_whitespace cand of [] \<Rightarrow> cand | w # _ \<Rightarrow> w)
         in if_some (mentions cand rlm) cand))"

text \<open>
  The part before the first at sign starts one byte after the last character that cannot belong
  to a name, wherever that character ends.
\<close>

definition from_at :: "(string \<Rightarrow> bool) \<Rightarrow> string \<Rightarrow> string \<Rightarrow> (panic, string option) result" where
  "from_at alnum rlm line =
     (case split_once (CHR ''@'') line of
        None \<Rightarrow> Ok None
      | Some (ahead, after) \<Rightarrow>
          let back = takeWhile (word_char alnum ''/.-_:'') (rev (utf8_chars ahead));
              stop = drop (length back) (rev (utf8_chars ahead));
              cand = concat (rev back) @ ''@'' @ take_while (word_char alnum ''.-_:'') after
          in if stop \<noteq> [] \<and> length (hd stop) \<noteq> 1 then Err NotCharBoundary
             else Ok (if_some (mentions cand rlm) cand))"

definition from_linux :: "(string \<Rightarrow> bool) \<Rightarrow> string \<Rightarrow> string \<Rightarrow> string option" where
  "from_linux alnum rlm line =
     Option.bind (extract_linux_nfs_hostname alnum line) (\<lambda>h.
       if_some (\<not> eq_ignore_ascii_case h ''linux'' \<and> \<not> eq_ignore_ascii_case h ''nfs'' \<and> host_name h) (host_form h rlm))"

definition from_name_field :: "(string \<Rightarrow> bool) \<Rightarrow> string \<Rightarrow> string \<Rightarrow> string option" where
  "from_name_field alnum rlm line =
     Option.bind (after_str ''name=('' line) (\<lambda>rest.
     Option.bind (split_once (CHR '')'') rest) (\<lambda>(inside, _).
       case rev (split_whitespace inside) of
         [] \<Rightarrow> None
       | w # _ \<Rightarrow> (let t = trim_matches (\<lambda>c. \<not> word_char alnum ''-.'' c) w in if_some (host_name t) (host_form t rlm))))"

definition from_client_markers :: "(string \<Rightarrow> bool) \<Rightarrow> string \<Rightarrow> string \<Rightarrow> string option" where
  "from_client_markers alnum rlm line =
     first_some (\<lambda>m. Option.bind (after_str m line) (\<lambda>tail.
         map_option (\<lambda>t. host_form t rlm)
           (find host_name (map (trim_matches (\<lambda>c. \<not> word_char alnum ''-.'' c))
              (split_by (\<lambda>c. is_ws c \<or> one_of ''=():,[]'' c) tail)))))
       [''fs_create_clid_name'', ''client addr='']"

definition from_words :: "string \<Rightarrow> string \<Rightarrow> string option" where
  "from_words rlm line =
     (if contains_str (to_ascii_lowercase line) (to_ascii_lowercase rlm)
      then find (\<lambda>w. mentions w rlm \<and> \<not> (is_noise_hostname (principal_local_part w) \<or> \<not> looks_like_client_hostname (principal_local_part w)))
             (map trim (split_by (\<lambda>c. is_ws c \<or> one_of ''=():,[]'' c \<or> c = [CHR 0x22]) line))
      else None)"

definition extract_candidate_principal :: "(string \<Rightarrow> bool) \<Rightarrow> string \<Rightarrow> string \<Rightarrow> (panic, string option) result" where
  "extract_candidate_principal alnum line rlm =
     first_found
       [Ok (from_unsupported line), Ok (from_markers alnum rlm line), Ok (from_get_uid alnum rlm line),
        Ok (from_unmapped alnum rlm line), from_at alnum rlm line, Ok (from_linux alnum rlm line),
        Ok (from_name_field alnum rlm line), Ok (from_client_markers alnum rlm line), Ok (from_words rlm line)]"

section \<open>Numbers and addresses\<close>

definition first_number :: "string \<Rightarrow> 32 word option" where
  "first_number s =
     Option.bind (find (\<lambda>w. w \<noteq> []) (split_by (\<lambda>c. \<not> (length c = 1 \<and> is_ascii_digit (hd c))) s)) parse_u32"

definition extract_uid_from_managed_gids_failure :: "string \<Rightarrow> 32 word option" where
  "extract_uid_from_managed_gids_failure line =
     (let low = to_ascii_lowercase line in
      if \<not> contains_str low ''attempt to fetch managed_gids'' \<or> \<not> contains_str low ''failed'' then None
      else case after_str ''uid: '' low of
        Some rest \<Rightarrow> first_number rest
      | None \<Rightarrow> Option.bind (after_str ''uid='' low) first_number)"

definition extract_user_from_getgrouplist_line :: "(string \<Rightarrow> bool) \<Rightarrow> string \<Rightarrow> string option" where
  "extract_user_from_getgrouplist_line alnum line =
     first_some (\<lambda>pat. Option.bind (after_str pat line) (\<lambda>rest.
         let tok = take_while (word_char alnum ''@/.-'') rest in if_some (tok \<noteq> []) tok))
       [''user:'', ''user '', ''for user '']"

definition extract_errno :: "string \<Rightarrow> 32 word option" where
  "extract_errno line = Option.bind (after_str ''errno:'' line) first_number"

definition extract_ngroups :: "string \<Rightarrow> 32 word option" where
  "extract_ngroups line = Option.bind (after_str ''ngroups:'' line) first_number"

definition extract_server_addr_from_ganesha_line :: "string \<Rightarrow> string option" where
  "extract_server_addr_from_ganesha_line line =
     Option.bind (after_marker ''server_addr'' line) (\<lambda>rest.
     Option.bind (strip_prefix ''='' (trim_start rest)) (\<lambda>rest.
       let ip = trim (take_while (\<lambda>c. \<not> (is_ws c \<or> one_of ''})'' c)) (trim_start rest)) in if_some (ip \<noteq> []) ip))"

text \<open>\<^verbatim>\<open>Ipv4Addr\<close>: four decimal octets without leading zeros.\<close>

definition parse_octet :: "string \<Rightarrow> nat option" where
  "parse_octet s =
     (if s \<noteq> [] \<and> length s \<le> 3 \<and> list_all is_ascii_digit s \<and> (length s = 1 \<or> hd s \<noteq> CHR ''0'') \<and> digits_value 0 s \<le> 255
      then Some (digits_value 0 s) else None)"

definition parse_ipv4 :: "string \<Rightarrow> nat list option" where
  "parse_ipv4 s =
     (let ps = map parse_octet (split_on (CHR ''.'') s)
      in if length ps = 4 \<and> None \<notin> set ps then Some (map the ps) else None)"

definition is_docker_bridge_ipv4 :: "string \<Rightarrow> bool" where
  "is_docker_bridge_ipv4 addr =
     (case parse_ipv4 (trim addr) of None \<Rightarrow> False | Some os \<Rightarrow> os ! 0 = 172 \<and> os ! 1 = 17)"

fun primary_of_lines :: "string list \<Rightarrow> string option" where
  "primary_of_lines [] = None"
| "primary_of_lines (l # ls) =
     (case after_str ''inet '' l of
        None \<Rightarrow> primary_of_lines ls
      | Some rest \<Rightarrow>
          (case split_whitespace rest of
             [] \<Rightarrow> None
           | w # _ \<Rightarrow> let ip = hd (split_on (CHR ''/'') w) in if ip \<noteq> [] then Some ip else primary_of_lines ls))"

text \<open>The output of \<^verbatim>\<open>ip -4 -o addr\<close>, when it succeeds.\<close>

definition container_primary_ipv4 :: "string option \<Rightarrow> string option" where
  "container_primary_ipv4 out = Option.bind out (\<lambda>text. primary_of_lines (lines text))"

datatype ManagedGidsLogLevel = Verbose | DebugOnly

definition managed_gids_log_level :: "string \<Rightarrow> bool \<Rightarrow> ManagedGidsLogLevel option" where
  "managed_gids_log_level line manage_gids_on =
     (if list_ex (contains_str (to_ascii_lowercase line))
           [''managed_gids'', ''uid2grp_allocate'', ''getpwuid_r for uid:'', ''getgrouplist for uname:'',
            ''attempt to fetch managed groups'', ''attempt to fetch managed_gids'']
      then Some (if manage_gids_on then Verbose else DebugOnly) else None)"

end
