(* ===== verification/Id_Observer.thy ===== *)
theory Id_Observer
  imports Id_Daemon Log_Lines
begin

text \<open>
  The observer of the identity helper, \<^verbatim>\<open>bin/idhelper/observer.rs\<close>: it follows the log of the server,
  resolves the principals it meets and repairs the name service files after a failure, within
  limits on how often. One step is one line of the log, read at a time in milliseconds.

  The observer asks its own daemon over the socket; such a request is an event here and a step of
  the daemon below. Following the file, its rotation and the pauses between reads only decide
  which lines are seen when.
\<close>

section \<open>Environment and state\<close>

record obs_env =
  o_id :: id_env
  o_alnum :: "string \<Rightarrow> bool"
  o_proc_dir :: "nat \<Rightarrow> string list option"
  o_comm :: "nat \<Rightarrow> 32 word \<Rightarrow> string option"

datatype obs_event =
    BridgeWarning string
  | GroupHeal string
  | UidHeal "32 word"
  | PrincipalHeal string
  | Request string
  | Sighup "32 word"

record obs_state =
  ids :: id_state
  recently :: "(string \<times> nat) list"
  bridge_warned :: "(string \<times> nat) list"
  healed_uids :: "(32 word \<times> nat) list"
  healed_users :: "(string \<times> nat) list"
  last_heal :: "nat option"
  events :: "(nat \<times> obs_event) list"
  watching :: bool

definition emit :: "nat \<Rightarrow> obs_event \<Rightarrow> obs_state \<Rightarrow> obs_state" where
  "emit now ev w = w\<lparr>events := events w @ [(now, ev)]\<rparr>"

definition with_ids :: "(id_state \<Rightarrow> id_state) \<Rightarrow> obs_state \<Rightarrow> obs_state" where
  "with_ids f w = w\<lparr>ids := f (ids w)\<rparr>"

definition put :: "'k \<Rightarrow> nat \<Rightarrow> ('k \<times> nat) list \<Rightarrow> ('k \<times> nat) list" where
  "put k now m = (k, now) # filter (\<lambda>(k', _). k' \<noteq> k) m"

definition within :: "nat \<Rightarrow> nat \<Rightarrow> nat option \<Rightarrow> bool" where
  "within now window seen = (case seen of None \<Rightarrow> False | Some t \<Rightarrow> now - t < window)"

definition retain_recent :: "nat \<Rightarrow> nat \<Rightarrow> ('k \<times> nat) list \<Rightarrow> ('k \<times> nat) list" where
  "retain_recent now window m = (if length m > 2048 then filter (\<lambda>(_, t). now - t < window) m else m)"

definition DEDUP_WINDOW :: nat where "DEDUP_WINDOW = 30000"
definition FAILURE_DEDUP_WINDOW :: nat where "FAILURE_DEDUP_WINDOW = 2000"
definition HEAL_FLOOR :: nat where "HEAL_FLOOR = 5000"

section \<open>The running server\<close>

definition proc_comm_is_ganesha :: "obs_env \<Rightarrow> nat \<Rightarrow> 32 word \<Rightarrow> bool" where
  "proc_comm_is_ganesha e i pid = (map_option trim (o_comm e i pid) = Some ''ganesha.nfsd'')"

definition resolve_live_ganesha_pid :: "obs_env \<Rightarrow> nat \<Rightarrow> 32 word option" where
  "resolve_live_ganesha_pid e i =
     (let scan = Option.bind (o_proc_dir e i) (\<lambda>names. find (proc_comm_is_ganesha e i) (List.map_filter parse_u32 names))
      in case i_env (o_id e) ''NFS_KLLDAP_GANESHA_PID'' of
           None \<Rightarrow> scan
         | Some s \<Rightarrow>
             (case parse_u32 (trim s) of
                None \<Rightarrow> scan
              | Some pid \<Rightarrow> if pid = 0 then None else if proc_comm_is_ganesha e i pid then Some pid else scan))"

definition sighup_disabled :: "env \<Rightarrow> bool" where
  "sighup_disabled ev =
     (case ev ''NFS_KLLDAP_SIGHUP_ON_IDMAP_HEAL'' of
        None \<Rightarrow> False | Some v \<Rightarrow> v = ''0'' \<or> eq_ignore_ascii_case v ''false'')"

definition signal_ganesha_reload_idmap :: "obs_env \<Rightarrow> nat \<Rightarrow> 32 word \<Rightarrow> obs_state \<Rightarrow> obs_state" where
  "signal_ganesha_reload_idmap e now pid w =
     (if sighup_disabled (i_env (o_id e)) \<or> pid = 0 then w else emit now (Sighup pid) w)"

definition send_sighup :: "obs_env \<Rightarrow> nat \<Rightarrow> obs_state \<Rightarrow> obs_state" where
  "send_sighup e now w =
     (let i = i_looks (ids w); w = with_ids i_tick w in
      case resolve_live_ganesha_pid e i of None \<Rightarrow> w | Some pid \<Rightarrow> signal_ganesha_reload_idmap e now pid w)"

section \<open>Repairs\<close>

definition unmapped_principal_needs_heal :: "string \<Rightarrow> string \<Rightarrow> string list \<Rightarrow> bool" where
  "unmapped_principal_needs_heal candidate rlm vs =
     (if \<not> fst (classify_principal candidate rlm vs) then True
      else case split_once (CHR ''/'') (principal_local_part candidate) of
        None \<Rightarrow> False
      | Some (_, service_host) \<Rightarrow> list_ex (\<lambda>v. eq_ignore_ascii_case v (trim service_host)) vs)"

definition rewrite_files :: "id_env \<Rightarrow> id_state \<Rightarrow> id_state" where
  "rewrite_files e s = (case snapshot_groups e s of (groups, s) \<Rightarrow> materialize e groups s)"

definition resolve_fully :: "id_env \<Rightarrow> string \<Rightarrow> string list \<Rightarrow> bool \<Rightarrow> string \<Rightarrow> id_state \<Rightarrow> id_state" where
  "resolve_fully e rlm vs force p s =
     snd (resolve_gids_and_materialize e p rlm vs force (snd (resolve_principal e p rlm vs s)))"

definition heal_principal_immediately ::
  "obs_env \<Rightarrow> string \<Rightarrow> string list \<Rightarrow> nat \<Rightarrow> string \<Rightarrow> bool \<Rightarrow> obs_state \<Rightarrow> obs_state" where
  "heal_principal_immediately e rlm vs now candidate sighup w =
     (let w = emit now (PrincipalHeal candidate) w;
          w = with_ids (\<lambda>s. rewrite_files (o_id e) (resolve_fully (o_id e) rlm vs True candidate s)) w
      in if sighup then send_sighup e now w else w)"

definition getgrouplist_failure :: "string \<Rightarrow> bool" where
  "getgrouplist_failure line =
     (let low = to_ascii_lowercase line
      in contains_str low ''my_getgrouplist_alloc'' \<and> (contains_str low ''failed'' \<or> contains_str low ''warn''))"

definition heal_groups :: "id_env \<Rightarrow> string \<Rightarrow> string list \<Rightarrow> string \<Rightarrow> id_state \<Rightarrow> id_state" where
  "heal_groups e rlm vs princ s =
     (let s = resolve_all e rlm vs [''root'', princ] s;
          s = snd (resolve_gids_and_materialize e ''root'' rlm vs True s);
          s = snd (resolve_gids_and_materialize e princ rlm vs True s)
      in rewrite_files e s)"

definition detect_my_getgrouplist_failure_and_heal ::
  "obs_env \<Rightarrow> string \<Rightarrow> string list \<Rightarrow> nat \<Rightarrow> string \<Rightarrow> obs_state \<Rightarrow> obs_state" where
  "detect_my_getgrouplist_failure_and_heal e rlm vs now line w =
     (if \<not> getgrouplist_failure line then w
      else
        let user = unwrap_or (extract_user_from_getgrouplist_line (o_alnum e) line) ''unknown'' in
        if within now DEDUP_WINDOW (map_of (healed_users w) user) \<or> within now HEAL_FLOOR (last_heal w) then w
        else
          let w = w\<lparr>healed_users := retain_recent now DEDUP_WINDOW (put user now (healed_users w)), last_heal := Some now\<rparr>;
              w = emit now (Request (''REBULK'' @ [line_feed])) (emit now (GroupHeal user) w);
              princ = (if CHR ''@'' \<in> set user then user else user @ ''@'' @ rlm);
              w = send_sighup e now (with_ids (heal_groups (o_id e) rlm vs princ) w);
              asks = [''root'', princ] @ (if user \<noteq> princ then [user] else [])
          in fold (\<lambda>p. emit now (Request (''GRPS '' @ p @ [line_feed]))) asks w)"

text \<open>The row in the passwd file only appears in a log line.\<close>

definition nss_passwd_has_uid :: "id_env \<Rightarrow> 32 word \<Rightarrow> stores \<Rightarrow> bool" where
  "nss_passwd_has_uid e uid fs =
     (case read_store e NssPasswd fs of
        None \<Rightarrow> False
      | Some content \<Rightarrow>
          list_ex (\<lambda>ln. let fields = split_on (CHR '':'') ln in length fields > 2 \<and> fields ! 2 = show_word uid) (lines content))"

definition cached_principal :: "32 word \<Rightarrow> IdCache \<Rightarrow> string option" where
  "cached_principal uid c = map_option (\<lambda>(_, r). r_principal r) (find (\<lambda>(_, r). r_uid r = uid) c)"

definition detect_managed_gids_uid_failure_and_heal ::
  "obs_env \<Rightarrow> string \<Rightarrow> string list \<Rightarrow> nat \<Rightarrow> string \<Rightarrow> obs_state \<Rightarrow> obs_state" where
  "detect_managed_gids_uid_failure_and_heal e rlm vs now line w =
     (case extract_uid_from_managed_gids_failure line of
        None \<Rightarrow> w
      | Some uid \<Rightarrow>
          if within now DEDUP_WINDOW (map_of (healed_uids w) uid) then w
          else
            let w = emit now (UidHeal uid) (w\<lparr>healed_uids := put uid now (healed_uids w)\<rparr>) in
            case cached_principal uid (id_cache (ids w)) of
              Some princ \<Rightarrow> heal_principal_immediately e rlm vs now princ True w
            | None \<Rightarrow>
                send_sighup e now (with_ids (rewrite_files (o_id e)) (emit now (Request (''REBULK'' @ [line_feed])) w)))"

definition maybe_warn_bridge_server_addr :: "obs_env \<Rightarrow> nat \<Rightarrow> string \<Rightarrow> obs_state \<Rightarrow> obs_state" where
  "maybe_warn_bridge_server_addr e now line w =
     (case extract_server_addr_from_ganesha_line line of
        None \<Rightarrow> w
      | Some addr \<Rightarrow>
          if \<not> is_docker_bridge_ipv4 addr \<or> extract_linux_nfs_hostname (o_alnum e) line = None
             \<or> within now DEDUP_WINDOW (map_of (bridge_warned w) addr)
          then w
          else emit now (BridgeWarning addr) (w\<lparr>bridge_warned := put addr now (bridge_warned w)\<rparr>))"

section \<open>One line\<close>

definition observe_candidate ::
  "obs_env \<Rightarrow> string \<Rightarrow> string list \<Rightarrow> nat \<Rightarrow> string \<Rightarrow> string \<Rightarrow> obs_state \<Rightarrow> obs_state" where
  "observe_candidate e rlm vs now line candidate w =
     (let unmapped = contains_str line ''Could not map principal '';
          failure_line = (unmapped \<or> getgrouplist_failure line);
          window = (if failure_line then FAILURE_DEDUP_WINDOW else DEDUP_WINDOW)
      in if within now window (map_of (recently w) candidate) then w
         else
           let w = w\<lparr>recently := retain_recent now DEDUP_WINDOW (put candidate now (recently w))\<rparr> in
           if \<not> unmapped_principal_needs_heal candidate rlm vs then w
           else
             let w = (if failure_line then heal_principal_immediately e rlm vs now candidate unmapped w else w)
             in with_ids (resolve_fully (o_id e) rlm vs False candidate) w)"

text \<open>A panic ends the observer's thread, and nothing starts it again.\<close>

definition observe_line :: "obs_env \<Rightarrow> string \<Rightarrow> string list \<Rightarrow> nat \<Rightarrow> string \<Rightarrow> obs_state \<Rightarrow> obs_state" where
  "observe_line e rlm vs now buf w =
     (let line = trim buf;
          w = maybe_warn_bridge_server_addr e now line w;
          w = detect_my_getgrouplist_failure_and_heal e rlm vs now line w;
          w = detect_managed_gids_uid_failure_and_heal e rlm vs now line w
      in case extract_candidate_principal (o_alnum e) line rlm of
           Inl _ \<Rightarrow> w\<lparr>watching := False\<rparr>
         | Inr None \<Rightarrow> w
         | Inr (Some candidate) \<Rightarrow> observe_candidate e rlm vs now line candidate w)"

section \<open>The service\<close>

datatype daemon_input = ClientLine string | PeriodicRebulk | LogLine nat string

definition daemon_input_step :: "obs_env \<Rightarrow> string \<Rightarrow> string list \<Rightarrow> daemon_input \<Rightarrow> obs_state \<Rightarrow> obs_state" where
  "daemon_input_step e rlm vs inp w =
     (case inp of
        ClientLine stream \<Rightarrow> with_ids (\<lambda>s. snd (handle_client (o_id e) rlm vs stream s)) w
      | PeriodicRebulk \<Rightarrow> with_ids (\<lambda>s. snd (rebulk_ldap_users (o_id e) rlm vs (get_or_init_resolver (o_id e) s))) w
      | LogLine now buf \<Rightarrow> if watching w then observe_line e rlm vs now buf w else w)"

definition observer_start :: "id_state \<Rightarrow> obs_state" where
  "observer_start s =
     \<lparr>ids = s, recently = [], bridge_warned = [], healed_uids = [], healed_users = [], last_heal = None, events = [], watching = True\<rparr>"

definition daemon_life :: "obs_env \<Rightarrow> string \<Rightarrow> string list \<Rightarrow> daemon_input list \<Rightarrow> id_state \<Rightarrow> obs_state" where
  "daemon_life e rlm vs inps s =
     fold (daemon_input_step e rlm vs) inps (observer_start (run_daemon (o_id e) rlm vs s))"

end
