(* ===== verification/Nss_Laws.thy ===== *)
theory Nss_Laws
  imports Nss_Files
begin

text \<open>
  Laws of the name service files: the fields of a row are read back as they were written, the
  rows do not depend on the order of a hash map, a cached principal has one passwd row with its
  own ids, every gid a cached principal claims has one group row that lists it, and the files are
  rewritten only when their content changes.
\<close>

section \<open>Fields\<close>

definition nss_safe :: "char \<Rightarrow> bool" where
  "nss_safe c = (is_ascii_alnum c \<or> c \<in> set ''_-.@/'')"

definition field :: "string \<Rightarrow> bool" where
  "field s = (s \<noteq> [] \<and> list_all nss_safe s)"

lemma nss_safe_not: "\<not> nss_safe (CHR '':'')" "\<not> nss_safe (CHR '','')" "\<not> nss_safe (CHR ''#'')" "\<not> nss_safe line_feed"
  by (simp_all add: nss_safe_def char_class_defs line_feed_def)

lemma field_not: "field s \<Longrightarrow> CHR '':'' \<notin> set s" "field s \<Longrightarrow> CHR '','' \<notin> set s" "field s \<Longrightarrow> line_feed \<notin> set s"
  using nss_safe_not by (auto simp: field_def list_all_iff)

lemma nss_safe_inked: "nss_safe c \<Longrightarrow> inked c"
  by (auto simp: nss_safe_def inked_def is_ascii_def ws1_def char_class_defs)

lemma field_nss_chars:
  assumes "\<And>c. allowed c \<Longrightarrow> nss_safe c"
  shows "field (nss_chars allowed s)"
proof -
  have "nss_safe (CHR ''_'')" "field ''unknown''" by (simp_all add: nss_safe_def field_def char_class_defs)
  then show ?thesis using assms by (auto simp: nss_chars_def Let_def field_def list_all_iff)
qed

lemma field_sanitize [simp]: "field (sanitize_for_nss s)"
  unfolding sanitize_for_nss_def by (rule field_nss_chars) (auto simp: nss_safe_def)

lemma field_at [simp]: "field (principal_realm_login_for_nss s)"
  unfolding principal_realm_login_for_nss_def by (rule field_nss_chars) (auto simp: nss_safe_def)

lemma field_digits: "field (show_word w)"
  using show_nat_digits [of "unat w"]
  by (auto simp: field_def show_word_def nss_safe_def is_ascii_alnum_def list_all_iff simp del: show_nat.simps)

lemma field_words [simp]: "field ''root''" "field ''nobody''" "field ''daemon''" "field ''bin''" "field ''x''"
  by (simp_all add: field_def nss_safe_def char_class_defs)

lemma field_Cons: "nss_safe c \<Longrightarrow> field s \<Longrightarrow> field (c # s)"
  by (simp add: field_def)

lemma field_gname: "field (gname_for_gid g lg fb)"
  by (auto simp: gname_for_gid_def split: option.split list.split)

lemma field_member_logins: "l \<in> set (member_logins r) \<Longrightarrow> field l"
  by (auto simp: member_logins_def nss_passwd_logins_for_def Let_def set_sort_dedup split: if_splits)

lemma field_short_and_at: "l \<in> set (short_and_at r) \<Longrightarrow> field l"
  by (auto simp: short_and_at_def Let_def)

lemma set_push_new [simp]: "set (push_new x xs) = insert x (set xs)"
  by (auto simp: push_new_def)

lemma set_foldl_push_new [simp]: "set (foldl (\<lambda>v l. push_new l v) v ls) = set v \<union> set ls"
  by (induction ls arbitrary: v) auto

section \<open>Group rows are read back\<close>

definition row_ok :: "string \<Rightarrow> string list \<Rightarrow> bool" where
  "row_ok n ms = (field n \<and> (\<forall>m \<in> set ms. field m))"

lemma group_line_join: "group_line_with_members g n ms = n @ '':x:'' @ show_word g @ '':'' @ join '','' ms"
  by (simp add: group_line_with_members_def)

lemma group_line_not_Nil [simp]: "group_line_with_members g n ms \<noteq> []"
  by (simp add: group_line_join)

lemma join_fields: "\<forall>m \<in> set ms. field m \<Longrightarrow> c \<in> set (join '','' ms) \<Longrightarrow> nss_safe c \<or> c = CHR '',''"
  using set_join [of "'',''" ms] by (fastforce simp: field_def list_all_iff)

lemma group_line_inked:
  assumes "row_ok n ms" and "c \<in> set (group_line_with_members g n ms)"
  shows "inked c"
proof -
  have "inked (CHR '','')" "inked (CHR '':'')" by (simp_all add: inked_def is_ascii_def ws1_def)
  moreover have "c \<in> set n \<or> c \<in> set '':x:'' \<or> c \<in> set (show_word g) \<or> c \<in> set (join '','' ms)"
    using assms(2) by (auto simp: group_line_join)
  moreover have "inked (CHR ''x'')" by (simp add: inked_def is_ascii_def ws1_def)
  moreover have "nss_safe d" if "d \<in> set n" for d using assms(1) that by (auto simp: row_ok_def field_def list_all_iff)
  moreover have "nss_safe d" if "d \<in> set (show_word g)" for d
    using field_digits [of g] that by (auto simp: field_def list_all_iff)
  ultimately show ?thesis
    using assms(1) join_fields [of ms c] nss_safe_inked by (auto simp: row_ok_def)
qed

lemma group_line_trim [simp]: "row_ok n ms \<Longrightarrow> trim (group_line_with_members g n ms) = group_line_with_members g n ms"
  using group_line_inked by (intro trim_inked) (auto simp: group_line_join row_ok_def field_def)

lemma group_line_parts:
  assumes "row_ok n ms"
  shows "split_on (CHR '':'') (group_line_with_members g n ms) = [n, ''x'', show_word g, join '','' ms]"
proof -
  have "CHR '':'' \<notin> set (join '','' ms)" using join_fields [of ms "CHR '':''"] assms nss_safe_not by (auto simp: row_ok_def)
  then show ?thesis
    using assms field_not(1) [OF field_digits [of g]] field_not(1) [of n]
    by (simp add: group_line_join row_ok_def split_on_append_sep split_on_single)
qed

lemma group_line_plain:
  assumes "row_ok n ms"
  shows "\<not> is_blank (group_line_with_members g n ms)" "\<not> starts_with (group_line_with_members g n ms) ''#''"
proof -
  have "n \<noteq> []" "hd n \<noteq> CHR ''#''"
    using assms nss_safe_not(3) by (auto simp: row_ok_def field_def list_all_iff dest: hd_in_set)
  then show "\<not> starts_with (group_line_with_members g n ms) ''#''" by (cases n) (auto simp: group_line_join)
  have "trim (group_line_with_members g n ms) \<noteq> []" using assms by (simp only: group_line_trim) (simp add: group_line_join)
  then show "\<not> is_blank (group_line_with_members g n ms)" by simp
qed

lemma row_of_group_line: "row_ok n ms \<Longrightarrow> row_of_gid g' (group_line_with_members g n ms) \<longleftrightarrow> g' = g"
  by (auto simp: row_of_gid_def Let_def group_line_parts group_line_plain parse_u32_show)

lemma members_of_group_line:
  "row_ok n ms \<Longrightarrow> ms \<noteq> [] \<Longrightarrow> split_on (CHR '','') (row_members (group_line_with_members g n ms)) = ms"
  by (auto simp: row_members_def Let_def group_line_parts row_ok_def field_not intro!: split_on_join)

lemma root_line_iff:
  assumes "row_ok n ms"
  shows "starts_with (group_line_with_members g n ms) ''root:x:0:'' \<longleftrightarrow> n = ''root'' \<and> g = 0"
proof
  assume "starts_with (group_line_with_members g n ms) ''root:x:0:''"
  then obtain t where "group_line_with_members g n ms = ''root:x:0:'' @ t" by (auto simp: prefix_def)
  then have "[n, ''x'', show_word g, join '','' ms] = split_on (CHR '':'') (''root:x:0:'' @ t)"
    using group_line_parts [OF assms] by metis
  then have "n = ''root''" "show_word g = ''0''" by (auto split: list.splits)
  then show "n = ''root'' \<and> g = 0"
    using parse_u32_show [of g] by (simp add: parse_u32_def parse_unsigned_def is_ascii_digit_def digit_value_def)
next
  assume "n = ''root'' \<and> g = 0"
  then show "starts_with (group_line_with_members g n ms) ''root:x:0:''" by (simp add: group_line_join show_word_def show_nat.simps [of 0]) code_simp
qed

section \<open>The group rows of a snapshot\<close>

text \<open>Every row is well formed, and no gid has two.\<close>

definition rendered :: "(32 word \<times> string \<times> string list) list \<Rightarrow> string list" where
  "rendered rows = map (\<lambda>(g, n, ms). group_line_with_members g n ms) rows"

definition rows_ok :: "(32 word \<times> string \<times> string list) list \<Rightarrow> 32 word set \<Rightarrow> bool" where
  "rows_ok rows seen =
     (distinct (map fst rows) \<and> fst ` set rows \<subseteq> seen \<and> (\<forall>(g, n, ms) \<in> set rows. row_ok n ms))"

definition good_rows :: "nss_rows \<Rightarrow> bool" where
  "good_rows a = (\<exists>rows. group_lines a = rendered rows \<and> rows_ok rows (seen_gid a))"

lemma good_no_rows: "good_rows no_rows"
  by (auto simp: good_rows_def no_rows_def rendered_def rows_ok_def intro: exI [of _ "[]"])

lemma good_group_row:
  assumes "good_rows a" and "row_ok n ms"
  shows "good_rows (group_row g (group_line_with_members g n ms) a)"
proof -
  obtain rows where r: "group_lines a = rendered rows" "rows_ok rows (seen_gid a)"
    using assms(1) by (auto simp: good_rows_def)
  then have "group_lines a @ [group_line_with_members g n ms] = rendered (rows @ [(g, n, ms)])"
    "g \<notin> seen_gid a \<Longrightarrow> rows_ok (rows @ [(g, n, ms)]) (insert g (seen_gid a))"
    using assms(2) by (auto simp: rendered_def rows_ok_def)
  then show ?thesis using assms(1) by (auto simp: group_row_def good_rows_def)
qed

text \<open>The members of a gid reach its row: once the gid has been seen, a row lists them.\<close>

definition listed :: "32 word \<Rightarrow> string set \<Rightarrow> nss_rows \<Rightarrow> bool" where
  "listed g L a =
     (g \<in> seen_gid a \<longrightarrow> (\<exists>n ms. row_ok n ms \<and> group_line_with_members g n ms \<in> set (group_lines a) \<and> L \<subseteq> set ms))"

lemma listed_group_row:
  assumes "listed g L a" and "row_ok n ms" and "g' = g \<Longrightarrow> L \<subseteq> set ms"
  shows "listed g L (group_row g' (group_line_with_members g' n ms) a)"
  using assms by (fastforce simp: listed_def group_row_def)

lemma passwd_row_frame [simp]:
  "seen_gid (foldl (passwd_row r) a ls) = seen_gid a" "group_lines (foldl (passwd_row r) a ls) = group_lines a"
  by (induction ls arbitrary: a) (simp_all add: passwd_row_def)

lemma group_row_frame [simp]:
  "seen_login (group_row g l a) = seen_login a" "passwd_lines (group_row g l a) = passwd_lines a"
  "seen_gid (group_row g l a) = insert g (seen_gid a)"
  by (auto simp: group_row_def)

lemma good_private_row: "good_rows a \<Longrightarrow> good_rows (private_row r a)"
proof -
  assume g: "good_rows a"
  then obtain rows where r: "group_lines a = rendered rows" "rows_ok rows (seen_gid a)" by (auto simp: good_rows_def)
  have "nss_safe (CHR ''u'')" by (simp add: nss_safe_def char_class_defs)
  then have u: "row_ok (CHR ''u'' # show_word (r_uid r)) []" by (simp add: row_ok_def field_Cons field_digits)
  show ?thesis
  proof (cases "r_uid r \<noteq> r_gid r \<and> r_uid r \<notin> seen_gid a")
    case True
    show ?thesis
    proof (cases "r_uid r = 0")
      case z: True
      have "rows_ok rows (insert 0 (seen_gid a))" using r(2) by (auto simp: rows_ok_def)
      with True z r(1) show ?thesis by (auto simp: private_row_def good_rows_def)
    next
      case False
      with True have "private_row r a =
          group_row (r_uid r) (group_line_with_members (r_uid r) (CHR ''u'' # show_word (r_uid r)) []) a"
        by (auto simp: private_row_def group_row_def group_line_join)
      with good_group_row [OF g u] show ?thesis by simp
    qed
  qed (use g in \<open>auto simp: private_row_def\<close>)
qed

text \<open>The members claimed for a gid.\<close>

lemma set_add_members:
  "set (foldl (\<lambda>m g. if g = 0 then m else m(g := foldl (\<lambda>v l. push_new l v) (m g) ls)) m gs g)
   = set (m g) \<union> (if g \<noteq> 0 \<and> g \<in> set gs then set ls else {})"
  by (induction gs arbitrary: m) auto

definition claims :: "Resolved \<Rightarrow> 32 word \<Rightarrow> bool" where
  "claims r g = (g \<noteq> 0 \<and> g \<in> set (r_gid r # supplemental_gids r))"

lemma set_entries:
  "set (foldl add_member_entry m items g) = set (m g) \<union> (\<Union>r \<in> {r \<in> set items. claims r g}. set (member_logins r))"
  by (induction items arbitrary: m) (auto simp: add_member_entry_def set_add_members claims_def split: if_splits)

lemma set_root_members:
  "set (foldl (\<lambda>m g. m(g := push_new ''root'' (m g))) m gs g) = set (m g) \<union> (if g \<in> set gs then {''root''} else {})"
  by (induction gs arbitrary: m) auto

lemma set_members_by_gid:
  "set (members_by_gid items supps g) =
     (\<Union>r \<in> {r \<in> set items. claims r g}. set (member_logins r)) \<union> (if g \<in> set supps then {''root''} else {})"
  by (simp add: members_by_gid_def set_root_members set_entries)

lemma members_by_gid_field: "l \<in> set (members_by_gid items supps g) \<Longrightarrow> field l"
  using field_member_logins by (auto simp: set_members_by_gid split: if_splits)

lemma users_by_gid_field: "l \<in> set (users_by_gid items g) \<Longrightarrow> field l"
  using field_short_and_at by (auto simp: users_by_gid_def split: if_splits)

text \<open>The three kinds of rows that list members.\<close>

lemma g_name_field [simp]: "field (CHR ''g'' # show_word g)"
  by (simp add: field_Cons field_digits nss_safe_def char_class_defs)

lemma claimed_line_shape:
  "\<exists>n ms. claimed_line lg (members_by_gid items supps) r g = group_line_with_members g n ms \<and> row_ok n ms
          \<and> (g \<noteq> 0 \<longrightarrow> set (members_by_gid items supps g) \<subseteq> set ms)"
proof -
  consider "g = 0" | "g \<noteq> 0" "r_kind r = Machine" | "g \<noteq> 0" "r_kind r \<noteq> Machine" by blast
  then show ?thesis
  proof cases
    case 1
    then have "claimed_line lg (members_by_gid items supps) r g = group_line_with_members g ''root'' minimal_root_group_members"
      by (simp add: claimed_line_def)
    moreover have "row_ok ''root'' minimal_root_group_members" by (simp add: row_ok_def minimal_root_group_members_def)
    ultimately show ?thesis using 1 by blast
  next
    case 2
    then have "claimed_line lg (members_by_gid items supps) r g =
        group_line_with_members g (gname_for_gid g lg (CHR ''g'' # show_word g)) (push_new ''root'' (members_by_gid items supps g))"
      by (simp add: claimed_line_def)
    moreover have "row_ok (gname_for_gid g lg (CHR ''g'' # show_word g)) (push_new ''root'' (members_by_gid items supps g))"
      by (auto simp: row_ok_def field_gname members_by_gid_field)
    ultimately show ?thesis by (metis set_push_new subset_insertI)
  next
    case 3
    define ms where "ms = foldl (\<lambda>v l. push_new l v) (members_by_gid items supps g) (short_and_at r)"
    have "claimed_line lg (members_by_gid items supps) r g = group_line_with_members g (gname_for_gid g lg (CHR ''g'' # show_word g)) ms"
      using 3 by (simp add: claimed_line_def ms_def)
    moreover have "row_ok (gname_for_gid g lg (CHR ''g'' # show_word g)) ms"
      by (auto simp: row_ok_def field_gname ms_def members_by_gid_field field_short_and_at)
    moreover have "set (members_by_gid items supps g) \<subseteq> set ms" by (auto simp: ms_def)
    ultimately show ?thesis by blast
  qed
qed

lemma ldap_line_shape:
  "\<exists>n ms. ldap_group_line (users_by_gid items) (members_by_gid items supps) e = group_line_with_members (g_gid e) n ms
          \<and> row_ok n ms \<and> set (members_by_gid items supps (g_gid e)) \<subseteq> set ms"
proof -
  define ms where "ms = ldap_row_members (users_by_gid items) (members_by_gid items supps) e"
  have "\<forall>m \<in> set ms. field m"
    by (auto simp: ms_def ldap_row_members_def members_by_gid_field users_by_gid_field)
  then show ?thesis
    unfolding ldap_group_line_def ms_def [symmetric]
    by (intro exI conjI) (auto simp: row_ok_def ms_def ldap_row_members_def)
qed

lemma root_supp_shape:
  "\<exists>n ms. root_supp_line lg (members_by_gid items supps) g = group_line_with_members g n ms
          \<and> row_ok n ms \<and> set (members_by_gid items supps g) \<subseteq> set ms"
  unfolding root_supp_line_def by (intro exI conjI) (auto simp: row_ok_def field_gname members_by_gid_field)

section \<open>Every claimed gid has one row\<close>

lemma fold_group_rows:
  assumes "\<And>x. x \<in> set xs \<Longrightarrow> \<exists>n ms. line x = group_line_with_members (gd x) n ms \<and> row_ok n ms \<and> (gd x = g \<longrightarrow> L \<subseteq> set ms)"
    and "good_rows a \<and> listed g L a"
  shows "good_rows (foldl (\<lambda>a x. group_row (gd x) (line x) a) a xs) \<and> listed g L (foldl (\<lambda>a x. group_row (gd x) (line x) a) a xs)"
  using assms
proof (induction xs arbitrary: a)
  case (Cons x xs)
  obtain n ms where x: "line x = group_line_with_members (gd x) n ms" "row_ok n ms" "gd x = g \<longrightarrow> L \<subseteq> set ms"
    using Cons.prems(1) [of x] by auto
  with Cons.prems(2) have "good_rows (group_row (gd x) (line x) a) \<and> listed g L (group_row (gd x) (line x) a)"
    by (simp add: good_group_row listed_group_row)
  with Cons show ?case by simp
qed simp

lemma seen_group_rows: "seen_gid (foldl (\<lambda>a x. group_row (gd x) (line x) a) a xs) = seen_gid a \<union> gd ` set xs"
  by (induction xs arbitrary: a) auto

lemma listed_private_row:
  assumes "listed g L a" and "g \<noteq> 0" and "g \<in> seen_gid a \<or> (r_uid r = g \<longrightarrow> r_gid r = g)"
  shows "listed g L (private_row r a)"
  using assms by (fastforce simp: listed_def private_row_def)

text \<open>A private row takes a gid away when it is the uid of an entry and no row has it yet.\<close>

definition undisturbed :: "32 word \<Rightarrow> Resolved list \<Rightarrow> nss_rows \<Rightarrow> bool" where
  "undisturbed g items a = (g \<in> seen_gid a \<or> (\<forall>r \<in> set items. r_uid r = g \<longrightarrow> r_gid r = g))"

lemma item_rows_step:
  assumes "good_rows a \<and> listed g L a" and "g \<noteq> 0" and "undisturbed g [r] a"
    and "members = members_by_gid items supps" and "L = set (members g)"
  shows "good_rows (item_rows lg members a r) \<and> listed g L (item_rows lg members a r)"
proof -
  define a1 where "a1 = foldl (passwd_row r) a (nss_passwd_logins_for r)"
  define a2 where "a2 = foldl (\<lambda>a x. group_row x (claimed_line lg members r x) a) a1 (r_gid r # supplemental_gids r)"
  have "good_rows a1 \<and> listed g L a1" using assms(1) by (simp add: a1_def good_rows_def listed_def)
  then have "good_rows a2 \<and> listed g L a2"
    unfolding a2_def by (rule fold_group_rows [rotated]) (use claimed_line_shape assms(2,4,5) in metis)
  moreover have "seen_gid a2 = seen_gid a \<union> set (r_gid r # supplemental_gids r)"
    unfolding a2_def seen_group_rows by (simp add: a1_def)
  with assms(3) have "g \<in> seen_gid a2 \<or> (r_uid r = g \<longrightarrow> r_gid r = g)" by (auto simp: undisturbed_def)
  ultimately show ?thesis
    using assms(1,2) by (auto simp: item_rows_def a1_def [symmetric] a2_def [symmetric] Let_def good_private_row listed_private_row
        simp del: foldl.simps)
qed

lemma item_rows_seen:
  "seen_gid a \<subseteq> seen_gid (item_rows lg members a r)"
  "\<not> is_numeric_local_principal (r_principal r) \<Longrightarrow> set (r_gid r # supplemental_gids r) \<subseteq> seen_gid (item_rows lg members a r)"
proof -
  define a2 where "a2 = foldl (\<lambda>a x. group_row x (claimed_line lg members r x) a)
     (foldl (passwd_row r) a (nss_passwd_logins_for r)) (r_gid r # supplemental_gids r)"
  have s: "seen_gid a2 = seen_gid a \<union> set (r_gid r # supplemental_gids r)"
    unfolding a2_def seen_group_rows by simp
  have "item_rows lg members a r = (if is_numeric_local_principal (r_principal r) then a else private_row r a2)"
    by (simp add: item_rows_def a2_def Let_def)
  moreover have "seen_gid a2 \<subseteq> seen_gid (private_row r a2)" by (auto simp: private_row_def)
  ultimately show "seen_gid a \<subseteq> seen_gid (item_rows lg members a r)"
    "\<not> is_numeric_local_principal (r_principal r) \<Longrightarrow> set (r_gid r # supplemental_gids r) \<subseteq> seen_gid (item_rows lg members a r)"
    using s by auto
qed

lemma item_rows_fold:
  assumes "good_rows a \<and> listed g L a" and "g \<noteq> 0" and "undisturbed g rs a"
    and "members = members_by_gid items supps" and "L = set (members g)"
  shows "good_rows (foldl (item_rows lg members) a rs) \<and> listed g L (foldl (item_rows lg members) a rs)"
  using assms(1,3)
proof (induction rs arbitrary: a)
  case (Cons r rs)
  have "undisturbed g [r] a" "undisturbed g rs (item_rows lg members a r)"
    using Cons.prems(2) item_rows_seen(1) [of a lg members r] by (auto simp: undisturbed_def)
  then show ?case using Cons item_rows_step [OF Cons.prems(1) assms(2) _ assms(4,5)] by simp
qed simp

lemma item_rows_fold_seen:
  "seen_gid a \<subseteq> seen_gid (foldl (item_rows lg members) a rs)"
  "r \<in> set rs \<Longrightarrow> \<not> is_numeric_local_principal (r_principal r) \<Longrightarrow> claims r g \<Longrightarrow> g \<in> seen_gid (foldl (item_rows lg members) a rs)"
proof -
  show mono: "seen_gid a \<subseteq> seen_gid (foldl (item_rows lg members) a rs)" for a rs
    by (induction rs arbitrary: a) (use item_rows_seen(1) in force)+
  show "r \<in> set rs \<Longrightarrow> \<not> is_numeric_local_principal (r_principal r) \<Longrightarrow> claims r g \<Longrightarrow> g \<in> seen_gid (foldl (item_rows lg members) a rs)"
  proof (induction rs arbitrary: a)
    case (Cons x rs)
    then show ?case using mono [of "item_rows lg members a x" rs] item_rows_seen(2) [where r = r and a = a and lg = lg and members = members] by (auto simp: claims_def)
  qed simp
qed

lemma gids_of_ldap_groups: "g_gid ` set (ldap_groups_by_gid groups) = (\<lambda>e. g_gid (snd e)) ` set groups"
proof -
  have "g_gid ` set (foldl (\<lambda>es e. if g_gid e \<in> g_gid ` set es then es else es @ [e]) acc xs) = g_gid ` set acc \<union> g_gid ` set xs" for acc xs :: "PosixGroupEntry list"
    by (induction xs arbitrary: acc) auto
  then show ?thesis by (simp add: ldap_groups_by_gid_def image_image)
qed

lemma one_row:
  assumes "good_rows a" and "group_line_with_members g n ms \<in> set (group_lines a)" and "row_ok n ms"
  shows "filter (row_of_gid g) (group_lines a) = [group_line_with_members g n ms]"
proof -
  obtain rows where r: "group_lines a = rendered rows" "rows_ok rows (seen_gid a)" using assms(1) by (auto simp: good_rows_def)
  have "filter (row_of_gid g) (rendered rows) = rendered (filter (\<lambda>x. fst x = g) rows)"
    unfolding rendered_def filter_map using r(2) by (auto simp: rows_ok_def row_of_group_line intro!: arg_cong [of _ _ "map _"] filter_cong)
  moreover have "length (filter (\<lambda>x. fst x = g) rows) \<le> 1"
  proof -
    have "distinct (map fst (filter (\<lambda>x. fst x = g) rows))" using r(2) by (simp add: rows_ok_def distinct_map_filter)
    moreover have "set (map fst (filter (\<lambda>x. fst x = g) rows)) \<subseteq> {g}" by auto
    ultimately have "card (set (map fst (filter (\<lambda>x. fst x = g) rows))) \<le> 1"
      "card (set (map fst (filter (\<lambda>x. fst x = g) rows))) = length (map fst (filter (\<lambda>x. fst x = g) rows))"
      using card_mono [of "{g}"] distinct_card by fastforce+
    then show ?thesis by simp
  qed
  moreover have "group_line_with_members g n ms \<in> set (filter (row_of_gid g) (group_lines a))"
    using assms(2,3) by (simp add: row_of_group_line)
  moreover have "length xs \<le> 1 \<Longrightarrow> x \<in> set xs \<Longrightarrow> xs = [x]" for x :: string and xs
    by (cases xs) auto
  ultimately show ?thesis using r(1) by (simp add: rendered_def)
qed

lemma finish_group_row:
  assumes "g \<noteq> 0" and "good_rows a"
  shows "filter (row_of_gid g) (finish_group a) = filter (row_of_gid g) (group_lines a)"
proof -
  have root: "row_ok ''root'' minimal_root_group_members" by (simp add: row_ok_def minimal_root_group_members_def)
  then have "\<not> row_of_gid g (group_line_with_members 0 ''root'' minimal_root_group_members)"
    using assms(1) by (simp add: row_of_group_line)
  moreover have "\<not> starts_with l ''root:x:0:''" if "l \<in> set (group_lines a)" "row_of_gid g l" for l
  proof -
    obtain g' n ms where "l = group_line_with_members g' n ms" "row_ok n ms"
      using assms(2) \<open>l \<in> set (group_lines a)\<close> by (fastforce simp: good_rows_def rendered_def rows_ok_def)
    with that(2) assms(1) show ?thesis by (simp add: row_of_group_line root_line_iff)
  qed
  then have "filter (\<lambda>l. \<not> starts_with l ''root:x:0:'' \<and> row_of_gid g l) (group_lines a) = filter (row_of_gid g) (group_lines a)"
    by (intro filter_cong) auto
  ultimately show ?thesis by (simp add: finish_group_def Let_def)
qed

lemma snapshot_rows_listed:
  assumes "r \<in> set (snapshot_items c)" and "\<not> is_numeric_local_principal (r_principal r)" and "claims r g"
    and "(\<exists>groups. lg = Some groups \<and> g \<in> (\<lambda>e. g_gid (snd e)) ` set groups)
         \<or> (\<forall>r \<in> set (snapshot_items c). r_uid r = g \<longrightarrow> r_gid r = g)"
  shows "good_rows (snapshot_rows c lg) \<and> listed g (set (member_logins r)) (snapshot_rows c lg) \<and> g \<in> seen_gid (snapshot_rows c lg)"
proof -
  define supps where "supps = root_supplemental_gids_from_cache c"
  define members where "members = members_by_gid (snapshot_items c) supps"
  define a1 where "a1 = (case lg of None \<Rightarrow> no_rows | Some groups \<Rightarrow>
      foldl (\<lambda>a e. group_row (g_gid e) (ldap_group_line (users_by_gid (snapshot_items c)) members e) a) no_rows (ldap_groups_by_gid groups))"
  define a2 where "a2 = foldl (item_rows lg members) a1 (snapshot_items c)"
  define L where "L = set (members g)"
  have rows: "snapshot_rows c lg = foldl (\<lambda>a g. group_row g (root_supp_line lg members g) a) a2 supps"
    unfolding snapshot_rows_def Let_def a2_def a1_def members_def supps_def ..
  have no: "good_rows no_rows \<and> listed g L no_rows" by (simp add: good_no_rows) (simp add: listed_def no_rows_def)
  have a1: "good_rows a1 \<and> listed g L a1"
  proof (cases lg)
    case (Some groups)
    have "good_rows (foldl (\<lambda>a e. group_row (g_gid e) (ldap_group_line (users_by_gid (snapshot_items c)) members e) a) no_rows xs)
        \<and> listed g L (foldl (\<lambda>a e. group_row (g_gid e) (ldap_group_line (users_by_gid (snapshot_items c)) members e) a) no_rows xs)" for xs
      by (rule fold_group_rows [OF _ no]) (use ldap_line_shape in \<open>metis L_def members_def\<close>)
    with Some show ?thesis by (simp add: a1_def)
  qed (use no in \<open>simp add: a1_def\<close>)
  have "undisturbed g (snapshot_items c) a1"
    using assms(4)
  proof
    assume "\<exists>groups. lg = Some groups \<and> g \<in> (\<lambda>e. g_gid (snd e)) ` set groups"
    then have "g \<in> seen_gid a1" by (auto simp only: a1_def option.case seen_group_rows gids_of_ldap_groups)
    then show ?thesis by (simp add: undisturbed_def)
  qed (simp add: undisturbed_def)
  from item_rows_fold [OF a1 _ this members_def L_def, of lg] have a2: "good_rows a2 \<and> listed g L a2"
    using assms(3) by (simp add: a2_def claims_def)
  have "good_rows (snapshot_rows c lg) \<and> listed g L (snapshot_rows c lg)"
    unfolding rows by (rule fold_group_rows [OF _ a2]) (use root_supp_shape in \<open>metis L_def members_def\<close>)
  moreover have "g \<in> seen_gid (snapshot_rows c lg)"
    using item_rows_fold_seen(2) [OF assms(1-3)] by (simp add: rows seen_group_rows a2_def)
  moreover have "set (member_logins r) \<subseteq> L"
    using assms(1,3) by (auto simp: L_def members_def set_members_by_gid)
  ultimately show ?thesis by (auto simp: listed_def)
qed



text \<open>
  Without that condition a membership is lost: the private row of a user whose uid is the gid of
  another user's group is written first, with no members, and the group then has no row of its own.
\<close>

definition colliding_cache :: IdCache where
  "colliding_cache =
     [(''anna@R'', \<lparr>r_principal = ''anna@R'', r_name = ''anna'', r_uid = 7, r_gid = 5, r_kind = User,
                   r_source = ''sss'', supplemental_gids = []\<rparr>),
      (''bert@R'', \<lparr>r_principal = ''bert@R'', r_name = ''bert'', r_uid = 6, r_gid = 5, r_kind = User,
                   r_source = ''sss'', supplemental_gids = [7]\<rparr>)]"

lemma private_row_hides_group:
  "wf_cache colliding_cache"
  "snd (build_nss_snapshot colliding_cache None) =
     [''root:x:0:root,daemon,bin'', ''g5:x:5:anna,anna@R,bert,bert@R'', ''u7:x:7:'', ''u6:x:6:'']"
proof -
  show "wf_cache colliding_cache" by code_simp
  have "finish_group (snapshot_rows colliding_cache None) =
     [''root:x:0:root,daemon,bin'', ''g5:x:5:anna,anna@R,bert,bert@R'', ''u7:x:7:'', ''u6:x:6:'']"
    by code_simp
  then show "snd (build_nss_snapshot colliding_cache None) =
     [''root:x:0:root,daemon,bin'', ''g5:x:5:anna,anna@R,bert,bert@R'', ''u7:x:7:'', ''u6:x:6:'']"
    by (simp add: build_nss_snapshot_def Let_def)
qed

section \<open>A principal has its own passwd row\<close>

definition login_of :: "string \<Rightarrow> string" where
  "login_of line = hd (split_on (CHR '':'') line)"

lemma login_of_prefix: "CHR '':'' \<notin> set l \<Longrightarrow> login_of (l @ CHR '':'' # rest) = l"
  by (simp add: login_of_def hd_split_on_append)

lemma login_of_passwd_line: "CHR '':'' \<notin> set l \<Longrightarrow> login_of (passwd_line r l) = l"
  by (simp add: passwd_line_def login_of_prefix)

lemma starts_with_login: "CHR '':'' \<notin> set l \<Longrightarrow> starts_with line (l @ '':'') \<Longrightarrow> login_of line = l"
  by (auto simp: prefix_def login_of_prefix)

lemma utf8_chars_ascii: "list_all is_ascii s \<Longrightarrow> utf8_chars s = map (\<lambda>c. [c]) s"
proof (induction s)
  case (Cons c s)
  have "takeWhile is_continuation s = []" "dropWhile is_continuation s = s"
    using Cons.prems by (cases s; auto simp: is_continuation_def is_ascii_def)+
  then show ?case using Cons by simp
qed simp

lemma at_login_of_safe: "field p \<Longrightarrow> principal_realm_login_for_nss p = p"
proof -
  assume p: "field p"
  then have "list_all is_ascii p" by (auto simp: field_def list_all_iff nss_safe_def is_ascii_def char_class_defs)
  with p show ?thesis
    by (simp add: principal_realm_login_for_nss_def nss_chars_def utf8_chars_ascii Let_def field_def list_all_iff nss_safe_def map_idI comp_def)
qed

lemma sanitize_no_at: "CHR ''@'' \<notin> set (sanitize_for_nss s)"
proof -
  have "\<not> is_ascii_alnum (CHR ''@'')" by (simp add: char_class_defs)
  then show ?thesis by (auto simp: sanitize_for_nss_def nss_chars_def Let_def)
qed

lemma local_part_has_no_at: "CHR ''@'' \<notin> set (principal_local_part p)"
  unfolding principal_local_part_def by (rule split_on_no_sep [of _ _ "trim p"]) simp

lemma local_part_subset: "set (principal_local_part p) \<subseteq> set p"
  using set_trim_subset [of p] hd_split_on_prefix [of "CHR ''@''" "trim p"] set_mono_prefix
  unfolding principal_local_part_def by blast

lemma realm_at: "principal_has_realm p \<Longrightarrow> CHR ''@'' \<in> set p"
  using set_trim_subset [of p] by (auto simp: principal_has_realm_def rsplit_once_Some_iff split: option.splits)

lemma login_shape:
  assumes "l \<in> set (nss_passwd_logins_for r)" and "field (r_principal r)"
  shows "CHR '':'' \<notin> set l" and "CHR ''@'' \<in> set l \<Longrightarrow> l = r_principal r"
proof -
  have "l \<in> {sanitize_for_nss (r_name r), principal_local_part (r_principal r), r_principal r}"
    using assms by (auto simp: nss_passwd_logins_for_def Let_def set_sort_dedup at_login_of_safe split: if_splits)
  then show "CHR '':'' \<notin> set l" "CHR ''@'' \<in> set l \<Longrightarrow> l = r_principal r"
    using assms(2) field_not(1) sanitize_no_at local_part_has_no_at local_part_subset field_sanitize by blast+
qed

lemma principal_is_login:
  assumes "principal_has_realm (r_principal r)" and "field (r_principal r)"
  shows "r_principal r \<in> set (nss_passwd_logins_for r)" and "\<not> is_numeric_login (r_principal r)"
proof -
  have "r_principal r \<noteq> sanitize_for_nss (r_name r)" using realm_at [OF assms(1)] sanitize_no_at by metis
  then show "r_principal r \<in> set (nss_passwd_logins_for r)"
    using assms by (auto simp: nss_passwd_logins_for_def Let_def set_sort_dedup at_login_of_safe)
  show "\<not> is_numeric_login (r_principal r)"
    using realm_at [OF assms(1)] by (fastforce simp: is_numeric_login_def list_all_iff is_ascii_digit_def)
qed

text \<open>The passwd rows, as pairs of an entry and a login.\<close>

definition pw_rows :: "Resolved set \<Rightarrow> nss_rows \<Rightarrow> (Resolved \<times> string) list \<Rightarrow> bool" where
  "pw_rows R a prs =
     (passwd_lines a = map (\<lambda>(r, l). passwd_line r l) prs \<and> distinct (map snd prs) \<and> snd ` set prs = seen_login a
      \<and> (\<forall>(r, l) \<in> set prs. r \<in> R \<and> l \<in> set (nss_passwd_logins_for r)))"

definition pw_ok :: "Resolved set \<Rightarrow> nss_rows \<Rightarrow> bool" where
  "pw_ok R a = (\<exists>prs. pw_rows R a prs)"

lemma pw_ok_row:
  assumes "pw_ok R a" and "r \<in> R" and "l \<in> set (nss_passwd_logins_for r)"
  shows "pw_ok R (passwd_row r a l)"
proof (cases "\<not> is_numeric_login l \<and> l \<notin> seen_login a")
  case True
  obtain prs where "pw_rows R a prs" using assms(1) by (auto simp: pw_ok_def)
  with True assms(2,3) have "pw_rows R (passwd_row r a l) (prs @ [(r, l)])"
    by (auto simp: pw_rows_def passwd_row_def)
  then show ?thesis by (auto simp: pw_ok_def)
qed (use assms(1) in \<open>auto simp: passwd_row_def\<close>)

lemma pw_ok_fold: "pw_ok R a \<Longrightarrow> r \<in> R \<Longrightarrow> set ls \<subseteq> set (nss_passwd_logins_for r) \<Longrightarrow> pw_ok R (foldl (passwd_row r) a ls)"
  by (induction ls arbitrary: a) (simp_all add: pw_ok_row)

lemma seen_login_fold: "seen_login (foldl (passwd_row r) a ls) = seen_login a \<union> {l \<in> set ls. \<not> is_numeric_login l}"
  by (induction ls arbitrary: a) (auto simp: passwd_row_def)

lemma pw_frame: "seen_login b = seen_login a \<Longrightarrow> passwd_lines b = passwd_lines a \<Longrightarrow> pw_ok R b = pw_ok R a"
  by (simp add: pw_ok_def pw_rows_def)

lemma group_rows_frame:
  "seen_login (foldl (\<lambda>a x. group_row (gd x) (line x) a) a xs) = seen_login a"
  "passwd_lines (foldl (\<lambda>a x. group_row (gd x) (line x) a) a xs) = passwd_lines a"
  by (induction xs arbitrary: a) simp_all

lemma private_row_frame: "seen_login (private_row r a) = seen_login a" "passwd_lines (private_row r a) = passwd_lines a"
  by (simp_all add: private_row_def)

lemma item_rows_passwd:
  "seen_login (item_rows lg m a r) =
     (if is_numeric_local_principal (r_principal r) then seen_login a
      else seen_login (foldl (passwd_row r) a (nss_passwd_logins_for r)))"
  "passwd_lines (item_rows lg m a r) =
     (if is_numeric_local_principal (r_principal r) then passwd_lines a
      else passwd_lines (foldl (passwd_row r) a (nss_passwd_logins_for r)))"
  unfolding item_rows_def Let_def by (simp_all only: group_rows_frame private_row_frame split: if_split) simp_all

lemma pw_ok_items:
  "pw_ok R a \<Longrightarrow> set rs \<subseteq> R \<Longrightarrow> pw_ok R (foldl (item_rows lg m) a rs)
     \<and> (\<forall>r \<in> set rs. \<not> is_numeric_local_principal (r_principal r)
          \<longrightarrow> {l \<in> set (nss_passwd_logins_for r). \<not> is_numeric_login l} \<subseteq> seen_login (foldl (item_rows lg m) a rs))"
proof (induction rs arbitrary: a rule: rev_induct)
  case (snoc r rs)
  define b where "b = foldl (item_rows lg m) a rs"
  have "pw_ok R (foldl (passwd_row r) b (nss_passwd_logins_for r))" "pw_ok R b"
    using snoc by (auto simp: b_def intro: pw_ok_fold)
  then have "pw_ok R (item_rows lg m b r)"
    using pw_frame item_rows_passwd [of lg m b r] by (metis (full_types))
  moreover have "\<forall>r \<in> set rs. \<not> is_numeric_local_principal (r_principal r)
      \<longrightarrow> {l \<in> set (nss_passwd_logins_for r). \<not> is_numeric_login l} \<subseteq> seen_login b" using snoc by (simp add: b_def)
  ultimately show ?case by (fastforce simp: b_def [symmetric] item_rows_passwd seen_login_fold)
qed simp

lemma snapshot_rows_passwd:
  assumes "r \<in> set (snapshot_items c)" and "\<not> is_numeric_local_principal (r_principal r)"
  shows "pw_ok (set (snapshot_items c)) (snapshot_rows c lg)
    \<and> {l \<in> set (nss_passwd_logins_for r). \<not> is_numeric_login l} \<subseteq> seen_login (snapshot_rows c lg)"
proof -
  define supps where "supps = root_supplemental_gids_from_cache c"
  define members where "members = members_by_gid (snapshot_items c) supps"
  define a1 where "a1 = (case lg of None \<Rightarrow> no_rows | Some groups \<Rightarrow>
      foldl (\<lambda>a e. group_row (g_gid e) (ldap_group_line (users_by_gid (snapshot_items c)) members e) a) no_rows (ldap_groups_by_gid groups))"
  have rows: "snapshot_rows c lg =
      foldl (\<lambda>a g. group_row g (root_supp_line lg members g) a) (foldl (item_rows lg members) a1 (snapshot_items c)) supps"
    unfolding snapshot_rows_def Let_def a1_def members_def supps_def ..
  have "pw_ok R no_rows" for R by (auto simp: pw_ok_def pw_rows_def no_rows_def)
  moreover have "seen_login a1 = seen_login no_rows" "passwd_lines a1 = passwd_lines no_rows"
    by (cases lg; simp add: a1_def group_rows_frame)+
  ultimately have "pw_ok R a1" for R using pw_frame by blast
  from pw_ok_items [OF this subset_refl] show ?thesis
    using assms unfolding rows pw_frame [OF group_rows_frame [where gd = "\<lambda>g. g"]]
    by (auto simp: group_rows_frame [where gd = "\<lambda>g. g"])
qed

lemma filter_drop_first:
  "(\<And>x. \<not> Q x \<Longrightarrow> \<not> P x) \<Longrightarrow> filter P (takeWhile Q xs @ tl (dropWhile Q xs)) = filter P xs"
  by (induction xs) auto

lemma finish_passwd_rows:
  assumes "p \<noteq> ''root''" and "p \<noteq> ''nobody''"
  shows "filter (\<lambda>l. login_of l = p) (finish_passwd ls) = filter (\<lambda>l. login_of l = p) ls"
proof -
  have root: "login_of exact_root_passwd = ''root''" by (simp add: exact_root_passwd_def login_of_def)
  have nobody: "login_of (''nobody:x:'' @ s) = ''nobody''" for s by (simp add: login_of_def split: list.split)
  have "starts_with l ''root:'' \<Longrightarrow> login_of l = ''root''" for l using starts_with_login [of "''root''" l] by simp
  with assms(1) have "filter (\<lambda>l. login_of l = p) (takeWhile (\<lambda>l. \<not> starts_with l ''root:'') ls
      @ tl (dropWhile (\<lambda>l. \<not> starts_with l ''root:'') ls)) = filter (\<lambda>l. login_of l = p) ls"
    by (intro filter_drop_first) auto
  with assms root show ?thesis
    unfolding finish_passwd_def Let_def by (simp only: if_distrib [of "filter _"] filter_append filter.simps nobody if_cancel) simp
qed

lemma principal_row:
  assumes "wf_cache c" and "(k, r) \<in> set c" and "principal_has_realm (r_principal r)"
    and "\<not> is_numeric_local_principal (r_principal r)" and "\<forall>(k', r') \<in> set c. field (r_principal r')"
  shows "filter (\<lambda>l. login_of l = r_principal r) (fst (build_nss_snapshot c lg)) = [passwd_line r (r_principal r)]"
proof -
  have items: "r' \<in> set (snapshot_items c) \<Longrightarrow> \<exists>k'. (k', r') \<in> set c" for r' by (auto simp: snapshot_items_def)
  have "r \<in> set (snapshot_items c)" using assms(2,3) by (force simp: snapshot_items_def)
  from snapshot_rows_passwd [OF this assms(4), of lg] obtain prs where
    prs: "pw_rows (set (snapshot_items c)) (snapshot_rows c lg) prs"
    and seen: "r_principal r \<in> seen_login (snapshot_rows c lg)"
    using principal_is_login [OF assms(3)] assms(2,5) by (auto simp: pw_ok_def)
  have at: "CHR ''@'' \<in> set (r_principal r)" using assms(3) by (rule realm_at)
  have own: "l = r_principal r \<longrightarrow> r' = r" and colon: "CHR '':'' \<notin> set l" if "(r', l) \<in> set prs" for r' l
  proof -
    have r': "r' \<in> set (snapshot_items c)" "l \<in> set (nss_passwd_logins_for r')" using that prs by (auto simp: pw_rows_def)
    then obtain k' where k': "(k', r') \<in> set c" using items by blast
    with r' assms(5) have "CHR '':'' \<notin> set l" "CHR ''@'' \<in> set l \<Longrightarrow> l = r_principal r'" using login_shape by auto
    moreover have "r_principal r = r_principal r' \<Longrightarrow> r' = r"
      using wf_cache_principals [OF assms(1)] assms(2) k' by (auto simp: distinct_map inj_on_def) (metis snd_conv)
    ultimately show "l = r_principal r \<longrightarrow> r' = r" "CHR '':'' \<notin> set l" using at by auto
  qed
  have "filter (\<lambda>l. login_of l = r_principal r) (passwd_lines (snapshot_rows c lg)) =
      map (\<lambda>(r, l). passwd_line r l) (filter (\<lambda>x. snd x = r_principal r) prs)"
    using prs colon by (auto simp: pw_rows_def filter_map login_of_passwd_line intro!: arg_cong [of _ _ "map _"] filter_cong)
  also have "filter (\<lambda>x. snd x = r_principal r) prs = [(r, r_principal r)]"
  proof -
    obtain us vs r' where split: "prs = us @ (r', r_principal r) # vs"
    proof -
      have "r_principal r \<in> snd ` set prs" using seen prs by (simp add: pw_rows_def)
      then obtain r' where "(r', r_principal r) \<in> set prs" by auto
      then show thesis using split_list that by metis
    qed
    then have "r' = r" "r_principal r \<notin> snd ` set us" "r_principal r \<notin> snd ` set vs" using own prs by (auto simp: pw_rows_def)
    moreover from this have "filter (\<lambda>x. snd x = r_principal r) us = []" "filter (\<lambda>x. snd x = r_principal r) vs = []"
      unfolding filter_empty_conv by force+
    ultimately show ?thesis unfolding split by simp
  qed
  finally show ?thesis using at by (simp add: build_nss_snapshot_def Let_def) (subst finish_passwd_rows, auto)
qed



section \<open>The order of a hash map does not matter\<close>

lemma sort_distinct_perm: "mset xs = mset ys \<Longrightarrow> sort xs = sort ys"
  for xs ys :: "'a::linorder list"
  by (metis mset_sort properties_for_sort sorted_sort)

lemma root_supps_perm:
  assumes "mset c = mset c'"
  shows "root_supplemental_gids_from_cache c = root_supplemental_gids_from_cache c'"
proof -
  define push where "push = (\<lambda>supps g. if g \<noteq> 0 then push_new g supps else supps :: 32 word list)"
  define gs where "gs = (\<lambda>c :: IdCache. concat (map (\<lambda>(_, r). if (r_uid r = 0 \<or> r_gid r = 0) \<and> principal_has_realm (r_principal r)
                              then supplemental_gids r else []) c))"
  have "distinct (foldl push acc xs) \<and> set (foldl push acc xs) = set acc \<union> {g \<in> set xs. g \<noteq> 0}" if "distinct acc" for acc xs
    using that by (induction xs arbitrary: acc) (auto simp: push_def push_new_def)
  then have "mset (foldl push [] (gs c)) = mset (foldl push [] (gs c'))"
    using mset_eq_setD [OF assms] by (simp add: set_eq_iff_mset_eq_distinct [symmetric] gs_def)
  then show ?thesis unfolding root_supplemental_gids_from_cache_def push_def gs_def by (rule sort_distinct_perm)
qed

lemma gname_perm:
  assumes "distinct (map fst groups)" and "mset groups = mset groups'"
  shows "gname_for_gid g (Some groups) fb = gname_for_gid g (Some groups') fb"
  using sorted_listing_perm [OF assms] by (simp add: gname_for_gid_def)

lemma nss_snapshot_order:
  assumes "wf_cache c" and "mset c = mset c'" and "distinct (map fst groups)" and "mset groups = mset groups'"
  shows "build_nss_snapshot c (Some groups) = build_nss_snapshot c' (Some groups')"
    and "build_nss_snapshot c None = build_nss_snapshot c' None"
proof -
  have items: "snapshot_items c = snapshot_items c'"
    unfolding snapshot_items_def using assms(1,2) by (rule sort_principal_perm)
  have supps: "root_supplemental_gids_from_cache c = root_supplemental_gids_from_cache c'" using assms(2) by (rule root_supps_perm)
  have gn: "gname_for_gid g (Some groups) fb = gname_for_gid g (Some groups') fb" for g fb using assms(3,4) by (rule gname_perm)
  then have "claimed_line (Some groups) = claimed_line (Some groups')" "root_supp_line (Some groups) = root_supp_line (Some groups')"
    by (intro ext; simp add: claimed_line_def root_supp_line_def)+
  moreover from this(1) have "item_rows (Some groups) = item_rows (Some groups')" by (intro ext) (simp add: item_rows_def)
  moreover have "ldap_groups_by_gid groups = ldap_groups_by_gid groups'"
    using sorted_listing_perm [OF assms(3,4), of "\<lambda>_. True"] by (simp add: ldap_groups_by_gid_def)
  ultimately show "build_nss_snapshot c (Some groups) = build_nss_snapshot c' (Some groups')"
    by (simp add: build_nss_snapshot_def snapshot_rows_def items supps)
  show "build_nss_snapshot c None = build_nss_snapshot c' None"
    by (simp add: build_nss_snapshot_def snapshot_rows_def items supps)
qed

text \<open>
  The rows are a function of the entries alone: whatever order the hash maps of the cache and
  of the directory's groups iterate in, the same lines come out in the same order, so a rebuild
  from unchanged data never rewrites the files.
\<close>

theorem nss_snapshot_order_free:
  assumes "wf_cache c" and "mset c = mset c'" and "distinct (map fst groups)" and "mset groups = mset groups'"
  shows "build_nss_snapshot c (Some groups) = build_nss_snapshot c' (Some groups')
         \<and> build_nss_snapshot c None = build_nss_snapshot c' None"
  using nss_snapshot_order [OF assms] by simp

definition sample_groups :: "(string \<times> PosixGroupEntry) list" where
  "sample_groups =
     [(''family'', \<lparr>g_gid = 3000, g_display = ''family'', g_members = [''alice'', ''bob'']\<rparr>),
      (''media'', \<lparr>g_gid = 3004, g_display = ''media'', g_members = []\<rparr>)]"

theorem nss_snapshot_order_free_witness:
  "build_nss_snapshot sample_cache (Some sample_groups) = build_nss_snapshot (rev sample_cache) (Some (rev sample_groups))
   \<and> build_nss_snapshot sample_cache None = build_nss_snapshot (rev sample_cache) None"
  by (rule nss_snapshot_order_free [OF sample_cache_ok(1)]) (simp_all add: sample_groups_def)

section \<open>The files\<close>

lemma write_atomic_Ok:
  "write_atomic_if_changed io p content fs = (Ok w, fs') \<Longrightarrow> fs' = fs(p := Some content) \<and> (w \<longleftrightarrow> \<not> (can_read io p \<and> fs p = Some content))"
  by (auto simp: write_atomic_if_changed_def split: if_splits)

lemma write_atomic_frame:
  "write_atomic_if_changed io p content fs = (res, fs') \<Longrightarrow> q \<noteq> p \<Longrightarrow> fs' q = fs q"
  by (auto simp: write_atomic_if_changed_def split: if_splits)

lemma write_stores_Ok:
  "write_stores io ps w0 fs = (Ok w, fs') \<Longrightarrow> distinct (map fst ps)
   \<Longrightarrow> (\<forall>(p, content) \<in> set ps. fs' p = Some content) \<and> (\<forall>q. q \<notin> fst ` set ps \<longrightarrow> fs' q = fs q)"
proof (induction ps arbitrary: w0 fs)
  case (Cons pc ps)
  obtain p content where pc: "pc = (p, content)" by (cases pc)
  from Cons.prems(1) obtain w1 fs1 where w1: "write_atomic_if_changed io p content fs = (Ok w1, fs1)"
      and rest: "write_stores io ps (w0 \<or> w1) fs1 = (Ok w, fs')"
    by (auto simp: pc split: prod.splits sum.splits)
  then have "fs1 = fs(p := Some content)" using write_atomic_Ok by blast
  then show ?case using Cons.IH [OF rest] Cons.prems(2) by (auto simp: pc)
qed simp

lemma write_stores_same:
  "\<forall>(p, content) \<in> set ps. can_read io p \<and> fs p = Some content \<Longrightarrow> write_stores io ps w fs = (Ok w, fs)"
  by (induction ps) (auto simp: write_atomic_if_changed_def)

lemma write_stores_wrote: "write_stores io ps True fs = (Ok w, fs') \<Longrightarrow> w"
  by (induction ps arbitrary: fs) (auto split: prod.splits sum.splits)

text \<open>
  After a successful pass all four stores hold the rows of the cache, in the two formats the
  server reads, and a second pass over an unchanged cache writes nothing and says so, even when
  the hash maps have been rebuilt in another order.
\<close>

theorem materialize_idempotent:
  assumes "materialize_nss_wrappers_at io c (Some groups) fs = (Ok w, fs')" and "wf_cache c" and "mset c' = mset c"
    and "distinct (map fst groups)" and "mset groups' = mset groups" and "\<forall>p. can_read io p"
  shows "materialize_nss_wrappers_at io c' (Some groups') fs' = (Ok False, fs')
     \<and> fs' NssPasswd = fs' ExtraPasswd \<and> fs' NssGroup = fs' ExtraGroup
     \<and> fs' NssPasswd = Some (file_text (fst (build_nss_snapshot c (Some groups))))
     \<and> fs' NssGroup = Some (file_text (snd (build_nss_snapshot c (Some groups))))"
proof -
  define ps where "ps = (case build_nss_snapshot c (Some groups) of (pw, gr) \<Rightarrow>
     [(NssPasswd, file_text pw), (NssGroup, file_text gr), (ExtraPasswd, file_text pw), (ExtraGroup, file_text gr)])"
  have b': "build_nss_snapshot c' (Some groups') = build_nss_snapshot c (Some groups)"
    using nss_snapshot_order(1) assms(2-5) by metis
  have m: "materialize_nss_wrappers_at io c (Some groups) = write_stores io ps False"
    "materialize_nss_wrappers_at io c' (Some groups') = write_stores io ps False"
    by (intro ext; simp add: materialize_nss_wrappers_at_def ps_def b' split: prod.split)+
  moreover have "distinct (map fst ps)" by (simp add: ps_def split: prod.split)
  ultimately have held: "\<forall>(p, content) \<in> set ps. fs' p = Some content"
    using assms(1) write_stores_Ok by metis
  with assms(6) have "write_stores io ps False fs' = (Ok False, fs')" by (intro write_stores_same) auto
  with m held show ?thesis by (auto simp: ps_def split: prod.splits)
qed

definition all_io :: store_io where
  "all_io = \<lparr>can_read = \<lambda>_. True, can_write = \<lambda>_. True\<rparr>"

lemma materialize_all_io: "\<exists>w fs'. materialize_nss_wrappers_at all_io c lg fs = (Ok w, fs')"
proof -
  have "\<exists>w fs'. write_stores all_io ps w0 fs = (Ok w, fs')" for ps w0 fs
    by (induction ps arbitrary: w0 fs) (auto simp: write_atomic_if_changed_def all_io_def)
  then show ?thesis by (simp only: materialize_nss_wrappers_at_def split: prod.split) blast
qed

theorem materialize_idempotent_witness:
  "\<exists>w fs'. materialize_nss_wrappers_at all_io sample_cache (Some sample_groups) (\<lambda>_. None) = (Ok w, fs')
     \<and> materialize_nss_wrappers_at all_io (rev sample_cache) (Some (rev sample_groups)) fs' = (Ok False, fs')"
proof -
  obtain w fs' where m: "materialize_nss_wrappers_at all_io sample_cache (Some sample_groups) (\<lambda>_. None) = (Ok w, fs')"
    using materialize_all_io by blast
  have "distinct (map fst sample_groups)" "\<forall>p. can_read all_io p" by (simp_all add: sample_groups_def all_io_def)
  then have "materialize_nss_wrappers_at all_io (rev sample_cache) (Some (rev sample_groups)) fs' = (Ok False, fs')"
    using materialize_idempotent [OF m sample_cache_ok(1), of "rev sample_cache" "rev sample_groups"] by simp
  with m show ?thesis by blast
qed

section \<open>Repairing one membership\<close>

lemma parsed_row:
  assumes "CHR '':'' \<notin> set a" "ws_width a = 0" "\<not> starts_with a ''#''" "CHR '':'' \<notin> set b" "field m"
  shows "row_of_gid g (a @ '':x:'' @ b @ '':'' @ pre @ m) \<longleftrightarrow> parse_u32 b = Some g"
    and "CHR '':'' \<notin> set pre \<Longrightarrow> row_members (a @ '':x:'' @ b @ '':'' @ pre @ m) = pre @ m"
proof -
  define l where "l = a @ '':x:'' @ b @ '':'' @ pre @ m"
  have m: "m \<noteq> []" "inked (last m)" "CHR '':'' \<notin> set m"
    using assms(5) nss_safe_inked field_not(1) by (auto simp: field_def list_all_iff)
  have "inked (CHR '':'')" by (simp add: inked_def is_ascii_def ws1_def)
  then have "ws_width l = 0" using ws_width_barrier [of "CHR '':''" a] assms(2) by (simp add: l_def)
  moreover have "ws_width_rev (rev l) = 0"
    using m(1,2) by (cases m rule: rev_cases) (auto simp: l_def ws_width_rev_inked)
  ultimately have t: "trim l = l" by (simp add: trim_id_iff)
  have parts: "split_on (CHR '':'') l = a # ''x'' # b # split_on (CHR '':'') (pre @ m)"
    using assms(1,4) by (simp add: l_def split_on_append_sep)
  have "\<not> starts_with l ''#''" using assms(3) by (cases a) (auto simp: l_def)
  moreover have "l \<noteq> []" by (simp add: l_def)
  ultimately have "row_of_gid g l \<longleftrightarrow> parse_u32 b = Some g"
    unfolding row_of_gid_def t parts Let_def by (simp add: Suc_le_eq)
  then show "row_of_gid g (a @ '':x:'' @ b @ '':'' @ pre @ m) \<longleftrightarrow> parse_u32 b = Some g" by (simp only: l_def)
  have "CHR '':'' \<notin> set pre \<Longrightarrow> row_members l = pre @ m"
    using m(3) unfolding row_members_def t parts Let_def by (simp add: split_on_single)
  then show "CHR '':'' \<notin> set pre \<Longrightarrow> row_members (a @ '':x:'' @ b @ '':'' @ pre @ m) = pre @ m" unfolding l_def .
qed

lemma split_on_last: "CHR '','' \<notin> set m \<Longrightarrow> m \<in> set (split_on (CHR '','') (pre @ '','' @ m))"
  by (simp add: split_on_append split_on_single)

text \<open>The row after the repair is a row of the same gid that lists the login.\<close>

lemma ensure_in_row_lists:
  assumes "row_of_gid g line" and "field login"
  shows "row_of_gid g (ensure_in_row g login line)"
    and "login \<in> set (split_on (CHR '','') (row_members (ensure_in_row g login line)))"
proof -
  have "row_of_gid g (ensure_in_row g login line) \<and> login \<in> set (split_on (CHR '','') (row_members (ensure_in_row g login line)))"
  proof (cases "lacks_login g login line")
    case True
    obtain a x b rest where parts: "split_on (CHR '':'') (trim line) = a # x # b # rest"
      using assms(1) by (auto simp: row_of_gid_def Let_def numeral_3_eq_3 Suc_le_length_iff)
    have t: "\<not> starts_with (trim line) ''#''" "parse_u32 b = Some g" using assms(1) parts by (auto simp: row_of_gid_def Let_def)
    have colon: "CHR '':'' \<notin> set a" "CHR '':'' \<notin> set b" "CHR '':'' \<notin> set (row_members line)"
      using split_on_no_sep [of _ "CHR '':''" "trim line"] parts by (auto simp: row_members_def Let_def Suc_le_length_iff)
    have line: "trim line = a @ CHR '':'' # join '':'' (x # b # rest)"
      using join_split_on [of "CHR '':''" "trim line"] parts by simp
    moreover have "inked (CHR '':'')" by (simp add: inked_def is_ascii_def ws1_def)
    ultimately have "ws_width a = 0" using ws_width_trim [of line] ws_width_barrier by metis
    moreover have "\<not> starts_with a ''#''" using t(1) line by (auto simp: prefix_def)
    ultimately have row: "row_of_gid g (a @ '':x:'' @ b @ '':'' @ pre @ login)"
      "CHR '':'' \<notin> set pre \<Longrightarrow> row_members (a @ '':x:'' @ b @ '':'' @ pre @ login) = pre @ login" for pre
      using parsed_row [of a b login] colon assms(2) t(2) by auto
    define pre where "pre = (if row_members line = [] then [] else row_members line @ '','')"
    have "CHR '':'' \<notin> set pre" using colon(3) by (simp add: pre_def)
    moreover have "ensure_in_row g login line = a @ '':x:'' @ b @ '':'' @ pre @ login"
      using True by (simp add: ensure_in_row_def parts pre_def)
    moreover have "login \<in> set (split_on (CHR '','') (pre @ login))"
      using split_on_last [of login "row_members line"] field_not(2) [OF assms(2)] by (simp add: pre_def split_on_single)
    ultimately show ?thesis using row [of pre] by simp
  qed (use assms in \<open>auto simp: ensure_in_row_def lacks_login_def\<close>)
  then show "row_of_gid g (ensure_in_row g login line)"
    "login \<in> set (split_on (CHR '','') (row_members (ensure_in_row g login line)))" by blast+
qed

text \<open>Texts without a carriage return are read back line by line.\<close>

definition plain :: "string \<Rightarrow> bool" where
  "plain s = (line_feed \<notin> set s \<and> CHR 0x0D \<notin> set s)"

lemma plain_simps [simp]: "plain []" "plain (a @ b) \<longleftrightarrow> plain a \<and> plain b"
  "plain (c # s) \<longleftrightarrow> c \<noteq> line_feed \<and> c \<noteq> CHR 0x0D \<and> plain s"
  by (auto simp: plain_def)

lemma plain_subset: "plain s \<Longrightarrow> set t \<subseteq> set s \<Longrightarrow> plain t"
  by (auto simp: plain_def)

lemma plain_field: "field s \<Longrightarrow> plain s"
  by (auto simp: plain_def field_def list_all_iff nss_safe_def char_class_defs line_feed_def)

lemma plain_strip_cr: "plain s \<Longrightarrow> strip_cr s = s"
proof -
  assume "plain s"
  moreover have "byte y = 13 \<Longrightarrow> y = CHR 0x0D" for y using byte_inject [of y "CHR 0x0D"] by simp
  ultimately show ?thesis by (cases s rule: rev_cases) (auto simp: strip_cr_def plain_def)
qed

lemma split_on_subset: "p \<in> set (split_on c s) \<Longrightarrow> set p \<subseteq> set s"
  by (induction s arbitrary: p) (fastforce split: if_splits list.splits)+

lemma plain_split: "plain s \<Longrightarrow> p \<in> set (split_on c s) \<Longrightarrow> plain p"
  using plain_subset split_on_subset by blast

lemma plain_trim: "plain s \<Longrightarrow> plain (trim s)"
  using plain_subset set_trim_subset by blast

lemma plain_lines: "CHR 0x0D \<notin> set s \<Longrightarrow> l \<in> set (lines s) \<Longrightarrow> plain l"
proof -
  assume "CHR 0x0D \<notin> set s" and "l \<in> set (lines s)"
  moreover have "plain p" if "p \<in> set (split_on line_feed s)" for p
    using that split_on_no_sep split_on_subset [OF that] \<open>CHR 0x0D \<notin> set s\<close> by (auto simp: plain_def)
  ultimately show "plain l"
    using plain_strip_cr by (auto simp: lines_def Let_def dest!: in_set_butlastD split: if_splits)
qed

lemma lines_join: "out \<noteq> [] \<Longrightarrow> \<forall>l \<in> set out. plain l \<Longrightarrow> lines (join [line_feed] out @ [line_feed]) = out"
proof -
  assume "out \<noteq> []" and "\<forall>l \<in> set out. plain l"
  moreover have "out \<noteq> [] \<Longrightarrow> join [line_feed] out @ [line_feed] = concat (map (\<lambda>l. l @ [line_feed]) out)"
    by (induction out rule: induct_list012) simp_all
  ultimately show ?thesis using lines_terminated [of out] plain_strip_cr by (simp add: plain_def)
qed

lemma plain_part: "plain l \<Longrightarrow> i < length (split_on c (trim l)) \<Longrightarrow> plain (split_on c (trim l) ! i)"
  by (rule plain_split [OF plain_trim, of _ _ c]) auto

lemma plain_row_members: "plain l \<Longrightarrow> plain (row_members l)"
  by (auto simp: row_members_def Let_def plain_part)

lemma plain_ensure_in_row:
  assumes "plain l" and "field login"
  shows "plain (ensure_in_row g login l)"
proof (cases "lacks_login g login l")
  case True
  then have "length (split_on (CHR '':'') (trim l)) \<ge> 3" by (auto simp: lacks_login_def row_of_gid_def Let_def)
  then have "plain (split_on (CHR '':'') (trim l) ! 0)" "plain (split_on (CHR '':'') (trim l) ! 2)"
    by (auto intro!: plain_part [OF assms(1)])
  then show ?thesis
    using True plain_row_members [OF assms(1)] plain_field [OF assms(2)] by (simp add: ensure_in_row_def Let_def) (simp add: line_feed_def)
qed (use assms(1) in \<open>simp add: ensure_in_row_def\<close>)

lemma hd_splitn: "hd (splitn (Suc (Suc n)) c s) = hd (split_on c s)"
  by (auto simp: split_once_Some_iff split_once_None_iff split_on_single hd_split_on_append split: option.split)

definition row_name :: "string \<Rightarrow> bool" where
  "row_name n = (plain n \<and> CHR '':'' \<notin> set n \<and> ws_width n = 0 \<and> \<not> starts_with n ''#'')"

lemma row_name_field: "field n \<Longrightarrow> row_name n"
  using plain_field [of n] field_not(1) [of n] nss_safe_inked nss_safe_not(3)
  by (cases n) (auto simp: row_name_def field_def ws_width_inked)

lemma row_name_hd:
  assumes "plain l" and "\<not> starts_with (trim l) ''#''"
  shows "row_name (hd (split_on (CHR '':'') (trim l)))"
proof -
  have "plain (hd (split_on (CHR '':'') (trim l)))" by (rule plain_split [OF plain_trim [OF assms(1)], of _ "CHR '':''"]) simp
  moreover have "CHR '':'' \<notin> set (hd (split_on (CHR '':'') (trim l)))" by (rule split_on_no_sep [of _ _ "trim l"]) simp
  moreover have "prefix (hd (split_on (CHR '':'') (trim l))) (trim l)" by (rule hd_split_on_prefix)
  ultimately show ?thesis
    using assms(2) ws_width_prefix ws_width_trim by (auto simp: row_name_def intro: prefix_order.trans)
qed

lemma row_name_stub:
  assumes "\<forall>p content. fs p = Some content \<longrightarrow> CHR 0x0D \<notin> set content"
  shows "row_name (stub_name io fs g)"
proof -
  have "row_name n" if found: "find_row_name io fs g p = Some n" for n p
  proof -
    obtain content l where "fs p = Some content" "l \<in> set (lines content)" "\<not> starts_with (trim l) ''#''"
        "n = hd (splitn 4 (CHR '':'') (trim l))"
      using found by (auto simp: find_row_name_def Let_def split: if_splits option.splits dest: find_SomeD)
    then show ?thesis
      using assms plain_lines [of content l] row_name_hd [of l] hd_splitn [of "Suc (Suc 0)" "CHR '':''" "trim l"]
      by (simp add: numeral_eq_Suc del: splitn.simps)
  qed
  then show ?thesis
    by (auto simp: stub_name_def opt_or_def unwrap_or_def row_name_field split: option.splits)
qed

definition lists_login :: "32 word \<Rightarrow> string \<Rightarrow> string option \<Rightarrow> bool" where
  "lists_login g login file =
     (\<exists>content. file = Some content \<and> (\<exists>l \<in> set (lines content). row_of_gid g l)
        \<and> (\<forall>l \<in> set (lines content). row_of_gid g l \<longrightarrow> login \<in> set (split_on (CHR '','') (row_members l))))"

lemma ensure_in_file_lists:
  assumes "ensure_in_file io g login p fs = (Ok (), fs')" and "field login"
    and "\<forall>p content. fs p = Some content \<longrightarrow> CHR 0x0D \<notin> set content"
  shows "lists_login g login (fs' p)" and "\<forall>q. q \<noteq> p \<longrightarrow> fs' q = fs q"
    and "\<forall>q content. fs' q = Some content \<longrightarrow> CHR 0x0D \<notin> set content"
proof -
  define ls where "ls = lines (unwrap_or (fs p) [])"
  define out where "out = ensured_lines g login (stub_name io fs g) ls"
  define needed where "needed = (list_ex (lacks_login g login) ls \<or> \<not> list_ex (row_of_gid g) ls)"
  have plain_ls: "\<forall>l \<in> set ls. plain l" using assms(3) plain_lines by (cases "fs p") (auto simp: ls_def lines_def)
  have stub: "row_name (stub_name io fs g)" using assms(3) by (rule row_name_stub)
  have stub_row: "row_of_gid g (stub_name io fs g @ '':x:'' @ show_word g @ '':'' @ login)"
      "row_members (stub_name io fs g @ '':x:'' @ show_word g @ '':'' @ login) = login"
    using parsed_row [where a = "stub_name io fs g" and b = "show_word g" and m = login and pre = "[]"] stub assms(2) field_not(1) [OF field_digits [of g]]
    by (simp_all add: row_name_def parse_u32_show)
  have plain_out: "\<forall>l \<in> set out. plain l"
    using plain_ls stub plain_ensure_in_row [OF _ assms(2)] plain_field [OF assms(2)] plain_field [OF field_digits [of g]]
    by (auto simp: out_def ensured_lines_def row_name_def) (auto simp: line_feed_def)
  have listed: "(\<exists>l \<in> set out. row_of_gid g l) \<and> (\<forall>l \<in> set out. row_of_gid g l \<longrightarrow> login \<in> set (split_on (CHR '','') (row_members l)))"
  proof
    show "\<exists>l \<in> set out. row_of_gid g l"
      using stub_row(1) ensure_in_row_lists(1) [OF _ assms(2)] by (fastforce simp: out_def ensured_lines_def list_ex_iff)
    have "login \<in> set (split_on (CHR '','') (row_members (ensure_in_row g login l)))" if "row_of_gid g (ensure_in_row g login l)" for l
      using that ensure_in_row_lists(2) [OF _ assms(2)] by (cases "row_of_gid g l") (auto simp: ensure_in_row_def lacks_login_def)
    then show "\<forall>l \<in> set out. row_of_gid g l \<longrightarrow> login \<in> set (split_on (CHR '','') (row_members l))"
      using stub_row(2) field_not(2) [OF assms(2)] by (auto simp: out_def ensured_lines_def split_on_single)
  qed
  have "out \<noteq> []" using listed by auto
  consider (same) "\<not> needed" "fs' = fs" | (new) "fs' = fs(p := Some (join [line_feed] out @ [line_feed]))"
    using assms(1) by (auto simp: ensure_in_file_def Let_def ls_def [symmetric] out_def [symmetric] needed_def [symmetric]
        dest!: write_atomic_Ok split: if_splits prod.splits sum.splits)
  then have "lists_login g login (fs' p) \<and> (\<forall>q. q \<noteq> p \<longrightarrow> fs' q = fs q)
    \<and> (\<forall>q content. fs' q = Some content \<longrightarrow> CHR 0x0D \<notin> set content)"
  proof cases
    case same
    then obtain content where "fs p = Some content" by (cases "fs p") (auto simp: needed_def ls_def lines_def)
    with same assms(3) show ?thesis
      by (auto simp: lists_login_def needed_def ls_def list_ex_iff lacks_login_def)
  next
    case new
    have "lists_login g login (fs' p)" using new listed lines_join [OF \<open>out \<noteq> []\<close> plain_out] by (simp add: lists_login_def)
    moreover have "CHR 0x0D \<notin> set (join [line_feed] out @ [line_feed])"
      using set_join [of "[line_feed]" out] plain_out by (auto simp: plain_def line_feed_def)
    ultimately show ?thesis using new assms(3) by auto
  qed
  then show "lists_login g login (fs' p)" "\<forall>q. q \<noteq> p \<longrightarrow> fs' q = fs q"
    "\<forall>q content. fs' q = Some content \<longrightarrow> CHR 0x0D \<notin> set content" by blast+
qed

text \<open>
  After a successful repair both group files have a row for the gid and every such row lists
  the login, whatever rows the files had, so the membership is visible to a lookup of the group list.
\<close>

theorem ensure_member_listed:
  assumes "ensure_nss_group_member_login io g login fs = (Ok (), fs')" and "field (trim login)"
    and "\<forall>p content. fs p = Some content \<longrightarrow> CHR 0x0D \<notin> set content"
  shows "lists_login g (trim login) (fs' NssGroup) \<and> lists_login g (trim login) (fs' ExtraGroup)
     \<and> fs' NssPasswd = fs NssPasswd \<and> fs' ExtraPasswd = fs ExtraPasswd"
proof -
  have "trim login \<noteq> []" using assms(2) by (simp add: field_def)
  with assms(1) obtain fs1 where 1: "ensure_in_file io g (trim login) NssGroup fs = (Ok (), fs1)"
    and 2: "ensure_in_file io g (trim login) ExtraGroup fs1 = (Ok (), fs')"
    by (auto simp: ensure_nss_group_member_login_def Let_def split: prod.splits sum.splits)
  note first = ensure_in_file_lists [OF 1 assms(2,3)]
  note second = ensure_in_file_lists [OF 2 assms(2) first(3)]
  show ?thesis using first second by simp
qed

lemma ensure_all_io: "\<exists>fs'. ensure_nss_group_member_login all_io g login fs = (Ok (), fs')"
proof -
  have "\<exists>fs'. ensure_in_file all_io g l p fs = (Ok (), fs')" for l p fs
    by (auto simp: ensure_in_file_def write_atomic_if_changed_def all_io_def Let_def)
  then show ?thesis by (simp add: ensure_nss_group_member_login_def Let_def split: prod.splits sum.splits) (metis Pair_inject sum.distinct(1))
qed

theorem ensure_member_listed_witness:
  "\<exists>fs'. ensure_nss_group_member_login all_io 3004 ''alice'' ((\<lambda>_. None)(NssGroup := Some ''media:x:3004:bob'')) = (Ok (), fs')
     \<and> lists_login 3004 (trim ''alice'') (fs' NssGroup) \<and> lists_login 3004 (trim ''alice'') (fs' ExtraGroup)"
proof -
  obtain fs' where e: "ensure_nss_group_member_login all_io 3004 ''alice'' ((\<lambda>_. None)(NssGroup := Some ''media:x:3004:bob'')) = (Ok (), fs')"
    using ensure_all_io by blast
  have "field (trim ''alice'')" by code_simp
  then show ?thesis using ensure_member_listed [OF e] e by auto
qed

section \<open>Seeding\<close>

text \<open>What the directory or a live lookup says of a user's groups.\<close>

definition directory_edge :: "IdMapSnapshot \<Rightarrow> string \<Rightarrow> string \<Rightarrow> 32 word \<Rightarrow> bool" where
  "directory_edge snap sname princ g =
     list_ex (\<lambda>e. g_gid e = g
        \<and> list_ex (\<lambda>m. trim m \<in> {sname, princ, principal_realm_login_for_nss princ}) (g_members e)) (map snd (snap_groups snap))"

definition live_edge :: "LiveGroupEdges \<Rightarrow> string \<Rightarrow> 32 word \<Rightarrow> bool" where
  "live_edge live sname g = (case map_of live sname of None \<Rightarrow> False | Some gids \<Rightarrow> g \<in> set gids)"

lemma seeded_edges:
  "g \<in> set (supplemental_gids (seeded_entry snap rlm b)) \<longleftrightarrow>
     g \<noteq> 0 \<and> g \<noteq> r_gid (seeded_entry snap rlm b)
     \<and> directory_edge snap (r_name (seeded_entry snap rlm b)) (r_principal (seeded_entry snap rlm b)) g"
proof (cases b)
  case (fields uid sname gid)
  have img: "g \<in> g_gid ` {x \<in> S. g_gid x \<noteq> 0 \<and> g_gid x \<noteq> gid \<and> C x} \<longleftrightarrow> g \<noteq> 0 \<and> g \<noteq> gid \<and> (\<exists>x \<in> S. g_gid x = g \<and> C x)"
    for S :: "PosixGroupEntry set" and C by auto
  show ?thesis
    unfolding fields seeded_entry_def supplemental_gids_from_snapshot_def directory_edge_def Let_def list_ex_iff
    by (simp only: prod.case Resolved.simps remdups_adj_set set_sort set_map set_filter img)
qed

lemma set_fold_live_gids:
  "set (foldl (\<lambda>supps g. if g \<noteq> 0 \<and> g \<noteq> pg then push_new g supps else supps) acc gids) = set acc \<union> {g \<in> set gids. g \<noteq> 0 \<and> g \<noteq> pg}"
  by (induction gids arbitrary: acc) auto

lemma fold_live_fields [simp]:
  "r_kind (fold_live live e) = r_kind e" "r_principal (fold_live live e) = r_principal e" "r_name (fold_live live e) = r_name e"
  "r_gid (fold_live live e) = r_gid e" "r_uid (fold_live live e) = r_uid e"
  by (simp_all add: fold_live_def split: option.split)

lemma seed_entries:
  "(k, e) \<in> set (foldl (\<lambda>c b. cache_insert (seeded_entry snap rlm b) c) c bs)
   \<Longrightarrow> (k, e) \<in> set c \<or> (\<exists>b. e = seeded_entry snap rlm b)"
  by (induction bs arbitrary: c) (force simp: cache_insert_def cache_remove_def Let_def)+

text \<open>
  After a synchronisation with the directory a user of the realm is in exactly the groups that
  the fresh snapshot or a fresh live lookup names, its primary group apart: a membership revoked
  in the directory is gone whatever the cache held before.
\<close>

theorem sync_revokes_memberships:
  assumes "(k, e) \<in> set (fst (sync_user_cache_from_snapshot snap rlm live c))" and "r_kind e = User"
  shows "g \<in> set (supplemental_gids e) \<longleftrightarrow>
     g \<noteq> 0 \<and> g \<noteq> r_gid e \<and> (directory_edge snap (r_name e) (r_principal e) g \<or> live_edge live (r_name e) g)"
proof -
  from assms(1) obtain e0 where e: "e = fold_live live e0" "principal_has_realm (r_principal e)"
    and in0: "(k, e0) \<in> set (fst (seed_cache_and_nss_from_snapshot snap rlm (prune_non_machine_users c)))"
    by (auto simp: sync_user_cache_from_snapshot_def prune_numeric_user_entries_def prune_malformed_principals_def split: prod.splits)
  have "r_kind e0 = User" using e(1) assms(2) by simp
  with in0 seed_entries obtain b where b: "e0 = seeded_entry snap rlm b"
    by (fastforce simp: seed_cache_and_nss_from_snapshot_def Let_def prune_non_machine_users_def)
  have "g \<in> set (supplemental_gids e) \<longleftrightarrow> g \<in> set (supplemental_gids e0) \<or> g \<noteq> 0 \<and> g \<noteq> r_gid e0 \<and> live_edge live (r_name e0) g"
    using \<open>r_kind e0 = User\<close> e by (auto simp: fold_live_def live_edge_def set_fold_live_gids split: option.splits if_splits)
  then show ?thesis using seeded_edges [of g snap rlm b] unfolding b [symmetric] by (auto simp: e(1))
qed

definition sample_snapshot :: IdMapSnapshot where
  "sample_snapshot =
     \<lparr>snap_users = [(''alice'', \<lparr>u_uid = 2, u_gid = 3, u_display = ''alice''\<rparr>)],
      snap_groups = [(''media'', \<lparr>g_gid = 5, g_display = ''media'', g_members = [''bob'']\<rparr>)], by_uid = [], by_gid = []\<rparr>"

text \<open>
  The name kept for a uid with several directory entries is meant to be the one without a realm,
  but the names that are compared have lost their realm already, so the first entry met is kept:
  two orders of one directory give two identities.
\<close>

lemma best_name_never_replaced: "CHR ''@'' \<notin> set n \<Longrightarrow> (i, n, g) \<in> set best \<Longrightarrow> (i, n, g) \<in> set (best_step best e)"
  by (force simp: best_step_def Let_def)

lemma seed_depends_on_order:
  "map (\<lambda>(_, n, _). n) (best_per_uid \<lparr>snap_users = us, snap_groups = [], by_uid = [], by_gid = []\<rparr>) = [''alice'']
   \<and> map (\<lambda>(_, n, _). n) (best_per_uid \<lparr>snap_users = rev us, snap_groups = [], by_uid = [], by_gid = []\<rparr>) = [''alice.smith'']"
  if "us = [(''alice'', \<lparr>u_uid = 1, u_gid = 2, u_display = ''alice''\<rparr>), (''alice.smith@R'', \<lparr>u_uid = 1, u_gid = 2, u_display = ''a''\<rparr>)]"
  unfolding that by code_simp

end
