(* ===== verification/Id_Resolve_Laws.thy ===== *)
theory Id_Resolve_Laws
  imports Id_Resolve Nss_Laws
begin

text \<open>
  Laws of principal resolution: which answers can name a realm principal, what a refused principal
  leaves behind, the invariants of the cache under every operation that resolves, the group list,
  and the way from a resolution to the files of the name service and back.
\<close>

section \<open>Frames\<close>

definition records :: "id_state \<Rightarrow> IdCache \<times> stores \<times> string option" where
  "records s = (id_cache s, id_stores s, cache_file s)"

lemma records_eqD:
  assumes "records s' = records s"
  shows "id_cache s' = id_cache s" "id_stores s' = id_stores s" "cache_file s' = cache_file s"
  using assms by (simp_all add: records_def)

lemma records_updates [simp]:
  "records (i_tick s) = records s" "records (s\<lparr>id_resolver := r\<rparr>) = records s" "records (s\<lparr>asked := a\<rparr>) = records s"
  by (simp_all add: records_def i_tick_def)

lemma call_resolver_records [simp]: "records (snd (call_resolver e f s)) = records s"
  by (simp add: call_resolver_def split: option.split prod.split)

lemma get_or_init_records [simp]: "records (get_or_init_resolver e s) = records s"
  by (simp add: get_or_init_resolver_def)

lemma fetch_group_records [simp]: "records (fetch_group e g s) = records s"
  by (simp add: fetch_group_def)

lemma fold_records: "(\<And>x s. x \<in> set xs \<Longrightarrow> records (f x s) = records s) \<Longrightarrow> records (fold f xs s) = records s"
  by (induction xs arbitrary: s) simp_all

lemma resolve_getent_records [simp]: "records (snd (resolve_getent e nm s)) = records s"
  by (simp add: resolve_getent_def Let_def)

lemma user_resolve_records [simp]: "records (snd (uid_gid_from_user_resolve e nm s)) = records s"
  by (simp add: uid_gid_from_user_resolve_def case_prod_beta split: option.split)

lemma try_resolve_records [simp]: "records (snd (try_resolve e nm s)) = records s"
  by (simp add: try_resolve_def case_prod_beta split: option.split)

lemma structured_records [simp]: "records (snd (resolve_via_structured_ldap e nm s)) = records s"
  by (simp add: resolve_via_structured_ldap_def Let_def case_prod_beta split: option.split)

lemma via_nss_records [simp]: "records (snd (resolve_via_nss e nm s)) = records s"
  by (simp add: resolve_via_nss_def Let_def case_prod_beta split: option.split)

lemma resolve_fresh_records [simp]: "records (snd (resolve_fresh e p rlm sv s)) = records s"
  by (simp add: resolve_fresh_def case_prod_beta split: option.split)

lemma snapshot_groups_records [simp]: "records (snd (snapshot_groups e s)) = records s"
  by (simp add: snapshot_groups_def case_prod_beta)

lemma ensure_snapshot_records [simp]: "records (ensure_resolver_snapshot e s) = records s"
  by (simp add: ensure_resolver_snapshot_def case_prod_beta split: option.split)

lemma groups_of_records [simp]: "records (snd (groups_of e p s)) = records s"
  by (simp add: groups_of_def case_prod_beta)

lemma compute_gids_records [simp]: "records (snd (compute_gids_for_resolved e r p s)) = records s"
  by (simp add: compute_gids_for_resolved_def Let_def case_prod_beta fold_records)

text \<open>The files of the name service change without the cache, and the cache file without them.\<close>

lemma ensure_login_frame [simp]:
  "id_cache (ensure_login e g l s) = id_cache s" "cache_file (ensure_login e g l s) = cache_file s"
  by (simp_all add: ensure_login_def)

lemma fold_ensure_frame:
  assumes "\<And>x s. id_cache (f x s) = id_cache s \<and> cache_file (f x s) = cache_file s"
  shows "id_cache (fold f xs s) = id_cache s \<and> cache_file (fold f xs s) = cache_file s"
  by (induction xs arbitrary: s) (simp_all add: assms)

lemma ensure_memberships_frame [simp]:
  "id_cache (ensure_memberships e r gids s) = id_cache s" "cache_file (ensure_memberships e r gids s) = cache_file s"
  by (auto simp: ensure_memberships_def ensure_root_on_supplemental_groups_def Let_def fold_ensure_frame split: option.split)

lemma materialize_frame [simp]:
  "id_cache (materialize e g s) = id_cache s" "cache_file (materialize e g s) = cache_file s"
  by (simp_all add: materialize_def)

lemma ensure_materialized_frame [simp]:
  "id_cache (ensure_nss_materialized_for e r gids s) = id_cache s"
  "cache_file (ensure_nss_materialized_for e r gids s) = cache_file s"
  by (simp_all add: ensure_nss_materialized_for_def case_prod_beta records_eqD [OF snapshot_groups_records])

lemma write_cache_file_frame [simp]:
  "id_cache (write_cache_file e s) = id_cache s" "id_stores (write_cache_file e s) = id_stores s"
  by (simp_all add: write_cache_file_def i_tick_def)

abbreviation canonical :: "string \<Rightarrow> string \<Rightarrow> string" where
  "canonical princ rlm \<equiv> canonicalize_principal (trim princ) rlm"

section \<open>Only the full name of a realm principal is asked for\<close>

text \<open>Everything but the one lookup leaves \<^verbatim>\<open>getent\<close> alone.\<close>

lemma other_answers:
  "i_ldap (e\<lparr>i_getent := g\<rparr>) = i_ldap e" "i_env (e\<lparr>i_getent := g\<rparr>) = i_env e" "i_conf (e\<lparr>i_getent := g\<rparr>) = i_conf e"
  "i_io (e\<lparr>i_getent := g\<rparr>) = i_io e" "i_cache_write (e\<lparr>i_getent := g\<rparr>) = i_cache_write e"
  by simp_all

lemma getent_free [simp]:
  "call_resolver (e\<lparr>i_getent := g\<rparr>) = call_resolver e"
  "get_or_init_resolver (e\<lparr>i_getent := g\<rparr>) = get_or_init_resolver e"
  "test_force_ldap_uid_gid (e\<lparr>i_getent := g\<rparr>) = test_force_ldap_uid_gid e"
  "lookup_passwd_file (e\<lparr>i_getent := g\<rparr>) = lookup_passwd_file e"
  "write_cache_file (e\<lparr>i_getent := g\<rparr>) = write_cache_file e"
  "materialize (e\<lparr>i_getent := g\<rparr>) = materialize e"
  "ensure_login (e\<lparr>i_getent := g\<rparr>) = ensure_login e"
  unfolding fun_eq_iff call_resolver_def get_or_init_resolver_def load_resolver_from_config_def test_force_ldap_uid_gid_def
      lookup_passwd_file_def read_store_def write_cache_file_def materialize_def ensure_login_def other_answers
  by (rule allI | rule refl)+

lemma getent_free_steps [simp]:
  "resolve_via_structured_ldap (e\<lparr>i_getent := g\<rparr>) = resolve_via_structured_ldap e"
  "fetch_group (e\<lparr>i_getent := g\<rparr>) = fetch_group e"
  "compute_gids_for_resolved (e\<lparr>i_getent := g\<rparr>) = compute_gids_for_resolved e"
  "ensure_memberships (e\<lparr>i_getent := g\<rparr>) = ensure_memberships e"
  "snapshot_groups (e\<lparr>i_getent := g\<rparr>) = snapshot_groups e"
  "persist_supps (e\<lparr>i_getent := g\<rparr>) = persist_supps e"
  unfolding fun_eq_iff resolve_via_structured_ldap_def try_resolve_def uid_gid_from_user_resolve_def fetch_group_def
    compute_gids_for_resolved_def groups_of_def ensure_resolver_snapshot_def ensure_memberships_def
    ensure_root_on_supplemental_groups_def snapshot_groups_def persist_supps_def getent_free
  by (rule allI | rule refl)+

lemma getent_free_settle [simp]: "settle (e\<lparr>i_getent := g\<rparr>) = settle e"
  unfolding fun_eq_iff settle_def ensure_nss_materialized_for_def getent_free getent_free_steps by (rule allI | rule refl)+

lemma resolve_via_nss_full_only:
  assumes "principal_has_realm (trim nm)" and "\<forall>i. g i (trim nm) = i_getent e i (trim nm)"
  shows "resolve_via_nss (e\<lparr>i_getent := g\<rparr>) nm s = resolve_via_nss e nm s"
proof -
  have "resolve_getent (e\<lparr>i_getent := g\<rparr>) (trim nm) s = resolve_getent e (trim nm) s"
    using assms(2) by (simp add: resolve_getent_def)
  then show ?thesis using assms(1) by (simp add: resolve_via_nss_def Let_def case_prod_beta split: option.split)
qed

text \<open>
  C7: the answer for a realm principal depends on what the name service says of its full name
  only: whatever \<^verbatim>\<open>getent\<close> answers for other names, such as the short name of a local account,
  the result and everything that is stored are the same.
\<close>

theorem realm_principal_full_name_only:
  assumes "principal_has_realm (trim (canonical princ rlm))"
    and "\<forall>i. g i (trim (canonical princ rlm)) = i_getent e i (trim (canonical princ rlm))"
  shows "resolve_principal (e\<lparr>i_getent := g\<rparr>) princ rlm server_variants s = resolve_principal e princ rlm server_variants s"
  using resolve_via_nss_full_only [where g = g, OF assms]
  by (simp add: resolve_principal_def resolve_fresh_def Let_def case_prod_beta split: option.split)

section \<open>Refused principals\<close>

lemma getent_sources: "fst (resolve_getent e nm s) = Some (u, g, src) \<Longrightarrow> src \<noteq> RESOLVE_FAIL_CLOSED_SOURCE"
  by (auto simp: resolve_getent_def Let_def opt_or_def with_source_def RESOLVE_FAIL_CLOSED_SOURCE_def split: option.splits)

lemma via_nss_sources:
  assumes "fst (resolve_via_nss e nm s) = Some (u, g, src)"
  shows "src \<noteq> RESOLVE_FAIL_CLOSED_SOURCE"
proof -
  have "as_ldap p = (u, g, src) \<Longrightarrow> src \<noteq> RESOLVE_FAIL_CLOSED_SOURCE" for p
    by (auto simp: as_ldap_def RESOLVE_FAIL_CLOSED_SOURCE_def)
  with assms show ?thesis
    by (auto simp: resolve_via_nss_def Let_def case_prod_beta resolve_identity_candidates_def
        split: if_splits option.splits dest: getent_sources)
qed

lemma fresh_refused_iff:
  "is_unresolved_fail_closed (fst (resolve_fresh e p rlm sv s)) \<longleftrightarrow>
     principal_has_realm p \<and> \<not> fst (classify_principal p rlm sv) \<and> fst (resolve_via_nss e p s) = None"
  using via_nss_sources [of e p s]
  by (auto simp: resolve_fresh_def case_prod_beta is_unresolved_fail_closed_def plain_result_def
      RESOLVE_FAIL_CLOSED_SOURCE_def split: option.splits)

definition cached :: "IdCache \<Rightarrow> string \<Rightarrow> Resolved option" where
  "cached c norm = opt_filter (\<lambda>x. \<not> is_numeric_local_principal (r_principal x)) (cache_get c norm)"

lemma resolve_principal_cases:
  obtains (numeric) "is_numeric_local_principal (canonical princ rlm)"
    "resolve_principal e princ rlm sv s =
       (plain_result (canonical princ rlm) (principal_local_part (normalize_principal (canonical princ rlm)))
          FALLBACK_NOBODY_UID FALLBACK_NOBODY_GID Unknown ''rejected-numeric'', s)"
  | (hit) x where "\<not> is_numeric_local_principal (canonical princ rlm)"
    "cached (id_cache s) (normalize_principal (canonical princ rlm)) = Some x"
    "resolve_principal e princ rlm sv s = (x\<lparr>r_source := ''cache''\<rparr>, s)"
  | (fresh) r s1 where "\<not> is_numeric_local_principal (canonical princ rlm)"
    "cached (id_cache s) (normalize_principal (canonical princ rlm)) = None"
    "resolve_fresh e (canonical princ rlm) rlm sv
       (s\<lparr>id_cache := cache_remove (normalize_principal (canonical princ rlm)) (id_cache s)\<rparr>) = (r, s1)"
    "resolve_principal e princ rlm sv s = (if is_unresolved_fail_closed r then (r, s1) else (r, settle e r s1))"
proof (cases "is_numeric_local_principal (canonical princ rlm)")
  case True
  then show ?thesis by (rule numeric) (simp add: resolve_principal_def Let_def True)
next
  case False
  define norm where "norm = normalize_principal (canonical princ rlm)"
  obtain r s1 where f: "resolve_fresh e (canonical princ rlm) rlm sv (s\<lparr>id_cache := cache_remove norm (id_cache s)\<rparr>) = (r, s1)"
    by (rule prod.exhaust)
  have eq: "resolve_principal e princ rlm sv s =
      (case cached (id_cache s) norm of Some x \<Rightarrow> (x\<lparr>r_source := ''cache''\<rparr>, s)
       | None \<Rightarrow> if is_unresolved_fail_closed r then (r, s1) else (r, settle e r s1))"
    using False f by (simp add: resolve_principal_def Let_def cached_def norm_def split: option.split)
  show ?thesis
    by (cases "cached (id_cache s) norm") (use False f eq hit fresh norm_def in auto)
qed

text \<open>
  C8: a principal is refused exactly when it names a realm, is not a number, is not cached, is not
  a machine, and neither the name service nor the directory knows it. Then the client reads the
  error line, the files of the name service and the cache file are as they were, and no entry is
  added to the cache.
\<close>

theorem refused_iff_unknown:
  assumes "resolve_principal e princ rlm server_variants s = (r, s')"
  defines "p \<equiv> canonicalize_principal (trim princ) rlm"
  defines "norm \<equiv> normalize_principal p"
  shows "(is_unresolved_fail_closed r \<longleftrightarrow>
       \<not> is_numeric_local_principal p
       \<and> (\<forall>x. cache_get (id_cache s) norm = Some x \<longrightarrow> is_numeric_local_principal (r_principal x))
       \<and> principal_has_realm p \<and> \<not> fst (classify_principal p rlm server_variants)
       \<and> fst (resolve_via_nss e p (s\<lparr>id_cache := cache_remove norm (id_cache s)\<rparr>)) = None)
    \<and> (is_unresolved_fail_closed r \<longrightarrow> format_resolve_socket_line r = RESOLVE_ERR_UNRESOLVED
       \<and> id_stores s' = id_stores s \<and> cache_file s' = cache_file s \<and> id_cache s' = cache_remove norm (id_cache s))"
    (is "(_ \<longleftrightarrow> ?unknown) \<and> _")
proof -
  have cached: "cached (id_cache s) norm = None \<longleftrightarrow>
      (\<forall>x. cache_get (id_cache s) norm = Some x \<longrightarrow> is_numeric_local_principal (r_principal x))"
    by (cases "cache_get (id_cache s) norm") (simp_all add: cached_def opt_filter_def)
  have src: "\<not> is_unresolved_fail_closed (x\<lparr>r_source := ''cache''\<rparr>)"
    "\<not> is_unresolved_fail_closed (plain_result q n u g k ''rejected-numeric'')" for x q n u g k
    by (simp_all add: is_unresolved_fail_closed_def RESOLVE_FAIL_CLOSED_SOURCE_def plain_result_def)
  have both: "(is_unresolved_fail_closed r \<longleftrightarrow> ?unknown)
      \<and> (is_unresolved_fail_closed r \<longrightarrow> records s' = (cache_remove norm (id_cache s), id_stores s, cache_file s))"
  proof (cases rule: resolve_principal_cases [of princ rlm e server_variants s])
    case (fresh r1 s1)
    have "is_unresolved_fail_closed r1 \<longleftrightarrow> ?unknown"
      using fresh fresh_refused_iff [of e p rlm server_variants "s\<lparr>id_cache := cache_remove norm (id_cache s)\<rparr>"] cached
      by (simp add: p_def norm_def)
    moreover have "records s1 = (cache_remove norm (id_cache s), id_stores s, cache_file s)"
      using resolve_fresh_records [of e p rlm server_variants "s\<lparr>id_cache := cache_remove norm (id_cache s)\<rparr>"] fresh(3)
      by (simp add: records_def p_def norm_def)
    ultimately show ?thesis using fresh(4) assms(1) by (auto split: if_splits)
  qed (use assms cached src in \<open>auto simp: p_def norm_def\<close>)
  then show ?thesis by (auto simp: format_resolve_socket_line_def records_def)
qed

section \<open>The cache under resolution\<close>

definition pruned :: "IdCache \<Rightarrow> IdCache" where
  "pruned c = prune_numeric_user_entries (prune_malformed_principals c)"

definition with_supps :: "string \<Rightarrow> (Resolved \<Rightarrow> 32 word list) \<Rightarrow> IdCache \<Rightarrow> IdCache" where
  "with_supps key f c = update_entry key (\<lambda>x. x\<lparr>supplemental_gids := f x\<rparr>) c"

lemma with_supps_id: "with_supps key supplemental_gids c = c"
  by (auto simp: with_supps_def update_entry_def intro!: map_idI)

lemma persist_supps_cache: "\<exists>f. id_cache (persist_supps e r g s) = with_supps (normalize_principal (r_principal r)) f (id_cache s)"
proof (cases "cache_get (id_cache s) (normalize_principal (r_principal r))")
  case None
  then show ?thesis by (intro exI [of _ supplemental_gids]) (simp add: persist_supps_def Let_def with_supps_id)
next
  case (Some x)
  then show ?thesis by (intro exI [of _ g]) (simp add: persist_supps_def Let_def with_supps_def)
qed

definition found_supps :: "Resolved \<Rightarrow> 32 word list \<Rightarrow> Resolved \<Rightarrow> 32 word list" where
  "found_supps r gids = (if r_kind r = User then supps_union gids else (\<lambda>x. filter (\<lambda>g. g \<noteq> r_gid x) gids))"

lemma settle_known:
  assumes "principal_has_realm (r_principal r)" and "r_kind r \<in> {User, Machine}"
    and "compute_gids_for_resolved e r (r_principal r) (s\<lparr>id_cache := pruned (cache_insert r (id_cache s))\<rparr>) = (gids, s1)"
    and "s2 = ensure_nss_materialized_for e r gids (persist_supps e r (found_supps r gids) s1)"
  shows "settle e r s \<in> {s2, write_cache_file e s2}"
  using assms unfolding settle_def Let_def pruned_def [symmetric] found_supps_def [symmetric] by simp

lemma settle_cache:
  "\<exists>f. id_cache (settle e r s) = with_supps (normalize_principal (r_principal r)) f
     (pruned (if principal_has_realm (r_principal r) then cache_insert r (id_cache s) else id_cache s))"
proof (cases "principal_has_realm (r_principal r) \<and> r_kind r \<in> {User, Machine}")
  case True
  let ?c = "pruned (cache_insert r (id_cache s))"
  obtain gids s1 where s1: "compute_gids_for_resolved e r (r_principal r) (s\<lparr>id_cache := ?c\<rparr>) = (gids, s1)"
    by (rule prod.exhaust)
  then have "id_cache s1 = ?c" using compute_gids_records [of e r "r_principal r" "s\<lparr>id_cache := ?c\<rparr>"] by (simp add: records_def)
  with settle_known [OF _ _ s1 refl] True persist_supps_cache [of e r "found_supps r gids" s1] show ?thesis
    by auto
next
  case False
  then show ?thesis
    by (intro exI [of _ supplemental_gids]) (auto simp: settle_def Let_def with_supps_id pruned_def)
qed

text \<open>What resolution can add to the cache.\<close>

definition fresh_entry :: "Resolved \<Rightarrow> bool" where
  "fresh_entry r = (\<not> is_numeric_local_principal (r_principal r)
     \<and> (r_kind r = Machine \<longrightarrow> r_uid r = 0 \<and> r_gid r = 0) \<and> (principal_has_realm (r_principal r) \<longrightarrow> r_kind r \<in> {User, Machine}))"

lemma resolve_fresh_entry:
  assumes "resolve_fresh e p rlm sv s = (r, s')" and "\<not> is_unresolved_fail_closed r" and "\<not> is_numeric_local_principal p"
  shows "fresh_entry r" and "r_principal r = p"
  using assms by (auto simp: resolve_fresh_def fresh_entry_def plain_result_def is_unresolved_fail_closed_def
      split: if_splits prod.splits option.splits)

lemma cache_get_remove: "cache_get (cache_remove k c) k' = (if k' = k then None else cache_get c k')"
  by (induction c) (auto simp: cache_get_def cache_remove_def)

locale id_invariant =
  fixes I :: "IdCache \<Rightarrow> bool"
  assumes drop: "I c \<Longrightarrow> cached c k = None \<Longrightarrow> I (cache_remove k c)"
    and add: "I c \<Longrightarrow> fresh_entry r \<Longrightarrow> cache_get c (normalize_principal (r_principal r)) = None \<Longrightarrow>
      I (pruned (if principal_has_realm (r_principal r) then cache_insert r c else c))"
    and supps: "I c \<Longrightarrow> I (with_supps k f c)"
begin

lemma resolve_principal_inv: "I (id_cache s) \<Longrightarrow> I (id_cache (snd (resolve_principal e princ rlm sv s)))"
proof (cases rule: resolve_principal_cases [of princ rlm e sv s])
  case (fresh r s1)
  let ?norm = "normalize_principal (canonical princ rlm)"
  assume "I (id_cache s)"
  have s1: "id_cache s1 = cache_remove ?norm (id_cache s)"
    using resolve_fresh_records [of e "canonical princ rlm" rlm sv "s\<lparr>id_cache := cache_remove ?norm (id_cache s)\<rparr>"] fresh(3)
    by (simp add: records_def)
  with \<open>I (id_cache s)\<close> fresh(2) have I1: "I (id_cache s1)" by (simp add: drop)
  show ?thesis
  proof (cases "is_unresolved_fail_closed r")
    case False
    from resolve_fresh_entry [OF fresh(3) False fresh(1)] have "fresh_entry r" "r_principal r = canonical princ rlm" .
    with I1 s1 have "I (pruned (if principal_has_realm (r_principal r) then cache_insert r (id_cache s1) else id_cache s1))"
      by (intro add) (simp_all add: cache_get_remove)
    with settle_cache [of e r s1] False fresh(4) show ?thesis by (auto simp: supps)
  qed (use fresh(4) I1 in simp)
qed simp_all

lemma resolve_gids_inv: "I (id_cache s) \<Longrightarrow> I (id_cache (snd (resolve_gids_and_materialize e princ rlm sv force s)))"
proof -
  assume I: "I (id_cache s)"
  obtain r s1 where r: "resolve_principal e princ rlm sv s = (r, s1)" by (rule prod.exhaust)
  obtain gids s2 where c: "compute_gids_for_resolved e r princ s1 = (gids, s2)" by (rule prod.exhaust)
  have "I (id_cache s1)" using resolve_principal_inv [OF I, of e princ rlm sv] r by simp
  moreover have "id_cache s2 = id_cache s1"
    using compute_gids_records [of e r princ s1] c by (simp add: records_def)
  ultimately have "I (id_cache s1)" "I (id_cache s2)" by simp_all
  moreover have "I (id_cache (persist_supps e r g s2))" for g
    using persist_supps_cache [of e r g s2] \<open>I (id_cache s2)\<close> by (auto simp: supps)
  ultimately show ?thesis
    using I r c by (auto simp: resolve_gids_and_materialize_def Let_def fold_ensure_frame split: option.splits)
qed

lemma refresh_inv: "I (id_cache s) \<Longrightarrow> I (id_cache (refresh_supplemental_nss_for_cached_users e rlm sv s))"
proof -
  have "I (id_cache s) \<Longrightarrow> I (id_cache (fold (\<lambda>p s. snd (resolve_gids_and_materialize e p rlm sv True s)) ps s))" for ps s
    by (induction ps arbitrary: s) (simp_all add: resolve_gids_inv)
  then show "I (id_cache s) \<Longrightarrow> I (id_cache (refresh_supplemental_nss_for_cached_users e rlm sv s))"
    by (simp add: refresh_supplemental_nss_for_cached_users_def)
qed

end

text \<open>
  A sound cache: every entry stands under its normalized name, names a realm, is not a number
  unless it is a machine, and a machine is root.
\<close>

definition sound_cache :: "IdCache \<Rightarrow> bool" where
  "sound_cache c = (wf_cache c \<and> (\<forall>(k, r) \<in> set c. principal_has_realm (r_principal r)
     \<and> (r_kind r = Machine \<or> \<not> is_numeric_local_principal (r_principal r))
     \<and> (r_kind r = Machine \<longrightarrow> r_uid r = 0 \<and> r_gid r = 0)))"

lemma set_with_supps: "(k, r) \<in> set (with_supps key f c) \<Longrightarrow> \<exists>r'. (k, r') \<in> set c \<and> (r = r' \<or> r = r'\<lparr>supplemental_gids := f r'\<rparr>)"
  by (auto simp: with_supps_def update_entry_def split: if_splits)

lemma keys_with_supps: "map fst (with_supps key f c) = map fst c"
  by (auto simp: with_supps_def update_entry_def)

lemma set_pruned: "(k, r) \<in> set (pruned c) \<longleftrightarrow> (k, r) \<in> set c \<and> principal_has_realm (r_principal r)
    \<and> (r_kind r = Machine \<or> \<not> is_numeric_local_principal (r_principal r))"
  by (auto simp: pruned_def prune_numeric_user_entries_def prune_malformed_principals_def)

lemma wf_cache_pruned: "wf_cache c \<Longrightarrow> wf_cache (pruned c)"
  by (simp add: pruned_def wf_cache_prunes)

interpretation sound: id_invariant sound_cache
proof
  fix c k
  assume "sound_cache c"
  then show "sound_cache (cache_remove k c)"
    by (auto simp: sound_cache_def wf_cache_prunes) (auto simp: cache_remove_def)
next
  fix c r
  assume "sound_cache c" and "fresh_entry r"
  then have "wf_cache (pruned (if principal_has_realm (r_principal r) then cache_insert r c else c))"
    by (simp add: sound_cache_def wf_cache_pruned wf_cache_insert)
  with \<open>sound_cache c\<close> \<open>fresh_entry r\<close>
  show "sound_cache (pruned (if principal_has_realm (r_principal r) then cache_insert r c else c))"
    by (auto simp: sound_cache_def set_pruned fresh_entry_def cache_insert_def cache_remove_def Let_def split: if_splits)
next
  fix c k f
  assume "sound_cache c"
  moreover have "wf_cache (with_supps k f c)" if "wf_cache c"
    using that keys_with_supps [of k f c] by (auto simp: wf_cache_def dest!: set_with_supps)
  ultimately show "sound_cache (with_supps k f c)"
    unfolding sound_cache_def by (auto dest!: set_with_supps)
qed

text \<open>The ids a principal was given once.\<close>

definition known :: "string \<Rightarrow> 32 word \<times> 32 word \<times> PrincipalKind \<Rightarrow> IdCache \<Rightarrow> bool" where
  "known k ids c = (\<exists>x. cached c k = Some x \<and> principal_has_realm (r_principal x) \<and> (r_uid x, r_gid x, r_kind x) = ids)"

lemma cached_Some: "cached c k = Some x \<longleftrightarrow> cache_get c k = Some x \<and> \<not> is_numeric_local_principal (r_principal x)"
  by (auto simp: cached_def opt_filter_def split: option.split)

lemma map_of_filter_keep: "map_of c k = Some x \<Longrightarrow> P (k, x) \<Longrightarrow> map_of (filter P c) k = Some x"
  by (induction c) (auto split: if_splits)

lemma get_pruned:
  assumes "cache_get c k = Some x" and "principal_has_realm (r_principal x)"
    and "r_kind x = Machine \<or> \<not> is_numeric_local_principal (r_principal x)"
  shows "cache_get (pruned c) k = Some x"
  using assms by (auto simp: pruned_def prune_numeric_user_entries_def prune_malformed_principals_def cache_get_def
      intro!: map_of_filter_keep)

lemma get_with_supps:
  "cache_get (with_supps key f c) k =
     map_option (\<lambda>x. if k = key then x\<lparr>supplemental_gids := f x\<rparr> else x) (cache_get c k)"
  by (induction c) (auto simp: cache_get_def with_supps_def update_entry_def)

interpretation known: id_invariant "known k ids" for k ids
proof
  fix c k'
  assume "known k ids c" and "cached c k' = None"
  then have "k' \<noteq> k" by (auto simp: known_def)
  with \<open>known k ids c\<close> show "known k ids (cache_remove k' c)" by (simp add: known_def cached_def cache_get_remove)
next
  fix c and r :: Resolved
  assume k: "known k ids c" and "cache_get c (normalize_principal (r_principal r)) = None"
  then have "k \<noteq> normalize_principal (r_principal r)" by (auto simp: known_def cached_Some)
  with k show "known k ids (pruned (if principal_has_realm (r_principal r) then cache_insert r c else c))"
    by (auto simp: known_def cached_Some get_insert intro!: get_pruned)
next
  fix c k' f
  assume "known k ids c"
  then show "known k ids (with_supps k' f c)" by (cases "k = k'") (auto simp: known_def cached_Some get_with_supps)
qed

text \<open>The operations that resolve, in any order, with any arguments and answers.\<close>

inductive id_step :: "id_state \<Rightarrow> id_state \<Rightarrow> bool" where
  resolve: "id_step s (snd (resolve_principal e princ rlm server_variants s))"
| gids: "id_step s (snd (resolve_gids_and_materialize e princ rlm server_variants force s))"
| refresh: "id_step s (refresh_supplemental_nss_for_cached_users e rlm server_variants s)"

inductive_cases id_stepE: "id_step s s'"

context id_invariant
begin

lemma steps_inv: "id_step\<^sup>*\<^sup>* s s' \<Longrightarrow> I (id_cache s) \<Longrightarrow> I (id_cache s')"
  by (induction rule: rtranclp_induct)
    (auto elim!: id_stepE intro: resolve_principal_inv resolve_gids_inv refresh_inv)

end

text \<open>
  Whatever is resolved, in any order and with any answers of the name service, the directory
  and the disk, the cache stays sound: each entry stands under its normalized name and names a
  realm, no user is a number, and machines, which are root, are the only entries that were not
  looked up.
\<close>

theorem resolution_keeps_cache_sound:
  assumes "id_step\<^sup>*\<^sup>* s s'" and "sound_cache (id_cache s)"
  shows "sound_cache (id_cache s')"
  using assms by (rule sound.steps_inv)

lemma resolved_known:
  assumes "resolve_principal e princ rlm sv s = (r, s')" and "\<not> is_unresolved_fail_closed r"
    and "principal_has_realm (canonical princ rlm)" and "\<not> is_numeric_local_principal (canonical princ rlm)"
    and "sound_cache (id_cache s)"
  shows "known (normalize_principal (canonical princ rlm)) (r_uid r, r_gid r, r_kind r) (id_cache s')"
proof (cases rule: resolve_principal_cases [of princ rlm e sv s])
  case (hit x)
  then have "(normalize_principal (canonical princ rlm), x) \<in> set (id_cache s)"
    by (auto simp: cached_Some cache_get_def dest: map_of_SomeD)
  with hit assms(1,5) show ?thesis by (auto simp: known_def sound_cache_def)
next
  case (fresh r1 s1)
  then have r: "r = r1" "s' = settle e r s1" using assms(1,2) by (auto split: if_splits)
  from resolve_fresh_entry [OF fresh(3)] r assms(2,4) have p: "r_principal r = canonical princ rlm" by simp
  have "cache_get (pruned (cache_insert r (id_cache s1))) (normalize_principal (canonical princ rlm)) = Some r"
    using p assms(3,4) by (intro get_pruned) (simp_all add: get_insert)
  with settle_cache [of e r s1] p r(2) assms(3,4) show ?thesis
    by (auto simp: known_def cached_Some get_with_supps)
qed (use assms(4) in simp)

text \<open>
  Once a realm principal was resolved it stays resolved: after any number of further
  resolutions, and even when the name service and the directory no longer answer, it is resolved to
  the same uid, gid and kind, and answering changes no state and asks nobody.
\<close>

theorem resolved_stays_resolved:
  assumes "resolve_principal e princ rlm server_variants s = (r, s1)" and "\<not> is_unresolved_fail_closed r"
    and "principal_has_realm (canonicalize_principal (trim princ) rlm)"
    and "\<not> is_numeric_local_principal (canonicalize_principal (trim princ) rlm)"
    and "sound_cache (id_cache s)" and "id_step\<^sup>*\<^sup>* s1 s2"
  shows "\<exists>x. resolve_principal e' princ rlm server_variants s2 = (x, s2)
     \<and> r_uid x = r_uid r \<and> r_gid x = r_gid r \<and> r_kind x = r_kind r"
proof -
  from known.steps_inv [OF assms(6) resolved_known [OF assms(1-5)]]
  obtain x where "cached (id_cache s2) (normalize_principal (canonical princ rlm)) = Some x"
    and ids: "r_uid x = r_uid r" "r_gid x = r_gid r" "r_kind x = r_kind r" by (auto simp: known_def)
  then have "resolve_principal e' princ rlm server_variants s2 = (x\<lparr>r_source := ''cache''\<rparr>, s2)"
    using assms(4) by (simp add: resolve_principal_def Let_def cached_def)
  with ids show ?thesis by simp
qed

section \<open>The group list\<close>

lemma add_new_list:
  assumes "distinct xs"
  shows "distinct (foldl add_new xs ys)" "set (foldl add_new xs ys) = set xs \<union> set ys"
    and "xs \<noteq> [] \<Longrightarrow> foldl add_new xs ys \<noteq> [] \<and> hd (foldl add_new xs ys) = hd xs"
proof -
  have "distinct (foldl add_new xs ys) \<and> set (foldl add_new xs ys) = set xs \<union> set ys
      \<and> (xs \<noteq> [] \<longrightarrow> foldl add_new xs ys \<noteq> [] \<and> hd (foldl add_new xs ys) = hd xs)"
    using assms by (induction ys arbitrary: xs) (auto simp: add_new_def)
  then show "distinct (foldl add_new xs ys)" "set (foldl add_new xs ys) = set xs \<union> set ys"
    and "xs \<noteq> [] \<Longrightarrow> foldl add_new xs ys \<noteq> [] \<and> hd (foldl add_new xs ys) = hd xs" by blast+
qed

lemma merged: "distinct (merge_group_gids g gs)" "merge_group_gids g gs \<noteq> []" "hd (merge_group_gids g gs) = g"
  using add_new_list [of "[g]" gs] by (simp_all add: merge_group_gids_def)

lemma computed:
  assumes "compute_gids_for_resolved e r p s = (gids, s')"
  shows "distinct gids" "gids \<noteq> []" "hd gids = (if r_kind r = Machine then 0 else r_gid r)" "id_cache s' = id_cache s"
  using assms compute_gids_records [of e r p s]
  by (auto simp: compute_gids_for_resolved_def Let_def merged MACHINE_GID_def records_def split: prod.splits if_splits)

lemma set_supps_union: "set (supps_union gids x) = {g \<in> set gids. g \<noteq> r_gid x} \<union> set (supplemental_gids x)" if "distinct gids"
  using add_new_list(2) [of "filter (\<lambda>g. g \<noteq> r_gid x) gids" "supplemental_gids x"] that by (simp add: supps_union_def)

text \<open>
  The group list of a principal that was not refused starts with its primary group, root's
  group for a machine, has no gid twice, and holds every supplementary group the cache keeps for
  the principal afterwards; for a refused principal it is empty.
\<close>

theorem group_list_shape:
  assumes "resolve_gids_and_materialize e princ rlm server_variants force s = (gids, s')"
    and "resolve_principal e princ rlm server_variants s = (r, s1)"
    and "\<not> eq_ignore_ascii_case (trim princ) ''root''" and "trim princ \<noteq> ''0''"
  shows "if is_unresolved_fail_closed r then gids = [] \<and> s' = s1
     else gids \<noteq> [] \<and> distinct gids \<and> hd gids = (if r_kind r = Machine then 0 else r_gid r)
       \<and> (\<forall>x. cache_get (id_cache s') (normalize_principal (r_principal r)) = Some x \<longrightarrow> set (supplemental_gids x) \<subseteq> set gids)"
proof (cases "is_unresolved_fail_closed r")
  case True
  with assms show ?thesis by (simp add: resolve_gids_and_materialize_def)
next
  case False
  let ?k = "normalize_principal (r_principal r)"
  obtain gs s2 where c: "compute_gids_for_resolved e r princ s1 = (gs, s2)" by (rule prod.exhaust)
  note gs = computed [OF c]
  show ?thesis
  proof (cases "cache_get (id_cache s2) ?k")
    case None
    then have "gids = gs" "id_cache s' = id_cache s2"
      using assms False c by (auto simp: resolve_gids_and_materialize_def Let_def)
    with None False gs show ?thesis by simp
  next
    case (Some x)
    then have *: "gids = foldl add_new gs (supps_union gs x)"
      "id_cache s' = id_cache (if supplemental_gids x \<noteq> supps_union gs x then persist_supps e r (supps_union gs) s2 else s2)"
      using assms False c by (auto simp: resolve_gids_and_materialize_def Let_def)
    have "cache_get (id_cache s') ?k = Some (x\<lparr>supplemental_gids := supps_union gs x\<rparr>)"
      using Some *(2) by (auto simp: persist_supps_def Let_def with_supps_def [symmetric] get_with_supps)
    with False gs(2,3) add_new_list [OF gs(1), of "supps_union gs x"] show ?thesis by (simp add: *(1))
  qed
qed

section \<open>From a resolution to the passwd files and back\<close>

definition row_shape :: "string \<Rightarrow> bool" where
  "row_shape line = (plain line \<and> (\<exists>n rest. line = n @ CHR '':'' # rest \<and> list_all nss_safe n))"

lemma row_shapeI: "plain (n @ CHR '':'' # rest) \<Longrightarrow> list_all nss_safe n \<Longrightarrow> row_shape (n @ CHR '':'' # rest)"
  by (auto simp: row_shape_def)

lemma row_shape_trim:
  assumes "row_shape line"
  shows "login_of (trim line) = login_of line" "trim line \<noteq> []" "\<not> starts_with (trim line) ''#''"
proof -
  from assms obtain n rest where line: "line = n @ CHR '':'' # rest" and n: "list_all nss_safe n" by (auto simp: row_shape_def)
  have colon: "inked (CHR '':'')" by (simp add: inked_def is_ascii_def ws1_def)
  have "ws_width (n @ CHR '':'' # rest) = 0"
    using n colon nss_safe_inked by (cases n) (auto simp: ws_width_inked)
  then have trim: "trim line = n @ CHR '':'' # trim_end rest"
    by (simp add: line trim_def trim_start_id trim_end_barrier)
  have "CHR '':'' \<notin> set n" "CHR ''#'' \<notin> set n" using n nss_safe_not by (auto simp: list_all_iff)
  with trim show "login_of (trim line) = login_of line" "trim line \<noteq> []" "\<not> starts_with (trim line) ''#''"
    by (auto simp: line login_of_prefix prefix_def Cons_eq_append_conv append_eq_Cons_conv)
qed

lemma lookup_only_row:
  assumes "\<forall>l \<in> set ls. row_shape l" and "filter (\<lambda>l. login_of l = nm) ls = [row]"
  shows "lookup_passwd_lines nm ls = parse_getent_passwd (trim row)"
  using assms
proof (induction ls)
  case (Cons l ls)
  have "row_shape l" using Cons.prems(1) by simp
  note l = row_shape_trim [OF this, unfolded login_of_def]
  have "lookup_passwd_lines nm (l # ls) = (if login_of l = nm then parse_getent_passwd (trim l) else lookup_passwd_lines nm ls)"
    using l by (simp add: login_of_def Let_def del: trim_Nil_iff)
  with Cons show ?case by (auto split: if_splits)
qed simp

lemma passwd_line_shape:
  assumes "list_all nss_safe l" and "field (r_principal r)" and "principal_has_realm (r_principal r)"
  shows "row_shape (passwd_line r l)"
proof -
  have "list_all nss_safe (gecos_for r)" using assms by (auto simp: gecos_for_def field_def list_all_iff)
  moreover have "plain x" if "list_all nss_safe x" for x
    using that plain_field [of x] by (cases "x = []") (simp_all add: field_def)
  ultimately have "plain (passwd_line r l)"
    using assms(1) plain_field [OF field_digits [of "r_uid r"]] plain_field [OF field_digits [of "r_gid r"]]
    by (simp add: passwd_line_def) (simp add: line_feed_def)
  with assms(1) show ?thesis by (auto simp: row_shape_def passwd_line_def)
qed

lemma set_tl_dropWhile: "set (tl (dropWhile P xs)) \<subseteq> set xs"
  by (induction xs) auto

lemma snapshot_passwd_shape:
  assumes "r \<in> set (snapshot_items c)" and "\<not> is_numeric_local_principal (r_principal r)"
    and "\<forall>(k', r') \<in> set c. field (r_principal r')"
  shows "\<forall>l \<in> set (fst (build_nss_snapshot c lg)). row_shape l"
proof -
  from snapshot_rows_passwd [OF assms(1,2), of lg] obtain prs where prs: "pw_rows (set (snapshot_items c)) (snapshot_rows c lg) prs"
    by (auto simp: pw_ok_def)
  have own: "row_shape l" if "l \<in> set (passwd_lines (snapshot_rows c lg))" for l
  proof -
    from that prs obtain r' n where l: "l = passwd_line r' n" and r': "r' \<in> set (snapshot_items c)"
      and n: "n \<in> set (nss_passwd_logins_for r')" by (auto simp: pw_rows_def)
    from r' assms(3) have f: "field (r_principal r')" "principal_has_realm (r_principal r')" by (auto simp: snapshot_items_def)
    have "list_all nss_safe (principal_local_part (r_principal r'))"
      using f(1) local_part_subset [of "r_principal r'"] by (auto simp: field_def list_all_iff)
    with n have "list_all nss_safe n"
      using field_sanitize [of "r_name r'"] field_at [of "r_principal r'"]
      by (auto simp: nss_passwd_logins_for_def Let_def set_sort_dedup field_def split: if_splits)
    with f l show ?thesis by (simp add: passwd_line_shape)
  qed
  have "list_all nss_safe ''root''" "list_all nss_safe ''nobody''" by (simp_all add: nss_safe_def char_class_defs)
  note shapes = row_shapeI [OF _ this(1), of "''x:0:0:root:/root:/bin/sh''"] row_shapeI [OF _ this(2)]
  have "row_shape exact_root_passwd" using shapes(1) by (simp add: exact_root_passwd_def line_feed_def)
  moreover have "row_shape (''nobody:x:'' @ show_word FALLBACK_NOBODY_UID @ '':'' @ show_word FALLBACK_NOBODY_GID
                      @ '':nfs-klldap fallback:/nonexistent:/usr/sbin/nologin'')"
    using shapes(2) [of "''x:'' @ show_word FALLBACK_NOBODY_UID @ '':'' @ show_word FALLBACK_NOBODY_GID
                      @ '':nfs-klldap fallback:/nonexistent:/usr/sbin/nologin''"]
      plain_field [OF field_digits [of FALLBACK_NOBODY_UID]] plain_field [OF field_digits [of FALLBACK_NOBODY_GID]]
    by (simp add: line_feed_def)
  ultimately have "\<forall>l \<in> set (finish_passwd ls). row_shape l" if "\<forall>l \<in> set ls. row_shape l" for ls
    using that unfolding finish_passwd_def Let_def
    by (auto dest: set_takeWhileD subsetD [OF set_tl_dropWhile])
  from this [of "passwd_lines (snapshot_rows c lg)"] own show ?thesis by (simp add: build_nss_snapshot_def Let_def)
qed

lemma parse_own_row: "field l \<Longrightarrow> parse_getent_passwd (trim (passwd_line r l)) = Some (r_uid r, r_gid r)"
proof -
  assume f: "field l"
  have "trim l = l" using f nss_safe_inked by (intro trim_inked) (auto simp: field_def list_all_iff)
  moreover have "hd l \<noteq> CHR ''#''" using f nss_safe_not by (cases l) (auto simp: field_def)
  ultimately have "Identity_Ldap.row_name l" using f field_not(1) [OF f] by (simp add: Identity_Ldap.row_name_def field_def)
  from passwd_row_back [of "\<lparr>pw_name = l, pw_uid = r_uid r, pw_gid = r_gid r\<rparr>", simplified, OF this]
  have "parse_passwd_row (passwd_line r l) = Some \<lparr>pw_name = l, pw_uid = r_uid r, pw_gid = r_gid r\<rparr>"
    by (simp add: passwd_line_def format_passwd_row_def)
  then show ?thesis by (simp add: parse_getent_passwd_def parse_passwd_row_def)
qed

lemma snapshot_lines:
  assumes "(k, r) \<in> set c" and "principal_has_realm (r_principal r)"
    and "\<not> is_numeric_local_principal (r_principal r)" and "\<forall>(k', r') \<in> set c. field (r_principal r')"
  shows "lines (file_text (fst (build_nss_snapshot c lg))) = fst (build_nss_snapshot c lg)"
proof -
  have "r \<in> set (snapshot_items c)" using assms(1,2) by (force simp: snapshot_items_def)
  from snapshot_passwd_shape [OF this assms(3,4)] show ?thesis
    unfolding file_text_def by (intro lines_terminated) (auto simp: row_shape_def plain_strip_cr plain_def)
qed

lemma snapshot_lines_shape:
  assumes "(k, r) \<in> set c" and "principal_has_realm (r_principal r)"
    and "\<not> is_numeric_local_principal (r_principal r)" and "\<forall>(k', r') \<in> set c. field (r_principal r')"
  shows "\<forall>l \<in> set (lines (file_text (fst (build_nss_snapshot c lg)))). row_shape l"
proof -
  have "r \<in> set (snapshot_items c)" using assms(1,2) by (force simp: snapshot_items_def)
  from snapshot_passwd_shape [OF this assms(3,4)] show ?thesis by (simp only: snapshot_lines [OF assms])
qed

lemma snapshot_lookup:
  assumes "wf_cache c" and "(k, r) \<in> set c" and "principal_has_realm (r_principal r)"
    and "\<not> is_numeric_local_principal (r_principal r)" and "\<forall>(k', r') \<in> set c. field (r_principal r')"
  shows "lookup_passwd_lines (r_principal r) (lines (file_text (fst (build_nss_snapshot c lg)))) = Some (r_uid r, r_gid r)"
proof -
  note shape = snapshot_lines_shape [OF assms(2-5), of lg, unfolded snapshot_lines [OF assms(2-5)]]
  with snapshot_lines [OF assms(2-5), of lg] lookup_only_row [OF shape principal_row [OF assms]] assms(2,5) show ?thesis by (auto simp: parse_own_row)
qed

lemma materialize_writes:
  assumes "\<forall>q. can_write (i_io e) q"
  shows "id_stores (materialize e lg s) q \<noteq> None" and "q \<in> {NssPasswd, ExtraPasswd} \<Longrightarrow>
    id_stores (materialize e lg s) q = Some (file_text (fst (build_nss_snapshot (id_cache s) lg)))"
  using assms by (cases q; auto simp: materialize_def materialize_nss_wrappers_at_def write_atomic_if_changed_def split: prod.splits)+

lemma ensure_login_passwd: "q \<in> {NssPasswd, ExtraPasswd} \<Longrightarrow> id_stores (ensure_login e g l s) q = id_stores s q"
proof -
  have "snd (ensure_in_file io g n p fs) q = fs q" if "q \<noteq> p" for io n p fs
    using that by (auto simp: ensure_in_file_def Let_def write_atomic_if_changed_def)
  then show "q \<in> {NssPasswd, ExtraPasswd} \<Longrightarrow> id_stores (ensure_login e g l s) q = id_stores s q"
    by (auto simp: ensure_login_def ensure_nss_group_member_login_def Let_def split: prod.splits sum.splits) (metis snd_conv store.distinct)+
qed

lemma ensure_memberships_passwd:
  assumes "q \<in> {NssPasswd, ExtraPasswd}"
  shows "id_stores (ensure_memberships e r gids s) q = id_stores s q"
proof -
  have fold: "id_stores (fold f xs s) q = id_stores s q" if "\<And>x s. id_stores (f x s) q = id_stores s q" for f xs s
    using that by (induction xs arbitrary: s) simp_all
  show ?thesis
    by (auto simp: ensure_memberships_def ensure_root_on_supplemental_groups_def Let_def
        ensure_login_passwd [OF assms] fold split: option.split)
qed

lemma settled_file:
  assumes "fresh_entry r" and "principal_has_realm (r_principal r)" and "sound_cache (id_cache s)"
    and "cache_get (id_cache s) (normalize_principal (r_principal r)) = None"
    and "field (r_principal r)" and "\<forall>(k, x) \<in> set (id_cache s). field (r_principal x)"
    and "\<forall>q. can_write (i_io e) q" and "q \<in> {NssPasswd, ExtraPasswd}"
  shows "\<exists>c lg k x. id_stores (settle e r s) q = Some (file_text (fst (build_nss_snapshot c lg)))
     \<and> wf_cache c \<and> (k, r\<lparr>supplemental_gids := x\<rparr>) \<in> set c \<and> (\<forall>(k, x) \<in> set c. field (r_principal x))"
proof -
  let ?k = "normalize_principal (r_principal r)"
  let ?c = "pruned (cache_insert r (id_cache s))"
  obtain gids s1 where s1: "compute_gids_for_resolved e r (r_principal r) (s\<lparr>id_cache := ?c\<rparr>) = (gids, s1)" by (rule prod.exhaust)
  define s2 where "s2 = persist_supps e r (found_supps r gids) s1"
  obtain f where s2: "id_cache s2 = with_supps ?k f ?c"
    using persist_supps_cache [of e r "found_supps r gids" s1] computed(4) [OF s1] by (auto simp: s2_def)
  have sound: "sound_cache (id_cache s2)"
    using sound.supps [OF sound.add [OF assms(3,1,4)]] assms(2) by (simp add: s2)
  have "cache_get (id_cache s2) ?k = Some (r\<lparr>supplemental_gids := f r\<rparr>)"
    using assms(1,2) get_pruned [of "cache_insert r (id_cache s)" ?k r] by (simp add: s2 get_with_supps get_insert fresh_entry_def)
  then have entry: "(?k, r\<lparr>supplemental_gids := f r\<rparr>) \<in> set (id_cache s2)" by (simp add: cache_get_def map_of_SomeD)
  have fields: "\<forall>(k, x) \<in> set (id_cache s2). field (r_principal x)"
    using assms(5,6) by (auto simp: s2 set_pruned cache_insert_def cache_remove_def Let_def dest!: set_with_supps)
  obtain lg s3 where s3: "snapshot_groups e s2 = (lg, s3)" by (rule prod.exhaust)
  then have c3: "id_cache s3 = id_cache s2" using snapshot_groups_records [of e s2] by (simp add: records_def)
  have "id_stores (settle e r s) q = id_stores (ensure_nss_materialized_for e r gids s2) q"
    using settle_known [OF assms(2) _ s1 refl] assms(1,2) by (auto simp: fresh_entry_def s2_def)
  also have "\<dots> = Some (file_text (fst (build_nss_snapshot (id_cache s2) lg)))"
    using ensure_memberships_passwd [OF assms(8)] materialize_writes(2) [OF assms(7,8)]
    by (simp add: ensure_nss_materialized_for_def s3 c3)
  finally show ?thesis using sound entry fields by (auto simp: sound_cache_def)
qed

lemma settled_passwd:
  assumes "fresh_entry r" and "principal_has_realm (r_principal r)" and "sound_cache (id_cache s)"
    and "cache_get (id_cache s) (normalize_principal (r_principal r)) = None"
    and "field (r_principal r)" and "\<forall>(k, x) \<in> set (id_cache s). field (r_principal x)"
    and "\<forall>q. can_write (i_io e) q" and "q \<in> {NssPasswd, ExtraPasswd}"
  shows "\<exists>content. id_stores (settle e r s) q = Some content
     \<and> lookup_passwd_lines (r_principal r) (lines content) = Some (r_uid r, r_gid r)
     \<and> (\<forall>l \<in> set (lines content). row_shape l)"
proof -
  from settled_file [OF assms] obtain c lg k x where c: "id_stores (settle e r s) q = Some (file_text (fst (build_nss_snapshot c lg)))"
    "wf_cache c" and entry: "(k, r\<lparr>supplemental_gids := x\<rparr>) \<in> set c" and fields: "\<forall>(k, x) \<in> set c. field (r_principal x)"
    by blast
  have numeric: "\<not> is_numeric_local_principal (r_principal r)" using assms(1) by (simp add: fresh_entry_def)
  note found = snapshot_lookup [OF c(2) entry, of lg] snapshot_lines_shape [OF entry, of lg]
  from found numeric fields assms(2) show ?thesis by (simp add: c(1))
qed

lemma resolved_passwd_file:
  assumes "resolve_principal e princ rlm server_variants s = (r, s')" and "\<not> is_unresolved_fail_closed r"
    and "p = canonicalize_principal (trim princ) rlm" and "principal_has_realm p" and "\<not> is_numeric_local_principal p"
    and "cache_get (id_cache s) (normalize_principal p) = None" and "sound_cache (id_cache s)"
    and "field p" and "\<forall>(k, x) \<in> set (id_cache s). field (r_principal x)"
    and "\<forall>q. can_write (i_io e) q" and "q \<in> {NssPasswd, ExtraPasswd}"
  shows "\<exists>content. id_stores s' q = Some content
     \<and> lookup_passwd_lines p (lines content) = Some (r_uid r, r_gid r) \<and> (\<forall>l \<in> set (lines content). row_shape l)"
proof (cases rule: resolve_principal_cases [of princ rlm e server_variants s])
  case (hit x)
  with assms(3,6) show ?thesis by (simp add: cached_Some)
next
  case (fresh r1 s1)
  then have r: "r = r1" "s' = settle e r s1" using assms(1,2) by (auto split: if_splits)
  from resolve_fresh_entry [OF fresh(3)] r assms(2,3,5) have entry: "fresh_entry r" "r_principal r = p" by simp_all
  have c1: "id_cache s1 = cache_remove (normalize_principal p) (id_cache s)"
    using resolve_fresh_records [of e p rlm server_variants "s\<lparr>id_cache := cache_remove (normalize_principal p) (id_cache s)\<rparr>"] fresh(3)
    by (simp add: records_def assms(3))
  have "sound_cache (id_cache s1)" unfolding c1 using assms(6,7) by (intro sound.drop) (simp_all add: cached_def opt_filter_def)
  moreover have "\<forall>(k, x) \<in> set (id_cache s1). field (r_principal x)" using assms(9) by (auto simp: c1 cache_remove_def)
  ultimately show ?thesis
    using settled_passwd [of r s1 e q] entry assms(4,8,10,11) by (simp add: r(2) c1 cache_get_remove)
qed (use assms(3,5) in simp)

text \<open>
  A realm principal that was resolved afresh can be looked up in the files: when they can be
  written, both passwd files answer its full name with the uid and gid of the resolution, so the
  server and a restarted helper see the same ids without the directory.
\<close>

theorem resolved_principal_in_passwd_files:
  assumes "resolve_principal e princ rlm server_variants s = (r, s')" and "\<not> is_unresolved_fail_closed r"
    and "p = canonicalize_principal (trim princ) rlm" and "principal_has_realm p" and "\<not> is_numeric_local_principal p"
    and "cache_get (id_cache s) (normalize_principal p) = None" and "sound_cache (id_cache s)"
    and "field p" and "\<forall>(k, x) \<in> set (id_cache s). field (r_principal x)"
    and "\<forall>q. can_read (i_io e) q \<and> can_write (i_io e) q"
  shows "lookup_passwd_file e NssPasswd p (id_stores s') = Some (r_uid r, r_gid r)
    \<and> lookup_passwd_file e ExtraPasswd p (id_stores s') = Some (r_uid r, r_gid r)"
proof -
  have "lookup_passwd_file e q p (id_stores s') = Some (r_uid r, r_gid r)" if "q \<in> {NssPasswd, ExtraPasswd}" for q
    using resolved_passwd_file [OF assms(1-9) _ that] assms(10) by (auto simp: lookup_passwd_file_def read_store_def)
  then show ?thesis by simp
qed

section \<open>A sample run\<close>

text \<open>A host whose name service knows one realm user and one local account, and no directory.\<close>

definition sample_id_env :: id_env where
  "sample_id_env =
     \<lparr>i_ldap = \<lparr>l_clock = (\<lambda>_. 0), l_try = (\<lambda>_ _ _ _ _ _. AttemptFailed False)\<rparr>,
      i_getent = (\<lambda>_. [''alice@HOME.ARPA'' \<mapsto> ''alice@HOME.ARPA:x:7:8:Alice:/:/bin/sh'']),
      i_env = (\<lambda>_. None), i_conf = (\<lambda>_. Inl ConfigIo), i_io = all_io, i_cache_write = (\<lambda>_. True)\<rparr>"

definition sample_id_state :: id_state where
  "sample_id_state = \<lparr>id_cache = [], id_stores = (\<lambda>_. None), cache_file = None, id_resolver = None, i_looks = 0, asked = []\<rparr>"

lemma sample_canonical:
  "canonicalize_principal (trim ''alice@home.arpa'') ''HOME.ARPA'' = ''alice@HOME.ARPA''"
  "canonicalize_principal (trim ''bob'') ''HOME.ARPA'' = ''bob@HOME.ARPA''"
  by code_simp+

lemma sample_names:
  "principal_has_realm ''alice@HOME.ARPA''" "\<not> is_numeric_local_principal ''alice@HOME.ARPA''" "trim ''alice@HOME.ARPA'' = ''alice@HOME.ARPA''"
  "principal_has_realm ''bob@HOME.ARPA''" "\<not> is_numeric_local_principal ''bob@HOME.ARPA''" "trim ''bob@HOME.ARPA'' = ''bob@HOME.ARPA''"
  "\<not> fst (classify_principal ''bob@HOME.ARPA'' ''HOME.ARPA'' [])" "\<not> fst (classify_principal ''alice@HOME.ARPA'' ''HOME.ARPA'' [])"
  by code_simp+

lemma alice_row: "parse_getent_passwd ''alice@HOME.ARPA:x:7:8:Alice:/:/bin/sh'' = Some (7, 8)"
proof -
  have "Identity_Ldap.row_name ''alice@HOME.ARPA''" by code_simp
  then have "parse_passwd_row (format_passwd_row \<lparr>pw_name = ''alice@HOME.ARPA'', pw_uid = 7, pw_gid = 8\<rparr> ''Alice:/:/bin/sh'') =
      Some \<lparr>pw_name = ''alice@HOME.ARPA'', pw_uid = 7, pw_gid = 8\<rparr>" by (intro passwd_row_back) simp
  moreover have "format_passwd_row \<lparr>pw_name = ''alice@HOME.ARPA'', pw_uid = 7, pw_gid = 8\<rparr> ''Alice:/:/bin/sh'' =
      ''alice@HOME.ARPA:x:7:8:Alice:/:/bin/sh''" by code_simp
  ultimately show ?thesis by (simp add: parse_getent_passwd_def)
qed

lemma alice_known: "fst (resolve_via_nss sample_id_env ''alice@HOME.ARPA'' s) = Some (7, 8, ''sss'')"
proof -
  have "lines ''alice@HOME.ARPA:x:7:8:Alice:/:/bin/sh'' = [''alice@HOME.ARPA:x:7:8:Alice:/:/bin/sh'']" by code_simp
  then have "fst (resolve_getent sample_id_env ''alice@HOME.ARPA'' s) = Some (7, 8, ''sss'')"
    by (simp add: resolve_getent_def Let_def sample_id_env_def alice_row with_source_def opt_or_def)
  then show ?thesis by (simp add: resolve_via_nss_def Let_def case_prod_beta sample_names resolve_identity_candidates_def)
qed

lemma bob_unknown: "fst (resolve_via_nss sample_id_env ''bob@HOME.ARPA'' sample_id_state) = None"
proof -
  have files: "fst (resolve_getent sample_id_env ''bob@HOME.ARPA'' sample_id_state) = None"
    by (simp add: resolve_getent_def Let_def sample_id_env_def sample_id_state_def lookup_passwd_file_def read_store_def opt_or_def i_tick_def)
  have "id_resolver (snd (resolve_getent sample_id_env ''bob@HOME.ARPA'' sample_id_state)) = None"
    by (simp add: resolve_getent_def Let_def sample_id_state_def i_tick_def)
  then have "fst (resolve_via_structured_ldap sample_id_env ''bob@HOME.ARPA''
      (snd (resolve_getent sample_id_env ''bob@HOME.ARPA'' sample_id_state))) = None"
    by (simp add: resolve_via_structured_ldap_def get_or_init_resolver_def load_resolver_from_config_def load_def
        sample_id_env_def i_tick_def)
  moreover have "test_force_ldap_uid_gid sample_id_env nm = None" for nm by (simp add: test_force_ldap_uid_gid_def sample_id_env_def)
  ultimately show ?thesis
    using files by (simp add: resolve_via_nss_def Let_def case_prod_beta sample_names resolve_identity_candidates_def)
qed

lemma sample_state_simps [simp]:
  "id_cache sample_id_state = []" "cache_get [] k = None" "sample_id_state\<lparr>id_cache := []\<rparr> = sample_id_state" "cache_remove k [] = []"
  "sound_cache []"
  by (simp_all add: sample_id_state_def cache_get_def cache_remove_def sound_cache_def)

abbreviation alice_run :: "Resolved \<times> id_state" where
  "alice_run \<equiv> resolve_principal sample_id_env ''alice@home.arpa'' ''HOME.ARPA'' [] sample_id_state"

lemma alice_run_result: "fst alice_run = plain_result ''alice@HOME.ARPA'' ''alice'' 7 8 User ''sss''"
proof -
  have "principal_local_part ''alice@HOME.ARPA'' = ''alice''" by code_simp
  moreover obtain s1 where "resolve_via_nss sample_id_env ''alice@HOME.ARPA'' sample_id_state = (Some (7, 8, ''sss''), s1)"
    using alice_known by (metis prod.collapse)
  ultimately have "fst (resolve_fresh sample_id_env ''alice@HOME.ARPA'' ''HOME.ARPA'' [] sample_id_state) =
      plain_result ''alice@HOME.ARPA'' ''alice'' 7 8 User ''sss''"
    using sample_names by (simp add: resolve_fresh_def)
  moreover have "\<not> is_unresolved_fail_closed (plain_result ''alice@HOME.ARPA'' ''alice'' 7 8 User ''sss'')"
    by (simp add: is_unresolved_fail_closed_def plain_result_def RESOLVE_FAIL_CLOSED_SOURCE_def)
  ultimately show ?thesis
    unfolding resolve_principal_def Let_def sample_canonical using sample_names by (simp add: opt_filter_def case_prod_beta)
qed

lemma alice_run_pair: "alice_run = (plain_result ''alice@HOME.ARPA'' ''alice'' 7 8 User ''sss'', snd alice_run)"
  using alice_run_result by (metis prod.collapse)

lemma alice_accepted: "\<not> is_unresolved_fail_closed (plain_result ''alice@HOME.ARPA'' ''alice'' 7 8 User ''sss'')"
  by (simp add: is_unresolved_fail_closed_def plain_result_def RESOLVE_FAIL_CLOSED_SOURCE_def)

text \<open>An account named like the principal, with uid 0, does not change the answer.\<close>

theorem realm_principal_full_name_only_witness:
  "resolve_principal (sample_id_env\<lparr>i_getent := \<lambda>i. (i_getent sample_id_env i)(''alice'' \<mapsto> ''alice:x:0:0::/:/bin/sh'')\<rparr>)
     ''alice@home.arpa'' ''HOME.ARPA'' [] sample_id_state = alice_run"
  using sample_names by (intro realm_principal_full_name_only) (simp_all add: sample_canonical)

theorem refused_iff_unknown_witness:
  "\<exists>r s'. resolve_principal sample_id_env ''bob'' ''HOME.ARPA'' [] sample_id_state = (r, s')
     \<and> format_resolve_socket_line r = RESOLVE_ERR_UNRESOLVED \<and> id_stores s' = (\<lambda>_. None) \<and> cache_file s' = None \<and> id_cache s' = []"
proof -
  obtain r s' where r: "resolve_principal sample_id_env ''bob'' ''HOME.ARPA'' [] sample_id_state = (r, s')" by (rule prod.exhaust)
  note refused = refused_iff_unknown [OF r, unfolded sample_canonical]
  have "is_unresolved_fail_closed r" unfolding conjunct1 [OF refused] using sample_names bob_unknown by simp
  with conjunct2 [OF refused] r show ?thesis by (simp add: sample_id_state_def cache_remove_def)
qed

theorem resolution_keeps_cache_sound_witness: "sound_cache (id_cache (snd alice_run))"
  by (rule resolution_keeps_cache_sound [of sample_id_state]) (auto intro: id_step.resolve)

theorem resolved_stays_resolved_witness:
  "\<exists>x s2. s2 = refresh_supplemental_nss_for_cached_users sample_id_env ''HOME.ARPA'' [] (snd alice_run)
     \<and> resolve_principal (sample_id_env\<lparr>i_getent := \<lambda>_ _. None\<rparr>) ''alice@home.arpa'' ''HOME.ARPA'' [] s2 = (x, s2)
     \<and> r_uid x = 7 \<and> r_gid x = 8 \<and> r_kind x = User"
proof -
  have "id_step\<^sup>*\<^sup>* (snd alice_run) (refresh_supplemental_nss_for_cached_users sample_id_env ''HOME.ARPA'' [] (snd alice_run))"
    by (rule r_into_rtranclp) (rule id_step.refresh)
  from resolved_stays_resolved [OF alice_run_pair alice_accepted, unfolded sample_canonical, OF sample_names(1,2) _ this]
  show ?thesis by (simp add: plain_result_def)
qed

theorem group_list_shape_witness:
  "\<exists>gids s'. resolve_gids_and_materialize sample_id_env ''alice@home.arpa'' ''HOME.ARPA'' [] False sample_id_state = (gids, s')
     \<and> gids \<noteq> [] \<and> distinct gids \<and> hd gids = 8"
proof -
  obtain gids s' where g: "resolve_gids_and_materialize sample_id_env ''alice@home.arpa'' ''HOME.ARPA'' [] False sample_id_state = (gids, s')"
    by (rule prod.exhaust)
  have "\<not> eq_ignore_ascii_case (trim ''alice@home.arpa'') ''root''" "trim ''alice@home.arpa'' \<noteq> ''0''" by code_simp+
  from group_list_shape [OF g alice_run_pair this] show ?thesis using g alice_accepted by (simp add: plain_result_def)
qed

theorem resolved_principal_in_passwd_files_witness:
  "lookup_passwd_file sample_id_env ExtraPasswd ''alice@HOME.ARPA'' (id_stores (snd alice_run)) = Some (7, 8)"
proof -
  have "field ''alice@HOME.ARPA''" by code_simp
  moreover have "can_read (i_io sample_id_env) q \<and> can_write (i_io sample_id_env) q" for q by (simp add: sample_id_env_def all_io_def)
  ultimately show ?thesis
    using resolved_principal_in_passwd_files [OF alice_run_pair alice_accepted sample_canonical(1) [symmetric] sample_names(1,2)]
    by (simp add: plain_result_def)
qed

end
