(* ===== verification/Id_Daemon_Laws.thy ===== *)
theory Id_Daemon_Laws
  imports Id_Daemon Id_Resolve_Laws
begin

text \<open>
  Laws of the identity service: what an outage and a reload leave behind, the invariants of the
  cache under every request, answers read back by the clients, and the threads.
\<close>

section \<open>Frames\<close>

lemma warm_users_records [simp]: "records (snd (warm_users e rlm nms live s)) = records s"
  by (induction e rlm nms live s rule: warm_users.induct) (simp_all add: case_prod_beta Let_def fold_records)

lemma warm_rebulk_records [simp]: "records (snd (warm_rebulk_group_cache e rlm pre s)) = records s"
  by (simp add: warm_rebulk_group_cache_def fold_records)

lemma materialize_or_fail_frame [simp]:
  "id_cache (snd (materialize_or_fail e g s)) = id_cache s" "cache_file (snd (materialize_or_fail e g s)) = cache_file s"
  by (simp_all add: materialize_or_fail_def split: prod.split sum.split)

lemma records_via: "x = (a, t) \<Longrightarrow> records (snd x) = records s \<Longrightarrow> records t = records s"
  by simp

text \<open>A reload either ends before it touches anything, or synchronises with one snapshot.\<close>

lemma rebulk_cases:
  obtains (untouched) "fst (rebulk_ldap_users e rlm sv s) = None" "records (snd (rebulk_ldap_users e rlm sv s)) = records s"
  | (synced) snap live s1 where "records s1 = records s"
    "rebulk_ldap_users e rlm sv s =
       (case rebulk_apply_sync e rlm sv snap live s1 of (Inl _, s) \<Rightarrow> (None, s) | (Inr n, s) \<Rightarrow> (Some n, s))"
proof -
  define s0 where "s0 = get_or_init_resolver e s"
  obtain loaded s2 where l: "call_resolver e load_full_identities s0 = (loaded, s2)" by (rule prod.exhaust)
  obtain pre s3 where p: "call_resolver e snapshot_call s2 = (pre, s3)" by (rule prod.exhaust)
  obtain live s4 where w: "warm_rebulk_group_cache e rlm (the pre) s3 = (live, s4)" by (rule prod.exhaust)
  obtain snap s5 where n: "call_resolver e snapshot_call s4 = (snap, s5)" by (rule prod.exhaust)
  have rec: "records s2 = records s" "records s3 = records s" "records s4 = records s" "records s5 = records s"
    using records_via [OF l call_resolver_records] records_via [OF p call_resolver_records]
      records_via [OF w warm_rebulk_records] records_via [OF n call_resolver_records] by (simp_all add: s0_def)
  show thesis
  proof (cases "loaded = None \<or> loaded = Some 0 \<or> pre = None \<or> snap = None")
    case True
    then have "fst (rebulk_ldap_users e rlm sv s) = None \<and> records (snd (rebulk_ldap_users e rlm sv s)) = records s"
      using rec l p w n by (auto simp: rebulk_ldap_users_def Let_def s0_def [symmetric] split: option.splits)
    then show thesis using untouched by blast
  next
    case False
    then obtain k pre' snap' where v: "loaded = Some k" "k \<noteq> 0" "pre = Some pre'" "snap = Some snap'" by auto
    show thesis
      by (rule synced [OF rec(4), of snap' live])
        (use v l p w n in \<open>simp add: rebulk_ldap_users_def Let_def s0_def [symmetric]\<close>)
  qed
qed

text \<open>
  When the directory cannot be reached, or returns no user, a reload is answered with an error
  and the cache, its file and the four files of the name service stay as they were: an outage
  takes no identity away.
\<close>

theorem rebulk_outage_keeps_identities:
  assumes "fst (call_resolver e load_full_identities (get_or_init_resolver e s)) \<in> {None, Some 0}"
  shows "(case handle_client e rlm server_variants (''REBULK'' @ [line_feed]) s of (reply, s') \<Rightarrow>
     reply = ''ERR rebulk failed'' @ [line_feed]
     \<and> id_cache s' = id_cache s \<and> id_stores s' = id_stores s \<and> cache_file s' = cache_file s)"
proof -
  have "fst (rebulk_ldap_users e rlm server_variants s) = None \<and> records (snd (rebulk_ldap_users e rlm server_variants s)) = records s"
    using assms call_resolver_records [of e load_full_identities "get_or_init_resolver e s"]
    by (auto simp: rebulk_ldap_users_def Let_def case_prod_beta split: option.splits)
  moreover have "request_parts (trim (first_line (''REBULK'' @ [line_feed]))) = (''REBULK'', [])" by code_simp
  moreover have "trim (first_line (''REBULK'' @ [line_feed])) \<noteq> []" by code_simp
  ultimately show ?thesis
    by (auto simp: handle_client_def answer_def Let_def records_def split: prod.splits option.splits)
qed

section \<open>A reload leaves the files in step\<close>

lemma materialize_or_fail_Ok:
  assumes "materialize_or_fail e (Some groups) s = (Inr (), s')"
  shows "id_stores s' NssPasswd = Some (file_text (fst (build_nss_snapshot (id_cache s') (Some groups))))"
    and "id_stores s' NssGroup = Some (file_text (snd (build_nss_snapshot (id_cache s') (Some groups))))"
    and "id_stores s' ExtraPasswd = id_stores s' NssPasswd" and "id_stores s' ExtraGroup = id_stores s' NssGroup"
proof -
  obtain w where w: "materialize_nss_wrappers_at (i_io e) (id_cache s) (Some groups) (id_stores s) = (Inr w, id_stores s')"
    and c: "id_cache s' = id_cache s"
    using assms by (auto simp: materialize_or_fail_def split: prod.splits sum.splits)
  obtain pw gr where b: "build_nss_snapshot (id_cache s) (Some groups) = (pw, gr)" by (rule prod.exhaust)
  from w have "write_stores (i_io e) [(NssPasswd, file_text pw), (NssGroup, file_text gr), (ExtraPasswd, file_text pw), (ExtraGroup, file_text gr)]
      False (id_stores s) = (Inr w, id_stores s')"
    by (simp add: materialize_nss_wrappers_at_def b)
  from write_stores_Ok [OF this] show "id_stores s' NssPasswd = Some (file_text (fst (build_nss_snapshot (id_cache s') (Some groups))))"
    "id_stores s' NssGroup = Some (file_text (snd (build_nss_snapshot (id_cache s') (Some groups))))"
    "id_stores s' ExtraPasswd = id_stores s' NssPasswd" "id_stores s' ExtraGroup = id_stores s' NssGroup"
    by (simp_all add: c b)
qed

text \<open>
  After a reload that reports success, the passwd and group files, in both places, are the rows
  of the cache as it is in memory, with the groups of the snapshot that was loaded: nothing the
  reload learned late, such as memberships found one user at a time, is missing from the files.
\<close>

theorem rebulk_files_match_cache:
  assumes "rebulk_apply_sync e rlm server_variants snap live s = (Ok n, s')"
  shows "id_stores s' NssPasswd = Some (file_text (fst (build_nss_snapshot (id_cache s') (Some (snap_groups snap)))))
     \<and> id_stores s' NssGroup = Some (file_text (snd (build_nss_snapshot (id_cache s') (Some (snap_groups snap)))))
     \<and> id_stores s' ExtraPasswd = id_stores s' NssPasswd \<and> id_stores s' ExtraGroup = id_stores s' NssGroup"
proof -
  obtain t t' where m: "materialize_or_fail e (Some (snap_groups snap)) t = (Inr (), t')" and s': "s' = t' \<or> s' = write_cache_file e t'"
    using assms by (auto simp: rebulk_apply_sync_def Let_def split: prod.splits sum.splits if_splits)
  show ?thesis using materialize_or_fail_Ok [OF m] s' by auto
qed

section \<open>The cache under every request\<close>

locale daemon_invariant = id_invariant +
  assumes sync: "I c \<Longrightarrow> I (fst (sync_user_cache_from_snapshot snap rlm live c))"
begin

lemma apply_sync_inv: "I (id_cache s) \<Longrightarrow> I (id_cache (snd (rebulk_apply_sync e rlm sv snap live s)))"
proof -
  assume I: "I (id_cache s)"
  obtain c n where c: "sync_user_cache_from_snapshot snap rlm live (id_cache s) = (c, n)" by (rule prod.exhaust)
  have "I c" using sync [OF I, of snap rlm live] c by simp
  then have 1: "I (id_cache (snd (materialize_or_fail e (Some (snap_groups snap)) (s\<lparr>id_cache := c\<rparr>))))" by simp
  then have 2: "I (id_cache (snd (materialize_or_fail e (Some (snap_groups snap))
      (refresh_supplemental_nss_for_cached_users e rlm sv (snd (materialize_or_fail e (Some (snap_groups snap)) (s\<lparr>id_cache := c\<rparr>)))))))"
    using refresh_inv by simp
  from 1 2 show ?thesis
    by (auto simp: rebulk_apply_sync_def Let_def c case_prod_beta split: sum.split)
qed

lemma rebulk_inv: "I (id_cache s) \<Longrightarrow> I (id_cache (snd (rebulk_ldap_users e rlm sv s)))"
proof (cases rule: rebulk_cases [of e rlm sv s])
  case untouched
  then show "I (id_cache s) \<Longrightarrow> ?thesis" by (simp add: records_def)
next
  case (synced snap live s1)
  assume "I (id_cache s)"
  then have "I (id_cache (snd (rebulk_apply_sync e rlm sv snap live s1)))"
    using synced(1) by (intro apply_sync_inv) (simp add: records_def)
  then show ?thesis using synced(2) by (auto split: prod.splits sum.splits)
qed

lemma answer_inv: "I (id_cache s) \<Longrightarrow> I (id_cache (snd (answer e rlm sv verb arg s)))"
  using rebulk_inv [of s e rlm sv] resolve_principal_inv [of s e arg rlm sv] resolve_gids_inv [of s e _ rlm sv False]
  by (auto simp: answer_def Let_def case_prod_beta split: option.split)

lemma handle_client_inv: "I (id_cache s) \<Longrightarrow> I (id_cache (snd (handle_client e rlm sv stream s)))"
  by (simp add: handle_client_def Let_def case_prod_beta answer_inv)

lemma resolve_all_inv: "I (id_cache s) \<Longrightarrow> I (id_cache (resolve_all e rlm sv ps s))"
  unfolding resolve_all_def by (induction ps arbitrary: s) (simp_all add: resolve_principal_inv)

lemma run_daemon_inv: "I (id_cache (load_cache e s)) \<Longrightarrow> I (id_cache (run_daemon e rlm sv s))"
proof -
  assume "I (id_cache (load_cache e s))"
  then have "I (id_cache (get_or_init_resolver e (load_cache e s)))"
    using get_or_init_records [of e "load_cache e s"] by (simp add: records_def)
  then have 1: "I (id_cache (snd (rebulk_ldap_users e rlm sv (get_or_init_resolver e (load_cache e s)))))" by (rule rebulk_inv)
  define s1 where "s1 = resolve_all e rlm sv (server_principals rlm sv) (snd (rebulk_ldap_users e rlm sv (get_or_init_resolver e (load_cache e s))))"
  have "I (id_cache s1)" unfolding s1_def by (intro resolve_all_inv 1)
  then have "I (id_cache (snd (snapshot_groups e s1)))"
    using snapshot_groups_records [of e s1] by (simp add: records_def)
  then show ?thesis
    by (simp add: run_daemon_def Let_def s1_def [symmetric] case_prod_beta resolve_all_inv refresh_inv)
qed

end

lemma wf_sync: "wf_cache c \<Longrightarrow> wf_cache (fst (sync_user_cache_from_snapshot snap rlm live c))"
proof -
  assume "wf_cache c"
  define seeded where "seeded = foldl (\<lambda>c b. cache_insert (seeded_entry snap rlm b) c) (prune_non_machine_users c) (best_per_uid snap)"
  have "wf_cache (foldl (\<lambda>c b. cache_insert (seeded_entry snap rlm b) c) d bs)" if "wf_cache d" for d bs
    using that by (induction bs arbitrary: d) (simp_all add: wf_cache_insert)
  then have "wf_cache seeded" using \<open>wf_cache c\<close> by (simp add: seeded_def wf_cache_prunes)
  moreover have "fst \<circ> (\<lambda>(k :: string, e). (k, fold_live live e)) = fst" by auto
  ultimately have "wf_cache (map (\<lambda>(k, e). (k, fold_live live e)) seeded)" unfolding wf_cache_def map_map by auto
  then show ?thesis
    by (simp add: sync_user_cache_from_snapshot_def seed_cache_and_nss_from_snapshot_def Let_def seeded_def wf_cache_prunes)
qed

lemma sync_entries:
  assumes "(k, r) \<in> set (fst (sync_user_cache_from_snapshot snap rlm live c))"
  obtains r0 where "r = fold_live live r0" "principal_has_realm (r_principal r)"
    "r_kind r = Machine \<or> \<not> is_numeric_local_principal (r_principal r)" "(k, r0) \<in> set c \<and> r_kind r0 = Machine \<or> r_kind r0 = User"
proof -
  from assms obtain r0 where r0: "r = fold_live live r0" "principal_has_realm (r_principal r)"
      "r_kind r = Machine \<or> \<not> is_numeric_local_principal (r_principal r)"
    and in0: "(k, r0) \<in> set (fst (seed_cache_and_nss_from_snapshot snap rlm (prune_non_machine_users c)))"
    by (auto simp: sync_user_cache_from_snapshot_def prune_numeric_user_entries_def prune_malformed_principals_def split: prod.splits)
  from in0 seed_entries have "(k, r0) \<in> set c \<and> r_kind r0 = Machine \<or> r_kind r0 = User"
    by (fastforce simp: seed_cache_and_nss_from_snapshot_def Let_def prune_non_machine_users_def seeded_entry_def split: prod.splits)
  with r0 that show thesis by blast
qed

interpretation sound_daemon: daemon_invariant sound_cache
proof
  fix c snap rlm live
  assume "sound_cache c"
  then show "sound_cache (fst (sync_user_cache_from_snapshot snap rlm live c))"
    unfolding sound_cache_def using wf_sync by (fastforce elim!: sync_entries)
qed

lemma load_cache_entries: "id_cache (load_cache e s) = pruned (load_from_file (cache_file s))"
  by (simp add: load_cache_def Let_def pruned_def)

lemma load_cache_sound:
  assumes "\<forall>(k, r) \<in> set (load_from_file (cache_file s)). r_kind r = Machine \<longrightarrow> r_uid r = 0 \<and> r_gid r = 0"
  shows "sound_cache (id_cache (load_cache e s))"
  using assms by (auto simp: load_cache_entries sound_cache_def wf_cache_pruned wf_cache_load set_pruned)

section \<open>Answers read back\<close>

text \<open>The socket with the daemon behind it.\<close>

definition daemon_ask :: "id_env \<Rightarrow> string \<Rightarrow> string list \<Rightarrow> id_state \<Rightarrow> string \<Rightarrow> string option" where
  "daemon_ask e rlm sv s req = Some (trim (first_line (fst (handle_client e rlm sv req s))))"

definition request_arg :: "string \<Rightarrow> bool" where
  "request_arg p = (p \<noteq> [] \<and> trim p = p \<and> line_feed \<notin> set p)"

lemma ws_width_rev_blank: "p \<noteq> [] \<Longrightarrow> ws_width_rev (p @ CHR '' '' # t) = ws_width_rev p"
  by (cases p rule: ws_width_rev.cases; cases t) (auto simp: ws1_def ws2_def ws3_def)

lemma request_read:
  assumes "request_arg p" and "list_all is_ascii_upper verb" and "verb \<noteq> []"
  shows "handle_client e rlm sv (verb @ '' '' @ p @ [line_feed]) s = answer e rlm sv verb p s"
proof -
  obtain v c where v: "verb = v @ [c]" using assms(3) by (cases verb rule: rev_cases) auto
  have inked: "list_all inked verb" using assms(2) by (auto simp: list_all_iff inked_def is_ascii_upper_def is_ascii_def ws1_def)
  have up: "to_ascii_uppercase verb = verb"
    using assms(2) by (auto simp: to_ascii_uppercase_def list_all_iff ascii_upper_def is_ascii_upper_def is_ascii_lower_def intro!: map_idI)
  have plain: "line_feed \<notin> set verb" "CHR '' '' \<notin> set verb"
    using assms(2) by (auto simp: list_all_iff is_ascii_upper_def line_feed_def)
  have line: "first_line (verb @ '' '' @ p @ [line_feed]) = verb @ '' '' @ p"
    using assms(1) plain(1) by (simp add: first_line_def request_arg_def line_feed_def takeWhile_append)
  have "trim (v @ c # '' '' @ p) = v @ c # '' '' @ p"
  proof (subst trim_barrier_iff)
    show "inked c" using inked v by simp
    have "ws_width v = 0" using inked by (cases v) (simp_all add: v ws_width_inked)
    moreover have "ws_width_rev (rev ('' '' @ p)) = 0"
      using assms(1) ws_width_rev_blank [of "rev p" "[]"] by (simp add: request_arg_def trim_id_iff)
    ultimately show "ws_width v = 0 \<and> ws_width_rev (rev ('' '' @ p)) = 0" ..
  qed
  then have trimmed: "trim (verb @ '' '' @ p) = verb @ '' '' @ p" by (simp add: v)
  have "request_parts (verb @ '' '' @ p) = (verb, p)"
    using assms(1) plain(2) up split_once_append [of "CHR '' ''" verb p]
    by (simp add: request_parts_def numeral_2_eq_2 request_arg_def)
  with assms(3) show ?thesis unfolding handle_client_def line trimmed Let_def by simp
qed

definition sources :: "string list" where
  "sources = [''cache'', ''special'', ''sss'', ''extrausers'', ''nss'', ''ldap'', ''direct'', ''rejected-numeric'', RESOLVE_FAIL_CLOSED_SOURCE]"

lemma getent_source: "fst (resolve_getent e n t) = Some (u, g, src) \<Longrightarrow> src = ''sss'' \<or> src = ''extrausers'' \<or> src = ''nss''"
  by (auto simp: resolve_getent_def Let_def opt_or_def with_source_def split: option.splits)

lemma via_nss_source:
  assumes "fst (resolve_via_nss e nm s) = Some (u, g, src)"
  shows "src = ''sss'' \<or> src = ''extrausers'' \<or> src = ''nss'' \<or> src = ''ldap''"
proof -
  have "as_ldap p = (u, g, src) \<Longrightarrow> src = ''ldap''" for p by (auto simp: as_ldap_def)
  with assms show ?thesis
    by (auto simp: resolve_via_nss_def Let_def case_prod_beta resolve_identity_candidates_def
        split: if_splits option.splits dest: getent_source)
qed

lemma resolved_source: "resolve_principal e p rlm sv s = (r, s') \<Longrightarrow> r_source r \<in> set sources"
proof (cases rule: resolve_principal_cases [of p rlm e sv s])
  case (fresh r1 s1)
  assume "resolve_principal e p rlm sv s = (r, s')"
  then have "r = r1" using fresh(4) by (auto split: if_splits)
  moreover have "r_source r1 \<in> set sources"
    using fresh(3) by (auto simp: resolve_fresh_def plain_result_def sources_def case_prod_beta split: if_splits option.splits dest!: via_nss_source)
  ultimately show ?thesis by simp
qed (auto simp: sources_def plain_result_def)

lemma reply_line_back:
  assumes "line_feed \<notin> set l" and "l \<noteq> []" and "inked (last l)"
  shows "trim (first_line (''OK '' @ l @ [line_feed])) = ''OK '' @ l"
proof -
  have "first_line (''OK '' @ l @ [line_feed]) = ''OK '' @ l"
    using assms(1) by (simp add: first_line_def line_feed_def takeWhile_append)
  moreover have "trim (''OK '' @ l) = ''OK '' @ l"
    using assms(2,3) by (intro trim_inked) (simp_all add: inked_def is_ascii_def ws1_def)
  ultimately show ?thesis by simp
qed

lemma source_shape: "x \<in> set sources \<Longrightarrow> x \<noteq> [] \<and> line_feed \<notin> set x \<and> CHR ''|'' \<notin> set x \<and> inked (last x)"
  by (auto simp: sources_def RESOLVE_FAIL_CLOSED_SOURCE_def line_feed_def inked_def is_ascii_def ws1_def)

lemma digit_not: "line_feed \<notin> set (show_word w)" "CHR ''|'' \<notin> set (show_word w)"
  using digits_plain [of line_feed w] digits_plain [of "CHR ''|''" w] by (auto simp: is_ascii_digit_def line_feed_def)

text \<open>
  C21: what the command line reads from the socket is what the daemon resolved: the same principal,
  ids, kind and source, or nothing exactly when the daemon refused it. The principal must be one
  line without the separator.
\<close>

theorem resolve_over_socket:
  assumes "resolve_principal e p rlm server_variants s = (r, s')" and "request_arg p"
    and "CHR ''|'' \<notin> set (r_principal r)" and "line_feed \<notin> set (r_principal r)"
  shows "try_resolve_via_socket (daemon_ask e rlm server_variants s) p =
     (if is_unresolved_fail_closed r then None
      else Some (r\<lparr>r_name := principal_local_part (r_principal r), supplemental_gids := []\<rparr>))"
proof -
  have "list_all is_ascii_upper ''RESOLVE''" by code_simp
  from request_read [OF assms(2) this] assms(1,2)
  have ask: "daemon_ask e rlm server_variants s (''RESOLVE '' @ p @ [line_feed]) = Some (trim (first_line (format_resolve_socket_line r)))"
    by (simp add: daemon_ask_def answer_def request_arg_def)
  note src = source_shape [OF resolved_source [OF assms(1)]]
  let ?parts = "[r_principal r, show_word (r_uid r), show_word (r_gid r), kind_as_str (r_kind r), r_source r]"
  let ?l = "join ''|'' ?parts"
  show ?thesis
  proof (cases "is_unresolved_fail_closed r")
    case True
    have "strip_prefix ''OK '' (trim (first_line RESOLVE_ERR_UNRESOLVED)) = None" by code_simp
    with True show ?thesis using ask by (simp add: try_resolve_via_socket_def format_resolve_socket_line_def)
  next
    case False
    have kind: "line_feed \<notin> set (kind_as_str (r_kind r))" "CHR ''|'' \<notin> set (kind_as_str (r_kind r))"
      by (cases "r_kind r"; simp add: line_feed_def)+
    have lf: "line_feed \<noteq> CHR ''|''" by (simp add: line_feed_def)
    have "format_resolve_socket_line r = ''OK '' @ ?l @ [line_feed]" using False by (simp add: format_resolve_socket_line_def)
    moreover have "trim (first_line (''OK '' @ ?l @ [line_feed])) = ''OK '' @ ?l"
      using src assms(4) kind lf by (intro reply_line_back) (simp_all add: digit_not)
    moreover have "split_on (CHR ''|'') ?l = ?parts"
      using src assms(3) kind by (intro split_on_join) (auto simp: digit_not)
    ultimately show ?thesis
      using False ask by (simp add: try_resolve_via_socket_def strip_prefix_def resolved_of_parts_def parse_u32_show kind_back
          del: join.simps) 
  qed
qed

text \<open>
  A client that asks for the groups of a principal reads exactly the list the daemon computed;
  an empty list, which the daemon sends as an error for a realm principal, reads as nothing.
\<close>

theorem groups_over_socket:
  assumes "resolve_gids_and_materialize e p rlm server_variants False s = (gids, s')" and "request_arg p"
  shows "probe_socket_grps (daemon_ask e rlm server_variants s) p = (if gids = [] then None else Some gids)
     \<and> probe_socket_grouplist (daemon_ask e rlm server_variants s) p = (if gids = [] then None else Some gids)"
proof -
  have reply: "socket_cmd_gids (\<lambda>_. Some (trim (first_line (gids_reply p gids)))) cmd p = (if gids = [] then None else Some gids)" for cmd
  proof (cases "gids = []")
    case True
    have err: "strip_prefix ''OK '' (trim (first_line RESOLVE_ERR_UNRESOLVED)) = None" by code_simp
    have none: "strip_prefix ''OK '' (trim (first_line (''OK '' @ [line_feed]))) = None" by code_simp
    show ?thesis
    proof (cases "CHR ''@'' \<in> set p")
      case at: True
      show ?thesis using True at err by (simp add: socket_cmd_gids_def gids_reply_def)
    next
      case False
      then have "gids_reply p gids = ''OK '' @ [line_feed]" using True by (simp add: gids_reply_def gids_text_def)
      then show ?thesis using True none by (simp only: socket_cmd_gids_def bind.bind_lunit bind.bind_lzero if_True simp_thms)
    qed
  next
    case False
    let ?l = "gids_text ''|'' gids"
    have in_l: "is_ascii_digit c \<or> c = CHR ''|''" if "c \<in> set ?l" for c
      using that set_join [of "''|''" "map show_word gids"] digits_plain by (auto simp: gids_text_def)
    have "?l \<noteq> []"
      using False by (cases gids; cases "tl gids") (auto simp: gids_text_def show_word_def)
    moreover have "inked (last ?l)" using in_l [OF last_in_set [OF calculation]] by (auto simp: inked_def is_ascii_def ws1_def is_ascii_digit_def)
    moreover have "line_feed \<notin> set ?l" using in_l [of line_feed] by (auto simp: is_ascii_digit_def line_feed_def)
    ultimately have "trim (first_line (''OK '' @ ?l @ [line_feed])) = ''OK '' @ ?l" by (intro reply_line_back)
    moreover have "List.map_filter (\<lambda>x. parse_u32 (trim x)) (split_on (CHR ''|'') ?l) = gids"
      unfolding gids_text_def by (rule numbers_back) (simp add: is_ascii_digit_def)
    ultimately show ?thesis using False by (simp add: socket_cmd_gids_def gids_reply_def strip_prefix_def Let_def)
  qed
  have v: "list_all is_ascii_upper ''GRPS''" "list_all is_ascii_upper ''GROUPLIST''" by code_simp+
  have "daemon_ask e rlm server_variants s (cmd @ '' '' @ p @ [line_feed]) = Some (trim (first_line (gids_reply p gids)))"
    if "cmd = ''GRPS'' \<or> cmd = ''GROUPLIST''" for cmd
    using that request_read [OF assms(2) v(1)] request_read [OF assms(2) v(2)] assms
    by (auto simp: daemon_ask_def answer_def request_arg_def group_verbs_def)
  from this [of "''GRPS''"] this [of "''GROUPLIST''"] show ?thesis
    using reply unfolding probe_socket_grps_def probe_socket_grouplist_def socket_cmd_gids_def by simp
qed

text \<open>
  Asked for JSON, \<^verbatim>\<open>grps\<close> reports a refused principal as one without groups and succeeds;
  \<^verbatim>\<open>grouplist\<close> fails.
\<close>

lemma grps_json_hides_refusal:
  "exit_code (grps_output True ''bob@R'' []) = 0" "exit_code (grouplist_output True ''bob@R'' []) = 1"
  by (simp_all add: grps_output_def grouplist_output_def printed_def unresolved_def failed_def)

section \<open>Threads\<close>

lemmas thread_defs = accept_client_def begin_flight_def wake_def end_client_def drop_flight_def set_phase_def

definition counted :: "threads \<Rightarrow> bool" where
  "counted t = (finite (spawned t) \<and> card (spawned t) = live_clients t \<and> live_clients t \<le> MAX_CLIENT_THREADS
     \<and> (\<forall>i. inline t = Some i \<longrightarrow> i \<notin> spawned t) \<and> dom (phases t) = spawned t \<union> set_option (inline t))"

definition one_flight :: "threads \<Rightarrow> bool" where
  "one_flight t = (flights t = {k. \<exists>i. phases t i = Some (Leading k)}
     \<and> (\<forall>i j k. phases t i = Some (Leading k) \<longrightarrow> phases t j = Some (Leading k) \<longrightarrow> i = j))"

lemma counted_step: "thread_step t t' \<Longrightarrow> counted t \<Longrightarrow> counted t'"
proof (induction rule: thread_step.induct)
  case (accepts t i key)
  moreover have "i \<notin> spawned t" using accepts by (force simp: counted_def)
  ultimately show ?case by (auto simp: counted_def thread_defs)
next
  case (ends t i p)
  show ?case
  proof (cases "inline t = Some i")
    case True
    with ends show ?thesis by (auto simp: counted_def thread_defs split: phase.splits)
  next
    case False
    with ends have "i \<in> spawned t" by (auto simp: counted_def)
    with ends False have "card (spawned t - {i}) = live_clients t - 1" by (simp add: counted_def)
    with ends False show ?thesis by (auto simp: counted_def thread_defs Let_def split: phase.splits)
  qed
qed (auto simp: counted_def thread_defs split: option.split)

definition quiet :: "phase option \<Rightarrow> bool" where
  "quiet p = (\<forall>k. p \<noteq> Some (Leading k))"

lemma one_flight_quiet: "one_flight (set_phase i p t) \<longleftrightarrow> one_flight t" if "quiet p" "quiet (phases t i)"
proof -
  have "((phases t)(i := p)) j = Some (Leading k) \<longleftrightarrow> phases t j = Some (Leading k)" for j k
    using that by (auto simp: quiet_def)
  then show ?thesis by (simp add: one_flight_def set_phase_def)
qed

lemma one_flight_cong: "one_flight t \<longleftrightarrow> one_flight u" if "flights t = flights u" "phases t = phases u"
  using that by (simp add: one_flight_def)

lemma one_flight_lead:
  assumes "one_flight t" and "k \<notin> flights t" and "quiet (phases t i)"
  shows "one_flight (set_phase i (Some (Leading k)) (t\<lparr>flights := insert k (flights t)\<rparr>))"
proof -
  have led: "((phases t)(i := Some (Leading k))) j = Some (Leading k') \<longleftrightarrow>
      (j = i \<and> k' = k) \<or> phases t j = Some (Leading k')" for j k'
    using assms(3) by (auto simp: quiet_def)
  have free: "phases t j \<noteq> Some (Leading k)" for j using assms(1,2) by (auto simp: one_flight_def)
  show ?thesis using assms(1) free unfolding one_flight_def set_phase_def by (auto simp: led simp del: fun_upd_apply)
qed

lemma one_flight_land:
  assumes "one_flight t" and "phases t i = Some (Leading k)"
  shows "one_flight (set_phase i None (t\<lparr>flights := flights t - {k}\<rparr>))"
proof -
  have "((phases t)(i := None)) j = Some (Leading k') \<longleftrightarrow> phases t j = Some (Leading k') \<and> k' \<noteq> k" for j k'
    using assms by (auto simp: one_flight_def)
  then show ?thesis using assms(1) by (auto simp: one_flight_def set_phase_def)
qed

lemma one_flight_step: "thread_step t t' \<Longrightarrow> one_flight t \<Longrightarrow> one_flight t'"
proof (induction rule: thread_step.induct)
  case (accepts t i key)
  let ?u = "if live_clients t \<ge> MAX_CLIENT_THREADS then t\<lparr>inline := Some i\<rparr>
      else t\<lparr>live_clients := live_clients t + 1, spawned := insert i (spawned t)\<rparr>"
  have u: "flights ?u = flights t" "phases ?u = phases t" by simp_all
  then have "one_flight (set_phase i (Some (Accepted key)) ?u) \<longleftrightarrow> one_flight ?u"
    using accepts(1) by (intro one_flight_quiet) (simp_all add: quiet_def)
  with one_flight_cong [OF u] accepts(3) show ?case unfolding accept_client_def by simp
next
  case (begins t i key)
  then have "quiet (phases t i)" by (simp add: quiet_def)
  with begins show ?case
    by (auto simp: begin_flight_def one_flight_quiet one_flight_lead quiet_def split: option.split)
next
  case (wakes t i k)
  then show ?case by (simp add: wake_def one_flight_quiet quiet_def)
next
  case (ends t i p)
  have fields: "flights (end_client i p t) = flights (drop_flight p t)" "phases (end_client i p t) = (phases t)(i := None)"
    by (simp_all add: end_client_def drop_flight_def set_phase_def Let_def split: phase.split)
  consider "p = Working" | k where "p = Leading k" using ends(2) by blast
  then show ?case
  proof cases
    case 1
    then have "one_flight (end_client i p t) \<longleftrightarrow> one_flight (set_phase i None t)"
      using fields by (intro one_flight_cong) (simp_all add: drop_flight_def set_phase_def)
    with 1 ends show ?thesis by (simp add: one_flight_quiet quiet_def)
  next
    case (2 k)
    then have "one_flight (end_client i p t) \<longleftrightarrow> one_flight (set_phase i None (t\<lparr>flights := flights t - {k}\<rparr>))"
      using fields by (intro one_flight_cong) (simp_all add: drop_flight_def set_phase_def)
    with 2 ends show ?thesis by (simp add: one_flight_land)
  qed
qed

lemma threads_inv:
  assumes "thread_step\<^sup>*\<^sup>* no_threads t"
  shows "counted t" and "one_flight t"
proof -
  have "counted t \<and> one_flight t" using assms
  proof (induction rule: rtranclp_induct)
    case base
    show ?case by (simp add: counted_def one_flight_def no_threads_def)
  next
    case (step t t')
    then show ?case by (blast intro: counted_step one_flight_step)
  qed
  then show "counted t" "one_flight t" by simp_all
qed

lemma counted_dom: "counted t \<Longrightarrow> finite (dom (phases t)) \<and> card (dom (phases t)) \<le> 33"
proof -
  assume c: "counted t"
  then have "card (dom (phases t)) \<le> card (spawned t) + card (set_option (inline t))"
    using card_Un_le [of "spawned t" "set_option (inline t)"] by (simp add: counted_def)
  moreover have "card (set_option (inline t)) \<le> 1" by (cases "inline t") simp_all
  ultimately show ?thesis using c by (simp add: counted_def MAX_CLIENT_THREADS_def)
qed


text \<open>The steps that bring the clients at hand forward, and what is left to do.\<close>

definition drain :: "threads \<Rightarrow> threads \<Rightarrow> bool" where
  "drain t t' = (thread_step t t' \<and> t' \<noteq> t \<and> dom (phases t') \<subseteq> dom (phases t))"

fun weight :: "phase \<Rightarrow> nat" where
  "weight (Accepted _) = 3"
| "weight (Waiting _) = 2"
| "weight (Leading _) = 1"
| "weight Working = 1"

definition work :: "(nat \<Rightarrow> phase option) \<Rightarrow> nat" where
  "work f = (\<Sum>i \<in> dom f. weight (the (f i)))"

lemma work_rest: "finite (dom f) \<Longrightarrow> f i = Some p \<Longrightarrow> work f = weight p + (\<Sum>j \<in> dom f - {i}. weight (the (f j)))"
  unfolding work_def by (subst sum.remove [of _ i]) auto

lemma work_less:
  assumes "finite (dom f)" and "f i = Some p" and "case q of None \<Rightarrow> True | Some p' \<Rightarrow> weight p' < weight p"
  shows "work (f(i := q)) < work f"
proof -
  have same: "(\<Sum>j \<in> dom f - {i}. weight (the ((f(i := q)) j))) = (\<Sum>j \<in> dom f - {i}. weight (the (f j)))"
    by (rule sum.cong) auto
  have "0 < weight p" by (cases p) simp_all
  show ?thesis
  proof (cases q)
    case None
    then have "dom (f(i := q)) = dom f - {i}" by auto
    then have "work (f(i := q)) = (\<Sum>j \<in> dom f - {i}. weight (the ((f(i := q)) j)))" by (simp only: work_def)
    with same \<open>0 < weight p\<close> work_rest [OF assms(1,2)] show ?thesis by simp
  next
    case (Some p')
    then have "dom (f(i := q)) - {i} = dom f - {i}" "finite (dom (f(i := q)))" using assms(1) by auto
    with work_rest [of "f(i := q)" i p'] Some same work_rest [OF assms(1,2)] assms(3) show ?thesis by simp
  qed
qed

lemma drain_less:
  assumes "drain t t'" and "finite (dom (phases t))"
  shows "work (phases t') < work (phases t)"
proof -
  from assms(1) have step: "thread_step t t'" and moved: "t' \<noteq> t" "dom (phases t') \<subseteq> dom (phases t)" by (auto simp: drain_def)
  from step show ?thesis
  proof (cases rule: thread_step.cases)
    case (accepts i key)
    with moved(2) show ?thesis by (auto simp: accept_client_def set_phase_def)
  next
    case (begins i key)
    then have "phases t' = (phases t)(i := Some Working) \<or> (\<exists>k. phases t' = (phases t)(i := Some (Waiting k)))
        \<or> (\<exists>k. phases t' = (phases t)(i := Some (Leading k)))"
      by (auto simp: begin_flight_def set_phase_def split: option.splits)
    with work_less [OF assms(2) begins(2)] show ?thesis by auto
  next
    case (wakes i k)
    with moved(1) have "phases t' = (phases t)(i := Some Working)" by (auto simp: wake_def set_phase_def split: if_splits)
    with work_less [OF assms(2) wakes(2)] show ?thesis by simp
  next
    case (ends i p)
    then have "phases t' = (phases t)(i := None)"
      by (auto simp: end_client_def drop_flight_def set_phase_def Let_def split: phase.splits)
    with work_less [OF assms(2) ends(2)] show ?thesis by simp
  qed
qed

lemma drain_exists:
  assumes "one_flight t" and "phases t i \<noteq> None"
  shows "\<exists>t'. drain t t'"
proof -
  have moves: "drain t t'" if "thread_step t t'" "phases t' = (phases t)(j := q)" "phases t j = Some p" "q \<noteq> Some p" for t' j q p
  proof -
    have "phases t' \<noteq> phases t" using that(2-4) by (metis fun_upd_same)
    moreover have "dom (phases t') \<subseteq> dom (phases t)" using that(2,3) by (auto split: if_splits)
    ultimately show ?thesis using that(1) by (auto simp: drain_def)
  qed
  consider (ready) j p where "phases t j = Some p" "p = Working \<or> (\<exists>k. p = Leading k)"
    | (accepted) j key where "phases t j = Some (Accepted key)"
    | (waiting) j k where "phases t j = Some (Waiting k)" "\<forall>j k. phases t j \<noteq> Some (Leading k)"
    using assms(2) by (metis not_None_eq phase.exhaust)
  then show ?thesis
  proof cases
    case (ready j p)
    have "phases (end_client j p t) = (phases t)(j := None)"
      by (simp add: end_client_def drop_flight_def set_phase_def Let_def split: phase.split)
    from moves [OF thread_step.ends this] ready show ?thesis by auto
  next
    case (accepted j key)
    obtain q where "phases (begin_flight j key t) = (phases t)(j := q)" "q \<noteq> Some (Accepted key)"
      by (cases key; cases "the key \<in> flights t") (auto simp: begin_flight_def set_phase_def)
    from moves [OF thread_step.begins this(1) accepted this(2)] accepted show ?thesis by auto
  next
    case (waiting j k)
    then have "k \<notin> flights t" using assms(1) by (simp add: one_flight_def)
    then have "phases (wake j k t) = (phases t)(j := Some Working)" by (simp add: wake_def set_phase_def)
    from moves [OF thread_step.wakes this waiting(1)] waiting(1) show ?thesis by auto
  qed
qed

lemma drain_reachable: "thread_step\<^sup>*\<^sup>* no_threads t \<Longrightarrow> drain t t' \<Longrightarrow> thread_step\<^sup>*\<^sup>* no_threads t'"
  by (auto simp: drain_def)

lemma drains:
  assumes "thread_step\<^sup>*\<^sup>* no_threads t"
  shows "\<exists>t'. drain\<^sup>*\<^sup>* t t' \<and> dom (phases t') = {} \<and> flights t' = {}"
  using assms
proof (induction "work (phases t)" arbitrary: t rule: less_induct)
  case less
  note inv = threads_inv [OF less.prems]
  show ?case
  proof (cases "dom (phases t) = {}")
    case True
    then have "phases t = (\<lambda>_. None)" by simp
    then have "flights t = {}" using inv(2) by (auto simp: one_flight_def)
    with True show ?thesis by blast
  next
    case False
    then obtain i where "phases t i \<noteq> None" by blast
    with drain_exists [OF inv(2)] obtain t1 where d: "drain t t1" by blast
    with drain_less counted_dom [OF inv(1)] have "work (phases t1) < work (phases t)" by blast
    from less.hyps [OF this drain_reachable [OF less.prems d]] d show ?thesis
      by (meson converse_rtranclp_into_rtranclp)
  qed
qed

lemma work_bound: "finite (dom f) \<Longrightarrow> work f \<le> 3 * card (dom f)"
proof -
  assume "finite (dom f)"
  have "weight p \<le> 3" for p by (cases p) simp_all
  then have "work f \<le> (\<Sum>i \<in> dom f. 3)" unfolding work_def by (intro sum_mono)
  then show ?thesis by simp
qed

lemma drain_count: "(drain ^^ n) t t' \<Longrightarrow> thread_step\<^sup>*\<^sup>* no_threads t \<Longrightarrow> n + work (phases t') \<le> work (phases t)"
proof (induction n arbitrary: t)
  case (Suc n)
  from Suc.prems(1) obtain t1 where d: "drain t t1" and rest: "(drain ^^ n) t1 t'" using relpowp_Suc_D2 by metis
  have "work (phases t1) < work (phases t)" using drain_less [OF d] counted_dom [OF threads_inv(1) [OF Suc.prems(2)]] by blast
  with Suc.IH [OF rest drain_reachable [OF Suc.prems(2) d]] show ?case by simp
qed simp

text \<open>
  C24: waiting for one another never blocks the service: from every state the clients at hand can be
  served to the end, and whatever the order in which they are brought forward, after at most 99
  steps none is left and no key is held.
\<close>

theorem clients_all_served:
  assumes "thread_step\<^sup>*\<^sup>* no_threads t"
  shows "(\<exists>t'. drain\<^sup>*\<^sup>* t t' \<and> dom (phases t') = {} \<and> flights t' = {})
     \<and> (\<forall>n t'. (drain ^^ n) t t' \<longrightarrow> n \<le> 99 \<and> (dom (phases t') \<noteq> {} \<longrightarrow> (\<exists>t''. drain t' t'')))"
proof (intro conjI allI impI drains [OF assms])
  fix n t'
  assume d: "(drain ^^ n) t t'"
  show "n \<le> 99"
    using drain_count [OF d assms] work_bound [of "phases t"] counted_dom [OF threads_inv(1) [OF assms]] by linarith
  assume "dom (phases t') \<noteq> {}"
  then obtain i where "phases t' i \<noteq> None" by blast
  have "(drain ^^ n) t t' \<Longrightarrow> thread_step\<^sup>*\<^sup>* no_threads t'" for n t'
    by (induction n arbitrary: t') (auto simp: assms intro: drain_reachable)
  then show "\<exists>t''. drain t' t''" using drain_exists threads_inv(2) d \<open>phases t' i \<noteq> None\<close> by blast
qed

section \<open>Samples\<close>

theorem rebulk_outage_keeps_identities_witness:
  "case handle_client sample_id_env ''HOME.ARPA'' [] (''REBULK'' @ [line_feed]) (sample_id_state\<lparr>id_cache := sample_cache\<rparr>) of (reply, s') \<Rightarrow>
     reply = ''ERR rebulk failed'' @ [line_feed] \<and> id_cache s' = sample_cache"
proof -
  have "fst (call_resolver sample_id_env load_full_identities
      (get_or_init_resolver sample_id_env (sample_id_state\<lparr>id_cache := sample_cache\<rparr>))) \<in> {None, Some 0}"
    by (simp add: call_resolver_def get_or_init_resolver_def load_resolver_from_config_def load_def
        sample_id_env_def sample_id_state_def i_tick_def)
  from rebulk_outage_keeps_identities [OF this, of "''HOME.ARPA''" "[]"] show ?thesis by (auto split: prod.splits)
qed

lemma materialize_or_fail_all_io: "i_io e = all_io \<Longrightarrow> fst (materialize_or_fail e g s) = Inr ()"
  using materialize_all_io [of "id_cache s" g "id_stores s"] by (auto simp: materialize_or_fail_def)

theorem rebulk_files_match_cache_witness:
  "\<exists>n s'. rebulk_apply_sync sample_id_env ''R'' [] sample_snapshot [] sample_id_state = (Ok n, s')
     \<and> id_stores s' NssPasswd = Some (file_text (fst (build_nss_snapshot (id_cache s') (Some (snap_groups sample_snapshot)))))"
proof -
  have "i_io sample_id_env = all_io" "\<And>i. i_cache_write sample_id_env i" by (simp_all add: sample_id_env_def)
  then have "fst (rebulk_apply_sync sample_id_env ''R'' [] sample_snapshot [] sample_id_state) =
      Ok (snd (sync_user_cache_from_snapshot sample_snapshot ''R'' [] (id_cache sample_id_state)))"
    by (simp add: rebulk_apply_sync_def Let_def case_prod_beta materialize_or_fail_all_io)
  then obtain n s' where a: "rebulk_apply_sync sample_id_env ''R'' [] sample_snapshot [] sample_id_state = (Ok n, s')"
    by (metis prod.collapse)
  with rebulk_files_match_cache [OF a] show ?thesis by blast
qed

lemma alice_request: "request_arg ''alice@home.arpa''" by code_simp

theorem resolve_over_socket_witness:
  "try_resolve_via_socket (daemon_ask sample_id_env ''HOME.ARPA'' [] sample_id_state) ''alice@home.arpa'' =
     Some (plain_result ''alice@HOME.ARPA'' ''alice'' 7 8 User ''sss'')"
proof -
  have "principal_local_part ''alice@HOME.ARPA'' = ''alice''" by code_simp
  then show ?thesis
    using resolve_over_socket [OF alice_run_pair alice_request] alice_accepted by (simp add: plain_result_def line_feed_def)
qed

theorem groups_over_socket_witness:
  "\<exists>gids s'. resolve_gids_and_materialize sample_id_env ''alice@home.arpa'' ''HOME.ARPA'' [] False sample_id_state = (gids, s')
     \<and> probe_socket_grps (daemon_ask sample_id_env ''HOME.ARPA'' [] sample_id_state) ''alice@home.arpa'' = (if gids = [] then None else Some gids)"
proof -
  obtain gids s' where g: "resolve_gids_and_materialize sample_id_env ''alice@home.arpa'' ''HOME.ARPA'' [] False sample_id_state = (gids, s')"
    by (rule prod.exhaust)
  from groups_over_socket [OF g alice_request] g show ?thesis by blast
qed

text \<open>Two clients with one key: the second waits.\<close>

definition two_clients :: threads where
  "two_clients = begin_flight 1 (Some ''REBULK'') (accept_client 1 (Some ''REBULK'')
     (begin_flight 0 (Some ''REBULK'') (accept_client 0 (Some ''REBULK'') no_threads)))"

lemma two_clients_reached: "thread_step\<^sup>*\<^sup>* no_threads two_clients"
proof -
  let ?k = "Some ''REBULK''"
  let ?a = "accept_client 0 ?k no_threads"
  let ?b = "begin_flight 0 ?k ?a"
  let ?c = "accept_client 1 ?k ?b"
  have "thread_step no_threads ?a" by (rule thread_step.accepts) (simp_all add: no_threads_def)
  moreover have "thread_step ?a ?b" by (rule thread_step.begins) (simp add: thread_defs)
  moreover have "thread_step ?b ?c" by (rule thread_step.accepts) (simp_all add: thread_defs no_threads_def MAX_CLIENT_THREADS_def)
  moreover have "thread_step ?c two_clients" unfolding two_clients_def by (rule thread_step.begins) (simp add: thread_defs)
  ultimately show ?thesis by simp
qed


theorem clients_all_served_witness: "\<exists>t'. drain\<^sup>*\<^sup>* two_clients t' \<and> dom (phases t') = {} \<and> flights t' = {}"
  using clients_all_served [OF two_clients_reached] by blast

end
