(* ===== verification/Observer_Laws.thy ===== *)
theory Observer_Laws
  imports Id_Observer Id_Daemon_Laws
begin

text \<open>
  Laws of the log observer: what can be read as a principal, how often repairs happen, and the
  cache over the whole life of the service.
\<close>

section \<open>Candidates\<close>

lemma if_some_Some [simp]: "if_some b x = Some y \<longleftrightarrow> b \<and> x = y"
  by (simp add: if_some_def)

lemma opt_or_Some_cases: "opt_or a b = Some x \<Longrightarrow> a = Some x \<or> b = Some x"
  by (auto simp: opt_or_def split: option.splits)

lemma first_some_SomeD: "first_some f xs = Some y \<Longrightarrow> \<exists>x \<in> set xs. f x = Some y"
  by (induction xs) (auto simp: first_some_def List.map_filter_simps split: option.splits)

lemma first_found_Ok: "first_found rs = Ok (Some x) \<Longrightarrow> Ok (Some x) \<in> set rs"
  by (induction rs rule: first_found.induct) (auto split: sum.splits option.splits)

definition names_realm :: "string \<Rightarrow> string \<Rightarrow> bool" where
  "names_realm rlm c = (CHR ''@'' \<in> set c \<and> contains_str (to_ascii_lowercase c) (to_ascii_lowercase rlm))"

lemma mentions_names: "mentions c rlm \<Longrightarrow> names_realm rlm c"
  by (simp add: mentions_def names_realm_def)

lemma host_form_names: "names_realm rlm (host_form h rlm)"
proof -
  have "to_ascii_lowercase (host_form h rlm) = to_ascii_lowercase (''host/'' @ h @ ''@'') @ to_ascii_lowercase rlm"
    by (simp add: to_ascii_lowercase_def host_form_def)
  then show ?thesis by (simp only: names_realm_def contains_str_sublist) (simp add: host_form_def)
qed

lemmas candidate_names = mentions_names host_form_names

lemma realm_sources:
  "from_markers alnum rlm line = Some c \<Longrightarrow> names_realm rlm c"
  "from_get_uid alnum rlm line = Some c \<Longrightarrow> names_realm rlm c"
  "from_unmapped alnum rlm line = Some c \<Longrightarrow> names_realm rlm c"
  "from_at alnum rlm line = Ok (Some c) \<Longrightarrow> names_realm rlm c"
  "from_linux alnum rlm line = Some c \<Longrightarrow> names_realm rlm c"
  "from_name_field alnum rlm line = Some c \<Longrightarrow> names_realm rlm c"
  "from_client_markers alnum rlm line = Some c \<Longrightarrow> names_realm rlm c"
  "from_words rlm line = Some c \<Longrightarrow> names_realm rlm c"
proof -
  show "from_markers alnum rlm line = Some c \<Longrightarrow> names_realm rlm c"
    by (auto simp: from_markers_def token_principal_def Let_def candidate_names split: if_splits
        dest!: opt_or_Some_cases first_some_SomeD)
  show "from_get_uid alnum rlm line = Some c \<Longrightarrow> names_realm rlm c"
    by (auto simp: from_get_uid_def Let_def candidate_names bind_eq_Some_conv)
  show "from_unmapped alnum rlm line = Some c \<Longrightarrow> names_realm rlm c"
    by (auto simp: from_unmapped_def Let_def candidate_names bind_eq_Some_conv split: if_splits)
  show "from_at alnum rlm line = Ok (Some c) \<Longrightarrow> names_realm rlm c"
    by (auto simp: from_at_def Let_def candidate_names split: option.splits if_splits)
  show "from_linux alnum rlm line = Some c \<Longrightarrow> names_realm rlm c"
    by (auto simp: from_linux_def candidate_names bind_eq_Some_conv)
  have last_word: "(case rev ws of [] \<Rightarrow> None | w # _ \<Rightarrow> let t = g w in if_some (host_name t) (host_form t rlm)) = Some c \<Longrightarrow> names_realm rlm c"
    for ws :: "string list" and g by (cases "rev ws") (auto simp: Let_def candidate_names)
  show "from_name_field alnum rlm line = Some c \<Longrightarrow> names_realm rlm c"
    unfolding from_name_field_def bind_eq_Some_conv using last_word by (clarsimp simp only: prod.case)
  show "from_client_markers alnum rlm line = Some c \<Longrightarrow> names_realm rlm c"
    by (auto simp: from_client_markers_def candidate_names bind_eq_Some_conv dest!: first_some_SomeD)
  show "from_words rlm line = Some c \<Longrightarrow> names_realm rlm c"
    by (auto simp: from_words_def candidate_names split: if_splits dest!: find_SomeD)
qed

lemma after_str_contains: "after_str p s = Some r \<Longrightarrow> contains_str s p"
proof -
  assume "after_str p s = Some r"
  then obtain a where "s = a @ p @ r" by (auto simp: after_str_def dest: split_once_str_SomeD)
  then show ?thesis unfolding contains_str_sublist by blast
qed

lemma from_unsupported_shape: "from_unsupported line = Some c \<Longrightarrow> CHR ''@'' \<in> set c \<and> contains_str line ''Unsupported code path for principal ''"
  unfolding from_unsupported_def Let_def using after_str_contains by (auto simp only: bind_eq_Some_conv if_some_Some)

text \<open>
  Whatever a line of the log looks like, what is taken from it has an at sign and names the
  configured realm, except on the one message of the server that quotes a principal it refused.
\<close>

theorem candidate_names_realm:
  assumes "extract_candidate_principal alnum line rlm = Ok (Some c)"
  shows "CHR ''@'' \<in> set c
     \<and> (contains_str (to_ascii_lowercase c) (to_ascii_lowercase rlm) \<or> contains_str line ''Unsupported code path for principal '')"
proof -
  from first_found_Ok [OF assms [unfolded extract_candidate_principal_def]]
  have "from_unsupported line = Some c \<or> names_realm rlm c" by (auto dest: realm_sources sym)
  with from_unsupported_shape show ?thesis by (auto simp: names_realm_def)
qed

text \<open>
  A line with a typographic quote before a principal panics: the name is cut one byte after the
  start of the quote, in the middle of its three bytes. A log message of the documented form has
  a blank after the colon, and the user in it is not found.
\<close>

lemma quote_panics:
  "extract_candidate_principal (\<lambda>_. False) (''see '' @ map char_of [0xE2 :: nat, 0x80, 0x9C] @ ''alice@R'') ''R'' = Err NotCharBoundary"
  by code_simp

lemma documented_user_not_found:
  "extract_user_from_getgrouplist_line (\<lambda>_. False) ''getgrouplist for user: root failed, ngroups: 1, errno: 1'' = None"
  by code_simp

section \<open>How often\<close>

definition group_heals :: "obs_state \<Rightarrow> (nat \<times> string) list" where
  "group_heals w = List.map_filter (\<lambda>(t, ev). case ev of GroupHeal u \<Rightarrow> Some (t, u) | _ \<Rightarrow> None) (events w)"

definition heal_view :: "obs_state \<Rightarrow> (nat \<times> string) list \<times> (string \<times> nat) list \<times> nat option" where
  "heal_view w = (group_heals w, healed_users w, last_heal w)"

lemma map_filter_append: "List.map_filter f (xs @ ys) = List.map_filter f xs @ List.map_filter f ys"
  by (induction xs) (auto simp: List.map_filter_simps split: option.split)

lemma group_heals_emit:
  "group_heals (emit now ev w) = group_heals w @ (case ev of GroupHeal u \<Rightarrow> [(now, u)] | _ \<Rightarrow> [])"
  by (cases ev) (simp_all add: group_heals_def emit_def map_filter_append List.map_filter_simps)

lemma heal_view_emit [simp]: "\<forall>u. ev \<noteq> GroupHeal u \<Longrightarrow> heal_view (emit now ev w) = heal_view w"
  by (cases ev) (simp_all add: heal_view_def group_heals_emit, simp_all add: emit_def)

lemma heal_view_fields [simp]:
  "heal_view (with_ids f w) = heal_view w" "heal_view (w\<lparr>recently := a\<rparr>) = heal_view w" "heal_view (w\<lparr>bridge_warned := b\<rparr>) = heal_view w"
  "heal_view (w\<lparr>healed_uids := c\<rparr>) = heal_view w" "heal_view (w\<lparr>watching := d\<rparr>) = heal_view w"
  by (simp_all add: heal_view_def group_heals_def with_ids_def)

lemma heal_view_sighup [simp]: "heal_view (send_sighup e now w) = heal_view w"
  by (simp add: send_sighup_def signal_ganesha_reload_idmap_def Let_def split: option.split)

lemma heal_view_principal [simp]: "heal_view (heal_principal_immediately e rlm vs now c b w) = heal_view w"
  by (simp add: heal_principal_immediately_def Let_def)

lemma heal_view_uid [simp]: "heal_view (detect_managed_gids_uid_failure_and_heal e rlm vs now line w) = heal_view w"
  by (simp add: detect_managed_gids_uid_failure_and_heal_def Let_def split: option.split)

lemma heal_view_bridge [simp]: "heal_view (maybe_warn_bridge_server_addr e now line w) = heal_view w"
  by (simp add: maybe_warn_bridge_server_addr_def split: option.split)

lemma heal_view_candidate [simp]: "heal_view (observe_candidate e rlm vs now line c w) = heal_view w"
  by (simp add: observe_candidate_def Let_def)

lemma heal_view_requests: "heal_view (fold (\<lambda>p. emit now (Request (f p))) ps w) = heal_view w"
  by (induction ps arbitrary: w) simp_all

definition spaced :: "(nat \<times> string) list \<Rightarrow> bool" where
  "spaced hs = sorted_wrt (\<lambda>(t, u) (t', u'). t + 5000 \<le> t' \<and> (u = u' \<longrightarrow> t + 30000 \<le> t')) hs"

definition remembered :: "nat \<Rightarrow> (nat \<times> string) list \<Rightarrow> (string \<times> nat) list \<Rightarrow> bool" where
  "remembered now hs m = (\<forall>(t, u) \<in> set hs. t \<le> now \<and> (t + 30000 \<le> now \<or> (\<exists>t'. map_of m u = Some t' \<and> t \<le> t')))"

definition heals_ok :: "nat \<Rightarrow> (nat \<times> string) list \<times> (string \<times> nat) list \<times> nat option \<Rightarrow> bool" where
  "heals_ok now v = (case v of (hs, m, l) \<Rightarrow>
     spaced hs \<and> remembered now hs m \<and> l = (if hs = [] then None else Some (fst (last hs))))"

lemma heals_ok_later: "heals_ok now v \<Longrightarrow> now \<le> now' \<Longrightarrow> heals_ok now' v"
  by (auto simp: heals_ok_def remembered_def)

lemma spaced_last: "spaced hs \<Longrightarrow> (t, u) \<in> set hs \<Longrightarrow> t \<le> fst (last hs)"
proof (induction hs)
  case (Cons h hs)
  show ?case
  proof (cases "hs = []")
    case False
    have "\<forall>x \<in> set hs. fst h + 5000 \<le> fst x" using Cons.prems(1) by (auto simp: spaced_def case_prod_beta)
    from bspec [OF this last_in_set [OF False]] have "fst h \<le> fst (last hs)" by simp
    with False Cons show ?thesis by (auto simp: spaced_def)
  qed (use Cons.prems in auto)
qed simp

lemma heals_ok_add:
  assumes "heals_ok now (hs, m, l)" and "\<not> within now DEDUP_WINDOW (map_of m user)" and "\<not> within now HEAL_FLOOR l"
  shows "heals_ok now (hs @ [(now, user)], retain_recent now DEDUP_WINDOW (put user now m), Some now)"
proof -
  from assms(1) have sp: "spaced hs" and rem: "remembered now hs m" and l: "l = (if hs = [] then None else Some (fst (last hs)))"
    by (auto simp: heals_ok_def)
  have gap: "t + 5000 \<le> now \<and> (u = user \<longrightarrow> t + 30000 \<le> now)" if h: "(t, u) \<in> set hs" for t u
  proof -
    have "fst (last hs) + 5000 \<le> now"
      using assms(3) l h by (auto simp: within_def HEAL_FLOOR_def split: if_splits)
    with spaced_last [OF sp h] have "t + 5000 \<le> now" by simp
    moreover have "t + 30000 \<le> now" if "u = user"
      using rem h that assms(2) by (fastforce simp: remembered_def within_def DEDUP_WINDOW_def split: option.splits)
    ultimately show ?thesis by simp
  qed
  have kept: "map_of (put user now m) u = (if u = user then Some now else map_of m u)" for u
    by (induction m) (auto simp: put_def)
  have retained: "t + 30000 \<le> now \<or> (\<exists>t'. map_of (retain_recent now DEDUP_WINDOW (put user now m)) u = Some t' \<and> t \<le> t')"
    if "map_of (put user now m) u = Some t'" "t \<le> t'" for t t' u
  proof (cases "now - t' < DEDUP_WINDOW")
    case True
    then have "map_of (retain_recent now DEDUP_WINDOW (put user now m)) u = Some t'"
      using that(1) by (auto simp: retain_recent_def intro: map_of_filter_keep)
    with that(2) show ?thesis by blast
  next
    case False
    with that(2) have "t + 30000 \<le> now" unfolding DEDUP_WINDOW_def by linarith
    then show ?thesis ..
  qed
  have "spaced (hs @ [(now, user)])"
    using sp gap by (auto simp: spaced_def sorted_wrt_append)
  moreover have "remembered now (hs @ [(now, user)]) (retain_recent now DEDUP_WINDOW (put user now m))"
    unfolding remembered_def
  proof (clarify, intro conjI)
    fix t u
    assume h: "(t, u) \<in> set (hs @ [(now, user)])"
    then show "t \<le> now" using gap by fastforce
    from h consider "t + 30000 \<le> now" | t' where "map_of (put user now m) u = Some t'" "t \<le> t'"
      using rem gap by (fastforce simp: remembered_def kept split: if_splits)
    then show "t + 30000 \<le> now \<or> (\<exists>t'. map_of (retain_recent now DEDUP_WINDOW (put user now m)) u = Some t' \<and> t \<le> t')"
      by cases (use retained in blast)+
  qed
  ultimately show ?thesis by (simp add: heals_ok_def)
qed

lemma heals_ok_detect:
  assumes "heals_ok now (heal_view w)"
  shows "heals_ok now (heal_view (detect_my_getgrouplist_failure_and_heal e rlm vs now line w))"
proof -
  let ?user = "unwrap_or (extract_user_from_getgrouplist_line (o_alnum e) line) ''unknown''"
  show ?thesis
  proof (cases "getgrouplist_failure line \<and> \<not> within now DEDUP_WINDOW (map_of (healed_users w) ?user) \<and> \<not> within now HEAL_FLOOR (last_heal w)")
    case True
    then have "heal_view (detect_my_getgrouplist_failure_and_heal e rlm vs now line w) =
        (group_heals w @ [(now, ?user)], retain_recent now DEDUP_WINDOW (put ?user now (healed_users w)), Some now)"
      unfolding detect_my_getgrouplist_failure_and_heal_def Let_def heal_view_requests
      by (simp add: heal_view_requests) (simp add: heal_view_def group_heals_emit, simp add: group_heals_def emit_def)
    with heals_ok_add [of now "group_heals w" "healed_users w" "last_heal w" ?user] assms True show ?thesis
      by (simp add: heal_view_def)
  next
    case False
    then show ?thesis using assms by (auto simp: detect_my_getgrouplist_failure_and_heal_def Let_def)
  qed
qed

lemma heals_ok_line: "heals_ok now (heal_view w) \<Longrightarrow> heals_ok now (heal_view (observe_line e rlm vs now buf w))"
  by (auto simp: observe_line_def Let_def heals_ok_detect split: sum.split option.split)

fun log_times :: "daemon_input list \<Rightarrow> nat list" where
  "log_times [] = []"
| "log_times (LogLine t _ # is) = t # log_times is"
| "log_times (_ # is) = log_times is"

lemma heals_ok_life:
  assumes "heals_ok now (heal_view w)" and "sorted (now # log_times inps)"
  shows "\<exists>now'. heals_ok now' (heal_view (fold (daemon_input_step e rlm vs) inps w))"
  using assms
proof (induction inps arbitrary: now w rule: log_times.induct)
  case (2 t buf inps)
  then have "heals_ok t (heal_view w)" by (auto intro: heals_ok_later)
  then have "heals_ok t (heal_view (daemon_input_step e rlm vs (LogLine t buf) w))"
    by (simp add: daemon_input_step_def heals_ok_line)
  with 2 show ?case by (simp add: daemon_input_step_def)
qed (auto simp: daemon_input_step_def)

text \<open>
  However many failures the server logs, and whatever else the service is asked meanwhile, a
  repair of group lists, which reloads the directory and signals the server, follows the one
  before it after five seconds at the earliest, and one for the same user after thirty.
\<close>

theorem group_heals_spaced:
  assumes "sorted (log_times inps)" and "heals = group_heals (daemon_life e rlm vs inps s)"
  shows "\<forall>i j. i < j \<longrightarrow> j < length heals \<longrightarrow>
     fst (heals ! i) + 5000 \<le> fst (heals ! j) \<and> (snd (heals ! i) = snd (heals ! j) \<longrightarrow> fst (heals ! i) + 30000 \<le> fst (heals ! j))"
proof -
  have "heals_ok 0 (heal_view (observer_start t))" for t
    by (simp add: heals_ok_def heal_view_def group_heals_def observer_start_def spaced_def remembered_def List.map_filter_simps)
  moreover have "sorted (0 # log_times inps)" using assms(1) by simp
  ultimately obtain now where "heals_ok now (heal_view (daemon_life e rlm vs inps s))"
    unfolding daemon_life_def using heals_ok_life by blast
  then have "spaced heals" by (simp add: heals_ok_def heal_view_def assms(2))
  then show ?thesis unfolding spaced_def sorted_wrt_iff_nth_less by (auto simp: case_prod_beta)
qed

section \<open>The life of the service\<close>

lemma ids_fields [simp]:
  "ids (emit now ev w) = ids w" "ids (with_ids f w) = f (ids w)"
  by (simp_all add: emit_def with_ids_def)

lemma ids_requests [simp]: "ids (fold (\<lambda>p. emit now (Request (f p))) ps w) = ids w"
  by (induction ps arbitrary: w) simp_all

lemma send_sighup_cache [simp]: "id_cache (ids (send_sighup e now w)) = id_cache (ids w)"
  by (simp add: send_sighup_def signal_ganesha_reload_idmap_def Let_def i_tick_def split: option.split)

lemma rewrite_files_cache [simp]: "id_cache (rewrite_files e s) = id_cache s"
  using snapshot_groups_records [of e s] by (simp add: rewrite_files_def case_prod_beta records_def)

lemma bridge_ids [simp]: "ids (maybe_warn_bridge_server_addr e now line w) = ids w"
  by (simp add: maybe_warn_bridge_server_addr_def split: option.split)

context daemon_invariant
begin

abbreviation holds :: "obs_state \<Rightarrow> bool" where
  "holds w \<equiv> I (id_cache (ids w))"

lemma resolve_fully_inv: "I (id_cache s) \<Longrightarrow> I (id_cache (resolve_fully e rlm vs force p s))"
  by (simp add: resolve_fully_def resolve_gids_inv resolve_principal_inv)

lemma heal_principal_inv: "holds w \<Longrightarrow> holds (heal_principal_immediately e rlm vs now c b w)"
  by (simp add: heal_principal_immediately_def Let_def resolve_fully_inv)

lemma heal_groups_inv: "I (id_cache s) \<Longrightarrow> I (id_cache (heal_groups e rlm vs p s))"
  by (simp add: heal_groups_def Let_def resolve_gids_inv resolve_all_inv)

lemma detect_groups_inv: "holds w \<Longrightarrow> holds (detect_my_getgrouplist_failure_and_heal e rlm vs now line w)"
  by (simp add: detect_my_getgrouplist_failure_and_heal_def Let_def heal_groups_inv)

lemma detect_uid_inv: "holds w \<Longrightarrow> holds (detect_managed_gids_uid_failure_and_heal e rlm vs now line w)"
  by (simp add: detect_managed_gids_uid_failure_and_heal_def Let_def heal_principal_inv split: option.split)

lemma observe_candidate_inv: "holds w \<Longrightarrow> holds (observe_candidate e rlm vs now line c w)"
  by (simp add: observe_candidate_def Let_def heal_principal_inv resolve_fully_inv)

lemma observe_line_inv: "holds w \<Longrightarrow> holds (observe_line e rlm vs now buf w)"
  by (simp add: observe_line_def Let_def detect_groups_inv detect_uid_inv observe_candidate_inv split: sum.split option.split)

lemma input_inv: "holds w \<Longrightarrow> holds (daemon_input_step e rlm vs inp w)"
proof (cases inp)
  case PeriodicRebulk
  assume "holds w"
  then have "I (id_cache (get_or_init_resolver (o_id e) (ids w)))"
    using get_or_init_records [of "o_id e" "ids w"] by (simp add: records_def)
  then show ?thesis by (simp add: daemon_input_step_def PeriodicRebulk rebulk_inv)
qed (simp_all add: daemon_input_step_def handle_client_inv observe_line_inv)

lemma life_inv: "I (id_cache (load_cache (o_id e) s)) \<Longrightarrow> holds (daemon_life e rlm vs inps s)"
proof -
  assume "I (id_cache (load_cache (o_id e) s))"
  then have "holds (observer_start (run_daemon (o_id e) rlm vs s))" by (simp add: observer_start_def run_daemon_inv)
  then have "holds (fold (daemon_input_step e rlm vs) inps (observer_start (run_daemon (o_id e) rlm vs s)))"
    by (induction inps rule: rev_induct) (simp_all add: input_inv)
  then show ?thesis by (simp add: daemon_life_def)
qed

end

text \<open>
  C20: over the whole life of the service, through its start, requests, reloads and log lines in any
  order, every entry of the cache stands under its normalized name, names a realm, is no number
  unless it is a machine, and a machine is root, provided the machines of the file it started from
  were.
\<close>

theorem service_cache_sound:
  assumes "\<forall>(k, r) \<in> set (load_from_file (cache_file s)). r_kind r = Machine \<longrightarrow> r_uid r = 0 \<and> r_gid r = 0"
  shows "sound_cache (id_cache (ids (daemon_life e rlm server_variants inps s)))"
  by (rule sound_daemon.life_inv) (rule load_cache_sound [OF assms])

definition sample_obs_env :: obs_env where
  "sample_obs_env = \<lparr>o_id = sample_id_env, o_alnum = (\<lambda>_. False), o_proc_dir = (\<lambda>_. None), o_comm = (\<lambda>_ _. None)\<rparr>"

definition sample_inputs :: "daemon_input list" where
  "sample_inputs = [ClientLine (''RESOLVE alice@home.arpa'' @ [line_feed]), LogLine 7 ''my_getgrouplist_alloc: user:root failed'',
     PeriodicRebulk, LogLine 9 ''my_getgrouplist_alloc: user:root failed'']"

theorem service_cache_sound_witness:
  "sound_cache (id_cache (ids (daemon_life sample_obs_env ''HOME.ARPA'' [] sample_inputs sample_id_state)))"
  by (rule service_cache_sound) (simp add: load_from_file_def sample_id_state_def)

theorem group_heals_spaced_witness:
  "sorted (log_times sample_inputs)
   \<and> spaced (group_heals (daemon_life sample_obs_env ''HOME.ARPA'' [] sample_inputs sample_id_state))"
proof -
  have "sorted (log_times sample_inputs)" by (simp add: sample_inputs_def)
  with group_heals_spaced [OF this refl] show ?thesis
    unfolding spaced_def sorted_wrt_iff_nth_less by (auto simp: case_prod_beta)
qed

end
