(* ===== verification/Acl.thy ===== *)
theory Acl
  imports Fs_Probe
begin

text \<open>
  POSIX access lists of the web interface, \<^verbatim>\<open>nfs-klldap-ui/src/privileged.rs\<close>: the text of \<^verbatim>\<open>getfacl\<close>
  and what is read from it, effective permissions, and the argument of \<^verbatim>\<open>setfacl\<close> a modification
  compiles to. Running the tools is the concern of \<open>Fs_Manager\<close>.
\<close>

section \<open>Data\<close>

record AclPerms =
  perm_r :: bool
  perm_w :: bool
  perm_x :: bool

definition from_str :: "string \<Rightarrow> AclPerms" where
  "from_str s0 =
     (let s = to_ascii_lowercase (trim s0) in
      \<lparr>perm_r = (CHR ''r'' \<in> set s), perm_w = (CHR ''w'' \<in> set s),
       perm_x = (CHR ''x'' \<in> set s \<or> CHR ''X'' \<in> set s)\<rparr>)"

definition to_str :: "AclPerms \<Rightarrow> string" where
  "to_str p =
     [if perm_r p then CHR ''r'' else CHR ''-'', if perm_w p then CHR ''w'' else CHR ''-'',
      if perm_x p then CHR ''x'' else CHR ''-'']"

definition dir_r_implies_x :: "AclPerms \<Rightarrow> AclPerms" where
  "dir_r_implies_x p = p\<lparr>perm_x := (perm_x p \<or> perm_r p)\<rparr>"

datatype AclEntryKind = UserEntry "32 word" | GroupEntry "32 word"

datatype AclTag = Owner | NamedUser "32 word" | OwningGroup | NamedGroup "32 word" | Mask | Other

record AclLine =
  tag :: AclTag
  line_perms :: AclPerms

record AclTable =
  access :: "AclLine list"
  dflt :: "AclLine list"

definition layer :: "AclTable \<Rightarrow> bool \<Rightarrow> AclLine list" where
  "layer t d = (if d then dflt t else access t)"

definition mask_of :: "AclTable \<Rightarrow> bool \<Rightarrow> AclPerms option" where
  "mask_of t d = map_option line_perms (find (\<lambda>l. tag l = Mask) (layer t d))"

fun group_class :: "AclTag \<Rightarrow> bool" where
  "group_class (NamedUser _) = True"
| "group_class (NamedGroup _) = True"
| "group_class OwningGroup = True"
| "group_class _ = False"

definition effective_perms :: "AclTable \<Rightarrow> AclLine \<Rightarrow> bool \<Rightarrow> AclPerms" where
  "effective_perms t l d =
     (case (group_class (tag l), mask_of t d) of
        (True, Some m) \<Rightarrow>
          \<lparr>perm_r = (perm_r (line_perms l) \<and> perm_r m), perm_w = (perm_w (line_perms l) \<and> perm_w m),
           perm_x = (perm_x (line_perms l) \<and> perm_x m)\<rparr>
      | _ \<Rightarrow> line_perms l)"

fun extending :: "AclTag \<Rightarrow> bool" where
  "extending (NamedUser _) = True"
| "extending (NamedGroup _) = True"
| "extending Mask = True"
| "extending _ = False"

definition is_extended :: "AclTable \<Rightarrow> bool" where
  "is_extended t = (dflt t \<noteq> [] \<or> list_ex (\<lambda>l. extending (tag l)) (access t))"

section \<open>Reading the tool's output\<close>

definition parse_tag :: "string \<Rightarrow> string \<Rightarrow> AclTag option" where
  "parse_tag kind qualifier =
     (if kind = ''user'' then (if qualifier = [] then Some Owner else map_option NamedUser (parse_u32 qualifier))
      else if kind = ''group'' then (if qualifier = [] then Some OwningGroup else map_option NamedGroup (parse_u32 qualifier))
      else if kind = ''mask'' \<and> qualifier = [] then Some Mask
      else if kind = ''other'' \<and> qualifier = [] then Some Other
      else None)"

definition parse_acl_line :: "string \<Rightarrow> AclLine option" where
  "parse_acl_line rest =
     Option.bind (split_once CHR '':'' rest) (\<lambda>(tag_str, qual_and_perms).
     Option.bind (split_once CHR '':'' qual_and_perms) (\<lambda>(qualifier, perms_str).
       map_option (\<lambda>t. \<lparr>tag = t, line_perms = from_str perms_str\<rparr>) (parse_tag tag_str qualifier)))"

definition add_line :: "AclTable \<Rightarrow> string \<Rightarrow> AclTable" where
  "add_line t raw =
     (let line = trim raw in
      if line = [] \<or> starts_with line ''#'' then t
      else let line = (case split_once CHR ''#'' line of Some (entry, _) \<Rightarrow> trim entry | None \<Rightarrow> line)
        in case strip_prefix ''default:'' line of
             Some rest \<Rightarrow> (case parse_acl_line rest of Some l \<Rightarrow> t\<lparr>dflt := dflt t @ [l]\<rparr> | None \<Rightarrow> t)
           | None \<Rightarrow> (case parse_acl_line line of Some l \<Rightarrow> t\<lparr>access := access t @ [l]\<rparr> | None \<Rightarrow> t))"

definition parse_getfacl_table :: "string \<Rightarrow> AclTable" where
  "parse_getfacl_table s = foldl add_line \<lparr>access = [], dflt = []\<rparr> (lines s)"

text \<open>The batched read: the files whose list is extended, in the order of their headers.\<close>

record batch =
  found :: "string list"
  current :: "string option"
  current_extended :: bool

definition close_file :: "batch \<Rightarrow> string list" where
  "close_file b = (case (current b, current_extended b) of (Some p, True) \<Rightarrow> found b @ [p] | _ \<Rightarrow> found b)"

definition has_qualifier :: "string \<Rightarrow> string \<Rightarrow> bool" where
  "has_qualifier kind t = (case strip_prefix kind t of Some rest \<Rightarrow> \<not> starts_with rest '':'' | None \<Rightarrow> False)"

definition batch_line :: "batch \<Rightarrow> string \<Rightarrow> batch" where
  "batch_line b line =
     (let t = trim line in
      case strip_prefix ''# file: '' t of
        Some file \<Rightarrow> \<lparr>found = close_file b, current = Some file, current_extended = False\<rparr>
      | None \<Rightarrow>
          if t = [] \<or> starts_with t ''#'' then b
          else if starts_with t ''default:'' \<or> starts_with t ''mask::'' then b\<lparr>current_extended := True\<rparr>
          else if strip_prefix ''user:'' t \<noteq> None then (if has_qualifier ''user:'' t then b\<lparr>current_extended := True\<rparr> else b)
          else if has_qualifier ''group:'' t then b\<lparr>current_extended := True\<rparr>
          else b)"

definition extended_files :: "string \<Rightarrow> string list" where
  "extended_files text = close_file (foldl batch_line \<lparr>found = [], current = None, current_extended = False\<rparr> (lines text))"

section \<open>Modifications\<close>

datatype AclModification =
    SetEntry AclEntryKind AclPerms bool
  | RemoveEntries "AclEntryKind list" bool
  | SetMask AclPerms bool

fun default_layer :: "AclModification \<Rightarrow> bool" where
  "default_layer (SetEntry _ _ d) = d"
| "default_layer (RemoveEntries _ d) = d"
| "default_layer (SetMask _ d) = d"

fun entry_spec :: "AclEntryKind \<Rightarrow> string" where
  "entry_spec (UserEntry u) = ''u:'' @ show_word u"
| "entry_spec (GroupEntry g) = ''g:'' @ show_word g"

fun modification_spec :: "AclModification \<Rightarrow> bool \<times> string \<times> string" where
  "modification_spec (SetEntry k p d) = (d, ''-m'', entry_spec k @ '':'' @ to_str p)"
| "modification_spec (RemoveEntries ks d) = (d, ''-x'', join '','' (map entry_spec ks))"
| "modification_spec (SetMask p d) = (d, ''-m'', ''m::'' @ to_str p)"

section \<open>Reading back\<close>

text \<open>The lines of the tool for a table.\<close>

fun tag_text :: "AclTag \<Rightarrow> string" where
  "tag_text Owner = ''user::''"
| "tag_text (NamedUser u) = ''user:'' @ show_word u @ '':''"
| "tag_text OwningGroup = ''group::''"
| "tag_text (NamedGroup g) = ''group:'' @ show_word g @ '':''"
| "tag_text Mask = ''mask::''"
| "tag_text Other = ''other::''"

definition acl_line_text :: "AclLine \<Rightarrow> string" where
  "acl_line_text l = tag_text (tag l) @ to_str (line_perms l)"

definition table_lines :: "AclTable \<Rightarrow> string list" where
  "table_lines t = map acl_line_text (access t) @ map (\<lambda>l. ''default:'' @ acl_line_text l) (dflt t)"

lemma from_to_str [simp]: "from_str (to_str p) = p"
  by (cases p; cases "perm_r p"; cases "perm_w p"; cases "perm_x p"; simp add: from_str_def to_str_def; code_simp)

text \<open>The text \<^verbatim>\<open>getfacl\<close> prints for a table: masked lines carry a comment.\<close>

definition effective_note :: "AclTable \<Rightarrow> bool \<Rightarrow> AclLine \<Rightarrow> string" where
  "effective_note t d l =
     (if effective_perms t l d = line_perms l then []
      else CHR 0x09 # ''#effective:'' @ to_str (effective_perms t l d))"

definition printed_lines :: "AclTable \<Rightarrow> string list" where
  "printed_lines t =
     map (\<lambda>l. acl_line_text l @ effective_note t False l) (access t)
       @ map (\<lambda>l. ''default:'' @ acl_line_text l @ effective_note t True l) (dflt t)"

definition getfacl_text :: "AclTable \<Rightarrow> string" where
  "getfacl_text t = concat (map (\<lambda>l. l @ [line_feed]) (printed_lines t))"

definition acl_char :: "char \<Rightarrow> bool" where
  "acl_char c = (is_ascii_digit c \<or> c \<in> set ''abcdefghijklmnopqrstuvwxyz:-'')"

lemma acl_char_plain: "acl_char c \<Longrightarrow> inked c \<and> c \<noteq> line_feed \<and> c \<noteq> CHR ''#'' \<and> byte c \<noteq> 13"
  by (auto simp: acl_char_def inked_def is_ascii_def ws1_def is_ascii_digit_def line_feed_def)

lemma to_str_chars: "list_all acl_char (to_str p)"
  by (simp add: to_str_def acl_char_def)

lemma acl_line_chars: "list_all acl_char (acl_line_text l)"
proof -
  have "list_all acl_char (show_word w)" for w :: "32 word" using digits_plain [of _ w] by (auto simp: list_all_iff acl_char_def)
  then have "list_all acl_char (tag_text g)" for g by (cases g) (simp_all add: acl_char_def)
  then show ?thesis by (simp add: acl_line_text_def to_str_chars)
qed

lemma acl_line_not_Nil [simp]: "acl_line_text l \<noteq> []"
  by (simp add: acl_line_text_def to_str_def)

lemma parse_acl_line_text: "parse_acl_line (acl_line_text l) = Some l"
proof -
  have d: "CHR '':'' \<notin> set (show_word w)" "show_word w \<noteq> []" for w :: "32 word"
    using digits_plain [of "CHR '':''" w] parse_u32_show [of w] by (auto simp: is_ascii_digit_def parse_u32_def parse_unsigned_def)
  obtain g p where "l = \<lparr>tag = g, line_perms = p\<rparr>" by (cases l) auto
  then show ?thesis
    by (cases g) (simp_all add: acl_line_text_def parse_acl_line_def parse_tag_def split_once_append d parse_u32_show)
qed

text \<open>A printed line, after its comment and the white space before it are cut off.\<close>

lemma cut_note:
  assumes "list_all acl_char s" and "s \<noteq> []"
  shows "trim (s @ effective_note t d l) = s @ effective_note t d l"
    and "(case split_once CHR ''#'' (s @ effective_note t d l) of Some (entry, _) \<Rightarrow> trim entry | None \<Rightarrow> s @ effective_note t d l) = s"
proof -
  have s: "inked (hd s)" "inked (last s)" "CHR ''#'' \<notin> set s" using assms acl_char_plain by (auto simp: list_all_iff)
  have p: "inked (last (to_str q))" "to_str q \<noteq> []" for q using to_str_chars [of q] acl_char_plain by (auto simp: list_all_iff to_str_def)
  show "trim (s @ effective_note t d l) = s @ effective_note t d l"
    using assms(2) s p by (intro trim_inked) (auto simp: effective_note_def)
  have "trim (s @ [CHR 0x09]) = s"
  proof -
    have "trim_start (s @ [CHR 0x09]) = s @ [CHR 0x09]" using assms(2) s(1) by (cases s) (simp_all add: trim_start_id ws_width_inked)
    moreover have "ws_width_rev (CHR 0x09 # rev s) = 1" by (cases "rev s"; cases "tl (rev s)") (simp_all add: ws1_def)
    moreover have "ws_width_rev (rev s) = 0" using assms(2) s(2) by (cases s rule: rev_cases) (simp_all add: ws_width_rev_inked)
    ultimately show ?thesis by (simp add: trim_def trim_end_def drop_ws.simps [of _ "CHR 0x09 # rev s"] drop_ws_id)
  qed
  moreover have "split_once CHR ''#'' (s @ [CHR 0x09] @ CHR ''#'' # r) = Some (s @ [CHR 0x09], r)" for r
    using s(3) split_once_append [of "CHR ''#''" "s @ [CHR 0x09]" r] by simp
  moreover have "split_once CHR ''#'' s = None" using s(3) by (simp add: split_once_None_iff)
  ultimately show "(case split_once CHR ''#'' (s @ effective_note t d l) of Some (entry, _) \<Rightarrow> trim entry | None \<Rightarrow> s @ effective_note t d l) = s"
    by (simp add: effective_note_def)
qed

lemma plain_line:
  assumes "list_all acl_char s" and "s \<noteq> []"
  shows "line_feed \<notin> set (s @ effective_note t d l)" and "strip_cr (s @ effective_note t d l) = s @ effective_note t d l"
proof -
  have s: "line_feed \<notin> set s" "byte (last s) \<noteq> 13" using assms acl_char_plain by (auto simp: list_all_iff)
  have p: "line_feed \<notin> set (to_str q)" "byte (last (to_str q)) \<noteq> 13" "to_str q \<noteq> []" for q
    by (simp_all add: to_str_def line_feed_def)
  have "line_feed \<notin> set (CHR 0x09 # ''#effective:'')" by (simp add: line_feed_def)
  then show "line_feed \<notin> set (s @ effective_note t d l)" using s p by (simp add: effective_note_def)
  have "byte (last (s @ effective_note t d l)) \<noteq> 13" using s p assms(2) by (auto simp: effective_note_def)
  then show "strip_cr (s @ effective_note t d l) = s @ effective_note t d l"
    by (cases "s @ effective_note t d l" rule: rev_cases) (auto simp: strip_cr_def simp del: append_is_Nil_conv)
qed

lemma default_line_chars: "list_all acl_char (''default:'' @ acl_line_text l)"
  using acl_line_chars [of l] by (simp add: acl_char_def)

lemma default_line_not_Nil: "''default:'' @ acl_line_text l \<noteq> []"
  by simp

lemma printed_plain: "\<forall>l \<in> set (printed_lines t). line_feed \<notin> set l \<and> strip_cr l = l"
  using plain_line [OF acl_line_chars] plain_line [OF default_line_chars] by (auto simp: printed_lines_def)

lemma add_printed_line:
  "add_line t (acl_line_text l @ effective_note u d l) = t\<lparr>access := access t @ [l]\<rparr>"
  "add_line t ((''default:'' @ acl_line_text l) @ effective_note u d l) = t\<lparr>dflt := dflt t @ [l]\<rparr>"
proof -
  have hd: "\<not> starts_with (s @ effective_note u d l) ''#''" if "list_all acl_char s" "s \<noteq> []" for s
    using that acl_char_plain by (cases s) auto
  have no: "strip_prefix ''default:'' (acl_line_text l) = None"
    by (cases "tag l") (simp_all add: acl_line_text_def strip_prefix_def)
  show "add_line t (acl_line_text l @ effective_note u d l) = t\<lparr>access := access t @ [l]\<rparr>"
    using hd [OF acl_line_chars]
    by (simp add: add_line_def Let_def cut_note [OF acl_line_chars] no parse_acl_line_text del: trim_Nil_iff)
  show "add_line t ((''default:'' @ acl_line_text l) @ effective_note u d l) = t\<lparr>dflt := dflt t @ [l]\<rparr>"
    using hd [OF default_line_chars]
    unfolding add_line_def Let_def cut_note [OF default_line_chars default_line_not_Nil] strip_prefix_append
    by (simp add: parse_acl_line_text)
qed

text \<open>
  Reading the output of \<^verbatim>\<open>getfacl\<close> gives the table it was printed from, both layers in order, with
  named users and groups, mask and other; the comments on masked lines are not taken for permissions.
\<close>

theorem parse_getfacl_table_back: "parse_getfacl_table (getfacl_text t) = t"
proof -
  have "foldl add_line u (map (\<lambda>l. acl_line_text l @ effective_note t False l) ls) = u\<lparr>access := access u @ ls\<rparr>" for u ls
    by (induction ls arbitrary: u) (simp_all add: add_printed_line)
  moreover have "foldl add_line u (map (\<lambda>l. (''default:'' @ acl_line_text l) @ effective_note t True l) ls) = u\<lparr>dflt := dflt u @ ls\<rparr>" for u ls
    by (induction ls arbitrary: u) (simp_all only: list.map foldl.simps add_printed_line, simp_all)
  moreover have "lines (getfacl_text t) = printed_lines t"
    unfolding getfacl_text_def by (rule lines_terminated [OF printed_plain])
  ultimately show ?thesis by (simp add: parse_getfacl_table_def printed_lines_def)
qed

section \<open>The batched read agrees with the table\<close>

text \<open>What \<^verbatim>\<open>getfacl\<close> prints for several files: a header, the lines of the table and an empty line each.\<close>

definition file_lines :: "string \<times> string \<times> string \<times> AclTable \<Rightarrow> string list" where
  "file_lines f =
     (case f of (p, owner, grp, t) \<Rightarrow> (''# file: '' @ p) # (''# owner: '' @ owner) # (''# group: '' @ grp) # printed_lines t @ [[]])"

definition batch_text :: "(string \<times> string \<times> string \<times> AclTable) list \<Rightarrow> string" where
  "batch_text fs = concat (map (\<lambda>l. l @ [line_feed]) (concat (map file_lines fs)))"

definition header_text :: "string \<Rightarrow> bool" where
  "header_text p = (p \<noteq> [] \<and> inked (last p) \<and> line_feed \<notin> set p)"

lemma header_line:
  assumes "header_text p" and "h \<noteq> []" and "inked (hd h)" and "line_feed \<notin> set h"
  shows "trim (h @ p) = h @ p" "line_feed \<notin> set (h @ p)" "strip_cr (h @ p) = h @ p"
proof -
  show "trim (h @ p) = h @ p" using assms by (intro trim_inked) (auto simp: header_text_def)
  show "line_feed \<notin> set (h @ p)" using assms by (simp add: header_text_def)
  have "byte (last p) \<noteq> 13" using assms(1) by (auto simp: header_text_def inked_def ws1_def)
  then have "byte (last (h @ p)) \<noteq> 13" using assms(1) by (simp add: header_text_def)
  then show "strip_cr (h @ p) = h @ p"
    by (cases "h @ p" rule: rev_cases) (auto simp: strip_cr_def simp del: append_is_Nil_conv)
qed

lemma batch_printed_line:
  "batch_line b (acl_line_text l @ effective_note t d l) = (if extending (tag l) then b\<lparr>current_extended := True\<rparr> else b)"
  "batch_line b ((''default:'' @ acl_line_text l) @ effective_note t d l) = b\<lparr>current_extended := True\<rparr>"
proof -
  have digit: "\<not> starts_with (show_word w @ rest) '':''" for w :: "32 word" and rest
    using digits_plain [of "CHR '':''" w] parse_u32_show [of w]
    by (cases "show_word w") (auto simp: is_ascii_digit_def parse_u32_def parse_unsigned_def)
  show "batch_line b (acl_line_text l @ effective_note t d l) = (if extending (tag l) then b\<lparr>current_extended := True\<rparr> else b)"
    unfolding batch_line_def Let_def cut_note(1) [OF acl_line_chars acl_line_not_Nil]
    using digit by (cases "tag l") (auto simp: acl_line_text_def strip_prefix_def has_qualifier_def)
  show "batch_line b ((''default:'' @ acl_line_text l) @ effective_note t d l) = b\<lparr>current_extended := True\<rparr>"
    unfolding batch_line_def Let_def cut_note(1) [OF default_line_chars default_line_not_Nil]
    by (simp add: strip_prefix_def)
qed

lemma batch_table:
  "foldl batch_line b (printed_lines t) = b\<lparr>current_extended := (current_extended b \<or> is_extended t)\<rparr>"
proof -
  have acc: "foldl batch_line b (map (\<lambda>l. acl_line_text l @ effective_note t False l) ls) =
      b\<lparr>current_extended := (current_extended b \<or> list_ex (\<lambda>l. extending (tag l)) ls)\<rparr>" for b ls
    by (induction ls arbitrary: b) (auto simp: batch_printed_line)
  have def: "foldl batch_line b (map (\<lambda>l. (''default:'' @ acl_line_text l) @ effective_note t True l) ls) =
      b\<lparr>current_extended := (current_extended b \<or> ls \<noteq> [])\<rparr>" for b ls
  proof (induction ls arbitrary: b)
    case (Cons l ls)
    show ?case by (simp only: list.map foldl.simps batch_printed_line Cons.IH) simp
  qed simp
  have "(current_extended b \<or> list_ex (\<lambda>l. extending (tag l)) (access t)) \<or> dflt t \<noteq> [] \<longleftrightarrow> current_extended b \<or> is_extended t"
    by (auto simp: is_extended_def)
  then show ?thesis using acc [of b "access t"] def [of _ "dflt t"] by (simp add: printed_lines_def del: disj_not1)
qed

lemma batch_file:
  assumes "header_text p" and "header_text owner" and "header_text grp"
  shows "foldl batch_line b (file_lines (p, owner, grp, t)) =
    \<lparr>found = close_file b, current = Some p, current_extended = is_extended t\<rparr>"
proof -
  have hash: "inked (CHR ''#'')" by (simp add: inked_def is_ascii_def ws1_def)
  have lf: "line_feed \<notin> set ''# file: ''" "line_feed \<notin> set ''# owner: ''" "line_feed \<notin> set ''# group: ''" by (simp_all add: line_feed_def)
  have "batch_line b (''# file: '' @ p) = \<lparr>found = close_file b, current = Some p, current_extended = False\<rparr>" for b
  proof -
    have "trim (''# file: '' @ p) = ''# file: '' @ p" using header_line(1) [OF assms(1) _ _ lf(1)] hash by simp
    then show ?thesis unfolding batch_line_def Let_def by (simp only: strip_prefix_append option.simps)
  qed
  moreover have "batch_line b (''# owner: '' @ owner) = b" "batch_line b (''# group: '' @ grp) = b" for b
    using header_line(1) [OF assms(2) _ _ lf(2)] header_line(1) [OF assms(3) _ _ lf(3)] hash
    by (simp_all add: batch_line_def strip_prefix_def del: trim_Nil_iff)
  moreover have "batch_line b [] = b" for b by (simp add: batch_line_def strip_prefix_def)
  ultimately show ?thesis by (simp add: file_lines_def batch_table)
qed

text \<open>
  The marker in the tree is the same as what the table says: of the files one \<^verbatim>\<open>getfacl\<close> call reports,
  exactly those are marked as extended, in their order, whose table has a default layer, a mask or a
  named entry.
\<close>

theorem extended_files_iff_table:
  assumes "\<forall>(p, owner, grp, t) \<in> set fs. header_text p \<and> header_text owner \<and> header_text grp"
  shows "extended_files (batch_text fs) = map fst (filter (\<lambda>(p, owner, grp, t). is_extended t) fs)"
proof -
  have hash: "inked (CHR ''#'')" by (simp add: inked_def is_ascii_def ws1_def)
  have lf: "line_feed \<notin> set ''# file: ''" "line_feed \<notin> set ''# owner: ''" "line_feed \<notin> set ''# group: ''" by (simp_all add: line_feed_def)
  have "\<forall>l \<in> set (file_lines f). line_feed \<notin> set l \<and> strip_cr l = l" if "f \<in> set fs" for f
  proof -
    obtain p owner grp t where f: "f = (p, owner, grp, t)" by (cases f) auto
    then have h: "header_text p" "header_text owner" "header_text grp" using assms that by auto
    show ?thesis
      using header_line(2,3) [OF h(1) _ _ lf(1)] header_line(2,3) [OF h(2) _ _ lf(2)] header_line(2,3) [OF h(3) _ _ lf(3)]
        hash printed_plain [of t] by (simp add: f file_lines_def strip_cr_def [of "[]"])
  qed
  then have "lines (batch_text fs) = concat (map file_lines fs)"
    unfolding batch_text_def by (intro lines_terminated) auto
  moreover have "close_file (foldl batch_line b (concat (map file_lines fs))) = close_file b @ map fst (filter (\<lambda>(p, owner, grp, t). is_extended t) fs)" for b
    using assms
  proof (induction fs arbitrary: b)
    case (Cons f fs)
    obtain p owner grp t where f: "f = (p, owner, grp, t)" by (cases f) auto
    then have "foldl batch_line b (file_lines f) = \<lparr>found = close_file b, current = Some p, current_extended = is_extended t\<rparr>"
      using batch_file Cons.prems by simp
    then show ?case using Cons by (simp add: f) (simp add: close_file_def)
  qed simp
  ultimately show ?thesis by (simp add: extended_files_def) (simp add: close_file_def)
qed

definition sample_table :: AclTable where
  "sample_table =
     \<lparr>access = [\<lparr>tag = Owner, line_perms = from_str ''rwx''\<rparr>, \<lparr>tag = NamedUser 5, line_perms = from_str ''rwx''\<rparr>,
                \<lparr>tag = OwningGroup, line_perms = from_str ''r-x''\<rparr>, \<lparr>tag = Mask, line_perms = from_str ''r-x''\<rparr>,
                \<lparr>tag = Other, line_perms = from_str ''---''\<rparr>], dflt = []\<rparr>"

theorem extended_files_iff_table_witness:
  "extended_files (batch_text [(''/export/a'', ''0'', ''0'', sample_table), (''/export/b'', ''0'', ''0'', \<lparr>access = [], dflt = []\<rparr>)]) = [''/export/a'']"
proof -
  have "header_text ''/export/a''" "header_text ''/export/b''" "header_text ''0''" by code_simp+
  moreover have "is_extended sample_table" "\<not> is_extended \<lparr>access = [], dflt = []\<rparr>" by (simp_all add: is_extended_def sample_table_def)
  ultimately show ?thesis
    using extended_files_iff_table [of "[(''/export/a'', ''0'', ''0'', sample_table), (''/export/b'', ''0'', ''0'', \<lparr>access = [], dflt = []\<rparr>)]"]
    by simp
qed

text \<open>A mask can only take permissions away, and takes none from the owner and from others.\<close>

lemma effective_perms_masked:
  "perm_r (effective_perms t l d) \<longrightarrow> perm_r (line_perms l)" "perm_w (effective_perms t l d) \<longrightarrow> perm_w (line_perms l)"
  "perm_x (effective_perms t l d) \<longrightarrow> perm_x (line_perms l)" "\<not> group_class (tag l) \<Longrightarrow> effective_perms t l d = line_perms l"
  by (auto simp: effective_perms_def split: option.split bool.split)

end
