(* ===== verification/Fs_Manager.thy ===== *)
theory Fs_Manager
  imports Acl Validate "HOL-Library.Product_Lexorder"
begin

text \<open>
  The file-system manager of the web interface, \<^verbatim>\<open>nfs-klldap-ui/src/fs.rs\<close>: which paths may be touched,
  where a logical path lies in the container, and the walks that count and apply ownership, modes
  and access lists over a share.

  A path is the list of its components, which is how \<^verbatim>\<open>std::path\<close> compares and joins paths. The
  directory walk of the \<^verbatim>\<open>walkdir\<close> crate, the results of system calls and ACL tools, and the cancel flag
  the page may raise at any time are answers of the environment. The state keeps the operations that
  were issued, in order.
\<close>

section \<open>Paths\<close>

datatype component = RootDir | CurDir | ParentDir | Normal string

type_synonym path = "component list"

definition named_component :: "string \<Rightarrow> component" where
  "named_component c = (if c = ''..'' then ParentDir else Normal c)"

definition body_components :: "string \<Rightarrow> path" where
  "body_components p = map named_component (filter (\<lambda>c. c \<noteq> [] \<and> c \<noteq> ''.'') (split_on CHR ''/'' p))"

definition path_components :: "string \<Rightarrow> path" where
  "path_components p =
     (if starts_with p ''/'' then RootDir # body_components p
      else if hd (split_on CHR ''/'' p) = ''.'' then CurDir # body_components p
      else body_components p)"

definition path_starts_with :: "path \<Rightarrow> path \<Rightarrow> bool" where
  "path_starts_with p base = prefix base p"

definition has_parent_traversal :: "string \<Rightarrow> bool" where
  "has_parent_traversal p = (ParentDir \<in> set (path_components p))"

definition normalize_for_matching :: "string \<Rightarrow> string" where
  "normalize_for_matching p = normalize_path p"

definition share_prefix :: "Share \<Rightarrow> path" where
  "share_prefix sh = path_components (normalize_for_matching (host_path sh))"

definition is_allowed :: "NfsKlldapConfig \<Rightarrow> string \<Rightarrow> bool" where
  "is_allowed cfg p =
     (if has_parent_traversal p then False
      else list_ex (\<lambda>root. path_starts_with (path_components (normalize_for_matching p))
                             (path_components (normalize_for_matching root))) (host_paths cfg))"

datatype path_error = ParentTraversal string | NotUnderShare string | OutsideRoots | RefusedSetuid | RefusedFileBits | WalkAborted | OpFailed string

definition better_share :: "path \<Rightarrow> (nat \<times> path) option \<Rightarrow> Share \<Rightarrow> (nat \<times> path) option" where
  "better_share p best sh =
     (if path_starts_with p (share_prefix sh)
      then let cpath = path_components (serve_path_for sh) @ drop (length (share_prefix sh)) p;
               spec = length (normalize_for_matching (host_path sh))
           in (case best of
                 None \<Rightarrow> Some (spec, cpath)
               | Some b \<Rightarrow> if spec > fst b then Some (spec, cpath) else best)
      else best)"

definition host_path_to_container_path :: "NfsKlldapConfig \<Rightarrow> string \<Rightarrow> (path_error, path) result" where
  "host_path_to_container_path cfg p =
     (if has_parent_traversal p then Err (ParentTraversal p)
      else case foldl (better_share (path_components (normalize_for_matching p))) None (shares cfg) of
             Some (_, cpath) \<Rightarrow> Ok cpath
           | None \<Rightarrow> Err (NotUnderShare p))"

record PathDiagnostic =
  diag_allowed :: bool
  diag_container :: "path option"
  diag_exists :: bool
  diag_serve :: string

definition diagnose_path :: "(path \<Rightarrow> bool) \<Rightarrow> NfsKlldapConfig \<Rightarrow> string \<Rightarrow> PathDiagnostic" where
  "diagnose_path is_dir cfg p =
     (let norm = normalize_for_matching p;
          container = (case host_path_to_container_path cfg p of Inr c \<Rightarrow> Some c | Inl _ \<Rightarrow> None)
      in \<lparr>diag_allowed = is_allowed cfg norm, diag_container = container,
          diag_exists = (case container of Some c \<Rightarrow> is_dir c | None \<Rightarrow> False),
          diag_serve =
            (case max_by_key (\<lambda>sh. length (normalize_for_matching (host_path sh)))
                    (filter (\<lambda>sh. path_starts_with (path_components norm) (share_prefix sh)) (shares cfg)) of
               Some sh \<Rightarrow> serve_path_for sh | None \<Rightarrow> [])\<rparr>)"

text \<open>The path every operation works on: normalized, allowed and mapped.\<close>

definition target_of :: "NfsKlldapConfig \<Rightarrow> string \<Rightarrow> (path_error, path) result" where
  "target_of cfg p =
     (let norm = normalize_for_matching p in
      if \<not> is_allowed cfg norm then Err OutsideRoots else host_path_to_container_path cfg norm)"

section \<open>Reading\<close>

datatype file_type = IsDir | IsFile | IsSymlink | IsOther

datatype FsEntryKind = Dir | File

record FsEntry =
  e_path :: path
  e_name :: string
  e_kind :: FsEntryKind
  e_mtime :: "nat option"

record dir_item =
  d_name :: string
  d_type :: "file_type option"
  d_mtime :: "nat option"

definition entry_of_item :: "path \<Rightarrow> dir_item \<Rightarrow> FsEntry option" where
  "entry_of_item parent it =
     (case d_type it of
        Some IsDir \<Rightarrow> Some \<lparr>e_path = parent @ [Normal (d_name it)], e_name = d_name it, e_kind = Dir, e_mtime = None\<rparr>
      | Some IsFile \<Rightarrow> Some \<lparr>e_path = parent @ [Normal (d_name it)], e_name = d_name it, e_kind = File, e_mtime = d_mtime it\<rparr>
      | _ \<Rightarrow> None)"

definition list_dir :: "(path \<Rightarrow> dir_item list option) \<Rightarrow> NfsKlldapConfig \<Rightarrow> string \<Rightarrow> FsEntry list option" where
  "list_dir read_dir cfg root =
     (let norm = normalize_for_matching root in
      case target_of cfg root of
        Inl _ \<Rightarrow> None
      | Inr real_root \<Rightarrow>
          map_option (\<lambda>items. sort_key (\<lambda>e. (e_kind e = File, to_lowercase (e_name e)))
                                (List.map_filter (entry_of_item (path_components norm)) items))
            (read_dir real_root))"

record NodeMeta =
  n_uid :: "32 word"
  n_gid :: "32 word"
  n_mode :: "32 word"
  n_is_dir :: bool

definition get_node_meta :: "(path \<Rightarrow> NodeMeta option) \<Rightarrow> NfsKlldapConfig \<Rightarrow> string \<Rightarrow> NodeMeta option" where
  "get_node_meta stat cfg p =
     (case target_of cfg p of
        Inl _ \<Rightarrow> None
      | Inr real \<Rightarrow> map_option (\<lambda>m. m\<lparr>n_mode := n_mode m AND 0xFFF\<rparr>) (stat real))"

definition get_dir_meta :: "(path \<Rightarrow> NodeMeta option) \<Rightarrow> NfsKlldapConfig \<Rightarrow> string \<Rightarrow> (32 word \<times> 32 word \<times> 32 word) option" where
  "get_dir_meta stat cfg p = map_option (\<lambda>m. (n_uid m, n_gid m, n_mode m)) (get_node_meta stat cfg p)"

definition get_acl_table :: "(path \<Rightarrow> string option) \<Rightarrow> NfsKlldapConfig \<Rightarrow> string \<Rightarrow> AclTable option" where
  "get_acl_table getfacl cfg p =
     (case target_of cfg p of Inl _ \<Rightarrow> None | Inr real \<Rightarrow> map_option parse_getfacl_table (getfacl real))"

section \<open>Applying\<close>

datatype ApplyScope = DirOnly | ImmediateFiles | AllEntries

fun max_depth :: "ApplyScope \<Rightarrow> nat option" where
  "max_depth DirOnly = Some 0"
| "max_depth ImmediateFiles = Some 1"
| "max_depth AllEntries = None"

record ApplySpec =
  spec_mode :: "32 word"
  spec_scope :: ApplyScope
  spec_file_mode :: "32 word option"

record ApplyOptions =
  opt_scope :: ApplyScope
  opt_file_mode :: "32 word option"
  continue_on_error :: bool

record ApplyResult =
  res_changed :: nat
  res_errors :: "(path \<times> string) list"
  res_skipped :: nat
  fused_dirs :: "path list"
  fused_dir_count :: nat

record ApplyProgress =
  p_processed :: nat
  p_changed :: nat
  p_skipped :: nat
  p_error_count :: nat
  recent_errors :: "(path \<times> string) list"
  last_path :: "path option"

datatype fs_op =
    is_Chown: Chown path "32 word" "32 word"
  | Chmod path "32 word"
  | Setfacl "path list" bool string string

record walk_entry =
  w_path :: path
  w_depth :: nat
  w_type :: file_type

type_synonym walk_item = "(path \<times> string, walk_entry) result"

text \<open>
  \<open>f_walk\<close> lists what the walk finds below a path down to a depth, links not followed; \<open>f_op\<close> is the
  error of an operation, if any; \<open>f_cancelled\<close> is the flag at the \<open>i\<close>-th look.
\<close>

record fs_env =
  f_walk :: "path \<Rightarrow> nat option \<Rightarrow> walk_item list"
  f_op :: "nat \<Rightarrow> fs_op \<Rightarrow> string option"
  f_cancelled :: "nat \<Rightarrow> bool"

record fs_state =
  prog :: ApplyProgress
  issued :: "fs_op list"
  looks :: nat

definition look :: "fs_env \<Rightarrow> fs_state \<Rightarrow> bool \<times> fs_state" where
  "look env s = (f_cancelled env (looks s), s\<lparr>looks := Suc (looks s)\<rparr>)"

definition run_op :: "fs_env \<Rightarrow> fs_op \<Rightarrow> fs_state \<Rightarrow> string option \<times> fs_state" where
  "run_op env x s = (f_op env (length (issued s)) x, s\<lparr>issued := issued s @ [x]\<rparr>)"

definition in_progress :: "(ApplyProgress \<Rightarrow> ApplyProgress) \<Rightarrow> fs_state \<Rightarrow> fs_state" where
  "in_progress f s = s\<lparr>prog := f (prog s)\<rparr>"

definition empty_result :: ApplyResult where
  "empty_result = \<lparr>res_changed = 0, res_errors = [], res_skipped = 0, fused_dirs = [], fused_dir_count = 0\<rparr>"

definition keep_recent :: "(path \<times> string) list \<Rightarrow> path \<times> string \<Rightarrow> (path \<times> string) list" where
  "keep_recent errs e = (let errs = errs @ [e] in if length errs > 10 then tl errs else errs)"

definition note_error :: "path \<Rightarrow> string \<Rightarrow> ApplyProgress \<Rightarrow> ApplyProgress" where
  "note_error p msg g =
     g\<lparr>p_error_count := Suc (p_error_count g), recent_errors := keep_recent (recent_errors g) (p, msg)\<rparr>"

definition count_processed :: "nat \<Rightarrow> ApplyProgress \<Rightarrow> ApplyProgress" where
  "count_processed n g = g\<lparr>p_processed := p_processed g + n\<rparr>"

definition count_changed :: "nat \<Rightarrow> ApplyProgress \<Rightarrow> ApplyProgress" where
  "count_changed n g = g\<lparr>p_changed := p_changed g + n\<rparr>"

definition count_skipped :: "ApplyProgress \<Rightarrow> ApplyProgress" where
  "count_skipped g = g\<lparr>p_skipped := Suc (p_skipped g)\<rparr>"

definition at_path :: "path \<Rightarrow> ApplyProgress \<Rightarrow> ApplyProgress" where
  "at_path p g = g\<lparr>last_path := Some p\<rparr>"

definition add_error :: "path \<Rightarrow> string \<Rightarrow> ApplyResult \<Rightarrow> ApplyResult" where
  "add_error p msg r = r\<lparr>res_errors := res_errors r @ [(p, msg)]\<rparr>"

definition dir_mode_r_implies_x :: "32 word \<Rightarrow> 32 word" where
  "dir_mode_r_implies_x mode = mode OR drop_bit 2 (mode AND 0x124)"

definition should_apply_entry :: "walk_entry \<Rightarrow> ApplyScope \<Rightarrow> bool" where
  "should_apply_entry e scope =
     (let is_dir = (w_type e = IsDir); is_file = (w_type e = IsFile) in
      case scope of
        DirOnly \<Rightarrow> (is_dir \<or> is_file) \<and> w_depth e = 0
      | ImmediateFiles \<Rightarrow> is_dir \<and> w_depth e = 0 \<or> is_file \<and> w_depth e \<le> 1
      | AllEntries \<Rightarrow> is_dir \<or> is_file)"

fun count_walk :: "fs_env \<Rightarrow> ApplyScope \<Rightarrow> walk_item list \<Rightarrow> nat \<Rightarrow> fs_state \<Rightarrow> nat \<times> fs_state" where
  "count_walk env scope [] n s = (n, s)"
| "count_walk env scope (it # its) n s0 =
     (case look env s0 of (cancelled, s) \<Rightarrow>
        if cancelled then (n, s)
        else case it of
          Inr e \<Rightarrow>
            if should_apply_entry e scope
            then count_walk env scope its (Suc n) (in_progress (count_processed 1 \<circ> at_path (w_path e)) s)
            else count_walk env scope its n s
        | Inl _ \<Rightarrow> count_walk env scope its n s)"

definition count_tree :: "fs_env \<Rightarrow> path \<Rightarrow> ApplyScope \<Rightarrow> fs_state \<Rightarrow> nat \<times> fs_state" where
  "count_tree env root scope s = count_walk env scope (f_walk env root (max_depth scope)) 0 s"

definition count_applicable_with_live ::
  "fs_env \<Rightarrow> NfsKlldapConfig \<Rightarrow> string \<Rightarrow> ApplyScope \<Rightarrow> fs_state \<Rightarrow> (path_error, nat) result \<times> fs_state" where
  "count_applicable_with_live env cfg p scope s =
     (case target_of cfg p of
        Inl e \<Rightarrow> (Err e, s)
      | Inr target \<Rightarrow> (case count_tree env target scope s of (n, s) \<Rightarrow> (Ok n, s)))"

text \<open>One entry of the apply walk: the owner first, then the mode. An error stops the walk unless it continues.\<close>

definition op_error ::
  "ApplyOptions \<Rightarrow> path \<Rightarrow> string \<Rightarrow> string \<Rightarrow> ApplyResult \<Rightarrow> fs_state \<Rightarrow> (string, ApplyResult) result \<times> fs_state" where
  "op_error opts p label e r s =
     (let s = in_progress (note_error p (label @ e)) s in
      if continue_on_error opts then (Ok (add_error p (label @ e) r), in_progress (count_processed 1) s) else (Err e, s))"

definition apply_entry ::
  "fs_env \<Rightarrow> 32 word \<Rightarrow> 32 word \<Rightarrow> 32 word \<Rightarrow> ApplyOptions \<Rightarrow> walk_entry \<Rightarrow> ApplyResult \<Rightarrow> fs_state
   \<Rightarrow> (string, ApplyResult) result \<times> fs_state" where
  "apply_entry env uid gid mode opts e r s =
     (if w_type e = IsSymlink \<or> \<not> should_apply_entry e (opt_scope opts)
      then (Ok (r\<lparr>res_skipped := Suc (res_skipped r)\<rparr>), in_progress count_skipped s)
      else
        let p = w_path e;
            s = in_progress (at_path p) s;
            entry_mode = (if w_type e = IsDir then dir_mode_r_implies_x mode else unwrap_or (opt_file_mode opts) mode)
        in case run_op env (Chown p uid gid) s of
             (Some msg, s) \<Rightarrow> op_error opts p ''chown: '' (''chown: '' @ msg) r s
           | (None, s) \<Rightarrow>
               (case run_op env (Chmod p entry_mode) s of
                  (Some msg, s) \<Rightarrow> op_error opts p ''chmod: '' msg r s
                | (None, s) \<Rightarrow>
                    (Ok (if dir_mode_r_implies_x mode \<noteq> mode \<and> w_type e = IsDir
                           then r\<lparr>res_changed := Suc (res_changed r), fused_dir_count := Suc (fused_dir_count r),
                                  fused_dirs := (if length (fused_dirs r) < 10 then fused_dirs r @ [p] else fused_dirs r)\<rparr>
                           else r\<lparr>res_changed := Suc (res_changed r)\<rparr>),
                     in_progress (count_processed 1 \<circ> count_changed 1) s)))"

fun apply_walk ::
  "fs_env \<Rightarrow> 32 word \<Rightarrow> 32 word \<Rightarrow> 32 word \<Rightarrow> ApplyOptions \<Rightarrow> walk_item list \<Rightarrow> ApplyResult \<Rightarrow> fs_state \<Rightarrow> (path_error, ApplyResult) result \<times> fs_state" where
  "apply_walk env uid gid mode opts [] r s = (Ok r, s)"
| "apply_walk env uid gid mode opts (it # its) r s0 =
     (case look env s0 of (cancelled, s) \<Rightarrow>
        if cancelled then (Ok r, s)
        else case it of
          Inl (p, msg) \<Rightarrow>
            let s = in_progress (note_error p msg) s in
            if continue_on_error opts then apply_walk env uid gid mode opts its (add_error p msg r) s else (Err WalkAborted, s)
        | Inr e \<Rightarrow>
            (case apply_entry env uid gid mode opts e r s of
               (Inl e, s) \<Rightarrow> (Err (OpFailed e), s)
             | (Inr r, s) \<Rightarrow> apply_walk env uid gid mode opts its r s))"

definition apply_tree_with_progress ::
  "fs_env \<Rightarrow> path \<Rightarrow> 32 word \<Rightarrow> 32 word \<Rightarrow> 32 word \<Rightarrow> ApplyOptions \<Rightarrow> fs_state \<Rightarrow> (path_error, ApplyResult) result \<times> fs_state" where
  "apply_tree_with_progress env root uid gid mode opts s =
     apply_walk env uid gid mode opts (f_walk env root (max_depth (opt_scope opts))) empty_result s"

definition apply_permissions_with_progress ::
  "fs_env \<Rightarrow> NfsKlldapConfig \<Rightarrow> string \<Rightarrow> 32 word \<Rightarrow> 32 word \<Rightarrow> ApplySpec \<Rightarrow> fs_state \<Rightarrow> (path_error, ApplyResult) result \<times> fs_state" where
  "apply_permissions_with_progress env cfg p owner_uid group_gid spec s =
     (let norm = normalize_for_matching p in
      if \<not> is_allowed cfg norm then (Err OutsideRoots, s)
      else if spec_mode spec AND 0x800 \<noteq> 0 then (Err RefusedSetuid, s)
      else if (case spec_file_mode spec of Some fm \<Rightarrow> fm AND NOT 0x1FF \<noteq> 0 | None \<Rightarrow> False) then (Err RefusedFileBits, s)
      else case host_path_to_container_path cfg norm of
        Inl e \<Rightarrow> (Err e, s)
      | Inr target \<Rightarrow>
          apply_tree_with_progress env target owner_uid group_gid (spec_mode spec)
            \<lparr>opt_scope = spec_scope spec, opt_file_mode = spec_file_mode spec, continue_on_error = True\<rparr> s)"

section \<open>Access lists\<close>

definition run_setfacl_many :: "fs_env \<Rightarrow> path list \<Rightarrow> AclModification \<Rightarrow> fs_state \<Rightarrow> string option \<times> fs_state" where
  "run_setfacl_many env paths m s =
     (case modification_spec m of (d, flag, spec) \<Rightarrow>
        if paths = [] then (None, s) else run_op env (Setfacl paths d flag spec) s)"

definition apply_acl_mod :: "fs_env \<Rightarrow> NfsKlldapConfig \<Rightarrow> string \<Rightarrow> AclModification \<Rightarrow> fs_state \<Rightarrow> (path_error, string) result \<times> fs_state" where
  "apply_acl_mod env cfg p m s =
     (case target_of cfg p of
        Inl e \<Rightarrow> (Err e, s)
      | Inr real \<Rightarrow>
          (case run_setfacl_many env [real] m s of
             (None, s) \<Rightarrow> (Ok ''ACL entry updated on disk'', s)
           | (Some e, s) \<Rightarrow> (Err (OpFailed (''ACL apply failed: '' @ e)), s)))"

definition acl_entry_applies :: "walk_entry \<Rightarrow> ApplyScope \<Rightarrow> bool \<Rightarrow> bool" where
  "acl_entry_applies e scope on_default = (if on_default \<and> w_type e \<noteq> IsDir then False else should_apply_entry e scope)"

fun acl_count_walk :: "fs_env \<Rightarrow> ApplyScope \<Rightarrow> bool \<Rightarrow> walk_item list \<Rightarrow> nat \<Rightarrow> fs_state \<Rightarrow> nat \<times> fs_state" where
  "acl_count_walk env scope d [] n s = (n, s)"
| "acl_count_walk env scope d (it # its) n s0 =
     (case look env s0 of (cancelled, s) \<Rightarrow>
        if cancelled then (n, s)
        else case it of
          Inr e \<Rightarrow>
            if acl_entry_applies e scope d then acl_count_walk env scope d its (Suc n) (in_progress (count_processed 1) s)
            else acl_count_walk env scope d its n s
        | Inl _ \<Rightarrow> acl_count_walk env scope d its n s)"

definition count_acl_applicable_with_live ::
  "fs_env \<Rightarrow> NfsKlldapConfig \<Rightarrow> string \<Rightarrow> AclModification \<Rightarrow> ApplyScope \<Rightarrow> fs_state \<Rightarrow> (path_error, nat) result \<times> fs_state" where
  "count_acl_applicable_with_live env cfg p m scope s =
     (case target_of cfg p of
        Inl e \<Rightarrow> (Err e, s)
      | Inr real \<Rightarrow>
          (case acl_count_walk env scope (default_layer m) (f_walk env real (max_depth scope)) 0 s of (n, s) \<Rightarrow> (Ok n, s)))"

definition CHUNK :: nat where "CHUNK = 64"

definition flush :: "fs_env \<Rightarrow> path list \<Rightarrow> AclModification \<Rightarrow> ApplyResult \<Rightarrow> fs_state \<Rightarrow> ApplyResult \<times> fs_state" where
  "flush env chunk m r s =
     (if chunk = [] then (r, s)
      else case run_setfacl_many env chunk m s of
        (None, s) \<Rightarrow>
          (r\<lparr>res_changed := res_changed r + length chunk\<rparr>,
           in_progress (count_processed (length chunk) \<circ> count_changed (length chunk)) s)
      | (Some e, s) \<Rightarrow>
          let msg = ''setfacl on '' @ show_nat (length chunk) @ '' paths: '' @ e
          in (add_error (hd chunk) msg r, in_progress (count_processed (length chunk) \<circ> note_error (hd chunk) msg) s))"

text \<open>The two chunks that wait for the next call of \<^verbatim>\<open>setfacl\<close>: directories and files.\<close>

definition push_entry ::
  "fs_env \<Rightarrow> AclModification \<Rightarrow> AclModification \<Rightarrow> walk_entry \<Rightarrow> path list \<times> path list \<Rightarrow> ApplyResult \<Rightarrow> fs_state
   \<Rightarrow> (path list \<times> path list) \<times> ApplyResult \<times> fs_state" where
  "push_entry env dm fm e chunks r s =
     (case chunks of (dc, fc) \<Rightarrow>
        if w_type e = IsDir
        then let dc = dc @ [w_path e] in
             if length dc \<ge> CHUNK then (([], fc), flush env dc dm r s) else ((dc, fc), r, s)
        else let fc = fc @ [w_path e] in
             if length fc \<ge> CHUNK then ((dc, []), flush env fc fm r s) else ((dc, fc), r, s))"

fun acl_walk ::
  "fs_env \<Rightarrow> AclModification \<Rightarrow> AclModification \<Rightarrow> ApplyScope \<Rightarrow> walk_item list \<Rightarrow> path list \<times> path list \<Rightarrow> ApplyResult \<Rightarrow> fs_state
   \<Rightarrow> (path list \<times> path list) \<times> ApplyResult \<times> fs_state" where
  "acl_walk env dm fm scope [] chunks r s = (chunks, r, s)"
| "acl_walk env dm fm scope (it # its) chunks r s0 =
     (case look env s0 of (cancelled, s) \<Rightarrow>
        if cancelled then (chunks, r, s)
        else case it of
          Inl (p, msg) \<Rightarrow>
            acl_walk env dm fm scope its chunks (add_error p msg r)
              (in_progress (\<lambda>g. g\<lparr>p_error_count := Suc (p_error_count g)\<rparr>) s)
        | Inr e \<Rightarrow>
            if w_type e = IsSymlink \<or> \<not> acl_entry_applies e scope (default_layer dm)
            then acl_walk env dm fm scope its chunks (r\<lparr>res_skipped := Suc (res_skipped r)\<rparr>) (in_progress count_skipped s)
            else (case push_entry env dm fm e chunks r (in_progress (at_path (w_path e)) s) of
                    (chunks, r, s) \<Rightarrow> acl_walk env dm fm scope its chunks r s))"

definition apply_acl_with_progress ::
  "fs_env \<Rightarrow> NfsKlldapConfig \<Rightarrow> string \<Rightarrow> AclModification \<Rightarrow> AclModification \<Rightarrow> ApplyScope \<Rightarrow> fs_state
   \<Rightarrow> (path_error, ApplyResult) result \<times> fs_state" where
  "apply_acl_with_progress env cfg p dm fm scope s =
     (case target_of cfg p of
        Inl e \<Rightarrow> (Err e, s)
      | Inr real \<Rightarrow>
          (case acl_walk env dm fm scope (f_walk env real (max_depth scope)) ([], []) empty_result s of ((dc, fc), r, s) \<Rightarrow>
             case flush env dc dm r s of (r, s) \<Rightarrow>
               case flush env fc fm r s of (r, s) \<Rightarrow> (Ok r, s)))"

text \<open>The names with extended lists, one batch of \<^verbatim>\<open>getfacl\<close> per 128 names.\<close>

fun chunks_of :: "nat \<Rightarrow> 'a list \<Rightarrow> 'a list list" where
  "chunks_of n [] = []"
| "chunks_of n (x # xs) = (if n = 0 then [] else (x # take (n - 1) xs) # chunks_of n (drop (n - 1) xs))"

definition file_name :: "string \<Rightarrow> string option" where
  "file_name p = (case rev (path_components p) of Normal n # _ \<Rightarrow> Some n | _ \<Rightarrow> None)"

definition extended_acl_names ::
  "(path list \<Rightarrow> string option) \<Rightarrow> NfsKlldapConfig \<Rightarrow> string \<Rightarrow> string list \<Rightarrow> string set" where
  "extended_acl_names getfacl_batch cfg dir names =
     (case target_of cfg dir of
        Inl _ \<Rightarrow> {}
      | Inr real \<Rightarrow>
          \<Union> (set (map (\<lambda>chunk. case getfacl_batch (map (\<lambda>n. real @ [Normal n]) chunk) of
                                 Some out \<Rightarrow> set (List.map_filter file_name (extended_files out)) | None \<Rightarrow> {})
                     (chunks_of 128 names))))"

end
