(* ===== verification/Recycle_Latch.thy ===== *)
theory Recycle_Latch
  imports Prelude Krb5
begin

text \<open>
  Scheduling a recycle from the web interface, \<^verbatim>\<open>try_schedule_service_recycle\<close> of
  \<^verbatim>\<open>nfs-klldap-ui/src/web/settings/mod.rs\<close>: a latch that holds the kind in flight, and the background
  tasks that send the signal to the supervisor and release the latch. A task sleeps, sends its signal,
  and the one that took the latch then waits for the marker of the supervisor or for its deadline.

  Times are milliseconds. What a task meets when it wakes up (the time, whether the signal is
  delivered, whether the marker is fresh) is the choice of the environment: the step relation
  interleaves requests and tasks in every order.
\<close>

section \<open>Requests\<close>

datatype RecycleKind = SharesApply | FullRestart

text \<open>A task is asleep until it sends its signal, or waits for the marker; \<open>owner\<close> took the latch.\<close>

datatype recycle_task =
    Sleeping (owner: bool) RecycleKind nat
  | Waiting nat

record latch =
  restart_requested :: "RecycleKind option"
  tasks :: "recycle_task list"
  signals :: "RecycleKind list"

record recycle_env =
  supervisor_pid :: string
  delay_ms :: nat
  unlatch_timeout_ms :: nat

definition idle_latch :: latch where
  "idle_latch = \<lparr>restart_requested = None, tasks = [], signals = []\<rparr>"

text \<open>\<open>signals\<close> lists what was sent since the latch was taken; taking it starts a new list.\<close>

definition try_schedule_service_recycle :: "recycle_env \<Rightarrow> nat \<Rightarrow> RecycleKind \<Rightarrow> latch \<Rightarrow> bool \<times> latch" where
  "try_schedule_service_recycle env now kind s =
     (case (restart_requested s, kind) of
        (None, _) \<Rightarrow>
          (True, s\<lparr>restart_requested := Some kind, signals := [], tasks := tasks s @ [Sleeping True kind (now + delay_ms env)]\<rparr>)
      | (Some SharesApply, FullRestart) \<Rightarrow>
          (True, s\<lparr>restart_requested := Some FullRestart, tasks := tasks s @ [Sleeping False FullRestart (now + delay_ms env)]\<rparr>)
      | _ \<Rightarrow> (False, s))"

text \<open>\<open>delivered\<close> is the answer of the kernel to the signal.\<close>

definition send_recycle_signal :: "recycle_env \<Rightarrow> bool \<Rightarrow> bool" where
  "send_recycle_signal env delivered =
     (case parse_u32 (supervisor_pid env) of Some pid \<Rightarrow> pid \<noteq> 0 \<and> delivered | None \<Rightarrow> False)"

definition recycle_marker_is_fresh :: "nat option \<Rightarrow> nat \<Rightarrow> bool" where
  "recycle_marker_is_fresh mtime latch_at = (case mtime of Some t \<Rightarrow> latch_at \<le> t | None \<Rightarrow> False)"

section \<open>Tasks\<close>

text \<open>A sleeper wakes up: the signal, and for the owner the wait or, when nothing was delivered, the release.\<close>

definition wake_task :: "recycle_env \<Rightarrow> nat \<Rightarrow> bool \<Rightarrow> bool \<Rightarrow> RecycleKind \<Rightarrow> latch \<Rightarrow> latch" where
  "wake_task env now delivered own kind s =
     (let s = s\<lparr>signals := signals s @ [kind]\<rparr> in
      if \<not> own then s
      else if \<not> send_recycle_signal env delivered then s\<lparr>restart_requested := None\<rparr>
      else s\<lparr>tasks := tasks s @ [Waiting (now + unlatch_timeout_ms env)]\<rparr>)"

inductive recycle_step :: "recycle_env \<Rightarrow> latch \<Rightarrow> latch \<Rightarrow> bool" for env where
  request: "recycle_step env s (snd (try_schedule_service_recycle env now kind s))"
| wake: "\<lbrakk>Sleeping own kind due \<in> set (tasks s); due \<le> now\<rbrakk> \<Longrightarrow>
    recycle_step env s (wake_task env now delivered own kind (s\<lparr>tasks := remove1 (Sleeping own kind due) (tasks s)\<rparr>))"
| release: "\<lbrakk>Waiting deadline \<in> set (tasks s); fresh \<or> deadline \<le> now\<rbrakk> \<Longrightarrow>
    recycle_step env s (s\<lparr>tasks := remove1 (Waiting deadline) (tasks s), restart_requested := None\<rparr>)"

inductive recycle_run :: "recycle_env \<Rightarrow> latch \<Rightarrow> bool" for env where
  start: "recycle_run env idle_latch"
| again: "\<lbrakk>recycle_run env s; recycle_step env s s'\<rbrakk> \<Longrightarrow> recycle_run env s'"

text \<open>The wait itself: looks at the marker every 250 milliseconds until it is fresh or the deadline is over.\<close>

function wait_for_marker :: "nat \<Rightarrow> (nat \<Rightarrow> nat option) \<Rightarrow> nat \<Rightarrow> nat \<Rightarrow> nat" where
  "wait_for_marker latch_at marker deadline now =
     (if \<not> recycle_marker_is_fresh (marker now) latch_at \<and> now < deadline
      then wait_for_marker latch_at marker deadline (now + 250) else now)"
  by pat_completeness auto
termination
  by (relation "measure (\<lambda>(_, _, deadline, now). deadline - now)") auto

declare wait_for_marker.simps [simp del]

section \<open>Laws\<close>

fun owning :: "recycle_task \<Rightarrow> bool" where
  "owning (Sleeping own _ _) = own"
| "owning (Waiting _) = True"

definition owners :: "latch \<Rightarrow> recycle_task list" where
  "owners s = filter owning (tasks s)"

definition full_restart_due :: "latch \<Rightarrow> bool" where
  "full_restart_due s =
     (FullRestart \<in> set (signals s) \<or> (\<exists>own due. Sleeping own FullRestart due \<in> set (tasks s)))"

definition latch_ok :: "latch \<Rightarrow> bool" where
  "latch_ok s =
     (length (owners s) = (if restart_requested s = None then 0 else 1)
      \<and> (restart_requested s = Some FullRestart \<longrightarrow> full_restart_due s))"

lemma owners_remove1: "t \<in> set (tasks s) \<Longrightarrow> owning t \<Longrightarrow>
    length (filter owning (remove1 t (tasks s))) = length (owners s) - 1"
  by (simp add: owners_def filter_remove1 length_remove1)

lemma owners_remove1_other: "\<not> owning t \<Longrightarrow> filter owning (remove1 t (tasks s)) = owners s"
  by (simp add: owners_def filter_remove1 remove1_idem)

lemma latch_ok_request: "latch_ok s \<Longrightarrow> latch_ok (snd (try_schedule_service_recycle env now kind s))"
  by (cases "restart_requested s"; cases kind; cases "the (restart_requested s)")
     (auto simp: try_schedule_service_recycle_def latch_ok_def owners_def full_restart_due_def)

lemma full_restart_due_wake:
  assumes "full_restart_due s" "Sleeping own kind due \<in> set (tasks s)"
  shows "full_restart_due (wake_task env now delivered own kind (s\<lparr>tasks := remove1 (Sleeping own kind due) (tasks s)\<rparr>))"
proof (cases "kind = FullRestart")
  case True
  then show ?thesis by (simp add: full_restart_due_def wake_task_def Let_def)
next
  case False
  then have "Sleeping o' FullRestart d' \<in> set (remove1 (Sleeping own kind due) (tasks s)) \<longleftrightarrow> Sleeping o' FullRestart d' \<in> set (tasks s)" for o' d'
    by (simp add: in_set_remove1)
  with assms show ?thesis by (auto simp: full_restart_due_def wake_task_def Let_def)
qed

lemma latch_ok_wake:
  assumes ok: "latch_ok s" and t: "Sleeping own kind due \<in> set (tasks s)"
  shows "latch_ok (wake_task env now delivered own kind (s\<lparr>tasks := remove1 (Sleeping own kind due) (tasks s)\<rparr>))"
    (is "latch_ok ?s'")
proof -
  have due: "full_restart_due ?s'" if "restart_requested ?s' = Some FullRestart"
    using that ok by (intro full_restart_due_wake[OF _ t])
      (auto simp: latch_ok_def wake_task_def Let_def split: if_splits)
  have "length (owners ?s') = (if restart_requested ?s' = None then 0 else 1)"
  proof (cases own)
    case True
    have "owners s \<noteq> []" using t True by (force simp: owners_def filter_empty_conv)
    then have "length (owners s) = 1" "restart_requested s \<noteq> None"
      using ok by (auto simp: latch_ok_def split: if_splits)
    then show ?thesis
      using owners_remove1[OF t] True by (auto simp: wake_task_def Let_def owners_def)
  next
    case False
    then show ?thesis
      using ok owners_remove1_other[of "Sleeping own kind due" s]
      by (simp add: wake_task_def Let_def latch_ok_def owners_def)
  qed
  with due show ?thesis by (simp add: latch_ok_def)
qed

lemma latch_ok_release:
  assumes ok: "latch_ok s" and t: "Waiting deadline \<in> set (tasks s)"
  shows "latch_ok (s\<lparr>tasks := remove1 (Waiting deadline) (tasks s), restart_requested := None\<rparr>)"
proof -
  have "owners s \<noteq> []" using t by (force simp: owners_def filter_empty_conv)
  then have "length (owners s) = 1" using ok by (auto simp: latch_ok_def split: if_splits)
  then show ?thesis using owners_remove1[OF t] by (simp add: latch_ok_def owners_def)
qed

inductive_cases recycle_stepE [elim!]: "recycle_step env s s'"

lemma recycle_run_ok: "recycle_run env s \<Longrightarrow> latch_ok s"
proof (induction rule: recycle_run.induct)
  case start
  show ?case by (simp add: latch_ok_def idle_latch_def owners_def)
next
  case (again s s')
  from again.hyps(2) again.IH show ?case
    by (auto intro: latch_ok_request latch_ok_wake latch_ok_release)
qed

lemma latch_only_upgrades:
  assumes "recycle_step env s s'" "restart_requested s = Some FullRestart"
  shows "restart_requested s' \<noteq> Some SharesApply"
  using assms by (auto simp: try_schedule_service_recycle_def wake_task_def Let_def split: RecycleKind.splits if_splits)


definition sample_recycle :: recycle_env where
  "sample_recycle = \<lparr>supervisor_pid = ''1'', delay_ms = 1400, unlatch_timeout_ms = 90000\<rparr>"

definition sample_applying :: latch where
  "sample_applying = snd (try_schedule_service_recycle sample_recycle 0 SharesApply idle_latch)"


text \<open>The wait of the owner ends at the first fresh look, and never later than one poll after the deadline.\<close>

lemma wait_for_marker_end:
  "wait_for_marker latch_at marker deadline now = t \<Longrightarrow>
     (recycle_marker_is_fresh (marker t) latch_at \<or> deadline \<le> t) \<and> now \<le> t \<and> (t = now \<or> t < deadline + 250)"
proof (induction latch_at marker deadline now arbitrary: t rule: wait_for_marker.induct)
  case (1 latch_at marker deadline now)
  show ?case
  proof (cases "\<not> recycle_marker_is_fresh (marker now) latch_at \<and> now < deadline")
    case True
    then have "wait_for_marker latch_at marker deadline (now + 250) = t"
      using "1.prems" by (simp add: wait_for_marker.simps[of _ _ _ now])
    from "1.IH"[OF True this] True show ?thesis
      by auto
  next
    case False
    then have "t = now" using "1.prems" by (auto simp: wait_for_marker.simps[of _ _ _ now] split: if_splits)
    with False show ?thesis by auto
  qed
qed

end
