(* ===== verification/Acl_Gate.thy ===== *)
theory Acl_Gate
  imports Fs_Manager Recycle_Latch Ldap_Resolver Generate_Conf
begin

text \<open>
  Which shares serve access lists, as the web interface sees it: the warnings of
  \<^verbatim>\<open>nfs-klldap-config/src/fs_warnings.rs\<close>, the cache of write-probe verdicts of \<^verbatim>\<open>web/acl_capability.rs\<close>, the
  classification of \<^verbatim>\<open>acl_status.rs\<close> and the manifest that publishes it, the gates before an ACL edit of
  \<^verbatim>\<open>permission_tree.rs\<close>, and the background watch of \<^verbatim>\<open>acl_watch.rs\<close>.

  The clock, the two ACL tools and the file types are answers of the environment; \<open>probes_run\<close> records the
  directories a write probe was run in. The text of a mapped path is rebuilt from its components.
\<close>

section \<open>Warnings\<close>

definition default_capable_unknown :: FsCapabilities where
  "default_capable_unknown = \<lparr>fstype = ''unknown'', mount_options = [], acl_capable = True\<rparr>"

definition limited_fs_opts_suffix :: "FsCapabilities \<Rightarrow> string" where
  "limited_fs_opts_suffix caps = (if mount_options caps = [] then [] else '' ('' @ join '','' (mount_options caps) @ '')'')"

record PosixOnlyPolicy =
  fs_warning :: string
  settings_ui_warning :: string
  staging_recommended :: bool

definition share_label :: "string \<Rightarrow> FsCapabilities \<Rightarrow> string" where
  "share_label sname caps = ''share '' @ [CHR 0x22] @ sname @ [CHR 0x22] @ '': '' @ fstype caps @ limited_fs_opts_suffix caps @ '' limited filesystem''"

definition for_share :: "string \<Rightarrow> FsCapabilities \<Rightarrow> EffectiveShareFlags \<Rightarrow> PosixOnlyPolicy option" where
  "for_share sname caps eff =
     (if eff_enable_acl eff then None
      else Some
        \<lparr>fs_warning = share_label sname caps @ '' '' @ em_dash @ '' NOACL mode (enable_acl=false, manage_gids=''
           @ show_bool (eff_manage_gids eff)
           @ ''); cannot store POSIX ACLs, and the 9.13 VFS backend is expected to fail attribute fetches on such filesystems ''
           @ em_dash @ '' stage onto an ACL-capable serve tree'',
         settings_ui_warning = share_label sname caps @ '' '' @ em_dash @ '' NOACL (enable_acl='' @ show_bool (eff_enable_acl eff)
           @ '', manage_gids='' @ show_bool (eff_manage_gids eff) @ '')'',
         staging_recommended = True\<rparr>)"

definition limited_fs_warning :: "Share \<Rightarrow> FsCapabilities \<Rightarrow> string" where
  "limited_fs_warning sh caps =
     (case for_share (name sh) caps (compute_effective_flags sh caps) of
        Some p \<Rightarrow> fs_warning p | None \<Rightarrow> share_label (name sh) caps)"

definition limited_fs_warning_settings_ui :: "string \<Rightarrow> FsCapabilities \<Rightarrow> EffectiveShareFlags \<Rightarrow> string" where
  "limited_fs_warning_settings_ui sname caps eff =
     (case for_share sname caps eff of Some p \<Rightarrow> settings_ui_warning p | None \<Rightarrow> share_label sname caps)"

definition caps_for_share_snapshot :: "Share \<Rightarrow> string option \<Rightarrow> FsCapabilities" where
  "caps_for_share_snapshot sh snap = unwrap_or (probe_snapshot snap (serve_path_for sh)) default_capable_unknown"

record FsShareWarning =
  fw_share_name :: string
  fw_host_path :: string
  fw_serve_path :: string
  fw_fstype :: string
  fw_acl_capable :: bool
  fw_enable_acl :: bool
  fw_manage_gids :: bool
  fw_message :: string

definition format_line :: "FsShareWarning \<Rightarrow> string" where
  "format_line w =
     ''share='' @ fw_share_name w @ '' host_path='' @ fw_host_path w @ '' serve_path='' @ fw_serve_path w
     @ '' fstype='' @ fw_fstype w
     @ (if fw_acl_capable w then '' acl_capable=true''
        else '' acl_capable=false effective_enable_acl='' @ show_bool (fw_enable_acl w)
             @ '' effective_manage_gids='' @ show_bool (fw_manage_gids w) @ '' '' @ em_dash @ '' '' @ fw_message w)"

definition collect_fs_warnings :: "string option \<Rightarrow> NfsKlldapConfig \<Rightarrow> FsShareWarning list" where
  "collect_fs_warnings snap cfg =
     map (\<lambda>sh. let caps = caps_for_share_snapshot sh snap; eff = compute_effective_flags sh caps in
       \<lparr>fw_share_name = name sh, fw_host_path = host_path sh, fw_serve_path = serve_path_for sh, fw_fstype = fstype caps,
        fw_acl_capable = acl_capable caps, fw_enable_acl = eff_enable_acl eff, fw_manage_gids = eff_manage_gids eff,
        fw_message = (if acl_capable caps then [] else limited_fs_warning sh caps)\<rparr>) (shares cfg)"

definition limited_fs_warnings_only :: "string option \<Rightarrow> NfsKlldapConfig \<Rightarrow> FsShareWarning list" where
  "limited_fs_warnings_only snap cfg = filter (\<lambda>w. \<not> fw_acl_capable w) (collect_fs_warnings snap cfg)"

definition share_fs_warning_message_snapshot :: "Share \<Rightarrow> string option \<Rightarrow> string option" where
  "share_fs_warning_message_snapshot sh snap =
     (let caps = caps_for_share_snapshot sh snap in
      if acl_capable caps then None
      else Some (limited_fs_warning_settings_ui (name sh) caps (compute_effective_flags sh caps)))"

definition share_fs_acl_limited_snapshot :: "Share \<Rightarrow> string option \<Rightarrow> bool" where
  "share_fs_acl_limited_snapshot sh snap = (\<not> acl_capable (caps_for_share_snapshot sh snap))"

definition share_divergent_submount_warning_snapshot :: "Share \<Rightarrow> string option \<Rightarrow> bool \<Rightarrow> string option" where
  "share_divergent_submount_warning_snapshot sh snap effective_enable_acl =
     (if \<not> effective_enable_acl then None
      else let hits = acl_incapable_mounts_under snap (serve_path_for sh) in
        if hits = [] then None
        else Some (''share '' @ [CHR 0x22] @ name sh @ [CHR 0x22] @ '': ACL share contains ACL-incapable submount(s): ''
          @ join '', '' (map (\<lambda>m. inc_mount_point m @ '' ('' @ inc_fstype m @ '')'') hits) @ '' '' @ em_dash
          @ '' this build cannot serve such subtrees (attribute fetches fail for both classes); unmount them or move them out of the share''))"

definition any_share_manage_gids_enabled :: "string option \<Rightarrow> NfsKlldapConfig \<Rightarrow> bool" where
  "any_share_manage_gids_enabled snap cfg =
     list_ex (\<lambda>sh. eff_manage_gids (compute_effective_flags sh (caps_for_share_snapshot sh snap))) (shares cfg)"

section \<open>The cache of verdicts\<close>

record CacheEntry =
  ce_verdict :: AclProbeVerdict
  ce_fstype :: string
  ce_options :: "string list"
  ce_probe_dir :: string
  probed_at :: nat

record AclCapabilityCache =
  cap_entries :: "(string \<times> CacheEntry) list"
  cap_ttl :: nat
  cap_looks :: nat
  probes_run :: "string list"

record ProbeOutcome =
  po_caps :: FsCapabilities
  po_mount_root :: "string option"
  po_verdict :: AclProbeVerdict

text \<open>The write probe and the read of the existing list, as the \<open>i\<close>-th look finds them in a directory.\<close>

record acl_env =
  acl_clock :: "nat \<Rightarrow> nat"
  acl_tools :: "nat \<Rightarrow> string \<Rightarrow> bool option \<times> bool option"
  acl_is_dir :: "path \<Rightarrow> bool"

definition DEFAULT_TTL_SECS :: nat where "DEFAULT_TTL_SECS = 300"
definition INCONCLUSIVE_TTL :: nat where "INCONCLUSIVE_TTL = secs 30"

definition new_from_env :: "env \<Rightarrow> AclCapabilityCache" where
  "new_from_env e =
     \<lparr>cap_entries = [],
      cap_ttl = secs (unwrap_or (Option.bind (e ''NFS_KLLDAP_ACL_PROBE_TTL_SECS'') (parse_unsigned (2 ^ 64 - 1))) DEFAULT_TTL_SECS),
      cap_looks = 0, probes_run = []\<rparr>"

definition invalidate_all :: "AclCapabilityCache \<Rightarrow> AclCapabilityCache" where
  "invalidate_all c = c\<lparr>cap_entries := []\<rparr>"

definition cap_now :: "acl_env \<Rightarrow> AclCapabilityCache \<Rightarrow> nat \<times> AclCapabilityCache" where
  "cap_now env c = (acl_clock env (cap_looks c), c\<lparr>cap_looks := Suc (cap_looks c)\<rparr>)"

definition run_probe :: "acl_env \<Rightarrow> FsCapabilities \<Rightarrow> string \<Rightarrow> AclCapabilityCache \<Rightarrow> AclProbeVerdict \<times> AclCapabilityCache" where
  "run_probe env caps dir c =
     (case acl_tools env (cap_looks c) dir of (w, r) \<Rightarrow> acl_probe_verdict caps w r,
      c\<lparr>cap_looks := Suc (cap_looks c), probes_run := probes_run c @ [dir]\<rparr>)"

definition ttl_for :: "AclCapabilityCache \<Rightarrow> AclProbeVerdict \<Rightarrow> nat" where
  "ttl_for c v = (case v of Inconclusive \<Rightarrow> INCONCLUSIVE_TTL | _ \<Rightarrow> cap_ttl c)"

definition cached_hit ::
  "acl_env \<Rightarrow> string \<Rightarrow> FsCapabilities \<Rightarrow> string \<Rightarrow> AclCapabilityCache \<Rightarrow> AclProbeVerdict option \<times> AclCapabilityCache" where
  "cached_hit env root caps dir c =
     (case map_of (cap_entries c) root of
        None \<Rightarrow> (None, c)
      | Some e \<Rightarrow>
          if ce_fstype e \<noteq> fstype caps \<or> ce_options e \<noteq> mount_options caps then (None, c)
          else if ce_verdict e = Inconclusive \<and> path_components (ce_probe_dir e) \<noteq> path_components dir then (None, c)
          else case cap_now env c of (now, c) \<Rightarrow>
            (if now - probed_at e < ttl_for c (ce_verdict e) then Some (ce_verdict e) else None, c))"

definition store :: "acl_env \<Rightarrow> string \<Rightarrow> FsCapabilities \<Rightarrow> string \<Rightarrow> AclProbeVerdict \<Rightarrow> AclCapabilityCache \<Rightarrow> AclCapabilityCache" where
  "store env root caps dir v c =
     (case cap_now env c of (now, c) \<Rightarrow>
        let c = c\<lparr>cap_entries := filter (\<lambda>(_, e). now - probed_at e < cap_ttl c * 8) (cap_entries c)\<rparr> in
        case cap_now env c of (now, c) \<Rightarrow>
          c\<lparr>cap_entries := hm_insert root
              \<lparr>ce_verdict = v, ce_fstype = fstype caps, ce_options = mount_options caps, ce_probe_dir = dir, probed_at = now\<rparr>
              (cap_entries c)\<rparr>)"

definition verdict_cached ::
  "acl_env \<Rightarrow> FsCapabilities \<Rightarrow> string option \<Rightarrow> string \<Rightarrow> bool \<Rightarrow> bool \<Rightarrow> AclCapabilityCache
   \<Rightarrow> AclProbeVerdict \<times> AclCapabilityCache" where
  "verdict_cached env caps mount_root dir skip_write_probe force_refresh c =
     (if fstype caps = ''unknown'' then (Inconclusive, c)
      else if \<not> acl_capable caps then (Incapable, c)
      else if skip_write_probe then (verdict_from_caps caps, c)
      else case mount_root of
        None \<Rightarrow> run_probe env caps dir c
      | Some root \<Rightarrow>
          let probe = (\<lambda>c. case run_probe env caps dir c of (v, c) \<Rightarrow> (v, store env root caps dir v c)) in
          if force_refresh then probe c
          else (case cached_hit env root caps dir c of (Some v, c) \<Rightarrow> (v, c) | (None, c) \<Rightarrow> probe c))"

definition stage_a :: "string option \<Rightarrow> string \<Rightarrow> FsCapabilities \<times> string option" where
  "stage_a snap node_path = unwrap_or (probe_with_root snap node_path) (unknown_caps, None)"

definition verdict_for_snapshot ::
  "acl_env \<Rightarrow> string option \<Rightarrow> string \<Rightarrow> string \<Rightarrow> bool \<Rightarrow> bool \<Rightarrow> AclCapabilityCache \<Rightarrow> ProbeOutcome \<times> AclCapabilityCache" where
  "verdict_for_snapshot env snap node_path probe_dir skip_write_probe force_refresh c =
     (case stage_a snap node_path of (caps, root) \<Rightarrow>
        case verdict_cached env caps root probe_dir skip_write_probe force_refresh c of
          (v, c) \<Rightarrow> (\<lparr>po_caps = caps, po_mount_root = root, po_verdict = v\<rparr>, c))"

section \<open>The class of a share\<close>

record ShareAclStatus =
  effective_acl_capable :: bool
  effective_enable_acl :: bool
  st_verdict :: AclProbeVerdict
  probed :: string
  state_label :: string

definition share_acl_state_label :: "bool option \<Rightarrow> AclProbeVerdict \<Rightarrow> string" where
  "share_acl_state_label acl v =
     (case (acl, v) of
        (Some False, _) \<Rightarrow> ''off''
      | (Some True, Capable) \<Rightarrow> ''on''
      | (Some True, Inconclusive) \<Rightarrow> ''on (unverified)''
      | (Some True, Incapable) \<Rightarrow> ''on (unsupported)''
      | (None, Capable) \<Rightarrow> ''auto (on)''
      | (None, _) \<Rightarrow> ''auto (off)'')"

definition share_acl_status ::
  "acl_env \<Rightarrow> string option \<Rightarrow> Share \<Rightarrow> AclCapabilityCache \<Rightarrow> ShareAclStatus \<times> AclCapabilityCache" where
  "share_acl_status env snap sh c =
     (let serve = serve_path_for sh in
      case verdict_for_snapshot env snap serve serve (enable_acl sh = Some False) False c of
        (out, c) \<Rightarrow>
          let eff = compute_effective_flags_probed sh (po_caps out) (po_verdict out) in
          (\<lparr>effective_acl_capable = (eff_enable_acl eff \<and> acl_capable (po_caps out)),
            effective_enable_acl = eff_enable_acl eff,
            st_verdict = po_verdict out,
            probed = (case po_verdict out of Capable \<Rightarrow> ''capable'' | Incapable \<Rightarrow> ''incapable'' | Inconclusive \<Rightarrow> ''unverified''),
            state_label = share_acl_state_label (enable_acl sh) (po_verdict out)\<rparr>, c))"

record ManifestShare =
  mf_name :: string
  mf_pseudo :: string
  mf_security :: string
  mf_rw :: bool
  mf_acl :: string
  mf_acl_state :: string
  mf_navahi :: bool

fun manifest_shares ::
  "acl_env \<Rightarrow> string option \<Rightarrow> NfsKlldapConfig \<Rightarrow> Share list \<Rightarrow> AclCapabilityCache \<Rightarrow> ManifestShare list \<times> AclCapabilityCache" where
  "manifest_shares env snap cfg [] c = ([], c)"
| "manifest_shares env snap cfg (sh # shs) c =
     (case share_acl_status env snap sh c of (status, c) \<Rightarrow>
        case manifest_shares env snap cfg shs c of (rows, c) \<Rightarrow>
          (\<lparr>mf_name = name sh, mf_pseudo = derive_share_pseudo sh,
            mf_security = unwrap_or (security sh) (default_security (ganesha cfg)),
            mf_rw = unwrap_or (rw sh) True,
            mf_acl = (if effective_acl_capable status then ''acl'' else ''noacl''),
            mf_acl_state = state_label status,
            mf_navahi = share_navahi_effective cfg sh\<rparr> # rows, c))"

definition client_manifest :: "acl_env \<Rightarrow> string option \<Rightarrow> NfsKlldapConfig \<Rightarrow> AclCapabilityCache \<Rightarrow> ManifestShare list \<times> AclCapabilityCache" where
  "client_manifest env snap cfg c = manifest_shares env snap cfg (shares cfg) c"

section \<open>The gates before an edit\<close>

record AclGateView =
  editable :: bool
  pill :: string
  pill_class :: string
  gate_short :: string
  gate_long :: string

definition best_share_for :: "NfsKlldapConfig \<Rightarrow> string \<Rightarrow> Share option" where
  "best_share_for cfg p =
     max_by_key (\<lambda>sh. length (host_path sh))
       (filter (\<lambda>sh. path_starts_with (path_components p) (path_components (host_path sh))
                     \<or> path_components p = path_components (host_path sh)) (shares cfg))"

definition gate_outside_shares :: AclGateView where
  "gate_outside_shares =
     \<lparr>editable = False, pill = ''off'', pill_class = ''off'', gate_short = ''Not under a configured share.'', gate_long = []\<rparr>"

definition join_warning :: "string \<Rightarrow> string \<Rightarrow> string" where
  "join_warning warn base = (if warn \<noteq> [] then base @ '' '' @ warn else base)"

definition off_view :: "string \<Rightarrow> string \<Rightarrow> AclGateView" where
  "off_view short_text long_text = \<lparr>editable = False, pill = ''off'', pill_class = ''off'', gate_short = short_text, gate_long = long_text\<rparr>"

definition off_help :: string where
  "off_help =
     ''Extended ACLs already on disk still enforce kernel-side on the 9.13 build; turn ACLs on for this share to manage them here.''"

definition share_level_decision :: "bool option \<Rightarrow> AclProbeVerdict \<Rightarrow> (string \<Rightarrow> string) \<Rightarrow> AclGateView" where
  "share_level_decision acl v join_text =
     (case (acl, v) of
        (Some False, _) \<Rightarrow>
          off_view ''ACL is off for this share.'' (join_text (''enable_acl = false in the share config. '' @ off_help))
      | (Some True, Capable) \<Rightarrow> \<lparr>editable = True, pill = ''on'', pill_class = ''on'', gate_short = [], gate_long = []\<rparr>
      | (None, Capable) \<Rightarrow> \<lparr>editable = True, pill = ''auto'', pill_class = ''on'', gate_short = [], gate_long = []\<rparr>
      | (Some True, Inconclusive) \<Rightarrow>
          \<lparr>editable = True, pill = ''on (unverified)'', pill_class = ''warn'',
           gate_short = ''ACL on '' @ em_dash @ '' filesystem support unverified.'',
           gate_long = join_text (''The POSIX ACL write probe was inconclusive, but enable_acl = true so the ''
             @ ''export serves ACLs. Verify with verify-ganesha.sh.'')\<rparr>
      | (Some True, _) \<Rightarrow>
          off_view (''ACL is on in config, but this filesystem can'' @ [CHR 0x27] @ ''t store ACLs.'')
            (join_text (''The serve path failed the POSIX ACL probe, so the next config reload will ''
              @ ''refuse to generate exports. Stage onto an ACL-capable tree (source_path) or set enable_acl = false.''))
      | (None, _) \<Rightarrow>
          off_view (''ACL auto: off '' @ em_dash @ '' filesystem support unproven.'')
            (join_text (''enable_acl is unset (auto): ACL turns on automatically once the serve path ''
              @ ''passes the write probe. '' @ off_help)))"

definition acl_capability_decision :: "bool option \<Rightarrow> AclProbeVerdict \<Rightarrow> AclProbeVerdict option \<Rightarrow> string \<Rightarrow> AclGateView" where
  "acl_capability_decision acl root_verdict node_verdict warn =
     (let base = share_level_decision acl root_verdict (join_warning warn) in
      if editable base then
        (case node_verdict of
           Some Incapable \<Rightarrow>
             off_view (''This folder is on a filesystem that can'' @ [CHR 0x27] @ ''t store ACLs (submount).'')
               (join_warning warn (''The share serves ACLs, but this subtree is a mount (vfat/ntfs or ''
                 @ ''similar) that cannot hold POSIX ACLs. Editing is disabled here.''))
         | Some Inconclusive \<Rightarrow>
             off_view (''This submount'' @ [CHR 0x27] @ ''s ACL support is unverified.'')
               (join_warning warn (''The share serves ACLs, but the POSIX ACL probe on this submount was ''
                 @ ''inconclusive, so editing is disabled here until it is verified.''))
         | _ \<Rightarrow> base)
      else base)"

definition share_acl_gate ::
  "acl_env \<Rightarrow> string option \<Rightarrow> NfsKlldapConfig \<Rightarrow> string \<Rightarrow> AclCapabilityCache \<Rightarrow> AclGateView \<times> AclCapabilityCache" where
  "share_acl_gate env snap cfg p c =
     (case best_share_for cfg p of
        None \<Rightarrow> (gate_outside_shares, c)
      | Some sh \<Rightarrow>
          (case share_acl_status env snap sh c of
             (status, c) \<Rightarrow>
               (share_level_decision (enable_acl sh) (st_verdict status)
                  (join_warning (unwrap_or (share_fs_warning_message_snapshot sh snap) [])), c)))"

fun component_text :: "component \<Rightarrow> string" where
  "component_text RootDir = []"
| "component_text CurDir = ''.''"
| "component_text ParentDir = ''..''"
| "component_text (Normal s) = s"

definition path_text :: "path \<Rightarrow> string" where
  "path_text p = (if p = [RootDir] then ''/'' else join ''/'' (map component_text p))"

text \<open>The mount and the directory of the selected node: where the probe of its own mount runs.\<close>

definition node_of :: "acl_env \<Rightarrow> NfsKlldapConfig \<Rightarrow> string \<Rightarrow> string \<Rightarrow> string \<times> string" where
  "node_of env cfg serve p =
     (let node = (case host_path_to_container_path cfg p of Inr n \<Rightarrow> n | Inl _ \<Rightarrow> path_components serve) in
      (case host_path_to_container_path cfg p of Inr n \<Rightarrow> path_text n | Inl _ \<Rightarrow> serve,
       if acl_is_dir env node then (case host_path_to_container_path cfg p of Inr n \<Rightarrow> path_text n | Inl _ \<Rightarrow> serve)
       else if length node \<le> 1 then serve else path_text (butlast node)))"

definition acl_apply_gate ::
  "acl_env \<Rightarrow> string option \<Rightarrow> NfsKlldapConfig \<Rightarrow> string \<Rightarrow> AclCapabilityCache \<Rightarrow> AclGateView \<times> AclCapabilityCache" where
  "acl_apply_gate env snap cfg p c =
     (case best_share_for cfg p of
        None \<Rightarrow> (gate_outside_shares, c)
      | Some sh \<Rightarrow>
          let skip = (enable_acl sh = Some False); serve = serve_path_for sh in
          case verdict_for_snapshot env snap serve serve skip False c of (root, c) \<Rightarrow>
            case node_of env cfg serve p of (node_path, node_dir) \<Rightarrow>
              case verdict_for_snapshot env snap node_path node_dir skip False c of (node, c) \<Rightarrow>
                let node_verdict = (if po_mount_root node \<noteq> po_mount_root root then Some (po_verdict node) else None)
                in (acl_capability_decision (enable_acl sh) (po_verdict root) node_verdict
                      (unwrap_or (share_fs_warning_message_snapshot sh snap) []), c))"

end
