(* ===== verification/Web_Auth.thy ===== *)
theory Web_Auth
  imports Startup
begin

text \<open>
  Authentication of the web interface: \<^verbatim>\<open>nfs-klldap-ui/src/auth.rs\<close> (the \<^verbatim>\<open>AuthManager\<close> with its
  sessions and the password sidecar), the handlers of \<^verbatim>\<open>web/auth.rs\<close>, the password change of
  \<^verbatim>\<open>web/settings/mod.rs\<close> and the wizard gate of \<^verbatim>\<open>web/setup.rs\<close>.

  The state is the manager with the two sidecar files it keeps. The content of the session
  sidecar is the map that \<^verbatim>\<open>serde_json\<close> reads from it, \<open>None\<close> where the file is missing or not
  readable as such a map. SHA-256, the random draws, the clock, the success of file operations and
  the answers of the directory are the record \<open>web_os\<close>; every look at it advances \<open>looks\<close>, so no two
  looks need agree. Time is in nanoseconds since the epoch. \<open>issued\<close> records the sessions created so
  far and is read by no operation.
\<close>

section \<open>Hexadecimal text\<close>

definition hex_pair :: "char \<Rightarrow> string" where
  "hex_pair c = [hex_digit (byte c div 16), hex_digit (byte c mod 16)]"

definition hex_encode :: "string \<Rightarrow> string" where
  "hex_encode s = concat (map hex_pair s)"

definition from_hex_digit :: "char \<Rightarrow> nat option" where
  "from_hex_digit c =
     (if is_ascii_digit c then Some (byte c - 48)
      else if 97 \<le> byte c \<and> byte c \<le> 102 then Some (10 + byte c - 97)
      else if 65 \<le> byte c \<and> byte c \<le> 70 then Some (10 + byte c - 65)
      else None)"

text \<open>The loop over the byte pairs; it runs only on an even number of bytes.\<close>

fun decode_pairs :: "string \<Rightarrow> string option" where
  "decode_pairs (a # b # s) =
     (case from_hex_digit a of
        None \<Rightarrow> None
      | Some hi \<Rightarrow>
          (case from_hex_digit b of
             None \<Rightarrow> None
           | Some lo \<Rightarrow> map_option (Cons (char_of (16 * hi + lo))) (decode_pairs s)))"
| "decode_pairs _ = Some []"

definition hex_decode :: "string \<Rightarrow> string option" where
  "hex_decode s = (if odd (length s) then None else decode_pairs s)"

section \<open>The world and the manager\<close>

datatype pw_io = PwMoved | PwOpenFails | PwWriteFails | PwRenameFails

record web_os =
  sha256 :: "string \<Rightarrow> string"
  clock :: "nat \<Rightarrow> nat"
  token_draws :: "nat \<Rightarrow> nat list"
  salt_draw :: "nat \<Rightarrow> string"
  save_ok :: "nat \<Rightarrow> bool"
  pw_file_io :: "nat \<Rightarrow> pw_io"
  pw_readable :: "nat \<Rightarrow> bool"
  ldap_login :: "nat \<Rightarrow> string \<Rightarrow> string \<Rightarrow> string \<Rightarrow> (string, unit) result"
  ldap_member_live :: "nat \<Rightarrow> string \<Rightarrow> string \<Rightarrow> (string, unit) result"
  web_probes :: "nat \<Rightarrow> probes"
  web_env :: env
  direct_tls :: bool

record Session =
  username :: string
  expires_at :: nat

record PersistedSession =
  p_username :: string
  expires_unix :: nat

record AuthManager =
  sessions :: "string \<rightharpoonup> Session"
  sessions_file :: "(string \<rightharpoonup> PersistedSession) option"
  simple_pw_file :: "string option"
  admin_group :: string
  session_ttl :: nat
  looks :: nat
  issued :: "(string \<times> string \<times> nat) list"

definition nanos :: nat where "nanos = 1000000000"

definition DEFAULT_SESSION_TTL :: nat where "DEFAULT_SESSION_TTL = 12 * 3600 * nanos"

definition glance :: "AuthManager \<Rightarrow> AuthManager" where
  "glance m = m\<lparr>looks := Suc (looks m)\<rparr>"

definition token_hash :: "web_os \<Rightarrow> string \<Rightarrow> string" where
  "token_hash w token = hex_encode (sha256 w token)"

text \<open>
  \<^verbatim>\<open>UNIX_EPOCH + Duration::from_secs\<close> panics when the seconds leave the range of a 64-bit signed
  integer; \<open>None\<close> stands for the panic.
\<close>

definition load_sessions :: "nat \<Rightarrow> (string \<rightharpoonup> PersistedSession) option \<Rightarrow> (string \<rightharpoonup> Session) option" where
  "load_sessions t file =
     (case file of
        None \<Rightarrow> Some Map.empty
      | Some entries \<Rightarrow>
          if \<exists>k p. entries k = Some p \<and> expires_unix p \<ge> 2 ^ 63 then None
          else Some (\<lambda>k. case entries k of
                 None \<Rightarrow> None
               | Some p \<Rightarrow>
                   if expires_unix p * nanos > t
                   then Some \<lparr>username = p_username p, expires_at = expires_unix p * nanos\<rparr> else None))"

definition persisted :: "(string \<rightharpoonup> Session) \<Rightarrow> (string \<rightharpoonup> PersistedSession)" where
  "persisted ss = (\<lambda>k. map_option (\<lambda>s. \<lparr>p_username = username s, expires_unix = expires_at s div nanos\<rparr>) (ss k))"

definition persist_sessions :: "web_os \<Rightarrow> AuthManager \<Rightarrow> AuthManager" where
  "persist_sessions w m =
     glance (if save_ok w (looks m) then m\<lparr>sessions_file := Some (persisted (sessions m))\<rparr> else m)"

definition has_simple_password :: "AuthManager \<Rightarrow> bool" where
  "has_simple_password m = (simple_pw_file m \<noteq> None)"

text \<open>
  The constructor, at the start of the process and at every later start of the web interface on
  the sidecars an earlier one left behind.
\<close>

definition auth_new :: "web_os \<Rightarrow> string option \<Rightarrow> nat option \<Rightarrow> AuthManager \<Rightarrow> AuthManager option" where
  "auth_new w grp ttl left =
     map_option (\<lambda>ss.
       \<lparr>sessions = ss, sessions_file = sessions_file left, simple_pw_file = simple_pw_file left,
        admin_group = unwrap_or grp ''lldap_admin'', session_ttl = unwrap_or ttl DEFAULT_SESSION_TTL,
        looks = Suc (looks left), issued = issued left\<rparr>)
       (load_sessions (clock w (looks left)) (sessions_file left))"

section \<open>The password sidecar\<close>

datatype auth_error =
    NotLocalhost | NoPasswordSet | PwReadFailed | BadFormat | BadSalt | BadHash | InvalidPassword
  | PwEmpty | PwTooShort | PwNotWritten pw_io
  | LdapDenied string | LdapInvalid | PasswordAlreadySet | PwMismatch | LiveCheckFailed string

definition PW_HASH_ITERATIONS :: nat where "PW_HASH_ITERATIONS = 100000"

definition hash_password :: "web_os \<Rightarrow> string \<Rightarrow> string \<Rightarrow> string" where
  "hash_password w salt pw = (sha256 w ^^ (PW_HASH_ITERATIONS - 1)) (sha256 w (salt @ pw))"

definition set_simple_password :: "web_os \<Rightarrow> string \<Rightarrow> AuthManager \<Rightarrow> (auth_error, unit) result \<times> AuthManager" where
  "set_simple_password w password m =
     (if is_blank password then (Err PwEmpty, m)
      else if length password < 8 then (Err PwTooShort, m)
      else
        let salt = salt_draw w (looks m);
            line = hex_encode salt @ '':'' @ hex_encode (hash_password w salt password) @ [line_feed]
        in case pw_file_io w (looks m) of
             PwMoved \<Rightarrow> (Ok (), glance (m\<lparr>simple_pw_file := Some line\<rparr>))
           | failed \<Rightarrow> (Err (PwNotWritten failed), glance m))"

definition validate_simple_password :: "web_os \<Rightarrow> string \<Rightarrow> string \<Rightarrow> AuthManager \<Rightarrow> (auth_error, unit) result" where
  "validate_simple_password w user password m =
     (if user \<noteq> ''localhost'' then Err NotLocalhost
      else case simple_pw_file m of
        None \<Rightarrow> Err NoPasswordSet
      | Some content \<Rightarrow>
          if \<not> pw_readable w (looks m) then Err PwReadFailed
          else case split_once (CHR '':'') (trim content) of
            None \<Rightarrow> Err BadFormat
          | Some (salt_hex, hash_hex) \<Rightarrow>
              (case hex_decode salt_hex of
                 None \<Rightarrow> Err BadSalt
               | Some salt \<Rightarrow>
                   (case hex_decode hash_hex of
                      None \<Rightarrow> Err BadHash
                    | Some expected_hash \<Rightarrow>
                        if hash_password w salt password = expected_hash then Ok () else Err InvalidPassword)))"

section \<open>Sessions\<close>

definition token_char :: "nat \<Rightarrow> char" where
  "token_char c = char_of (if c < 10 then 48 + c else if c < 36 then 97 + c - 10 else 65 + c - 36)"

definition create_privileged_session :: "web_os \<Rightarrow> string \<Rightarrow> AuthManager \<Rightarrow> string \<times> AuthManager" where
  "create_privileged_session w user m0 =
     (let token = map token_char (token_draws w (looks m0));
          m = glance m0;
          s = \<lparr>username = user, expires_at = clock w (looks m) + session_ttl m\<rparr>;
          m = glance (m\<lparr>sessions := (sessions m)(token_hash w token \<mapsto> s),
                       issued := (token, user, expires_at s) # issued m\<rparr>);
          t = clock w (looks m);
          m = glance (m\<lparr>sessions := (\<lambda>k. opt_filter (\<lambda>s. expires_at s > t) (sessions m k))\<rparr>)
      in (token, persist_sessions w m))"

definition validate :: "web_os \<Rightarrow> string \<Rightarrow> AuthManager \<Rightarrow> string option \<times> AuthManager" where
  "validate w token m =
     (let key = token_hash w token in
      case sessions m key of
        Some s \<Rightarrow>
          if expires_at s > clock w (looks m) then (Some (username s), glance m)
          else (None, persist_sessions w (glance (m\<lparr>sessions := (sessions m)(key := None)\<rparr>)))
      | None \<Rightarrow> (None, m))"

definition logout :: "web_os \<Rightarrow> string \<Rightarrow> AuthManager \<Rightarrow> AuthManager" where
  "logout w token m =
     (let key = token_hash w token in
      if sessions m key \<noteq> None then persist_sessions w (m\<lparr>sessions := (sessions m)(key := None)\<rparr>) else m)"

definition invalidate_sessions_for_user_except :: "web_os \<Rightarrow> string \<Rightarrow> string \<Rightarrow> AuthManager \<Rightarrow> nat \<times> AuthManager" where
  "invalidate_sessions_for_user_except w user keep_token m =
     (let keep_key = token_hash w keep_token;
          kept = (\<lambda>k. opt_filter (\<lambda>s. username s \<noteq> user \<or> k = keep_key) (sessions m k));
          dropped = card (dom (sessions m)) - card (dom kept);
          m = m\<lparr>sessions := kept\<rparr>
      in (dropped, if dropped > 0 then persist_sessions w m else m))"

section \<open>Cookies and guards\<close>

text \<open>
  The request headers the code reads, each \<open>None\<close> when absent or not visible ASCII. A session
  cookie is kept as its attributes; printing it is left to the \<^verbatim>\<open>cookie\<close> crate.
\<close>

record request_headers =
  h_cookie :: "string option"
  h_forwarded_proto :: "string option"

record session_cookie =
  c_value :: string
  c_http_only :: bool
  c_same_site_lax :: bool
  c_path :: string
  c_max_age :: nat
  c_secure :: bool

definition is_https :: "web_os \<Rightarrow> request_headers \<Rightarrow> bool" where
  "is_https w h =
     (direct_tls w \<or> (case h_forwarded_proto h of None \<Rightarrow> False | Some v \<Rightarrow> eq_ignore_ascii_case v ''https''))"

definition effective_cookie_secure :: "web_os \<Rightarrow> request_headers \<Rightarrow> bool" where
  "effective_cookie_secure w h =
     (case web_env w ''NFS_KLLDAP_WEBUI_COOKIE_SECURE'' of
        Some v \<Rightarrow> to_ascii_lowercase (trim v) \<notin> {''0'', ''false'', ''off'', ''no''}
      | None \<Rightarrow> is_https w h)"

definition build_session_cookie :: "web_os \<Rightarrow> request_headers \<Rightarrow> string \<Rightarrow> AuthManager \<Rightarrow> session_cookie" where
  "build_session_cookie w h token m =
     \<lparr>c_value = token, c_http_only = True, c_same_site_lax = True, c_path = ''/'',
      c_max_age = session_ttl m div nanos, c_secure = effective_cookie_secure w h\<rparr>"

definition build_clear_session_cookie :: "web_os \<Rightarrow> request_headers \<Rightarrow> session_cookie" where
  "build_clear_session_cookie w h =
     \<lparr>c_value = [], c_http_only = True, c_same_site_lax = True, c_path = ''/'',
      c_max_age = 0, c_secure = effective_cookie_secure w h\<rparr>"

definition session_token_of :: "string \<Rightarrow> string option" where
  "session_token_of part =
     (case strip_prefix ''session='' (trim part) of
        None \<Rightarrow> None
      | Some rest \<Rightarrow> opt_filter (\<lambda>t. t \<noteq> []) (Some (trim_char (CHR 0x22) rest)))"

definition extract_all_session_tokens :: "string \<Rightarrow> string list" where
  "extract_all_session_tokens header = List.map_filter session_token_of (split_on (CHR '';'') header)"

definition extract_all_session_tokens_from_headers :: "request_headers \<Rightarrow> string list" where
  "extract_all_session_tokens_from_headers h =
     (case h_cookie h of None \<Rightarrow> [] | Some v \<Rightarrow> extract_all_session_tokens v)"

definition had_session_cookie :: "request_headers \<Rightarrow> bool" where
  "had_session_cookie h = (extract_all_session_tokens_from_headers h \<noteq> [])"

text \<open>The first token of a list that the check accepts, with the user it belongs to.\<close>

fun first_valid ::
  "(string \<Rightarrow> 'm \<Rightarrow> string option \<times> 'm) \<Rightarrow> string list \<Rightarrow> 'm \<Rightarrow> (string \<times> string) option \<times> 'm" where
  "first_valid check [] m = (None, m)"
| "first_valid check (token # tokens) m =
     (case check token m of
        (Some user, m) \<Rightarrow> (Some (token, user), m)
      | (None, m) \<Rightarrow> first_valid check tokens m)"

definition validate_session_in_headers :: "web_os \<Rightarrow> request_headers \<Rightarrow> AuthManager \<Rightarrow> string option \<times> AuthManager" where
  "validate_session_in_headers w h m =
     (case first_valid (validate w) (rev (extract_all_session_tokens_from_headers h)) m of
        (r, m) \<Rightarrow> (map_option snd r, m))"

definition current_session_token :: "web_os \<Rightarrow> request_headers \<Rightarrow> AuthManager \<Rightarrow> string option \<times> AuthManager" where
  "current_session_token w h m =
     (case first_valid (validate w) (rev (extract_all_session_tokens_from_headers h)) m of
        (r, m) \<Rightarrow> (map_option fst r, m))"

definition auth_failure_redirect :: "request_headers \<Rightarrow> AuthManager \<Rightarrow> string" where
  "auth_failure_redirect h m =
     (if \<not> has_simple_password m then ''/login''
      else if had_session_cookie h then ''/login?error=session''
      else ''/login'')"

definition require_auth :: "web_os \<Rightarrow> request_headers \<Rightarrow> AuthManager \<Rightarrow> (string, string) result \<times> AuthManager" where
  "require_auth w h m =
     (case validate_session_in_headers w h m of
        (Some user, m) \<Rightarrow> (Ok user, m)
      | (None, m) \<Rightarrow> (Err (auth_failure_redirect h m), m))"

section \<open>Handlers\<close>

definition setup_wizard_required_with_marker :: "probes \<Rightarrow> bool" where
  "setup_wizard_required_with_marker p =
     (if is_preconfigured_deployment p then False else \<not> wizard_marker p)"

definition setup_redirect_for_step :: "probes \<Rightarrow> string" where
  "setup_redirect_for_step p =
     (if is_preconfigured_deployment p then ''/login''
      else if wizard_marker p then ''/login''
      else case wizard_index (compute_wizard_step p) of
        Some n \<Rightarrow> ''/setup/'' @ show_word n
      | None \<Rightarrow> ''/login'')"

datatype web_response =
    RedirectTo string "session_cookie option"
  | LoginPage nat "string option" "auth_error option" bool
  | SettingsPage string "(auth_error, nat) result"

definition login_error_message :: "bool \<Rightarrow> string option \<Rightarrow> string option" where
  "login_error_message first_run error =
     (case error of
        None \<Rightarrow> None
      | Some code \<Rightarrow>
          if first_run \<and> code \<in> {''session'', ''required'', ''auth''} then None
          else Some (if code \<in> {''session'', ''required'', ''auth''}
                     then ''Your session has expired or you are not logged in. Please sign in again.''
                     else ''Authentication required: '' @ code))"

definition login_page :: "web_os \<Rightarrow> request_headers \<Rightarrow> string option \<Rightarrow> AuthManager \<Rightarrow> web_response \<times> AuthManager" where
  "login_page w h error m =
     (let p = web_probes w (looks m) in
      if setup_wizard_required_with_marker p then (RedirectTo (setup_redirect_for_step p) None, glance m)
      else case validate_session_in_headers w h (glance m) of
        (Some _, m) \<Rightarrow> (RedirectTo ''/'' None, m)
      | (None, m) \<Rightarrow>
          (LoginPage 200 (login_error_message (\<not> has_simple_password m) error) None (\<not> has_simple_password m), m))"

definition open_session :: "web_os \<Rightarrow> request_headers \<Rightarrow> string \<Rightarrow> string \<Rightarrow> AuthManager \<Rightarrow> web_response \<times> AuthManager" where
  "open_session w h user target m =
     (let m = fold (logout w) (extract_all_session_tokens_from_headers h) m in
      case create_privileged_session w user m of
        (token, m) \<Rightarrow> (RedirectTo target (Some (build_session_cookie w h token m)), m))"

definition check_credentials :: "web_os \<Rightarrow> string \<Rightarrow> string \<Rightarrow> AuthManager \<Rightarrow> (auth_error, unit) result \<times> AuthManager" where
  "check_credentials w user password m =
     (if user = ''localhost'' then (validate_simple_password w user password m, glance m)
      else case ldap_login w (looks m) user password (admin_group m) of
        Inr _ \<Rightarrow> (Ok (), glance m)
      | Inl e \<Rightarrow> (Err (if contains_str e ''not a member of'' then LdapDenied e else LdapInvalid), glance m))"

definition login :: "web_os \<Rightarrow> request_headers \<Rightarrow> string \<Rightarrow> string \<Rightarrow> AuthManager \<Rightarrow> web_response \<times> AuthManager" where
  "login w h form_user password m =
     (let user = trim form_user in
      case check_credentials w user password m of
        (Inr _, m) \<Rightarrow> open_session w h user ''/'' m
      | (Inl e, m) \<Rightarrow> (LoginPage 401 None (Some e) (\<not> has_simple_password m), m))"

definition setup_password :: "web_os \<Rightarrow> request_headers \<Rightarrow> string \<Rightarrow> AuthManager \<Rightarrow> web_response \<times> AuthManager" where
  "setup_password w h form_password m =
     (let p = web_probes w (looks m) in
      if setup_wizard_required_with_marker p then (RedirectTo (setup_redirect_for_step p) None, glance m)
      else if has_simple_password m then (LoginPage 400 None (Some PasswordAlreadySet) False, glance m)
      else let pw = trim form_password in
        if pw = [] then (LoginPage 400 None (Some PwEmpty) True, glance m)
        else case set_simple_password w pw (glance m) of
          (Inr _, m) \<Rightarrow> open_session w h ''localhost'' ''/?first_run=1'' m
        | (Inl e, m) \<Rightarrow> (LoginPage 400 None (Some e) True, m))"

definition logout_request :: "web_os \<Rightarrow> request_headers \<Rightarrow> AuthManager \<Rightarrow> web_response \<times> AuthManager" where
  "logout_request w h m =
     (RedirectTo ''/login'' (Some (build_clear_session_cookie w h)),
      fold (logout w) (extract_all_session_tokens_from_headers h) m)"

definition authorize_change :: "web_os \<Rightarrow> string \<Rightarrow> string \<Rightarrow> AuthManager \<Rightarrow> (auth_error, unit) result \<times> AuthManager" where
  "authorize_change w user current m =
     (if user = ''localhost'' then (validate_simple_password w ''localhost'' current m, glance m)
      else case ldap_member_live w (looks m) user (admin_group m) of
        Inr _ \<Rightarrow> (Ok (), glance m)
      | Inl e \<Rightarrow> (Err (LiveCheckFailed e), glance m))"

definition rotate_password :: "web_os \<Rightarrow> request_headers \<Rightarrow> string \<Rightarrow> string \<Rightarrow> string \<Rightarrow> AuthManager \<Rightarrow> web_response \<times> AuthManager" where
  "rotate_password w h user new confirm m =
     (if trim new \<noteq> trim confirm then (SettingsPage user (Err PwMismatch), m)
      else case set_simple_password w (trim new) m of
        (Inl e, m) \<Rightarrow> (SettingsPage user (Err e), m)
      | (Inr _, m) \<Rightarrow>
          (case current_session_token w h m of
             (keep, m) \<Rightarrow>
               (case invalidate_sessions_for_user_except w ''localhost'' (unwrap_or keep []) m of
                  (dropped, m) \<Rightarrow> (SettingsPage user (Ok dropped), m))))"

definition settings_change_password ::
  "web_os \<Rightarrow> request_headers \<Rightarrow> string option \<Rightarrow> string \<Rightarrow> string \<Rightarrow> AuthManager \<Rightarrow> web_response \<times> AuthManager" where
  "settings_change_password w h current new confirm m =
     (case require_auth w h m of
        (Inl target, m) \<Rightarrow> (RedirectTo target None, m)
      | (Inr user, m) \<Rightarrow>
          (case authorize_change w user (unwrap_or current []) m of
             (Inl e, m) \<Rightarrow> (SettingsPage user (Err e), m)
           | (Inr _, m) \<Rightarrow> rotate_password w h user new confirm m))"

text \<open>The requests that touch the manager, and the runs of the web interface they make up.\<close>

datatype web_request =
    GetLogin request_headers "string option"
  | PostLogin request_headers string string
  | PostSetup request_headers string
  | AnyLogout request_headers
  | PostChange request_headers "string option" string string
  | Guarded request_headers

fun serve :: "web_os \<Rightarrow> web_request \<Rightarrow> AuthManager \<Rightarrow> AuthManager" where
  "serve w (GetLogin h error) m = snd (login_page w h error m)"
| "serve w (PostLogin h user password) m = snd (login w h user password m)"
| "serve w (PostSetup h password) m = snd (setup_password w h password m)"
| "serve w (AnyLogout h) m = snd (logout_request w h m)"
| "serve w (PostChange h current new confirm) m = snd (settings_change_password w h current new confirm m)"
| "serve w (Guarded h) m = snd (require_auth w h m)"

definition installed :: "string option \<Rightarrow> AuthManager" where
  "installed pw =
     \<lparr>sessions = Map.empty, sessions_file = None, simple_pw_file = pw, admin_group = [], session_ttl = 0,
      looks = 0, issued = []\<rparr>"

inductive auth_reach :: "web_os \<Rightarrow> AuthManager \<Rightarrow> bool" for w where
  started: "auth_new w grp ttl (installed pw) = Some m \<Longrightarrow> auth_reach w m"
| served: "auth_reach w m \<Longrightarrow> auth_reach w (serve w req m)"
| restarted: "auth_reach w m \<Longrightarrow> auth_new w grp ttl m = Some m' \<Longrightarrow> auth_reach w m'"

section \<open>Laws of the building blocks\<close>

lemma nibbles:
  "byte c div 16 < 16" "char_of (16 * (byte c div 16) + byte c mod 16) = c"
proof -
  have "byte c < 256" by (metis of_char_of char_of_char mod_less_divisor zero_less_numeral of_char_mod_256)
  then show "byte c div 16 < 16" by (simp add: div_less_iff_less_mult)
  show "char_of (16 * (byte c div 16) + byte c mod 16) = c" by (simp add: mult_div_mod_eq)
qed

lemma from_hex_digit_hex_digit: "n < 16 \<Longrightarrow> from_hex_digit (hex_digit n) = Some n"
  by (auto simp: from_hex_digit_def hex_digit_def is_ascii_digit_def)

interpretation hex: escaping hex_pair decode_pairs "\<lambda>_. True"
  by unfold_locales (simp_all add: hex_pair_def from_hex_digit_hex_digit nibbles)

lemma hex_decode_encode: "hex_decode (hex_encode s) = Some s"
proof -
  have "length (hex_encode s) = 2 * length s" by (induction s) (simp_all add: hex_encode_def hex_pair_def)
  then show ?thesis using hex.unesc_concat [of s] by (simp add: hex_decode_def hex_encode_def list_all_iff)
qed

lemma hex_digit_plain: "n < 16 \<Longrightarrow> inked (hex_digit n) \<and> byte (hex_digit n) \<noteq> 58"
  by (auto simp: hex_digit_def inked_def is_ascii_def ws1_def)

lemma hex_encode_plain:
  assumes "c \<in> set (hex_encode s)"
  shows "inked c \<and> c \<noteq> CHR '':''"
proof -
  from assms obtain x where "c = hex_digit (byte x div 16) \<or> c = hex_digit (byte x mod 16)"
    by (auto simp: hex_encode_def hex_pair_def)
  then obtain n where "n < 16" "c = hex_digit n" using nibbles(1) [of x] by (metis mod_less_divisor zero_less_numeral)
  moreover have "byte (CHR '':'') = (58 :: nat)" by simp
  ultimately show ?thesis using hex_digit_plain by metis
qed

lemma hex_encode_Nil_iff: "hex_encode s = [] \<longleftrightarrow> s = []"
  by (cases s) (simp_all add: hex_encode_def hex_pair_def)

text \<open>A stored line is read back: its own line feed is trimmed, the colon is the first one.\<close>

lemma ws_width_rev_ws1: "ws1 a \<Longrightarrow> ws_width_rev (a # s) = 1"
  by (cases "a # s" rule: ws_width_rev.cases) auto

lemma trim_line_feed:
  assumes "s \<noteq> []" "inked (hd s)" "inked (last s)"
  shows "trim (s @ [line_feed]) = s"
proof -
  have "ws_width (s @ [line_feed]) = 0" using assms(1,2) by (cases s) (simp_all add: ws_width_inked)
  moreover have "ws_width_rev (rev s) = 0" using assms(1,3) by (cases s rule: rev_cases) (simp_all add: ws_width_rev_inked)
  moreover have "ws1 line_feed" by (simp add: ws1_def line_feed_def)
  ultimately show ?thesis
    by (simp add: trim_def trim_start_id trim_end_def drop_ws.simps [of _ "line_feed # rev s"] ws_width_rev_ws1 drop_ws_id)
qed

lemma pw_line_parts:
  "split_once (CHR '':'') (trim (hex_encode a @ '':'' @ hex_encode b @ [line_feed])) = Some (hex_encode a, hex_encode b)"
proof -
  define l where "l = hex_encode a @ '':'' @ hex_encode b"
  have ink: "inked c" if "c \<in> set l" for c
    using that hex_encode_plain by (auto simp: l_def inked_def is_ascii_def ws1_def)
  have ne: "l \<noteq> []" by (simp add: l_def)
  then have "trim (l @ [line_feed]) = l" using ink by (intro trim_line_feed) simp_all
  moreover have "CHR '':'' \<notin> set (hex_encode a)" using hex_encode_plain by blast
  ultimately show ?thesis by (simp add: l_def split_once_append)
qed

text \<open>
  After a password has been stored, exactly the passwords whose iterated hash under the drawn
  salt is that of the stored one log the local account in; in particular the password itself
  does, and no reader of the sidecar sees more than the salt and the hash.
\<close>

theorem simple_password_roundtrip:
  assumes "set_simple_password w pw m = (Ok (), m')" and "pw_readable w (looks m')"
  shows "validate_simple_password w ''localhost'' q m' = Ok ()
    \<longleftrightarrow> hash_password w (salt_draw w (looks m)) q = hash_password w (salt_draw w (looks m)) pw"
proof -
  from assms(1) have "simple_pw_file m' =
      Some (hex_encode (salt_draw w (looks m)) @ '':'' @ hex_encode (hash_password w (salt_draw w (looks m)) pw) @ [line_feed])"
    by (auto simp: set_simple_password_def Let_def glance_def split: if_splits pw_io.splits)
  then show ?thesis
    using assms(2) by (simp add: validate_simple_password_def pw_line_parts [simplified] hex_decode_encode)
qed

text \<open>The state of the sample world: the hash is the identity, saves succeed, time stands still.\<close>

definition sample_web :: web_os where
  "sample_web =
     \<lparr>sha256 = (\<lambda>s. s), clock = (\<lambda>_. 0), token_draws = (\<lambda>_. [1, 2, 3]), salt_draw = (\<lambda>_. ''salt''),
      save_ok = (\<lambda>_. True), pw_file_io = (\<lambda>_. PwMoved), pw_readable = (\<lambda>_. True),
      ldap_login = (\<lambda>_ _ _ _. Err ''bind failed''), ldap_member_live = (\<lambda>_ _ _. Err ''no bind''),
      web_probes = (\<lambda>_. sample_probes\<lparr>wizard_marker := True\<rparr>), web_env = (\<lambda>_. None), direct_tls = False\<rparr>"

lemma sample_hash: "hash_password sample_web salt pw = salt @ pw"
proof -
  have "((\<lambda>s. s) ^^ n) x = x" for n and x :: string by (induction n) simp_all
  then show ?thesis by (simp add: hash_password_def sample_web_def)
qed

theorem simple_password_roundtrip_witness:
  "validate_simple_password sample_web ''localhost'' ''correct horse''
     (snd (set_simple_password sample_web ''correct horse'' (installed None))) = Ok ()"
proof -
  have "\<not> is_blank ''correct horse''" by code_simp
  then have "set_simple_password sample_web ''correct horse'' (installed None)
      = (Ok (), snd (set_simple_password sample_web ''correct horse'' (installed None)))"
    by (simp add: set_simple_password_def sample_web_def Let_def)
  from simple_password_roundtrip [OF this, of "''correct horse''"] show ?thesis
    by (simp add: sample_web_def)
qed

section \<open>Invariants of the manager\<close>

text \<open>
  A predicate that survives a look at the world, a new password file, the loss of sessions, a save
  and the creation of a session survives every request.
\<close>

locale auth_invariant =
  fixes w :: web_os and I :: "AuthManager \<Rightarrow> bool"
  assumes I_look: "I m \<Longrightarrow> I (m\<lparr>looks := n\<rparr>)"
    and I_pw: "I m \<Longrightarrow> I (m\<lparr>simple_pw_file := f\<rparr>)"
    and I_drop: "I m \<Longrightarrow> (\<And>k s. ss k = Some s \<Longrightarrow> sessions m k = Some s) \<Longrightarrow> I (m\<lparr>sessions := ss\<rparr>)"
    and I_save: "I m \<Longrightarrow> I (persist_sessions w m)"
    and I_create: "I m \<Longrightarrow> I (snd (create_privileged_session w user m))"
begin

lemma glance_I: "I m \<Longrightarrow> I (glance m)"
  by (simp add: glance_def I_look)

lemma forget_I: "I m \<Longrightarrow> I (m\<lparr>sessions := (sessions m)(k := None)\<rparr>)"
  by (rule I_drop) (auto split: if_splits)

lemma filter_I: "I m \<Longrightarrow> I (m\<lparr>sessions := \<lambda>k. opt_filter (P k) (sessions m k)\<rparr>)"
  by (rule I_drop) (auto simp: opt_filter_def split: option.splits if_splits)

lemma validate_I: "I m \<Longrightarrow> I (snd (validate w tok m))"
  by (simp add: validate_def Let_def glance_I I_save forget_I split: option.split)

lemma logout_I: "I m \<Longrightarrow> I (logout w tok m)"
  by (simp add: logout_def Let_def I_save forget_I)

lemma logouts_I: "I m \<Longrightarrow> I (fold (logout w) toks m)"
  by (induction toks arbitrary: m) (simp_all add: logout_I)

lemma first_valid_I: "I m \<Longrightarrow> I (snd (first_valid (validate w) toks m))"
proof (induction toks arbitrary: m)
  case (Cons tok toks)
  from validate_I [OF Cons.prems] have "I (snd (validate w tok m))" .
  then show ?case using Cons.IH by (cases "validate w tok m") (auto split: option.split)
qed simp

lemma guard_I:
  "I m \<Longrightarrow> I (snd (validate_session_in_headers w h m))" "I m \<Longrightarrow> I (snd (current_session_token w h m))"
  "I m \<Longrightarrow> I (snd (require_auth w h m))"
proof -
  assume "I m"
  then have *: "I (snd (first_valid (validate w) (rev (extract_all_session_tokens_from_headers h)) m))" by (rule first_valid_I)
  then show "I (snd (validate_session_in_headers w h m))" "I (snd (current_session_token w h m))"
    by (simp_all add: validate_session_in_headers_def current_session_token_def split_beta)
  then show "I (snd (require_auth w h m))"
    by (auto simp: require_auth_def split: prod.splits option.splits)
qed

lemma set_pw_I: "I m \<Longrightarrow> I (snd (set_simple_password w pw m))"
  by (simp add: set_simple_password_def Let_def glance_I I_pw split: pw_io.split)

lemma open_I: "I m \<Longrightarrow> I (snd (open_session w h u target m))"
  using I_create [OF logouts_I] by (simp add: open_session_def Let_def split: prod.split) (metis snd_conv)

lemma credentials_I: "I m \<Longrightarrow> I (snd (check_credentials w u pw m))" "I m \<Longrightarrow> I (snd (authorize_change w u cur m))"
  by (simp_all add: check_credentials_def authorize_change_def glance_I split: sum.split)

lemma invalidate_I: "I m \<Longrightarrow> I (snd (invalidate_sessions_for_user_except w u keep m))"
  by (simp add: invalidate_sessions_for_user_except_def Let_def I_save filter_I)

lemma login_I: "I m \<Longrightarrow> I (snd (login w h u pw m))"
  using credentials_I(1) [of m "trim u" pw]
  by (auto simp: login_def Let_def intro: open_I split: prod.split sum.split)

lemma setup_I: "I m \<Longrightarrow> I (snd (setup_password w h pw m))"
  using set_pw_I [OF glance_I, of m "trim pw"]
  by (auto simp: setup_password_def Let_def intro: open_I glance_I split: prod.split sum.split)

lemma login_page_I: "I m \<Longrightarrow> I (snd (login_page w h e m))"
  using guard_I(1) [OF glance_I, of m h]
  by (auto simp: login_page_def Let_def glance_I split: prod.split option.split)

lemma rotate_I:
  assumes "I m"
  shows "I (snd (rotate_password w h u new conf m))"
proof -
  obtain r m1 where 1: "set_simple_password w (trim conf) m = (r, m1)" by fastforce
  with set_pw_I [OF assms, of "trim conf"] have i1: "I m1" by simp
  obtain k m2 where 2: "current_session_token w h m1 = (k, m2)" by fastforce
  with guard_I(2) [OF i1, of h] have i2: "I m2" by simp
  obtain d m3 where 3: "invalidate_sessions_for_user_except w ''localhost'' (unwrap_or k []) m2 = (d, m3)" by fastforce
  with invalidate_I [OF i2, of "''localhost''" "unwrap_or k []"] have "I m3" by simp
  with assms i1 show ?thesis
    by (cases "trim new = trim conf") (simp_all add: rotate_password_def 1 2 3 split: sum.split)
qed

lemma change_I:
  assumes "I m"
  shows "I (snd (settings_change_password w h cur new conf m))"
proof -
  obtain r m1 where 1: "require_auth w h m = (r, m1)" by fastforce
  with guard_I(3) [OF assms, of h] have i1: "I m1" by simp
  have "I (snd (case authorize_change w u (unwrap_or cur []) m1 of
        (Inl e, m) \<Rightarrow> (SettingsPage u (Err e), m) | (Inr _, m) \<Rightarrow> rotate_password w h u new conf m))" for u
    using credentials_I(2) [OF i1, of u "unwrap_or cur []"] by (auto intro: rotate_I split: sum.split prod.split)
  with i1 show ?thesis by (simp add: settings_change_password_def 1 split: sum.split)
qed

lemma serve_I: "I m \<Longrightarrow> I (serve w req m)"
  by (cases req) (simp_all add: login_page_I login_I setup_I logout_request_def logouts_I change_I guard_I)

end

text \<open>Every session in memory or in the sidecar goes back to one that was issued.\<close>

definition backed :: "web_os \<Rightarrow> AuthManager \<Rightarrow> bool" where
  "backed w m =
     ((\<forall>k s. sessions m k = Some s \<longrightarrow>
         (\<exists>tok e. (tok, username s, e) \<in> set (issued m) \<and> k = token_hash w tok \<and> expires_at s \<le> e))
    \<and> (\<forall>f k p. sessions_file m = Some f \<longrightarrow> f k = Some p \<longrightarrow>
         (\<exists>tok e. (tok, p_username p, e) \<in> set (issued m) \<and> k = token_hash w tok \<and> expires_unix p * nanos \<le> e)))"

lemma backed_save:
  assumes "backed w m"
  shows "backed w (persist_sessions w m)"
proof -
  have "\<exists>tok e. (tok, username s, e) \<in> set (issued m) \<and> k = token_hash w tok \<and> expires_at s div nanos * nanos \<le> e"
    if "sessions m k = Some s" for k s
  proof -
    from assms that obtain tok e where "(tok, username s, e) \<in> set (issued m)" "k = token_hash w tok" "expires_at s \<le> e"
      unfolding backed_def by blast
    moreover from \<open>expires_at s \<le> e\<close> have "expires_at s div nanos * nanos \<le> e"
      using div_times_less_eq_dividend order_trans by blast
    ultimately show ?thesis by blast
  qed
  with assms show ?thesis
    unfolding backed_def persist_sessions_def glance_def persisted_def by auto
qed

lemma backed_create: "backed w m \<Longrightarrow> backed w (snd (create_privileged_session w u m))"
  unfolding create_privileged_session_def Let_def snd_conv
  by (rule backed_save) (auto simp: backed_def glance_def opt_filter_def split: option.splits if_splits; blast)

interpretation backing: auth_invariant w "backed w" for w
proof
  show "backed w (m\<lparr>sessions := ss\<rparr>)" if "backed w m" "\<And>k s. ss k = Some s \<Longrightarrow> sessions m k = Some s" for m ss
    using that unfolding backed_def by simp
qed (auto simp: backed_save backed_create, auto simp: backed_def)

text \<open>With a disk that takes every save the sidecar holds every session.\<close>

definition mirrored :: "web_os \<Rightarrow> AuthManager \<Rightarrow> bool" where
  "mirrored w m =
     ((\<forall>n. save_ok w n) \<longrightarrow>
        (\<forall>k s. sessions m k = Some s \<longrightarrow>
           (\<exists>f. sessions_file m = Some f \<and> f k = Some \<lparr>p_username = username s, expires_unix = expires_at s div nanos\<rparr>)))"

lemma mirrored_save: "mirrored w m \<Longrightarrow> mirrored w (persist_sessions w m)"
  by (simp add: mirrored_def persist_sessions_def glance_def persisted_def)

interpretation mirror: auth_invariant w "mirrored w" for w
proof
  show "mirrored w (m\<lparr>sessions := ss\<rparr>)" if "mirrored w m" "\<And>k s. ss k = Some s \<Longrightarrow> sessions m k = Some s" for m ss
    using that unfolding mirrored_def by simp
  show "mirrored w (snd (create_privileged_session w u m))" for u m
    by (simp add: mirrored_def create_privileged_session_def Let_def persist_sessions_def glance_def persisted_def)
qed (auto simp: mirrored_save, auto simp: mirrored_def)

lemma new_sessions:
  assumes "auth_new w grp ttl m = Some m'" "sessions m' k = Some s"
  shows "\<exists>f p. sessions_file m = Some f \<and> f k = Some p \<and> username s = p_username p \<and> expires_at s = expires_unix p * nanos"
  using assms by (auto simp: auth_new_def load_sessions_def split: option.splits if_splits)

lemma new_fields:
  assumes "auth_new w grp ttl m = Some m'"
  shows "sessions_file m' = sessions_file m" "issued m' = issued m"
  using assms by (auto simp: auth_new_def)

lemma reach_backed: "auth_reach w m \<Longrightarrow> backed w m"
proof (induction rule: auth_reach.induct)
  case (started grp ttl pw m)
  then show ?case by (auto simp: backed_def auth_new_def load_sessions_def installed_def)
next
  case (served m req)
  then show ?case by (simp add: backing.serve_I)
next
  case (restarted m grp ttl m')
  note n = new_fields [OF restarted(2)]
  have "\<exists>tok e. (tok, username s, e) \<in> set (issued m') \<and> k = token_hash w tok \<and> expires_at s \<le> e"
    if "sessions m' k = Some s" for k s
    using new_sessions [OF restarted(2) that] restarted.IH n unfolding backed_def by fastforce
  with restarted.IH n show ?case unfolding backed_def by simp
qed

lemma reach_mirrored: "auth_reach w m \<Longrightarrow> mirrored w m"
proof (induction rule: auth_reach.induct)
  case (started grp ttl pw m)
  then show ?case by (auto simp: mirrored_def auth_new_def load_sessions_def installed_def)
next
  case (served m req)
  then show ?case by (simp add: mirror.serve_I)
next
  case (restarted m grp ttl m')
  have "0 < nanos" by (simp add: nanos_def)
  with restarted(2) show ?case
    using new_sessions [OF restarted(2)] new_fields [OF restarted(2)] by (fastforce simp: mirrored_def)
qed

section \<open>What the guard relies on\<close>

text \<open>
  The guard needs two laws of the token check: an accepted token is held by the user it reports
  and has not expired at the look that accepted it, and a check adds no session.
\<close>

locale session_check =
  fixes check :: "string \<Rightarrow> 'm \<Rightarrow> string option \<times> 'm"
    and holds :: "'m \<Rightarrow> string \<Rightarrow> string \<Rightarrow> nat \<Rightarrow> bool"
    and at :: "'m \<Rightarrow> nat" and time :: "nat \<Rightarrow> nat"
  assumes accepted: "check tok m = (Some u, m') \<Longrightarrow> \<exists>e. holds m tok u e \<and> time (at m) < e"
    and adds_none: "check tok m = (r, m') \<Longrightarrow> holds m' tok' u e \<Longrightarrow> holds m tok' u e"
    and looks_on: "check tok m = (r, m') \<Longrightarrow> at m \<le> at m'"
begin

lemma first_valid_accepted:
  "first_valid check toks m = (Some (tok, u), m') \<Longrightarrow>
     tok \<in> set toks \<and> (\<exists>n e. at m \<le> n \<and> holds m tok u e \<and> time n < e)"
proof (induction toks arbitrary: m)
  case (Cons t toks)
  obtain r m1 where c: "check t m = (r, m1)" by fastforce
  show ?case
  proof (cases r)
    case None
    with Cons c have "tok \<in> set toks" "\<exists>n e. at m1 \<le> n \<and> holds m1 tok u e \<and> time n < e" by auto
    with adds_none [OF c] looks_on [OF c] show ?thesis by (meson list.set_intros(2) order_trans)
  next
    case (Some v)
    with Cons.prems c accepted [of t m v m1] show ?thesis by auto
  qed
qed simp

end

definition held :: "web_os \<Rightarrow> AuthManager \<Rightarrow> string \<Rightarrow> string \<Rightarrow> nat \<Rightarrow> bool" where
  "held w m tok u e = (sessions m (token_hash w tok) = Some \<lparr>username = u, expires_at = e\<rparr>)"

interpretation guard: session_check "validate w" "held w" looks "clock w" for w
proof
  show "held w m tok' u e" if "validate w tok m = (r, m')" "held w m' tok' u e" for tok m r m' tok' u e
    using that by (auto simp: validate_def held_def Let_def persist_sessions_def glance_def split: option.splits if_splits)
qed (auto simp: validate_def held_def Let_def persist_sessions_def glance_def split: option.splits if_splits,
     metis (full_types) Session.surjective old.unit.exhaust)

text \<open>
  C4: in every run of the web interface, over any number of requests and restarts, a request is let
  through as a user only with a cookie whose token was issued to that user and whose lifetime has
  not ended at the look that accepted it; expired, forged and foreign tokens are refused.
\<close>

theorem guarded_request_has_session:
  assumes "auth_reach w m" and "require_auth w h m = (Ok u, m')"
  shows "\<exists>tok tok' e n. tok' \<in> set (extract_all_session_tokens_from_headers h) \<and> token_hash w tok' = token_hash w tok
     \<and> (tok, u, e) \<in> set (issued m) \<and> looks m \<le> n \<and> clock w n < e"
proof -
  from assms(2) obtain tok' where "first_valid (validate w) (rev (extract_all_session_tokens_from_headers h)) m = (Some (tok', u), m')"
    by (auto simp: require_auth_def validate_session_in_headers_def split: prod.splits option.splits)
  from guard.first_valid_accepted [OF this] obtain n e where
    "tok' \<in> set (extract_all_session_tokens_from_headers h)" "looks m \<le> n" "held w m tok' u e" "clock w n < e" by auto
  moreover from this(3) reach_backed [OF assms(1)] obtain tok e' where
    "(tok, u, e') \<in> set (issued m)" "token_hash w tok' = token_hash w tok" "e \<le> e'"
    unfolding backed_def held_def by (metis Session.select_convs)
  ultimately show ?thesis by (meson less_le_trans)
qed

text \<open>Who is given a session, decided before the request is served.\<close>

fun granted_to :: "web_os \<Rightarrow> web_request \<Rightarrow> AuthManager \<Rightarrow> string option" where
  "granted_to w (PostLogin h user password) m =
     (if fst (check_credentials w (trim user) password m) = Ok () then Some (trim user) else None)"
| "granted_to w (PostSetup h password) m =
     (if \<not> setup_wizard_required_with_marker (web_probes w (looks m)) \<and> \<not> has_simple_password m
         \<and> fst (set_simple_password w (trim password) (glance m)) = Ok () then Some ''localhost'' else None)"
| "granted_to w _ m = None"

lemma issued_simps [simp]:
  "issued (glance m) = issued m" "issued (persist_sessions w m) = issued m" "issued (logout w tok m) = issued m"
  "issued (snd (validate w tok m)) = issued m" "issued (snd (set_simple_password w pw m)) = issued m"
  "issued (snd (check_credentials w u pw m)) = issued m" "issued (snd (authorize_change w u pw m)) = issued m"
  "issued (snd (invalidate_sessions_for_user_except w u tok m)) = issued m"
  by (simp_all add: glance_def persist_sessions_def logout_def validate_def set_simple_password_def check_credentials_def
      authorize_change_def invalidate_sessions_for_user_except_def Let_def split: option.split pw_io.split sum.split)

lemma issued_logouts [simp]: "issued (fold (logout w) toks m) = issued m"
  by (induction toks arbitrary: m) simp_all

lemma issued_first_valid [simp]: "issued (snd (first_valid (validate w) toks m)) = issued m"
proof (induction toks arbitrary: m)
  case (Cons tok toks)
  then show ?case using issued_simps(4) [of w tok m] by (cases "validate w tok m") (auto split: option.split)
qed simp

lemma issued_guards [simp]:
  "issued (snd (validate_session_in_headers w h m)) = issued m" "issued (snd (current_session_token w h m)) = issued m"
  "issued (snd (require_auth w h m)) = issued m"
proof -
  show *: "issued (snd (validate_session_in_headers w h m)) = issued m" "issued (snd (current_session_token w h m)) = issued m"
    by (simp_all add: validate_session_in_headers_def current_session_token_def split_beta)
  show "issued (snd (require_auth w h m)) = issued m"
    using *(1) by (auto simp: require_auth_def split: prod.splits option.splits)
qed

lemma issued_open: "\<exists>tok e. issued (snd (open_session w h u target m)) = (tok, u, e) # issued m"
  by (auto simp: open_session_def create_privileged_session_def Let_def)

lemma issued_rotate: "issued (snd (rotate_password w h u new conf m)) = issued m"
proof -
  obtain r m1 where 1: "set_simple_password w (trim conf) m = (r, m1)" by fastforce
  obtain k m2 where 2: "current_session_token w h m1 = (k, m2)" by fastforce
  have "issued m1 = issued m" "issued m2 = issued m1" using 1 2 issued_simps(5) issued_guards(2) by (metis snd_conv)+
  then show ?thesis by (auto simp: rotate_password_def 1 2 split_beta split: sum.split)
qed


lemma kept_localhost:
  assumes "invalidate_sessions_for_user_except w u tok m = (n, m')"
  shows "(sessions m' k = Some s \<longrightarrow> username s = u \<longrightarrow> k = token_hash w tok) \<and> simple_pw_file m' = simple_pw_file m"
  using assms by (auto simp: invalidate_sessions_for_user_except_def Let_def opt_filter_def persist_sessions_def glance_def
      split: option.splits if_splits)

lemma guard_keeps_pw:
  "simple_pw_file (snd (first_valid (validate w) toks m)) = simple_pw_file m"
proof (induction toks arbitrary: m)
  case (Cons tok toks)
  have "simple_pw_file (snd (validate w tok m)) = simple_pw_file m"
    by (simp add: validate_def Let_def glance_def persist_sessions_def split: option.split)
  then show ?case using Cons.IH by (cases "validate w tok m") (auto split: option.split)
qed simp

text \<open>
  A password change that is reported as done has replaced the stored password by the new one and
  has ended every session of the local account except those of the request's own cookies.
\<close>

theorem password_change_takes_effect:
  assumes "settings_change_password w h cur new conf m = (SettingsPage u (Ok n), m')"
  shows "(\<forall>k s. sessions m' k = Some s \<longrightarrow> username s = ''localhost'' \<longrightarrow>
            k \<in> token_hash w ` insert [] (set (extract_all_session_tokens_from_headers h)))
       \<and> (\<exists>i. simple_pw_file m' =
            Some (hex_encode (salt_draw w i) @ '':'' @ hex_encode (hash_password w (salt_draw w i) (trim new)) @ [line_feed]))"
proof -
  from assms obtain m1 m2 keep m3 where
    1: "set_simple_password w (trim new) m1 = (Ok (), m2)" and
    2: "current_session_token w h m2 = (keep, m3)" and
    3: "invalidate_sessions_for_user_except w ''localhost'' (unwrap_or keep []) m3 = (n, m')"
    by (auto simp: settings_change_password_def rotate_password_def split: prod.splits sum.splits if_splits)
  obtain r where 4: "first_valid (validate w) (rev (extract_all_session_tokens_from_headers h)) m2 = (r, m3)" "keep = map_option fst r"
    using 2 by (auto simp: current_session_token_def split: prod.splits)
  have "unwrap_or keep [] \<in> insert [] (set (extract_all_session_tokens_from_headers h))"
    using 4 guard.first_valid_accepted [of w "rev (extract_all_session_tokens_from_headers h)" m2 _ _ m3] by (cases r) auto
  moreover have "simple_pw_file m3 = simple_pw_file m2" using guard_keeps_pw 4(1) by (metis snd_conv)
  moreover from 1 have "simple_pw_file m2 = Some (hex_encode (salt_draw w (looks m1)) @ '':''
      @ hex_encode (hash_password w (salt_draw w (looks m1)) (trim new)) @ [line_feed])"
    by (auto simp: set_simple_password_def Let_def glance_def split: if_splits pw_io.splits)
  ultimately show ?thesis using kept_localhost [OF 3] by (metis imageI)
qed

text \<open>
  Restarting the web interface logs nobody out: with a disk that takes the saves, a restart on
  the sidecar succeeds, and every session of a running interface is still accepted afterwards
  until the last full second of its lifetime.
\<close>

theorem sessions_survive_restart:
  assumes "\<And>i. save_ok w i" and "auth_reach w m" and "\<And>tok u e. (tok, u, e) \<in> set (issued m) \<Longrightarrow> e < 2 ^ 63 * nanos"
    and "sessions m (token_hash w tok) = Some s"
    and "clock w (looks m) < expires_at s div nanos * nanos" and "clock w (Suc (looks m)) < expires_at s div nanos * nanos"
  shows "\<exists>m'. auth_new w grp ttl m = Some m' \<and> fst (validate w tok m') = Some (username s)"
proof -
  from reach_mirrored [OF assms(2)] assms(1,4) obtain f where f: "sessions_file m = Some f"
    "f (token_hash w tok) = Some \<lparr>p_username = username s, expires_unix = expires_at s div nanos\<rparr>"
    unfolding mirrored_def by blast
  have "expires_unix p < 2 ^ 63" if "f k = Some p" for k p
  proof -
    from reach_backed [OF assms(2)] that f(1) obtain t e where "(t, p_username p, e) \<in> set (issued m)" "expires_unix p * nanos \<le> e"
      unfolding backed_def by blast
    with assms(3) have "expires_unix p * nanos < 2 ^ 63 * nanos" by (meson le_less_trans)
    then show ?thesis by (simp add: nanos_def)
  qed
  then have "\<not> (\<exists>k p. f k = Some p \<and> expires_unix p \<ge> 2 ^ 63)" by (meson leD)
  with f assms(5,6) show ?thesis
    by (simp add: auth_new_def load_sessions_def validate_def Let_def)
qed

section \<open>A sample run\<close>

definition sample_headers :: request_headers where
  "sample_headers = \<lparr>h_cookie = Some ''theme=dark; session=123'', h_forwarded_proto = None\<rparr>"

definition sample_started :: AuthManager where
  "sample_started =
     (installed None)\<lparr>admin_group := ''lldap_admin'', session_ttl := DEFAULT_SESSION_TTL, looks := 1\<rparr>"

definition sample_logged_in :: AuthManager where
  "sample_logged_in = serve sample_web (PostSetup \<lparr>h_cookie = None, h_forwarded_proto = None\<rparr> ''correct horse'') sample_started"

lemma sample_tokens: "extract_all_session_tokens_from_headers sample_headers = [''123'']"
  by code_simp

lemma sample_reach: "auth_reach sample_web sample_logged_in"
  unfolding sample_logged_in_def
  by (rule auth_reach.served, rule auth_reach.started [of _ None None None])
    (simp add: auth_new_def load_sessions_def installed_def sample_started_def)

lemma sample_session:
  "sessions sample_logged_in = [hex_encode ''123'' \<mapsto> \<lparr>username = ''localhost'', expires_at = DEFAULT_SESSION_TTL\<rparr>]"
  "issued sample_logged_in = [(''123'', ''localhost'', DEFAULT_SESSION_TTL)]"
  "simple_pw_file sample_logged_in = Some (hex_encode ''salt'' @ '':'' @ hex_encode ''saltcorrect horse'' @ [line_feed])"
proof -
  have "trim ''correct horse'' = ''correct horse''" "\<not> is_blank ''correct horse''"
    "token_char 1 = CHR ''1''" "token_char 2 = CHR ''2''" "token_char 3 = CHR ''3''" by code_simp+
  moreover have "0 < DEFAULT_SESSION_TTL" by (simp add: DEFAULT_SESSION_TTL_def nanos_def)
  moreover note sample_hash [unfolded sample_web_def]
  ultimately show "sessions sample_logged_in = [hex_encode ''123'' \<mapsto> \<lparr>username = ''localhost'', expires_at = DEFAULT_SESSION_TTL\<rparr>]"
    "issued sample_logged_in = [(''123'', ''localhost'', DEFAULT_SESSION_TTL)]"
    "simple_pw_file sample_logged_in = Some (hex_encode ''salt'' @ '':'' @ hex_encode ''saltcorrect horse'' @ [line_feed])"
    by (auto simp: sample_logged_in_def sample_started_def setup_password_def setup_wizard_required_with_marker_def
        sample_web_def installed_def has_simple_password_def set_simple_password_def Let_def open_session_def
        extract_all_session_tokens_from_headers_def create_privileged_session_def persist_sessions_def glance_def
        token_hash_def opt_filter_def fun_eq_iff)
qed

lemma sample_validate:
  assumes "sessions m = sessions sample_logged_in"
  shows "validate sample_web ''123'' m = (Some ''localhost'', glance m)"
  using assms by (simp add: validate_def sample_session token_hash_def Let_def sample_web_def DEFAULT_SESSION_TTL_def nanos_def)

lemma sample_guard:
  assumes "sessions m = sessions sample_logged_in"
  shows "require_auth sample_web sample_headers m = (Ok ''localhost'', glance m)"
    "current_session_token sample_web sample_headers m = (Some ''123'', glance m)"
  using sample_validate [OF assms]
  by (simp_all add: require_auth_def validate_session_in_headers_def current_session_token_def sample_tokens)

theorem guarded_request_has_session_witness:
  "require_auth sample_web sample_headers sample_logged_in = (Ok ''localhost'', glance sample_logged_in)
   \<and> (\<exists>tok tok' e n. tok' \<in> set (extract_all_session_tokens_from_headers sample_headers)
        \<and> token_hash sample_web tok' = token_hash sample_web tok
        \<and> (tok, ''localhost'', e) \<in> set (issued sample_logged_in) \<and> looks sample_logged_in \<le> n \<and> clock sample_web n < e)"
  using guarded_request_has_session [OF sample_reach sample_guard(1) [OF refl]] sample_guard(1) [OF refl] by blast

theorem password_change_takes_effect_witness:
  "\<exists>n m'. settings_change_password sample_web sample_headers (Some ''correct horse'') ''battery staple'' ''battery staple'' sample_logged_in
        = (SettingsPage ''localhost'' (Ok n), m')
     \<and> (\<forall>k s. sessions m' k = Some s \<longrightarrow> username s = ''localhost'' \<longrightarrow> k \<in> {token_hash sample_web [], token_hash sample_web ''123''})"
proof -
  define m1 where "m1 = glance sample_logged_in"
  have a: "authorize_change sample_web ''localhost'' ''correct horse'' m1 = (Ok (), glance m1)"
    using pw_line_parts [simplified, of "''salt''" "''saltcorrect horse''"]
    by (simp add: authorize_change_def validate_simple_password_def m1_def sample_session glance_def sample_hash hex_decode_encode)
      (simp add: sample_web_def)
  have t: "trim ''battery staple'' = ''battery staple''" "\<not> is_blank ''battery staple''" by code_simp+
  obtain m2 where s: "set_simple_password sample_web ''battery staple'' (glance m1) = (Ok (), m2)" "sessions m2 = sessions sample_logged_in"
    using t(2) by (simp add: set_simple_password_def Let_def sample_web_def m1_def glance_def)
  obtain n m' where i: "invalidate_sessions_for_user_except sample_web ''localhost'' ''123'' (glance m2) = (n, m')" by fastforce
  have r: "settings_change_password sample_web sample_headers (Some ''correct horse'') ''battery staple'' ''battery staple'' sample_logged_in
        = (SettingsPage ''localhost'' (Ok n), m')"
    using a s(1) i by (simp add: settings_change_password_def rotate_password_def sample_guard s(2) m1_def t)
  from password_change_takes_effect [OF this] r show ?thesis by (auto simp: sample_tokens)
qed

theorem sessions_survive_restart_witness:
  "\<exists>m'. auth_new sample_web None None sample_logged_in = Some m' \<and> fst (validate sample_web ''123'' m') = Some ''localhost''"
proof -
  define e where "e = DEFAULT_SESSION_TTL"
  have "sessions sample_logged_in (token_hash sample_web ''123'') = Some \<lparr>username = ''localhost'', expires_at = e\<rparr>"
    by (simp add: sample_session token_hash_def sample_web_def e_def)
  moreover have "e' < 2 ^ 63 * nanos" if "(tok, u, e') \<in> set (issued sample_logged_in)" for tok u e'
    using that by (simp add: sample_session DEFAULT_SESSION_TTL_def nanos_def)
  moreover have "clock sample_web i < e div nanos * nanos" "save_ok sample_web i" for i
    by (simp_all add: sample_web_def e_def DEFAULT_SESSION_TTL_def nanos_def)
  ultimately show ?thesis
    using sessions_survive_restart [OF _ sample_reach, of "''123''" "\<lparr>username = ''localhost'', expires_at = e\<rparr>" None None] by simp
qed

text \<open>
  The saves are best effort in both directions: when the save of a logout fails, the sidecar keeps
  the session, and a restart brings the logged-out session back.
\<close>

lemma failed_save_revives_session:
  "\<exists>w m m'. \<not> save_ok w (looks m) \<and> fst (validate w tok (logout w tok m)) = None
      \<and> auth_new w None None (logout w tok m) = Some m' \<and> fst (validate w tok m') = Some u"
proof -
  define w where "w = sample_web\<lparr>save_ok := \<lambda>_. False\<rparr>"
  define m where "m = (installed None)\<lparr>sessions := [token_hash w tok \<mapsto> \<lparr>username = u, expires_at = nanos\<rparr>],
     sessions_file := Some [token_hash w tok \<mapsto> \<lparr>p_username = u, expires_unix = 1\<rparr>]\<rparr>"
  have "\<not> save_ok w (looks m)" "fst (validate w tok (logout w tok m)) = None"
    by (simp_all add: w_def m_def logout_def validate_def persist_sessions_def glance_def Let_def)
  moreover have "\<exists>m'. auth_new w None None (logout w tok m) = Some m' \<and> fst (validate w tok m') = Some u"
    by (simp add: m_def logout_def persist_sessions_def glance_def auth_new_def load_sessions_def validate_def Let_def nanos_def installed_def)
      (simp add: w_def sample_web_def)
  ultimately show ?thesis by blast
qed

text \<open>A sidecar entry whose expiry leaves the range of the system time stops the start of the interface.\<close>

lemma huge_expiry_panics:
  "auth_new w grp ttl (m\<lparr>sessions_file := Some [k \<mapsto> \<lparr>p_username = u, expires_unix = 2 ^ 63\<rparr>]\<rparr>) = None"
  by (simp add: auth_new_def load_sessions_def)

end
