(* ===== verification/Settings_Save.thy ===== *)
theory Settings_Save
  imports Acl_Gate Setup_Wizard
begin

text \<open>
  Saving of settings in the web interface, from \<^verbatim>\<open>web/settings_form.rs\<close>,
  \<^verbatim>\<open>web/settings/apply.rs\<close>, \<^verbatim>\<open>web/settings/spec.rs\<close> and the three save handlers of
  \<^verbatim>\<open>web/settings/mod.rs\<close>: the rows of the shares form, the table of scalar fields, the edits they
  make to the configuration and to the document on disk, and what is checked before the file is
  replaced.

  The submitted form is a hash map, a list of its entries in an order of its own with every key
  once. The document on disk belongs to the crate \<^verbatim>\<open>toml_edit\<close>: the parameter \<open>doc_ops\<close>, on which
  the handlers act by \<open>doc_edit\<close>s and by replacing the array of share tables.
\<close>

type_synonym form = "(string \<times> string) list"

section \<open>Rows of the shares form\<close>

record ShareFormRow =
  fr_idx :: nat
  fr_name :: string
  fr_host :: string
  fr_pseudo_path :: "string option"
  fr_security :: "string option"
  fr_rw :: bool
  fr_root_squash :: bool
  fr_cache_profile :: "string option"
  fr_pref_read :: "string option"
  fr_pref_write :: "string option"
  fr_enable_acl :: "bool option"
  fr_manage_gids :: "bool option"
  fr_read_access_policy :: "string option"
  fr_manage_gids_expiration :: "64 word option"
  fr_container_path :: string
  fr_source_path :: "string option"
  fr_navahi_insecure :: "bool option"

definition parse_tri_bool :: "string \<Rightarrow> bool option" where
  "parse_tri_bool v = (if trim v = ''true'' then Some True else if trim v = ''false'' then Some False else None)"

definition infer_profile_from_prefs :: "64 word option \<Rightarrow> 64 word option \<Rightarrow> string" where
  "infer_profile_from_prefs pr pw =
     (if pr = Some 1048576 \<and> pw = Some 1048576 then ''Default''
      else if pr = Some 4194304 \<and> pw = Some 4194304 then ''Read - Basic''
      else if pr = Some 16777216 \<and> pw = Some 8388608 then ''Read - Heavy''
      else if pr = Some 2097152 \<and> pw = Some 16777216 then ''Write - Heavy''
      else ''Default'')"

definition parse_usize :: "string \<Rightarrow> nat option" where
  "parse_usize s = parse_unsigned (2 ^ 64 - 1) s"

definition parse_u64 :: "string \<Rightarrow> 64 word option" where
  "parse_u64 s = map_option of_nat (parse_unsigned (2 ^ 64 - 1) s)"

definition share_field :: "form \<Rightarrow> string \<Rightarrow> nat \<Rightarrow> string option" where
  "share_field extra nm idx = map_of extra (''share_'' @ nm @ ''_'' @ show_nat idx)"

definition share_field_nonblank :: "form \<Rightarrow> string \<Rightarrow> nat \<Rightarrow> string option" where
  "share_field_nonblank extra nm idx = opt_filter (\<lambda>s. trim s \<noteq> []) (share_field extra nm idx)"

definition form_row :: "form \<Rightarrow> string \<times> string \<Rightarrow> ShareFormRow option" where
  "form_row extra kv =
     Option.bind (strip_prefix ''share_name_'' (fst kv)) (\<lambda>suf.
     Option.bind (parse_usize suf) (\<lambda>idx.
       let nm = trim (snd kv);
           ht = trim (unwrap_or (share_field extra ''host'' idx) []);
           cp = trim (unwrap_or (share_field extra ''container_path'' idx) []) in
       if nm = [] \<or> ht = [] \<or> cp = [] then None
       else Some
         \<lparr>fr_idx = idx, fr_name = nm, fr_host = ht,
          fr_pseudo_path = share_field_nonblank extra ''pseudo'' idx,
          fr_security = share_field_nonblank extra ''security'' idx,
          fr_rw = (case share_field extra ''rw'' idx of None \<Rightarrow> True | Some v \<Rightarrow> trim v = ''true''),
          fr_root_squash = (share_field extra ''root_squash'' idx \<noteq> None),
          fr_cache_profile = share_field_nonblank extra ''cache_profile'' idx,
          fr_pref_read = share_field_nonblank extra ''pref_read'' idx,
          fr_pref_write = share_field_nonblank extra ''pref_write'' idx,
          fr_enable_acl = Option.bind (share_field extra ''enable_acl'' idx) parse_tri_bool,
          fr_manage_gids = Option.bind (share_field extra ''manage_gids'' idx) parse_tri_bool,
          fr_read_access_policy = Option.bind (share_field extra ''read_access_policy'' idx)
            (\<lambda>v. if trim v = ''pre'' then Some ''pre'' else if trim v = ''post'' then Some ''post'' else None),
          fr_manage_gids_expiration = Option.bind (share_field extra ''manage_gids_expiration'' idx) (\<lambda>v. parse_u64 (trim v)),
          fr_container_path = cp,
          fr_source_path = share_field_nonblank extra ''source_path'' idx,
          fr_navahi_insecure = (if share_field extra ''navahi_insecure'' idx \<noteq> None then Some True else None)\<rparr>))"

definition share_of_row :: "ShareFormRow \<Rightarrow> Share" where
  "share_of_row r =
     \<lparr>name = fr_name r, host_path = fr_host r, pseudo_path = fr_pseudo_path r, security = fr_security r,
      rw = Some (fr_rw r), squash = Some (if fr_root_squash r then ''root_squash'' else ''no_root_squash''),
      cache_profile = Some (unwrap_or (fr_cache_profile r) ''Default''),
      pref_read = Option.bind (fr_pref_read r) parse_u64, pref_write = Option.bind (fr_pref_write r) parse_u64,
      enable_acl = fr_enable_acl r, manage_gids = fr_manage_gids r, read_access_policy = fr_read_access_policy r,
      manage_gids_expiration = fr_manage_gids_expiration r, container_path = fr_container_path r,
      source_path = fr_source_path r, attr_expiration_secs = None, navahi_insecure = fr_navahi_insecure r,
      umask = None\<rparr>"

definition collect_shares_from_structured_form :: "form \<Rightarrow> Share list" where
  "collect_shares_from_structured_form extra =
     map share_of_row (sort_key fr_idx (List.map_filter (form_row extra) extra))"

section \<open>Share tables\<close>

datatype tval = TStr string | TBool bool | TInt int

definition opt_entry :: "string \<Rightarrow> ('a \<Rightarrow> tval) \<Rightarrow> 'a option \<Rightarrow> (string \<times> tval) list" where
  "opt_entry key mk v = (case v of None \<Rightarrow> [] | Some x \<Rightarrow> [(key, mk x)])"

definition opt_nonblank :: "string option \<Rightarrow> string option" where
  "opt_nonblank v = opt_filter (\<lambda>s. trim s \<noteq> []) v"

definition share_table :: "Share \<Rightarrow> (string \<times> tval) list" where
  "share_table s =
     [(''name'', TStr (name s)), (''host_path'', TStr (host_path s)), (''container_path'', TStr (container_path s))]
     @ opt_entry ''pseudo_path'' TStr (pseudo_path s)
     @ opt_entry ''security'' TStr (security s)
     @ (if unwrap_or (rw s) True then [] else [(''rw'', TBool False)])
     @ opt_entry ''squash'' TStr (squash s)
     @ (case cache_profile s of
          Some cp \<Rightarrow> (if trim cp \<noteq> [] then [(''cache_profile'', TStr cp)] else [])
        | None \<Rightarrow> opt_entry ''pref_read'' (\<lambda>v. TInt (sint v)) (pref_read s)
                  @ opt_entry ''pref_write'' (\<lambda>v. TInt (sint v)) (pref_write s))
     @ opt_entry ''enable_acl'' TBool (enable_acl s)
     @ opt_entry ''manage_gids'' TBool (manage_gids s)
     @ opt_entry ''read_access_policy'' TStr (opt_nonblank (read_access_policy s))
     @ opt_entry ''manage_gids_expiration'' (\<lambda>v. TInt (sint v)) (manage_gids_expiration s)
     @ opt_entry ''attr_expiration_secs'' TInt (attr_expiration_secs s)
     @ (if navahi_insecure s = Some True then [(''navahi_insecure'', TBool True)] else [])
     @ opt_entry ''source_path'' TStr (opt_nonblank (source_path s))"

text \<open>One change of a scalar field of the document; the empty section is the top level.\<close>

datatype doc_edit = SetKey string string tval | RemoveKey string string | DropSection string | DropIfEmpty string

record 'd doc_ops =
  d_parse :: "string \<Rightarrow> 'd option"
  d_empty :: 'd
  d_text :: "'d \<Rightarrow> string"
  d_edit :: "doc_edit \<Rightarrow> 'd \<Rightarrow> 'd"
  d_first_prefix :: "'d \<Rightarrow> string option"
  d_trailing :: "'d \<Rightarrow> string"
  d_set_trailing :: "string \<Rightarrow> 'd \<Rightarrow> 'd"
  d_remove_shares :: "'d \<Rightarrow> 'd"
  d_put_shares :: "string option \<Rightarrow> (string \<times> tval) list list \<Rightarrow> 'd \<Rightarrow> 'd"
  d_share_key :: "'d \<Rightarrow> nat \<Rightarrow> string \<Rightarrow> bool"

definition apply_shares_to_toml_doc :: "'d doc_ops \<Rightarrow> Share list \<Rightarrow> 'd \<Rightarrow> 'd" where
  "apply_shares_to_toml_doc t new_shares d =
     (case (case opt_nonblank (d_first_prefix t d) of
              Some p \<Rightarrow> (Some p, d)
            | None \<Rightarrow> if trim (d_trailing t d) \<noteq> [] then (Some (d_trailing t d), d_set_trailing t [] d) else (None, d)) of
        (banner, d) \<Rightarrow>
          let d = d_remove_shares t d in
          if new_shares = []
          then (case banner of Some b \<Rightarrow> d_set_trailing t (b @ d_trailing t d) d | None \<Rightarrow> d)
          else d_put_shares t
                 (map_option (\<lambda>b. if b \<noteq> [] \<and> last b = line_feed then b else b @ [line_feed]) banner)
                 (map share_table new_shares) d)"

definition share_pseudo_path_explicit_in_raw :: "'d doc_ops \<Rightarrow> 'd \<Rightarrow> nat \<Rightarrow> bool" where
  "share_pseudo_path_explicit_in_raw t d idx = (d_share_key t d idx ''pseudo_path'' \<or> d_share_key t d idx ''export_path'')"

section \<open>Scalar fields\<close>

datatype FieldValue = Str "string option" | Bool "bool option" | U16 "16 word option"

datatype FieldKind =
    Text | Password | Port | U16OrClear | BoolAlways
  | OverrideText bool | OverrideBool | OverrideSelect string

record FieldSpec =
  fs_name :: string
  fs_section :: string
  fs_key :: string
  fs_kind :: FieldKind
  fs_set :: "FieldValue \<Rightarrow> NfsKlldapConfig \<Rightarrow> NfsKlldapConfig"

definition set_text :: "(string \<Rightarrow> NfsKlldapConfig \<Rightarrow> NfsKlldapConfig) \<Rightarrow> FieldValue \<Rightarrow> NfsKlldapConfig \<Rightarrow> NfsKlldapConfig" where
  "set_text f v c = (case v of Str (Some s) \<Rightarrow> f s c | _ \<Rightarrow> c)"

definition set_opt_text :: "(string option \<Rightarrow> NfsKlldapConfig \<Rightarrow> NfsKlldapConfig) \<Rightarrow> FieldValue \<Rightarrow> NfsKlldapConfig \<Rightarrow> NfsKlldapConfig" where
  "set_opt_text f v c = (case v of Str s \<Rightarrow> f s c | _ \<Rightarrow> c)"

definition set_opt_bool :: "(bool option \<Rightarrow> NfsKlldapConfig \<Rightarrow> NfsKlldapConfig) \<Rightarrow> FieldValue \<Rightarrow> NfsKlldapConfig \<Rightarrow> NfsKlldapConfig" where
  "set_opt_bool f v c = (case v of Bool b \<Rightarrow> f b c | _ \<Rightarrow> c)"

abbreviation in_sssd :: "(SssdSection \<Rightarrow> SssdSection) \<Rightarrow> NfsKlldapConfig \<Rightarrow> NfsKlldapConfig" where
  "in_sssd f c \<equiv> c\<lparr>sssd := f (sssd c)\<rparr>"

definition field_spec :: "string \<Rightarrow> string \<Rightarrow> string \<Rightarrow> FieldKind \<Rightarrow> (FieldValue \<Rightarrow> NfsKlldapConfig \<Rightarrow> NfsKlldapConfig) \<Rightarrow> FieldSpec" where
  "field_spec n s k kd f = \<lparr>fs_name = n, fs_section = s, fs_key = k, fs_kind = kd, fs_set = f\<rparr>"

definition FIELDS :: "FieldSpec list" where
  "FIELDS =
     [field_spec ''ldap_uri'' '''' ''ldap_uri'' Text (set_text (\<lambda>s c. c\<lparr>ldap_uri := s\<rparr>)),
      field_spec ''storage_container_root'' ''storage'' ''container_root'' Text
        (set_text (\<lambda>s c. c\<lparr>storage := (storage c)\<lparr>container_root := s\<rparr>\<rparr>)),
      field_spec ''server_hostname'' ''server'' ''hostname'' (OverrideText False)
        (set_opt_text (\<lambda>s c. c\<lparr>server := (server c)\<lparr>hostname := s\<rparr>\<rparr>)),
      field_spec ''sssd_bind_dn'' ''sssd'' ''ldap_default_bind_dn'' Text
        (set_text (\<lambda>s. in_sssd (\<lambda>d. d\<lparr>ldap_default_bind_dn := s\<rparr>))),
      field_spec ''sssd_bind_pw'' ''sssd'' ''ldap_default_authtok'' Password
        (set_text (\<lambda>s. in_sssd (\<lambda>d. d\<lparr>ldap_default_authtok := s\<rparr>))),
      field_spec ''sssd_port'' ''sssd'' ''port'' Port
        (\<lambda>v c. case v of U16 (Some p) \<Rightarrow> in_sssd (\<lambda>d. d\<lparr>sssd_port := Some p\<rparr>) c | _ \<Rightarrow> c),
      field_spec ''sssd_search_base'' ''sssd'' ''ldap_search_base'' (OverrideText True)
        (set_opt_text (\<lambda>s. in_sssd (\<lambda>d. d\<lparr>sssd_search_base := s\<rparr>))),
      field_spec ''sssd_user_base'' ''sssd'' ''ldap_user_search_base'' (OverrideText False)
        (set_opt_text (\<lambda>s. in_sssd (\<lambda>d. d\<lparr>sssd_user_search_base := s\<rparr>))),
      field_spec ''sssd_group_base'' ''sssd'' ''ldap_group_search_base'' (OverrideText False)
        (set_opt_text (\<lambda>s. in_sssd (\<lambda>d. d\<lparr>sssd_group_search_base := s\<rparr>))),
      field_spec ''sssd_ldap_tls_reqcert'' ''sssd'' ''ldap_tls_reqcert'' (OverrideText True)
        (set_opt_text (\<lambda>s. in_sssd (\<lambda>d. d\<lparr>ldap_tls_reqcert := s\<rparr>))),
      field_spec ''sssd_ldap_tls_cacert'' ''sssd'' ''ldap_tls_cacert'' (OverrideText True)
        (set_opt_text (\<lambda>s. in_sssd (\<lambda>d. d\<lparr>ldap_tls_cacert := s\<rparr>))),
      field_spec ''sssd_ldap_id_use_start_tls'' ''sssd'' ''ldap_id_use_start_tls'' OverrideBool
        (set_opt_bool (\<lambda>b. in_sssd (\<lambda>d. d\<lparr>ldap_id_use_start_tls := b\<rparr>))),
      field_spec ''sssd_enumerate'' ''sssd'' ''enumerate'' OverrideBool
        (set_opt_bool (\<lambda>b. in_sssd (\<lambda>d. d\<lparr>SssdSection.enumerate := b\<rparr>))),
      field_spec ''kllldap_ignored_attributes'' ''sssd'' ''kllldap_ignored_attributes'' BoolAlways
        (set_opt_bool (\<lambda>b. in_sssd (\<lambda>d. d\<lparr>sssd_ignored_attributes := Some (unwrap_or b False)\<rparr>))),
      field_spec ''navahi_discovery'' '''' ''navahi_discovery'' BoolAlways
        (set_opt_bool (\<lambda>b c. c\<lparr>navahi_discovery := unwrap_or b False\<rparr>)),
      field_spec ''kerberos_realm'' ''kerberos'' ''realm'' (OverrideText False)
        (set_opt_text (\<lambda>s c. c\<lparr>kerberos := (kerberos c)\<lparr>realm := s\<rparr>\<rparr>)),
      field_spec ''ganesha_default_security'' ''ganesha'' ''default_security'' (OverrideSelect ''krb5p'')
        (set_text (\<lambda>s c. c\<lparr>ganesha := (ganesha c)\<lparr>default_security := s\<rparr>\<rparr>)),
      field_spec ''webui_session_timeout_minutes'' ''webui'' ''session_timeout_minutes'' U16OrClear
        (\<lambda>v c. case v of U16 p \<Rightarrow> c\<lparr>webui := (webui c)\<lparr>session_timeout_minutes := p\<rparr>\<rparr> | _ \<Rightarrow> c)]"

definition form_str :: "form \<Rightarrow> string \<Rightarrow> string option" where
  "form_str f n = map_of f n"

definition form_bool :: "form \<Rightarrow> string \<Rightarrow> bool option" where
  "form_bool f n = map_option (\<lambda>v. v = ''true'' \<or> v = ''on'') (form_str f n)"

definition form_flag :: "form \<Rightarrow> string \<Rightarrow> bool" where
  "form_flag f n = (form_str f n = Some ''true'' \<or> form_str f n = Some ''on'')"

definition blank_to_none :: "string \<Rightarrow> string option" where
  "blank_to_none v = (if trim v = [] then None else Some v)"

definition override_flag :: "form \<Rightarrow> FieldSpec \<Rightarrow> bool" where
  "override_flag f spec = form_flag f (''override_'' @ fs_name spec)"

definition apply_field_to_config :: "form \<Rightarrow> FieldSpec \<Rightarrow> NfsKlldapConfig \<Rightarrow> NfsKlldapConfig" where
  "apply_field_to_config f spec c =
     (let v = form_str f (fs_name spec); set = fs_set spec in
      case fs_kind spec of
        Text \<Rightarrow> (case v of Some x \<Rightarrow> set (Str (Some x)) c | None \<Rightarrow> c)
      | Password \<Rightarrow> (case v of Some x \<Rightarrow> if trim x \<noteq> [] then set (Str (Some x)) c else c | None \<Rightarrow> c)
      | Port \<Rightarrow> (case Option.bind v (\<lambda>x. parse_u16 (trim x)) of Some p \<Rightarrow> set (U16 (Some p)) c | None \<Rightarrow> c)
      | U16OrClear \<Rightarrow>
          (case v of
             None \<Rightarrow> c
           | Some x \<Rightarrow> if trim x = [] then set (U16 None) c
                       else case parse_u16 (trim x) of Some p \<Rightarrow> set (U16 (Some p)) c | None \<Rightarrow> c)
      | OverrideText _ \<Rightarrow>
          if override_flag f spec then (case v of Some x \<Rightarrow> set (Str (blank_to_none x)) c | None \<Rightarrow> c) else c
      | OverrideBool \<Rightarrow> if override_flag f spec then set (Bool (form_bool f (fs_name spec))) c else c
      | BoolAlways \<Rightarrow> set (Bool (Some (form_flag f (fs_name spec)))) c
      | OverrideSelect preset \<Rightarrow>
          if override_flag f spec
          then (case v of Some x \<Rightarrow> set (Str (Some (if trim x = [] then preset else x))) c | None \<Rightarrow> c)
          else set (Str (Some preset)) c)"

definition apply_probe_form_to_config :: "form \<Rightarrow> NfsKlldapConfig \<Rightarrow> NfsKlldapConfig" where
  "apply_probe_form_to_config f c =
     (if form_flag f ''auto_probe_ldap'' then c\<lparr>probe := \<lparr>user_principal = None, client_host = None\<rparr>\<rparr>
      else let c = (case form_str f ''probe_user_principal'' of
                      Some v \<Rightarrow> c\<lparr>probe := (probe c)\<lparr>user_principal := blank_to_none v\<rparr>\<rparr> | None \<Rightarrow> c)
           in case form_str f ''probe_client_host'' of
                Some v \<Rightarrow> c\<lparr>probe := (probe c)\<lparr>client_host := blank_to_none v\<rparr>\<rparr> | None \<Rightarrow> c)"

definition apply_structured_form_to_config :: "form \<Rightarrow> NfsKlldapConfig \<Rightarrow> NfsKlldapConfig" where
  "apply_structured_form_to_config f c = apply_probe_form_to_config f (fold (apply_field_to_config f) FIELDS c)"

definition field_edits :: "form \<Rightarrow> FieldSpec \<Rightarrow> doc_edit list" where
  "field_edits f spec =
     (let v = form_str f (fs_name spec); put = SetKey (fs_section spec) (fs_key spec); del = RemoveKey (fs_section spec) (fs_key spec) in
      case fs_kind spec of
        Text \<Rightarrow> (case v of Some x \<Rightarrow> [put (TStr x)] | None \<Rightarrow> [])
      | Password \<Rightarrow> (case v of Some x \<Rightarrow> if trim x \<noteq> [] then [put (TStr x)] else [] | None \<Rightarrow> [])
      | Port \<Rightarrow> (case Option.bind v (\<lambda>x. parse_u16 (trim x)) of Some p \<Rightarrow> [put (TInt (uint p))] | None \<Rightarrow> [])
      | U16OrClear \<Rightarrow>
          (case v of
             None \<Rightarrow> []
           | Some x \<Rightarrow> if trim x = [] then [del]
                       else case parse_u16 (trim x) of Some p \<Rightarrow> [put (TInt (uint p))] | None \<Rightarrow> [])
      | OverrideText remove_when_blank \<Rightarrow>
          if override_flag f spec
          then (case v of Some x \<Rightarrow> if trim x = [] \<and> remove_when_blank then [del] else [put (TStr x)] | None \<Rightarrow> [])
          else [del]
      | OverrideBool \<Rightarrow>
          if override_flag f spec then [put (TBool (unwrap_or (form_bool f (fs_name spec)) False))] else [del]
      | BoolAlways \<Rightarrow> [put (TBool (form_flag f (fs_name spec)))]
      | OverrideSelect preset \<Rightarrow>
          [put (TStr (if override_flag f spec then unwrap_or (opt_nonblank v) preset else preset))])"

definition probe_edits :: "form \<Rightarrow> doc_edit list" where
  "probe_edits f =
     (if form_flag f ''auto_probe_ldap'' then [DropSection ''probe'']
      else concat (map (\<lambda>(key, n). case form_str f n of
               None \<Rightarrow> []
             | Some v \<Rightarrow> [if trim v = [] then RemoveKey ''probe'' key else SetKey ''probe'' key (TStr v)])
             [(''user_principal'', ''probe_user_principal''), (''client_host'', ''probe_client_host'')])
           @ [DropIfEmpty ''probe''])"

definition structured_edits :: "form \<Rightarrow> doc_edit list" where
  "structured_edits f = concat (map (field_edits f) FIELDS) @ probe_edits f"

definition apply_structured_form_to_toml_doc :: "'d doc_ops \<Rightarrow> form \<Rightarrow> 'd \<Rightarrow> 'd" where
  "apply_structured_form_to_toml_doc t f d = fold (d_edit t) (structured_edits f) d"

section \<open>What a save of the shares keeps\<close>

definition drop_auto_pseudo :: "Share \<Rightarrow> Share" where
  "drop_auto_pseudo sh =
     (case pseudo_path sh of
        None \<Rightarrow> sh
      | Some p \<Rightarrow> let norm = (if starts_with p ''/'' then p else ''/'' @ p)
                  in if norm = ''/'' @ name sh then sh\<lparr>pseudo_path := None\<rparr> else sh)"

definition old_share_for :: "Share list \<Rightarrow> nat \<Rightarrow> Share \<Rightarrow> Share option" where
  "old_share_for olds idx sh =
     opt_or (if idx < length olds then Some (olds ! idx) else None) (find (\<lambda>o'. name o' = name sh) olds)"

definition carry_over :: "NfsKlldapConfig \<Rightarrow> (nat \<Rightarrow> bool) \<Rightarrow> nat \<Rightarrow> Share \<Rightarrow> Share" where
  "carry_over old_cfg explicit_pseudo idx sh =
     (case old_share_for (shares old_cfg) idx sh of
        None \<Rightarrow> sh
      | Some old \<Rightarrow>
          let sh = (if pseudo_path sh = None \<and> explicit_pseudo idx then sh\<lparr>pseudo_path := pseudo_path old\<rparr> else sh);
              sh = (if source_path sh = None then sh\<lparr>source_path := source_path old\<rparr> else sh);
              sh = (if attr_expiration_secs sh = None then sh\<lparr>attr_expiration_secs := attr_expiration_secs old\<rparr> else sh)
          in if \<not> navahi_discovery old_cfg \<and> navahi_insecure sh = None
             then sh\<lparr>navahi_insecure := navahi_insecure old\<rparr> else sh)"

definition saved_shares :: "NfsKlldapConfig \<Rightarrow> (nat \<Rightarrow> bool) \<Rightarrow> form \<Rightarrow> Share list" where
  "saved_shares old_cfg explicit_pseudo f =
     (let new = map drop_auto_pseudo (collect_shares_from_structured_form f)
      in map (\<lambda>(i, sh). carry_over old_cfg explicit_pseudo i sh) (List.enumerate 0 new))"

section \<open>Handlers\<close>

text \<open>
  The world of one request: the crate, the reader of configurations, the answers to the replacement
  of the file and to the write of the temporary file, the variables of the process, the mount table
  and the tools behind the ACL probe, and the time.
\<close>

record 'd settings_os =
  so_doc :: "'d doc_ops"
  so_parse_str :: "string \<Rightarrow> (config_error, NfsKlldapConfig) result"
  so_save :: "(string, unit) result"
  so_tmp_ok :: bool
  so_env :: env
  so_snap :: "string option"
  so_acl :: acl_env
  so_recycle :: recycle_env
  so_now :: nat

record settings_state =
  st_text :: "string option"
  st_live :: NfsKlldapConfig
  st_acl :: AclCapabilityCache
  st_latch :: latch

datatype settings_page =
    TempFailed | RawInvalid config_error | RawSaved
  | FormInvalid validation_error | WriteFailed string | StructuredSaved
  | AclImpossible string string string | SharesSaved "config_error option"

definition load_text :: "'d settings_os \<Rightarrow> string option \<Rightarrow> (config_error, NfsKlldapConfig) result" where
  "load_text w t = Startup.load (so_env w) (case t of None \<Rightarrow> Err ConfigIo | Some t \<Rightarrow> so_parse_str w t)"

definition doc_of_text :: "'d settings_os \<Rightarrow> string \<Rightarrow> 'd" where
  "doc_of_text w t = unwrap_or (d_parse (so_doc w) t) (d_empty (so_doc w))"

definition replace_config :: "'d settings_os \<Rightarrow> string \<Rightarrow> settings_state \<Rightarrow> (string, unit) result \<times> settings_state" where
  "replace_config w content s =
     (case so_save w of Inl e \<Rightarrow> (Err e, s) | Inr _ \<Rightarrow> (Ok (), s\<lparr>st_text := Some content\<rparr>))"

definition minimal_default_config :: NfsKlldapConfig where
  "minimal_default_config =
     default_config\<lparr>ldap_uri := ''ldaps://klldap.example.com:6360'',
       sssd := default_sssd\<lparr>ldap_default_bind_dn := ''uid=admin,ou=people,dc=example,dc=com'', ldap_default_authtok := ''SET_ME''\<rparr>\<rparr>"

definition load_config_from :: "'d settings_os \<Rightarrow> string option \<Rightarrow> (config_error, NfsKlldapConfig) result" where
  "load_config_from w t =
     (case t of
        None \<Rightarrow> Ok minimal_default_config
      | Some txt \<Rightarrow>
          (case load_text w t of
             Inr c \<Rightarrow> Ok c
           | Inl (ConfigValidation _) \<Rightarrow> so_parse_str w txt
           | Inl e \<Rightarrow> Err e))"

definition reload_config_and_fs :: "'d settings_os \<Rightarrow> settings_state \<Rightarrow> (config_error, unit) result \<times> settings_state" where
  "reload_config_and_fs w s =
     (case load_config_from w (st_text s) of
        Inl e \<Rightarrow> (Err e, s)
      | Inr c \<Rightarrow> (Ok (), s\<lparr>st_live := c, st_acl := invalidate_all (st_acl s)\<rparr>))"

definition settings_save_raw :: "'d settings_os \<Rightarrow> string \<Rightarrow> settings_state \<Rightarrow> settings_page \<times> settings_state" where
  "settings_save_raw w raw s =
     (if \<not> so_tmp_ok w then (TempFailed, s)
      else case load_text w (Some raw) of
        Inl e \<Rightarrow> (RawInvalid e, s)
      | Inr _ \<Rightarrow>
          (case replace_config w raw s of
             (Inl e, s) \<Rightarrow> (WriteFailed e, s)
           | (Inr _, s) \<Rightarrow> (RawSaved, s)))"

definition settings_save_structured :: "'d settings_os \<Rightarrow> form \<Rightarrow> settings_state \<Rightarrow> settings_page \<times> settings_state" where
  "settings_save_structured w f s =
     (let original = unwrap_or (st_text s) [];
          cfg = (case load_text w (Some original) of Inr c \<Rightarrow> c | Inl _ \<Rightarrow> default_config);
          cfg = apply_structured_form_to_config f cfg in
      case validate_and_derive (so_env w) cfg of
        Inl e \<Rightarrow> (FormInvalid e, s)
      | Inr _ \<Rightarrow>
          let d = apply_structured_form_to_toml_doc (so_doc w) f (doc_of_text w original) in
          (case replace_config w (d_text (so_doc w) d) s of
             (Inl e, s) \<Rightarrow> (WriteFailed e, s)
           | (Inr _, s) \<Rightarrow> (StructuredSaved, s)))"

text \<open>The first share with explicit ACLs on a known mount that cannot store them.\<close>

fun acl_impossible :: "acl_env \<Rightarrow> string option \<Rightarrow> Share list \<Rightarrow> AclCapabilityCache \<Rightarrow> (Share \<times> FsCapabilities) option \<times> AclCapabilityCache" where
  "acl_impossible env snap [] c = (None, c)"
| "acl_impossible env snap (sh # shs) c =
     (if enable_acl sh \<noteq> Some True then acl_impossible env snap shs c
      else case verdict_for_snapshot env snap (serve_path_for sh) (serve_path_for sh) False True c of
        (out, c) \<Rightarrow>
          if fstype (po_caps out) \<noteq> ''unknown'' \<and> po_verdict out = Incapable then (Some (sh, po_caps out), c)
          else acl_impossible env snap shs c)"

definition settings_save_shares :: "'d settings_os \<Rightarrow> form \<Rightarrow> settings_state \<Rightarrow> settings_page \<times> settings_state" where
  "settings_save_shares w f s =
     (let original = unwrap_or (st_text s) [];
          d = doc_of_text w original;
          old_cfg = (case load_text w (st_text s) of Inr c \<Rightarrow> c | Inl _ \<Rightarrow> default_config);
          cfg = old_cfg\<lparr>shares := saved_shares old_cfg (share_pseudo_path_explicit_in_raw (so_doc w) d) f\<rparr> in
      case acl_impossible (so_acl w) (so_snap w) (shares cfg) (st_acl s) of
        (Some (sh, caps), c) \<Rightarrow> (AclImpossible (name sh) (serve_path_for sh) (fstype caps), s\<lparr>st_acl := c\<rparr>)
      | (None, c) \<Rightarrow>
          (case validate_and_derive (so_env w) cfg of
             Inl e \<Rightarrow> (FormInvalid e, s\<lparr>st_acl := c\<rparr>)
           | Inr cfg' \<Rightarrow>
               (case replace_config w (d_text (so_doc w) (apply_shares_to_toml_doc (so_doc w) (shares cfg') d)) (s\<lparr>st_acl := c\<rparr>) of
                  (Inl e, s) \<Rightarrow> (WriteFailed e, s)
                | (Inr _, s) \<Rightarrow>
                    (case reload_config_and_fs w s of (r, s) \<Rightarrow>
                       (SharesSaved (case r of Inl e \<Rightarrow> Some e | Inr _ \<Rightarrow> None),
                        s\<lparr>st_latch := snd (try_schedule_service_recycle (so_recycle w) (so_now w) SharesApply (st_latch s))\<rparr>)))))"

text \<open>Every one of them runs for a session only.\<close>

definition with_session ::
  "web_os \<Rightarrow> request_headers \<Rightarrow> (settings_state \<Rightarrow> settings_page \<times> settings_state) \<Rightarrow> AuthManager \<times> settings_state
     \<Rightarrow> (string, settings_page) result \<times> AuthManager \<times> settings_state" where
  "with_session web h handler ms =
     (case ms of (m, s) \<Rightarrow>
        case require_auth web h m of
          (Inl target, m) \<Rightarrow> (Err target, m, s)
        | (Inr _, m) \<Rightarrow> (case handler s of (p, s) \<Rightarrow> (Ok p, m, s)))"

section \<open>Laws of the forms\<close>

lemma mset_map_filter: "mset (List.map_filter f xs) = image_mset (the \<circ> f) (filter_mset (\<lambda>x. f x \<noteq> None) (mset xs))"
  by (induction xs) (auto simp: List.map_filter_simps split: option.split)

lemma filter_one: "distinct xs \<Longrightarrow> inj_on k (set xs) \<Longrightarrow> x \<in> set xs \<Longrightarrow> filter (\<lambda>y. k x = k y) xs = [x]"
proof (induction xs)
  case (Cons a xs)
  have "filter (\<lambda>y. k x = k y) xs = []" if "x = a"
    using Cons.prems that by (auto simp: filter_empty_conv inj_on_def)
  with Cons show ?case by (auto simp: inj_on_def)
qed simp

lemma sort_key_unique:
  assumes "mset xs = mset ys" and "distinct (map k xs)"
  shows "sort_key k xs = sort_key k ys"
proof (rule sym, rule properties_for_sort_key)
  have xs: "distinct xs" "inj_on k (set xs)" using assms(2) by (simp_all add: distinct_map)
  have ys: "set ys = set xs" using assms(1) by (rule mset_eq_setD [symmetric])
  have "distinct ys" using xs(1) assms(1) by (metis mset_eq_imp_distinct_iff)
  with xs ys show "filter (\<lambda>y. k x = k y) (sort_key k xs) = filter (\<lambda>y. k x = k y) ys" if "x \<in> set (sort_key k xs)" for x
    using that by (simp add: filter_one del: filter_sort)
qed (use assms(1) in simp_all)

lemma form_row_cong:
  assumes "map_of f = map_of g"
  shows "form_row f = form_row g"
proof -
  have same: "share_field f = share_field g" by (intro ext) (simp only: share_field_def assms)
  then have "share_field_nonblank f = share_field_nonblank g" by (intro ext) (simp only: share_field_nonblank_def)
  with same show ?thesis by (intro ext) (simp only: form_row_def)
qed

lemma length_saved [simp]: "length (saved_shares c ex f) = length (collect_shares_from_structured_form f)"
  by (simp add: saved_shares_def Let_def)

lemma nth_saved: "i < length (collect_shares_from_structured_form f)
    \<Longrightarrow> saved_shares c ex f ! i = carry_over c ex i (drop_auto_pseudo (collect_shares_from_structured_form f ! i))"
  by (simp add: saved_shares_def Let_def nth_enumerate_eq)

lemma drop_auto_frame [simp]:
  "name (drop_auto_pseudo sh) = name sh" "source_path (drop_auto_pseudo sh) = source_path sh"
  "attr_expiration_secs (drop_auto_pseudo sh) = attr_expiration_secs sh" "navahi_insecure (drop_auto_pseudo sh) = navahi_insecure sh"
  by (simp_all add: drop_auto_pseudo_def Let_def split: option.split)

lemma carry_over_name [simp]: "name (carry_over c ex i sh) = name sh"
  by (simp add: carry_over_def Let_def split: option.split)

lemma carry_over_by_position:
  "i < length (shares c) \<Longrightarrow> source_path (carry_over c ex i sh) = opt_or (source_path sh) (source_path (shares c ! i))"
  by (cases "source_path sh") (simp_all add: carry_over_def old_share_for_def opt_or_def Let_def)

section \<open>Laws of the fields\<close>

lemma apply_field_cases: "apply_field_to_config f spec c = c \<or> (\<exists>v. apply_field_to_config f spec c = fs_set spec v c)"
  by (auto simp: apply_field_to_config_def Let_def split: FieldKind.split option.split)

lemma set_keeps_realm:
  "spec \<in> set FIELDS \<Longrightarrow> fs_name spec \<noteq> ''kerberos_realm'' \<Longrightarrow> realm (kerberos (fs_set spec v c)) = realm (kerberos c)"
  by (auto simp: FIELDS_def field_spec_def set_text_def set_opt_text_def set_opt_bool_def split: FieldValue.split option.split)

definition realm_field :: FieldSpec where
  "realm_field = FIELDS ! 15"

lemma realm_field: "fs_name realm_field = ''kerberos_realm''" "fs_kind realm_field = OverrideText False"
  "fs_section realm_field = ''kerberos''" "fs_key realm_field = ''realm''"
  by (simp_all add: realm_field_def FIELDS_def field_spec_def)

lemma realm_field_mem: "realm_field \<in> set FIELDS"
  unfolding realm_field_def by (rule nth_mem) (simp add: FIELDS_def)

lemma field_names_distinct: "distinct (map fs_name FIELDS)"
  by code_simp

lemma realm_field_only: "spec \<in> set FIELDS \<Longrightarrow> fs_name spec = ''kerberos_realm'' \<Longrightarrow> spec = realm_field"
  using field_names_distinct realm_field_mem realm_field(1) unfolding distinct_map by (metis inj_onD)

lemma realm_kept:
  assumes "\<not> form_flag f ''override_kerberos_realm''" and "spec \<in> set FIELDS"
  shows "realm (kerberos (apply_field_to_config f spec c)) = realm (kerberos c)"
proof (cases "fs_name spec = ''kerberos_realm''")
  case True
  with realm_field_only assms(2) have "spec = realm_field" by simp
  with assms(1) show ?thesis by (simp add: apply_field_to_config_def Let_def override_flag_def realm_field)
next
  case False
  then show ?thesis using apply_field_cases [of f spec c] set_keeps_realm [OF assms(2) False] by auto
qed

lemma realm_kept_fold:
  "\<not> form_flag f ''override_kerberos_realm'' \<Longrightarrow> set specs \<subseteq> set FIELDS
    \<Longrightarrow> realm (kerberos (fold (apply_field_to_config f) specs c)) = realm (kerberos c)"
  by (induction specs arbitrary: c) (simp_all add: realm_kept)

lemma probe_form_frame [simp]: "kerberos (apply_probe_form_to_config f c) = kerberos c"
  by (simp add: apply_probe_form_to_config_def Let_def split: option.split)

section \<open>Laws of the handlers\<close>

lemma replace_config_refused: "fst (replace_config w t s) = Inl e \<Longrightarrow> snd (replace_config w t s) = s"
  by (simp add: replace_config_def split: sum.splits)

lemma raw_refused: "fst (settings_save_raw w raw s) = RawSaved \<or> snd (settings_save_raw w raw s) = s"
  unfolding settings_save_raw_def replace_config_def by (simp split: sum.split)

lemma structured_refused: "fst (settings_save_structured w f s) = StructuredSaved \<or> snd (settings_save_structured w f s) = s"
  unfolding settings_save_structured_def replace_config_def Let_def by (simp split: sum.split)

definition lasting :: "settings_state \<Rightarrow> string option \<times> NfsKlldapConfig \<times> latch" where
  "lasting s = (st_text s, st_live s, st_latch s)"

lemma lasting_acl [simp]: "lasting (s\<lparr>st_acl := c\<rparr>) = lasting s"
  by (simp add: lasting_def)

lemma shares_outcome:
  "(\<exists>e. fst (settings_save_shares w f s) = SharesSaved e) \<or> lasting (snd (settings_save_shares w f s)) = lasting s"
proof -
  define old where "old = (case load_text w (st_text s) of Inr c \<Rightarrow> c | Inl _ \<Rightarrow> default_config)"
  define d where "d = doc_of_text w (unwrap_or (st_text s) [])"
  define cfg where "cfg = old\<lparr>shares := saved_shares old (share_pseudo_path_explicit_in_raw (so_doc w) d) f\<rparr>"
  obtain imp c where imp: "acl_impossible (so_acl w) (so_snap w) (shares cfg) (st_acl s) = (imp, c)" by (rule prod.exhaust)
  note unfolded = settings_save_shares_def [of w f s, unfolded Let_def, folded old_def d_def, folded cfg_def, unfolded imp prod.case]
  show ?thesis
  proof (cases imp)
    case None
    then show ?thesis unfolding unfolded
      by (cases "so_save w") (simp_all add: replace_config_def split: sum.split prod.split)
  next
    case (Some a)
    then show ?thesis unfolding unfolded by (simp split: prod.split)
  qed
qed

lemma shares_refused:
  "(\<exists>e. fst (settings_save_shares w f s) = SharesSaved e)
   \<or> (st_text (snd (settings_save_shares w f s)) = st_text s \<and> st_live (snd (settings_save_shares w f s)) = st_live s
      \<and> st_latch (snd (settings_save_shares w f s)) = st_latch s)"
  using shares_outcome [of w f s] by (simp add: lasting_def)

section \<open>A sample form\<close>

text \<open>Two shares, the first of them staged; the form that deletes the first one and keeps the second.\<close>

definition two_shares :: NfsKlldapConfig where
  "two_shares =
     default_config\<lparr>shares := [default_share\<lparr>name := ''a'', host_path := ''/h/a'', container_path := ''/export/a'', source_path := Some ''/staged/a''\<rparr>,
                             default_share\<lparr>name := ''b'', host_path := ''/h/b'', container_path := ''/export/b''\<rparr>]\<rparr>"

definition form_b :: form where
  "form_b = [(''share_name_1'', ''b''), (''share_host_1'', ''/h/b''), (''share_container_path_1'', ''/export/b'')]"

lemma form_b_row: "\<exists>r. List.map_filter (form_row form_b) form_b = [r] \<and> fr_name r = ''b'' \<and> fr_source_path r = None"
proof -
  have one: "show_nat 1 = ''1''" "parse_usize ''1'' = Some 1"
    by (code_simp, simp add: parse_usize_def parse_unsigned_def is_ascii_digit_def digit_value_def)
  have pre: "strip_prefix ''share_name_'' ''share_name_1'' = Some ''1''" "strip_prefix ''share_name_'' ''share_host_1'' = None"
    "strip_prefix ''share_name_'' ''share_container_path_1'' = None" by code_simp+
  have trims: "trim ''b'' = ''b''" "trim ''/h/b'' = ''/h/b''" "trim ''/export/b'' = ''/export/b''" by code_simp+
  show ?thesis
    by (simp add: form_b_def form_row_def List.map_filter_simps pre one trims Let_def share_field_def share_field_nonblank_def
        opt_filter_def unwrap_or_def del: trim_Nil_iff One_nat_def)
qed

lemma form_b_collected: "\<exists>sh. collect_shares_from_structured_form form_b = [sh] \<and> name sh = ''b'' \<and> source_path sh = None"
  using form_b_row by (auto simp: collect_shares_from_structured_form_def share_of_row_def)

section \<open>Properties\<close>



text \<open>
  C18: A structured save does not check the configuration it writes: with the realm switched back to
  automatic the key leaves the document, while the configuration that is validated still has the
  realm the file had.
\<close>

theorem structured_save_checks_old_realm:
  assumes "\<not> form_flag f ''override_kerberos_realm''"
  shows "RemoveKey ''kerberos'' ''realm'' \<in> set (structured_edits f)
    \<and> realm (kerberos (apply_structured_form_to_config f c)) = realm (kerberos c)"
proof -
  have "field_edits f realm_field = [RemoveKey ''kerberos'' ''realm'']"
    using assms by (simp add: field_edits_def Let_def override_flag_def realm_field)
  with realm_field_mem have "RemoveKey ''kerberos'' ''realm'' \<in> set (structured_edits f)"
    unfolding structured_edits_def by (auto intro!: bexI [of _ realm_field])
  with realm_kept_fold [OF assms, of FIELDS c] show ?thesis by (simp add: apply_structured_form_to_config_def)
qed

theorem structured_save_checks_old_realm_witness:
  "RemoveKey ''kerberos'' ''realm'' \<in> set (structured_edits [])
   \<and> realm (kerberos (apply_structured_form_to_config [] (default_config\<lparr>kerberos := \<lparr>realm = Some ''HOME.ARPA''\<rparr>\<rparr>))) = Some ''HOME.ARPA''"
  using structured_save_checks_old_realm [of "[]" "default_config\<lparr>kerberos := \<lparr>realm = Some ''HOME.ARPA''\<rparr>\<rparr>"]
  by (simp add: form_flag_def form_str_def)

text \<open>
  C19: A save that is refused changes nothing that lasts: unless the answer says that it saved, the
  file, the configuration in memory and the pending restart are the ones before, on every error path
  of the three handlers.
\<close>

theorem refused_save_changes_nothing:
  "(fst (settings_save_raw w raw s) = RawSaved \<or> snd (settings_save_raw w raw s) = s)
   \<and> (fst (settings_save_structured w f s) = StructuredSaved \<or> snd (settings_save_structured w f s) = s)
   \<and> ((\<exists>e. fst (settings_save_shares w f s) = SharesSaved e)
      \<or> (st_text (snd (settings_save_shares w f s)) = st_text s \<and> st_live (snd (settings_save_shares w f s)) = st_live s
         \<and> st_latch (snd (settings_save_shares w f s)) = st_latch s))"
  using raw_refused structured_refused shares_refused by blast

text \<open>
  The order in which the hash map of the form yields its entries does not matter for the
  shares, as long as no two name fields have the same number.
\<close>

theorem shares_form_order_free:
  assumes "mset f = mset g" and "distinct (map fst f)"
    and "distinct (map fr_idx (List.map_filter (form_row f) f))"
  shows "collect_shares_from_structured_form f = collect_shares_from_structured_form g"
proof -
  have "map_of f = map_of g" proof (rule map_of_inject_set [THEN iffD2])
    show "distinct (map fst g)" using assms(1,2) by (metis mset_eq_imp_distinct_iff mset_map)
  qed (use assms(2) mset_eq_setD [OF assms(1)] in simp_all)
  then have "form_row g = form_row f" using form_row_cong by metis
  moreover have "mset (List.map_filter (form_row f) f) = mset (List.map_filter (form_row f) g)"
    by (simp only: mset_map_filter assms(1))
  from sort_key_unique [OF this assms(3)] have "sort_key fr_idx (List.map_filter (form_row f) f) = sort_key fr_idx (List.map_filter (form_row f) g)" .
  ultimately show ?thesis by (simp only: collect_shares_from_structured_form_def)
qed

end
