(* ===== verification/Nss_Contract.thy ===== *)
theory Nss_Contract
  imports Id_Daemon Id_Resolve_Laws
begin

text \<open>
  The gate on what the NFS server will see of an identity, from
  \<^verbatim>\<open>ganesha_nss_contract.rs\<close> and \<^verbatim>\<open>ganesha_identity_pipeline.rs\<close>: the environment of
  the name service wrapper, the probes of one login by \<^verbatim>\<open>getent\<close>, by \<^verbatim>\<open>id -G\<close> and in
  the passwd file itself, the two contracts built from them, and the choice of the principals that
  are probed before the server starts.

  The programs that are run (\<^verbatim>\<open>getent\<close>, \<^verbatim>\<open>id\<close>, \<^verbatim>\<open>dpkg-architecture\<close>,
  \<^verbatim>\<open>find\<close>), the file system and the process environment are the fields of \<open>probe_host\<close>, a
  snapshot of the machine at the time of one probe. A program that is run gets the variables that
  are set for it and gives its decoded output when it ends well.
\<close>

record probe_host =
  ph_env :: env
  ph_read :: "string \<Rightarrow> string option"
  ph_is_file :: "string \<Rightarrow> bool"
  ph_exists :: "string \<Rightarrow> bool"
  ph_arch :: string
  ph_dpkg :: "string option"
  ph_find_sss :: "string option"
  ph_getent :: "(string \<times> string) list \<Rightarrow> string \<Rightarrow> string option"
  ph_id_g :: "(string \<times> string) list \<Rightarrow> string \<Rightarrow> string option"

section \<open>The wrapper and its environment\<close>

definition NSS_WRAPPER_CANDIDATES :: "string \<Rightarrow> string list" where
  "NSS_WRAPPER_CANDIDATES arch =
     [''/usr/lib/'' @ arch @ ''-linux-gnu/libnss_wrapper.so'',
      ''/usr/lib/'' @ arch @ ''/libnss_wrapper.so'',
      ''/usr/lib64/libnss_wrapper.so'',
      ''/usr/lib/x86_64-linux-gnu/libnss_wrapper.so'',
      ''/usr/lib/aarch64-linux-gnu/libnss_wrapper.so'',
      ''/usr/lib/libnss_wrapper.so'']"

definition find_nss_wrapper_so :: "probe_host \<Rightarrow> string option" where
  "find_nss_wrapper_so h =
     (case find (ph_is_file h) (NSS_WRAPPER_CANDIDATES (ph_arch h)) of
        Some p \<Rightarrow> Some p
      | None \<Rightarrow>
          Option.bind (ph_dpkg h) (\<lambda>out.
            let a = trim out; cand = ''/usr/lib/'' @ a @ ''/libnss_wrapper.so''
            in if a \<noteq> [] \<and> ph_is_file h cand then Some cand else None))"

definition resolve_nss_wrapper_so :: "probe_host \<Rightarrow> string option" where
  "resolve_nss_wrapper_so h =
     (case opt_filter (ph_is_file h) (ph_env h ''NSS_WRAPPER_SO'') of
        Some p \<Rightarrow> Some p
      | None \<Rightarrow> find_nss_wrapper_so h)"

definition NSS_SSS_CANDIDATES :: "string list" where
  "NSS_SSS_CANDIDATES =
     [''/usr/lib64/libnss_sss.so.2'',
      ''/usr/lib/x86_64-linux-gnu/libnss_sss.so.2'',
      ''/lib/x86_64-linux-gnu/libnss_sss.so.2'',
      ''/usr/lib/aarch64-linux-gnu/libnss_sss.so.2'',
      ''/run/host/usr/lib64/libnss_sss.so.2'',
      ''/run/host/usr/lib/x86_64-linux-gnu/libnss_sss.so.2'']"

definition resolve_nss_sss_so :: "probe_host \<Rightarrow> string option" where
  "resolve_nss_sss_so h =
     (case opt_filter (\<lambda>p. p \<noteq> [] \<and> ph_is_file h p) (ph_env h ''NSS_SSS_MODULE_SO'') of
        Some p \<Rightarrow> Some p
      | None \<Rightarrow>
          (case find (ph_is_file h) NSS_SSS_CANDIDATES of
             Some p \<Rightarrow> Some p
           | None \<Rightarrow>
               Option.bind (ph_find_sss h) (\<lambda>out.
                 case lines out of
                   [] \<Rightarrow> None
                 | l # _ \<Rightarrow> if l \<noteq> [] \<and> ph_is_file h (trim l) then Some (trim l) else None)))"

definition preload_step :: "probe_host \<Rightarrow> string list \<Rightarrow> string \<Rightarrow> string list" where
  "preload_step h parts q =
     (let p = trim q in
      if p \<noteq> [] \<and> p \<notin> set parts \<and> ph_exists h p then parts @ [p] else parts)"

definition ld_preload_for_ganesha :: "probe_host \<Rightarrow> string \<Rightarrow> string" where
  "ld_preload_for_ganesha h so =
     (let parts = (if ph_is_file h so then [so] else [])
      in join '':'' (case ph_env h ''LD_PRELOAD'' of
           None \<Rightarrow> parts
         | Some cur \<Rightarrow> foldl (preload_step h) parts (split_on CHR '':'' cur)))"

definition ld_preload_for_ganesha_nss :: "probe_host \<Rightarrow> string" where
  "ld_preload_for_ganesha_nss h = ld_preload_for_ganesha h (unwrap_or (resolve_nss_wrapper_so h) [])"

record GaneshaNssEnv =
  ne_passwd :: string
  ne_group :: string
  ne_ld_preload :: "string option"
  ne_extrausers_passwd :: "string option"
  ne_extrausers_group :: "string option"

definition flag_not_off :: "string option \<Rightarrow> bool" where
  "flag_not_off v = (case v of None \<Rightarrow> True | Some v \<Rightarrow> v \<noteq> ''0'' \<and> \<not> eq_ignore_ascii_case v ''false'')"

definition from_runtime_defaults :: "probe_host \<Rightarrow> GaneshaNssEnv" where
  "from_runtime_defaults h =
     (let env_path = (\<lambda>key dflt. unwrap_or (ph_env h key) dflt);
          chain = ld_preload_for_ganesha_nss h
      in \<lparr>ne_passwd = env_path ''NSS_PASSWD'' ''/var/lib/nfs-klldap/nss_passwd'',
          ne_group = env_path ''NSS_GROUP'' ''/var/lib/nfs-klldap/nss_group'',
          ne_ld_preload = (if flag_not_off (ph_env h ''USE_NSS_WRAPPER'') \<and> chain \<noteq> [] then Some chain else None),
          ne_extrausers_passwd = Some (env_path ''NSS_EXTRAUSERS_PASSWD'' ''/var/lib/extrausers/passwd''),
          ne_extrausers_group = Some (env_path ''NSS_EXTRAUSERS_GROUP'' ''/var/lib/extrausers/group'')\<rparr>)"

definition from_paths :: "probe_host \<Rightarrow> string \<Rightarrow> string \<Rightarrow> GaneshaNssEnv" where
  "from_paths h pw gr =
     \<lparr>ne_passwd = pw, ne_group = gr, ne_ld_preload = Some (ld_preload_for_ganesha_nss h),
      ne_extrausers_passwd = None, ne_extrausers_group = None\<rparr>"

definition wrapper_available :: "probe_host \<Rightarrow> GaneshaNssEnv \<Rightarrow> bool" where
  "wrapper_available h env =
     ((case ne_ld_preload env of None \<Rightarrow> False | Some p \<Rightarrow> p \<noteq> [])
      \<and> resolve_nss_wrapper_so h \<noteq> None \<and> ph_is_file h (ne_passwd env) \<and> ph_is_file h (ne_group env))"

definition opt_var :: "string \<Rightarrow> string option \<Rightarrow> (string \<times> string) list" where
  "opt_var key v = (case v of None \<Rightarrow> [] | Some x \<Rightarrow> [(key, x)])"

definition apply_to_cmd :: "probe_host \<Rightarrow> GaneshaNssEnv \<Rightarrow> (string \<times> string) list" where
  "apply_to_cmd h env =
     [(''NSS_WRAPPER_PASSWD'', ne_passwd env), (''NSS_WRAPPER_GROUP'', ne_group env)]
     @ opt_var ''NSS_EXTRAUSERS_PASSWD'' (ne_extrausers_passwd env)
     @ opt_var ''NSS_EXTRAUSERS_GROUP'' (ne_extrausers_group env)
     @ opt_var ''LD_PRELOAD'' (ne_ld_preload env)
     @ (case resolve_nss_sss_so h of
          None \<Rightarrow> []
        | Some sss \<Rightarrow> [(''NSS_WRAPPER_MODULE_SO_PATH'', sss), (''NSS_WRAPPER_MODULE_FN_PREFIX'', ''_nss_sss_'')])"

section \<open>Probes\<close>

definition nss_lookup_names :: "string \<Rightarrow> string list" where
  "nss_lookup_names p =
     (let short = principal_local_part p; host_seg = machine_short_name p
      in sort_dedup ([p] @ (if short \<noteq> p then [short] else [])
                       @ (if host_seg \<noteq> short \<and> host_seg \<noteq> p then [host_seg] else [])))"

definition getent_passwd :: "probe_host \<Rightarrow> GaneshaNssEnv \<Rightarrow> string \<Rightarrow> ids option" where
  "getent_passwd h env nm =
     Option.bind (ph_getent h (apply_to_cmd h env) nm) (\<lambda>out. Ldap_Resolver.first_some parse_getent_passwd (lines out))"

definition passwd_comment :: "string \<Rightarrow> bool" where
  "passwd_comment line = (starts_with line ''#'' \<or> trim line = [])"

definition row_of_login :: "string \<Rightarrow> string list \<Rightarrow> string option" where
  "row_of_login nm ls = find (\<lambda>line. \<not> passwd_comment line \<and> hd (split_on CHR '':'' line) = nm) ls"

definition probe_nss_passwd_from_file_exact :: "probe_host \<Rightarrow> GaneshaNssEnv \<Rightarrow> string \<Rightarrow> ids option" where
  "probe_nss_passwd_from_file_exact h env nm =
     Option.bind (ph_read h (ne_passwd env)) (\<lambda>content.
       Option.bind (row_of_login nm (lines content)) parse_getent_passwd)"

text \<open>The row of the first candidate that has one decides, even when it cannot be read.\<close>

definition probe_nss_passwd_from_file :: "probe_host \<Rightarrow> GaneshaNssEnv \<Rightarrow> string \<Rightarrow> ids option" where
  "probe_nss_passwd_from_file h env nm =
     Option.bind (ph_read h (ne_passwd env)) (\<lambda>content.
       Option.bind (Ldap_Resolver.first_some (\<lambda>cand. row_of_login cand (lines content)) (nss_lookup_names nm)) parse_getent_passwd)"

definition probe_nss_passwd :: "probe_host \<Rightarrow> GaneshaNssEnv \<Rightarrow> string \<Rightarrow> ids option" where
  "probe_nss_passwd h env nm =
     opt_or (if wrapper_available h env then Ldap_Resolver.first_some (getent_passwd h env) (nss_lookup_names nm) else None)
       (probe_nss_passwd_from_file h env nm)"

definition probe_nss_passwd_exact :: "probe_host \<Rightarrow> GaneshaNssEnv \<Rightarrow> string \<Rightarrow> ids option" where
  "probe_nss_passwd_exact h env nm =
     opt_or (if wrapper_available h env
             then Option.bind (ph_getent h (apply_to_cmd h env) nm) (\<lambda>out.
                    case lines out of [] \<Rightarrow> None | l # _ \<Rightarrow> parse_getent_passwd l)
             else None)
       (probe_nss_passwd_from_file_exact h env nm)"

definition gids_of_words :: "string \<Rightarrow> 32 word list option" where
  "gids_of_words out =
     (let gids = List.map_filter parse_u32 (split_whitespace out) in if gids = [] then None else Some gids)"

definition probe_nss_groups_exact :: "probe_host \<Rightarrow> GaneshaNssEnv \<Rightarrow> string \<Rightarrow> 32 word list option" where
  "probe_nss_groups_exact h env nm =
     (if wrapper_available h env then Option.bind (ph_id_g h (apply_to_cmd h env) nm) gids_of_words else None)"

definition probe_nss_groups :: "probe_host \<Rightarrow> GaneshaNssEnv \<Rightarrow> string \<Rightarrow> 32 word list" where
  "probe_nss_groups h env nm =
     (if wrapper_available h env
      then unwrap_or (Ldap_Resolver.first_some (probe_nss_groups_exact h env) (nss_lookup_names nm)) []
      else [])"

section \<open>Contracts\<close>

definition show_gids :: "32 word list \<Rightarrow> string" where
  "show_gids gids = ''['' @ join '', '' (map show_word gids) @ '']''"

definition short_pw_name_for_principal :: "string \<Rightarrow> string" where
  "short_pw_name_for_principal p = principal_local_part p"

definition evaluate_short_name_getgrouplist_contract ::
  "probe_host \<Rightarrow> string \<Rightarrow> GaneshaNssEnv \<Rightarrow> nat \<Rightarrow> bool \<times> string" where
  "evaluate_short_name_getgrouplist_contract h princ env min_total_gids =
     (let short = short_pw_name_for_principal princ; live = wrapper_available h env in
      case opt_or (probe_nss_passwd_exact h env short) (probe_nss_passwd_from_file_exact h env short) of
        None \<Rightarrow> (False, ''short-getgrouplist:passwd-miss:'' @ short)
      | Some (uid, gid) \<Rightarrow>
          let gids = (if live then unwrap_or (probe_nss_groups_exact h env short) [] else [gid]);
              min_want = max min_total_gids 1 in
          if gids = [] \<and> live then (False, ''short-getgrouplist:no-groups:'' @ short @ '':uid='' @ show_word uid)
          else if uid = FALLBACK_NOBODY_UID \<or> gid = FALLBACK_NOBODY_GID
          then (False, ''short-getgrouplist:fallback uid='' @ show_word uid @ '' gid='' @ show_word gid)
          else if gid \<notin> set gids \<and> live
          then (False, ''short-getgrouplist:missing-primary:'' @ short @ '':gid='' @ show_word gid @ '':gids='' @ show_gids gids)
          else if length gids < min_want \<and> live
          then (False, ''short-getgrouplist:insufficient:'' @ short @ '':'' @ show_nat (length gids) @ ''gids want>=''
                        @ show_nat min_want @ '' have='' @ show_gids gids)
          else (True, ''short-getgrouplist:ok:'' @ short @ '':'' @ show_word uid @ '':'' @ show_word gid @ '':''
                       @ show_nat (length gids) @ ''gids:'' @ show_gids gids))"

definition MACHINE_UID :: "32 word" where "MACHINE_UID = 0"

definition evaluate_nss_contract :: "probe_host \<Rightarrow> string \<Rightarrow> GaneshaNssEnv \<Rightarrow> bool \<Rightarrow> bool \<times> string" where
  "evaluate_nss_contract h princ env expect_machine =
     (if \<not> ph_is_file h (ne_passwd env) then (False, ''nss-contract:nss-passwd-missing'')
      else case probe_nss_passwd h env princ of
        None \<Rightarrow> (False, ''nss-contract:passwd-miss:'' @ princ)
      | Some (uid, gid) \<Rightarrow>
          let live = wrapper_available h env;
              gids = (if live then probe_nss_groups h env princ else [gid]);
              pre = (if live then ''nss-contract:ok'' else ''nss-contract:file-ok'');
              ids = '' uid='' @ show_word uid @ '' gid='' @ show_word gid in
          if expect_machine then
            if uid \<noteq> MACHINE_UID \<or> gid \<noteq> MACHINE_GID then (False, ''nss-contract:machine-uid-gid'' @ ids)
            else if gids \<noteq> [] \<and> gids \<noteq> [MACHINE_GID] \<and> MACHINE_GID \<notin> set gids
            then (False, ''nss-contract:machine-groups '' @ show_gids gids)
            else (True, pre)
          else if uid = FALLBACK_NOBODY_UID \<or> gid = FALLBACK_NOBODY_GID
          then (False, ''nss-contract:user-fallback'' @ ids @ '' gids='' @ show_gids gids)
          else if gids \<noteq> [] \<and> list_all (\<lambda>g. g = FALLBACK_NOBODY_GID \<or> g = 0) gids
          then (False, ''nss-contract:user-fallback-gids '' @ show_gids gids @ ids)
          else if gids = [] \<and> live then (False, ''nss-contract:user-no-groups'' @ ids)
          else (True, pre @ '':'' @ show_word uid @ '':'' @ show_word gid @ '':'' @ show_nat (length gids) @ ''gids''))"

section \<open>The principals that are probed\<close>

definition env_first_nonempty :: "probe_host \<Rightarrow> string list \<Rightarrow> string option" where
  "env_first_nonempty h keys =
     Ldap_Resolver.first_some (\<lambda>k. opt_filter (\<lambda>v. v \<noteq> []) (map_option trim (ph_env h k))) keys"

text \<open>The rows of the passwd files, the first row of a name only.\<close>

fun first_rows :: "string set \<Rightarrow> PasswdRow list \<Rightarrow> PasswdRow list" where
  "first_rows seen [] = []"
| "first_rows seen (r # rs) =
     (if pw_name r \<in> seen then first_rows seen rs else r # first_rows (insert (pw_name r) seen) rs)"

definition snapshot_texts :: "probe_host \<Rightarrow> string list \<Rightarrow> string list" where
  "snapshot_texts h ps = concat (map lines (List.map_filter (ph_read h) ps))"

definition opt_list :: "'a option \<Rightarrow> 'a list" where
  "opt_list v = (case v of None \<Rightarrow> [] | Some x \<Rightarrow> [x])"

definition snapshot_passwd_rows :: "probe_host \<Rightarrow> GaneshaNssEnv \<Rightarrow> PasswdRow list" where
  "snapshot_passwd_rows h env =
     first_rows {} (List.map_filter parse_passwd_row
       (snapshot_texts h (ne_passwd env # opt_list (ne_extrausers_passwd env))))"

definition snapshot_gid_count :: "probe_host \<Rightarrow> GaneshaNssEnv \<Rightarrow> string list \<Rightarrow> 32 word \<Rightarrow> nat" where
  "snapshot_gid_count h env names gid =
     length (remdups (gid # map gr_gid (filter (\<lambda>row. list_ex (\<lambda>m. m \<in> set names) (gr_members row))
       (List.map_filter parse_group_row
         (snapshot_texts h (ne_group env # opt_list (ne_extrausers_group env)))))))"

text \<open>The candidates are sorted as pairs; their names differ, so the name decides.\<close>

definition probe_candidates :: "probe_host \<Rightarrow> GaneshaNssEnv \<Rightarrow> (string \<times> 32 word) list" where
  "probe_candidates h env =
     sort_key fst (map (\<lambda>r. (pw_name r, pw_gid r))
       (filter (\<lambda>r. 0 < pw_uid r \<and> CHR ''@'' \<in> set (pw_name r) \<and> \<not> starts_with (pw_name r) ''host/'')
         (snapshot_passwd_rows h env)))"

definition auto_probe_user :: "probe_host \<Rightarrow> GaneshaNssEnv \<Rightarrow> string option" where
  "auto_probe_user h env =
     (let cands = probe_candidates h env;
          rich = find (\<lambda>(n, gid). 2 \<le> snapshot_gid_count h env [n, principal_local_part n] gid) cands
      in map_option fst (opt_or rich (case cands of [] \<Rightarrow> None | c # _ \<Rightarrow> Some c)))"

definition client_of_row :: "PasswdRow \<Rightarrow> string option" where
  "client_of_row r =
     Option.bind (strip_prefix ''host/'' (pw_name r)) (\<lambda>rest.
       opt_filter (\<lambda>h. h \<noteq> []) (Some (trim (hd (split_on CHR ''@'' rest)))))"

definition auto_probe_client :: "probe_host \<Rightarrow> GaneshaNssEnv \<Rightarrow> string \<Rightarrow> string option" where
  "auto_probe_client h env server_short =
     (case sort_dedup (filter (\<lambda>c. hd (split_on CHR ''.'' c) \<noteq> server_short \<and> c \<noteq> server_short)
             (List.map_filter client_of_row (snapshot_passwd_rows h env))) of
        [] \<Rightarrow> None
      | c # _ \<Rightarrow> Some c)"

definition nonblank_trimmed :: "string option \<Rightarrow> string option" where
  "nonblank_trimmed v = opt_filter (\<lambda>s. s \<noteq> []) (map_option trim v)"

definition probe_user_principal :: "probe_host \<Rightarrow> NfsKlldapConfig option \<Rightarrow> GaneshaNssEnv \<Rightarrow> string option" where
  "probe_user_principal h cfg env =
     opt_or (env_first_nonempty h [''NFS_KLLDAP_PROBE_USER_PRINCIPAL'', ''TEST_IDHELPER_CHECK_USER_PRINCIPAL''])
       (opt_or (nonblank_trimmed (Option.bind cfg (\<lambda>c. user_principal (probe c))))
          (auto_probe_user h env))"

definition probe_client_host ::
  "probe_host \<Rightarrow> NfsKlldapConfig option \<Rightarrow> GaneshaNssEnv \<Rightarrow> string \<Rightarrow> string option" where
  "probe_client_host h cfg env server_short =
     opt_or (env_first_nonempty h [''NFS_KLLDAP_PROBE_CLIENT_HOST'', ''TEST_IDHELPER_CHECK_CLIENT_HOST'',
               ''NFS_KLLDAP_IDHELPER_CLIENT_HOST''])
       (opt_or (nonblank_trimmed (Option.bind cfg (\<lambda>c. client_host (probe c))))
          (auto_probe_client h env server_short))"

record IdentityPrincipals =
  ip_user :: "string option"
  ip_server_host :: string
  ip_client_host :: "string option"

definition identity_principals_for_check ::
  "probe_host \<Rightarrow> NfsKlldapConfig option \<Rightarrow> string \<Rightarrow> string \<Rightarrow> GaneshaNssEnv \<Rightarrow> IdentityPrincipals" where
  "identity_principals_for_check h cfg rlm host_short env =
     \<lparr>ip_user = map_option (\<lambda>u. if CHR ''@'' \<in> set u then u else u @ ''@'' @ rlm) (probe_user_principal h cfg env),
      ip_server_host = ''host/'' @ host_short @ ''@'' @ rlm,
      ip_client_host = map_option (\<lambda>c. if CHR ''@'' \<in> set c then c
                                      else if CHR ''/'' \<in> set c then c @ ''@'' @ rlm
                                      else ''host/'' @ c @ ''@'' @ rlm)
                         (probe_client_host h cfg env host_short)\<rparr>"

definition warm_step :: "string list \<Rightarrow> string \<Rightarrow> string list" where
  "warm_step out p = (let t = trim p in if t \<noteq> [] \<and> t \<notin> set out then out @ [t] else out)"

definition warm_principals_for_startup ::
  "probe_host \<Rightarrow> NfsKlldapConfig option \<Rightarrow> string \<Rightarrow> string \<Rightarrow> string list" where
  "warm_principals_for_startup h cfg rlm host_short =
     (let b = identity_principals_for_check h cfg rlm host_short (from_runtime_defaults h);
          out = opt_list (ip_user b) @ [ip_server_host b] @ opt_list (ip_client_host b)
      in case cfg of
           None \<Rightarrow> out
         | Some c \<Rightarrow> foldl warm_step out (warm_principals (ganesha c)))"

text \<open>What one principal adds to the failures; a failed contract is not followed by socket probes.\<close>

definition warm_failure ::
  "probe_host \<Rightarrow> GaneshaNssEnv \<Rightarrow> (string \<Rightarrow> string option) \<Rightarrow> string \<Rightarrow> string option" where
  "warm_failure h env ask p =
     (case evaluate_nss_contract h p env (starts_with p ''host/'') of
        (False, detail) \<Rightarrow> Some detail
      | (True, _) \<Rightarrow>
          if probe_socket_grps ask p = None then Some (''socket-grps-miss:'' @ p)
          else if probe_socket_grouplist ask p = None then Some (''socket-grouplist-miss:'' @ p)
          else None)"

definition warm_principals_nss_ready ::
  "probe_host \<Rightarrow> string list \<Rightarrow> GaneshaNssEnv \<Rightarrow> (string \<Rightarrow> string option) \<Rightarrow> bool \<times> string list" where
  "warm_principals_nss_ready h ps env ask =
     (let fails = List.map_filter (warm_failure h env ask) ps in (fails = [], fails))"

text \<open>
  The isolated pipeline: the helper's command line fills two files of a temporary directory, one
  principal after the other (\<open>run_grps\<close> is the host after one such run), then every principal is
  held against the contract.
\<close>

definition pipeline_targets :: "IdentityPrincipals \<Rightarrow> (string \<times> string \<times> bool) list" where
  "pipeline_targets ip =
     (case ip_user ip of None \<Rightarrow> [] | Some u \<Rightarrow> [(''user'', u, False)])
     @ [(''host-server'', ip_server_host ip, True)]
     @ (case ip_client_host ip of None \<Rightarrow> [] | Some c \<Rightarrow> [(''host-client'', c, True)])"

definition pipeline_tags :: "probe_host \<Rightarrow> GaneshaNssEnv \<Rightarrow> string \<times> string \<times> bool \<Rightarrow> bool \<times> string list" where
  "pipeline_tags h env t =
     (case t of (lab, p, expect_machine) \<Rightarrow>
        case evaluate_nss_contract h p env expect_machine of (ok, detail) \<Rightarrow>
          (ok, [detail @ '':'' @ lab, (if ok then ''identity-pipeline:ok:'' else ''identity-pipeline:fail:'') @ lab]))"

definition run_identity_pipeline ::
  "probe_host \<Rightarrow> (string \<Rightarrow> string \<Rightarrow> string \<Rightarrow> probe_host \<Rightarrow> probe_host) \<Rightarrow> (string, string) result
     \<Rightarrow> IdentityPrincipals \<Rightarrow> bool \<times> string" where
  "run_identity_pipeline h run_grps td ip =
     (case td of
        Err e \<Rightarrow> (False, ''identity-pipeline:fail:init:'' @ e)
      | Ok d \<Rightarrow>
          let pw = d @ ''/nss_passwd''; gr = d @ ''/nss_group'';
              targets = pipeline_targets ip;
              h = fold (\<lambda>(_, p, _). run_grps p pw gr) targets h;
              res = map (pipeline_tags h (from_paths h pw gr)) targets
          in (list_all fst res, join '' '' (concat (map snd res))))"

section \<open>Laws of the probes\<close>

lemma first_candidate_SomeD: "Ldap_Resolver.first_some f xs = Some y \<Longrightarrow> \<exists>x \<in> set xs. f x = Some y"
  by (induction xs) (auto simp: Ldap_Resolver.first_some_def List.map_filter_simps split: option.splits)

lemma set_nss_lookup_names: "set (nss_lookup_names p) = {p, principal_local_part p, machine_short_name p}"
  by (auto simp: nss_lookup_names_def Let_def)

lemma parse_getent_trim: "parse_getent_passwd (trim l) = parse_getent_passwd l"
  by (simp add: parse_getent_passwd_def parse_passwd_row_def)

lemma row_shape_read:
  assumes "row_shape l"
  shows "\<not> passwd_comment l" "hd (split_on CHR '':'' (trim l)) = hd (split_on CHR '':'' l)"
proof -
  from assms obtain n rest where l: "l = n @ CHR '':'' # rest" and n: "list_all nss_safe n" by (auto simp: row_shape_def)
  have "\<not> starts_with l ''#''" using n nss_safe_not(3) by (cases n) (auto simp: l)
  with row_shape_trim [OF assms] show "\<not> passwd_comment l" "hd (split_on CHR '':'' (trim l)) = hd (split_on CHR '':'' l)"
    by (auto simp: passwd_comment_def login_of_def)
qed

text \<open>On the rows the helper writes, the gate and the helper read the same thing.\<close>

lemma row_of_login_lookup:
  assumes "\<forall>l \<in> set ls. row_shape l"
  shows "Option.bind (row_of_login nm ls) parse_getent_passwd = lookup_passwd_lines nm ls"
  using assms
proof (induction ls)
  case (Cons l ls)
  then have l: "row_shape l" by simp
  from row_shape_read [OF l] row_shape_trim(2,3) [OF l] Cons show ?case
    by (simp add: row_of_login_def Let_def parse_getent_trim del: trim_Nil_iff)
qed (simp add: row_of_login_def)

lemma contract_ids:
  assumes "probe_nss_passwd h env p = Some (uid, gid)"
  shows "\<exists>n \<in> {p, principal_local_part p, machine_short_name p}.
    (wrapper_available h env \<and> getent_passwd h env n = Some (uid, gid)) \<or> probe_nss_passwd_from_file_exact h env n = Some (uid, gid)"
proof (cases "wrapper_available h env \<and> Ldap_Resolver.first_some (getent_passwd h env) (nss_lookup_names p) = Some (uid, gid)")
  case True
  with first_candidate_SomeD [of "getent_passwd h env" "nss_lookup_names p" "(uid, gid)"] show ?thesis
    by (simp only: set_nss_lookup_names) blast
next
  case False
  then have "probe_nss_passwd_from_file h env p = Some (uid, gid)"
    using assms by (auto simp: probe_nss_passwd_def opt_or_def split: if_splits option.splits)
  then obtain content row where c: "ph_read h (ne_passwd env) = Some content" "parse_getent_passwd row = Some (uid, gid)"
    and "Ldap_Resolver.first_some (\<lambda>cand. row_of_login cand (lines content)) (nss_lookup_names p) = Some row"
    by (auto simp: probe_nss_passwd_from_file_def bind_eq_Some_conv)
  from first_candidate_SomeD [OF this(3)] c set_nss_lookup_names show ?thesis
    by (auto simp: probe_nss_passwd_from_file_exact_def)
qed

lemma contract_groups:
  assumes "probe_nss_groups h env p \<noteq> []"
  shows "\<exists>n \<in> {p, principal_local_part p, machine_short_name p}. probe_nss_groups_exact h env n = Some (probe_nss_groups h env p)"
  using assms first_candidate_SomeD [of "probe_nss_groups_exact h env" "nss_lookup_names p"] set_nss_lookup_names [of p]
  by (auto simp: probe_nss_groups_def unwrap_or_def split: if_splits option.splits)

lemma fst_if: "fst (if b then x else y) = (if b then fst x else fst y)"
  by simp

lemma user_contract_fst:
  assumes "probe_nss_passwd h env p = Some (uid, gid)"
    and "gids = (if wrapper_available h env then probe_nss_groups h env p else [gid])"
  shows "fst (evaluate_nss_contract h p env False) =
     (ph_is_file h (ne_passwd env) \<and> uid \<noteq> FALLBACK_NOBODY_UID \<and> gid \<noteq> FALLBACK_NOBODY_GID
      \<and> (\<exists>g \<in> set gids. g \<noteq> FALLBACK_NOBODY_GID \<and> g \<noteq> 0))"
proof -
  have "fst (evaluate_nss_contract h p env False) =
     (ph_is_file h (ne_passwd env) \<and> uid \<noteq> FALLBACK_NOBODY_UID \<and> gid \<noteq> FALLBACK_NOBODY_GID
      \<and> \<not> (gids \<noteq> [] \<and> list_all (\<lambda>g. g = FALLBACK_NOBODY_GID \<or> g = 0) gids) \<and> \<not> (gids = [] \<and> wrapper_available h env))"
    unfolding evaluate_nss_contract_def Let_def assms option.case prod.case fst_if fst_conv if_False by simp
  moreover have "gids = [] \<Longrightarrow> wrapper_available h env" using assms(2) by (simp split: if_splits)
  ultimately show ?thesis by (cases "gids = []") (auto simp: list_all_iff)
qed

lemma user_contract_ok:
  assumes "fst (evaluate_nss_contract h p env False)"
  obtains uid gid gids where "probe_nss_passwd h env p = Some (uid, gid)" and "uid \<noteq> FALLBACK_NOBODY_UID"
    and "gid \<noteq> FALLBACK_NOBODY_GID" and "gids = (if wrapper_available h env then probe_nss_groups h env p else [gid])"
    and "\<exists>g \<in> set gids. g \<noteq> FALLBACK_NOBODY_GID \<and> g \<noteq> 0"
proof -
  have "probe_nss_passwd h env p \<noteq> None"
  proof
    assume "probe_nss_passwd h env p = None"
    with assms show False unfolding evaluate_nss_contract_def by (simp only: option.case fst_if fst_conv split: if_splits)
  qed
  then obtain uid gid where ids: "probe_nss_passwd h env p = Some (uid, gid)" by auto
  from assms user_contract_fst [OF ids refl] show ?thesis by (intro that [OF ids _ _ refl]) blast+
qed

section \<open>Laws of the chosen principals\<close>

lemma set_warm: "set (foldl warm_step out ps) = set out \<union> {trim p | p. p \<in> set ps \<and> trim p \<noteq> []}"
  by (induction ps arbitrary: out) (auto simp: warm_step_def Let_def)

lemma distinct_warm: "distinct out \<Longrightarrow> distinct (foldl warm_step out ps)"
  by (induction ps arbitrary: out) (auto simp: warm_step_def Let_def)

lemma first_rows_names: "distinct (map pw_name (first_rows seen rs)) \<and> pw_name ` set (first_rows seen rs) \<inter> seen = {}
    \<and> set (first_rows seen rs) \<subseteq> set rs"
  by (induction seen rs rule: first_rows.induct) auto

lemma find_NoneD: "find P xs = None \<Longrightarrow> x \<in> set xs \<Longrightarrow> \<not> P x"
  by (simp add: find_None_iff)

lemma auto_user_candidate:
  assumes "auto_probe_user h env = Some n"
  shows "\<exists>gid. (n, gid) \<in> set (probe_candidates h env)
    \<and> ((\<exists>c \<in> set (probe_candidates h env). 2 \<le> snapshot_gid_count h env [fst c, principal_local_part (fst c)] (snd c))
        \<longrightarrow> 2 \<le> snapshot_gid_count h env [n, principal_local_part n] gid)"
proof (cases "find (\<lambda>(n, gid). 2 \<le> snapshot_gid_count h env [n, principal_local_part n] gid) (probe_candidates h env)")
  case None
  with assms have "\<exists>gid. (n, gid) \<in> set (probe_candidates h env)"
    by (cases "probe_candidates h env") (auto simp: auto_probe_user_def Let_def opt_or_def)
  with find_NoneD [OF None] show ?thesis by fastforce
next
  case (Some c)
  with assms have "n = fst c" by (simp add: auto_probe_user_def Let_def opt_or_def)
  with Some show ?thesis by (force simp: find_Some_iff set_conv_nth)
qed

section \<open>A sample machine\<close>

text \<open>A machine without the wrapper, whose passwd file holds the given text.\<close>

definition file_host :: "string option \<Rightarrow> probe_host" where
  "file_host txt =
     \<lparr>ph_env = (\<lambda>_. None), ph_read = (\<lambda>p. if p = ''/p'' then txt else None), ph_is_file = (\<lambda>p. p = ''/p''),
      ph_exists = (\<lambda>_. False), ph_arch = ''x86_64'', ph_dpkg = None, ph_find_sss = None,
      ph_getent = (\<lambda>_ _. None), ph_id_g = (\<lambda>_ _. None)\<rparr>"

definition file_env :: GaneshaNssEnv where
  "file_env = \<lparr>ne_passwd = ''/p'', ne_group = ''/g'', ne_ld_preload = None, ne_extrausers_passwd = None, ne_extrausers_group = None\<rparr>"

definition short_row :: string where
  "short_row = ''alice:x:7:8:Alice:/:/bin/sh''"

lemma short_row_read: "parse_getent_passwd short_row = Some (7, 8)"
proof -
  have "Identity_Ldap.row_name ''alice''" by code_simp
  then have "parse_passwd_row (format_passwd_row \<lparr>pw_name = ''alice'', pw_uid = 7, pw_gid = 8\<rparr> ''Alice:/:/bin/sh'') =
      Some \<lparr>pw_name = ''alice'', pw_uid = 7, pw_gid = 8\<rparr>" by (intro passwd_row_back) simp
  moreover have "format_passwd_row \<lparr>pw_name = ''alice'', pw_uid = 7, pw_gid = 8\<rparr> ''Alice:/:/bin/sh'' = short_row" by code_simp
  ultimately show ?thesis by (simp add: parse_getent_passwd_def)
qed

lemma short_row_names: "nss_lookup_names ''alice@HOME.ARPA'' = [''alice'', ''alice@HOME.ARPA'']" by code_simp

lemma short_row_lines: "lines short_row = [short_row]" by code_simp

lemma short_row_login: "row_of_login ''alice'' [short_row] = Some short_row" "row_of_login ''alice@HOME.ARPA'' [short_row] = None"
  by code_simp+

lemma short_row_probe:
  "probe_nss_passwd (file_host (Some short_row)) file_env ''alice@HOME.ARPA'' = Some (7, 8)"
  "probe_nss_passwd_from_file_exact (file_host (Some short_row)) file_env ''alice@HOME.ARPA'' = None"
  by (simp_all add: probe_nss_passwd_def wrapper_available_def file_env_def file_host_def opt_or_def short_row_lines short_row_login
      probe_nss_passwd_from_file_def probe_nss_passwd_from_file_exact_def short_row_names short_row_read
      Ldap_Resolver.first_some_def List.map_filter_simps)

lemma short_row_accepted: "fst (evaluate_nss_contract (file_host (Some short_row)) ''alice@HOME.ARPA'' file_env False)"
  by (subst user_contract_fst [OF short_row_probe(1) refl])
     (simp add: wrapper_available_def file_env_def file_host_def FALLBACK_NOBODY_UID_def FALLBACK_NOBODY_GID_def)

section \<open>Properties\<close>



text \<open>
  A user the contract accepts is not the fallback identity: one of the names the server may ask
  for (the principal, its part before the realm, its last segment) has ids other than nobody's, from
  the wrapped name service or from the passwd file, and under the wrapper one of these names is in a
  group other than root's and nobody's.
\<close>

theorem user_contract_sound:
  assumes "fst (evaluate_nss_contract h p env False)"
  shows "\<exists>n \<in> {p, principal_local_part p, machine_short_name p}. \<exists>uid gid.
      ((wrapper_available h env \<and> getent_passwd h env n = Some (uid, gid)) \<or> probe_nss_passwd_from_file_exact h env n = Some (uid, gid))
      \<and> uid \<noteq> FALLBACK_NOBODY_UID \<and> gid \<noteq> FALLBACK_NOBODY_GID
      \<and> (if wrapper_available h env
         then \<exists>n \<in> {p, principal_local_part p, machine_short_name p}. \<exists>gids g. probe_nss_groups_exact h env n = Some gids
                \<and> g \<in> set gids \<and> g \<noteq> FALLBACK_NOBODY_GID \<and> g \<noteq> 0
         else gid \<noteq> 0)"
proof -
  from user_contract_ok [OF assms] obtain uid gid gids where ids: "probe_nss_passwd h env p = Some (uid, gid)"
    "uid \<noteq> FALLBACK_NOBODY_UID" "gid \<noteq> FALLBACK_NOBODY_GID"
    and gids: "gids = (if wrapper_available h env then probe_nss_groups h env p else [gid])"
    and g: "\<exists>g \<in> set gids. g \<noteq> FALLBACK_NOBODY_GID \<and> g \<noteq> 0" by blast
  have "\<exists>n \<in> {p, principal_local_part p, machine_short_name p}. \<exists>gids g. probe_nss_groups_exact h env n = Some gids
      \<and> g \<in> set gids \<and> g \<noteq> FALLBACK_NOBODY_GID \<and> g \<noteq> 0" if "wrapper_available h env"
  proof -
    have "probe_nss_groups h env p \<noteq> []" using g that by (auto simp: gids)
    from contract_groups [OF this] g that show ?thesis by (simp only: gids if_True) blast
  qed
  moreover have "gid \<noteq> 0" if "\<not> wrapper_available h env" using g that by (simp add: gids)
  ultimately show ?thesis using contract_ids [OF ids(1)] ids(2,3) by (simp only: if_split) blast
qed

theorem user_contract_sound_witness:
  "\<exists>n \<in> {''alice@HOME.ARPA'', principal_local_part ''alice@HOME.ARPA'', machine_short_name ''alice@HOME.ARPA''}.
     \<exists>uid gid. probe_nss_passwd_from_file_exact (file_host (Some short_row)) file_env n = Some (uid, gid) \<and> uid \<noteq> FALLBACK_NOBODY_UID"
proof -
  have "\<not> wrapper_available (file_host (Some short_row)) file_env" by (simp add: wrapper_available_def file_env_def)
  with user_contract_sound [OF short_row_accepted] show ?thesis by blast
qed

text \<open>
  The contract of a realm principal is met by a row of its bare name alone: the passwd file
  has no row for the principal, which is what the server asks for and what the resolver insists on,
  and the gate lets the server start.
\<close>

theorem contract_takes_bare_row:
  "fst (evaluate_nss_contract (file_host (Some short_row)) ''alice@HOME.ARPA'' file_env False)
   \<and> probe_nss_passwd_from_file_exact (file_host (Some short_row)) file_env ''alice@HOME.ARPA'' = None"
  using short_row_accepted short_row_probe(2) by simp

text \<open>
  The principals warmed before the server starts: always the host principal of the server, and
  exactly once each when the probe principals differ.
\<close>

theorem warm_principals_complete:
  "''host/'' @ host_short @ ''@'' @ rlm \<in> set (warm_principals_for_startup h (Some cfg) rlm host_short)
   \<and> {trim p | p. p \<in> set (warm_principals (ganesha cfg)) \<and> trim p \<noteq> []} \<subseteq> set (warm_principals_for_startup h (Some cfg) rlm host_short)"
  by (simp add: warm_principals_for_startup_def Let_def set_warm identity_principals_for_check_def) blast

end
