(* ===== verification/Readiness.thy ===== *)
theory Readiness
  imports Nss_Contract
begin

text \<open>
  The environment of the NFS server and the checks on the running server, from
  \<^verbatim>\<open>ganesha_readiness.rs\<close>, and the diagnosis of its log, from
  \<^verbatim>\<open>ganesha_log_contract.rs\<close>.

  A hash map of variables is a map; the server is started with its entries in some order. A slice
  of a text at an offset inside a character panics: \<open>None\<close> stands for that.
\<close>

section \<open>Text from bytes\<close>

definition nul :: char where "nul = CHR 0x00"

definition utf8_cont :: "char \<Rightarrow> bool" where
  "utf8_cont c = (128 \<le> byte c \<and> byte c < 192)"

text \<open>\<^verbatim>\<open>std::str::from_utf8\<close>: the well-formed byte sequences, no surrogates and no overlong forms.\<close>

definition lead3_ok :: "char \<Rightarrow> char \<Rightarrow> bool" where
  "lead3_ok a b = (utf8_cont b \<and> (byte a = 224 \<longrightarrow> 160 \<le> byte b) \<and> (byte a = 237 \<longrightarrow> byte b < 160))"

definition lead4_ok :: "char \<Rightarrow> char \<Rightarrow> bool" where
  "lead4_ok a b = (utf8_cont b \<and> (byte a = 240 \<longrightarrow> 144 \<le> byte b) \<and> (byte a = 244 \<longrightarrow> byte b < 144))"

fun valid_utf8 :: "string \<Rightarrow> bool" where
  "valid_utf8 [] = True"
| "valid_utf8 (a # s) =
     (if byte a < 128 then valid_utf8 s
      else if 194 \<le> byte a \<and> byte a < 224
      then (case s of b # t \<Rightarrow> utf8_cont b \<and> valid_utf8 t | _ \<Rightarrow> False)
      else if 224 \<le> byte a \<and> byte a < 240
      then (case s of b # c # t \<Rightarrow> lead3_ok a b \<and> utf8_cont c \<and> valid_utf8 t | _ \<Rightarrow> False)
      else if 240 \<le> byte a \<and> byte a < 245
      then (case s of b # c # d # t \<Rightarrow> lead4_ok a b \<and> utf8_cont c \<and> utf8_cont d \<and> valid_utf8 t | _ \<Rightarrow> False)
      else False)"

section \<open>The environment of the server\<close>

definition environ_chunks :: "string \<Rightarrow> string list" where
  "environ_chunks raw = filter valid_utf8 (split_on nul raw)"

definition shown_key :: "string \<Rightarrow> bool" where
  "shown_key s = (starts_with s ''LD_PRELOAD='' \<or> starts_with s ''NSS_WRAPPER'' \<or> starts_with s ''IDHELPER''
     \<or> starts_with s ''NFS_KLLDAP_IDHELPER'' \<or> starts_with s ''NSS_'')"

definition filter_proc_environ_keys :: "string \<Rightarrow> string list" where
  "filter_proc_environ_keys raw = filter shown_key (environ_chunks raw)"

definition environ_pairs :: "string \<Rightarrow> (string \<times> string) list" where
  "environ_pairs raw = List.map_filter (split_once CHR ''='') (environ_chunks raw)"

definition proc_environ_map :: "(nat \<Rightarrow> string option) \<Rightarrow> nat \<Rightarrow> (string \<Rightarrow> string option) option" where
  "proc_environ_map environ pid = map_option (\<lambda>raw. map_of (rev (environ_pairs raw))) (environ pid)"

definition proc_pid_environ :: "(nat \<Rightarrow> string option) \<Rightarrow> nat \<Rightarrow> (string \<times> string) list option" where
  "proc_pid_environ environ pid =
     Option.bind (environ pid) (\<lambda>raw. if environ_pairs raw = [] then None else Some (environ_pairs raw))"

record GaneshaSpawnEnv =
  sp_nss_passwd :: string
  sp_nss_group :: string
  sp_extrausers_passwd :: string
  sp_extrausers_group :: string
  sp_idhelper_bin :: string
  sp_idhelper_socket :: string
  sp_nss_wrapper_so :: string
  sp_use_nss_wrapper :: bool

definition inherited_key :: "string \<Rightarrow> bool" where
  "inherited_key s = (s = ''LD_PRELOAD'' \<or> starts_with s ''NSS_WRAPPER'' \<or> starts_with s ''IDHELPER''
     \<or> starts_with s ''NFS_KLLDAP_IDHELPER'' \<or> starts_with s ''NSS_'' \<or> s = ''PATH'')"

text \<open>\<open>vars\<close> are the variables of the process, also those whose value is no valid text.\<close>

definition build_ganesha_envp :: "probe_host \<Rightarrow> (string \<Rightarrow> string option) \<Rightarrow> GaneshaSpawnEnv \<Rightarrow> string \<Rightarrow> string option" where
  "build_ganesha_envp h vars cfg =
     (let m = (\<lambda>k. if inherited_key k then vars k else None);
          m = m(''PATH'' \<mapsto> ''/usr/local/bin:'' @ unwrap_or (ph_env h ''PATH'') [],
                ''NSS_EXTRAUSERS_PASSWD'' \<mapsto> sp_extrausers_passwd cfg,
                ''NSS_EXTRAUSERS_GROUP'' \<mapsto> sp_extrausers_group cfg,
                ''IDHELPER_BIN'' \<mapsto> sp_idhelper_bin cfg,
                ''NFS_KLLDAP_IDHELPER_SOCKET'' \<mapsto> sp_idhelper_socket cfg)
      in if \<not> sp_use_nss_wrapper cfg then m
         else let m = m(''NSS_WRAPPER_PASSWD'' \<mapsto> sp_nss_passwd cfg, ''NSS_WRAPPER_GROUP'' \<mapsto> sp_nss_group cfg);
                  m = (case resolve_nss_sss_so h of
                         None \<Rightarrow> m
                       | Some sss \<Rightarrow> m(''NSS_WRAPPER_MODULE_SO_PATH'' \<mapsto> sss, ''NSS_WRAPPER_MODULE_FN_PREFIX'' \<mapsto> ''_nss_sss_''))
              in m(''LD_PRELOAD'' \<mapsto> ld_preload_for_ganesha h (sp_nss_wrapper_so cfg)))"

section \<open>Scans of the log\<close>

definition char_boundary :: "string \<Rightarrow> nat \<Rightarrow> bool" where
  "char_boundary s n = (n = 0 \<or> n = length s \<or> (n < length s \<and> \<not> utf8_cont (s ! n)))"

definition log_tail :: "string \<Rightarrow> nat \<Rightarrow> string option" where
  "log_tail content off =
     (if 0 < off \<and> off \<le> length content
      then if char_boundary content off then Some (drop off content) else None
      else Some content)"

definition getgrouplist_warn_line :: "string \<Rightarrow> bool" where
  "getgrouplist_warn_line ln =
     (let low = to_ascii_lowercase ln
      in contains_str low ''my_getgrouplist_alloc'' \<and> (contains_str low ''warn'' \<or> contains_str low ''failed, errno''))"

definition managed_gids_failure_line :: "string \<Rightarrow> bool" where
  "managed_gids_failure_line ln =
     (let low = to_ascii_lowercase ln in contains_str low ''attempt to fetch managed'' \<and> contains_str low ''failed'')"

text \<open>The log is its bytes; a log that is no valid text cannot be read and shows nothing.\<close>

definition scan_log :: "(string \<Rightarrow> bool) \<Rightarrow> string option \<Rightarrow> nat \<Rightarrow> bool option" where
  "scan_log hits log off =
     (case opt_filter valid_utf8 log of
        None \<Rightarrow> Some False
      | Some content \<Rightarrow> map_option (\<lambda>t. list_ex hits (lines t)) (log_tail content off))"

definition ganesha_log_has_getgrouplist_warn :: "string option \<Rightarrow> nat \<Rightarrow> bool option" where
  "ganesha_log_has_getgrouplist_warn log off = scan_log getgrouplist_warn_line log off"

definition ganesha_log_has_managed_gids_failure :: "string option \<Rightarrow> nat \<Rightarrow> bool option" where
  "ganesha_log_has_managed_gids_failure log off = scan_log managed_gids_failure_line log off"

definition check_synthetic_krb_log_clean :: "string option \<Rightarrow> bool option" where
  "check_synthetic_krb_log_clean log = map_option Not (ganesha_log_has_getgrouplist_warn log 0)"

section \<open>The readiness of a running server\<close>

record GaneshaReadinessReport =
  root_ok :: bool
  sample_ok :: bool
  short_root_ok :: bool
  short_sample_ok :: bool
  socket_ok :: bool
  ganesha_process_ok :: bool
  ganesha_uid2grp_clean :: bool
  synthetic_clean :: bool

definition is_ready :: "GaneshaReadinessReport \<Rightarrow> bool" where
  "is_ready r = (root_ok r \<and> sample_ok r \<and> short_root_ok r \<and> short_sample_ok r \<and> socket_ok r
     \<and> ganesha_process_ok r \<and> ganesha_uid2grp_clean r \<and> synthetic_clean r)"

text \<open>
  What the check sees: \<^verbatim>\<open>id -G\<close> under exactly the given variables, the environment block of a
  process, the socket of the helper, the log of the server before the exercise and what a command of
  the exercise, run under the given variables, makes of it.
\<close>

record ready_host =
  rh_id_g :: "(string \<times> string) list \<Rightarrow> string \<Rightarrow> string option"
  rh_environ :: "nat \<Rightarrow> string option"
  rh_ask :: "string \<Rightarrow> string option"
  rh_env :: env
  rh_exists :: "string \<Rightarrow> bool"
  rh_log :: "string option"
  rh_run :: "(string \<times> string) list \<Rightarrow> string list \<Rightarrow> string option \<Rightarrow> string option"

definition probe_id_g_under_env :: "ready_host \<Rightarrow> string \<Rightarrow> (string \<times> string) list \<Rightarrow> 32 word list option" where
  "probe_id_g_under_env h who envp = Option.bind (rh_id_g h envp who) gids_of_words"

definition probe_ganesha_process_groups :: "ready_host \<Rightarrow> nat \<Rightarrow> string \<Rightarrow> 32 word list option" where
  "probe_ganesha_process_groups h pid who =
     Option.bind (proc_pid_environ (rh_environ h) pid) (probe_id_g_under_env h who)"

definition resolve_ganesha_ctl_bin :: "ready_host \<Rightarrow> string option" where
  "resolve_ganesha_ctl_bin h =
     (case opt_filter (\<lambda>p. p \<noteq> [] \<and> rh_exists h p) (map_option trim (rh_env h ''GANESHA_CTL_BIN'')) of
        Some p \<Rightarrow> Some p
      | None \<Rightarrow> find (rh_exists h) [''/usr/local/bin/ganesha-ctl'', ''/container/scripts/ganesha-ctl''])"

text \<open>The commands of the exercise; their output is not read.\<close>

definition exercise_commands :: "ready_host \<Rightarrow> string list \<Rightarrow> string list list" where
  "exercise_commands h principals =
     (case resolve_ganesha_ctl_bin h of
        Some ctl \<Rightarrow> map (\<lambda>p. [ctl, ''id-resolve'', p]) principals
      | None \<Rightarrow> concat (map (\<lambda>p. [''id'', ''-G'', p]
                     # (if principal_local_part p \<noteq> p then [[''id'', ''-G'', principal_local_part p]] else [])) principals))"

definition log_after :: "ready_host \<Rightarrow> (string \<times> string) list \<Rightarrow> string list \<Rightarrow> string option" where
  "log_after h envp principals = fold (rh_run h envp) (exercise_commands h principals) (rh_log h)"

definition exercise_ganesha_uid2grp ::
  "ready_host \<Rightarrow> (string \<times> string) list \<Rightarrow> string list \<Rightarrow> (bool \<times> string) option" where
  "exercise_ganesha_uid2grp h envp principals =
     (let log_offset = (case rh_log h of None \<Rightarrow> 0 | Some l \<Rightarrow> length l);
          log = log_after h envp principals in
      Option.bind (ganesha_log_has_getgrouplist_warn log log_offset) (\<lambda>a.
      map_option (\<lambda>has_warn. (\<not> has_warn,
          if has_warn then ''ganesha-uid2grp-exercise:warn-seen'' else ''ganesha-uid2grp-exercise:clean''))
        (if a then Some True else ganesha_log_has_managed_gids_failure log log_offset)))"

definition proc_envp :: "ready_host \<Rightarrow> nat option \<Rightarrow> (string \<times> string) list \<Rightarrow> (string \<times> string) list" where
  "proc_envp h pid envp = unwrap_or (Option.bind pid (proc_pid_environ (rh_environ h))) envp"

definition gids_with_root :: "32 word list option \<Rightarrow> bool" where
  "gids_with_root g = (case g of None \<Rightarrow> False | Some gs \<Rightarrow> 0 \<in> set gs)"

definition at_least_two :: "32 word list option \<Rightarrow> bool" where
  "at_least_two g = (case g of None \<Rightarrow> False | Some gs \<Rightarrow> 2 \<le> length gs)"

definition check_ganesha_readiness_root_only ::
  "ready_host \<Rightarrow> nat option \<Rightarrow> (string \<times> string) list \<Rightarrow> GaneshaReadinessReport option" where
  "check_ganesha_readiness_root_only h pid envp =
     (let ok = gids_with_root (probe_id_g_under_env h ''root'' envp); live = proc_envp h pid envp; who = [''root''] in
      Option.bind (exercise_ganesha_uid2grp h live who) (\<lambda>ex.
      map_option (\<lambda>synth.
        \<lparr>root_ok = ok, sample_ok = True, short_root_ok = ok, short_sample_ok = True,
         socket_ok = (probe_socket_grps (rh_ask h) ''root'' \<noteq> None \<and> gids_with_root (probe_socket_grouplist (rh_ask h) ''root'')),
         ganesha_process_ok = (case pid of None \<Rightarrow> False
             | Some p \<Rightarrow> gids_with_root (probe_ganesha_process_groups h p ''root'')),
         ganesha_uid2grp_clean = fst ex, synthetic_clean = synth\<rparr>)
        (check_synthetic_krb_log_clean (log_after h live who))))"

definition check_ganesha_readiness ::
  "ready_host \<Rightarrow> nat option \<Rightarrow> (string \<times> string) list \<Rightarrow> string option \<Rightarrow> GaneshaReadinessReport option" where
  "check_ganesha_readiness h pid envp sample0 =
     (case sample0 of
        None \<Rightarrow> check_ganesha_readiness_root_only h pid envp
      | Some sample \<Rightarrow>
          let short = principal_local_part sample;
              grps = probe_socket_grps (rh_ask h); gl = probe_socket_grouplist (rh_ask h);
              id_g = (\<lambda>who. probe_id_g_under_env h who envp);
              ok = gids_with_root (id_g ''root''); live = proc_envp h pid envp; who = [''root'', short] in
          Option.bind (exercise_ganesha_uid2grp h live who) (\<lambda>ex.
          map_option (\<lambda>synth.
            \<lparr>root_ok = ok,
             sample_ok = (at_least_two (gl sample) \<or> (id_g sample \<noteq> None \<and> grps sample \<noteq> None)),
             short_root_ok = ok,
             short_sample_ok = (at_least_two (gl short) \<or> at_least_two (id_g short)),
             socket_ok = (grps ''root'' \<noteq> None \<and> grps sample \<noteq> None \<and> grps short \<noteq> None
               \<and> gids_with_root (gl ''root'') \<and> gl sample \<noteq> None \<and> gl short \<noteq> None),
             ganesha_process_ok = (case pid of None \<Rightarrow> False
                 | Some p \<Rightarrow> gids_with_root (probe_ganesha_process_groups h p ''root'')
                     \<and> (probe_ganesha_process_groups h p sample \<noteq> None \<or> probe_ganesha_process_groups h p short \<noteq> None
                        \<or> gl sample \<noteq> None \<or> gl short \<noteq> None)),
             ganesha_uid2grp_clean = fst ex, synthetic_clean = synth\<rparr>)
            (check_synthetic_krb_log_clean (log_after h live who))))"

section \<open>The diagnosis of unsupported operations\<close>

datatype NotsuppFailurePath = AclPath | IdentityPath | UnknownPath

definition line_is_identity_failure :: "string \<Rightarrow> bool" where
  "line_is_identity_failure line =
     (let lower = to_lowercase line
      in contains_str lower ''unsupported code path for principal'' \<or> contains_str line ''Could not map''
         \<or> (contains_str line ''uid2grp_allocate_by_principal'' \<and> contains_str lower ''unsupported''))"

definition log_shows_identity_failure :: "string \<Rightarrow> bool" where
  "log_shows_identity_failure content = list_ex line_is_identity_failure (lines content)"

definition op_access_notsupp :: "string \<Rightarrow> bool" where
  "op_access_notsupp l = (contains_str l ''Status of OP_ACCESS'' \<and> contains_str l ''NFS4ERR_NOTSUPP'')"

definition getattr_notsupp :: "string \<Rightarrow> bool" where
  "getattr_notsupp l = (contains_str l ''Status of OP_GETATTR'' \<and> contains_str l ''NFS4ERR_NOTSUPP'')"

definition acl_mask_line :: "string \<Rightarrow> bool" where
  "acl_mask_line l = (contains_str l ''access_mask = mode'' \<and> contains_str l ''ACL('')"

definition acl_check_line :: "string \<Rightarrow> bool" where
  "acl_check_line l = (contains_str l ''Permission check for ACL'' \<and> \<not> contains_str l ''No permission check'')"

definition acl_fail_line :: "string \<Rightarrow> bool" where
  "acl_fail_line l = contains_str l ''failed with Operation not supported''"

text \<open>Some line starts a window of \<open>n\<close> lines, itself the first, that passes the test.\<close>

fun any_window :: "nat \<Rightarrow> (string \<Rightarrow> bool) \<Rightarrow> (string list \<Rightarrow> bool) \<Rightarrow> string list \<Rightarrow> bool" where
  "any_window n start chk [] = False"
| "any_window n start chk (l # ls) = (start l \<and> chk (take n (l # ls)) \<or> any_window n start chk ls)"

definition log_shows_acl_path_op_access_notsupp :: "string \<Rightarrow> bool" where
  "log_shows_acl_path_op_access_notsupp content =
     (\<not> log_shows_identity_failure content
      \<and> any_window 6 acl_mask_line (list_ex op_access_notsupp) (lines content))"

definition log_shows_acl_path_getattr_notsupp :: "string \<Rightarrow> bool" where
  "log_shows_acl_path_getattr_notsupp content =
     (\<not> log_shows_identity_failure content
      \<and> any_window 8 acl_check_line (\<lambda>w. list_ex acl_fail_line w \<and> list_ex getattr_notsupp w) (lines content))"

definition log_shows_identity_path_notsupp :: "string \<Rightarrow> bool" where
  "log_shows_identity_path_notsupp content =
     any_window 10 line_is_identity_failure (\<lambda>w. list_ex op_access_notsupp w \<or> list_ex getattr_notsupp w) (lines content)"

definition classify_notsupp_failure_path :: "string \<Rightarrow> NotsuppFailurePath" where
  "classify_notsupp_failure_path content =
     (if log_shows_acl_path_op_access_notsupp content \<or> log_shows_acl_path_getattr_notsupp content then AclPath
      else if log_shows_identity_path_notsupp content then IdentityPath
      else UnknownPath)"

section \<open>Laws of text from bytes\<close>

declare valid_utf8.simps(2) [simp del]

lemma valid_utf8_append: "valid_utf8 a \<Longrightarrow> valid_utf8 (a @ b) = valid_utf8 b"
proof (induction a rule: valid_utf8.induct)
  case (2 x s)
  then consider "byte x < 128" "valid_utf8 s"
    | c t where "\<not> byte x < 128" "194 \<le> byte x \<and> byte x < 224" "s = c # t" "utf8_cont c" "valid_utf8 t"
    | c d t where "\<not> byte x < 128" "\<not> (194 \<le> byte x \<and> byte x < 224)" "224 \<le> byte x \<and> byte x < 240" "s = c # d # t"
        "lead3_ok x c" "utf8_cont d" "valid_utf8 t"
    | c d e t where "\<not> byte x < 128" "\<not> (194 \<le> byte x \<and> byte x < 224)" "\<not> (224 \<le> byte x \<and> byte x < 240)"
        "240 \<le> byte x \<and> byte x < 245" "s = c # d # e # t" "lead4_ok x c" "utf8_cont d" "utf8_cont e" "valid_utf8 t"
    by (auto simp: valid_utf8.simps(2) [of x s] split: if_splits list.splits)
  then show ?case by cases (simp_all add: valid_utf8.simps(2) [of x] "2.IH" del: not_less not_le)
qed simp

lemma valid_utf8_hd: "valid_utf8 (c # s) \<Longrightarrow> \<not> utf8_cont c"
  by (auto simp: valid_utf8.simps(2) [of c s] utf8_cont_def split: if_splits)

lemma valid_utf8_ascii: "list_all (\<lambda>c. byte c < 128) s \<Longrightarrow> valid_utf8 s"
  by (induction s) (simp_all add: valid_utf8.simps(2))

lemma valid_utf8_lf [simp]: "valid_utf8 (line_feed # s) = valid_utf8 s"
  by (simp add: valid_utf8.simps(2) line_feed_def)

lemma log_tail_appended:
  assumes "valid_utf8 a" and "valid_utf8 (a @ b)"
  shows "log_tail (a @ b) (length a) = Some b"
proof (cases "a = [] \<or> b = []")
  case False
  then obtain c t where b: "b = c # t" by (cases b) auto
  have "\<not> utf8_cont c" using assms by (simp add: valid_utf8_append b valid_utf8_hd)
  with False show ?thesis by (simp add: log_tail_def char_boundary_def b nth_append)
qed (auto simp: log_tail_def char_boundary_def)

lemma scan_log_appended:
  assumes "valid_utf8 a"
  shows "scan_log hits (Some (a @ b)) (length a) = Some (valid_utf8 b \<and> list_ex hits (lines b))"
  using assms by (cases "valid_utf8 b") (simp_all add: scan_log_def opt_filter_def valid_utf8_append log_tail_appended)

lemma scan_log_start: "scan_log hits (Some c) 0 = Some (valid_utf8 c \<and> list_ex hits (lines c))"
  using scan_log_appended [of "[]" hits c] by simp

lemma split_on_at: "split_on c (a @ c # b) = split_on c a @ split_on c b"
proof (induction a)
  case (Cons x a)
  then show ?case by (cases "split_on c a") auto
qed simp

lemma lines_continued: "lines (a @ line_feed # b) = lines (a @ [line_feed]) @ lines b"
  by (simp add: lines_def Let_def split_on_at butlast_append)

lemma log_grows:
  assumes "\<And>envp cmd l. \<exists>new. run envp cmd (Some l) = Some (l @ new) \<and> valid_utf8 new"
  shows "\<exists>new. fold (run envp) cmds (Some l) = Some (l @ new) \<and> valid_utf8 new"
proof (induction cmds arbitrary: l)
  case (Cons c cmds)
  from assms [of envp c l] obtain n1 where "run envp c (Some l) = Some (l @ n1)" "valid_utf8 n1" by blast
  with Cons [of "l @ n1"] show ?case by (auto simp: valid_utf8_append)
qed simp

section \<open>Laws of the environment\<close>

text \<open>The environment block of a process: every entry ends with a zero byte.\<close>

definition environ_bytes :: "(string \<times> string) list \<Rightarrow> string" where
  "environ_bytes envp = concat (map (\<lambda>(k, v). k @ CHR ''='' # v @ [nul]) envp)"

definition envp_ok :: "(string \<times> string) list \<Rightarrow> bool" where
  "envp_ok envp = list_all (\<lambda>(k, v). CHR ''='' \<notin> set k \<and> nul \<notin> set k \<and> nul \<notin> set v \<and> valid_utf8 (k @ CHR ''='' # v)) envp"

lemma environ_pairs_bytes: "envp_ok envp \<Longrightarrow> environ_pairs (environ_bytes envp) = envp"
proof (induction envp)
  case Nil
  show ?case by (simp add: environ_pairs_def environ_chunks_def environ_bytes_def List.map_filter_simps)
next
  case (Cons e envp)
  obtain k v where e: "e = (k, v)" by (cases e)
  have ok: "CHR ''='' \<notin> set k" "nul \<notin> set (k @ CHR ''='' # v)" "valid_utf8 (k @ CHR ''='' # v)" "envp_ok envp"
    using Cons.prems by (auto simp: envp_ok_def e nul_def)
  have "split_on nul (environ_bytes (e # envp)) = (k @ CHR ''='' # v) # split_on nul (environ_bytes envp)"
    using split_on_append_sep [OF ok(2)] by (simp add: environ_bytes_def e)
  with ok Cons.IH show ?case
    by (simp add: environ_pairs_def environ_chunks_def List.map_filter_simps split_once_append e)
qed

lemma inherited_keys [simp]:
  "inherited_key ''PATH''" "inherited_key ''NSS_EXTRAUSERS_PASSWD''" "inherited_key ''NSS_EXTRAUSERS_GROUP''"
  "inherited_key ''IDHELPER_BIN''" "inherited_key ''NFS_KLLDAP_IDHELPER_SOCKET''" "inherited_key ''NSS_WRAPPER_PASSWD''"
  "inherited_key ''NSS_WRAPPER_GROUP''" "inherited_key ''NSS_WRAPPER_MODULE_SO_PATH''"
  "inherited_key ''NSS_WRAPPER_MODULE_FN_PREFIX''" "inherited_key ''LD_PRELOAD''"
  by (simp_all add: inherited_key_def)

section \<open>Laws of the windows\<close>

lemma any_window_iff: "any_window n start chk ls = (\<exists>i < length ls. start (ls ! i) \<and> chk (take n (drop i ls)))"
proof (induction ls)
  case (Cons l ls)
  show ?case by (simp only: any_window.simps Cons.IH length_Cons Ex_less_Suc2 nth_Cons_0 nth_Cons_Suc drop_0 drop_Suc_Cons)
qed simp

definition near :: "nat \<Rightarrow> string list \<Rightarrow> nat \<Rightarrow> nat \<Rightarrow> bool" where
  "near n ls i j = (i \<le> j \<and> j < i + n \<and> j < length ls)"

lemma window_ex: "i < length ls \<Longrightarrow> list_ex P (take n (drop i ls)) = (\<exists>j. near n ls i j \<and> P (ls ! j))"
proof -
  assume i: "i < length ls"
  have "list_ex P (take n (drop i ls)) = (\<exists>m < min n (length ls - i). P (ls ! (i + m)))"
    using i by (auto simp: list_ex_length)
  also have "\<dots> = (\<exists>j. near n ls i j \<and> P (ls ! j))"
  proof
    assume "\<exists>m < min n (length ls - i). P (ls ! (i + m))"
    then obtain m where "m < n" "i + m < length ls" "P (ls ! (i + m))" by auto
    then show "\<exists>j. near n ls i j \<and> P (ls ! j)" by (intro exI [of _ "i + m"]) (simp add: near_def)
  next
    assume "\<exists>j. near n ls i j \<and> P (ls ! j)"
    then obtain j where "near n ls i j" "P (ls ! j)" by blast
    then show "\<exists>m < min n (length ls - i). P (ls ! (i + m))" by (intro exI [of _ "j - i"]) (auto simp: near_def)
  qed
  finally show ?thesis .
qed

section \<open>Properties\<close>

text \<open>
  The server gets no variable of the supervisor but the ones its name service and the helper
  need: every variable it is started with is the search path, the preload list or one of the
  prefixes of these two, whatever else (passwords of the directory among it) the supervisor was
  started with, and a supervisor that differs in other variables starts it with the same ones.
\<close>

theorem ganesha_environment_closed:
  "dom (build_ganesha_envp h vars cfg) \<subseteq> Collect inherited_key
   \<and> (inherited_key k \<or> build_ganesha_envp h (vars(k := v)) cfg = build_ganesha_envp h vars cfg)"
proof -
  have same: "(\<lambda>x. if inherited_key x then (vars(k := v)) x else None) = (\<lambda>x. if inherited_key x then vars x else None)"
    if "\<not> inherited_key k" using that by (auto simp: fun_eq_iff)
  have "build_ganesha_envp h (vars(k := v)) cfg = build_ganesha_envp h vars cfg" if "\<not> inherited_key k"
    unfolding build_ganesha_envp_def same [OF that] by (rule refl)
  moreover define base :: "string \<Rightarrow> string option" where "base = (\<lambda>k. if inherited_key k then vars k else None)"
  have "dom base \<subseteq> Collect inherited_key" by (auto simp: base_def split: if_splits)
  then have "dom (build_ganesha_envp h vars cfg) \<subseteq> Collect inherited_key"
    unfolding build_ganesha_envp_def base_def [symmetric] by (simp add: Let_def split: option.split)
  ultimately show ?thesis by blast
qed

text \<open>
  The readiness check asks the name service under the environment the server really has: the
  block of a process that was started with the given variables is read back as exactly these.
\<close>

theorem server_environment_read_back:
  assumes "envp_ok envp" and "envp \<noteq> []" and "rh_environ h pid = Some (environ_bytes envp)"
  shows "probe_ganesha_process_groups h pid who = probe_id_g_under_env h who envp \<and> proc_envp h (Some pid) other = envp"
  using assms by (simp add: probe_ganesha_process_groups_def proc_envp_def proc_pid_environ_def environ_pairs_bytes unwrap_or_def)

text \<open>
  The exercise of the group lookups judges what the server logged during it and nothing older: when
  the log was valid text and grew by some text, it ends without a panic and finds the server
  clean unless that text is readable and has a line of a failed group lookup.
\<close>

theorem exercise_judges_new_lines:
  assumes "rh_log h = Some old" and "valid_utf8 old" and "log_after h envp principals = Some (old @ new)"
  shows "map_option fst (exercise_ganesha_uid2grp h envp principals)
    = Some (\<not> (valid_utf8 new \<and> list_ex (\<lambda>l. getgrouplist_warn_line l \<or> managed_gids_failure_line l) (lines new)))"
  unfolding exercise_ganesha_uid2grp_def ganesha_log_has_getgrouplist_warn_def ganesha_log_has_managed_gids_failure_def
    Let_def assms(1,3) option.case scan_log_appended [OF assms(2)]
  by (auto simp: list_ex_iff)

text \<open>
  One warning in the log keeps the server from being ready, however old it is: the last
  check reads the whole log, so no exercise, environment or probe user makes the server ready until
  the log is rotated.
\<close>

theorem old_warning_blocks_readiness:
  assumes "rh_log h = Some (old @ [line_feed])" and "valid_utf8 old" and "list_ex getgrouplist_warn_line (lines (old @ [line_feed]))"
    and "\<And>envp cmd l. \<exists>new. rh_run h envp cmd (Some l) = Some (l @ new) \<and> valid_utf8 new"
    and "check_ganesha_readiness h pid envp sample = Some report"
  shows "\<not> is_ready report"
proof -
  have "check_synthetic_krb_log_clean (log_after h envp who) = Some False" for envp who
  proof -
    from log_grows [of "rh_run h" envp "exercise_commands h who" "old @ [line_feed]", OF assms(4)] obtain new
      where "log_after h envp who = Some (old @ line_feed # new)" "valid_utf8 new"
      by (auto simp: log_after_def assms(1))
    with assms(2,3) valid_utf8_append [OF assms(2), of "line_feed # new"] show ?thesis
      by (simp add: check_synthetic_krb_log_clean_def ganesha_log_has_getgrouplist_warn_def scan_log_start lines_continued [of old new])
  qed
  then have "\<not> synthetic_clean report"
    using assms(5) unfolding check_ganesha_readiness_def check_ganesha_readiness_root_only_def Let_def
    by (auto simp: bind_eq_Some_conv split: option.splits)
  then show ?thesis by (simp add: is_ready_def)
qed

text \<open>A machine whose log has one old warning and whose name service knows everybody.\<close>

definition warned_log :: string where
  "warned_log = ''my_getgrouplist_alloc :ID MAPPER :WARN :failed''"

definition warned_host :: ready_host where
  "warned_host =
     \<lparr>rh_id_g = (\<lambda>_ _. Some ''0 1''), rh_environ = (\<lambda>_. None), rh_ask = (\<lambda>_. Some ''OK 0|1''), rh_env = (\<lambda>_. None),
      rh_exists = (\<lambda>_. False), rh_log = Some (warned_log @ [line_feed]), rh_run = (\<lambda>_ _ l. l)\<rparr>"

theorem old_warning_blocks_readiness_witness:
  "\<not> is_ready (the (check_ganesha_readiness warned_host (Some 7) [] None))"
proof -
  have "valid_utf8 warned_log" by code_simp
  moreover have "list_ex getgrouplist_warn_line (lines (warned_log @ [line_feed]))" by code_simp
  moreover have "\<exists>new. rh_run warned_host envp cmd (Some l) = Some (l @ new) \<and> valid_utf8 new" for envp cmd l
    by (intro exI [of _ "[]"]) (simp add: warned_host_def)
  moreover have "log_after warned_host envp who = rh_log warned_host" for envp who
    unfolding log_after_def by (rule fold_invariant [where Q = "\<lambda>_. True"]) (simp_all add: warned_host_def)
  then have after: "log_after warned_host envp who = Some ((warned_log @ [line_feed]) @ [])" for envp who by (simp add: warned_host_def)
  have log: "rh_log warned_host = Some (warned_log @ [line_feed])" by (simp add: warned_host_def)
  have valid: "valid_utf8 (warned_log @ [line_feed])" using calculation(1) by (simp add: valid_utf8_append)
  have "map_option fst (exercise_ganesha_uid2grp warned_host envp who) \<noteq> None" for envp who
    unfolding exercise_judges_new_lines [OF log valid after] by simp
  then obtain ex where "exercise_ganesha_uid2grp warned_host (proc_envp warned_host (Some 7) []) [''root''] = Some ex" by blast
  then have "check_ganesha_readiness warned_host (Some 7) [] None \<noteq> None"
    by (simp add: check_ganesha_readiness_def check_ganesha_readiness_root_only_def Let_def check_synthetic_krb_log_clean_def
        ganesha_log_has_getgrouplist_warn_def after scan_log_start)
  then obtain report where "check_ganesha_readiness warned_host (Some 7) [] None = Some report" by blast
  ultimately show ?thesis
    using old_warning_blocks_readiness [of warned_host warned_log "Some 7" "[]" None report] by (simp add: warned_host_def)
qed

lemma classify_windows:
  assumes "ls = lines content"
  shows "(classify_notsupp_failure_path content = IdentityPath
      \<longleftrightarrow> (\<exists>i j. near 10 ls i j \<and> line_is_identity_failure (ls ! i) \<and> (op_access_notsupp (ls ! j) \<or> getattr_notsupp (ls ! j))))
    \<and> (classify_notsupp_failure_path content = AclPath
      \<longleftrightarrow> \<not> (\<exists>i < length ls. line_is_identity_failure (ls ! i))
        \<and> ((\<exists>i j. near 6 ls i j \<and> acl_mask_line (ls ! i) \<and> op_access_notsupp (ls ! j))
           \<or> (\<exists>i j k. near 8 ls i j \<and> near 8 ls i k \<and> acl_check_line (ls ! i) \<and> acl_fail_line (ls ! j) \<and> getattr_notsupp (ls ! k))))"
proof -
  have start: "near n ls i j \<Longrightarrow> i < length ls" for n i j by (simp add: near_def)
  have idn: "log_shows_identity_failure content = (\<exists>i < length ls. line_is_identity_failure (ls ! i))"
    by (simp add: log_shows_identity_failure_def assms list_ex_length)
  have win: "any_window n st (list_ex Q) ls = (\<exists>i j. near n ls i j \<and> st (ls ! i) \<and> Q (ls ! j))" for n st Q
    by (simp add: any_window_iff window_ex cong: conj_cong) (use start in blast)
  have path: "log_shows_identity_path_notsupp content
      = (\<exists>i j. near 10 ls i j \<and> line_is_identity_failure (ls ! i) \<and> (op_access_notsupp (ls ! j) \<or> getattr_notsupp (ls ! j)))"
    by (simp add: log_shows_identity_path_notsupp_def assms [symmetric] any_window_iff window_ex cong: conj_cong) (use start in blast)
  then have only: "log_shows_identity_path_notsupp content \<Longrightarrow> log_shows_identity_failure content"
    using start idn by blast
  have attr: "any_window 8 acl_check_line (\<lambda>w. list_ex acl_fail_line w \<and> list_ex getattr_notsupp w) ls
      = (\<exists>i j k. near 8 ls i j \<and> near 8 ls i k \<and> acl_check_line (ls ! i) \<and> acl_fail_line (ls ! j) \<and> getattr_notsupp (ls ! k))"
    by (simp add: any_window_iff window_ex cong: conj_cong) (use start in blast)
  have acl: "log_shows_acl_path_op_access_notsupp content \<or> log_shows_acl_path_getattr_notsupp content
      \<longleftrightarrow> \<not> log_shows_identity_failure content
        \<and> ((\<exists>i j. near 6 ls i j \<and> acl_mask_line (ls ! i) \<and> op_access_notsupp (ls ! j))
           \<or> (\<exists>i j k. near 8 ls i j \<and> near 8 ls i k \<and> acl_check_line (ls ! i) \<and> acl_fail_line (ls ! j) \<and> getattr_notsupp (ls ! k)))"
    unfolding log_shows_acl_path_op_access_notsupp_def log_shows_acl_path_getattr_notsupp_def assms [symmetric] win attr by blast
  have "classify_notsupp_failure_path content = AclPath
      \<longleftrightarrow> log_shows_acl_path_op_access_notsupp content \<or> log_shows_acl_path_getattr_notsupp content"
    "classify_notsupp_failure_path content = IdentityPath \<longleftrightarrow> log_shows_identity_path_notsupp content"
    using only acl by (auto simp: classify_notsupp_failure_path_def)
  then show ?thesis unfolding acl path idn by blast
qed

text \<open>
  C23: The diagnosis of unsupported operations, against its meaning over the lines of the log. The
  identity chain is blamed exactly when a line of a failed principal is followed, within ten lines,
  by an unsupported access or attribute request; the access control lists are blamed exactly when no
  line of the log tells of a failed principal and a mask of a list is followed by an unsupported
  access within six lines, or a check of a list by its failure and an unsupported attribute request
  within eight.
\<close>

theorem notsupp_diagnosis_exact:
  "(classify_notsupp_failure_path content = IdentityPath
      \<longleftrightarrow> (\<exists>i j. near 10 (lines content) i j \<and> line_is_identity_failure ((lines content) ! i) \<and> (op_access_notsupp ((lines content) ! j) \<or> getattr_notsupp ((lines content) ! j))))
    \<and> (classify_notsupp_failure_path content = AclPath
      \<longleftrightarrow> \<not> (\<exists>i < length (lines content). line_is_identity_failure ((lines content) ! i))
        \<and> ((\<exists>i j. near 6 (lines content) i j \<and> acl_mask_line ((lines content) ! i) \<and> op_access_notsupp ((lines content) ! j))
           \<or> (\<exists>i j k. near 8 (lines content) i j \<and> near 8 (lines content) i k \<and> acl_check_line ((lines content) ! i) \<and> acl_fail_line ((lines content) ! j) \<and> getattr_notsupp ((lines content) ! k))))"
  by (rule classify_windows [OF refl])

end
