(* ===== verification/Acl_Watch.thy ===== *)
theory Acl_Watch
  imports Acl_Gate
begin

text \<open>
  The background watch of \<^verbatim>\<open>nfs-klldap-ui/src/web/acl_watch.rs\<close>, and the laws of verdicts, gates and watch: what
  a cached verdict stands for, that the surfaces of the interface agree with the exports, that no edit
  passes the gate on a mount that cannot hold it, and how often the watch may ask for a recycle.
\<close>

section \<open>The watch\<close>

definition AUTO_HUP_MIN_INTERVAL :: nat where "AUTO_HUP_MIN_INTERVAL = secs 600"
definition FLIP_STREAK :: nat where "FLIP_STREAK = 2"

record FlipState =
  baseline :: bool
  last_reading :: bool
  streak :: nat

record FlipTracker =
  auto :: "(string \<times> FlipState) list"
  incap :: "(string \<times> nat) list"
  last_auto_hup :: "nat option"

record watch_state =
  tracker :: FlipTracker
  w_caps :: AclCapabilityCache
  acl_alert :: "string option"
  w_latch :: latch

text \<open>\<^verbatim>\<open>u8::saturating_add(1)\<close>.\<close>

definition count_up :: "nat \<Rightarrow> nat" where
  "count_up n = min 255 (Suc n)"

definition track_auto_flip :: "bool \<Rightarrow> FlipState \<Rightarrow> bool \<times> FlipState" where
  "track_auto_flip reading st =
     (let st = (if reading = last_reading st then st\<lparr>streak := count_up (streak st)\<rparr>
                else st\<lparr>streak := 1, last_reading := reading\<rparr>)
      in (reading \<noteq> baseline st \<and> streak st \<ge> FLIP_STREAK, st))"

definition build_alert :: "string list \<Rightarrow> string option" where
  "build_alert failing =
     (if failing = [] then None
      else Some (''enable_acl = true on '' @ join '', '' (map (\<lambda>n. [CHR 0x27] @ n @ [CHR 0x27]) failing)
        @ '' but the backing filesystem no longer stores POSIX ACLs '' @ em_dash
        @ '' the next config reload will refuse to generate exports. Use the staging pattern ''
        @ ''(source_path) or set enable_acl = false.''))"

text \<open>One share of a tick: the names of the first flipped automatic share and of the failing explicit ones are collected.\<close>

definition watch_share ::
  "acl_env \<Rightarrow> string option \<Rightarrow> Share \<Rightarrow> watch_state \<times> string option \<times> string list \<Rightarrow> watch_state \<times> string option \<times> string list" where
  "watch_share env snap sh acc =
     (case acc of (s, flip, failing) \<Rightarrow>
        let serve = serve_path_for sh in
        case verdict_for_snapshot env snap serve serve (enable_acl sh = Some False) True (w_caps s) of
          (out, caps) \<Rightarrow>
            let s = s\<lparr>w_caps := caps\<rparr>; t = tracker s in
            case enable_acl sh of
              None \<Rightarrow>
                let capable = (po_verdict out = Capable);
                    st = unwrap_or (map_of (auto t) (name sh)) \<lparr>baseline = capable, last_reading = capable, streak = 0\<rparr>
                in (case track_auto_flip capable st of (flipped, st) \<Rightarrow>
                      (s\<lparr>tracker := t\<lparr>auto := hm_insert (name sh) st (auto t)\<rparr>\<rparr>,
                       if flipped then opt_or flip (Some (name sh)) else flip, failing))
            | Some True \<Rightarrow>
                let n = (if po_verdict out = Incapable then count_up (unwrap_or (map_of (incap t) (name sh)) 0) else 0)
                in (s\<lparr>tracker := t\<lparr>incap := hm_insert (name sh) n (incap t)\<rparr>\<rparr>, flip,
                    if n \<ge> FLIP_STREAK then failing @ [name sh] else failing)
            | Some False \<Rightarrow> (s, flip, failing))"

definition adopt_readings :: "FlipTracker \<Rightarrow> FlipTracker" where
  "adopt_readings t = t\<lparr>auto := map (\<lambda>(k, st). (k, st\<lparr>baseline := last_reading st, streak := 0\<rparr>)) (auto t)\<rparr>"

text \<open>The recycle of a tick, at most one: when a share has flipped, the last one is long enough ago and the latch takes it.\<close>

definition schedule_flip :: "acl_env \<Rightarrow> recycle_env \<Rightarrow> nat \<Rightarrow> watch_state \<Rightarrow> bool \<times> watch_state" where
  "schedule_flip env rec now_ms s =
     (case cap_now env (w_caps s) of (now, caps) \<Rightarrow>
        let s = s\<lparr>w_caps := caps\<rparr>;
            rate_ok = (case last_auto_hup (tracker s) of None \<Rightarrow> True | Some t \<Rightarrow> now - t \<ge> AUTO_HUP_MIN_INTERVAL)
        in if \<not> rate_ok then (False, s)
           else case try_schedule_service_recycle rec now_ms SharesApply (w_latch s) of
             (False, _) \<Rightarrow> (False, s)
           | (True, l) \<Rightarrow>
               (case cap_now env (w_caps s) of (now, caps) \<Rightarrow>
                  (True, s\<lparr>w_latch := l, w_caps := caps, tracker := adopt_readings ((tracker s)\<lparr>last_auto_hup := Some now\<rparr>)\<rparr>)))"

definition acl_reprobe_tick ::
  "acl_env \<Rightarrow> recycle_env \<Rightarrow> nat \<Rightarrow> string option \<Rightarrow> NfsKlldapConfig \<Rightarrow> watch_state \<Rightarrow> bool \<times> watch_state" where
  "acl_reprobe_tick env rec now_ms snap cfg s =
     (if restart_requested (w_latch s) \<noteq> None then (False, s)
      else case fold (watch_share env snap) (shares cfg) (s, None, []) of (s, flip, failing) \<Rightarrow>
        let s = s\<lparr>acl_alert := build_alert failing\<rparr> in
        case flip of None \<Rightarrow> (False, s) | Some _ \<Rightarrow> schedule_flip env rec now_ms s)"

text \<open>
  The life of the watch: before each tick the rest of the process has left the latch in some state
  and the configuration and the mount table are what they are then. The times of its recycles are kept.
\<close>

record tick_input =
  ti_latch :: latch
  ti_ms :: nat
  ti_snap :: "string option"
  ti_cfg :: NfsKlldapConfig

definition watch_tick :: "acl_env \<Rightarrow> recycle_env \<Rightarrow> tick_input \<Rightarrow> watch_state \<times> nat list \<Rightarrow> watch_state \<times> nat list" where
  "watch_tick env rec i acc =
     (case acc of (s, hups) \<Rightarrow>
        case acl_reprobe_tick env rec (ti_ms i) (ti_snap i) (ti_cfg i) (s\<lparr>w_latch := ti_latch i\<rparr>) of
          (hup, s') \<Rightarrow> (s', if hup then hups @ [the (last_auto_hup (tracker s'))] else hups))"

definition watch_start :: "AclCapabilityCache \<Rightarrow> watch_state" where
  "watch_start c = \<lparr>tracker = \<lparr>auto = [], incap = [], last_auto_hup = None\<rparr>, w_caps = c, acl_alert = None, w_latch = idle_latch\<rparr>"

definition watch_life :: "acl_env \<Rightarrow> recycle_env \<Rightarrow> AclCapabilityCache \<Rightarrow> tick_input list \<Rightarrow> watch_state \<times> nat list" where
  "watch_life env rec c inps = fold (watch_tick env rec) inps (watch_start c, [])"

section \<open>Recycles are spaced\<close>

lemma watch_share_hup [simp]: "last_auto_hup (tracker (fst (watch_share env snap sh acc))) = last_auto_hup (tracker (fst acc))"
  by (cases acc) (auto simp: watch_share_def case_prod_beta Let_def split: option.split bool.split)

lemma watch_shares_hup [simp]: "last_auto_hup (tracker (fst (fold (watch_share env snap) shs acc))) = last_auto_hup (tracker (fst acc))"
  by (induction shs arbitrary: acc) simp_all

lemma schedule_flip_hup:
  assumes "mono (acl_clock env)" and "schedule_flip env rec ms s = (hup, s')"
  shows "if hup then \<exists>now. last_auto_hup (tracker s') = Some now
             \<and> (\<forall>t. last_auto_hup (tracker s) = Some t \<longrightarrow> t + AUTO_HUP_MIN_INTERVAL \<le> now)
         else last_auto_hup (tracker s') = last_auto_hup (tracker s)"
proof -
  have clock: "acl_clock env n \<le> acl_clock env (Suc n)" for n using assms(1) by (simp add: monoD)
  have "0 < AUTO_HUP_MIN_INTERVAL" by (simp add: AUTO_HUP_MIN_INTERVAL_def secs_def)
  then show ?thesis
    using assms(2) clock[of "cap_looks (w_caps s)"]
    by (auto simp: schedule_flip_def cap_now_def adopt_readings_def Let_def split: prod.splits option.splits if_splits bool.splits)
qed

lemma tick_hup:
  assumes "mono (acl_clock env)" and "acl_reprobe_tick env rec ms snap cfg s = (hup, s')"
  shows "if hup then \<exists>now. last_auto_hup (tracker s') = Some now
             \<and> (\<forall>t. last_auto_hup (tracker s) = Some t \<longrightarrow> t + AUTO_HUP_MIN_INTERVAL \<le> now)
         else last_auto_hup (tracker s') = last_auto_hup (tracker s)"
proof (cases "restart_requested (w_latch s) = None")
  case True
  obtain s1 flip failing where f: "fold (watch_share env snap) (shares cfg) (s, None, []) = (s1, flip, failing)"
    by (metis prod_cases3)
  then have s1: "last_auto_hup (tracker s1) = last_auto_hup (tracker s)"
    using watch_shares_hup[of env snap "shares cfg" "(s, None, [])"] by simp
  show ?thesis
  proof (cases flip)
    case None
    then show ?thesis using assms(2) True f s1 by (auto simp: acl_reprobe_tick_def)
  next
    case (Some nm)
    then have "schedule_flip env rec ms (s1\<lparr>acl_alert := build_alert failing\<rparr>) = (hup, s')"
      using assms(2) True f by (simp add: acl_reprobe_tick_def)
    from schedule_flip_hup[OF assms(1) this] s1 show ?thesis by (simp split: if_splits)
  qed
qed (use assms(2) in \<open>auto simp: acl_reprobe_tick_def\<close>)

definition hups_ok :: "watch_state \<times> nat list \<Rightarrow> bool" where
  "hups_ok acc =
     (sorted_wrt (\<lambda>a b. a + AUTO_HUP_MIN_INTERVAL \<le> b) (snd acc)
      \<and> (\<forall>h \<in> set (snd acc). \<exists>t. last_auto_hup (tracker (fst acc)) = Some t \<and> h \<le> t))"

lemma watch_tick_ok:
  assumes mono: "mono (acl_clock env)" and ok: "hups_ok acc"
  shows "hups_ok (watch_tick env rec i acc)"
proof -
  obtain s hups where acc: "acc = (s, hups)" by fastforce
  obtain hup s' where r: "acl_reprobe_tick env rec (ti_ms i) (ti_snap i) (ti_cfg i) (s\<lparr>w_latch := ti_latch i\<rparr>) = (hup, s')" by fastforce
  note tick = tick_hup[OF mono r]
  show ?thesis
  proof (cases hup)
    case True
    with tick obtain now where now: "last_auto_hup (tracker s') = Some now"
      "\<And>t. last_auto_hup (tracker s) = Some t \<Longrightarrow> t + AUTO_HUP_MIN_INTERVAL \<le> now" by auto
    have "h + AUTO_HUP_MIN_INTERVAL \<le> now" if "h \<in> set hups" for h
      using ok that now(2) by (fastforce simp: hups_ok_def acc)
    then show ?thesis
      using ok now(1) True by (fastforce simp: hups_ok_def acc watch_tick_def r sorted_wrt_append)
  next
    case False
    with tick ok show ?thesis by (simp add: hups_ok_def acc watch_tick_def r)
  qed
qed

text \<open>
  C31: However the mounts flap and whatever the other parts of the interface request in between, the
  watch never asks for two recycles within ten minutes.
\<close>

theorem watch_recycles_spaced:
  assumes "mono (acl_clock env)" and "hups = snd (watch_life env rec c inps)"
  shows "sorted_wrt (\<lambda>a b. a + secs 600 \<le> b) hups"
proof -
  have "hups_ok (fold (watch_tick env rec) inps acc)" if "hups_ok acc" for acc
    using that by (induction inps arbitrary: acc) (simp_all add: watch_tick_ok[OF assms(1)])
  from this[of "(watch_start c, [])"] show ?thesis
    by (simp add: hups_ok_def watch_life_def assms(2) AUTO_HUP_MIN_INTERVAL_def)
qed

section \<open>A flip needs two equal readings\<close>

lemma track_auto_flip_iff:
  "fst (track_auto_flip b st) \<longleftrightarrow> b \<noteq> baseline st \<and> b = last_reading st \<and> 1 \<le> streak st"
  by (auto simp: track_auto_flip_def FLIP_STREAK_def count_up_def Let_def)

lemma two_readings_flip:
  assumes "b \<noteq> baseline st"
  shows "fst (track_auto_flip b (snd (track_auto_flip b st)))"
  using assms by (auto simp: track_auto_flip_def FLIP_STREAK_def count_up_def Let_def)

section \<open>What a verdict stands for\<close>

lemma looks_mono_cap:
  "cap_looks c \<le> cap_looks (snd (cached_hit env root caps d c))"
  by (auto simp: cap_now_def cached_hit_def split: option.split)

inductive cap_reach :: "acl_env \<Rightarrow> AclCapabilityCache \<Rightarrow> bool" for env where
  cap_new: "cap_reach env (new_from_env e)"
| cap_cleared: "cap_reach env c \<Longrightarrow> cap_reach env (invalidate_all c)"
| cap_asked: "cap_reach env c \<Longrightarrow> cap_reach env (snd (verdict_for_snapshot env snap p d skip force c))"

definition tool_verdict :: "acl_env \<Rightarrow> nat \<Rightarrow> FsCapabilities \<Rightarrow> string \<Rightarrow> AclProbeVerdict" where
  "tool_verdict env n caps dir = (case acl_tools env n dir of (w, r) \<Rightarrow> acl_probe_verdict caps w r)"

definition entry_true :: "acl_env \<Rightarrow> nat \<Rightarrow> CacheEntry \<Rightarrow> bool" where
  "entry_true env k e =
     (\<exists>n m. n < m \<and> m < k \<and> probed_at e = acl_clock env m
        \<and> ce_verdict e = tool_verdict env n \<lparr>fstype = ce_fstype e, mount_options = ce_options e, acl_capable = True\<rparr> (ce_probe_dir e))"

definition caps_true :: "acl_env \<Rightarrow> AclCapabilityCache \<Rightarrow> bool" where
  "caps_true env c = (\<forall>(root, e) \<in> set (cap_entries c). entry_true env (cap_looks c) e)"

lemma run_probe_verdict: "fst (run_probe env caps d c) = tool_verdict env (cap_looks c) caps d"
  by (simp add: run_probe_def tool_verdict_def)

lemma entry_true_mono: "entry_true env k e \<Longrightarrow> k \<le> k' \<Longrightarrow> entry_true env k' e"
  unfolding entry_true_def by (meson less_le_trans)

lemma caps_true_looks: "caps_true env c \<Longrightarrow> set (cap_entries c') \<subseteq> set (cap_entries c) \<Longrightarrow> cap_looks c \<le> cap_looks c' \<Longrightarrow> caps_true env c'"
  unfolding caps_true_def using entry_true_mono by fast

lemma cached_hit_true: "caps_true env c \<Longrightarrow> caps_true env (snd (cached_hit env root caps d c))"
  by (erule caps_true_looks) (auto simp: cached_hit_def cap_now_def split: option.splits)

lemma capable_eta: "acl_capable caps \<Longrightarrow> \<lparr>fstype = fstype caps, mount_options = mount_options caps, acl_capable = True\<rparr> = caps"
  by (cases caps) simp

lemma probe_store_true:
  assumes "caps_true env c" "acl_capable caps" "run_probe env caps d c = (v, c')"
  shows "caps_true env (store env root caps d v c')"
proof -
  let ?k = "cap_looks c" and ?c = "store env root caps d v c'"
  have v: "v = tool_verdict env ?k caps d" and c': "cap_entries c' = cap_entries c" "cap_looks c' = Suc ?k"
    using assms(3) by (auto simp: run_probe_def tool_verdict_def)
  have looks: "cap_looks ?c = Suc (Suc (Suc ?k))" by (simp add: store_def cap_now_def c' Let_def)
  have "entry_true env (cap_looks ?c)
      \<lparr>ce_verdict = v, ce_fstype = fstype caps, ce_options = mount_options caps, ce_probe_dir = d, probed_at = acl_clock env (Suc (Suc ?k))\<rparr>"
    unfolding entry_true_def looks using capable_eta[OF assms(2)] by (intro exI[of _ ?k] exI[of _ "Suc (Suc ?k)"]) (simp add: v)
  moreover have "set (cap_entries ?c) \<subseteq> insert (root, \<lparr>ce_verdict = v, ce_fstype = fstype caps, ce_options = mount_options caps,
      ce_probe_dir = d, probed_at = acl_clock env (Suc (Suc ?k))\<rparr>) (set (cap_entries c))"
    by (auto simp: store_def cap_now_def hm_insert_def c' Let_def)
  moreover have "entry_true env (cap_looks ?c) e" if "(rt, e) \<in> set (cap_entries c)" for rt e
  proof (rule entry_true_mono)
    show "entry_true env ?k e" using assms(1) that by (auto simp: caps_true_def)
    show "?k \<le> cap_looks ?c" by (simp add: looks)
  qed
  ultimately show ?thesis unfolding caps_true_def by fastforce
qed

lemma verdict_cached_true: "caps_true env c \<Longrightarrow> caps_true env (snd (verdict_cached env caps root d skip force c))"
proof -
  assume c: "caps_true env c"
  have probe: "caps_true env (store env rt caps d (fst (run_probe env caps d c')) (snd (run_probe env caps d c')))"
    if "caps_true env c'" "acl_capable caps" for rt c'
    using probe_store_true[OF that, of d "fst (run_probe env caps d c')" "snd (run_probe env caps d c')" rt] by simp
  have "caps_true env (snd (run_probe env caps d c))"
    using c by (rule caps_true_looks) (simp_all add: run_probe_def)
  then show ?thesis
    using c probe[OF c] probe[OF cached_hit_true[OF c]] cached_hit_true[OF c]
    by (auto simp: verdict_cached_def case_prod_beta Let_def split: option.split)
qed

lemma cap_reach_true: "cap_reach env c \<Longrightarrow> caps_true env c"
proof (induction rule: cap_reach.induct)
  case (cap_asked c snap p d skip force)
  then show ?case by (simp add: verdict_for_snapshot_def case_prod_beta verdict_cached_true)
qed (simp_all add: new_from_env_def invalidate_all_def caps_true_def)

text \<open>
  A verdict on a mount that can hold lists is never made up and never old: it is what the tools
  answered on this very file system type and these mount options, now or at a time whose stamp is
  within the life of such a verdict, and an inconclusive one concerns the directory that is asked about.
\<close>

theorem acl_verdict_is_recent:
  assumes "cap_reach env c" "acl_capable caps" "fstype caps \<noteq> ''unknown''"
    and "verdict_cached env caps (Some root) d False force c = (v, c')"
  shows "\<exists>n d'. v = tool_verdict env n caps d' \<and> (v = Inconclusive \<longrightarrow> path_components d' = path_components d)
    \<and> (cap_looks c \<le> n
       \<or> \<not> force \<and> (\<exists>m > n. acl_clock env (cap_looks c) - acl_clock env m < (if v = Inconclusive then secs 30 else cap_ttl c)))"
proof (cases "\<not> force \<and> fst (cached_hit env root caps d c) \<noteq> None")
  case True
  then obtain e where e: "map_of (cap_entries c) root = Some e" "ce_fstype e = fstype caps" "ce_options e = mount_options caps"
    "ce_verdict e = Inconclusive \<Longrightarrow> path_components (ce_probe_dir e) = path_components d" "v = ce_verdict e"
    "acl_clock env (cap_looks c) - probed_at e < ttl_for c v"
    using assms by (auto simp: verdict_cached_def cached_hit_def cap_now_def ttl_for_def split: option.splits if_splits AclProbeVerdict.splits)
  have "entry_true env (cap_looks c) e"
    using cap_reach_true[OF assms(1)] map_of_SomeD[OF e(1)] by (auto simp: caps_true_def)
  then obtain n m where "n < m" "probed_at e = acl_clock env m" "v = tool_verdict env n caps (ce_probe_dir e)"
    using e(2,3,5) capable_eta[OF assms(2)] by (auto simp: entry_true_def)
  then show ?thesis
    using e(4,5,6) True
    by (intro exI[of _ n] exI[of _ "ce_probe_dir e"]) (auto simp: ttl_for_def INCONCLUSIVE_TTL_def split: AclProbeVerdict.splits)
next
  case False
  define c1 where "c1 = (if force then c else snd (cached_hit env root caps d c))"
  have "cap_looks c \<le> cap_looks c1" using looks_mono_cap by (simp add: c1_def)
  moreover have "v = fst (run_probe env caps d c1)"
    using assms(2-4) False by (auto simp: c1_def verdict_cached_def case_prod_beta Let_def split: if_splits option.splits)
  ultimately show ?thesis using run_probe_verdict by metis
qed

section \<open>Surfaces and gates\<close>

lemma share_level_editable:
  "editable (share_level_decision acl v f) \<longleftrightarrow> (acl = Some True \<and> v \<noteq> Incapable \<or> acl = None \<and> v = Capable)"
  by (cases acl; cases "the acl"; cases v) (auto simp: share_level_decision_def off_view_def)

text \<open>
  C16: The surfaces of the interface agree with the export the generator writes: for every share the label of
  its chip says off exactly when the generator disables lists for the verdict behind it, and the
  editor is open exactly when the generator enables them and the probe has not refuted them.
\<close>

theorem acl_surfaces_agree_with_export:
  assumes "share_acl_status env snap sh c = (status, c')" "stage_a snap (serve_path_for sh) = (caps, root)"
  defines "eff \<equiv> compute_effective_flags_probed sh caps (st_verdict status)"
  shows "(state_label status \<in> {''off'', ''auto (off)''} \<longleftrightarrow> \<not> eff_enable_acl eff)
    \<and> effective_enable_acl status = eff_enable_acl eff
    \<and> (editable (share_level_decision (enable_acl sh) (st_verdict status) f) \<longleftrightarrow> eff_enable_acl eff \<and> st_verdict status \<noteq> Incapable)"
proof -
  have s: "effective_enable_acl status = eff_enable_acl eff" "state_label status = share_acl_state_label (enable_acl sh) (st_verdict status)"
    using assms(1,2) by (auto simp: eff_def share_acl_status_def verdict_for_snapshot_def case_prod_beta Let_def)
  have "share_acl_state_label (enable_acl sh) (st_verdict status) \<in> {''off'', ''auto (off)''} \<longleftrightarrow> \<not> eff_enable_acl eff"
    by (cases "enable_acl sh"; cases "the (enable_acl sh)"; cases "st_verdict status")
       (auto simp: eff_def share_acl_state_label_def compute_effective_flags_probed_def Let_def)
  moreover have "editable (share_level_decision (enable_acl sh) (st_verdict status) f) \<longleftrightarrow> eff_enable_acl eff \<and> st_verdict status \<noteq> Incapable"
    by (cases "enable_acl sh") (auto simp: share_level_editable eff_def compute_effective_flags_probed_def Let_def)
  ultimately show ?thesis using s by simp
qed

text \<open>
  The flag behind the status dot and the manifest takes the mount table for the probe: a share that asks
  for lists on a file system whose probe failed is published as serving them while its editor is closed.
\<close>

lemma manifest_ignores_failed_probe:
  assumes "share_acl_status env snap sh c = (status, c')" "stage_a snap (serve_path_for sh) = (caps, root)"
    and "enable_acl sh = Some True" "acl_capable caps" "st_verdict status = Incapable"
  shows "effective_acl_capable status \<and> \<not> editable (share_level_decision (enable_acl sh) (st_verdict status) f)"
  using assms
  by (auto simp: share_acl_status_def verdict_for_snapshot_def share_level_editable compute_effective_flags_probed_def
      case_prod_beta Let_def)

text \<open>
  C15: No edit of a single node passes the gate on a mount that cannot hold it: when the gate is open, the path
  lies under a share that serves lists, and the node is on the mount of the share or on one whose own
  probe proved support.
\<close>

theorem acl_gate_guards_submounts:
  assumes "acl_apply_gate env snap cfg p c = (view, c')" "editable view"
  shows "\<exists>sh root c1 node. best_share_for cfg p = Some sh \<and> sh \<in> set (shares cfg)
    \<and> verdict_for_snapshot env snap (serve_path_for sh) (serve_path_for sh) False False c = (root, c1)
    \<and> verdict_for_snapshot env snap (fst (node_of env cfg (serve_path_for sh) p)) (snd (node_of env cfg (serve_path_for sh) p)) False False c1 = (node, c')
    \<and> eff_enable_acl (compute_effective_flags_probed sh (po_caps root) (po_verdict root)) \<and> po_verdict root \<noteq> Incapable
    \<and> (po_mount_root node = po_mount_root root \<or> po_verdict node = Capable)"
proof -
  obtain sh where sh: "best_share_for cfg p = Some sh"
    using assms by (cases "best_share_for cfg p") (auto simp: acl_apply_gate_def gate_outside_shares_def)
  from max_by_key_Some[OF this[unfolded best_share_for_def]] have mem: "sh \<in> set (shares cfg)"
    by (metis (no_types, lifting) filter_is_subset in_set_conv_decomp subsetD)
  let ?skip = "enable_acl sh = Some False" and ?serve = "serve_path_for sh"
  obtain root c1 where root: "verdict_for_snapshot env snap ?serve ?serve ?skip False c = (root, c1)" by fastforce
  obtain node c2 where node: "verdict_for_snapshot env snap (fst (node_of env cfg ?serve p)) (snd (node_of env cfg ?serve p)) ?skip False c1 = (node, c2)"
    by fastforce
  have view: "view = acl_capability_decision (enable_acl sh) (po_verdict root)
      (if po_mount_root node \<noteq> po_mount_root root then Some (po_verdict node) else None)
      (unwrap_or (share_fs_warning_message_snapshot sh snap) [])" and c': "c' = c2"
    using assms(1) sh root node by (auto simp: acl_apply_gate_def case_prod_beta Let_def)
  from assms(2) have share: "editable (share_level_decision (enable_acl sh) (po_verdict root) (join_warning (unwrap_or (share_fs_warning_message_snapshot sh snap) [])))"
    and own: "po_mount_root node = po_mount_root root \<or> po_verdict node = Capable"
    unfolding view acl_capability_decision_def Let_def
    by (auto simp: off_view_def split: if_splits option.splits AclProbeVerdict.splits)
  from share have "\<not> ?skip" "po_verdict root \<noteq> Incapable"
    "eff_enable_acl (compute_effective_flags_probed sh (po_caps root) (po_verdict root))"
    by (auto simp: share_level_editable compute_effective_flags_probed_def Let_def)
  with sh mem root node own c' show ?thesis by auto
qed

section \<open>Witnesses\<close>

definition sample_mounts :: string where
  "sample_mounts = ''36 35 0:59 / /export rw,relatime - ext4 /dev/sda1 rw''"

definition sample_share :: Share where
  "sample_share = default_share\<lparr>name := ''data'', host_path := ''/srv/data'', container_path := ''/export/data''\<rparr>"

definition sample_acl :: "bool option \<Rightarrow> acl_env" where
  "sample_acl answer = \<lparr>acl_clock = (\<lambda>n. secs n), acl_tools = (\<lambda>_ _. (answer, None)), acl_is_dir = (\<lambda>_. True)\<rparr>"

definition sample_share_cfg :: NfsKlldapConfig where
  "sample_share_cfg = default_config\<lparr>shares := [sample_share]\<rparr>"

definition empty_caps :: AclCapabilityCache where
  "empty_caps = new_from_env (\<lambda>_. None)"

lemma empty_caps_reach: "cap_reach env empty_caps"
  unfolding empty_caps_def by (rule cap_new)

definition ext4 :: FsCapabilities where
  "ext4 = \<lparr>fstype = ''ext4'', mount_options = [''rw''], acl_capable = True\<rparr>"

lemma sample_stage:
  "stage_a (Some sample_mounts) ''/export/data'' = (ext4, Some ''/export'')"
  "stage_a (Some sample_mounts) ''/export/data/x'' = (ext4, Some ''/export'')"
  by code_simp+

lemma sample_paths:
  "best_share_for sample_share_cfg ''/srv/data/x'' = Some sample_share"
  "serve_path_for sample_share = ''/export/data''"
  "node_of (sample_acl (Some True)) sample_share_cfg ''/export/data'' ''/srv/data/x'' = (''/export/data/x'', ''/export/data/x'')"
  "enable_acl sample_share = None"
  by code_simp+

definition probed_caps :: AclCapabilityCache where
  "probed_caps =
     \<lparr>cap_entries = [(''/export'', \<lparr>ce_verdict = Capable, ce_fstype = ''ext4'', ce_options = [''rw''], ce_probe_dir = ''/export/data'',
        probed_at = secs 2\<rparr>)], cap_ttl = secs 300, cap_looks = 3, probes_run = [''/export/data'']\<rparr>"

lemma sample_verdicts:
  "verdict_cached (sample_acl (Some True)) ext4 (Some ''/export'') ''/export/data'' False False empty_caps = (Capable, probed_caps)"
  "verdict_cached (sample_acl (Some True)) ext4 (Some ''/export'') ''/export/data/x'' False False probed_caps
     = (Capable, probed_caps\<lparr>cap_looks := 4\<rparr>)"
  by (simp_all add: verdict_cached_def ext4_def cached_hit_def empty_caps_def new_from_env_def run_probe_def sample_acl_def
      acl_probe_verdict_def store_def cap_now_def hm_insert_def probed_caps_def DEFAULT_TTL_SECS_def ttl_for_def secs_def)

lemma sample_outcomes:
  "verdict_for_snapshot (sample_acl (Some True)) (Some sample_mounts) ''/export/data'' ''/export/data'' False False empty_caps
     = (\<lparr>po_caps = ext4, po_mount_root = Some ''/export'', po_verdict = Capable\<rparr>, probed_caps)"
  "verdict_for_snapshot (sample_acl (Some True)) (Some sample_mounts) ''/export/data/x'' ''/export/data/x'' False False probed_caps
     = (\<lparr>po_caps = ext4, po_mount_root = Some ''/export'', po_verdict = Capable\<rparr>, probed_caps\<lparr>cap_looks := 4\<rparr>)"
  by (simp_all add: verdict_for_snapshot_def sample_stage sample_verdicts)

theorem acl_gate_guards_submounts_witness:
  "\<exists>sh root c1 node c'. best_share_for sample_share_cfg ''/srv/data/x'' = Some sh \<and> sh \<in> set (shares sample_share_cfg)
    \<and> verdict_for_snapshot (sample_acl (Some True)) (Some sample_mounts) (serve_path_for sh) (serve_path_for sh) False False empty_caps = (root, c1)
    \<and> verdict_for_snapshot (sample_acl (Some True)) (Some sample_mounts)
        (fst (node_of (sample_acl (Some True)) sample_share_cfg (serve_path_for sh) ''/srv/data/x''))
        (snd (node_of (sample_acl (Some True)) sample_share_cfg (serve_path_for sh) ''/srv/data/x'')) False False c1 = (node, c')
    \<and> po_verdict root \<noteq> Incapable \<and> (po_mount_root node = po_mount_root root \<or> po_verdict node = Capable)"
proof -
  let ?gate = "acl_apply_gate (sample_acl (Some True)) (Some sample_mounts) sample_share_cfg ''/srv/data/x'' empty_caps"
  have "editable (fst ?gate)"
    by (simp add: acl_apply_gate_def sample_paths sample_outcomes acl_capability_decision_def share_level_decision_def)
  moreover have "?gate = (fst ?gate, snd ?gate)" by simp
  ultimately show ?thesis using acl_gate_guards_submounts by blast
qed

theorem acl_surfaces_agree_with_export_witness:
  "state_label (fst (share_acl_status (sample_acl (Some True)) (Some sample_mounts) sample_share empty_caps)) = ''auto (on)''
   \<and> effective_enable_acl (fst (share_acl_status (sample_acl (Some True)) (Some sample_mounts) sample_share empty_caps))"
proof -
  let ?st = "share_acl_status (sample_acl (Some True)) (Some sample_mounts) sample_share empty_caps"
  have st: "state_label (fst ?st) = ''auto (on)''"
    by (simp add: share_acl_status_def sample_paths sample_outcomes share_acl_state_label_def Let_def)
  have "?st = (fst ?st, snd ?st)" "stage_a (Some sample_mounts) (serve_path_for sample_share) = (ext4, Some ''/export'')"
    by (simp_all add: sample_paths sample_stage)
  from acl_surfaces_agree_with_export[OF this] st show ?thesis by simp
qed

theorem acl_verdict_is_recent_witness:
  "\<exists>n d'. Capable = tool_verdict (sample_acl (Some True)) n ext4 d'
    \<and> (cap_looks empty_caps \<le> n
       \<or> (\<exists>m > n. acl_clock (sample_acl (Some True)) (cap_looks empty_caps) - acl_clock (sample_acl (Some True)) m < cap_ttl empty_caps))"
proof -
  have "acl_capable ext4" "fstype ext4 \<noteq> ''unknown''" by (simp_all add: ext4_def)
  from acl_verdict_is_recent[OF empty_caps_reach this sample_verdicts(1)] show ?thesis by auto
qed

definition sample_ticks :: "tick_input list" where
  "sample_ticks = map (\<lambda>n. \<lparr>ti_latch = idle_latch, ti_ms = 180000 * n, ti_snap = Some sample_mounts, ti_cfg = sample_share_cfg\<rparr>) [1, 2, 3]"

theorem watch_recycles_spaced_witness:
  "mono (acl_clock (sample_acl (Some True)))
   \<and> sorted_wrt (\<lambda>a b. a + secs 600 \<le> b) (snd (watch_life (sample_acl (Some True)) sample_recycle empty_caps sample_ticks))"
proof -
  have "mono (acl_clock (sample_acl (Some True)))" by (simp add: sample_acl_def secs_def mono_def)
  from watch_recycles_spaced[OF this refl] this show ?thesis by blast
qed

text \<open>
  One entry per mount: two shares on one mount whose probes stay inconclusive push each other out, so that
  every request for the manifest, which asks for no session, runs both probes again.
\<close>

lemma inconclusive_entry_other_dir:
  assumes "map_of (cap_entries c) root = Some e" "ce_verdict e = Inconclusive" "path_components (ce_probe_dir e) \<noteq> path_components d"
    and "acl_capable caps" "fstype caps \<noteq> ''unknown''"
  shows "probes_run (snd (verdict_cached env caps (Some root) d False False c)) = probes_run c @ [d]"
  using assms by (simp add: verdict_cached_def cached_hit_def run_probe_def store_def cap_now_def case_prod_beta Let_def)

lemma stored_entry:
  assumes "acl_capable caps" "fstype caps \<noteq> ''unknown''" "fst (verdict_cached env caps (Some root) d False False c) = Inconclusive"
  shows "\<exists>e. map_of (cap_entries (snd (verdict_cached env caps (Some root) d False False c))) root = Some e
    \<and> ce_verdict e = Inconclusive \<and> path_components (ce_probe_dir e) = path_components d"
  using assms
  by (auto simp: verdict_cached_def cached_hit_def run_probe_def store_def cap_now_def hm_insert_def case_prod_beta Let_def
      split: option.splits if_splits)

lemma inconclusive_pair_reprobes:
  assumes caps: "acl_capable caps" "fstype caps \<noteq> ''unknown''" and dirs: "path_components a \<noteq> path_components b"
    and tools: "\<And>n d. acl_tools env n d = (None, None)"
    and c: "map_of (cap_entries c) root = Some e" "ce_verdict e = Inconclusive" "path_components (ce_probe_dir e) = path_components b"
  defines "ca \<equiv> snd (verdict_cached env caps (Some root) a False False c)"
  shows "probes_run (snd (verdict_cached env caps (Some root) b False False ca)) = probes_run c @ [a, b]"
proof -
  have "fst (verdict_cached env caps (Some root) a False False c) = Inconclusive"
    using assms by (simp add: verdict_cached_def cached_hit_def run_probe_def acl_probe_verdict_def case_prod_beta Let_def)
  from stored_entry[OF caps this] obtain e' where "map_of (cap_entries ca) root = Some e'" "ce_verdict e' = Inconclusive"
    "path_components (ce_probe_dir e') = path_components a" unfolding ca_def by blast
  from inconclusive_entry_other_dir[OF this(1,2) _ caps, of b env] this(3) dirs
  have "probes_run (snd (verdict_cached env caps (Some root) b False False ca)) = probes_run ca @ [b]" by simp
  moreover have "probes_run ca = probes_run c @ [a]"
    unfolding ca_def using inconclusive_entry_other_dir[OF c(1,2) _ caps, of a env] c(3) dirs by simp
  ultimately show ?thesis by simp
qed

end
