(* ===== verification/Resolver_Laws.thy ===== *)
theory Resolver_Laws
  imports Ldap_Resolver
begin

text \<open>
  Laws of the LDAP resolver. A predicate that every primitive effect keeps is kept by every
  operation (\<open>resolver_invariant\<close>); its instances bound the connection pool and the age of what
  is answered from a cache. A miss is remembered, and a bulk load leaves nothing old behind.
\<close>

section \<open>Invariants\<close>

locale resolver_invariant =
  fixes env :: ldap_env and P :: "IdLdapResolver \<Rightarrow> bool"
  assumes clock: "P r \<Longrightarrow> P (snd (read_clock env r))"
    and hits: "P r \<Longrightarrow> P (hit r)"
    and misses: "P r \<Longrightarrow> P (miss r)"
    and evict: "P r \<Longrightarrow> P (evict_expired env r)"
    and clear: "P r \<Longrightarrow> P (clear_caches r)"
    and marked: "P r \<Longrightarrow> P (mark_negative env k r)"
    and take: "P r \<Longrightarrow> P (snd (take_pooled_conn env dn r))"
    and store: "P r \<Longrightarrow> P (store_pooled_conn env dn r)"
    and tried: "P r \<Longrightarrow> P (r\<lparr>l_looks := Suc (l_looks r), attempts_made := a # attempts_made r\<rparr>)"
    and bind: "P r \<Longrightarrow> P (count_bind b r)"
    and user: "P r \<Longrightarrow> P (store_user env nm u g d r)"
    and aliased: "P r \<Longrightarrow> P (store_alias env nm u pg d r)"
    and grp: "P r \<Longrightarrow> P (store_group env nm u d ms r)"
    and dngid: "P r \<Longrightarrow> P (store_dn_gid env nm g r)"
    and memberof: "P r \<Longrightarrow> P (store_memberof env nm d ms r)"
begin

lemma keeps_attempts: "P r \<Longrightarrow> P (snd (search_attempts env dn base flt attrs n r))"
proof (induction "3 - n" arbitrary: n r rule: less_induct)
  case less
  show ?case
  proof (cases "n \<ge> 3")
    case False
    obtain reused r1 where t: "take_pooled_conn env dn r = (reused, r1)" by fastforce
    define r2 where "r2 = r1\<lparr>l_looks := Suc (l_looks r1), attempts_made := (reused, base, flt) # attempts_made r1\<rparr>"
    have "P r2" unfolding r2_def using take [OF less.prems, of dn] t by (simp add: tried)
    then have P2: "P (count_bind b r2)" for b by (rule bind)
    show ?thesis
      using False less.hyps [of "Suc n"] P2
      by (subst search_attempts.simps) (simp add: t Let_def r2_def [symmetric] store split: attempt.split)
  qed (use less.prems in \<open>simp add: search_attempts.simps\<close>)
qed

lemma keeps_search: "service_search env dn base flt attrs r = (out, r') \<Longrightarrow> P r \<Longrightarrow> P r'"
  using keeps_attempts [of r dn base flt attrs 0] unfolding service_search_def by simp

lemma keeps_negative_hit: "negative_hit env k r = (b, r') \<Longrightarrow> P r \<Longrightarrow> P r'"
  using clock [of r] by (auto simp: negative_hit_def split: option.splits prod.splits)

lemma keeps_cached_dn_gid: "cached_dn_gid env k r = (b, r') \<Longrightarrow> P r \<Longrightarrow> P r'"
  using clock [of r] by (auto simp: cached_dn_gid_def split: option.splits prod.splits)

lemma keeps_cached_memberof: "cached_memberof env k r = (b, r') \<Longrightarrow> P r \<Longrightarrow> P r'"
  using clock [of r] by (auto simp: cached_memberof_def split: option.splits prod.splits)

lemma keeps_name_pass: "name_pass env dn nm flt attrs bases r = (out, r') \<Longrightarrow> P r \<Longrightarrow> P r'"
  by (induction bases arbitrary: r) (force split: prod.splits sum.splits option.splits intro: keeps_search user)+

lemma keeps_principal_pass: "principal_pass env dn nm flt attrs bases r = (out, r') \<Longrightarrow> P r \<Longrightarrow> P r'"
  by (induction bases arbitrary: r) (force split: prod.splits sum.splits option.splits intro: keeps_search user)+

lemmas keeps = keeps_search keeps_negative_hit keeps_cached_dn_gid keeps_cached_memberof keeps_name_pass keeps_principal_pass

lemmas primitive = clock hits misses evict clear marked take store bind user aliased grp dngid memberof

lemma keeps_resolve_user: "resolve_user env dn nm r = (out, r') \<Longrightarrow> P r \<Longrightarrow> P r'"
  unfolding resolve_user_def Let_def
  by (fastforce split: option.splits prod.splits bool.splits sum.splits if_splits intro: keeps primitive)

lemma keeps_resolve_user_by_uid: "resolve_user_by_uid env dn u r = (out, r') \<Longrightarrow> P r \<Longrightarrow> P r'"
  unfolding resolve_user_by_uid_def Let_def
  by (fastforce split: option.splits prod.splits bool.splits sum.splits if_splits intro: keeps primitive)

lemma keeps_resolve_group: "resolve_group env dn nm r = (out, r') \<Longrightarrow> P r \<Longrightarrow> P r'"
  unfolding resolve_group_def Let_def
  by (fastforce split: option.splits prod.splits bool.splits sum.splits if_splits intro: keeps primitive)

lemma keeps_resolve_group_by_gid: "resolve_group_by_gid env dn g r = (out, r') \<Longrightarrow> P r \<Longrightarrow> P r'"
  unfolding resolve_group_by_gid_def Let_def
  by (fastforce split: option.splits prod.splits bool.splits sum.splits if_splits intro: keeps primitive)

lemma keeps_group_gid_from_dn: "group_gid_from_dn env dn gdn r = (out, r') \<Longrightarrow> P r \<Longrightarrow> P r'"
  unfolding group_gid_from_dn_def Let_def
  by (fastforce split: option.splits prod.splits intro: keeps primitive)

lemma keeps_lookup: "lookup_user_dn_and_memberof env dn nm r = (out, r') \<Longrightarrow> P r \<Longrightarrow> P r'"
  unfolding lookup_user_dn_and_memberof_def Let_def
  by (fastforce split: option.splits prod.splits bool.splits sum.splits list.splits intro: keeps primitive)

lemma keeps_snapshot: "snapshot env r = (out, r') \<Longrightarrow> P r \<Longrightarrow> P r'"
  by (auto simp: snapshot_def Let_def intro: evict)

lemma keeps_memberofs_of: "memberofs_of env dn nm r = (out, r') \<Longrightarrow> P r \<Longrightarrow> P r'"
  unfolding memberofs_of_def by (fastforce split: option.splits prod.splits if_splits intro: keeps_lookup)

lemma keeps_gids_of_dns: "gids_of_dns env dn gdns gids r = (out, r') \<Longrightarrow> P r \<Longrightarrow> P r'"
  by (induction gdns arbitrary: gids r) (force split: prod.splits option.splits intro: keeps_group_gid_from_dn)+

lemma keeps_resolve_groups: "resolve_groups_for_principal env dn nm r = (out, r') \<Longrightarrow> P r \<Longrightarrow> P r'"
  unfolding resolve_groups_for_principal_def Let_def
  by (fastforce split: if_splits prod.splits option.splits
      intro: keeps_snapshot keeps_resolve_user keeps_memberofs_of keeps_gids_of_dns)

lemma keeps_load_user: "load_user env pa se (n, r) = (n', r') \<Longrightarrow> P r \<Longrightarrow> P r'"
  unfolding load_user_def Let_def by (auto split: if_splits option.splits intro: primitive)

lemma keeps_load_users: "fold (load_user env pa) entries (n, r) = (n', r') \<Longrightarrow> P r \<Longrightarrow> P r'"
proof (induction entries arbitrary: n r)
  case (Cons se entries)
  then show ?case by (cases "load_user env pa se (n, r)") (auto dest: keeps_load_user)
qed simp

lemma keeps_load_users_from: "load_users_from env dn pa base (n, r) = (n', r') \<Longrightarrow> P r \<Longrightarrow> P r'"
  unfolding load_users_from_def by (auto split: prod.splits sum.splits intro: keeps_search keeps_load_users)

lemma keeps_load_groups: "P r \<Longrightarrow> P (fold (load_group env pa) entries r)"
  by (induction entries arbitrary: r) (auto simp: load_group_def Let_def split: option.splits prod.splits intro: grp)

lemma keeps_load_groups_from: "P r \<Longrightarrow> P (load_groups_from env dn pa base r)"
  unfolding load_groups_from_def by (auto split: prod.splits sum.splits intro: keeps_search keeps_load_groups)

lemma keeps_bulk_users: "fold (load_users_from env dn pa) bases (n, r) = (n', r') \<Longrightarrow> P r \<Longrightarrow> P r'"
proof (induction bases arbitrary: n r)
  case (Cons base bases)
  then show ?case by (cases "load_users_from env dn pa base (n, r)") (auto dest: keeps_load_users_from)
qed simp

lemma keeps_bulk_groups: "P r \<Longrightarrow> P (fold (load_groups_from env dn pa) bases r)"
  by (induction bases arbitrary: r) (simp_all add: keeps_load_groups_from)

lemma keeps_load_from: "load_full_identities env dn r = (n, r') \<Longrightarrow> P (clear_caches r) \<Longrightarrow> P r'"
  unfolding load_full_identities_def Let_def
  by (auto split: prod.splits intro: keeps_bulk_users keeps_bulk_groups)

lemma keeps_load_full: "load_full_identities env dn r = (n, r') \<Longrightarrow> P r \<Longrightarrow> P r'"
  by (rule keeps_load_from) (auto intro: clear)

lemma keeps_lists:
  "search_list_users env dn limit r = (rows, r') \<Longrightarrow> P r \<Longrightarrow> P r'"
  "search_list_groups env dn limit r = (rows, r') \<Longrightarrow> P r \<Longrightarrow> P r'"
  "lookup_group_dn env dn nm r = (found, r') \<Longrightarrow> P r \<Longrightarrow> P r'"
  "user_dn_memberof_check env dn udn gdn r = (chk, r') \<Longrightarrow> P r \<Longrightarrow> P r'"
  by (auto simp: search_list_users_def search_list_groups_def search_list_posix_def lookup_group_dn_def lookup_first_dn_def
      user_dn_memberof_check_def Let_def split: prod.splits sum.splits list.splits intro: keeps_search)

lemmas keeps_ops = keeps_resolve_user keeps_resolve_user_by_uid keeps_resolve_group keeps_resolve_group_by_gid
  keeps_resolve_groups keeps_lookup keeps_snapshot keeps_load_full keeps_lists

end

text \<open>The states a resolver can be in: any sequence of its operations, under any bind names.\<close>

inductive resolver_reach :: "ldap_env \<Rightarrow> IdLdapResolver \<Rightarrow> bool" for env where
  reach_new: "resolver_reach env (resolver_new ub gb pa)"
| reach_user: "resolver_reach env r \<Longrightarrow> resolve_user env dn nm r = (out, r') \<Longrightarrow> resolver_reach env r'"
| reach_uid: "resolver_reach env r \<Longrightarrow> resolve_user_by_uid env dn u r = (out', r') \<Longrightarrow> resolver_reach env r'"
| reach_group: "resolver_reach env r \<Longrightarrow> resolve_group env dn nm r = (gout, r') \<Longrightarrow> resolver_reach env r'"
| reach_gid: "resolver_reach env r \<Longrightarrow> resolve_group_by_gid env dn g r = (gout', r') \<Longrightarrow> resolver_reach env r'"
| reach_groups: "resolver_reach env r \<Longrightarrow> resolve_groups_for_principal env dn nm r = (gids, r') \<Longrightarrow> resolver_reach env r'"
| reach_memberof: "resolver_reach env r \<Longrightarrow> lookup_user_dn_and_memberof env dn nm r = (mo, r') \<Longrightarrow> resolver_reach env r'"
| reach_snapshot: "resolver_reach env r \<Longrightarrow> snapshot env r = (snap, r') \<Longrightarrow> resolver_reach env r'"
| reach_load: "resolver_reach env r \<Longrightarrow> load_full_identities env dn r = (n, r') \<Longrightarrow> resolver_reach env r'"
| reach_users: "resolver_reach env r \<Longrightarrow> search_list_users env dn limit r = (rows, r') \<Longrightarrow> resolver_reach env r'"
| reach_grouplist: "resolver_reach env r \<Longrightarrow> search_list_groups env dn limit r = (rows, r') \<Longrightarrow> resolver_reach env r'"
| reach_group_dn: "resolver_reach env r \<Longrightarrow> lookup_group_dn env dn nm r = (found, r') \<Longrightarrow> resolver_reach env r'"
| reach_check: "resolver_reach env r \<Longrightarrow> user_dn_memberof_check env dn udn gdn r = (chk, r') \<Longrightarrow> resolver_reach env r'"
| reach_clear: "resolver_reach env r \<Longrightarrow> resolver_reach env (clear_caches r)"

context resolver_invariant
begin

lemma reachable:
  assumes "resolver_reach env r" and "\<And>ub gb pa. P (resolver_new ub gb pa)"
  shows "P r"
  using assms by (induction rule: resolver_reach.induct) (auto dest: keeps_ops intro: clear)

end

section \<open>The pool\<close>

definition pool_ok :: "IdLdapResolver \<Rightarrow> bool" where
  "pool_ok r = (length (conn_pool r) \<le> POOL_MAX_CONNS)"

lemmas primitive_defs = read_clock_def hit_def miss_def evict_expired_def clear_caches_def mark_negative_def
  take_pooled_conn_def store_pooled_conn_def count_bind_def store_user_def store_alias_def store_group_def
  store_dn_gid_def store_memberof_def

interpretation pool: resolver_invariant env pool_ok for env
proof
  show "pool_ok r \<Longrightarrow> pool_ok (snd (take_pooled_conn env dn r))" for r dn
    by (auto simp: pool_ok_def take_pooled_conn_def read_clock_def Let_def intro: le_trans [OF diff_le_self] le_trans [OF length_filter_le])
qed (auto simp: pool_ok_def primitive_defs Let_def POOL_MAX_CONNS_def)

text \<open>
  Whatever a resolver is asked, it never holds more than four connections to the directory.
\<close>

theorem pool_bounded:
  assumes "resolver_reach env r"
  shows "length (conn_pool r) \<le> POOL_MAX_CONNS"
  using pool.reachable [OF assms] by (simp add: pool_ok_def resolver_new_def)

section \<open>Keys are unique\<close>

definition keys_ok :: "IdLdapResolver \<Rightarrow> bool" where
  "keys_ok r =
     (distinct (map fst (user_cache r)) \<and> distinct (map fst (group_cache r)) \<and> distinct (map fst (user_by_uid_cache r))
      \<and> distinct (map fst (group_by_gid_cache r)) \<and> distinct (map fst (group_gid_by_dn_cache r))
      \<and> distinct (map fst (memberof_cache r)) \<and> distinct (map fst (negative_cache r)))"

lemma distinct_hm_insert: "distinct (map fst m) \<Longrightarrow> distinct (map fst (hm_insert k v m))"
  by (auto simp: hm_insert_def distinct_map_filter)

interpretation keys: resolver_invariant env keys_ok for env
  by unfold_locales (auto simp: keys_ok_def primitive_defs Let_def distinct_hm_insert distinct_map_filter)

lemma keys_reach: "resolver_reach env r \<Longrightarrow> keys_ok r"
  by (rule keys.reachable) (auto simp: keys_ok_def resolver_new_def)

section \<open>The age of an answer\<close>

text \<open>Since the last sweep no entry that was expired then has been kept.\<close>

definition swept :: "ldap_env \<Rightarrow> IdLdapResolver \<Rightarrow> bool" where
  "swept env r =
     (case last_evict r of
        None \<Rightarrow> True
      | Some t \<Rightarrow> t \<le> l_clock env (l_looks r) \<and> (\<forall>(k, cu) \<in> set (user_cache r). t < cu_fetched_at cu + IDENTITY_CACHE_TTL))"

lemma set_hm_insert: "set (hm_insert k v m) \<subseteq> insert (k, v) (set m)"
  by (auto simp: hm_insert_def)

lemma swept_invariant: "mono (l_clock env) \<Longrightarrow> resolver_invariant env (swept env)"
proof
  assume mono: "mono (l_clock env)"
  have step: "l_clock env i \<le> l_clock env (Suc i)" for i using mono by (simp add: monoD)
  have ttl: "0 < IDENTITY_CACHE_TTL" by (simp add: IDENTITY_CACHE_TTL_def secs_def)
  fix r
  assume s: "swept env r"
  have next_look: "swept env (r\<lparr>l_looks := Suc (l_looks r)\<rparr>)"
    using s step [of "l_looks r"] by (auto simp: swept_def split: option.splits)
  show "swept env (evict_expired env r)"
  proof (cases "case last_evict r of None \<Rightarrow> False | Some t \<Rightarrow> l_clock env (l_looks r) - t < EVICT_INTERVAL")
    case False
    have "now - f < IDENTITY_CACHE_TTL \<Longrightarrow> now < f + IDENTITY_CACHE_TTL" for now f using ttl by linarith
    with False step [of "l_looks r"] show ?thesis by (simp add: swept_def evict_expired_def read_clock_def)
  qed (use next_look in \<open>simp add: evict_expired_def read_clock_def\<close>)
  show "swept env (store_user env nm u g d r)" "swept env (store_alias env nm u pg d r)" for nm u g d pg
    using s step [of "l_looks r"] ttl
    by (auto simp: store_user_def store_alias_def read_clock_def Let_def swept_def split: option.splits
        dest!: set_hm_insert [THEN subsetD])
  show "swept env (snd (read_clock env r))" "swept env (hit r)" "swept env (miss r)" "swept env (clear_caches r)"
    "swept env (mark_negative env k r)" "swept env (snd (take_pooled_conn env dn r))" "swept env (store_pooled_conn env dn r)"
    "swept env (r\<lparr>l_looks := Suc (l_looks r), attempts_made := a # attempts_made r\<rparr>)" "swept env (count_bind b r)"
    "swept env (store_group env nm u d ms r)" "swept env (store_dn_gid env nm g r)" "swept env (store_memberof env nm d ms r)"
    for k dn a b nm u d ms g
    using s next_look by (auto simp: primitive_defs swept_def Let_def split: option.splits)
qed

lemma swept_reach: "mono (l_clock env) \<Longrightarrow> resolver_reach env r \<Longrightarrow> swept env r"
  by (rule resolver_invariant.reachable [OF swept_invariant]) (auto simp: swept_def resolver_new_def)

text \<open>Every operation that asks the directory leaves a trace of it.\<close>

lemma attempts_grow:
  "length (attempts_made r) + (if n < 3 then 1 else 0) \<le> length (attempts_made (snd (search_attempts env dn base flt attrs n r)))"
proof (induction "3 - n" arbitrary: n r rule: less_induct)
  case less
  show ?case
  proof (cases "n \<ge> 3")
    case False
    obtain reused r1 where t: "take_pooled_conn env dn r = (reused, r1)" by fastforce
    then have r1: "attempts_made r1 = attempts_made r" by (auto simp: take_pooled_conn_def read_clock_def Let_def)
    have frame: "attempts_made (store_pooled_conn env dn x) = attempts_made x" "attempts_made (count_bind b x) = attempts_made x" for x b
      by (simp_all add: store_pooled_conn_def count_bind_def read_clock_def)
    define r2 where "r2 = r1\<lparr>l_looks := Suc (l_looks r1), attempts_made := (reused, base, flt) # attempts_made r1\<rparr>"
    have r2: "length (attempts_made r2) = Suc (length (attempts_made r))" by (simp add: r2_def r1)
    have ih: "Suc (length (attempts_made r)) \<le> length (attempts_made (snd (search_attempts env dn base flt attrs (Suc n) (count_bind b r2))))" for b
    proof -
      have "3 - Suc n < 3 - n" using False by simp
      from less.hyps [OF this, of "count_bind b r2"] show ?thesis by (simp add: frame r2 split: if_splits)
    qed
    show ?thesis
      using False ih by (subst search_attempts.simps) (simp add: t Let_def r2_def [symmetric] frame r2 split: attempt.split)
  qed (simp add: search_attempts.simps)
qed

lemma search_traced: "service_search env dn base flt attrs r = (out, r') \<Longrightarrow> length (attempts_made r) < length (attempts_made r')"
  using attempts_grow [of r 0 env dn base flt attrs] by (auto simp: service_search_def)

lemma name_pass_traced:
  "name_pass env dn nm flt attrs bases r = (out, r') \<Longrightarrow> length (attempts_made r) + (if bases = [] then 0 else 1) \<le> length (attempts_made r')"
proof (induction bases arbitrary: r)
  case (Cons base bases)
  have "attempts_made (store_user env n u g d x) = attempts_made x" for n u g d x by (simp add: store_user_def read_clock_def Let_def)
  with Cons show ?case by (fastforce dest: search_traced split: prod.splits sum.splits option.splits)
qed simp

lemma principal_pass_traced:
  "principal_pass env dn nm flt attrs bases r = (out, r') \<Longrightarrow> length (attempts_made r) \<le> length (attempts_made r')"
proof (induction bases arbitrary: r)
  case (Cons base bases)
  have "attempts_made (store_user env n u g d x) = attempts_made x" for n u g d x by (simp add: store_user_def read_clock_def Let_def)
  with Cons show ?case by (fastforce dest: search_traced split: prod.splits sum.splits option.splits)
qed simp

lemma search_bases_not_Nil [simp]: "search_bases b \<noteq> []"
  by (simp add: search_bases_def)

lemma negative_hit_frame:
  "negative_hit env k r = (b, r') \<Longrightarrow> r' = r\<lparr>l_looks := l_looks r'\<rparr> \<and> l_looks r \<le> l_looks r'"
  by (auto simp: negative_hit_def read_clock_def split: option.splits)

lemma evict_frame [simp]:
  "attempts_made (evict_expired env r) = attempts_made r" "posix_attributes (evict_expired env r) = posix_attributes r"
  "user_base (evict_expired env r) = user_base r" "l_looks (evict_expired env r) = Suc (l_looks r)"
  by (simp_all add: evict_expired_def read_clock_def)

text \<open>
  A user answered without asking the directory is an entry of the cache that was read from
  the directory less than ten minutes and five seconds ago: the lifetime of an entry plus the
  interval between two sweeps bounds how long a removed or changed user can still be served.
\<close>

theorem cached_user_is_recent:
  assumes "mono (l_clock env)" and "resolver_reach env r"
    and "resolve_user env dn nm r = (Some x, r')" and "attempts_made r' = attempts_made r"
  shows "\<exists>cu. (nm, cu) \<in> set (user_cache r') \<and> uid_number cu = Some (fst x)
           \<and> l_clock env (l_looks r) < cu_fetched_at cu + IDENTITY_CACHE_TTL + EVICT_INTERVAL"
proof -
  define r1 where "r1 = evict_expired env r"
  have "user_hit nm r1 \<noteq> None"
  proof
    assume n: "user_hit nm r1 = None"
    have "length (attempts_made r) < length (attempts_made r')" if "negative_hit env (''u:'' @ nm) (miss r1) = (False, r2)" for r2
    proof -
      have "attempts_made r2 = attempts_made r" using negative_hit_frame [OF that] by (cases r2) (auto simp: miss_def r1_def)
      then show ?thesis
        using assms(3) n that
        by (auto simp: resolve_user_def Let_def r1_def [symmetric]
            split: prod.splits sum.splits option.splits if_splits dest!: name_pass_traced principal_pass_traced)
    qed
    then show False
      using assms(3,4) n by (auto simp: resolve_user_def Let_def r1_def [symmetric] split: prod.splits bool.splits)
  qed
  then obtain cu u where hit: "map_of (user_cache r1) nm = Some cu" "uid_number cu = Some u"
    by (auto simp: user_hit_def bind_eq_Some_conv)
  then have x: "x = (u, primary_gid cu, cu_display cu)" "r' = Ldap_Resolver.hit r1"
    using assms(3) by (auto simp: resolve_user_def Let_def r1_def [symmetric] user_hit_def)
  have in1: "(nm, cu) \<in> set (user_cache r1)" using hit(1) by (rule map_of_SomeD)
  have "l_clock env (l_looks r) < cu_fetched_at cu + IDENTITY_CACHE_TTL + EVICT_INTERVAL"
    using swept_reach [OF assms(1,2)] in1
    by (auto simp: r1_def evict_expired_def read_clock_def swept_def split: option.splits if_splits)
  with x hit(2) in1 show ?thesis by (auto simp: hit_def)
qed

section \<open>Misses are remembered\<close>

text \<open>A search touches the pool, the counters and the trace, and nothing that is cached.\<close>

definition same_caches :: "IdLdapResolver \<Rightarrow> IdLdapResolver \<Rightarrow> bool" where
  "same_caches r r' =
     (user_cache r' = user_cache r \<and> negative_cache r' = negative_cache r \<and> last_evict r' = last_evict r)"

lemma same_caches_refl [simp]: "same_caches r r"
  by (simp add: same_caches_def)

lemma attempts_same: "same_caches r (snd (search_attempts env dn base flt attrs n r))"
proof (induction "3 - n" arbitrary: n r rule: less_induct)
  case less
  show ?case
  proof (cases "n \<ge> 3")
    case False
    obtain reused r1 where t: "take_pooled_conn env dn r = (reused, r1)" by fastforce
    define r2 where "r2 = r1\<lparr>l_looks := Suc (l_looks r1), attempts_made := (reused, base, flt) # attempts_made r1\<rparr>"
    have r2: "same_caches r (count_bind b r2)" "same_caches r (store_pooled_conn env dn (count_bind b r2))" for b
      using t by (auto simp: same_caches_def r2_def take_pooled_conn_def read_clock_def store_pooled_conn_def count_bind_def Let_def)
    have "3 - Suc n < 3 - n" using False by simp
    from less.hyps [OF this] r2 have "same_caches r (snd (search_attempts env dn base flt attrs (Suc n) (count_bind b r2)))" for b
      by (auto simp: same_caches_def)
    then show ?thesis
      using False r2 by (subst search_attempts.simps) (simp add: t Let_def r2_def [symmetric] split: attempt.split)
  qed (simp add: search_attempts.simps)
qed

lemma search_same: "service_search env dn base flt attrs r = (out, r') \<Longrightarrow> same_caches r r'"
  using attempts_same [of r env dn base flt attrs 0] by (simp add: service_search_def)

lemma name_pass_same: "name_pass env dn nm flt attrs bases r = (Err b, r') \<Longrightarrow> same_caches r r'"
  by (induction bases arbitrary: r) (fastforce split: prod.splits sum.splits option.splits dest: search_same simp: same_caches_def)+

lemma principal_pass_same: "principal_pass env dn nm flt attrs bases r = (None, r') \<Longrightarrow> same_caches r r'"
  by (induction bases arbitrary: r) (fastforce split: prod.splits sum.splits option.splits dest: search_same simp: same_caches_def)+

lemma resolve_user_miss:
  assumes "resolve_user env dn nm r = (None, r1)" and "attempts_made r1 \<noteq> attempts_made r"
  shows "\<exists>r0. r1 = mark_negative env (''u:'' @ nm) r0 \<and> user_hit nm r0 = None"
proof -
  define e where "e = evict_expired env r"
  have none: "user_hit nm e = None" using assms(1) by (auto simp: resolve_user_def Let_def e_def split: option.splits)
  obtain b r2 where n: "negative_hit env (''u:'' @ nm) (miss e) = (b, r2)" by fastforce
  have same2: "attempts_made r2 = attempts_made r" "user_cache r2 = user_cache e"
    using n by (auto simp: negative_hit_def read_clock_def miss_def e_def split: option.splits)
  have "\<not> b" using assms none n same2(1) by (auto simp: resolve_user_def Let_def e_def [symmetric])
  with none n same2(2) assms(1) show ?thesis
    by (fastforce simp: resolve_user_def Let_def e_def [symmetric] user_hit_def same_caches_def
        split: prod.splits sum.splits option.splits if_splits dest!: name_pass_same principal_pass_same)
qed

lemma map_of_filter_Some: "distinct (map fst xs) \<Longrightarrow> map_of (filter P xs) k = Some v \<Longrightarrow> map_of xs k = Some v"
  by (rule map_of_is_SomeI) (auto dest: map_of_SomeD)

lemma user_hit_evict:
  assumes "keys_ok r" and "user_hit nm r = None"
  shows "user_hit nm (evict_expired env r) = None"
proof -
  have "map_of (user_cache (evict_expired env r)) nm = Some cu \<Longrightarrow> map_of (user_cache r) nm = Some cu" for cu
    using assms(1) map_of_filter_Some [of "user_cache r" _ nm cu]
    by (simp add: evict_expired_def read_clock_def keys_ok_def split: if_splits)
  with assms(2) show ?thesis
    by (cases "map_of (user_cache (evict_expired env r)) nm") (auto simp: user_hit_def)
qed

text \<open>
  An unknown name cannot be used to load the directory: once a search for it has failed, for a
  miss or for an outage, the same question within a minute is answered from memory and no
  connection is used.
\<close>

theorem miss_is_remembered:
  assumes "mono (l_clock env)" and "resolver_reach env r"
    and "resolve_user env dn nm r = (None, r1)" and "attempts_made r1 \<noteq> attempts_made r"
    and "l_clock env (Suc (l_looks r1)) < l_clock env (l_looks r1 - 1) + NEGATIVE_TTL"
  shows "\<exists>r2. resolve_user env dn' nm r1 = (None, r2) \<and> attempts_made r2 = attempts_made r1"
proof -
  obtain r0 where r1: "r1 = mark_negative env (''u:'' @ nm) r0" and "user_hit nm r0 = None"
    using resolve_user_miss [OF assms(3,4)] by blast
  have k: "keys_ok r1" using reach_user [OF assms(2,3)] by (rule keys_reach)
  have "user_hit nm r1 = None" using \<open>user_hit nm r0 = None\<close> by (simp add: r1 mark_negative_def read_clock_def user_hit_def)
  with k have none: "user_hit nm (evict_expired env r1) = None" by (rule user_hit_evict)
  define t where "t = l_clock env (l_looks r1 - 1)"
  have neg: "negative_cache r1 = hm_insert (''u:'' @ nm) t (negative_cache r0)"
    by (simp add: r1 t_def mark_negative_def read_clock_def)
  have "l_clock env (l_looks r1) \<le> l_clock env (Suc (l_looks r1))" using assms(1) by (simp add: monoD)
  then have "l_clock env (l_looks r1) - t < NEGATIVE_TTL" "l_clock env (Suc (l_looks r1)) - t < NEGATIVE_TTL"
    using assms(5) by (auto simp: t_def NEGATIVE_TTL_def secs_def)
  moreover from this(1) have "map_of (negative_cache (evict_expired env r1)) (''u:'' @ nm) = Some t"
    by (simp add: evict_expired_def read_clock_def neg hm_insert_def)
  ultimately have "negative_hit env (''u:'' @ nm) (miss (evict_expired env r1)) =
      (True, snd (read_clock env (miss (evict_expired env r1))))"
    by (simp add: negative_hit_def miss_def read_clock_def)
  then show ?thesis
    using none by (simp add: resolve_user_def Let_def) (simp add: read_clock_def miss_def)
qed

section \<open>A bulk load starts afresh\<close>

definition since :: "ldap_env \<Rightarrow> nat \<Rightarrow> IdLdapResolver \<Rightarrow> bool" where
  "since env t r =
     (t \<le> l_clock env (l_looks r)
      \<and> (\<forall>e \<in> set (user_cache r). t \<le> cu_fetched_at (snd e)) \<and> (\<forall>e \<in> set (group_cache r). t \<le> cg_fetched_at (snd e))
      \<and> (\<forall>e \<in> set (user_by_uid_cache r). t \<le> cu_fetched_at (snd e)) \<and> (\<forall>e \<in> set (group_by_gid_cache r). t \<le> cg_fetched_at (snd e))
      \<and> (\<forall>e \<in> set (group_gid_by_dn_cache r). t \<le> dg_fetched_at (snd e)) \<and> (\<forall>e \<in> set (memberof_cache r). t \<le> mo_fetched_at (snd e))
      \<and> (\<forall>e \<in> set (negative_cache r). t \<le> snd e))"

lemma since_invariant: "mono (l_clock env) \<Longrightarrow> resolver_invariant env (since env t)"
proof -
  assume "mono (l_clock env)"
  then have "l_clock env i \<le> l_clock env (Suc i)" for i by (simp add: monoD)
  then have "t \<le> l_clock env i \<Longrightarrow> t \<le> l_clock env (Suc i)" for i using le_trans by blast
  then show ?thesis
    by unfold_locales (auto simp: since_def primitive_defs Let_def dest!: set_hm_insert [THEN subsetD])
qed

text \<open>
  A bulk load forgets everything that was cached: afterwards every entry of every cache, of
  users, groups, memberships and misses alike, was read from the directory after the load began,
  so no stale membership or identity survives it.
\<close>

theorem bulk_load_is_fresh:
  assumes "mono (l_clock env)" and "load_full_identities env dn r = (n, r')"
  shows "since env (l_clock env (l_looks r)) r'"
proof -
  have "since env (l_clock env (l_looks r)) (clear_caches r)" by (simp add: since_def clear_caches_def)
  then show ?thesis
    by (rule resolver_invariant.keeps_load_from [OF since_invariant [OF assms(1)] assms(2)])
qed

section \<open>A sample directory\<close>

definition sample_mapping :: PosixAttributeMapping where
  "sample_mapping =
     \<lparr>user_object_class = ''posixAccount'', group_object_class = ''posixGroup'', user_name = ''uid'', user_uid_number = ''uidNumber'',
      user_gid_number = ''gidNumber'', user_home_directory = ''homeDirectory'', user_shell = ''loginShell'', user_full_name = ''cn'',
      group_name = ''cn'', group_gid_number = ''gidNumber'', group_member = ''member'', user_principal_name = ''krbPrincipalName''\<rparr>"

definition alice_entry :: SearchEntry where
  "alice_entry =
     \<lparr>se_dn = ''uid=alice,ou=people'',
      se_attrs = (\<lambda>_. None)(''uid'' := Some [''alice''], ''uidNumber'' := Some [''7''], ''gidNumber'' := Some [''8''], ''cn'' := Some [''Alice''])\<rparr>"

definition dir_with_alice :: ldap_env where
  "dir_with_alice = \<lparr>l_clock = (\<lambda>i. i), l_try = (\<lambda>_ _ _ _ _ _. Answered [alice_entry])\<rparr>"

definition empty_dir :: ldap_env where
  "empty_dir = \<lparr>l_clock = (\<lambda>i. i), l_try = (\<lambda>_ _ _ _ _ _. Answered [])\<rparr>"

definition sample_resolver :: IdLdapResolver where
  "sample_resolver = resolver_new ''ou=people'' ''ou=groups'' sample_mapping"

lemma sample_resolver_reach: "resolver_reach env sample_resolver"
  unfolding sample_resolver_def by (rule reach_new)

lemma answered_search:
  "(\<And>i b dn base flt attrs. l_try env i b dn base flt attrs = Answered es) \<Longrightarrow> fst (service_search env dn base flt attrs r) = Ok es"
  by (simp add: service_search_def search_attempts.simps [of _ _ _ _ _ 0] Let_def split: prod.split)

lemma small_numbers: "parse_i32 ''7'' = Some 7" "parse_i32 ''8'' = Some 8"
  by (simp_all add: parse_i32_def parse_unsigned_def is_ascii_digit_def digit_value_def Let_def)

lemma alice_user: "user_of_entry sample_mapping nm alice_entry = Some (7, Some 8, ''Alice'')"
proof -
  have "trim ''8'' = ''8''" by code_simp
  then show ?thesis
    by (simp add: user_of_entry_def extract_first_attr_def extract_display_name_def first_value_def sample_mapping_def alice_entry_def small_numbers)
qed

theorem pool_bounded_witness:
  "length (conn_pool (snd (resolve_user dir_with_alice ''cn=svc'' ''alice'' sample_resolver))) \<le> POOL_MAX_CONNS"
  by (rule pool_bounded [OF reach_user [OF sample_resolver_reach]]) (rule prod.collapse [symmetric])

lemma dir_clock: "mono (l_clock dir_with_alice)" "mono (l_clock empty_dir)"
  by (simp_all add: dir_with_alice_def empty_dir_def mono_def)

lemma sample_bases: "search_bases ''ou=people'' = [''ou=people'']" "search_bases ''ou=groups'' = [''ou=groups'']"
  by code_simp+

lemmas run_defs = resolve_user_def Let_def sample_resolver_def resolver_new_def evict_expired_def read_clock_def user_hit_def
  negative_hit_def miss_def sample_bases service_search_def search_attempts.simps [of _ _ _ _ _ 0] take_pooled_conn_def
  count_bind_def store_pooled_conn_def POOL_MAX_CONNS_def first_some_def store_user_def hm_insert_def mark_negative_def

definition alice_cached :: IdLdapResolver where
  "alice_cached = snd (resolve_user dir_with_alice ''cn=svc'' ''alice'' sample_resolver)"

lemma alice_cached_state:
  "user_cache alice_cached = [(''alice'', \<lparr>cu_id = ''alice'', uid_number = Some 7, primary_gid = Some 8, cu_display = ''Alice'', cu_fetched_at = 4\<rparr>)]"
  "last_evict alice_cached = Some 0" "l_looks alice_cached = 5"
  by (simp_all add: alice_cached_def run_defs dir_with_alice_def alice_user eval_nat_numeral)

theorem cached_user_is_recent_witness:
  "\<exists>r2 cu. resolve_user dir_with_alice ''cn=svc'' ''alice'' alice_cached = (Some (7, Some 8, ''Alice''), r2)
     \<and> (''alice'', cu) \<in> set (user_cache r2)
     \<and> l_clock dir_with_alice (l_looks alice_cached) < cu_fetched_at cu + IDENTITY_CACHE_TTL + EVICT_INTERVAL"
proof -
  have "resolver_reach dir_with_alice alice_cached"
    unfolding alice_cached_def by (rule reach_user [OF sample_resolver_reach]) (rule prod.collapse [symmetric])
  moreover have "fst (resolve_user dir_with_alice ''cn=svc'' ''alice'' alice_cached) = Some (7, Some 8, ''Alice'')"
    "attempts_made (snd (resolve_user dir_with_alice ''cn=svc'' ''alice'' alice_cached)) = attempts_made alice_cached"
    by (simp_all add: resolve_user_def user_hit_def evict_expired_def read_clock_def dir_with_alice_def alice_cached_state
        EVICT_INTERVAL_def secs_def hit_def Let_def)
  ultimately show ?thesis
    using cached_user_is_recent [OF dir_clock(1), of alice_cached "''cn=svc''" "''alice''"] by (metis prod.collapse)
qed

definition bob_missed :: IdLdapResolver where
  "bob_missed = snd (resolve_user empty_dir ''cn=svc'' ''bob'' sample_resolver)"

theorem miss_is_remembered_witness:
  "\<exists>r2. resolve_user empty_dir ''cn=other'' ''bob'' bob_missed = (None, r2) \<and> attempts_made r2 = attempts_made bob_missed"
proof (rule miss_is_remembered [OF dir_clock(2) sample_resolver_reach])
  have "fst (resolve_user empty_dir ''cn=svc'' ''bob'' sample_resolver) = None" by (simp add: run_defs empty_dir_def)
  then show "resolve_user empty_dir ''cn=svc'' ''bob'' sample_resolver = (None, bob_missed)"
    unfolding bob_missed_def by (metis prod.collapse)
  show "attempts_made bob_missed \<noteq> attempts_made sample_resolver" by (simp add: bob_missed_def run_defs empty_dir_def)
  show "l_clock empty_dir (Suc (l_looks bob_missed)) < l_clock empty_dir (l_looks bob_missed - 1) + NEGATIVE_TTL"
    by (simp add: empty_dir_def NEGATIVE_TTL_def secs_def)
qed

theorem bulk_load_is_fresh_witness:
  "since dir_with_alice 5 (snd (load_full_identities dir_with_alice ''cn=svc'' alice_cached))"
  using bulk_load_is_fresh [OF dir_clock(1) prod.collapse [symmetric], where r = alice_cached and dn = "''cn=svc''"]
  by (simp add: alice_cached_state dir_with_alice_def)

section \<open>What the code does not do\<close>

text \<open>
  After a restart of the directory the pooled connections are dead. Each costs one of the three
  attempts, so with three of them in the pool a search fails although a fresh bind would succeed.
\<close>

definition restarted_dir :: ldap_env where
  "restarted_dir =
     \<lparr>l_clock = (\<lambda>i. i), l_try = (\<lambda>_ reused _ _ _ _. if reused then AttemptFailed False else Answered [alice_entry])\<rparr>"

lemma dead_conn_step:
  assumes "n < 3" and "conn_pool r = replicate (Suc k) \<lparr>bound_as = dn, last_used = 0\<rparr>" and "l_looks r < 100"
  shows "\<exists>r'. search_attempts restarted_dir dn base flt attrs n r = search_attempts restarted_dir dn base flt attrs (Suc n) r'
      \<and> conn_pool r' = replicate k \<lparr>bound_as = dn, last_used = 0\<rparr> \<and> l_looks r' = l_looks r + 2 \<and> bind_count r' = bind_count r"
proof -
  have "butlast (replicate (Suc k) x) = replicate k x" for x :: PooledConn by (metis butlast_snoc replicate_append_same replicate_Suc)
  then have t: "take_pooled_conn restarted_dir dn r =
      (True, r\<lparr>l_looks := Suc (l_looks r), conn_pool := replicate k \<lparr>bound_as = dn, last_used = 0\<rparr>\<rparr>)"
    using assms(2,3) by (simp add: take_pooled_conn_def read_clock_def restarted_dir_def pool_entry_stale_def
        POOL_IDLE_MAX_def secs_def Let_def del: replicate_Suc)
  have fails: "l_try restarted_dir i True dn base flt attrs = AttemptFailed False" for i by (simp add: restarted_dir_def)
  show ?thesis
    using assms(1) by (subst search_attempts.simps) (force simp: Let_def t fails count_bind_def)
qed

lemma dead_pool_exhausts_attempts:
  assumes "conn_pool r = replicate 3 \<lparr>bound_as = dn, last_used = 0\<rparr>" and "l_looks r = 0"
  shows "\<exists>r'. service_search restarted_dir dn base flt attrs r = (Err (), r') \<and> bind_count r' = bind_count r"
proof -
  from dead_conn_step [of 0 r 2 dn base flt attrs] assms obtain r1 where r1: "service_search restarted_dir dn base flt attrs r = search_attempts restarted_dir dn base flt attrs 1 r1"
      "conn_pool r1 = replicate 2 \<lparr>bound_as = dn, last_used = 0\<rparr>" "l_looks r1 = 2" "bind_count r1 = bind_count r"
    by (auto simp: service_search_def eval_nat_numeral)
  from dead_conn_step [of 1 r1 1 dn base flt attrs] r1 obtain r2 where r2: "search_attempts restarted_dir dn base flt attrs 1 r1 = search_attempts restarted_dir dn base flt attrs 2 r2"
      "conn_pool r2 = replicate 1 \<lparr>bound_as = dn, last_used = 0\<rparr>" "l_looks r2 = 4" "bind_count r2 = bind_count r"
    by (auto simp: eval_nat_numeral)
  from dead_conn_step [of 2 r2 0 dn base flt attrs] r2 obtain r3 where "search_attempts restarted_dir dn base flt attrs 2 r2 = search_attempts restarted_dir dn base flt attrs 3 r3"
      "bind_count r3 = bind_count r"
    by (auto simp: eval_nat_numeral)
  with r1(1) r2(1) show ?thesis by (simp add: search_attempts.simps [of _ _ _ _ _ 3])
qed

text \<open>
  A directory answers the attributes it is asked for. The search that fetches one group does not
  ask for its members, so a group that is fetched alone is cached as if it had none.
\<close>

definition answers_asked :: "string list \<Rightarrow> SearchEntry \<Rightarrow> bool" where
  "answers_asked attrs se = (\<forall>a. a \<notin> set attrs \<longrightarrow> se_attrs se a = None)"

lemma single_group_has_no_members:
  assumes "answers_asked (group_attrs sample_mapping) se"
  shows "extract_group_members se (group_member sample_mapping) = []"
proof -
  have "to_lowercase ''member'' = ''member''" "to_lowercase ''uniqueMember'' = ''uniquemember''"
    "to_lowercase ''memberUid'' = ''memberuid''" "to_lowercase ''memberuid'' = ''memberuid''" by code_simp+
  then show ?thesis
    using assms by (simp add: answers_asked_def group_attrs_def sample_mapping_def extract_group_members_def)
qed

text \<open>The bulk load does not ask for the principal name, so the alias it means to store is never found.\<close>

lemma bulk_load_finds_no_alias:
  assumes "answers_asked (user_attrs sample_mapping) se"
  shows "extract_first_attr se (user_principal_name sample_mapping) = None"
proof -
  have "to_lowercase ''krbPrincipalName'' = ''krbprincipalname''" by code_simp
  then show ?thesis
    using assms by (simp add: answers_asked_def user_attrs_def sample_mapping_def extract_first_attr_def first_value_def)
qed

text \<open>
  A user found by its principal name is cached under the short name: looking up the short name
  afterwards answers with that user, without asking who has the short name.
\<close>

lemma principal_lookup_claims_short_name:
  assumes "principal_pass env dn nm flt attrs bases r = (Some (u, g, d), r')"
  shows "user_hit (principal_local_part nm) r' = Some (u, g, d)"
  using assms
  by (induction bases arbitrary: r) (auto split: prod.splits sum.splits option.splits
      simp: store_user_def read_clock_def Let_def user_hit_def hm_insert_def)

end
