(* ===== verification/Ui_Ldap.thy ===== *)
theory Ui_Ldap
  imports Resolver_Laws Id_Resolve "HOL-Library.Product_Lexorder"
begin

text \<open>
  The LDAP client of the web interface, \<^verbatim>\<open>nfs-klldap-ui/src/ldap.rs\<close>: the service credentials, the short
  caches of the owner search, and the two checks of administrators, one at login and one before a
  privileged change. It works on the shared resolver of \<open>Ldap_Resolver\<close>, whose clock and searches it uses.

  A bind with the credentials of a user is an answer of the environment: accepted, refused, or no
  answer because its task died. Requests are served one after the other.
\<close>

section \<open>The client\<close>

type_synonym ListRow = "string \<times> 32 word option \<times> string"

record CachedSearch =
  cs_results :: "ListRow list"
  cs_fetched_at :: nat

record LdapClient =
  lc_user_base :: string
  lc_username :: "string option"
  lc_password :: "string option"
  last_auth_time :: "nat option"
  full_user_list :: "CachedSearch option"
  full_group_list :: "CachedSearch option"
  last_verified_memberofs :: "(string \<times> string list \<times> nat) option"
  lc_hits :: "64 word"
  lc_misses :: "64 word"
  lc_clears :: "64 word"
  last_cache_clear :: "nat option"
  last_full_refresh :: "nat option"
  identity_resolver :: IdLdapResolver

record ui_ldap_env =
  ui_net :: ldap_env
  ui_bind :: "nat \<Rightarrow> string \<Rightarrow> string \<Rightarrow> bool option"

datatype LdapError = Auth string

definition SEARCH_CACHE_TTL :: nat where "SEARCH_CACHE_TTL = secs (2 * 60)"
definition FULL_LIST_FETCH_LIMIT :: nat where "FULL_LIST_FETCH_LIMIT = 1000"
definition LIST_RESULT_LIMIT :: nat where "LIST_RESULT_LIMIT = 25"

definition new_with_attributes :: "IdLdapResolver \<Rightarrow> LdapClient" where
  "new_with_attributes r =
     \<lparr>lc_user_base = user_base r, lc_username = None, lc_password = None, last_auth_time = None,
      full_user_list = None, full_group_list = None, last_verified_memberofs = None,
      lc_hits = 0, lc_misses = 0, lc_clears = 0, last_cache_clear = None, last_full_refresh = None, identity_resolver = r\<rparr>"

definition from_config :: "NfsKlldapConfig \<Rightarrow> LdapClient \<times> bool" where
  "from_config cfg =
     (new_with_attributes (from_sssd_section (sssd cfg) (display_realm cfg)),
      fst (ldap_tls_policy (ldap_uri cfg) (ldap_tls_reqcert (sssd cfg)) (ldap_tls_cacert (sssd cfg))
             (ldap_id_use_start_tls (sssd cfg))))"

definition service_bind_creds :: "LdapClient \<Rightarrow> (string \<times> string) option" where
  "service_bind_creds c =
     (case (lc_username c, lc_password c) of (Some u, Some p) \<Rightarrow> Some (u, p) | _ \<Rightarrow> None)"

text \<open>Work on the shared resolver under the service credentials; without them there is no answer.\<close>

definition with_identity ::
  "(string \<Rightarrow> IdLdapResolver \<Rightarrow> 'a option \<times> IdLdapResolver) \<Rightarrow> LdapClient \<Rightarrow> 'a option \<times> LdapClient" where
  "with_identity f c =
     (case service_bind_creds c of
        None \<Rightarrow> (None, c)
      | Some (bind_dn, _) \<Rightarrow> (case f bind_dn (identity_resolver c) of (x, r) \<Rightarrow> (x, c\<lparr>identity_resolver := r\<rparr>)))"

definition fetch_entry_dn :: "ui_ldap_env \<Rightarrow> string \<Rightarrow> string \<Rightarrow> LdapClient \<Rightarrow> string option \<times> LdapClient" where
  "fetch_entry_dn e base flt = with_identity (\<lambda>dn. lookup_first_dn (ui_net e) dn base flt)"

definition client_clock :: "ui_ldap_env \<Rightarrow> LdapClient \<Rightarrow> nat \<times> LdapClient" where
  "client_clock e c = (case read_clock (ui_net e) (identity_resolver c) of (now, r) \<Rightarrow> (now, c\<lparr>identity_resolver := r\<rparr>))"

section \<open>Caches of the owner search\<close>

definition fresh_list :: "nat \<Rightarrow> CachedSearch option \<Rightarrow> CachedSearch option" where
  "fresh_list now slot = opt_filter (\<lambda>s. now - cs_fetched_at s < SEARCH_CACHE_TTL) slot"

definition client_evict_expired :: "ui_ldap_env \<Rightarrow> LdapClient \<Rightarrow> LdapClient" where
  "client_evict_expired e c =
     (let c = c\<lparr>identity_resolver := evict_expired (ui_net e) (identity_resolver c)\<rparr> in
      case client_clock e c of (now, c) \<Rightarrow>
        c\<lparr>full_user_list := fresh_list now (full_user_list c),
          full_group_list := fresh_list now (full_group_list c),
          last_verified_memberofs := opt_filter (\<lambda>(_, _, t). now - t < secs 120) (last_verified_memberofs c)\<rparr>)"

definition store_full_list :: "ui_ldap_env \<Rightarrow> bool \<Rightarrow> ListRow list \<Rightarrow> LdapClient \<Rightarrow> LdapClient" where
  "store_full_list e is_user rows c =
     (case client_clock e c of (now, c) \<Rightarrow>
        let slot = Some \<lparr>cs_results = rows, cs_fetched_at = now\<rparr> in
        if is_user then c\<lparr>full_user_list := slot\<rparr> else c\<lparr>full_group_list := slot\<rparr>)"

definition list_slot :: "bool \<Rightarrow> LdapClient \<Rightarrow> CachedSearch option" where
  "list_slot is_user c = (if is_user then full_user_list c else full_group_list c)"

definition cached_full_list :: "ui_ldap_env \<Rightarrow> bool \<Rightarrow> LdapClient \<Rightarrow> ListRow list option \<times> LdapClient" where
  "cached_full_list e is_user c =
     (let c = client_evict_expired e c in
      case list_slot is_user c of
        Some s \<Rightarrow> (Some (cs_results s), c\<lparr>lc_hits := lc_hits c + 1\<rparr>)
      | None \<Rightarrow> (None, c\<lparr>lc_misses := lc_misses c + 1\<rparr>))"

definition clear_cache :: "ui_ldap_env \<Rightarrow> LdapClient \<Rightarrow> LdapClient" where
  "clear_cache e c =
     (case client_clock e (c\<lparr>identity_resolver := clear_caches (identity_resolver c), full_user_list := None,
                             full_group_list := None, last_verified_memberofs := None, lc_clears := lc_clears c + 1\<rparr>) of
        (now, c) \<Rightarrow> c\<lparr>last_cache_clear := Some now\<rparr>)"

record LdapCacheStats =
  user_entries :: nat
  group_entries :: nat
  recent_search_entries :: nat
  st_hits :: "64 word"
  st_misses :: "64 word"
  st_clears :: "64 word"
  last_cleared_ago_secs :: "nat option"
  st_binds :: "64 word"
  pool_warm :: bool

definition cache_stats_summary :: "ui_ldap_env \<Rightarrow> LdapClient \<Rightarrow> LdapCacheStats" where
  "cache_stats_summary e c =
     (let r = identity_resolver c in
      \<lparr>user_entries = length (user_cache r), group_entries = length (group_cache r),
       recent_search_entries = length (filter (\<lambda>s. s \<noteq> None) [full_user_list c, full_group_list c]),
       st_hits = lc_hits c, st_misses = lc_misses c, st_clears = lc_clears c,
       last_cleared_ago_secs = map_option (\<lambda>t. (fst (client_clock e c) - t) div secs 1) (last_cache_clear c),
       st_binds = bind_count r, pool_warm = (conn_pool r \<noteq> [])\<rparr>)"

definition record_verified_memberofs :: "ui_ldap_env \<Rightarrow> string \<Rightarrow> string list \<Rightarrow> LdapClient \<Rightarrow> LdapClient" where
  "record_verified_memberofs e user ms c =
     (case client_clock e c of (now, c) \<Rightarrow> c\<lparr>last_verified_memberofs := Some (user, ms, now)\<rparr>)"

definition has_recent_memberof :: "string \<Rightarrow> string \<Rightarrow> LdapClient \<Rightarrow> bool" where
  "has_recent_memberof user group_dn c =
     (case last_verified_memberofs c of
        Some (u, ms, _) \<Rightarrow> eq_ignore_ascii_case u user \<and> list_ex (\<lambda>m. eq_ignore_ascii_case m group_dn) ms
      | None \<Rightarrow> False)"

section \<open>The text of the owner field\<close>

definition id_digits :: "string \<Rightarrow> string" where
  "id_digits inner =
     unwrap_or (map_option trim
       (opt_or (strip_prefix ''UID'' inner) (opt_or (strip_prefix ''uid'' inner)
         (opt_or (strip_prefix ''GID'' inner) (strip_prefix ''gid'' inner))))) inner"

definition normalize_editor_search_query :: "string option \<Rightarrow> string option" where
  "normalize_editor_search_query q =
     (case opt_filter (\<lambda>s. s \<noteq> []) (map_option trim q) of
        None \<Rightarrow> None
      | Some s \<Rightarrow>
          (case rsplit_once CHR ''('' s of
             None \<Rightarrow> Some s
           | Some (before_paren, rest) \<Rightarrow>
               let closed = ends_with s '')'';
                   digits = id_digits (trim (if closed then butlast rest else rest));
                   nm = trim before_paren
               in if digits \<noteq> [] \<and> list_all is_ascii_digit digits then Some digits
                  else if (closed \<or> digits = []) \<and> nm \<noteq> [] then Some nm
                  else Some s))"

definition matches_list_query :: "string \<Rightarrow> string \<Rightarrow> string \<Rightarrow> 32 word option \<Rightarrow> bool" where
  "matches_list_query q_lower ident display num =
     (if q_lower = [] then True
      else contains_str (to_lowercase ident) q_lower \<or> contains_str (to_lowercase display) q_lower
           \<or> contains_str (case num of Some n \<Rightarrow> show_i32 n | None \<Rightarrow> []) q_lower)"

fun first_of_each :: "string set \<Rightarrow> PosixListRow list \<Rightarrow> PosixListRow list" where
  "first_of_each seen [] = []"
| "first_of_each seen (row # rows) =
     (if fst row \<in> seen then first_of_each seen rows else row # first_of_each (insert (fst row) seen) rows)"

definition build_full_rows :: "PosixListRow list \<Rightarrow> ListRow list" where
  "build_full_rows raw =
     sort_key (\<lambda>(ident, _, display). (to_lowercase display, to_lowercase ident))
       (map (\<lambda>(ident, num, display, _). (ident, num, if display = [] then ident else display))
         (first_of_each {} (filter (\<lambda>(ident, num, _, _). num \<noteq> None \<and> ident \<noteq> []) raw)))"

definition filter_list_rows :: "ListRow list \<Rightarrow> string \<Rightarrow> nat \<Rightarrow> ListRow list" where
  "filter_list_rows rows query limit =
     take limit (filter (\<lambda>(ident, num, display). matches_list_query (to_lowercase query) ident display num) rows)"

section \<open>Resolution and lists\<close>

definition client_resolve_user :: "ui_ldap_env \<Rightarrow> string \<Rightarrow> LdapClient \<Rightarrow> (32 word \<times> string) option \<times> LdapClient" where
  "client_resolve_user e nm c =
     (case with_identity (\<lambda>dn. resolve_user (ui_net e) dn nm) c of
        (x, c) \<Rightarrow> (map_option (\<lambda>(uid, _, display). (uid, display)) x, c))"

definition client_resolve_group :: "ui_ldap_env \<Rightarrow> string \<Rightarrow> LdapClient \<Rightarrow> (32 word \<times> string) option \<times> LdapClient" where
  "client_resolve_group e nm = with_identity (\<lambda>dn. resolve_group (ui_net e) dn nm)"

definition client_resolve_user_by_uid :: "ui_ldap_env \<Rightarrow> 32 word \<Rightarrow> LdapClient \<Rightarrow> (string \<times> string) option \<times> LdapClient" where
  "client_resolve_user_by_uid e uid = with_identity (\<lambda>dn. resolve_user_by_uid (ui_net e) dn uid)"

definition client_resolve_group_by_gid :: "ui_ldap_env \<Rightarrow> 32 word \<Rightarrow> LdapClient \<Rightarrow> (string \<times> string) option \<times> LdapClient" where
  "client_resolve_group_by_gid e gid = with_identity (\<lambda>dn. resolve_group_by_gid (ui_net e) dn gid)"

definition user_filter_by_name :: "string \<Rightarrow> LdapClient \<Rightarrow> string" where
  "user_filter_by_name nm c =
     (let pa = posix_attributes (identity_resolver c)
      in class_filter (user_object_class pa) (user_name pa) (escape_ldap_filter nm))"

definition resolve_user_dn :: "ui_ldap_env \<Rightarrow> string \<Rightarrow> LdapClient \<Rightarrow> string option \<times> LdapClient" where
  "resolve_user_dn e nm c = fetch_entry_dn e (lc_user_base c) (user_filter_by_name nm c) c"

definition fetch_and_store_full_list :: "ui_ldap_env \<Rightarrow> bool \<Rightarrow> LdapClient \<Rightarrow> ListRow list option \<times> LdapClient" where
  "fetch_and_store_full_list e is_user c =
     (case with_identity (\<lambda>dn r.
             case (if is_user then search_list_users (ui_net e) dn FULL_LIST_FETCH_LIMIT r
                   else search_list_groups (ui_net e) dn FULL_LIST_FETCH_LIMIT r) of
               (Inr rows, r) \<Rightarrow> (Some rows, r)
             | (Inl _, r) \<Rightarrow> (None, r)) c of
        (None, c) \<Rightarrow> (None, c)
      | (Some raw, c) \<Rightarrow> (Some (build_full_rows raw), store_full_list e is_user (build_full_rows raw) c))"

definition full_list_rows :: "ui_ldap_env \<Rightarrow> bool \<Rightarrow> LdapClient \<Rightarrow> ListRow list option \<times> LdapClient" where
  "full_list_rows e is_user c =
     (case cached_full_list e is_user c of
        (Some rows, c) \<Rightarrow> (Some rows, c)
      | (None, c) \<Rightarrow> fetch_and_store_full_list e is_user c)"

definition list_entries :: "ui_ldap_env \<Rightarrow> bool \<Rightarrow> string option \<Rightarrow> LdapClient \<Rightarrow> ListRow list option \<times> LdapClient" where
  "list_entries e is_user flt c =
     (case full_list_rows e is_user c of
        (rows, c) \<Rightarrow> (map_option (\<lambda>rows. filter_list_rows rows (unwrap_or (normalize_editor_search_query flt) []) LIST_RESULT_LIMIT) rows, c))"

definition refresh_identity_data :: "ui_ldap_env \<Rightarrow> LdapClient \<Rightarrow> nat option \<times> LdapClient" where
  "refresh_identity_data e c =
     (case with_identity (\<lambda>dn r. case load_full_identities (ui_net e) dn r of (n, r) \<Rightarrow> (Some n, r)) c of
        (None, c) \<Rightarrow> (None, c)
      | (Some loaded, c) \<Rightarrow>
          (case fetch_and_store_full_list e True c of (_, c) \<Rightarrow>
           case fetch_and_store_full_list e False c of (_, c) \<Rightarrow>
           case client_clock e c of (now, c) \<Rightarrow> (Some loaded, c\<lparr>last_full_refresh := Some now\<rparr>)))"

definition webui_refresh_tick_due :: "nat \<Rightarrow> nat option \<Rightarrow> nat \<Rightarrow> bool" where
  "webui_refresh_tick_due now last_refresh interval =
     (case last_refresh of None \<Rightarrow> True | Some t \<Rightarrow> now - t \<ge> interval div 2)"

section \<open>Credentials and membership\<close>

definition bind_verdict :: "bool option \<Rightarrow> bool" where
  "bind_verdict joined = unwrap_or joined False"

definition try_simple_bind :: "ui_ldap_env \<Rightarrow> string \<Rightarrow> string \<Rightarrow> LdapClient \<Rightarrow> bool \<times> LdapClient" where
  "try_simple_bind e dn pw c =
     (let r = identity_resolver c in
      (bind_verdict (ui_bind e (l_looks r) dn pw), c\<lparr>identity_resolver := r\<lparr>l_looks := Suc (l_looks r)\<rparr>\<rparr>))"

definition get_or_bind_service :: "ui_ldap_env \<Rightarrow> LdapClient \<Rightarrow> (LdapError, unit) result \<times> LdapClient" where
  "get_or_bind_service e c =
     (if lc_username c = None \<or> lc_password c = None then (Err (Auth ''no service credentials''), c)
      else case client_clock e c of (now, c) \<Rightarrow> (Ok (), c\<lparr>last_auth_time := Some now\<rparr>))"

definition authenticate :: "ui_ldap_env \<Rightarrow> string \<Rightarrow> string \<Rightarrow> LdapClient \<Rightarrow> (LdapError, unit) result \<times> LdapClient" where
  "authenticate e user pw c = get_or_bind_service e (clear_cache e (c\<lparr>lc_username := Some user, lc_password := Some pw\<rparr>))"

definition verify_user_credentials ::
  "ui_ldap_env \<Rightarrow> string \<Rightarrow> string \<Rightarrow> LdapClient \<Rightarrow> (LdapError, unit) result \<times> LdapClient" where
  "verify_user_credentials e user pw c =
     (case with_identity (\<lambda>dn. lookup_user_dn_and_memberof (ui_net e) dn user) c of
        (None, c) \<Rightarrow> (Err (Auth ''user not found or service account lacks permission to search''), c)
      | (Some (user_dn, ms), c) \<Rightarrow>
          (case try_simple_bind e user_dn pw c of
             (True, c) \<Rightarrow> (Ok (), record_verified_memberofs e user ms c)
           | (False, c) \<Rightarrow> (Err (Auth ''Invalid username or password (KLLDAP/LDAP bind failed)''), c)))"

definition user_is_member_of :: "ui_ldap_env \<Rightarrow> string \<Rightarrow> string \<Rightarrow> LdapClient \<Rightarrow> bool \<times> LdapClient" where
  "user_is_member_of e user grp c =
     (case with_identity (\<lambda>dn. lookup_group_dn (ui_net e) dn grp) c of
        (None, c) \<Rightarrow> (False, c)
      | (Some group_dn, c) \<Rightarrow>
          if group_dn = [] then (False, c)
          else if has_recent_memberof user group_dn c then (True, c)
          else (case resolve_user_dn e user c of
            (None, c) \<Rightarrow> (False, c)
          | (Some user_dn, c) \<Rightarrow>
              (case with_identity (\<lambda>dn r. case user_dn_has_memberof (ui_net e) dn user_dn group_dn r of (b, r) \<Rightarrow> (Some b, r)) c of
                 (x, c) \<Rightarrow> (unwrap_or x False, c))))"

definition verify_user_is_admin ::
  "ui_ldap_env \<Rightarrow> string \<Rightarrow> string \<Rightarrow> string \<Rightarrow> LdapClient \<Rightarrow> (LdapError, unit) result \<times> LdapClient" where
  "verify_user_is_admin e user pw admin_group c =
     (case verify_user_credentials e user pw c of
        (Inl err, c) \<Rightarrow> (Err err, c)
      | (Inr _, c) \<Rightarrow>
          (case user_is_member_of e user admin_group c of
             (True, c) \<Rightarrow> (Ok (), c)
           | (False, c) \<Rightarrow>
               (Err (Auth (''Access denied: '' @ [CHR 0x27] @ user @ [CHR 0x27] @ '' is not a member of the ''
                  @ [CHR 0x27] @ admin_group @ [CHR 0x27] @ '' group.'')), c)))"

datatype live_error = NoServiceCreds | GroupUnresolved | UserUnresolved | QueryFailed | NotMember

definition verify_admin_group_membership_live ::
  "ui_ldap_env \<Rightarrow> string \<Rightarrow> string \<Rightarrow> LdapClient \<Rightarrow> (live_error, unit) result \<times> LdapClient" where
  "verify_admin_group_membership_live e user admin_group c =
     (if service_bind_creds c = None then (Err NoServiceCreds, c)
      else case with_identity (\<lambda>dn. lookup_group_dn (ui_net e) dn admin_group) c of
        (g, c) \<Rightarrow>
          (case opt_filter (\<lambda>dn. dn \<noteq> []) g of
             None \<Rightarrow> (Err GroupUnresolved, c)
           | Some group_dn \<Rightarrow>
               (case resolve_user_dn e user c of
                  (None, c) \<Rightarrow> (Err UserUnresolved, c)
                | (Some user_dn, c) \<Rightarrow>
                    (case with_identity (\<lambda>dn r. case user_dn_memberof_check (ui_net e) dn user_dn group_dn r of (x, r) \<Rightarrow> (Some x, r)) c of
                       (Some (Inr True), c) \<Rightarrow> (Ok (), c)
                     | (Some (Inr False), c) \<Rightarrow> (Err NotMember, c)
                     | (_, c) \<Rightarrow> (Err QueryFailed, c)))))"

section \<open>Fresh answers\<close>

text \<open>The directory was asked, at look \<open>n\<close> or later, and answered with these entries.\<close>

definition dir_asked :: "ldap_env \<Rightarrow> nat \<Rightarrow> string \<Rightarrow> string \<Rightarrow> string \<Rightarrow> SearchEntry list \<Rightarrow> bool" where
  "dir_asked env n dn base flt es = (\<exists>m \<ge> n. \<exists>reused attrs. l_try env m reused dn base flt attrs = Answered es)"

lemma asked_mono: "dir_asked env m dn base flt es \<Longrightarrow> n \<le> m \<Longrightarrow> dir_asked env n dn base flt es"
  unfolding dir_asked_def by (meson le_trans)

text \<open>What a search leaves alone: the bases and attribute names of the resolver, and no look is taken back.\<close>

definition framed :: "IdLdapResolver \<Rightarrow> IdLdapResolver \<Rightarrow> bool" where
  "framed r0 r =
     (user_base r = user_base r0 \<and> group_base r = group_base r0 \<and> posix_attributes r = posix_attributes r0
      \<and> l_looks r0 \<le> l_looks r)"

interpretation frame: resolver_invariant env "framed r0" for env r0
  by unfold_locales (auto simp: framed_def primitive_defs Let_def)

lemma framed_refl [simp]: "framed r r"
  by (simp add: framed_def)

lemma framed_trans: "framed r0 r1 \<Longrightarrow> framed r1 r2 \<Longrightarrow> framed r0 r2"
  by (auto simp: framed_def)

lemma attempts_asked:
  "search_attempts env dn base flt attrs k r = (Inr es, r') \<Longrightarrow> dir_asked env (l_looks r) dn base flt es"
proof (induction "3 - k" arbitrary: k r rule: less_induct)
  case less
  show ?case
  proof (cases "k \<ge> 3")
    case False
    obtain reused r1 where t: "take_pooled_conn env dn r = (reused, r1)" by fastforce
    then have looks: "l_looks r \<le> l_looks r1" by (auto simp: take_pooled_conn_def read_clock_def Let_def)
    define r2 where "r2 = r1\<lparr>l_looks := Suc (l_looks r1), attempts_made := (reused, base, flt) # attempts_made r1\<rparr>"
    have "dir_asked env (l_looks r) dn base flt es"
      if "search_attempts env dn base flt attrs (Suc k) (count_bind b r2) = (Inr es, r')" for b
      using asked_mono[OF less.hyps[OF _ that]] False looks by (simp add: count_bind_def r2_def)
    then show ?thesis
      using less.prems False looks
      by (subst (asm) search_attempts.simps)
         (auto simp: t Let_def r2_def[symmetric] dir_asked_def split: attempt.splits if_splits)
  qed (use less.prems in \<open>simp add: search_attempts.simps\<close>)
qed

lemma search_asked: "service_search env dn base flt attrs r = (Inr es, r') \<Longrightarrow> dir_asked env (l_looks r) dn base flt es \<and> framed r r'"
  using attempts_asked frame.keeps_search[of env dn base flt attrs r "Inr es" r' r] by (auto simp: service_search_def)

lemma lookup_first_dn_asked:
  assumes "lookup_first_dn env dn base flt r = (Some x, r')"
  shows "(\<exists>es. dir_asked env (l_looks r) dn base flt es \<and> es \<noteq> [] \<and> x = se_dn (hd es)) \<and> framed r r'"
  using assms search_asked by (force simp: lookup_first_dn_def split: prod.splits sum.splits list.splits)

definition group_filter :: "LdapClient \<Rightarrow> string \<Rightarrow> string" where
  "group_filter c grp =
     (let pa = posix_attributes (identity_resolver c) in class_filter (group_object_class pa) (group_name pa) (escape_ldap_filter grp))"

definition member_filter :: "LdapClient \<Rightarrow> string \<Rightarrow> string" where
  "member_filter c group_dn =
     class_filter (user_object_class (posix_attributes (identity_resolver c))) ''memberOf'' (escape_ldap_filter group_dn)"

text \<open>The directory itself, asked at look \<open>n\<close> or later: the group has this name, and the user is listed as its member.\<close>

definition group_found :: "ui_ldap_env \<Rightarrow> nat \<Rightarrow> LdapClient \<Rightarrow> string \<Rightarrow> string \<Rightarrow> string \<Rightarrow> bool" where
  "group_found e n c dn grp group_dn =
     (\<exists>es. dir_asked (ui_net e) n dn (group_base (identity_resolver c)) (group_filter c grp) es \<and> es \<noteq> [] \<and> group_dn = se_dn (hd es))"

definition listed_member :: "ui_ldap_env \<Rightarrow> nat \<Rightarrow> LdapClient \<Rightarrow> string \<Rightarrow> string \<Rightarrow> string \<Rightarrow> bool" where
  "listed_member e n c dn user group_dn =
     (\<exists>us ms. dir_asked (ui_net e) n dn (lc_user_base c) (user_filter_by_name user c) us \<and> us \<noteq> []
        \<and> dir_asked (ui_net e) n dn (user_base (identity_resolver c)) (member_filter c group_dn) ms
        \<and> (\<exists>m \<in> set ms. eq_ignore_ascii_case (se_dn m) (se_dn (hd us))))"

lemma with_identity_Some:
  assumes "with_identity f c = (Some x, c')"
  obtains dn pw r where "service_bind_creds c = Some (dn, pw)" "f dn (identity_resolver c) = (Some x, r)" "c' = c\<lparr>identity_resolver := r\<rparr>"
  using assms by (auto simp: with_identity_def split: option.splits prod.splits)

lemma service_bind_creds_resolver [simp]: "service_bind_creds (c\<lparr>identity_resolver := r\<rparr>) = service_bind_creds c"
  by (simp add: service_bind_creds_def)

lemma group_lookup_found:
  assumes "with_identity (\<lambda>dn. lookup_group_dn (ui_net e) dn grp) c = (Some group_dn, c')" "service_bind_creds c = Some (dn, pw)"
  shows "group_found e (l_looks (identity_resolver c)) c dn grp group_dn
    \<and> (\<exists>r. c' = c\<lparr>identity_resolver := r\<rparr> \<and> framed (identity_resolver c) r)"
proof -
  from with_identity_Some[OF assms(1)] assms(2) obtain r
    where r: "lookup_group_dn (ui_net e) dn grp (identity_resolver c) = (Some group_dn, r)" "c' = c\<lparr>identity_resolver := r\<rparr>" by auto
  from lookup_first_dn_asked[of "ui_net e" dn _ _ "identity_resolver c" group_dn r] r show ?thesis
    by (force simp: lookup_group_dn_def group_found_def group_filter_def Let_def)
qed

lemma user_lookup_found:
  assumes "resolve_user_dn e user c = (Some user_dn, c')" "service_bind_creds c = Some (dn, pw)"
  shows "(\<exists>es. dir_asked (ui_net e) (l_looks (identity_resolver c)) dn (lc_user_base c) (user_filter_by_name user c) es
           \<and> es \<noteq> [] \<and> user_dn = se_dn (hd es))
    \<and> (\<exists>r. c' = c\<lparr>identity_resolver := r\<rparr> \<and> framed (identity_resolver c) r)"
proof -
  from with_identity_Some[OF assms(1)[unfolded resolve_user_dn_def fetch_entry_dn_def]] assms(2) obtain r
    where r: "lookup_first_dn (ui_net e) dn (lc_user_base c) (user_filter_by_name user c) (identity_resolver c) = (Some user_dn, r)"
      "c' = c\<lparr>identity_resolver := r\<rparr>" by auto
  from lookup_first_dn_asked[OF r(1)] r(2) show ?thesis by blast
qed

lemma member_check_asked:
  assumes "user_dn_memberof_check env dn user_dn group_dn r = (Inr True, r')"
  obtains ms where "dir_asked env (l_looks r) dn (user_base r)
      (class_filter (user_object_class (posix_attributes r)) ''memberOf'' (escape_ldap_filter group_dn)) ms"
    "\<exists>m \<in> set ms. eq_ignore_ascii_case (se_dn m) user_dn"
  using assms search_asked by (fastforce simp: user_dn_memberof_check_def list_ex_iff split: prod.splits sum.splits)

text \<open>The search for the member, asked for a name that was just looked up, at a client that has only searched in between.\<close>

lemma listed_memberI:
  assumes r: "framed (identity_resolver c) r" and dn: "service_bind_creds c = Some (dn, pw)"
    and u: "resolve_user_dn e user (c\<lparr>identity_resolver := r\<rparr>) = (Some user_dn, c2)"
    and m: "user_dn_memberof_check (ui_net e) dn user_dn group_dn (identity_resolver c2) = (Inr True, r')"
  shows "listed_member e (l_looks (identity_resolver c)) c dn user group_dn"
proof -
  have dn': "service_bind_creds (c\<lparr>identity_resolver := r\<rparr>) = Some (dn, pw)" using dn by simp
  from user_lookup_found[OF u dn'] obtain us r2
    where us: "dir_asked (ui_net e) (l_looks r) dn (lc_user_base c) (user_filter_by_name user (c\<lparr>identity_resolver := r\<rparr>)) us"
      "us \<noteq> []" "user_dn = se_dn (hd us)" and c2: "c2 = c\<lparr>identity_resolver := r2\<rparr>" "framed r r2" by auto
  from r c2(2) have r2: "framed (identity_resolver c) r2" by (rule framed_trans)
  from member_check_asked[OF m] obtain ms
    where ms: "dir_asked (ui_net e) (l_looks r2) dn (user_base r2)
        (class_filter (user_object_class (posix_attributes r2)) ''memberOf'' (escape_ldap_filter group_dn)) ms"
      "\<exists>m \<in> set ms. eq_ignore_ascii_case (se_dn m) user_dn" using c2 by auto
  have "dir_asked (ui_net e) (l_looks (identity_resolver c)) dn (lc_user_base c) (user_filter_by_name user c) us"
    using asked_mono[OF us(1)] r by (simp add: framed_def user_filter_by_name_def)
  moreover have "dir_asked (ui_net e) (l_looks (identity_resolver c)) dn (user_base (identity_resolver c)) (member_filter c group_dn) ms"
    using asked_mono[OF ms(1)] r2 by (simp add: framed_def member_filter_def)
  ultimately show ?thesis unfolding listed_member_def using us(2,3) ms(2) by blast
qed

text \<open>
  The check before a privileged change rests on no cache: when it succeeds, the directory was
  asked after the check began and named the group, and its answer to the search for members of the
  group listed the entry of the user. Without service credentials the check fails.
\<close>

theorem live_admin_check_is_fresh:
  assumes "verify_admin_group_membership_live e user grp c = (Ok (), c')"
  shows "\<exists>dn pw group_dn. service_bind_creds c = Some (dn, pw) \<and> group_dn \<noteq> []
    \<and> group_found e (l_looks (identity_resolver c)) c dn grp group_dn
    \<and> listed_member e (l_looks (identity_resolver c)) c dn user group_dn"
proof -
  obtain dn pw where dn: "service_bind_creds c = Some (dn, pw)"
    using assms by (cases "service_bind_creds c") (auto simp: verify_admin_group_membership_live_def)
  obtain g c1 where g: "with_identity (\<lambda>dn. lookup_group_dn (ui_net e) dn grp) c = (g, c1)" by fastforce
  with assms dn obtain group_dn where gdn: "g = Some group_dn" "group_dn \<noteq> []"
    by (auto simp: verify_admin_group_membership_live_def opt_filter_def split: option.splits if_splits)
  from group_lookup_found[OF g[unfolded gdn] dn] obtain r
    where found: "group_found e (l_looks (identity_resolver c)) c dn grp group_dn"
      and c1: "c1 = c\<lparr>identity_resolver := r\<rparr>" "framed (identity_resolver c) r" by blast
  obtain u c2 where u: "resolve_user_dn e user c1 = (u, c2)" by fastforce
  with assms dn g gdn obtain user_dn where udn: "u = Some user_dn"
    by (auto simp: verify_admin_group_membership_live_def opt_filter_def split: option.splits)
  obtain x c3 where x: "with_identity (\<lambda>dn r. case user_dn_memberof_check (ui_net e) dn user_dn group_dn r of (x, r) \<Rightarrow> (Some x, r)) c2 = (x, c3)"
    by fastforce
  with assms dn g gdn u udn have "x = Some (Inr True)"
    by (auto simp: verify_admin_group_membership_live_def opt_filter_def split: option.splits sum.splits bool.splits)
  moreover have "service_bind_creds c2 = Some (dn, pw)"
    using user_lookup_found[OF u[unfolded udn c1(1)], of dn pw] dn by auto
  ultimately obtain r' where "user_dn_memberof_check (ui_net e) dn user_dn group_dn (identity_resolver c2) = (Inr True, r')"
    using x by (auto simp: with_identity_def split: prod.splits)
  from listed_memberI[OF c1(2) dn u[unfolded udn c1(1)] this] dn gdn found show ?thesis by blast
qed

section \<open>Login\<close>

lemma found_same:
  assumes "framed (identity_resolver c) (identity_resolver d)" "lc_user_base d = lc_user_base c" "n \<le> m"
  shows "group_found e m d dn grp gdn \<Longrightarrow> group_found e n c dn grp gdn"
    "listed_member e m d dn user gdn \<Longrightarrow> listed_member e n c dn user gdn"
proof -
  have same: "group_filter d grp = group_filter c grp" "member_filter d gdn = member_filter c gdn"
    "user_filter_by_name user d = user_filter_by_name user c" "group_base (identity_resolver d) = group_base (identity_resolver c)"
    "user_base (identity_resolver d) = user_base (identity_resolver c)" "lc_user_base d = lc_user_base c"
    using assms(1,2) by (simp_all add: framed_def group_filter_def member_filter_def user_filter_by_name_def)
  note mono = asked_mono[OF _ assms(3)]
  show "group_found e m d dn grp gdn \<Longrightarrow> group_found e n c dn grp gdn"
    unfolding group_found_def same by (blast intro: mono)
  show "listed_member e m d dn user gdn \<Longrightarrow> listed_member e n c dn user gdn"
    unfolding listed_member_def same by (blast intro: mono)
qed

lemma bound_client:
  assumes "verify_user_credentials e user pw c = (Ok (), c')"
  obtains dn spw user_dn ms r1 r' t where "service_bind_creds c = Some (dn, spw)"
    "lookup_user_dn_and_memberof (ui_net e) dn user (identity_resolver c) = (Some (user_dn, ms), r1)"
    "ui_bind e (l_looks r1) user_dn pw = Some True" "framed r1 r'"
    "c' = c\<lparr>identity_resolver := r', last_verified_memberofs := Some (user, ms, t)\<rparr>"
proof -
  obtain x c1 where x: "with_identity (\<lambda>dn. lookup_user_dn_and_memberof (ui_net e) dn user) c = (x, c1)" by fastforce
  with assms obtain user_dn ms where udn: "x = Some (user_dn, ms)"
    by (auto simp: verify_user_credentials_def split: option.splits)
  from with_identity_Some[OF x[unfolded udn]] obtain dn spw r1
    where c1: "service_bind_creds c = Some (dn, spw)"
      "lookup_user_dn_and_memberof (ui_net e) dn user (identity_resolver c) = (Some (user_dn, ms), r1)"
      "c1 = c\<lparr>identity_resolver := r1\<rparr>" by blast
  let ?r2 = "r1\<lparr>l_looks := Suc (l_looks r1)\<rparr>"
  have "ui_bind e (l_looks r1) user_dn pw = Some True"
    and c': "c' = record_verified_memberofs e user ms (c\<lparr>identity_resolver := ?r2\<rparr>)"
    using assms x udn c1(3)
    by (auto simp: verify_user_credentials_def try_simple_bind_def bind_verdict_def unwrap_or_def Let_def
        split: bool.splits option.splits)
  moreover have "framed r1 (snd (read_clock (ui_net e) ?r2))"
    by (simp add: framed_def read_clock_def)
  ultimately show thesis
    using c1(1,2) that[of dn spw user_dn ms r1 "snd (read_clock (ui_net e) ?r2)" "fst (read_clock (ui_net e) ?r2)"]
    by (simp add: record_verified_memberofs_def client_clock_def case_prod_beta)
qed

text \<open>
  C26: A login through the directory needs the password and the membership: the server accepted a bind
  with the submitted password for the entry the service account found under the user name, and the
  administrator group, looked up during this login, is among the groups of that entry or lists the
  entry as a member.
\<close>

theorem login_needs_bind_and_membership:
  assumes "verify_user_is_admin e user pw grp c = (Ok (), c')"
  shows "\<exists>dn spw user_dn ms r1 group_dn. service_bind_creds c = Some (dn, spw)
    \<and> lookup_user_dn_and_memberof (ui_net e) dn user (identity_resolver c) = (Some (user_dn, ms), r1)
    \<and> ui_bind e (l_looks r1) user_dn pw = Some True
    \<and> group_dn \<noteq> [] \<and> group_found e (l_looks r1) c dn grp group_dn
    \<and> ((\<exists>m \<in> set ms. eq_ignore_ascii_case m group_dn) \<or> listed_member e (l_looks r1) c dn user group_dn)"
proof -
  obtain c1 where c1: "verify_user_credentials e user pw c = (Ok (), c1)" and mem: "fst (user_is_member_of e user grp c1)"
    using assms by (auto simp: verify_user_is_admin_def split: prod.splits sum.splits bool.splits)
  from bound_client[OF c1] obtain dn spw user_dn ms r1 r' t where b: "service_bind_creds c = Some (dn, spw)"
    "lookup_user_dn_and_memberof (ui_net e) dn user (identity_resolver c) = (Some (user_dn, ms), r1)"
    "ui_bind e (l_looks r1) user_dn pw = Some True" "framed r1 r'"
    "c1 = c\<lparr>identity_resolver := r', last_verified_memberofs := Some (user, ms, t)\<rparr>" .
  have "framed (identity_resolver c) r1" by (rule frame.keeps_lookup[OF b(2)]) simp
  then have fr: "framed (identity_resolver c) (identity_resolver c1)" "lc_user_base c1 = lc_user_base c" "l_looks r1 \<le> l_looks (identity_resolver c1)"
    using framed_trans b(4) by (auto simp: b(5) framed_def)
  have dn1: "service_bind_creds c1 = Some (dn, spw)" using b(1,5) by (simp add: service_bind_creds_def)
  obtain g c2 where g: "with_identity (\<lambda>dn. lookup_group_dn (ui_net e) dn grp) c1 = (g, c2)" by fastforce
  with mem obtain group_dn where gdn: "g = Some group_dn" "group_dn \<noteq> []"
    by (auto simp: user_is_member_of_def split: option.splits if_splits)
  from group_lookup_found[OF g[unfolded gdn] dn1] obtain r2
    where found: "group_found e (l_looks (identity_resolver c1)) c1 dn grp group_dn"
      and c2: "c2 = c1\<lparr>identity_resolver := r2\<rparr>" "framed (identity_resolver c1) r2" by blast
  have "(\<exists>m \<in> set ms. eq_ignore_ascii_case m group_dn) \<or> listed_member e (l_looks (identity_resolver c1)) c1 dn user group_dn"
  proof (cases "has_recent_memberof user group_dn c2")
    case True
    then show ?thesis by (auto simp: has_recent_memberof_def c2(1) b(5) list_ex_iff)
  next
    case False
    obtain u c3 where u: "resolve_user_dn e user c2 = (u, c3)" by fastforce
    with mem g gdn False obtain udn where udn: "u = Some udn"
      by (auto simp: user_is_member_of_def split: option.splits)
    have "service_bind_creds c3 = Some (dn, spw)"
      using user_lookup_found[OF u[unfolded udn c2(1)], of dn spw] dn1 by auto
    then obtain r3 where "user_dn_memberof_check (ui_net e) dn udn group_dn (identity_resolver c3) = (Inr True, r3)"
      using mem g gdn False u udn
      by (auto simp: user_is_member_of_def with_identity_def user_dn_has_memberof_def unwrap_or_def split: prod.splits sum.splits)
    from listed_memberI[OF c2(2) dn1 u[unfolded udn c2(1)] this] show ?thesis ..
  qed
  then show ?thesis using b(1-3) gdn(2) found_same[OF fr] found by blast
qed

text \<open>Nothing asks for a password that is not empty: the bind with an empty one is the server's to refuse.\<close>

lemma empty_password_is_sent:
  assumes "service_bind_creds c = Some (dn, spw)"
    and "lookup_user_dn_and_memberof (ui_net e) dn user (identity_resolver c) = (Some (user_dn, ms), r1)"
    and "ui_bind e (l_looks r1) user_dn [] = Some True"
  shows "fst (verify_user_credentials e user [] c) = Ok ()"
  using assms by (simp add: verify_user_credentials_def with_identity_def try_simple_bind_def bind_verdict_def unwrap_or_def Let_def)

section \<open>The owner field\<close>

lemma trim_closed:
  assumes "inked c" "inked d"
  shows "trim (l @ c # s @ [d]) = trim_start l @ c # s @ [d]"
proof -
  have "trim_start (l @ c # s @ [d]) = trim_start l @ c # s @ [d]"
    unfolding trim_start_def by (rule drop_ws_barrier) (simp_all add: ws_width_barrier assms(1) ws_width_le)
  moreover have "trim_end (trim_start l @ c # s @ [d]) = trim_start l @ c # s @ [d]"
    by (rule trim_end_id) (simp add: ws_width_rev_inked assms(2))
  ultimately show ?thesis by (simp add: trim_def)
qed

lemma trim_show_nat [simp]: "trim (show_nat n) = show_nat n"
proof (rule trim_inked)
  have "is_ascii_digit c" if "c \<in> set (show_nat n)" for c using show_nat_digits[of n] that by (simp add: list_all_iff)
  then show "inked (hd (show_nat n))" "inked (last (show_nat n))" by (simp_all add: digits_inked)
qed simp

lemma id_digits_show_nat: "id_digits (show_nat n) = show_nat n"
proof -
  obtain c s where s: "show_nat n = c # s" by (cases "show_nat n") (use show_nat_not_Nil[of n] in auto)
  with show_nat_digits[of n] have "is_ascii_digit c" by simp
  then have "c \<noteq> CHR ''U''" "c \<noteq> CHR ''u''" "c \<noteq> CHR ''G''" "c \<noteq> CHR ''g''" by (auto simp: is_ascii_digit_def)
  then show ?thesis by (simp add: id_digits_def strip_prefix_def s opt_or_def unwrap_or_def)
qed

text \<open>
  The label the panel puts into an owner field, a name followed by the number in parentheses, is read
  back as that number, whatever the name contains.
\<close>

theorem editor_label_roundtrip:
  "normalize_editor_search_query (Some (shown @ '' ('' @ show_nat n @ '')'')) = Some (show_nat n)"
proof -
  let ?s = "trim_start (shown @ '' '') @ CHR ''('' # show_nat n @ '')''"
  have "trim ((shown @ '' '') @ CHR ''('' # show_nat n @ [CHR '')'']) = ?s"
    by (rule trim_closed) (code_simp+)
  then have t: "trim (shown @ '' ('' @ show_nat n @ '')'') = ?s" by simp
  have "CHR ''('' \<notin> set (show_nat n)"
  proof
    assume "CHR ''('' \<in> set (show_nat n)"
    then have "is_ascii_digit CHR ''(''" using show_nat_digits[of n] by (simp add: list_all_iff)
    then show False by (simp add: is_ascii_digit_def)
  qed
  then have "rsplit_once CHR ''('' ?s = Some (trim_start (shown @ '' ''), show_nat n @ '')'')"
    by (simp add: rsplit_once_Some_iff)
  moreover have "ends_with ?s '')''" by (simp add: suffix_def)
  ultimately show ?thesis
    unfolding normalize_editor_search_query_def option.map t
    using show_nat_digits[of n] by (simp add: opt_filter_def id_digits_show_nat Let_def)
qed

section \<open>Witnesses\<close>

definition sample_ui :: ui_ldap_env where
  "sample_ui = \<lparr>ui_net = dir_with_alice, ui_bind = (\<lambda>_ _ pw. Some (pw = ''pw''))\<rparr>"

definition sample_client :: LdapClient where
  "sample_client = (new_with_attributes sample_resolver)\<lparr>lc_username := Some ''cn=svc'', lc_password := Some ''x''\<rparr>"

lemma alice_search: "fst (service_search dir_with_alice dn base flt attrs r) = Inr [alice_entry]"
  by (rule answered_search) (simp add: dir_with_alice_def)

lemma sample_lookup: "fst (lookup_first_dn dir_with_alice dn base flt r) = Some (se_dn alice_entry)"
  by (simp add: lookup_first_dn_def case_prod_beta alice_search)

lemma sample_group: "fst (lookup_group_dn dir_with_alice dn grp r) = Some (se_dn alice_entry)"
  by (simp add: lookup_group_dn_def Let_def sample_lookup)

lemma sample_check: "fst (user_dn_memberof_check dir_with_alice dn (se_dn alice_entry) gdn r) = Inr True"
  by (simp add: user_dn_memberof_check_def case_prod_beta alice_search)

lemma sample_memberof: "fst (lookup_user_dn_and_memberof dir_with_alice dn nm sample_resolver) = Some (se_dn alice_entry, [])"
  by (simp add: lookup_user_dn_and_memberof_def cached_memberof_def negative_hit_def sample_resolver_def resolver_new_def
      case_prod_beta alice_search Let_def) (simp add: alice_entry_def opt_or_def unwrap_or_def)

lemma sample_creds: "service_bind_creds sample_client = Some (''cn=svc'', ''x'')"
  by (simp add: sample_client_def service_bind_creds_def)

lemma with_identity_fst:
  "service_bind_creds c = Some (dn, pw) \<Longrightarrow> with_identity f c = (fst (f dn (identity_resolver c)), c\<lparr>identity_resolver := snd (f dn (identity_resolver c))\<rparr>)"
  by (simp add: with_identity_def case_prod_beta)

lemma sample_ui_net [simp]: "ui_net sample_ui = dir_with_alice"
  by (simp add: sample_ui_def)

lemma sample_resolve_dn: "service_bind_creds c = Some (dn, pw) \<Longrightarrow> fst (resolve_user_dn sample_ui nm c) = Some (se_dn alice_entry)"
  "service_bind_creds c = Some (dn, pw) \<Longrightarrow> service_bind_creds (snd (resolve_user_dn sample_ui nm c)) = Some (dn, pw)"
  by (simp_all add: resolve_user_dn_def fetch_entry_dn_def with_identity_fst sample_lookup)

lemma alice_dn: "se_dn alice_entry \<noteq> []"
  by (simp add: alice_entry_def)

theorem live_admin_check_is_fresh_witness:
  "\<exists>dn pw group_dn. service_bind_creds sample_client = Some (dn, pw) \<and> group_dn \<noteq> []
    \<and> group_found sample_ui 0 sample_client dn ''lldap_admin'' group_dn
    \<and> listed_member sample_ui 0 sample_client dn ''alice'' group_dn"
proof -
  have "fst (verify_admin_group_membership_live sample_ui ''alice'' ''lldap_admin'' sample_client) = Ok ()"
    using sample_creds alice_dn
    by (simp add: verify_admin_group_membership_live_def with_identity_fst case_prod_beta sample_resolve_dn opt_filter_def
        sample_group sample_check)
  then have "verify_admin_group_membership_live sample_ui ''alice'' ''lldap_admin'' sample_client
      = (Ok (), snd (verify_admin_group_membership_live sample_ui ''alice'' ''lldap_admin'' sample_client))"
    by (metis prod.collapse)
  from live_admin_check_is_fresh[OF this] show ?thesis
    by (simp add: sample_client_def new_with_attributes_def sample_resolver_def resolver_new_def)
qed

theorem login_needs_bind_and_membership_witness:
  "\<exists>dn spw user_dn ms r1 group_dn. service_bind_creds sample_client = Some (dn, spw)
    \<and> lookup_user_dn_and_memberof (ui_net sample_ui) dn ''alice'' sample_resolver = (Some (user_dn, ms), r1)
    \<and> ui_bind sample_ui (l_looks r1) user_dn ''pw'' = Some True
    \<and> group_dn \<noteq> [] \<and> group_found sample_ui (l_looks r1) sample_client dn ''lldap_admin'' group_dn
    \<and> ((\<exists>m \<in> set ms. eq_ignore_ascii_case m group_dn) \<or> listed_member sample_ui (l_looks r1) sample_client dn ''alice'' group_dn)"
proof -
  have client: "identity_resolver sample_client = sample_resolver"
    by (simp add: sample_client_def new_with_attributes_def)
  define c where "c = snd (verify_user_credentials sample_ui ''alice'' ''pw'' sample_client)"
  have c: "verify_user_credentials sample_ui ''alice'' ''pw'' sample_client = (Ok (), c)"
    using sample_creds
    by (simp add: c_def verify_user_credentials_def with_identity_fst case_prod_beta client sample_memberof try_simple_bind_def
        bind_verdict_def unwrap_or_def Let_def) (simp add: sample_ui_def)
  then have creds: "service_bind_creds c = Some (''cn=svc'', ''x'')"
    by (rule bound_client) (use sample_creds in \<open>simp add: service_bind_creds_def\<close>)
  have "fst (user_is_member_of sample_ui ''alice'' ''lldap_admin'' c)"
    using creds alice_dn
    by (simp add: user_is_member_of_def with_identity_fst case_prod_beta sample_resolve_dn sample_group user_dn_has_memberof_def
        sample_check unwrap_or_def)
  then have "fst (verify_user_is_admin sample_ui ''alice'' ''pw'' ''lldap_admin'' sample_client) = Ok ()"
    by (simp add: verify_user_is_admin_def c case_prod_beta)
  then have "verify_user_is_admin sample_ui ''alice'' ''pw'' ''lldap_admin'' sample_client
      = (Ok (), snd (verify_user_is_admin sample_ui ''alice'' ''pw'' ''lldap_admin'' sample_client))"
    by (metis prod.collapse)
  from login_needs_bind_and_membership[OF this] show ?thesis
    by (simp add: sample_client_def new_with_attributes_def)
qed

end
