(* ===== verification/Perm_Panel.thy ===== *)
theory Perm_Panel
  imports Acl_Watch Ui_Ldap
begin

text \<open>
  The pages of the permission editor (\<^verbatim>\<open>nfs-klldap-ui/src/web/permission_tree.rs\<close>, the part that reads): the cards
  of the shares, the rows of the tree, the panel of a node and the suggestions of the owner fields. What
  a page shows is a record; the templates that turn it into HTML are not modelled. The file system, the
  tools and the directory answer through \<open>ui_env\<close>; they do not change while one request is served.
\<close>

record ui_env =
  ue_ldap :: ui_ldap_env
  ue_acl :: acl_env
  ue_stat :: "path \<Rightarrow> NodeMeta option"
  ue_read_dir :: "path \<Rightarrow> dir_item list option"
  ue_getfacl :: "path \<Rightarrow> string option"
  ue_getfacl_batch :: "path list \<Rightarrow> string option"
  ue_date :: "nat \<Rightarrow> string"
  ue_snap :: "string option"
  ue_cfg :: NfsKlldapConfig
  keytab_hostname :: string

record ui_state =
  us_ldap :: LdapClient
  us_caps :: AclCapabilityCache

section \<open>Octal numbers\<close>

definition octal_digit :: "nat \<Rightarrow> char" where
  "octal_digit n = char_of (48 + n)"

fun show_octal :: "nat \<Rightarrow> string" where
  "show_octal n = (if n < 8 then [octal_digit n] else show_octal (n div 8) @ [octal_digit (n mod 8)])"

declare show_octal.simps [simp del]

text \<open>\<^verbatim>\<open>{:04o}\<close>, and \<^verbatim>\<open>u32::from_str_radix(s, 8)\<close>.\<close>

definition show_octal4 :: "32 word \<Rightarrow> string" where
  "show_octal4 w = (let s = show_octal (unat w) in replicate (4 - length s) CHR ''0'' @ s)"

definition is_octal_digit :: "char \<Rightarrow> bool" where
  "is_octal_digit c = (48 \<le> byte c \<and> byte c < 56)"

fun octal_value :: "nat \<Rightarrow> string \<Rightarrow> nat" where
  "octal_value acc [] = acc"
| "octal_value acc (c # s) = octal_value (8 * acc + (byte c - 48)) s"

definition from_str_radix_8 :: "string \<Rightarrow> 32 word option" where
  "from_str_radix_8 s =
     (let ds = (case s of c # r \<Rightarrow> if c = CHR ''+'' then r else s | [] \<Rightarrow> s)
      in if ds \<noteq> [] \<and> list_all is_octal_digit ds \<and> octal_value 0 ds \<le> 2 ^ 32 - 1
         then Some (of_nat (octal_value 0 ds)) else None)"

section \<open>Names of owners\<close>

definition shown_name :: "string \<times> string \<Rightarrow> string" where
  "shown_name r = (case r of (ident, display) \<Rightarrow> if display \<noteq> [] \<and> display \<noteq> ident then display else ident)"

definition owner_label :: "(string \<times> string) option \<Rightarrow> 32 word \<Rightarrow> string" where
  "owner_label res n =
     (case res of Some r \<Rightarrow> shown_name r @ '' ('' @ show_word n @ '')'' | None \<Rightarrow> show_word n)"

definition friendly_user_label :: "ui_ldap_env \<Rightarrow> 32 word \<Rightarrow> LdapClient \<Rightarrow> string \<times> LdapClient" where
  "friendly_user_label e uid c =
     (if uid = 0 then (''nobody (0)'', c)
      else case client_resolve_user_by_uid e uid c of (res, c) \<Rightarrow> (owner_label res uid, c))"

definition friendly_group_label :: "ui_ldap_env \<Rightarrow> 32 word \<Rightarrow> LdapClient \<Rightarrow> string \<times> LdapClient" where
  "friendly_group_label e gid c =
     (if gid = 0 then (''nobody (0)'', c)
      else case client_resolve_group_by_gid e gid c of (res, c) \<Rightarrow> (owner_label res gid, c))"

definition friendly_user_name :: "ui_ldap_env \<Rightarrow> 32 word \<Rightarrow> LdapClient \<Rightarrow> (string \<times> bool) \<times> LdapClient" where
  "friendly_user_name e uid c =
     (if uid = 0 then ((show_word uid, False), c)
      else case client_resolve_user_by_uid e uid c of
        (Some r, c) \<Rightarrow> ((shown_name r, False), c)
      | (None, c) \<Rightarrow> ((show_word uid, True), c))"

definition friendly_group_name :: "ui_ldap_env \<Rightarrow> 32 word \<Rightarrow> LdapClient \<Rightarrow> (string \<times> bool) \<times> LdapClient" where
  "friendly_group_name e gid c =
     (if gid = 0 then ((show_word gid, False), c)
      else case client_resolve_group_by_gid e gid c of
        (Some r, c) \<Rightarrow> ((shown_name r, False), c)
      | (None, c) \<Rightarrow> ((show_word gid, True), c))"

section \<open>Suggestions\<close>

definition query_raw :: "string option \<Rightarrow> string option" where
  "query_raw q = opt_filter (\<lambda>s. s \<noteq> []) (map_option trim q)"

definition nobody_suggestion_matches :: "string option \<Rightarrow> bool" where
  "nobody_suggestion_matches raw_query =
     (let q = to_lowercase (unwrap_or (normalize_editor_search_query raw_query) [])
      in q = [] \<or> contains_str ''nobody'' q \<or> contains_str ''root'' q \<or> q = ''0'')"

definition escape_text :: "string \<Rightarrow> string" where
  "escape_text s = replace_char CHR ''>'' ''&gt;'' (replace_char CHR ''<'' ''&lt;'' (replace_char CHR ''&'' ''&amp;'' s))"

definition escape_attr :: "string \<Rightarrow> string" where
  "escape_attr s = replace_char CHR 0x22 ''&quot;'' (escape_text s)"

datatype suggestion =
    Nobody
  | Suggested (sug_id: string) (sug_num: "32 word") (sug_label: string)
  | SearchUnavailable
  | NoMatches

definition suggestion_of :: "string \<Rightarrow> ListRow \<Rightarrow> suggestion option" where
  "suggestion_of unit_name row =
     (case row of (ident, num, display) \<Rightarrow>
        map_option (\<lambda>n. Suggested (escape_attr ident) n (escape_text display @ '' ('' @ unit_name @ '' '' @ show_i32 n @ '')'')) num)"

definition search_entries :: "ui_ldap_env \<Rightarrow> bool \<Rightarrow> string option \<Rightarrow> LdapClient \<Rightarrow> suggestion list \<times> LdapClient" where
  "search_entries e is_user field c =
     (let q = query_raw field; first = (if nobody_suggestion_matches q then [Nobody] else []) in
      case list_entries e is_user q c of
        (None, c) \<Rightarrow> (first @ [SearchUnavailable], c)
      | (Some rows, c) \<Rightarrow>
          let res = first @ List.map_filter (suggestion_of (if is_user then ''UID'' else ''GID'')) rows
          in (if res = [] then [NoMatches] else res, c))"

definition search_users :: "ui_ldap_env \<Rightarrow> string option \<Rightarrow> LdapClient \<Rightarrow> suggestion list \<times> LdapClient" where
  "search_users e = search_entries e True"

definition search_groups :: "ui_ldap_env \<Rightarrow> string option \<Rightarrow> LdapClient \<Rightarrow> suggestion list \<times> LdapClient" where
  "search_groups e = search_entries e False"

section \<open>Rows of the tree\<close>

datatype file_category =
    TextKind | CodeKind | ImageKind | AudioKind | VideoKind | DiscKind | SoftKind | WinKind | DosKind
  | FontKind | DataKind | UnknownKind | DirectoryKind

definition kind_by_name :: "(string list \<times> file_category) list" where
  "kind_by_name =
    [([''readme'', ''license'', ''licence'', ''copying'', ''changelog'', ''changes'', ''install'', ''authors'',
      ''contributors'', ''news'', ''todo'', ''notice'', ''version'', ''.gitignore'', ''.gitattributes'',
      ''.gitconfig'', ''.gitmodules'', ''.editorconfig'', ''.dockerignore'', ''.env'', ''.npmrc''],
      TextKind),
     ([''makefile'', ''gnumakefile'', ''dockerfile'', ''containerfile'', ''vagrantfile'', ''jenkinsfile'',
      ''justfile'', ''rakefile'', ''gemfile'', ''kconfig'', ''.bashrc'', ''.zshrc'', ''.profile'', ''.bash_profile'',
      ''.bash_aliases'', ''.vimrc'', ''go.mod'', ''go.sum''],
      CodeKind),
     ([''config.sys''],
      DosKind)]"

definition kind_by_extension :: "(string list \<times> file_category) list" where
  "kind_by_extension =
    [([''txt'', ''text'', ''md'', ''markdown'', ''mdown'', ''rst'', ''adoc'', ''asciidoc'', ''org'', ''tex'', ''log'',
      ''rtf'', ''pdf'', ''doc'', ''docx'', ''odt'', ''odp'', ''ods'', ''xls'', ''xlsx'', ''ppt'', ''pptx'', ''epub'',
      ''mobi'', ''csv'', ''tsv'', ''conf'', ''cfg'', ''cnf'', ''ini'', ''toml'', ''yaml'', ''yml'', ''json'',
      ''json5'', ''jsonl'', ''ndjson'', ''xml'', ''xsl'', ''xslt'', ''man'', ''po'', ''pot'', ''ics'', ''vcf'',
      ''srt'', ''sub'', ''vtt'', ''ass'', ''ssa'', ''idx'', ''nfo'', ''pem'', ''crt'', ''cer'', ''csr'', ''key'',
      ''pub'', ''asc'', ''desktop'', ''service'', ''timer'', ''socket'', ''mount'', ''automount'', ''target'',
      ''path'', ''netdev'', ''network'', ''link'', ''swap'', ''rules'', ''repo'', ''list'', ''spec'', ''properties'',
      ''env''],
      TextKind),
     ([''sh'', ''bash'', ''zsh'', ''ksh'', ''csh'', ''tcsh'', ''fish'', ''ps1'', ''psm1'', ''py'', ''pyw'', ''pyi'',
      ''ipynb'', ''rb'', ''erb'', ''pl'', ''pm'', ''php'', ''phtml'', ''lua'', ''tcl'', ''awk'', ''c'', ''h'', ''i'',
      ''cpp'', ''cxx'', ''cc'', ''hpp'', ''hxx'', ''hh'', ''m'', ''mm'', ''cs'', ''java'', ''jsp'', ''kt'', ''kts'',
      ''scala'', ''groovy'', ''go'', ''rs'', ''swift'', ''dart'', ''zig'', ''nim'', ''vala'', ''d'', ''jl'', ''r'',
      ''rmd'', ''hs'', ''lhs'', ''ml'', ''mli'', ''erl'', ''hrl'', ''ex'', ''exs'', ''clj'', ''cljs'', ''edn'',
      ''lisp'', ''el'', ''scm'', ''rkt'', ''f'', ''f77'', ''f90'', ''f95'', ''for'', ''asm'', ''s'', ''pas'',
      ''ada'', ''adb'', ''ads'', ''cob'', ''cbl'', ''js'', ''mjs'', ''cjs'', ''jsx'', ''tsx'', ''vue'', ''svelte'',
      ''html'', ''htm'', ''xhtml'', ''css'', ''scss'', ''sass'', ''less'', ''sql'', ''psql'', ''cmake'', ''mk'',
      ''mak'', ''m4'', ''gradle'', ''sbt'', ''bzl'', ''nix'', ''tf'', ''tfvars'', ''proto'', ''thrift'', ''graphql'',
      ''gql'', ''patch'', ''diff'', ''vim''],
      CodeKind),
     ([''jpg'', ''jpeg'', ''jpe'', ''jfif'', ''png'', ''apng'', ''gif'', ''webp'', ''svg'', ''svgz'', ''bmp'',
      ''dib'', ''tif'', ''tiff'', ''heic'', ''heif'', ''avif'', ''jxl'', ''ico'', ''icns'', ''eps'', ''psd'',
      ''xcf'', ''tga'', ''exr'', ''hdr'', ''qoi'', ''jp2'', ''j2k'', ''xpm'', ''xbm'', ''pbm'', ''pgm'', ''ppm'',
      ''pnm'', ''emf'', ''wmf'', ''cr2'', ''cr3'', ''nef'', ''arw'', ''orf'', ''rw2'', ''raf'', ''dng'', ''pef''],
      ImageKind),
     ([''mp3'', ''flac'', ''ogg'', ''oga'', ''opus'', ''wav'', ''aac'', ''m4a'', ''m4b'', ''aiff'', ''aif'', ''aifc'',
      ''ape'', ''wv'', ''wma'', ''mid'', ''midi'', ''kar'', ''mka'', ''amr'', ''ra'', ''ram'', ''au'', ''snd'',
      ''dsf'', ''dff'', ''spx'', ''caf'', ''ac3'', ''dts'', ''mpa'', ''gsm'', ''mpc'', ''tta'', ''mod'', ''xm'',
      ''it'', ''s3m'', ''sid'', ''m3u'', ''m3u8'', ''pls''],
      AudioKind),
     ([''mp4'', ''mkv'', ''avi'', ''mov'', ''webm'', ''wmv'', ''m4v'', ''mpg'', ''mpeg'', ''mpe'', ''m1v'', ''m2v'',
      ''ts'', ''m2ts'', ''mts'', ''vob'', ''ogv'', ''ogm'', ''3gp'', ''3g2'', ''asf'', ''rm'', ''rmvb'', ''divx'',
      ''f4v'', ''flv'', ''mxf'', ''dv'', ''y4m''],
      VideoKind),
     ([''iso'', ''img'', ''raw'', ''qcow'', ''qcow2'', ''qed'', ''vdi'', ''vhd'', ''vhdx'', ''vmdk'', ''dmg'',
      ''wim'', ''nrg'', ''mdf'', ''mds'', ''cue'', ''ccd'', ''toast'', ''squashfs'', ''sqsh'', ''sfs'', ''erofs'',
      ''sif'', ''ova'', ''ovf'', ''box'', ''ima'', ''vfd''],
      DiscKind),
     ([''deb'', ''rpm'', ''appimage'', ''flatpak'', ''flatpakref'', ''snap'', ''apk'', ''ipa'', ''pkg'', ''so'',
      ''ko'', ''o'', ''a'', ''run'', ''efi'', ''rom'', ''fw'', ''jar'', ''war'', ''ear'', ''whl'', ''egg'', ''gem'',
      ''class'', ''pyc'', ''crx'', ''xpi'', ''vsix''],
      SoftKind),
     ([''exe'', ''dll'', ''msi'', ''msix'', ''msp'', ''msu'', ''lnk'', ''reg'', ''cpl'', ''ocx'', ''scr'', ''sys'',
      ''drv'', ''inf'', ''cat'', ''chm'', ''hlp'', ''cur'', ''ani'', ''theme'', ''appx'', ''cab'', ''cmd'', ''vbs'',
      ''wsf''],
      WinKind),
     ([''com'', ''bat'', ''pif''],
      DosKind),
     ([''ttf'', ''otf'', ''ttc'', ''woff'', ''woff2'', ''eot'', ''pfb'', ''pfa'', ''fnt''],
      FontKind),
     ([''zip'', ''zipx'', ''tar'', ''gz'', ''tgz'', ''bz2'', ''tbz'', ''tbz2'', ''xz'', ''txz'', ''lz'', ''lzma'',
      ''lzo'', ''lz4'', ''zst'', ''tzst'', ''br'', ''7z'', ''rar'', ''cpio'', ''lha'', ''lzh'', ''pak'', ''db'',
      ''db3'', ''sqlite'', ''sqlite3'', ''mdb'', ''accdb'', ''dbf'', ''bak'', ''dump'', ''dat'', ''bin'',
      ''parquet'', ''orc'', ''avro'', ''arrow'', ''feather'', ''h5'', ''hdf5'', ''nc'', ''npy'', ''npz'', ''pkl'',
      ''pickle'', ''rds'', ''rdata'', ''gguf'', ''safetensors'', ''onnx'', ''pt'', ''pth'', ''ckpt'', ''torrent''],
      DataKind)]"

fun category_in :: "(string list \<times> file_category) list \<Rightarrow> string \<Rightarrow> file_category option" where
  "category_in [] s = None"
| "category_in ((ns, k) # t) s = (if s \<in> set ns then Some k else category_in t s)"

definition file_kind :: "string \<Rightarrow> file_category" where
  "file_kind nm =
     (let lower = to_ascii_lowercase nm in
      case category_in kind_by_name lower of
        Some k \<Rightarrow> k
      | None \<Rightarrow>
          (case opt_filter (\<lambda>(stem, _). stem \<noteq> []) (rsplit_once CHR ''.'' lower) of
             None \<Rightarrow> UnknownKind
           | Some (_, ext) \<Rightarrow> unwrap_or (category_in kind_by_extension ext) UnknownKind))"

record EntryView =
  ev_path :: string
  ev_name :: string
  ev_is_dir :: bool
  ev_kind :: file_category
  ev_mtime :: string
  acl_plus :: bool

definition from_fs_entry :: "(nat \<Rightarrow> string) \<Rightarrow> FsEntry \<Rightarrow> EntryView" where
  "from_fs_entry date e =
     \<lparr>ev_path = path_text (e_path e), ev_name = e_name e, ev_is_dir = (e_kind e = Dir),
      ev_kind = (if e_kind e = Dir then DirectoryKind else file_kind (e_name e)),
      ev_mtime = (case e_mtime e of Some t \<Rightarrow> date t | None \<Rightarrow> []), acl_plus = False\<rparr>"

datatype path_hint = OutsideHint | UnmappedHint | MissingHint string string | UnreadableHint

definition hint_of :: "PathDiagnostic \<Rightarrow> path_hint" where
  "hint_of d =
     (if \<not> diag_allowed d then OutsideHint
      else case diag_container d of
        None \<Rightarrow> UnmappedHint
      | Some p \<Rightarrow> if \<not> diag_exists d then MissingHint (path_text p) (diag_serve d) else UnreadableHint)"

datatype tree_page =
    TreeRows "EntryView list"
  | TreeRoot string string "EntryView list"
  | NoTree string path_hint

definition tree_fragment_html :: "ui_env \<Rightarrow> string \<Rightarrow> bool \<Rightarrow> ui_state \<Rightarrow> tree_page \<times> ui_state" where
  "tree_fragment_html env p root_request s =
     (case list_dir (ue_read_dir env) (ue_cfg env) p of
        None \<Rightarrow> (NoTree (escape_text p) (hint_of (diagnose_path (acl_is_dir (ue_acl env)) (ue_cfg env) p)), s)
      | Some entries \<Rightarrow>
          let children = map (from_fs_entry (ue_date env)) entries in
          case share_acl_gate (ue_acl env) (ue_snap env) (ue_cfg env) p (us_caps s) of
            (gate, caps) \<Rightarrow>
              let ext = extended_acl_names (ue_getfacl_batch env) (ue_cfg env) p (map ev_name children);
                  children = (if editable gate then map (\<lambda>c. c\<lparr>acl_plus := ev_name c \<in> ext\<rparr>) children else children);
                  norm = normalize_path p
              in (if root_request then TreeRoot norm (unwrap_or (file_name norm) norm) children else TreeRows children,
                  s\<lparr>us_caps := caps\<rparr>))"

section \<open>Cards of the shares\<close>

record ShareInfo =
  si_name :: string
  nfs_path :: string
  si_host_path :: string
  si_access :: string
  squash_label :: string
  si_cache_profile :: string
  si_warning :: "ShareFieldWarning option"
  security_chip :: "string option"
  si_navahi :: bool
  si_acl_capable :: bool
  acl_probed :: string

definition share_info :: "ui_env \<Rightarrow> nat \<times> Share \<Rightarrow> AclCapabilityCache \<Rightarrow> ShareInfo \<times> AclCapabilityCache" where
  "share_info env x caps =
     (case x of (i, sh) \<Rightarrow>
        let cfg = ue_cfg env;
            fallback = (let v = trim (default_security (ganesha cfg)) in if v = [] then GANESHA_DEFAULT_SECTYPE else v)
        in case share_acl_status (ue_acl env) (ue_snap env) sh caps of
             (status, caps) \<Rightarrow>
               (\<lparr>si_name = name sh, nfs_path = keytab_hostname env @ '':'' @ derive_share_pseudo sh,
                 si_host_path = host_path sh,
                 si_access = (if unwrap_or (rw sh) True then ''RW'' else ''RO''),
                 squash_label = unwrap_or (squash sh) GANESHA_DEFAULT_SQUASH,
                 si_cache_profile = to_lowercase (unwrap_or (opt_filter (\<lambda>v. trim v \<noteq> []) (cache_profile sh)) ''Default''),
                 si_warning = warning_for_share (share_warnings cfg) i (name sh),
                 security_chip = opt_filter (\<lambda>v. v \<noteq> [] \<and> v \<noteq> fallback) (map_option trim (security sh)),
                 si_navahi = (navahi_discovery cfg \<and> unwrap_or (navahi_insecure sh) False),
                 si_acl_capable = effective_acl_capable status, acl_probed = probed status\<rparr>, caps))"

fun share_cards :: "ui_env \<Rightarrow> (nat \<times> Share) list \<Rightarrow> AclCapabilityCache \<Rightarrow> ShareInfo list \<times> AclCapabilityCache" where
  "share_cards env [] caps = ([], caps)"
| "share_cards env (x # xs) caps =
     (case share_info env x caps of (info, caps) \<Rightarrow>
      case share_cards env xs caps of (infos, caps) \<Rightarrow> (info # infos, caps))"

definition index_html :: "ui_env \<Rightarrow> ui_state \<Rightarrow> ShareInfo list \<times> ui_state" where
  "index_html env s =
     (case share_cards env (List.enumerate 0 (shares (ue_cfg env))) (us_caps s) of (infos, caps) \<Rightarrow> (infos, s\<lparr>us_caps := caps\<rparr>))"

section \<open>The panel of a node\<close>

record AclEntryView =
  av_name :: string
  av_id :: "32 word"
  av_perms :: AclPerms
  av_effective :: AclPerms
  capped :: bool
  unknown :: bool

record DirPermsTemplate =
  v_path :: string
  owner_display :: string
  group_display :: string
  owner_uid_hidden :: string
  owner_gid_hidden :: string
  mode_octal :: string
  v_user :: AclPerms
  v_group :: AclPerms
  v_other :: AclPerms
  v_setgid :: bool
  v_sticky :: bool
  v_is_dir :: bool
  meta_hint :: "path_hint option"
  serve_path_display :: string
  v_gate :: AclGateView
  v_users :: "AclEntryView list"
  v_groups :: "AclEntryView list"
  v_mask :: "AclPerms option"
  v_default_users :: "AclEntryView list"
  v_default_groups :: "AclEntryView list"
  v_default_mask :: "AclPerms option"
  acl_extended :: bool
  acl_disk_note :: bool

definition triad :: "32 word \<Rightarrow> 32 word \<Rightarrow> 32 word \<Rightarrow> 32 word \<Rightarrow> AclPerms" where
  "triad mode r w x = \<lparr>perm_r = (mode AND r \<noteq> 0), perm_w = (mode AND w \<noteq> 0), perm_x = (mode AND x \<noteq> 0)\<rparr>"

text \<open>One line of the table: a row for a named user or group, nothing for the base entries and the mask.\<close>

definition entry_view :: "AclTable \<Rightarrow> bool \<Rightarrow> AclLine \<Rightarrow> 32 word \<Rightarrow> string \<times> bool \<Rightarrow> AclEntryView" where
  "entry_view t d l n who =
     (let eff = effective_perms t l d in
      \<lparr>av_name = fst who, av_id = n, av_perms = line_perms l, av_effective = eff,
       capped = (eff \<noteq> line_perms l), unknown = snd who\<rparr>)"

fun acl_rows :: "ui_ldap_env \<Rightarrow> AclTable \<Rightarrow> bool \<Rightarrow> AclLine list \<Rightarrow> LdapClient
    \<Rightarrow> (AclEntryView list \<times> AclEntryView list) \<times> LdapClient" where
  "acl_rows e t d [] c = (([], []), c)"
| "acl_rows e t d (l # ls) c =
     (case tag l of
        NamedUser uid \<Rightarrow>
          (case friendly_user_name e uid c of (who, c) \<Rightarrow>
           case acl_rows e t d ls c of ((us, gs), c) \<Rightarrow> ((entry_view t d l uid who # us, gs), c))
      | NamedGroup gid \<Rightarrow>
          (case friendly_group_name e gid c of (who, c) \<Rightarrow>
           case acl_rows e t d ls c of ((us, gs), c) \<Rightarrow> ((us, entry_view t d l gid who # gs), c))
      | _ \<Rightarrow> acl_rows e t d ls c)"

definition owner_fields :: "ui_ldap_env \<Rightarrow> NodeMeta option \<Rightarrow> LdapClient \<Rightarrow> (string \<times> string) \<times> LdapClient" where
  "owner_fields e meta c =
     (case meta of
        None \<Rightarrow> ((''(unavailable)'', ''(unavailable)''), c)
      | Some m \<Rightarrow>
          (case friendly_user_label e (n_uid m) c of (u, c) \<Rightarrow>
           case friendly_group_label e (n_gid m) c of (g, c) \<Rightarrow> ((u, g), c)))"

definition dir_perms :: "ui_env \<Rightarrow> string \<Rightarrow> ui_state \<Rightarrow> DirPermsTemplate \<times> ui_state" where
  "dir_perms env p s =
     (let cfg = ue_cfg env;
          meta = get_node_meta (ue_stat env) cfg p;
          diag = diagnose_path (acl_is_dir (ue_acl env)) cfg p;
          table = unwrap_or (get_acl_table (ue_getfacl env) cfg p) \<lparr>access = [], dflt = []\<rparr>;
          mode = (case meta of Some m \<Rightarrow> n_mode m | None \<Rightarrow> 0)
      in case share_acl_gate (ue_acl env) (ue_snap env) cfg p (us_caps s) of (gate, caps) \<Rightarrow>
         case owner_fields (ue_ldap env) meta (us_ldap s) of ((u, g), c) \<Rightarrow>
         case acl_rows (ue_ldap env) table False (access table) c of ((us, gs), c) \<Rightarrow>
         case acl_rows (ue_ldap env) table True (dflt table) c of ((dus, dgs), c) \<Rightarrow>
           (\<lparr>v_path = p, owner_display = u, group_display = g,
             owner_uid_hidden = (case meta of Some m \<Rightarrow> show_word (n_uid m) | None \<Rightarrow> []),
             owner_gid_hidden = (case meta of Some m \<Rightarrow> show_word (n_gid m) | None \<Rightarrow> []),
             mode_octal = (case meta of Some m \<Rightarrow> show_octal4 (n_mode m AND 0xFFF) | None \<Rightarrow> ''0755''),
             v_user = triad mode 0x100 0x80 0x40, v_group = triad mode 0x20 0x10 0x8, v_other = triad mode 0x4 0x2 0x1,
             v_setgid = (mode AND 0x400 \<noteq> 0), v_sticky = (mode AND 0x200 \<noteq> 0),
             v_is_dir = (case meta of Some m \<Rightarrow> n_is_dir m | None \<Rightarrow> True),
             meta_hint = (if meta = None then Some (hint_of diag) else None),
             serve_path_display = (case diag_container diag of Some q \<Rightarrow> path_text q | None \<Rightarrow> diag_serve diag),
             v_gate = gate, v_users = us, v_groups = gs, v_mask = mask_of table False,
             v_default_users = dus, v_default_groups = dgs, v_default_mask = mask_of table True,
             acl_extended = is_extended table, acl_disk_note = (\<not> editable gate \<and> is_extended table)\<rparr>,
            s\<lparr>us_ldap := c, us_caps := caps\<rparr>))"

end
