(* ===== verification/Apply_Ui.thy ===== *)
theory Apply_Ui
  imports Perm_Panel Web_Auth
begin

text \<open>
  Applying permissions from the web interface (\<^verbatim>\<open>nfs-klldap-ui/src/web/permission_tree.rs\<close>, the part that writes):
  how a submitted form becomes an owner, a group, a mode and a batch of access-list edits, the single
  slot an apply has to claim, the task that carries it out, and the log page that follows it. The parser
  of the staged edits (\<^verbatim>\<open>serde_json\<close>) is a parameter. A panic of a task is not modelled.
\<close>

section \<open>Forms\<close>

record ApplyForm =
  af_path :: string
  af_owner_user :: string
  af_owner_group :: string
  af_mode :: string
  af_scope :: string
  af_file_mode :: string
  af_owner_uid :: string
  af_owner_gid :: string
  af_acl_ops :: string

record AclOpSpec =
  so_op :: string
  so_typ :: string
  so_id :: string
  so_name :: string
  so_perms :: string
  so_layer :: string

record AclApplyForm =
  aa_path :: string
  aa_op :: string
  aa_typ :: string
  aa_id :: string
  aa_name :: string
  aa_perms :: string
  aa_selected :: string
  aa_layer :: string
  aa_scope :: string

datatype apply_refusal =
    Busy
  | OwnerUnknown string string
  | OwnerUnreadable
  | SpecialFileBits
  | OpsUnparsed
  | AclClosed string
  | DefaultOnFile
  | PrincipalUnknown string
  | UnknownOp

type_synonym staged_op = "AclModification \<times> AclModification \<times> string \<times> string"

record apply_job =
  j_path :: string
  j_uid :: "32 word"
  j_gid :: "32 word"
  j_spec :: ApplySpec
  j_acl :: "staged_op list"
  j_cmd :: string

record acl_job =
  aj_path :: string
  aj_op :: string
  aj_dir_mod :: AclModification
  aj_file_mod :: AclModification
  aj_scope :: ApplyScope
  aj_cmd :: string

section \<open>The owner and the group\<close>

definition name_is_zero :: "string \<Rightarrow> bool" where
  "name_is_zero s = (eq_ignore_ascii_case s ''nobody'' \<or> eq_ignore_ascii_case s ''root'')"

text \<open>What a field says without the directory: a number, or that the name has to be looked up.\<close>

definition typed_id :: "string \<Rightarrow> string \<Rightarrow> 32 word option \<times> bool" where
  "typed_id hidden field =
     (case parse_u32 (trim hidden) of
        Some n \<Rightarrow> (Some n, False)
      | None \<Rightarrow>
          (case normalize_editor_search_query (Some field) of
             None \<Rightarrow> (None, False)
           | Some t \<Rightarrow>
               (case parse_u32 t of
                  Some n \<Rightarrow> (Some n, False)
                | None \<Rightarrow> if name_is_zero t then (Some 0, False) else (None, True))))"

definition lookup_id ::
  "(string \<Rightarrow> LdapClient \<Rightarrow> (32 word \<times> string) option \<times> LdapClient) \<Rightarrow> string \<Rightarrow> string \<Rightarrow> 32 word option \<times> bool
   \<Rightarrow> LdapClient \<Rightarrow> (apply_refusal, 32 word option) result \<times> LdapClient" where
  "lookup_id resolve kind field typed c =
     (case typed of (n, needed) \<Rightarrow>
        if \<not> needed then (Ok n, c)
        else case resolve field c of
          (Some (m, _), c) \<Rightarrow> (Ok (Some m), c)
        | (None, c) \<Rightarrow> (Err (OwnerUnknown kind (escape_text field)), c))"

definition resolve_owners ::
  "ui_env \<Rightarrow> ApplyForm \<Rightarrow> LdapClient \<Rightarrow> (apply_refusal, 32 word \<times> 32 word) result \<times> LdapClient" where
  "resolve_owners env f c =
     (case lookup_id (client_resolve_user (ue_ldap env)) ''user'' (af_owner_user f)
             (typed_id (af_owner_uid f) (af_owner_user f)) c of
        (Inl e, c) \<Rightarrow> (Err e, c)
      | (Inr u, c) \<Rightarrow>
          (case lookup_id (client_resolve_group (ue_ldap env)) ''group'' (af_owner_group f)
                  (typed_id (af_owner_gid f) (af_owner_group f)) c of
             (Inl e, c) \<Rightarrow> (Err e, c)
           | (Inr g, c) \<Rightarrow>
               (case (u, g, get_dir_meta (ue_stat env) (ue_cfg env) (af_path f)) of
                  (Some u, Some g, _) \<Rightarrow> (Ok (u, g), c)
                | (_, _, Some (cu, cg, _)) \<Rightarrow> (Ok (unwrap_or u cu, unwrap_or g cg), c)
                | (_, _, None) \<Rightarrow> (Err OwnerUnreadable, c))))"

section \<open>Access-list edits\<close>

definition is_user_kind :: "string \<Rightarrow> bool" where
  "is_user_kind typ = (let t = to_lowercase (trim typ) in t = ''user'' \<or> t = ''u'')"

definition perms_of :: "string \<Rightarrow> AclPerms" where
  "perms_of perms = from_str (if trim perms = [] then ''r--'' else trim perms)"

definition build_acl_modification ::
  "string \<Rightarrow> bool \<Rightarrow> 32 word \<Rightarrow> AclEntryKind list \<Rightarrow> string \<Rightarrow> bool \<Rightarrow> bool \<Rightarrow> string
   \<Rightarrow> (AclModification \<times> AclModification \<times> string) option" where
  "build_acl_modification op is_user ident delete_kinds perms dl node_is_dir p =
     (let dflag = (if dl then ''-d '' else []);
          kind = (if is_user then UserEntry ident else GroupEntry ident);
          lit = perms_of perms;
          fused = (if node_is_dir then dir_r_implies_x lit else lit)
      in if op = ''mask''
         then Some (SetMask fused dl, SetMask lit dl, ''setfacl '' @ dflag @ ''-m m::'' @ to_str fused @ '' '' @ p)
         else if op = ''add'' \<or> op = ''edit'' \<or> op = ''set''
         then Some (SetEntry kind fused dl, SetEntry kind lit dl,
                ''setfacl '' @ dflag @ ''-m '' @ (if is_user then ''u'' else ''g'') @ '':'' @ show_word ident @ '':''
                  @ to_str fused @ '' '' @ p)
         else if op = ''delete'' \<or> op = ''del''
         then let kinds = (if delete_kinds = [] \<and> ident > 0 then [kind] else delete_kinds)
              in Some (RemoveEntries kinds dl, RemoveEntries kinds dl,
                   if kinds = [] then ''setfacl '' @ dflag @ ''-x (no-op) '' @ p
                   else ''setfacl '' @ dflag @ ''-x '' @ join '','' (map entry_spec kinds) @ '' '' @ p)
         else None)"

text \<open>A principal given by name: a number in the text, or what the directory knows under the name.\<close>

definition principal_id :: "ui_ldap_env \<Rightarrow> bool \<Rightarrow> string \<Rightarrow> LdapClient \<Rightarrow> 32 word \<times> LdapClient" where
  "principal_id e is_user text c =
     (case normalize_editor_search_query (Some text) of
        None \<Rightarrow> (0, c)
      | Some stripped \<Rightarrow>
          (case parse_u32 stripped of
             Some n \<Rightarrow> (n, c)
           | None \<Rightarrow>
               (case (if is_user then client_resolve_user e stripped c else client_resolve_group e stripped c) of
                  (Some (n, _), c) \<Rightarrow> (n, c)
                | (None, c) \<Rightarrow> (0, c))))"

definition stage_op ::
  "ui_ldap_env \<Rightarrow> bool \<Rightarrow> string \<Rightarrow> AclOpSpec \<Rightarrow> LdapClient \<Rightarrow> (apply_refusal, staged_op) result \<times> LdapClient" where
  "stage_op e target_is_file p sp c =
     (let op = to_lowercase (trim (so_op sp));
          is_user = is_user_kind (so_typ sp);
          dl = eq_ignore_ascii_case (trim (so_layer sp)) ''default'';
          given = unwrap_or (parse_u32 (trim (so_id sp))) 0
      in if dl \<and> target_is_file then (Err DefaultOnFile, c)
         else case (if given = 0 \<and> op \<noteq> ''mask'' \<and> trim (so_name sp) \<noteq> [] then principal_id e is_user (so_name sp) c
                    else (given, c)) of
           (ident, c) \<Rightarrow>
             if ident = 0 \<and> op \<noteq> ''mask''
             then (Err (PrincipalUnknown (replace_char CHR 0x22 ''&quot;'' (replace_char CHR ''>'' ''&gt;''
                     (replace_char CHR ''<'' ''&lt;'' (so_name sp))))), c)
             else case build_acl_modification op is_user ident [] (so_perms sp) dl (\<not> target_is_file) p of
               None \<Rightarrow> (Err UnknownOp, c)
             | Some (dm, fm, cmd) \<Rightarrow> (Ok (dm, fm, cmd, op), c))"

fun stage_ops ::
  "ui_ldap_env \<Rightarrow> bool \<Rightarrow> string \<Rightarrow> AclOpSpec list \<Rightarrow> LdapClient \<Rightarrow> (apply_refusal, staged_op list) result \<times> LdapClient" where
  "stage_ops e target_is_file p [] c = (Ok [], c)"
| "stage_ops e target_is_file p (sp # sps) c =
     (case stage_op e target_is_file p sp c of
        (Inl r, c) \<Rightarrow> (Err r, c)
      | (Inr x, c) \<Rightarrow>
          (case stage_ops e target_is_file p sps c of
             (Inl r, c) \<Rightarrow> (Err r, c)
           | (Inr xs, c) \<Rightarrow> (Ok (x # xs), c)))"

definition escape_angles :: "string \<Rightarrow> string" where
  "escape_angles s = replace_char CHR ''>'' ''&gt;'' (replace_char CHR ''<'' ''&lt;'' s)"

definition stage_batch ::
  "(string \<Rightarrow> AclOpSpec list option) \<Rightarrow> ui_env \<Rightarrow> bool \<Rightarrow> string \<Rightarrow> string \<Rightarrow> ui_state
   \<Rightarrow> (apply_refusal, staged_op list) result \<times> ui_state" where
  "stage_batch json env target_is_file p acl_ops s =
     (if trim acl_ops = [] then (Ok [], s)
      else case json (trim acl_ops) of
        None \<Rightarrow> (Err OpsUnparsed, s)
      | Some sps \<Rightarrow>
          (case (if sps = [] then (None, us_caps s)
                 else case acl_apply_gate (ue_acl env) (ue_snap env) (ue_cfg env) p (us_caps s) of (g, caps) \<Rightarrow> (Some g, caps)) of
             (g, caps) \<Rightarrow>
               let s = s\<lparr>us_caps := caps\<rparr> in
               if (case g of Some g \<Rightarrow> \<not> editable g | None \<Rightarrow> False)
               then (Err (AclClosed (escape_angles (gate_short (the g)))), s)
               else case stage_ops (ue_ldap env) target_is_file p sps (us_ldap s) of
                 (r, c) \<Rightarrow> (r, s\<lparr>us_ldap := c\<rparr>)))"

section \<open>From the form to the job\<close>

definition scope_of :: "string \<Rightarrow> ApplyScope" where
  "scope_of t = (if t = ''all'' then AllEntries else if t = ''single'' then ImmediateFiles else DirOnly)"

fun scope_name :: "ApplyScope \<Rightarrow> string" where
  "scope_name AllEntries = ''all''"
| "scope_name ImmediateFiles = ''single''"
| "scope_name DirOnly = ''none''"

definition nl :: string where "nl = [line_feed]"

definition apply_cmd :: "bool \<Rightarrow> string \<Rightarrow> 32 word \<Rightarrow> 32 word \<Rightarrow> ApplySpec \<Rightarrow> staged_op list \<Rightarrow> string" where
  "apply_cmd target_is_file p uid gid sp batch =
     (let owner = show_word uid @ '':'' @ show_word gid;
          m = show_octal (unat (spec_mode sp));
          fm = show_octal (unat (unwrap_or (spec_file_mode sp) (spec_mode sp AND 0x1B6)));
          dm = dir_mode_r_implies_x (spec_mode sp);
          base =
            (if target_is_file then ''chown '' @ owner @ '' '' @ p @ nl @ ''chmod '' @ m @ '' '' @ p
             else case spec_scope sp of
               AllEntries \<Rightarrow>
                 ''chown '' @ owner @ '' -R '' @ p @ nl @ ''chmod -R dirs='' @ m @ '' files='' @ fm @ '' '' @ p
             | ImmediateFiles \<Rightarrow>
                 ''chown '' @ owner @ '' '' @ p @ '' (+ files directly inside)'' @ nl
                   @ ''chmod dirs='' @ m @ '' files='' @ fm @ '' '' @ p @ '' (single directory)''
             | DirOnly \<Rightarrow> ''chown '' @ owner @ '' '' @ p @ nl @ ''chmod '' @ m @ '' '' @ p @ '' (directory only)'');
          warned =
            (if \<not> target_is_file \<and> dm \<noteq> spec_mode sp
             then base @ nl @ ''note: the directory mode applies as '' @ show_octal (unat dm) @ '' '' @ em_dash
               @ '' read implies execute on directories (r-without-x lists as empty over NFS)''
             else base);
          acl_line = (\<lambda>(_, fmod, c, _).
            if spec_scope sp = DirOnly then c
            else case fmod of
              SetEntry _ perms _ \<Rightarrow> c @ '' [scope: '' @ scope_name (spec_scope sp) @ '', files: '' @ to_str perms @ '']''
            | _ \<Rightarrow> c @ '' [scope: '' @ scope_name (spec_scope sp) @ '']'')
      in if batch = [] then warned else warned @ nl @ join nl (map acl_line batch))"

definition prepare_apply ::
  "(string \<Rightarrow> AclOpSpec list option) \<Rightarrow> ui_env \<Rightarrow> ApplyForm \<Rightarrow> ui_state \<Rightarrow> (apply_refusal, apply_job) result \<times> ui_state" where
  "prepare_apply json env f s =
     (case resolve_owners env f (us_ldap s) of
        (Inl e, c) \<Rightarrow> (Err e, s\<lparr>us_ldap := c\<rparr>)
      | (Inr (uid, gid), c) \<Rightarrow>
          let s = s\<lparr>us_ldap := c\<rparr>;
              mode = unwrap_or (from_str_radix_8 (af_mode f)) 0x1F8;
              target_is_file = (case get_node_meta (ue_stat env) (ue_cfg env) (af_path f) of Some m \<Rightarrow> \<not> n_is_dir m | None \<Rightarrow> False);
              scope = (if target_is_file then DirOnly else scope_of (af_scope f));
              fm = unwrap_or (from_str_radix_8 (af_file_mode f)) (mode AND 0x1B6)
          in if scope \<noteq> DirOnly \<and> fm AND NOT 0x1FF \<noteq> 0 then (Err SpecialFileBits, s)
             else case stage_batch json env target_is_file (af_path f) (af_acl_ops f) s of
               (Inl e, s) \<Rightarrow> (Err e, s)
             | (Inr batch, s) \<Rightarrow>
                 let sp = \<lparr>spec_mode = mode, spec_scope = scope, spec_file_mode = (if scope = DirOnly then None else Some fm)\<rparr>
                 in (Ok \<lparr>j_path = af_path f, j_uid = uid, j_gid = gid, j_spec = sp, j_acl = batch,
                         j_cmd = apply_cmd target_is_file (af_path f) uid gid sp batch\<rparr>, s))"

text \<open>The single edit of \<^verbatim>\<open>/acl-apply\<close>.\<close>

definition selected_id :: "string \<Rightarrow> string \<Rightarrow> 32 word" where
  "selected_id ident selected =
     unwrap_or (opt_or (parse_u32 (trim ident))
       (parse_u32 (trim (List.last (split_on CHR '':'' (hd (split_on CHR '','' selected))))))) 0"

definition selected_kind :: "string \<Rightarrow> AclEntryKind option" where
  "selected_kind tok =
     (let t = trim tok; num = unwrap_or (parse_u32 (trim (List.last (split_on CHR '':'' t)))) 0 in
      if t = [] \<or> num = 0 then None
      else Some (if starts_with t ''g'' then GroupEntry num else UserEntry num))"

definition prepare_acl_apply ::
  "ui_env \<Rightarrow> AclApplyForm \<Rightarrow> ui_state \<Rightarrow> (apply_refusal, acl_job) result \<times> ui_state" where
  "prepare_acl_apply env f s =
     (let op = to_lowercase (trim (aa_op f)); is_user = is_user_kind (aa_typ f) in
      case acl_apply_gate (ue_acl env) (ue_snap env) (ue_cfg env) (aa_path f) (us_caps s) of (gate, caps) \<Rightarrow>
        let s = s\<lparr>us_caps := caps\<rparr>;
            dl = eq_ignore_ascii_case (trim (aa_layer f)) ''default'';
            is_dir = (map_option n_is_dir (get_node_meta (ue_stat env) (ue_cfg env) (aa_path f)) = Some True);
            scope = (if is_dir then scope_of (trim (aa_scope f)) else DirOnly);
            given = selected_id (aa_id f) (aa_selected f)
        in if \<not> editable gate then (Err (AclClosed (escape_angles (gate_short gate))), s)
           else if dl \<and> \<not> is_dir then (Err DefaultOnFile, s)
           else case (if given = 0 \<and> op \<noteq> ''delete'' \<and> op \<noteq> ''mask'' \<and> trim (aa_name f) \<noteq> []
                      then principal_id (ue_ldap env) is_user (aa_name f) (us_ldap s) else (given, us_ldap s)) of
             (ident, c) \<Rightarrow>
               let s = s\<lparr>us_ldap := c\<rparr>;
                   kinds = (if (op = ''delete'' \<or> op = ''del'') \<and> trim (aa_selected f) \<noteq> []
                            then List.map_filter selected_kind (split_on CHR '','' (aa_selected f)) else [])
               in if ident = 0 \<and> op \<noteq> ''delete'' \<and> op \<noteq> ''mask'' then (Err (PrincipalUnknown []), s)
                  else case build_acl_modification op is_user ident kinds (aa_perms f) dl is_dir (aa_path f) of
                    None \<Rightarrow> (Err UnknownOp, s)
                  | Some (dm, fm, cmd) \<Rightarrow>
                      (Ok \<lparr>aj_path = aa_path f, aj_op = op, aj_dir_mod = dm, aj_file_mod = fm, aj_scope = scope,
                           aj_cmd =
                             (if scope = DirOnly then cmd
                              else case fm of
                                SetEntry _ perms _ \<Rightarrow>
                                  cmd @ '' [scope: '' @ trim (aa_scope f) @ '', files: '' @ to_str perms @ '']''
                              | _ \<Rightarrow> cmd @ '' [scope: '' @ trim (aa_scope f) @ '']'')\<rparr>, s))"

end
