(* ===== verification/Apply_Task.thy ===== *)
theory Apply_Task
  imports Apply_Ui
begin

text \<open>
  The task behind a submitted form, the slot that admits one task at a time, the page that follows it
  and the handlers (\<^verbatim>\<open>nfs-klldap-ui/src/web/permission_tree.rs\<close>). A task is a function of the job and of what
  the file system answers; the slot is a step relation in which the operations of every accepted task
  and the requests come in any order. The percentage of the page is computed by the code in floating
  point; the model divides exactly, which agrees below \<open>2 ^ 40\<close> entries.
\<close>

section \<open>Running a job\<close>

record task =
  t_fs :: fs_state
  t_total :: nat
  t_phase :: string

definition fresh_task :: task where
  "fresh_task =
     \<lparr>t_fs = \<lparr>prog = \<lparr>p_processed = 0, p_changed = 0, p_skipped = 0, p_error_count = 0, recent_errors = [], last_path = None\<rparr>,
              fs_state.issued = [], fs_state.looks = 0\<rparr>,
      t_total = 0, t_phase = []\<rparr>"

definition on_fs :: "(fs_state \<Rightarrow> 'a \<times> fs_state) \<Rightarrow> task \<Rightarrow> 'a \<times> task" where
  "on_fs f t = (case f (t_fs t) of (x, s) \<Rightarrow> (x, t\<lparr>t_fs := s\<rparr>))"

definition reset_processed :: "nat \<Rightarrow> task \<Rightarrow> task" where
  "reset_processed n_items t = t\<lparr>t_total := n_items, t_fs := in_progress (\<lambda>g. g\<lparr>p_processed := 0\<rparr>) (t_fs t)\<rparr>"

definition push_error :: "string \<Rightarrow> string \<Rightarrow> task \<Rightarrow> task" where
  "push_error p msg t =
     t\<lparr>t_fs := in_progress (\<lambda>g. g\<lparr>p_error_count := Suc (p_error_count g),
                                recent_errors := recent_errors g @ [(path_components p, msg)]\<rparr>) (t_fs t)\<rparr>"

fun path_error_text :: "path_error \<Rightarrow> string" where
  "path_error_text (ParentTraversal p) = ''Path '' @ p @ '' contains a parent-directory traversal''"
| "path_error_text (NotUnderShare p) = ''Path '' @ p @ '' is not under any configured share host_path''"
| "path_error_text OutsideRoots = ''Path is outside allowed managed roots''"
| "path_error_text RefusedSetuid = ''Refusing setuid bit on a share path''"
| "path_error_text RefusedFileBits = ''Refusing special bits (setuid/setgid/sticky) in the file mode''"
| "path_error_text WalkAborted = ''apply failed: aborted on walk error (continue_on_error=false)''"
| "path_error_text (OpFailed s) = s"

definition error_lines :: "(path \<times> string) list \<Rightarrow> string" where
  "error_lines errs =
     (if errs = [] then []
      else nl @ nl @ ''Errors:'' @ nl
        @ concat (map (\<lambda>(p, msg). ''  '' @ path_text p @ '' '' @ em_dash @ '' '' @ msg @ nl) (take 5 errs))
        @ (if length errs > 5 then ''  ... and '' @ show_nat (length errs - 5) @ '' more'' @ nl else []))"

definition fused_line :: "32 word \<Rightarrow> path \<Rightarrow> string" where
  "fused_line dir_mode p =
     nl @ ''Directory '' @ path_text p @ '' set with '' @ show_octal (unat (dir_mode AND 0xFFF))
       @ '' to allow traversal (read implies execute on directories).''"

definition fused_lines :: "32 word \<Rightarrow> ApplyResult \<Rightarrow> string" where
  "fused_lines dir_mode r =
     (if fused_dir_count r = 0 then []
      else nl @ concat (map (fused_line dir_mode) (fused_dirs r))
        @ (let n = fused_dir_count r - length (fused_dirs r) in
           if n > 0 then nl @ [CHR 0xE2, CHR 0x80, CHR 0xA6] @ '' and '' @ show_nat n @ '' more directories.'' else []))"

definition apply_text :: "string \<Rightarrow> 32 word \<Rightarrow> bool \<Rightarrow> path option \<Rightarrow> ApplyResult \<Rightarrow> string" where
  "apply_text p dir_mode cancelled at r =
     (if cancelled then ''CANCELLED after '' @ (case at of Some q \<Rightarrow> path_text q | None \<Rightarrow> p) @ nl else [])
     @ ''Result: '' @ show_nat (res_changed r) @ '' changed, '' @ show_nat (res_skipped r) @ '' skipped, ''
     @ show_nat (length (res_errors r)) @ '' errors''
     @ error_lines (res_errors r)
     @ (if res_skipped r > 0
        then nl @ ''(skipped entries were typically symlinks '' @ em_dash @ '' never followed for safety)'' else [])
     @ fused_lines dir_mode r"

definition fusion_note :: "AclModification \<Rightarrow> AclModification \<Rightarrow> string" where
  "fusion_note dm fm =
     (case (dm, fm) of
        (SetEntry _ d _, SetEntry _ f _) \<Rightarrow>
          if d \<noteq> f then '' '' @ em_dash @ '' directories fused to '' @ to_str d @ '' for traversal'' else []
      | (SetMask d _, SetMask f _) \<Rightarrow>
          if d \<noteq> f then '' '' @ em_dash @ '' directory mask fused to '' @ to_str d @ '' for traversal'' else []
      | _ \<Rightarrow> [])"

definition result_note :: "ApplyResult \<Rightarrow> string" where
  "result_note r =
     show_nat (res_changed r) @ '' changed, '' @ show_nat (res_skipped r) @ '' skipped''
     @ (if res_errors r = [] then []
        else '', '' @ show_nat (length (res_errors r)) @ '' errors (first: '' @ snd (hd (res_errors r)) @ '')'')"

definition run_acl_op ::
  "fs_env \<Rightarrow> NfsKlldapConfig \<Rightarrow> string \<Rightarrow> ApplyScope \<Rightarrow> AclModification \<Rightarrow> AclModification \<Rightarrow> task \<Rightarrow> (bool \<times> string) \<times> task" where
  "run_acl_op env cfg p scope dm fm t =
     (if scope = DirOnly
      then case on_fs (apply_acl_mod env cfg p dm) t of
             (Inr msg, t) \<Rightarrow> ((True, msg), t)
           | (Inl e, t) \<Rightarrow> ((False, path_error_text e), t)
      else case on_fs (count_acl_applicable_with_live env cfg p dm scope) t of
             (Inl e, t) \<Rightarrow> ((False, ''scan failed: '' @ path_error_text e), t)
           | (Inr n, t) \<Rightarrow>
               (case on_fs (apply_acl_with_progress env cfg p dm fm scope) (reset_processed n t) of
                  (Inr r, t) \<Rightarrow> ((res_errors r = [], result_note r), t)
                | (Inl e, t) \<Rightarrow> ((False, path_error_text e), t)))"

fun run_acl_batch ::
  "fs_env \<Rightarrow> NfsKlldapConfig \<Rightarrow> string \<Rightarrow> ApplyScope \<Rightarrow> nat \<Rightarrow> nat \<Rightarrow> staged_op list \<Rightarrow> string \<Rightarrow> task \<Rightarrow> string \<times> task" where
  "run_acl_batch env cfg p scope n_ops i [] text t = (text, t)"
| "run_acl_batch env cfg p scope n_ops i ((dm, fm, cmd, op) # ops) text t0 =
     (let pos = '' ('' @ show_nat (i + 1) @ ''/'' @ show_nat n_ops @ '')'' in
      case on_fs (look env) t0 of
        (True, t) \<Rightarrow>
          (text @ nl @ ''ACL batch CANCELLED '' @ em_dash @ '' '' @ show_nat (n_ops - i) @ '' of '' @ show_nat n_ops @ '' ops not applied.'', t)
      | (False, t) \<Rightarrow>
          (case run_acl_op env cfg p scope dm fm (t\<lparr>t_phase := ''applying ACLs'' @ pos\<rparr>) of
             ((True, note), t) \<Rightarrow>
               run_acl_batch env cfg p scope n_ops (i + 1) ops
                 (text @ nl @ ''ACL '' @ op @ pos @ '' OK: '' @ note @ fusion_note dm fm) t
           | ((False, note), t) \<Rightarrow>
               (text @ nl @ ''ACL '' @ op @ pos @ '' FAILED: '' @ note @ '' '' @ em_dash @ '' remaining staged ACL edits skipped.'',
                push_error p note t)))"

text \<open>The task of an apply: scan, ownership and modes, then the staged edits, unless the walk failed or it was cancelled.\<close>

definition scan_phase :: "fs_env \<Rightarrow> NfsKlldapConfig \<Rightarrow> apply_job \<Rightarrow> task \<Rightarrow> task" where
  "scan_phase env cfg j t =
     (case on_fs (count_applicable_with_live env cfg (j_path j) (spec_scope (j_spec j))) (t\<lparr>t_phase := ''scanning''\<rparr>) of
        (_, t) \<Rightarrow> (reset_processed (p_processed (prog (t_fs t))) t)\<lparr>t_phase := ''applying''\<rparr>)"

definition run_apply :: "fs_env \<Rightarrow> NfsKlldapConfig \<Rightarrow> apply_job \<Rightarrow> task \<Rightarrow> string \<times> task" where
  "run_apply env cfg j t =
     (let p = j_path j in
      case on_fs (apply_permissions_with_progress env cfg p (j_uid j) (j_gid j) (j_spec j)) (scan_phase env cfg j t) of
        (Inl e, t) \<Rightarrow> (''Apply error during walk: '' @ path_error_text e, push_error p (path_error_text e) t)
      | (Inr r, t) \<Rightarrow>
          (case on_fs (look env) t of (cancelled, t) \<Rightarrow>
             let text = apply_text p (dir_mode_r_implies_x (spec_mode (j_spec j))) cancelled (last_path (prog (t_fs t))) r in
             if j_acl j = [] then (text, t)
             else case on_fs (look env) t of
               (True, t) \<Rightarrow> (text @ nl @ nl @ ''Staged ACL edits skipped (apply cancelled).'', t)
             | (False, t) \<Rightarrow> run_acl_batch env cfg p (spec_scope (j_spec j)) (length (j_acl j)) 0 (j_acl j) text t))"

definition run_acl_apply :: "fs_env \<Rightarrow> NfsKlldapConfig \<Rightarrow> acl_job \<Rightarrow> task \<Rightarrow> string \<times> task" where
  "run_acl_apply env cfg j t =
     (let p = aj_path j; t = (reset_processed 1 t)\<lparr>t_phase := ''applying''\<rparr>;
          label_text = ''ACL '' @ aj_op j in
      if aj_scope j = DirOnly
      then case on_fs (apply_acl_mod env cfg p (aj_dir_mod j))
                  (t\<lparr>t_fs := in_progress (\<lambda>g. g\<lparr>p_processed := 1\<rparr>) (t_fs t)\<rparr>) of
             (Inr msg, t) \<Rightarrow>
               (label_text @ '' OK: '' @ msg, t\<lparr>t_fs := in_progress (count_changed 1) (t_fs t)\<rparr>)
           | (Inl e, t) \<Rightarrow>
               (label_text @ '' failed: '' @ path_error_text e,
                let t = push_error p (path_error_text e) t in t\<lparr>t_fs := in_progress (count_changed 1) (t_fs t)\<rparr>)
      else case on_fs (count_acl_applicable_with_live env cfg p (aj_dir_mod j) (aj_scope j)) (t\<lparr>t_phase := ''scanning''\<rparr>) of
             (Inl e, t) \<Rightarrow> (label_text @ '' failed during scan: '' @ path_error_text e, t)
           | (Inr n, t) \<Rightarrow>
               (case on_fs (apply_acl_with_progress env cfg p (aj_dir_mod j) (aj_file_mod j) (aj_scope j))
                       ((reset_processed n t)\<lparr>t_phase := ''applying''\<rparr>) of
                  (Inl e, t) \<Rightarrow> (label_text @ '' failed: '' @ path_error_text e, t)
                | (Inr r, t) \<Rightarrow>
                    (case on_fs (look env) t of (cancelled, t) \<Rightarrow>
                       (label_text @ '' ''
                          @ (if cancelled then ''CANCELLED (partial)'' else if res_errors r = [] then ''OK'' else ''finished with errors'')
                          @ '': '' @ result_note r, t))))"

section \<open>The slot\<close>

datatype job = PosixJob apply_job | AclJob acl_job

fun run_job :: "fs_env \<Rightarrow> NfsKlldapConfig \<Rightarrow> job \<Rightarrow> string \<times> task" where
  "run_job env cfg (PosixJob j) = run_apply env cfg j fresh_task"
| "run_job env cfg (AclJob j) = run_acl_apply env cfg j fresh_task"

fun job_cmd :: "job \<Rightarrow> string" where
  "job_cmd (PosixJob j) = j_cmd j"
| "job_cmd (AclJob j) = aj_cmd j"

record tracked =
  tk_cmd :: string
  tk_todo :: "fs_op list"
  tk_live :: task
  tk_final :: "string option"
  tk_finished :: bool
  tk_cancelled :: bool

text \<open>A claimed task with the operations it is going to issue and the text it is going to leave.\<close>

definition track :: "fs_env \<Rightarrow> NfsKlldapConfig \<Rightarrow> job \<Rightarrow> tracked" where
  "track env cfg j =
     \<lparr>tk_cmd = job_cmd j, tk_todo = fs_state.issued (t_fs (snd (run_job env cfg j))), tk_live = fresh_task,
      tk_final = Some (fst (run_job env cfg j)), tk_finished = False, tk_cancelled = False\<rparr>"

record app =
  ap_auth :: AuthManager
  ap_ui :: ui_state
  apply_slot :: "nat option"
  ap_tasks :: "tracked list"
  ap_log :: "(nat \<times> fs_op) list"

definition apply_in_progress :: "app \<Rightarrow> bool" where
  "apply_in_progress a = (case apply_slot a of Some i \<Rightarrow> \<not> tk_finished (ap_tasks a ! i) | None \<Rightarrow> False)"

definition try_claim_apply_slot :: "tracked \<Rightarrow> app \<Rightarrow> bool \<times> app" where
  "try_claim_apply_slot k a =
     (if apply_in_progress a then (False, a)
      else (True, a\<lparr>apply_slot := Some (length (ap_tasks a)), ap_tasks := ap_tasks a @ [k]\<rparr>))"

section \<open>The log page\<close>

definition quoted :: "string \<Rightarrow> string" where
  "quoted s = [CHR 0x22] @ s @ [CHR 0x22]"

definition apply_log_shell :: "string \<Rightarrow> bool \<Rightarrow> bool \<Rightarrow> bool \<Rightarrow> string" where
  "apply_log_shell inner_html active_cancel finished oob =
     (''<div id='' @ quoted ''apply-status'' @ (if oob then '' hx-swap-oob='' @ quoted ''true'' else [])
     @ '' class='' @ quoted ''apply-status'' @ (if finished then '' data-apply-finished='' @ quoted ''true'' else []) @ ''>'' @ nl
     @ ''    <div class='' @ quoted ''apply-status-hd'' @ ''>'' @ nl
     @ ''      <span>Apply Log</span>'' @ nl
     @ ''      <button type='' @ quoted ''button''
     @ (if active_cancel then '' onclick='' @ quoted ''if (window.PermUI) window.PermUI.cancelCurrentApply();'' else '' disabled'')
     @ '' class='' @ quoted ''btn apply-cancel'' @ ''>Cancel Apply</button>'' @ nl
     @ ''    </div>'' @ nl
     @ ''    <div id='' @ quoted ''apply-status-content'' @ '' class='' @ quoted ''apply-status-content apply-log-content'' @ ''>'' @ nl)
     @ inner_html @ nl
     @ ''    </div>'' @ nl
     @ ''</div>''"

definition render_apply_status_oob :: "string \<Rightarrow> string \<Rightarrow> bool \<Rightarrow> string" where
  "render_apply_status_oob cmd result_or_live active_cancel =
     apply_log_shell (''<strong>Command</strong>'' @ nl @ cmd @ nl @ nl @ ''<strong>Status</strong>'' @ nl @ result_or_live)
       active_cancel (\<not> active_cancel) True"

definition live_text :: "task \<Rightarrow> string" where
  "live_text t =
     (let g = prog (t_fs t) in
      if t_total t = 0
      then ''Stand-by, estimating total... scanned '' @ show_nat (p_processed g) @ '' so far ''
             @ [[CHR ''|'', CHR ''/'', CHR ''-'', CHR 0x5C] ! (p_processed g mod 4)]
      else ''Phase: '' @ t_phase t @ nl @ ''Processed: '' @ show_nat (p_processed g) @ ''/'' @ show_nat (t_total t)
             @ '' ('' @ show_nat (min (p_processed g * 100 div t_total t) (2 ^ 32 - 1)) @ ''%)'' @ nl
             @ ''changed: '' @ show_nat (p_changed g) @ ''  skipped: '' @ show_nat (p_skipped g)
             @ ''  errors: '' @ show_nat (p_error_count g))"

definition slot_page :: "app \<Rightarrow> nat \<times> string" where
  "slot_page a =
     (case apply_slot a of
        None \<Rightarrow>
          (286, apply_log_shell (''<em class='' @ quoted ''placeholder-note'' @ ''>No permission apply in progress.</em>'') False False True)
      | Some i \<Rightarrow>
          let k = ap_tasks a ! i in
          (if tk_finished k then 286 else 200,
           render_apply_status_oob (tk_cmd k)
             (if tk_finished k then unwrap_or (tk_final k) ''Finished.'' else live_text (tk_live k)) (\<not> tk_finished k)))"

section \<open>Handlers\<close>

datatype page = ToLogin string | Refused nat apply_refusal | Started string | Poll nat string | CancelRequested

definition guarded :: "web_os \<Rightarrow> request_headers \<Rightarrow> (app \<Rightarrow> page \<times> app) \<Rightarrow> app \<Rightarrow> page \<times> app" where
  "guarded w h handler a =
     (case require_auth w h (ap_auth a) of
        (Inl target, m) \<Rightarrow> (ToLogin target, a\<lparr>ap_auth := m\<rparr>)
      | (Inr _, m) \<Rightarrow> handler (a\<lparr>ap_auth := m\<rparr>))"

definition apply_permissions ::
  "web_os \<Rightarrow> (string \<Rightarrow> AclOpSpec list option) \<Rightarrow> ui_env \<Rightarrow> fs_env \<Rightarrow> request_headers \<Rightarrow> ApplyForm \<Rightarrow> app \<Rightarrow> page \<times> app" where
  "apply_permissions w json env fs h f =
     guarded w h (\<lambda>a.
       if apply_in_progress a then (Refused 200 Busy, a)
       else case prepare_apply json env f (ap_ui a) of
         (Inl e, s) \<Rightarrow> (Refused 200 e, a\<lparr>ap_ui := s\<rparr>)
       | (Inr j, s) \<Rightarrow>
           (case try_claim_apply_slot (track fs (ue_cfg env) (PosixJob j)) (a\<lparr>ap_ui := s\<rparr>) of
              (False, a) \<Rightarrow> (Refused 200 Busy, a)
            | (True, a) \<Rightarrow>
                (Started (''<div class='' @ quoted ''perm-applying'' @ '' data-path='' @ quoted (escape_attr (af_path f)) @ '' data-applying='' @ quoted ''1'' @ ''>'' @ nl
                   @ ''    <span>'' @ [CHR 0xE2, CHR 0x8F, CHR 0xB3] @ '' Applying permissions '' @ em_dash
                   @ '' see the Apply Log below. Navigation locked until complete.</span>'' @ nl @ ''</div>'' @ nl
                   @ render_apply_status_oob (j_cmd j) ''Stand-by, estimating total... (live updates below)'' True), a)))"

definition acl_apply ::
  "web_os \<Rightarrow> ui_env \<Rightarrow> fs_env \<Rightarrow> request_headers \<Rightarrow> AclApplyForm \<Rightarrow> app \<Rightarrow> page \<times> app" where
  "acl_apply w env fs h f =
     guarded w h (\<lambda>a.
       if apply_in_progress a then (Refused 409 Busy, a)
       else case prepare_acl_apply env f (ap_ui a) of
         (Inl e, s) \<Rightarrow> (Refused 422 e, a\<lparr>ap_ui := s\<rparr>)
       | (Inr j, s) \<Rightarrow>
           (case try_claim_apply_slot (track fs (ue_cfg env) (AclJob j)) (a\<lparr>ap_ui := s\<rparr>) of
              (False, a) \<Rightarrow> (Refused 409 Busy, a)
            | (True, a) \<Rightarrow>
                (Started (''<div class='' @ quoted ''note-success'' @ ''>ACL '' @ aj_op j @ '' submitted '' @ em_dash @ '' see Apply Log.</div>'' @ nl
                   @ render_apply_status_oob (aj_cmd j) ''Stand-by (ACL op)...'' True), a)))"

definition apply_progress :: "web_os \<Rightarrow> request_headers \<Rightarrow> app \<Rightarrow> page \<times> app" where
  "apply_progress w h = guarded w h (\<lambda>a. (Poll (fst (slot_page a)) (snd (slot_page a)), a))"

definition cancel_apply :: "web_os \<Rightarrow> request_headers \<Rightarrow> app \<Rightarrow> page \<times> app" where
  "cancel_apply w h =
     guarded w h (\<lambda>a.
       (CancelRequested,
        case apply_slot a of
          None \<Rightarrow> a
        | Some i \<Rightarrow> a\<lparr>ap_tasks := (ap_tasks a)[i := (ap_tasks a ! i)\<lparr>tk_cancelled := True\<rparr>]\<rparr>))"

text \<open>
  The steps: a request is answered, a request that passed the first check earlier claims the slot, a
  task that holds its progress issues its next operation or, with none left, ends.
\<close>

inductive app_step :: "web_os \<Rightarrow> app \<Rightarrow> app \<Rightarrow> bool" for w where
  post_apply: "app_step w a (snd (apply_permissions w json env fs h f a))"
| post_acl: "app_step w a (snd (acl_apply w env fs h g a))"
| poll: "app_step w a (snd (apply_progress w h a))"
| cancel: "app_step w a (snd (cancel_apply w h a))"
| claim: "app_step w a (snd (try_claim_apply_slot (track fs cfg j) a))"
| work: "\<lbrakk>i < length (ap_tasks a); \<not> tk_finished (ap_tasks a ! i); tk_todo (ap_tasks a ! i) = x # xs\<rbrakk> \<Longrightarrow>
    app_step w a (a\<lparr>ap_tasks := (ap_tasks a)[i := (ap_tasks a ! i)\<lparr>tk_todo := xs, tk_live := t\<rparr>], ap_log := ap_log a @ [(i, x)]\<rparr>)"
| finish: "\<lbrakk>i < length (ap_tasks a); \<not> tk_finished (ap_tasks a ! i); tk_todo (ap_tasks a ! i) = []\<rbrakk> \<Longrightarrow>
    app_step w a (a\<lparr>ap_tasks := (ap_tasks a)[i := (ap_tasks a ! i)\<lparr>tk_finished := True\<rparr>]\<rparr>)"

inductive app_run :: "web_os \<Rightarrow> app \<Rightarrow> bool" for w where
  start: "\<lbrakk>apply_slot a = None; ap_tasks a = []; ap_log a = []\<rbrakk> \<Longrightarrow> app_run w a"
| again: "\<lbrakk>app_run w a; app_step w a a'\<rbrakk> \<Longrightarrow> app_run w a'"

end
