(* ===== verification/Fs_Manager_Laws.thy ===== *)
theory Fs_Manager_Laws
  imports Fs_Manager
begin

text \<open>
  Laws of the file-system manager: allowed paths are the mapped ones and lie in the most specific
  share, nothing outside it is touched, no setuid bit is set, an apply reaches exactly the entries of
  its scope, the progress reaches the announced total, and chunking of ACL changes loses nothing.
\<close>

section \<open>Paths\<close>

lemma split_on_trailing: "split_on c (s @ replicate n c) = split_on c s @ replicate n []"
proof (induction n)
  case (Suc n)
  have "s @ replicate (Suc n) c = (s @ replicate n c) @ c # []" by (simp add: replicate_append_same)
  also have "split_on c \<dots> = split_on c (s @ replicate n c) @ split_on c []" by (rule split_on_append)
  finally show ?case using Suc by (simp add: replicate_append_same)
qed simp

lemma trim_end_char_split: "\<exists>n. s = trim_end_char c s @ replicate n c"
proof -
  have "s = trim_end_char c s @ rev (takeWhile (\<lambda>x. x = c) (rev s))"
    unfolding trim_end_char_def by (metis rev_append rev_rev_ident takeWhile_dropWhile_id)
  moreover have rep: "takeWhile (\<lambda>x. x = c) xs = replicate (length (takeWhile (\<lambda>x. x = c) xs)) c" for xs
    by (induction xs) simp_all
  have "rev (takeWhile (\<lambda>x. x = c) (rev s)) = replicate (length (takeWhile (\<lambda>x. x = c) (rev s))) c"
    by (subst rep) (rule rev_replicate)
  ultimately show ?thesis by metis
qed

lemma body_of_normalized: "body_components (normalize_path p) = body_components p"
proof -
  obtain n where p: "p = trim_end_char CHR ''/'' p @ replicate n CHR ''/''" using trim_end_char_split by blast
  have "filter (\<lambda>c. c \<noteq> [] \<and> c \<noteq> ''.'') (split_on CHR ''/'' p) = filter (\<lambda>c. c \<noteq> [] \<and> c \<noteq> ''.'') (split_on CHR ''/'' (trim_end_char CHR ''/'' p))"
    by (subst p) (simp add: split_on_trailing)
  then show ?thesis by (auto simp: body_components_def normalize_path_def Let_def)
qed

lemma traversal_iff: "has_parent_traversal p \<longleftrightarrow> ParentDir \<in> set (body_components p)"
  by (simp add: has_parent_traversal_def path_components_def)

lemma traversal_normalized [simp]: "has_parent_traversal (normalize_for_matching p) = has_parent_traversal p"
  by (simp add: traversal_iff normalize_for_matching_def body_of_normalized)

lemma normalize_idem [simp]: "normalize_for_matching (normalize_for_matching p) = normalize_for_matching p"
proof -
  have "trim_end_char c (trim_end_char c s) = trim_end_char c s" for c s
    by (simp add: trim_end_char_def)
  moreover have "trim_end_char CHR ''/'' ''/'' = []" by (simp add: trim_end_char_def)
  ultimately show ?thesis by (simp add: normalize_for_matching_def normalize_path_def Let_def)
qed

section \<open>Where a path lies\<close>

lemma better_share_fold:
  "foldl (better_share p) best shs = None \<longleftrightarrow> best = None \<and> (\<forall>sh \<in> set shs. \<not> prefix (share_prefix sh) p)"
  by (induction shs arbitrary: best) (auto simp: better_share_def path_starts_with_def Let_def split: option.splits)

definition spec_of :: "Share \<Rightarrow> nat" where
  "spec_of sh = length (normalize_for_matching (host_path sh))"

lemma better_share_best:
  assumes "foldl (better_share p) best shs = Some (n, c)"
  shows "(best = Some (n, c) \<or> (\<exists>sh \<in> set shs. prefix (share_prefix sh) p \<and> n = spec_of sh
            \<and> c = path_components (serve_path_for sh) @ drop (length (share_prefix sh)) p))
    \<and> (\<forall>sh \<in> set shs. prefix (share_prefix sh) p \<longrightarrow> spec_of sh \<le> n) \<and> (\<forall>m c'. best = Some (m, c') \<longrightarrow> m \<le> n)"
  using assms
proof (induction shs arbitrary: best)
  case (Cons sh shs)
  have "foldl (better_share p) (better_share p best sh) shs = Some (n, c)" using Cons.prems by simp
  from Cons.IH [OF this] show ?case
    by (auto simp: better_share_def path_starts_with_def Let_def spec_of_def split: if_splits option.splits)
qed simp

lemma allowed_mapped: "is_allowed cfg p \<longleftrightarrow> (\<exists>c. host_path_to_container_path cfg p = Ok c)"
proof -
  have "is_allowed cfg p \<longleftrightarrow> \<not> has_parent_traversal p \<and> (\<exists>sh \<in> set (shares cfg). prefix (share_prefix sh) (path_components (normalize_for_matching p)))"
    by (auto simp: is_allowed_def host_paths_def share_prefix_def list_ex_iff path_starts_with_def)
  then show ?thesis
    using better_share_fold [of "path_components (normalize_for_matching p)" None "shares cfg"]
    by (auto simp: host_path_to_container_path_def split: option.splits)
qed

text \<open>
  A path is allowed exactly when it has a place in the container: the check that guards every
  operation and the mapping that follows it never disagree.
\<close>

theorem allowed_iff_mapped: "is_allowed cfg p \<longleftrightarrow> (\<exists>c. host_path_to_container_path cfg p = Ok c)"
  by (rule allowed_mapped)

text \<open>What a mapped path looks like.\<close>

definition inside :: "NfsKlldapConfig \<Rightarrow> path \<Rightarrow> bool" where
  "inside cfg c = (\<exists>sh \<in> set (shares cfg). \<exists>rel. c = path_components (serve_path_for sh) @ rel \<and> ParentDir \<notin> set rel)"

lemma mapped_share:
  assumes "host_path_to_container_path cfg p = Ok c"
  shows "\<exists>sh \<in> set (shares cfg). \<exists>rel.
     path_components (normalize_for_matching p) = path_components (normalize_for_matching (host_path sh)) @ rel
     \<and> c = path_components (serve_path_for sh) @ rel \<and> ParentDir \<notin> set rel
     \<and> (\<forall>sh' \<in> set (shares cfg). prefix (path_components (normalize_for_matching (host_path sh'))) (path_components (normalize_for_matching p))
          \<longrightarrow> length (normalize_for_matching (host_path sh')) \<le> length (normalize_for_matching (host_path sh)))"
proof -
  define q where "q = path_components (normalize_for_matching p)"
  from assms obtain n where nt: "\<not> has_parent_traversal p" and fold: "foldl (better_share q) None (shares cfg) = Some (n, c)"
    by (auto simp: host_path_to_container_path_def q_def split: if_splits option.splits)
  from better_share_best [OF fold] obtain sh where sh: "sh \<in> set (shares cfg)" "prefix (share_prefix sh) q" "n = spec_of sh"
    "c = path_components (serve_path_for sh) @ drop (length (share_prefix sh)) q"
    "\<forall>sh' \<in> set (shares cfg). prefix (share_prefix sh') q \<longrightarrow> spec_of sh' \<le> n" by auto
  have "ParentDir \<notin> set q" using nt traversal_normalized [of p] by (simp add: q_def has_parent_traversal_def)
  then have "ParentDir \<notin> set (drop (length (share_prefix sh)) q)" by (meson in_set_dropD)
  moreover have "q = share_prefix sh @ drop (length (share_prefix sh)) q" using sh(2) by (auto elim: prefixE)
  ultimately show ?thesis using sh by (intro bexI [of _ sh] exI [of _ "drop (length (share_prefix sh)) q"])
    (auto simp: q_def share_prefix_def spec_of_def)
qed

lemma mapped_inside: "host_path_to_container_path cfg p = Ok c \<Longrightarrow> inside cfg c"
  using mapped_share [of cfg p c] by (auto simp: inside_def)

text \<open>
  A mapped path is the container path of a share followed by the rest of the logical path, the
  rest has no parent step, and the share is the most specific of those the path lies under.
\<close>

theorem mapped_into_most_specific_share:
  assumes "host_path_to_container_path cfg p = Ok c"
  shows "\<exists>sh \<in> set (shares cfg). \<exists>rel.
     path_components (normalize_for_matching p) = path_components (normalize_for_matching (host_path sh)) @ rel
     \<and> c = path_components (serve_path_for sh) @ rel \<and> ParentDir \<notin> set rel
     \<and> (\<forall>sh' \<in> set (shares cfg). prefix (path_components (normalize_for_matching (host_path sh'))) (path_components (normalize_for_matching p))
          \<longrightarrow> length (normalize_for_matching (host_path sh')) \<le> length (normalize_for_matching (host_path sh)))"
  using assms by (rule mapped_share)

section \<open>The apply walk\<close>

definition entries :: "walk_item list \<Rightarrow> walk_entry list" where
  "entries its = List.map_filter (\<lambda>it. case it of Inr e \<Rightarrow> Some e | Inl _ \<Rightarrow> None) its"

definition applicable :: "ApplyScope \<Rightarrow> walk_item list \<Rightarrow> walk_entry list" where
  "applicable scope its = filter (\<lambda>e. should_apply_entry e scope) (entries its)"

lemma entries_simps [simp]: "entries [] = []" "entries (Inr e # its) = e # entries its" "entries (Inl x # its) = entries its"
  by (simp_all add: entries_def List.map_filter_simps)

lemma applicable_simps [simp]:
  "applicable scope [] = []" "applicable scope (Inl x # its) = applicable scope its"
  "applicable scope (Inr e # its) = (if should_apply_entry e scope then e # applicable scope its else applicable scope its)"
  by (simp_all add: applicable_def)

lemma set_walk_entries: "e \<in> set (entries its) \<longleftrightarrow> Inr e \<in> set its"
proof (induction its)
  case (Cons it its)
  then show ?case by (cases it) auto
qed simp

lemma applies_to: "should_apply_entry e scope \<Longrightarrow> w_type e \<in> {IsDir, IsFile}"
  by (cases scope) (auto simp: should_apply_entry_def Let_def)

lemma fs_state_simps [simp]:
  "issued (in_progress f s) = issued s" "prog (in_progress f s) = f (prog s)" "looks (in_progress f s) = looks s"
  "p_processed (note_error p msg g) = p_processed g" "p_processed (count_processed n g) = p_processed g + n"
  "p_processed (count_changed n g) = p_processed g" "p_processed (count_skipped g) = p_processed g"
  "p_processed (at_path p g) = p_processed g"
  by (simp_all add: in_progress_def note_error_def count_processed_def count_changed_def count_skipped_def at_path_def)

definition mode_for :: "32 word \<Rightarrow> 32 word option \<Rightarrow> walk_entry \<Rightarrow> 32 word" where
  "mode_for mode fm e = (if w_type e = IsDir then dir_mode_r_implies_x mode else unwrap_or fm mode)"

definition handled :: "ApplyResult \<Rightarrow> nat" where
  "handled r = res_changed r + length (res_errors r) + res_skipped r"

text \<open>One entry of a walk that continues on errors.\<close>

lemma apply_entry_effect:
  assumes "apply_entry env uid gid mode opts e r s = (res, s')" and "continue_on_error opts"
  shows "\<exists>r' ops. res = Ok r' \<and> issued s' = issued s @ ops \<and> looks s' = looks s \<and> handled r' = Suc (handled r)
     \<and> (if should_apply_entry e (opt_scope opts)
        then (\<exists>rest. ops = Chown (w_path e) uid gid # rest \<and> set rest \<subseteq> {Chmod (w_path e) (mode_for mode (opt_file_mode opts) e)}
                \<and> length rest \<le> 1) \<and> p_processed (prog s') = Suc (p_processed (prog s))
        else ops = [] \<and> p_processed (prog s') = p_processed (prog s))"
  using assms applies_to [of e "opt_scope opts"]
  by (auto simp: apply_entry_def Let_def run_op_def op_error_def handled_def add_error_def mode_for_def in_progress_def
      split: if_splits option.splits)

lemma apply_walk_effect:
  assumes "apply_walk env uid gid mode opts its r s = (res, s')" and "continue_on_error opts"
  shows "\<exists>r' ops. res = Ok r' \<and> issued s' = issued s @ ops
     \<and> (\<forall>x \<in> set ops. \<exists>e \<in> set (applicable (opt_scope opts) its).
          x \<in> {Chown (w_path e) uid gid, Chmod (w_path e) (mode_for mode (opt_file_mode opts) e)})
     \<and> ((\<forall>i. \<not> f_cancelled env i) \<longrightarrow>
          map (\<lambda>e. Chown (w_path e) uid gid) (applicable (opt_scope opts) its) = filter is_Chown ops
          \<and> p_processed (prog s') = p_processed (prog s) + length (applicable (opt_scope opts) its)
          \<and> handled r' = handled r + length its)"
  using assms
proof (induction its arbitrary: r s)
  case (Cons it its)
  show ?case
  proof (cases "f_cancelled env (looks s)")
    case True
    with Cons.prems show ?thesis by (auto simp: look_def intro!: exI [of _ "[]"])
  next
    case False
    define s1 where "s1 = s\<lparr>looks := Suc (looks s)\<rparr>"
    have s1: "issued s1 = issued s" "prog s1 = prog s" by (simp_all add: s1_def)
    show ?thesis
    proof (cases it)
      case (Inl x)
      obtain p msg where x: "x = (p, msg)" by (cases x)
      have "apply_walk env uid gid mode opts its (add_error p msg r) (in_progress (note_error p msg) s1) = (res, s')"
        using Cons.prems False Inl x by (simp add: look_def s1_def)
      from Cons.IH [OF this Cons.prems(2)] show ?thesis
        using s1 by (auto simp: Inl x handled_def add_error_def)
    next
      case (Inr e)
      obtain res1 s2 where e: "apply_entry env uid gid mode opts e r s1 = (res1, s2)" by (rule prod.exhaust)
      from apply_entry_effect [OF e Cons.prems(2), unfolded s1] obtain r1 ops1 where 1: "res1 = Ok r1" "issued s2 = issued s @ ops1" "handled r1 = Suc (handled r)"
        "if should_apply_entry e (opt_scope opts)
        then (\<exists>rest. ops1 = Chown (w_path e) uid gid # rest \<and> set rest \<subseteq> {Chmod (w_path e) (mode_for mode (opt_file_mode opts) e)}
                \<and> length rest \<le> 1) \<and> p_processed (prog s2) = Suc (p_processed (prog s))
        else ops1 = [] \<and> p_processed (prog s2) = p_processed (prog s)"
        by blast
      have "apply_walk env uid gid mode opts its r1 s2 = (res, s')"
        using Cons.prems(1) False Inr e 1(1) by (simp add: look_def s1_def)
      from Cons.IH [OF this Cons.prems(2)] obtain r' ops2 where 2: "res = Ok r'" "issued s' = issued s2 @ ops2"
        "\<forall>x \<in> set ops2. \<exists>e \<in> set (applicable (opt_scope opts) its). x \<in> {Chown (w_path e) uid gid, Chmod (w_path e) (mode_for mode (opt_file_mode opts) e)}"
        "(\<forall>i. \<not> f_cancelled env i) \<longrightarrow> map (\<lambda>e. Chown (w_path e) uid gid) (applicable (opt_scope opts) its) = filter is_Chown ops2
          \<and> p_processed (prog s') = p_processed (prog s2) + length (applicable (opt_scope opts) its) \<and> handled r' = handled r1 + length its"
        by blast
      have rest: "filter is_Chown rest = []" if "set rest \<subseteq> {Chmod p m}" for rest p m
        using that by (auto simp: filter_empty_conv)
      show ?thesis
        using 1 2 rest by (intro exI [of _ r'] exI [of _ "ops1 @ ops2"]) (auto simp: Inr split: if_splits)
    qed
  qed
qed (auto intro!: exI [of _ "[]"])

section \<open>Bits of a mode\<close>

lemma setuid_bit: "m AND 0x800 = 0 \<longleftrightarrow> \<not> bit m 11" for m :: "32 word"
  using and_exp_eq_0_iff_not_bit [of m 11] by simp

lemma bit_read_mask: "bit (0x124 :: 32 word) n \<longleftrightarrow> n \<in> {2, 5, 8}"
proof -
  have "(0x124 :: 32 word) = 2 ^ 8 OR 2 ^ 5 OR 2 ^ 2" by simp
  then show ?thesis by (auto simp only: bit_or_iff bit_exp_iff) simp_all
qed

lemma bit_fused: "bit (m OR drop_bit 2 (m AND k)) n \<longleftrightarrow> bit m n \<or> bit m (n + 2) \<and> bit k (n + 2)" for m k :: "32 word"
  by (auto simp: bit_or_iff bit_and_iff bit_drop_bit_eq add.commute)

text \<open>
  A directory gets execute exactly where it has read, for owner, group and others, and loses and
  gains nothing else: sticky and setgid stay as requested.
\<close>

theorem dir_mode_bits:
  "bit (dir_mode_r_implies_x mode) n \<longleftrightarrow> bit mode n \<or> n \<in> {0, 3, 6} \<and> bit mode (n + 2)"
proof -
  have "n + 2 \<in> {2, 5, 8} \<longleftrightarrow> n \<in> {0, 3, 6}" by auto
  then show ?thesis unfolding dir_mode_r_implies_x_def bit_fused bit_read_mask by auto
qed

lemma dir_mode_keeps_setuid: "bit (dir_mode_r_implies_x mode) 11 = bit mode 11"
proof -
  have "(11 :: nat) + 2 \<notin> {2, 5, 8}" by simp
  then show ?thesis unfolding dir_mode_r_implies_x_def bit_fused bit_read_mask by simp
qed

lemma plain_file_mode: "fm AND NOT 0x1FF = 0 \<Longrightarrow> \<not> bit fm 11" for fm :: "32 word"
proof -
  assume "fm AND NOT 0x1FF = 0"
  then have "\<not> bit (fm AND NOT 0x1FF) 11" by simp
  moreover have "bit (NOT (0x1FF :: 32 word)) 11" by (simp add: bit_not_iff)
  ultimately show ?thesis by (simp add: bit_and_iff)
qed

section \<open>What an apply may touch\<close>

text \<open>
  What \<^verbatim>\<open>walkdir\<close> documents: every entry lies below the root by as many names as its depth says, and not
  deeper than asked for.
\<close>

definition walkdir_ok :: "fs_env \<Rightarrow> bool" where
  "walkdir_ok env = (\<forall>root d e. Inr e \<in> set (f_walk env root d) \<longrightarrow>
     (\<exists>names. w_path e = root @ map Normal names \<and> length names = w_depth e) \<and> (\<forall>n. d = Some n \<longrightarrow> w_depth e \<le> n))"

lemma walked_inside:
  assumes "walkdir_ok env" and "inside cfg root" and "Inr e \<in> set (f_walk env root d)"
  shows "inside cfg (w_path e)"
proof -
  from assms(1,3) obtain names where e: "w_path e = root @ map Normal names"
    unfolding walkdir_ok_def by blast
  from assms(2) obtain sh rel where sh: "sh \<in> set (shares cfg)" "root = path_components (serve_path_for sh) @ rel" "ParentDir \<notin> set rel"
    by (auto simp: inside_def)
  have "ParentDir \<notin> set (rel @ map Normal names)" using sh(3) by auto
  with sh e show ?thesis unfolding inside_def by (intro bexI [OF _ sh(1)] exI [of _ "rel @ map Normal names"]) simp
qed

fun op_paths :: "fs_op \<Rightarrow> path list" where
  "op_paths (Chown p _ _) = [p]"
| "op_paths (Chmod p _) = [p]"
| "op_paths (Setfacl ps _ _ _) = ps"

fun sets_setuid :: "fs_op \<Rightarrow> bool" where
  "sets_setuid (Chmod _ m) = (m AND 0x800 \<noteq> 0)"
| "sets_setuid _ = False"

lemma apply_permissions_cases:
  assumes "apply_permissions_with_progress env cfg p uid gid spec s = (res, s')"
  obtains (refused) e where "res = Err e" "s' = s"
  | (walked) target where "host_path_to_container_path cfg (normalize_for_matching p) = Ok target"
    "spec_mode spec AND 0x800 = 0" "\<forall>fm. spec_file_mode spec = Some fm \<longrightarrow> fm AND NOT 0x1FF = 0"
    "apply_walk env uid gid (spec_mode spec)
       \<lparr>opt_scope = spec_scope spec, opt_file_mode = spec_file_mode spec, continue_on_error = True\<rparr>
       (f_walk env target (max_depth (spec_scope spec))) empty_result s = (res, s')"
  using assms by (auto simp: apply_permissions_with_progress_def apply_tree_with_progress_def Let_def split: if_splits option.splits sum.splits)

text \<open>
  An apply touches nothing outside the shares: every file or directory whose owner or mode is
  changed lies below the container path of a configured share, reached by names only, is neither a
  link nor a special file, and never gets the setuid bit.
\<close>

theorem apply_stays_in_shares:
  assumes "apply_permissions_with_progress env cfg p uid gid spec s = (res, s')" and "walkdir_ok env"
  shows "\<exists>ops. issued s' = issued s @ ops \<and> (\<forall>x \<in> set ops. \<not> sets_setuid x \<and> (\<forall>q \<in> set (op_paths x). inside cfg q))"
  using assms(1)
proof (cases rule: apply_permissions_cases)
  case (walked target)
  let ?opts = "\<lparr>opt_scope = spec_scope spec, opt_file_mode = spec_file_mode spec, continue_on_error = True\<rparr>"
  let ?its = "f_walk env target (max_depth (spec_scope spec))"
  from apply_walk_effect [OF walked(4)] obtain ops where ops: "issued s' = issued s @ ops"
    "\<forall>x \<in> set ops. \<exists>e \<in> set (applicable (spec_scope spec) ?its).
       x \<in> {Chown (w_path e) uid gid, Chmod (w_path e) (mode_for (spec_mode spec) (spec_file_mode spec) e)}" by auto
  have setuid: "mode_for (spec_mode spec) (spec_file_mode spec) e AND 0x800 = 0" for e
    using walked(2,3) plain_file_mode dir_mode_keeps_setuid
    by (cases "spec_file_mode spec") (auto simp: mode_for_def setuid_bit unwrap_or_def)
  have "inside cfg (w_path e)" if "e \<in> set (applicable (spec_scope spec) ?its)" for e
    using that walked_inside [OF assms(2) mapped_inside [OF walked(1)]] by (auto simp: applicable_def set_walk_entries)
  with ops setuid show ?thesis by (fastforce intro!: exI [of _ ops])
qed (auto intro!: exI [of _ "[]"])

lemma count_walk_all:
  assumes "\<forall>i. \<not> f_cancelled env i"
  shows "fst (count_walk env scope its n s) = n + length (applicable scope its)"
proof (induction its arbitrary: n s)
  case (Cons it its)
  then show ?case using assms by (cases it) (simp_all add: look_def)
qed simp


section \<open>Chunked changes of access lists\<close>

definition acl_applicable :: "ApplyScope \<Rightarrow> bool \<Rightarrow> walk_item list \<Rightarrow> walk_entry list" where
  "acl_applicable scope d its = filter (\<lambda>e. acl_entry_applies e scope d) (entries its)"

lemma acl_applicable_simps [simp]:
  "acl_applicable scope d [] = []" "acl_applicable scope d (Inl x # its) = acl_applicable scope d its"
  "acl_applicable scope d (Inr e # its) = (if acl_entry_applies e scope d then e # acl_applicable scope d its else acl_applicable scope d its)"
  by (simp_all add: acl_applicable_def)

text \<open>One call of the tool, on directories or on files only, with the modification meant for them.\<close>

definition good_call :: "AclModification \<Rightarrow> AclModification \<Rightarrow> path set \<Rightarrow> path set \<Rightarrow> fs_op \<Rightarrow> bool" where
  "good_call dm fm D F x =
     (\<exists>ps m. x = Setfacl ps (fst (modification_spec m)) (fst (snd (modification_spec m))) (snd (snd (modification_spec m)))
        \<and> ps \<noteq> [] \<and> length ps \<le> CHUNK \<and> (m = dm \<and> set ps \<subseteq> D \<or> m = fm \<and> set ps \<subseteq> F))"

lemma good_callE:
  assumes "good_call dm fm D F x"
  obtains ps m where "x = Setfacl ps (fst (modification_spec m)) (fst (snd (modification_spec m))) (snd (snd (modification_spec m)))"
    "ps \<noteq> []" "length ps \<le> 64" "m = dm \<and> set ps \<subseteq> D \<or> m = fm \<and> set ps \<subseteq> F"
  using assms unfolding good_call_def CHUNK_def by blast

lemma flush_effect:
  assumes "flush env ps m r s = (r', s')" and "length ps \<le> CHUNK" and "m = dm \<and> set ps \<subseteq> D \<or> m = fm \<and> set ps \<subseteq> F"
  shows "\<exists>ops. issued s' = issued s @ ops \<and> concat (map op_paths ops) = ps \<and> (\<forall>x \<in> set ops. good_call dm fm D F x)"
proof (cases "ps = []")
  case True
  with assms(1) show ?thesis by (intro exI [of _ "[]"]) (simp add: flush_def)
next
  case False
  let ?op = "Setfacl ps (fst (modification_spec m)) (fst (snd (modification_spec m))) (snd (snd (modification_spec m)))"
  have "issued s' = issued s @ [?op]"
    using assms(1) False by (auto simp: flush_def run_setfacl_many_def run_op_def Let_def split: prod.splits option.splits)
  moreover have "good_call dm fm D F ?op" unfolding good_call_def using False assms(2,3) by (intro exI [of _ ps] exI [of _ m]) simp
  ultimately show ?thesis by (intro exI [of _ "[?op]"]) simp
qed

definition filed :: "path set \<Rightarrow> path set \<Rightarrow> walk_entry \<Rightarrow> bool" where
  "filed D F e = (if w_type e = IsDir then w_path e \<in> D else w_path e \<in> F)"

lemma push_entry_effect:
  assumes "push_entry env dm fm e (dc, fc) r s = ((dc', fc'), r', s')"
    and "length dc < CHUNK" "length fc < CHUNK" "set dc \<subseteq> D" "set fc \<subseteq> F"
    and "filed D F e"
  shows "\<exists>ops. issued s' = issued s @ ops \<and> (\<forall>x \<in> set ops. good_call dm fm D F x)
    \<and> length dc' < CHUNK \<and> length fc' < CHUNK \<and> set dc' \<subseteq> D \<and> set fc' \<subseteq> F
    \<and> mset dc' + mset fc' + mset (concat (map op_paths ops)) = mset dc + mset fc + {#w_path e#}"
proof -
  have pos: "0 < CHUNK" by (simp add: CHUNK_def)
  consider (dirs) "w_type e = IsDir" "length (dc @ [w_path e]) \<ge> CHUNK" | (files) "w_type e \<noteq> IsDir" "length (fc @ [w_path e]) \<ge> CHUNK"
    | (kept) "(dc', fc') = (if w_type e = IsDir then (dc @ [w_path e], fc) else (dc, fc @ [w_path e]))" "s' = s"
        "length dc' < CHUNK" "length fc' < CHUNK"
    using assms(1,2,3) by (cases "w_type e = IsDir") (auto simp: push_entry_def Let_def split: if_splits)
  then show ?thesis
  proof cases
    case dirs
    then have fl: "flush env (dc @ [w_path e]) dm r s = (r', s')" "dc' = []" "fc' = fc"
      using assms(1) by (auto simp: push_entry_def Let_def)
    from flush_effect [OF fl(1), of dm D fm F] assms(2,4,6) dirs obtain ops where "issued s' = issued s @ ops"
      "concat (map op_paths ops) = dc @ [w_path e]" "\<forall>x \<in> set ops. good_call dm fm D F x" by (auto simp: filed_def)
    with fl assms pos show ?thesis by (intro exI [of _ ops]) (simp add: ac_simps)
  next
    case files
    then have fl: "flush env (fc @ [w_path e]) fm r s = (r', s')" "dc' = dc" "fc' = []"
      using assms(1) by (auto simp: push_entry_def Let_def)
    from flush_effect [OF fl(1), of dm D fm F] assms(3,5,6) files obtain ops where "issued s' = issued s @ ops"
      "concat (map op_paths ops) = fc @ [w_path e]" "\<forall>x \<in> set ops. good_call dm fm D F x" by (auto simp: filed_def)
    with fl assms pos show ?thesis by (intro exI [of _ ops]) (simp add: ac_simps)
  next
    case kept
    with assms(4-6) show ?thesis by (intro exI [of _ "[]"]) (auto simp: filed_def split: if_splits)
  qed
qed

lemma acl_walk_effect:
  assumes "acl_walk env dm fm scope its (dc, fc) r s = ((dc', fc'), r', s')"
    and "length dc < CHUNK" "length fc < CHUNK" "set dc \<subseteq> D" "set fc \<subseteq> F"
    and "\<forall>e \<in> set (acl_applicable scope (default_layer dm) its). filed D F e"
  shows "\<exists>ops. issued s' = issued s @ ops \<and> (\<forall>x \<in> set ops. good_call dm fm D F x)
    \<and> length dc' < CHUNK \<and> length fc' < CHUNK \<and> set dc' \<subseteq> D \<and> set fc' \<subseteq> F
    \<and> ((\<forall>i. \<not> f_cancelled env i) \<longrightarrow> mset dc' + mset fc' + mset (concat (map op_paths ops)) =
         mset dc + mset fc + mset (map w_path (acl_applicable scope (default_layer dm) its)))"
  using assms
proof (induction its arbitrary: dc fc r s)
  case (Cons it its)
  show ?case
  proof (cases "f_cancelled env (looks s)")
    case True
    with Cons.prems show ?thesis by (auto simp: look_def intro!: exI [of _ "[]"])
  next
    case False
    define s1 where "s1 = s\<lparr>looks := Suc (looks s)\<rparr>"
    have rest: "\<forall>e \<in> set (acl_applicable scope (default_layer dm) its). filed D F e"
      using Cons.prems(6) by (cases it) (auto split: if_splits)
    show ?thesis
    proof (cases "\<exists>e. it = Inr e \<and> w_type e \<noteq> IsSymlink \<and> acl_entry_applies e scope (default_layer dm)")
      case True
      then obtain e where e: "it = Inr e" "w_type e \<noteq> IsSymlink" "acl_entry_applies e scope (default_layer dm)" by blast
      obtain dc1 fc1 r1 s2 where p: "push_entry env dm fm e (dc, fc) r (in_progress (at_path (w_path e)) s1) = ((dc1, fc1), r1, s2)"
        by (metis prod.exhaust)
      have "filed D F e" using Cons.prems(6) e by simp
      from push_entry_effect [OF p Cons.prems(2-5) this] obtain ops1 where 1: "issued s2 = issued s @ ops1"
        "\<forall>x \<in> set ops1. good_call dm fm D F x" "length dc1 < CHUNK" "length fc1 < CHUNK" "set dc1 \<subseteq> D" "set fc1 \<subseteq> F"
        "mset dc1 + mset fc1 + mset (concat (map op_paths ops1)) = mset dc + mset fc + {#w_path e#}" by (auto simp: s1_def)
      have "acl_walk env dm fm scope its (dc1, fc1) r1 s2 = ((dc', fc'), r', s')"
        using Cons.prems(1) False e p by (simp add: look_def s1_def)
      from Cons.IH [OF this 1(3-6) rest] obtain ops2 where 2: "issued s' = issued s2 @ ops2"
        "\<forall>x \<in> set ops2. good_call dm fm D F x" "length dc' < CHUNK" "length fc' < CHUNK" "set dc' \<subseteq> D" "set fc' \<subseteq> F"
        "(\<forall>i. \<not> f_cancelled env i) \<longrightarrow> mset dc' + mset fc' + mset (concat (map op_paths ops2)) =
           mset dc1 + mset fc1 + mset (map w_path (acl_applicable scope (default_layer dm) its))" by blast
      have "mset dc' + mset fc' + mset (concat (map op_paths (ops1 @ ops2))) =
          mset dc + mset fc + mset (map w_path (acl_applicable scope (default_layer dm) (it # its)))" if "\<forall>i. \<not> f_cancelled env i"
      proof -
        have "mset dc' + mset fc' + mset (concat (map op_paths (ops1 @ ops2))) =
            (mset dc' + mset fc' + mset (concat (map op_paths ops2))) + mset (concat (map op_paths ops1))" by (simp add: ac_simps)
        also have "\<dots> = (mset dc1 + mset fc1 + mset (concat (map op_paths ops1))) + mset (map w_path (acl_applicable scope (default_layer dm) its))"
          using 2(7) that by (simp add: ac_simps)
        finally show ?thesis unfolding 1(7) using e by (simp add: ac_simps)
      qed
      with 1 2 show ?thesis by (intro exI [of _ "ops1 @ ops2"]) auto
    next
      case skip: False
      have none: "acl_applicable scope (default_layer dm) (it # its) = acl_applicable scope (default_layer dm) its"
        using skip applies_to by (cases it) (fastforce simp: acl_entry_applies_def split: if_splits)+
      obtain r1 g where "acl_walk env dm fm scope its (dc, fc) r1 (in_progress g s1) = ((dc', fc'), r', s')"
        using Cons.prems(1) False skip that by (cases it) (auto simp: look_def s1_def split: if_splits prod.splits)
      from Cons.IH [OF this Cons.prems(2-5) rest] show ?thesis unfolding none by (simp add: s1_def)
    qed
  qed
qed (auto intro!: exI [of _ "[]"])

lemma apply_acl_effect:
  assumes "apply_acl_with_progress env cfg p dm fm scope s = (Ok r, s')"
  obtains target ops where "host_path_to_container_path cfg (normalize_for_matching p) = Ok target" "issued s' = issued s @ ops"
    "let es = acl_applicable scope (default_layer dm) (f_walk env target (max_depth scope)) in
       (\<forall>x \<in> set ops. good_call dm fm (w_path ` {e \<in> set es. w_type e = IsDir}) (w_path ` {e \<in> set es. w_type e = IsFile}) x)
       \<and> ((\<forall>i. \<not> f_cancelled env i) \<longrightarrow> mset (concat (map op_paths ops)) = mset (map w_path es))"
proof -
  from assms obtain target where t: "host_path_to_container_path cfg (normalize_for_matching p) = Ok target"
    by (auto simp: apply_acl_with_progress_def target_of_def Let_def split: if_splits sum.splits prod.splits)
  define es where "es = acl_applicable scope (default_layer dm) (f_walk env target (max_depth scope))"
  define D where "D = w_path ` {e \<in> set es. w_type e = IsDir}"
  define F where "F = w_path ` {e \<in> set es. w_type e = IsFile}"
  obtain dc fc r1 s1 where w: "acl_walk env dm fm scope (f_walk env target (max_depth scope)) ([], []) empty_result s = ((dc, fc), r1, s1)"
    by (metis prod.exhaust)
  obtain r2 s2 where f1: "flush env dc dm r1 s1 = (r2, s2)" by (rule prod.exhaust)
  have "is_allowed cfg (normalize_for_matching p)" using t allowed_mapped by blast
  then have f2: "flush env fc fm r2 s2 = (r, s')"
    using assms t w f1 by (auto simp: apply_acl_with_progress_def target_of_def Let_def split: prod.splits)
  have "\<forall>e \<in> set es. filed D F e"
    using applies_to by (auto simp: filed_def D_def F_def es_def acl_applicable_def acl_entry_applies_def split: if_splits)
  then obtain ops0 where 0: "issued s1 = issued s @ ops0" "\<forall>x \<in> set ops0. good_call dm fm D F x"
    "length dc < CHUNK" "length fc < CHUNK" "set dc \<subseteq> D" "set fc \<subseteq> F"
    "(\<forall>i. \<not> f_cancelled env i) \<longrightarrow> mset dc + mset fc + mset (concat (map op_paths ops0)) = mset (map w_path es)"
    using acl_walk_effect [OF w, of D F] by (auto simp: CHUNK_def es_def)
  obtain ops1 where 1: "issued s2 = issued s1 @ ops1" "concat (map op_paths ops1) = dc" "\<forall>x \<in> set ops1. good_call dm fm D F x"
    using flush_effect [OF f1, of dm D fm F] 0(3,5) by auto
  obtain ops2 where 2: "issued s' = issued s2 @ ops2" "concat (map op_paths ops2) = fc" "\<forall>x \<in> set ops2. good_call dm fm D F x"
    using flush_effect [OF f2, of dm D fm F] 0(4,6) by auto
  show thesis
  proof (rule that [OF t, of "ops0 @ ops1 @ ops2"])
    show "issued s' = issued s @ ops0 @ ops1 @ ops2" using 0(1) 1(1) 2(1) by simp
    have "mset (concat (map op_paths (ops0 @ ops1 @ ops2))) = mset (map w_path es)" if "\<forall>i. \<not> f_cancelled env i"
      using 0(7) that 1(2) 2(2) by (simp add: ac_simps)
    with 0(2) 1(3) 2(3) show "let es = acl_applicable scope (default_layer dm) (f_walk env target (max_depth scope)) in
       (\<forall>x \<in> set (ops0 @ ops1 @ ops2). good_call dm fm (w_path ` {e \<in> set es. w_type e = IsDir}) (w_path ` {e \<in> set es. w_type e = IsFile}) x)
       \<and> ((\<forall>i. \<not> f_cancelled env i) \<longrightarrow> mset (concat (map op_paths (ops0 @ ops1 @ ops2))) = mset (map w_path es))"
      by (auto simp: Let_def es_def [symmetric] D_def F_def)
  qed
qed

text \<open>
  Changing access lists in chunks is as good as changing them one by one: every call names at
  most 64 paths, directories get the modification meant for directories and files the one meant for
  files, and unless the apply is cancelled every entry of the scope is named in exactly one call.
\<close>

theorem acl_chunks_cover_scope:
  assumes "apply_acl_with_progress env cfg p dm fm scope s = (Ok r, s')"
    and "host_path_to_container_path cfg (normalize_for_matching p) = Ok target"
    and "es = filter (\<lambda>e. acl_entry_applies e scope (default_layer dm)) (entries (f_walk env target (max_depth scope)))"
  shows "\<exists>ops. issued s' = issued s @ ops
     \<and> (\<forall>x \<in> set ops. \<exists>ps m d flag spec. x = Setfacl ps d flag spec \<and> modification_spec m = (d, flag, spec) \<and> ps \<noteq> [] \<and> length ps \<le> 64
          \<and> (m = dm \<and> set ps \<subseteq> w_path ` {e \<in> set es. w_type e = IsDir} \<or> m = fm \<and> set ps \<subseteq> w_path ` {e \<in> set es. w_type e = IsFile}))
     \<and> ((\<forall>i. \<not> f_cancelled env i) \<longrightarrow> mset (concat (map op_paths ops)) = mset (map w_path es))"
proof -
  obtain target' ops where t: "host_path_to_container_path cfg (normalize_for_matching p) = Ok target'" and i: "issued s' = issued s @ ops"
    and o: "let es = acl_applicable scope (default_layer dm) (f_walk env target' (max_depth scope)) in
       (\<forall>x \<in> set ops. good_call dm fm (w_path ` {e \<in> set es. w_type e = IsDir}) (w_path ` {e \<in> set es. w_type e = IsFile}) x)
       \<and> ((\<forall>i. \<not> f_cancelled env i) \<longrightarrow> mset (concat (map op_paths ops)) = mset (map w_path es))"
    by (rule apply_acl_effect [OF assms(1)])
  have "target' = target" using t assms(2) by simp
  with o have calls: "\<forall>x \<in> set ops. good_call dm fm (w_path ` {e \<in> set es. w_type e = IsDir}) (w_path ` {e \<in> set es. w_type e = IsFile}) x"
    and all: "(\<forall>i. \<not> f_cancelled env i) \<longrightarrow> mset (concat (map op_paths ops)) = mset (map w_path es)"
    unfolding Let_def acl_applicable_def assms(3) by simp_all
  have "\<exists>ps m d flag spec. x = Setfacl ps d flag spec \<and> modification_spec m = (d, flag, spec) \<and> ps \<noteq> [] \<and> length ps \<le> 64
          \<and> (m = dm \<and> set ps \<subseteq> w_path ` {e \<in> set es. w_type e = IsDir} \<or> m = fm \<and> set ps \<subseteq> w_path ` {e \<in> set es. w_type e = IsFile})"
    if x_in: "x \<in> set ops" for x
  proof -
    obtain ps m where x: "x = Setfacl ps (fst (modification_spec m)) (fst (snd (modification_spec m))) (snd (snd (modification_spec m)))"
      "ps \<noteq> []" "length ps \<le> 64" "m = dm \<and> set ps \<subseteq> w_path ` {e \<in> set es. w_type e = IsDir} \<or> m = fm \<and> set ps \<subseteq> w_path ` {e \<in> set es. w_type e = IsFile}"
      by (rule good_callE [OF bspec [OF calls x_in]])
    obtain d flag spec where m: "modification_spec m = (d, flag, spec)" by (rule prod_cases3)
    show ?thesis using x m by (intro exI [of _ ps] exI [of _ m] exI [of _ d] exI [of _ flag] exI [of _ spec]) simp
  qed
  then show ?thesis by (intro exI [of _ ops] conjI ballI i all)
qed

section \<open>A sample tree\<close>

definition sample_entry :: "path \<Rightarrow> string list \<times> file_type \<Rightarrow> walk_entry" where
  "sample_entry root x = \<lparr>w_path = root @ map Normal (fst x), w_depth = length (fst x), w_type = snd x\<rparr>"

definition sample_tree :: "path \<Rightarrow> nat option \<Rightarrow> walk_item list" where
  "sample_tree root d =
     map Inr (filter (\<lambda>e. case d of None \<Rightarrow> True | Some n \<Rightarrow> w_depth e \<le> n)
       (map (sample_entry root) [([], IsDir), ([''a.txt''], IsFile), ([''link''], IsSymlink), ([''sub''], IsDir), ([''sub'', ''b.txt''], IsFile)]))"

definition sample_fs :: fs_env where
  "sample_fs = \<lparr>f_walk = sample_tree, f_op = (\<lambda>_ _. None), f_cancelled = (\<lambda>_. False)\<rparr>"

definition sample_cfg :: NfsKlldapConfig where
  "sample_cfg = default_config\<lparr>shares := [default_share\<lparr>name := ''data'', host_path := ''/srv/data'', container_path := ''/export/data''\<rparr>]\<rparr>"

definition idle :: fs_state where
  "idle = \<lparr>prog = \<lparr>p_processed = 0, p_changed = 0, p_skipped = 0, p_error_count = 0, recent_errors = [], last_path = None\<rparr>,
           issued = [], looks = 0\<rparr>"

lemma sample_walk_ok: "walkdir_ok sample_fs"
  unfolding walkdir_ok_def
proof (intro allI impI)
  fix root d e
  assume e: "Inr e \<in> set (f_walk sample_fs root d)"
  then obtain x where "e = sample_entry root x" by (auto simp: sample_fs_def sample_tree_def simp del: list.map filter.simps)
  then have "\<exists>names. w_path e = root @ map Normal names \<and> length names = w_depth e" by (auto simp: sample_entry_def)
  moreover from e have "\<forall>n. d = Some n \<longrightarrow> w_depth e \<le> n"
    by (auto simp: sample_fs_def sample_tree_def simp del: list.map filter.simps)
  ultimately show "(\<exists>names. w_path e = root @ map Normal names \<and> length names = w_depth e) \<and> (\<forall>n. d = Some n \<longrightarrow> w_depth e \<le> n)" by auto
qed

lemma sample_target:
  "host_path_to_container_path sample_cfg (normalize_for_matching ''/srv/data/'') = Ok [RootDir, Normal ''export'', Normal ''data'']"
  by (simp add: sample_cfg_def) code_simp

definition sample_spec :: ApplySpec where
  "sample_spec = \<lparr>spec_mode = 0x1E4, spec_scope = ImmediateFiles, spec_file_mode = Some 0x1A4\<rparr>"

lemma sample_apply:
  "\<exists>r s'. apply_permissions_with_progress sample_fs sample_cfg ''/srv/data/'' 7 8 sample_spec idle = (Ok r, s')"
proof -
  obtain res s' where a: "apply_permissions_with_progress sample_fs sample_cfg ''/srv/data/'' 7 8 sample_spec idle = (res, s')" by (rule prod.exhaust)
  have "is_allowed sample_cfg (normalize_for_matching ''/srv/data/'')" using sample_target allowed_mapped by blast
  then have "apply_walk sample_fs 7 8 (spec_mode sample_spec)
       \<lparr>opt_scope = spec_scope sample_spec, opt_file_mode = spec_file_mode sample_spec, continue_on_error = True\<rparr>
       (f_walk sample_fs [RootDir, Normal ''export'', Normal ''data''] (max_depth (spec_scope sample_spec))) empty_result idle = (res, s')"
    using a by (simp add: apply_permissions_with_progress_def apply_tree_with_progress_def sample_target Let_def sample_spec_def)
  from apply_walk_effect [OF this] a show ?thesis by auto
qed

theorem mapped_into_most_specific_share_witness:
  "\<exists>sh \<in> set (shares sample_cfg). \<exists>rel.
     path_components (normalize_for_matching (normalize_for_matching ''/srv/data/'')) = path_components (normalize_for_matching (host_path sh)) @ rel
     \<and> [RootDir, Normal ''export'', Normal ''data''] = path_components (serve_path_for sh) @ rel \<and> ParentDir \<notin> set rel"
  using mapped_into_most_specific_share [OF sample_target] by blast

theorem apply_stays_in_shares_witness:
  "\<exists>r s'. apply_permissions_with_progress sample_fs sample_cfg ''/srv/data/'' 7 8 sample_spec idle = (Ok r, s')
     \<and> (\<forall>x \<in> set (issued s'). \<not> sets_setuid x \<and> (\<forall>q \<in> set (op_paths x). inside sample_cfg q))"
proof -
  obtain r s' where a: "apply_permissions_with_progress sample_fs sample_cfg ''/srv/data/'' 7 8 sample_spec idle = (Ok r, s')"
    using sample_apply by blast
  from apply_stays_in_shares [OF a sample_walk_ok] a show ?thesis by (auto simp: idle_def)
qed


theorem acl_chunks_cover_scope_witness:
  "\<exists>r s'. apply_acl_with_progress sample_fs sample_cfg ''/srv/data/'' (SetMask (from_str ''r-x'') True) (SetMask (from_str ''r-x'') True) AllEntries idle = (Ok r, s')
     \<and> mset (concat (map op_paths (issued s'))) =
         mset [[RootDir, Normal ''export'', Normal ''data''], [RootDir, Normal ''export'', Normal ''data'', Normal ''sub'']]"
proof -
  let ?m = "SetMask (from_str ''r-x'') True"
  have "is_allowed sample_cfg (normalize_for_matching ''/srv/data/'')" using sample_target allowed_mapped by blast
  then obtain r s' where a: "apply_acl_with_progress sample_fs sample_cfg ''/srv/data/'' ?m ?m AllEntries idle = (Ok r, s')"
    using sample_target by (auto simp: apply_acl_with_progress_def target_of_def Let_def case_prod_beta)
  have never: "\<forall>i. \<not> f_cancelled sample_fs i" by (simp add: sample_fs_def)
  have "filter (\<lambda>e. acl_entry_applies e AllEntries (default_layer ?m))
      (entries (f_walk sample_fs [RootDir, Normal ''export'', Normal ''data''] (max_depth AllEntries))) =
      [sample_entry [RootDir, Normal ''export'', Normal ''data''] ([], IsDir), sample_entry [RootDir, Normal ''export'', Normal ''data''] ([''sub''], IsDir)]"
    by (simp add: sample_fs_def sample_tree_def entries_def List.map_filter_simps acl_entry_applies_def should_apply_entry_def sample_entry_def)
  from acl_chunks_cover_scope [OF a sample_target this [symmetric]] never a show ?thesis by (auto simp: idle_def sample_entry_def)
qed

end
