(* ===== verification/Apply_Laws.thy ===== *)
theory Apply_Laws
  imports Apply_Task Fs_Manager_Laws
begin

text \<open>
  What the permission editor promises: a panel that is submitted unchanged keeps the owner, the group and
  the mode; a batch of staged edits is checked as a whole before anything is changed and carried out in
  order up to the first failure; the operations of two applies never interleave. Also what it does not:
  names of directories reach the log page unescaped.
\<close>

section \<open>Octal numbers\<close>

lemma byte_octal_digit: "n < 8 \<Longrightarrow> byte (octal_digit n) = 48 + n"
  by (simp add: octal_digit_def)

lemma show_octal_digits: "list_all is_octal_digit (show_octal n) \<and> show_octal n \<noteq> []"
proof (induction n rule: show_octal.induct)
  case (1 n)
  have "is_octal_digit (octal_digit (n mod 8))" "n < 8 \<Longrightarrow> is_octal_digit (octal_digit n)"
    by (simp_all add: is_octal_digit_def byte_octal_digit)
  then show ?case using 1 by (cases "n < 8") (simp_all add: show_octal.simps [of n])
qed

lemma octal_value_append: "octal_value acc (s @ [c]) = 8 * octal_value acc s + (byte c - 48)"
  by (induction s arbitrary: acc) simp_all

lemma octal_value_show: "octal_value 0 (show_octal n) = n"
proof (induction n rule: show_octal.induct)
  case (1 n)
  then show ?case
    by (cases "n < 8") (simp_all add: show_octal.simps [of n] octal_value_append byte_octal_digit)
qed

lemma octal_value_zeros: "octal_value 0 (replicate k CHR ''0'' @ s) = octal_value 0 s"
  by (induction k) simp_all

lemma octal_roundtrip: "from_str_radix_8 (show_octal4 w) = Some w"
proof -
  let ?s = "show_octal4 w"
  have digits: "list_all is_octal_digit ?s" "?s \<noteq> []" and val: "octal_value 0 ?s = unat w"
    using show_octal_digits [of "unat w"]
    by (auto simp: show_octal4_def Let_def octal_value_zeros octal_value_show list_all_iff is_octal_digit_def)
  then have plain: "(case ?s of c # r \<Rightarrow> if c = CHR ''+'' then r else ?s | [] \<Rightarrow> ?s) = ?s"
    by (cases ?s) (auto simp: is_octal_digit_def)
  have "unat w < 2 ^ LENGTH(32)" by (rule unsigned_less)
  then show ?thesis by (simp add: from_str_radix_8_def plain digits val Let_def)
qed

section \<open>The owner fields\<close>

lemma normalize_number: "normalize_editor_search_query (Some (show_nat n)) = Some (show_nat n)"
proof -
  have "CHR ''('' \<notin> set (show_nat n)"
    using show_nat_digits [of n] by (auto simp: list_all_iff is_ascii_digit_def)
  then have "rsplit_once CHR ''('' (show_nat n) = None"
    by (cases "rsplit_once CHR ''('' (show_nat n)") (auto dest: arg_cong [where f = set] simp: rsplit_once_Some_iff)
  then show ?thesis by (simp add: normalize_editor_search_query_def opt_filter_def)
qed

text \<open>The labels of the panel, read back as the number they show.\<close>

definition shows_number :: "string \<Rightarrow> 32 word \<Rightarrow> bool" where
  "shows_number field n \<longleftrightarrow> normalize_editor_search_query (Some field) = Some (show_word n)"

lemma owner_label_shows: "shows_number (owner_label r n) n"
  using editor_label_roundtrip normalize_number
  by (cases r) (simp_all add: shows_number_def owner_label_def show_word_def)

lemma nobody_shows: "shows_number ''nobody (0)'' 0"
proof -
  have "show_nat 0 = ''0''" by code_simp
  then show ?thesis using editor_label_roundtrip [of "''nobody''" 0] by (simp add: shows_number_def show_word_def)
qed

lemma friendly_labels_show:
  "shows_number (fst (friendly_user_label e n c)) n" "shows_number (fst (friendly_group_label e n c)) n"
  using nobody_shows by (auto simp: friendly_user_label_def friendly_group_label_def owner_label_shows split: prod.split)

lemma typed_kept:
  assumes "hidden = show_word n \<or> hidden = []" and "shows_number field n \<or> field = []"
  shows "typed_id hidden field = (Some n, False) \<or> hidden = [] \<and> field = [] \<and> typed_id hidden field = (None, False)"
proof -
  have "trim [] = []" by code_simp
  then have blank: "parse_u32 [] = None" "trim [] = []" "normalize_editor_search_query (Some []) = None"
    by (simp_all add: parse_u32_def parse_unsigned_def normalize_editor_search_query_def opt_filter_def)
  show ?thesis
    using assms by (auto simp: typed_id_def shows_number_def parse_u32_show show_word_def [symmetric] blank)
qed

text \<open>A field left as the panel filled it, or emptied, keeps what is there.\<close>

definition left_alone :: "string \<Rightarrow> string \<Rightarrow> 32 word \<Rightarrow> bool" where
  "left_alone hidden field n \<longleftrightarrow> (hidden = show_word n \<or> hidden = []) \<and> (shows_number field n \<or> field = [])"

lemma resolve_owners_kept:
  assumes "left_alone (af_owner_uid f) (af_owner_user f) (n_uid m)" and "left_alone (af_owner_gid f) (af_owner_group f) (n_gid m)"
    and "get_node_meta (ue_stat env) (ue_cfg env) (af_path f) = Some m"
  shows "resolve_owners env f c = (Ok (n_uid m, n_gid m), c)"
  using typed_kept [of "af_owner_uid f" "n_uid m" "af_owner_user f"] typed_kept [of "af_owner_gid f" "n_gid m" "af_owner_group f"] assms
  by (auto simp: resolve_owners_def lookup_id_def left_alone_def get_dir_meta_def)

lemma node_meta_mode: "get_node_meta st cfg p = Some m \<Longrightarrow> n_mode m AND 0xFFF = n_mode m"
  by (auto simp: get_node_meta_def and.assoc split: sum.splits)

lemma panel_shows:
  assumes "dir_perms env p s = (v, s')" and "get_node_meta (ue_stat env) (ue_cfg env) p = Some m"
  shows "shows_number (owner_display v) (n_uid m)" "shows_number (group_display v) (n_gid m)"
    "owner_uid_hidden v = show_word (n_uid m)" "owner_gid_hidden v = show_word (n_gid m)" "mode_octal v = show_octal4 (n_mode m)"
proof -
  obtain u g c where o: "owner_fields (ue_ldap env) (Some m) (us_ldap s) = ((u, g), c)" by (metis prod.exhaust)
  from o have "shows_number u (n_uid m)" "shows_number g (n_gid m)"
    using friendly_labels_show(1) [of "ue_ldap env" "n_uid m" "us_ldap s"]
      friendly_labels_show(2) [of "ue_ldap env" "n_gid m" "snd (friendly_user_label (ue_ldap env) (n_uid m) (us_ldap s))"]
    by (auto simp: owner_fields_def split: prod.splits)
  with assms o show "shows_number (owner_display v) (n_uid m)" "shows_number (group_display v) (n_gid m)"
    "owner_uid_hidden v = show_word (n_uid m)" "owner_gid_hidden v = show_word (n_gid m)" "mode_octal v = show_octal4 (n_mode m)"
    by (auto simp: dir_perms_def Let_def node_meta_mode split: prod.splits)
qed


section \<open>Staged edits\<close>

text \<open>An edit that may be carried out: a named entry has a number, and a file gets no default entry.\<close>

fun entry_number :: "AclEntryKind \<Rightarrow> 32 word" where
  "entry_number (UserEntry n) = n"
| "entry_number (GroupEntry n) = n"

fun names_nobody :: "AclModification \<Rightarrow> bool" where
  "names_nobody (SetEntry k _ _) = (entry_number k = 0)"
| "names_nobody (RemoveEntries ks _) = (ks = [] \<or> (\<exists>k \<in> set ks. entry_number k = 0))"
| "names_nobody (SetMask _ _) = False"

lemma build_names:
  assumes "build_acl_modification op is_user ident [] perms dl d p = Some (dm, fm, cmd)" and "ident = 0 \<longrightarrow> op = ''mask''"
  shows "\<not> names_nobody dm \<and> \<not> names_nobody fm \<and> default_layer dm = dl \<and> default_layer fm = dl"
proof -
  consider "op = ''mask''" | "op \<noteq> ''mask''" "op = ''add'' \<or> op = ''edit'' \<or> op = ''set''"
    | "op \<noteq> ''mask''" "\<not> (op = ''add'' \<or> op = ''edit'' \<or> op = ''set'')" by blast
  then show ?thesis
  proof cases
    case 1
    with assms(1) show ?thesis by (simp add: build_acl_modification_def Let_def) (elim conjE, hypsubst_thin, simp)
  next
    case 2
    then have "ident \<noteq> 0" using assms(2) by blast
    with 2 assms(1) show ?thesis
      by (simp only: build_acl_modification_def Let_def if_False if_True option.inject prod.inject) (elim conjE, hypsubst_thin, simp)
  next
    case 3
    then have "ident \<noteq> 0" using assms(2) by blast
    with 3 assms(1) show ?thesis
      by (cases "op = ''delete'' \<or> op = ''del''")
        (simp_all only: build_acl_modification_def Let_def if_False if_True option.inject prod.inject option.distinct
           word_gt_0 simp_thms not_False_eq_True, (elim conjE, hypsubst_thin, simp)?)
  qed
qed

lemma stage_op_sound:
  assumes "stage_op e is_file p sp c = (Ok (dm, fm, cmd, op), c')"
  shows "\<not> names_nobody dm \<and> \<not> names_nobody fm \<and> (is_file \<longrightarrow> \<not> default_layer dm)"
proof -
  let ?op = "to_lowercase (trim (so_op sp))" and ?dl = "eq_ignore_ascii_case (trim (so_layer sp)) ''default''"
  from assms have "\<not> (?dl \<and> is_file)" by (auto simp: stage_op_def Let_def)
  moreover from assms obtain ident where
    b: "build_acl_modification ?op (is_user_kind (so_typ sp)) ident [] (so_perms sp) ?dl (\<not> is_file) p = Some (dm, fm, cmd)"
    and z: "ident = 0 \<longrightarrow> ?op = ''mask''"
    by (auto simp: stage_op_def Let_def split: if_splits prod.splits option.splits)
  ultimately show ?thesis using build_names [OF b z] by blast
qed

lemma stage_ops_sound:
  assumes "stage_ops e is_file p sps c = (Ok xs, c')"
  shows "length xs = length sps \<and> (\<forall>(dm, fm, _) \<in> set xs. \<not> names_nobody dm \<and> \<not> names_nobody fm \<and> (is_file \<longrightarrow> \<not> default_layer dm))"
  using assms
proof (induction sps arbitrary: xs c)
  case (Cons sp sps)
  then obtain x c1 ys where x: "stage_op e is_file p sp c = (Ok x, c1)" "stage_ops e is_file p sps c1 = (Ok ys, c')" "xs = x # ys"
    by (auto split: prod.splits sum.splits)
  obtain dm fm cmd op where "x = (dm, fm, cmd, op)" by (metis prod.exhaust)
  with x stage_op_sound Cons.IH [OF x(2)] show ?case by fastforce
qed simp

text \<open>
  C13: A batch of staged edits is checked as a whole before anything is changed: when the apply is accepted, the
  batch was readable, the gate of the node was open for it, every edit became exactly one modification,
  none of them names the number 0 or nobody at all, and a file gets no default entry.
\<close>

theorem staged_batch_checked:
  assumes "prepare_apply json env f s = (Ok j, s')" and "trim (af_acl_ops f) \<noteq> []"
  shows "\<exists>sps. json (trim (af_acl_ops f)) = Some sps \<and> length (j_acl j) = length sps
     \<and> (sps = [] \<or> editable (fst (acl_apply_gate (ue_acl env) (ue_snap env) (ue_cfg env) (af_path f) (us_caps s))))
     \<and> (\<forall>(dm, fm, _) \<in> set (j_acl j). \<not> names_nobody dm \<and> \<not> names_nobody fm
          \<and> (map_option n_is_dir (get_node_meta (ue_stat env) (ue_cfg env) (af_path f)) = Some False \<longrightarrow> \<not> default_layer dm))"
proof -
  let ?file = "case get_node_meta (ue_stat env) (ue_cfg env) (af_path f) of Some m \<Rightarrow> \<not> n_is_dir m | None \<Rightarrow> False"
  from assms(1) obtain c s1 where b: "stage_batch json env ?file (af_path f) (af_acl_ops f) (s\<lparr>us_ldap := c\<rparr>) = (Ok (j_acl j), s1)"
    by (auto simp: prepare_apply_def Let_def split: prod.splits sum.splits if_splits)
  with assms(2) obtain sps c1 c2 where o: "json (trim (af_acl_ops f)) = Some sps"
    "sps = [] \<or> editable (fst (acl_apply_gate (ue_acl env) (ue_snap env) (ue_cfg env) (af_path f) (us_caps s)))"
    "stage_ops (ue_ldap env) ?file (af_path f) sps c1 = (Ok (j_acl j), c2)"
    by (auto simp: stage_batch_def Let_def split: prod.splits option.splits if_splits)
  have leaf: "?file" if "map_option n_is_dir (get_node_meta (ue_stat env) (ue_cfg env) (af_path f)) = Some False"
    using that by (auto split: option.splits)
  from stage_ops_sound [OF o(3)] o(1,2) leaf show ?thesis by (intro exI [of _ sps]) auto
qed

section \<open>The operations of a task\<close>

lemma count_walk_issued [simp]: "fs_state.issued (snd (count_walk env scope its n s)) = fs_state.issued s"
  by (induction env scope its n s rule: count_walk.induct) (auto simp: look_def split: sum.splits)

lemma acl_count_walk_issued [simp]: "fs_state.issued (snd (acl_count_walk env scope d its n s)) = fs_state.issued s"
  by (induction env scope d its n s rule: acl_count_walk.induct) (auto simp: look_def split: sum.splits)

lemma counts_issued [simp]:
  "fs_state.issued (snd (count_applicable_with_live env cfg p scope s)) = fs_state.issued s"
  "fs_state.issued (snd (count_acl_applicable_with_live env cfg p m scope s)) = fs_state.issued s"
  using count_walk_issued acl_count_walk_issued
  by (auto simp: count_applicable_with_live_def count_acl_applicable_with_live_def count_tree_def case_prod_beta split: sum.split)

lemma task_issued [simp]:
  "fs_state.issued (t_fs (reset_processed n t)) = fs_state.issued (t_fs t)" "fs_state.issued (t_fs (push_error p msg t)) = fs_state.issued (t_fs t)"
  "fs_state.issued (t_fs (snd (on_fs (look env) t))) = fs_state.issued (t_fs t)" "fs_state.issued (t_fs fresh_task) = []"
  by (simp_all add: reset_processed_def push_error_def on_fs_def look_def fresh_task_def)

text \<open>What every operation of a task has to satisfy, and that a part of a task keeps it.\<close>

definition confined :: "NfsKlldapConfig \<Rightarrow> fs_op \<Rightarrow> bool" where
  "confined cfg x \<longleftrightarrow> \<not> sets_setuid x \<and> (\<forall>q \<in> set (op_paths x). inside cfg q)"

definition adds_confined :: "NfsKlldapConfig \<Rightarrow> fs_op list \<Rightarrow> fs_op list \<Rightarrow> bool" where
  "adds_confined cfg old new \<longleftrightarrow> (\<exists>ops. new = old @ ops \<and> (\<forall>x \<in> set ops. confined cfg x))"

lemma adds_confined_refl [simp]: "adds_confined cfg xs xs"
  by (simp add: adds_confined_def)

lemma adds_confined_trans [trans]: "adds_confined cfg xs ys \<Longrightarrow> adds_confined cfg ys zs \<Longrightarrow> adds_confined cfg xs zs"
  by (auto simp: adds_confined_def)

lemma apply_confined:
  assumes "walkdir_ok env"
  shows "adds_confined cfg (fs_state.issued s) (fs_state.issued (snd (apply_permissions_with_progress env cfg p uid gid sp s)))"
proof -
  obtain res s' where a: "apply_permissions_with_progress env cfg p uid gid sp s = (res, s')" by (rule prod.exhaust)
  from apply_stays_in_shares [OF a assms] a show ?thesis by (auto simp: adds_confined_def confined_def)
qed

lemma acl_mod_confined: "adds_confined cfg (fs_state.issued s) (fs_state.issued (snd (apply_acl_mod env cfg p m s)))"
proof (cases "target_of cfg p")
  case (Inr real)
  then have "inside cfg real" using mapped_inside by (auto simp: target_of_def Let_def split: if_splits)
  with Inr show ?thesis
    by (auto simp: apply_acl_mod_def run_setfacl_many_def run_op_def adds_confined_def confined_def case_prod_beta split: option.split)
qed (simp add: apply_acl_mod_def)

lemma good_call_mono: "good_call dm fm D F x \<Longrightarrow> D \<subseteq> D' \<Longrightarrow> F \<subseteq> F' \<Longrightarrow> good_call dm fm D' F' x"
  unfolding good_call_def by (elim exE conjE, intro exI conjI, assumption+, blast)

lemma acl_apply_confined:
  assumes "walkdir_ok env"
  shows "adds_confined cfg (fs_state.issued s) (fs_state.issued (snd (apply_acl_with_progress env cfg p dm fm scope s)))"
proof (cases "target_of cfg p")
  case (Inr real)
  then obtain r s' where a: "apply_acl_with_progress env cfg p dm fm scope s = (Ok r, s')"
    by (auto simp: apply_acl_with_progress_def case_prod_beta)
  obtain target ops where t: "host_path_to_container_path cfg (normalize_for_matching p) = Ok target"
    and i: "fs_state.issued s' = fs_state.issued s @ ops"
    and good: "let es = acl_applicable scope (default_layer dm) (f_walk env target (max_depth scope)) in
       (\<forall>x \<in> set ops. good_call dm fm (w_path ` {e \<in> set es. w_type e = IsDir}) (w_path ` {e \<in> set es. w_type e = IsFile}) x)
       \<and> ((\<forall>i. \<not> f_cancelled env i) \<longrightarrow> mset (concat (map op_paths ops)) = mset (map w_path es))"
    by (rule apply_acl_effect [OF a])
  let ?es = "acl_applicable scope (default_layer dm) (f_walk env target (max_depth scope))"
  let ?P = "w_path ` set ?es"
  have in_walk: "inside cfg q" if "q \<in> ?P" for q
    using that walked_inside [OF assms mapped_inside [OF t]] by (auto simp: acl_applicable_def set_walk_entries)
  have "confined cfg x" if x: "x \<in> set ops" for x
  proof -
    from good have "\<forall>x \<in> set ops. good_call dm fm (w_path ` {e \<in> set ?es. w_type e = IsDir}) (w_path ` {e \<in> set ?es. w_type e = IsFile}) x"
      unfolding Let_def by (rule conjunct1)
    with x have "good_call dm fm (w_path ` {e \<in> set ?es. w_type e = IsDir}) (w_path ` {e \<in> set ?es. w_type e = IsFile}) x" by (rule bspec [rotated])
    then have "good_call dm fm ?P ?P x" by (rule good_call_mono) blast+
    then obtain ps m where "x = Setfacl ps (fst (modification_spec m)) (fst (snd (modification_spec m))) (snd (snd (modification_spec m)))"
      "set ps \<subseteq> ?P" by (rule good_callE) blast
    then show ?thesis using in_walk by (auto simp: confined_def)
  qed
  with a i show ?thesis by (auto simp: adds_confined_def)
qed (simp add: apply_acl_with_progress_def)

lemma on_fs_simps [simp]: "t_fs (snd (on_fs f t)) = snd (f (t_fs t))" "fst (on_fs f t) = fst (f (t_fs t))"
  by (simp_all add: on_fs_def case_prod_beta)

lemma acl_op_confined:
  assumes "walkdir_ok env"
  shows "adds_confined cfg (fs_state.issued (t_fs t)) (fs_state.issued (t_fs (snd (run_acl_op env cfg p scope dm fm t))))"
proof -
  have "adds_confined cfg (fs_state.issued (t_fs t))
      (fs_state.issued (snd (apply_acl_with_progress env cfg p dm fm scope (t_fs (reset_processed n (snd (on_fs (count_acl_applicable_with_live env cfg p dm scope) t)))))))" for n
    using acl_apply_confined [OF assms, of cfg "t_fs (reset_processed n (snd (on_fs (count_acl_applicable_with_live env cfg p dm scope) t)))" p dm fm scope]
    by simp
  then show ?thesis
    by (auto simp: run_acl_op_def case_prod_beta acl_mod_confined split: sum.split)
qed

lemma acl_batch_confined:
  assumes "walkdir_ok env"
  shows "adds_confined cfg (fs_state.issued (t_fs t)) (fs_state.issued (t_fs (snd (run_acl_batch env cfg p scope n i ops msg t))))"
proof (induction ops arbitrary: i msg t)
  case (Cons x ops)
  obtain dm fm cmd op where x: "x = (dm, fm, cmd, op)" by (metis prod.exhaust)
  obtain c t2 where l: "on_fs (look env) t = (c, t2)" by (rule prod.exhaust)
  then have i2: "fs_state.issued (t_fs t2) = fs_state.issued (t_fs t)" by (auto simp: on_fs_def look_def)
  let ?t = "t2\<lparr>t_phase := ''applying ACLs'' @ '' ('' @ show_nat (i + 1) @ ''/'' @ show_nat n @ '')''\<rparr>"
  obtain ok why t3 where r: "run_acl_op env cfg p scope dm fm ?t = ((ok, why), t3)" by (metis prod.exhaust)
  have step: "adds_confined cfg (fs_state.issued (t_fs t)) (fs_state.issued (t_fs t3))"
    using acl_op_confined [OF assms, of cfg ?t p scope dm fm] r i2 by simp
  show ?case
    using step r l i2 adds_confined_trans [OF step Cons.IH] by (cases c; cases ok) (simp_all add: x Let_def)
qed simp

lemma scan_phase_issued [simp]: "fs_state.issued (t_fs (scan_phase env cfg j t)) = fs_state.issued (t_fs t)"
  by (simp add: scan_phase_def case_prod_beta)

text \<open>The operations of an apply: those of the walk, then those of the batch, if it gets that far.\<close>

lemma run_apply_issued:
  assumes "on_fs (apply_permissions_with_progress env cfg (j_path j) (j_uid j) (j_gid j) (j_spec j)) (scan_phase env cfg j t) = (res, t3)"
  obtains (walk_only) "fs_state.issued (t_fs (snd (run_apply env cfg j t))) = fs_state.issued (t_fs t3)"
      "(\<exists>e. res = Err e) \<or> j_acl j = [] \<or> (\<exists>i. f_cancelled env i)"
    | (batch) msg t4 where "snd (run_apply env cfg j t) = snd (run_acl_batch env cfg (j_path j) (spec_scope (j_spec j)) (length (j_acl j)) 0 (j_acl j) msg t4)"
      "fs_state.issued (t_fs t4) = fs_state.issued (t_fs t3)"
proof (cases res)
  case (Inl e)
  then show ?thesis using assms by (intro walk_only) (simp_all add: run_apply_def)
next
  case (Inr r)
  obtain c4 t4 c5 t5 where l: "on_fs (look env) t3 = (c4, t4)" "on_fs (look env) t4 = (c5, t5)" by (metis prod.exhaust)
  then have i: "fs_state.issued (t_fs t4) = fs_state.issued (t_fs t3)" "fs_state.issued (t_fs t5) = fs_state.issued (t_fs t3)"
    and c: "c5 = f_cancelled env (fs_state.looks (t_fs t4))"
    by (auto simp: on_fs_def look_def)
  show ?thesis
  proof (cases "j_acl j = [] \<or> c5")
    case True
    then show ?thesis using assms Inr l i c by (intro walk_only) (auto simp: run_apply_def Let_def)
  next
    case False
    then show ?thesis using assms Inr l i by (intro batch [of _ t5]) (simp_all add: run_apply_def Let_def)
  qed
qed

lemma run_apply_confined:
  assumes "walkdir_ok env"
  shows "adds_confined cfg (fs_state.issued (t_fs t)) (fs_state.issued (t_fs (snd (run_apply env cfg j t))))"
proof -
  obtain res t3 where a: "on_fs (apply_permissions_with_progress env cfg (j_path j) (j_uid j) (j_gid j) (j_spec j)) (scan_phase env cfg j t) = (res, t3)"
    by (rule prod.exhaust)
  have 1: "adds_confined cfg (fs_state.issued (t_fs t)) (fs_state.issued (t_fs t3))"
    using apply_confined [OF assms, of cfg "t_fs (scan_phase env cfg j t)" "j_path j" "j_uid j" "j_gid j" "j_spec j"]
      arg_cong [OF a, of "\<lambda>x. t_fs (snd x)"] by simp
  show ?thesis
    using a
  proof (cases rule: run_apply_issued)
    case (batch msg t4)
    show ?thesis using adds_confined_trans [OF 1] acl_batch_confined [OF assms, of cfg t4] batch by metis
  qed (simp add: 1)
qed

lemma run_acl_apply_confined:
  assumes "walkdir_ok env"
  shows "adds_confined cfg (fs_state.issued (t_fs t)) (fs_state.issued (t_fs (snd (run_acl_apply env cfg j t))))"
proof -
  have a: "adds_confined cfg (fs_state.issued (t_fs t)) (fs_state.issued (snd (apply_acl_with_progress env cfg p dm fm scope s)))"
    if "fs_state.issued s = fs_state.issued (t_fs t)" for p dm fm scope s
    using acl_apply_confined [OF assms, of cfg s] that by metis
  have b: "adds_confined cfg (fs_state.issued (t_fs t)) (fs_state.issued (snd (apply_acl_mod env cfg p m s)))"
    if "fs_state.issued s = fs_state.issued (t_fs t)" for p m s
    using acl_mod_confined [of cfg s] that by metis
  show ?thesis by (auto simp: run_acl_apply_def Let_def case_prod_beta look_def intro!: a b split: sum.split)
qed


section \<open>The order of the staged edits\<close>

fun is_acl_call :: "fs_op \<Rightarrow> bool" where
  "is_acl_call (Setfacl _ _ _ _) = True"
| "is_acl_call _ = False"

definition setfacl_call :: "path \<Rightarrow> AclModification \<Rightarrow> fs_op" where
  "setfacl_call real m = Setfacl [real] (fst (modification_spec m)) (fst (snd (modification_spec m))) (snd (snd (modification_spec m)))"

lemma run_acl_op_single:
  assumes "target_of cfg p = Ok real" and "run_acl_op env cfg p DirOnly dm fm t = ((ok, why), t')"
  shows "fs_state.issued (t_fs t') = fs_state.issued (t_fs t) @ [setfacl_call real dm]"
    "ok \<longleftrightarrow> f_op env (length (fs_state.issued (t_fs t))) (setfacl_call real dm) = None"
  using assms
  by (auto simp: run_acl_op_def apply_acl_mod_def run_setfacl_many_def run_op_def on_fs_def setfacl_call_def case_prod_beta split: option.splits)

text \<open>How far a batch gets: \<open>k\<close> edits were tried, all but the last of them with success.\<close>

definition batch_reached :: "fs_env \<Rightarrow> path \<Rightarrow> staged_op list \<Rightarrow> nat \<Rightarrow> nat \<Rightarrow> bool" where
  "batch_reached env real ops base k \<longleftrightarrow>
     k \<le> length ops
     \<and> (\<forall>m. Suc m < k \<longrightarrow> f_op env (base + m) (setfacl_call real (fst (ops ! m))) = None)
     \<and> (k < length ops \<longrightarrow> (\<exists>i. f_cancelled env i) \<or> 0 < k \<and> f_op env (base + (k - 1)) (setfacl_call real (fst (ops ! (k - 1)))) \<noteq> None)"

lemma batch_reached_Suc:
  assumes "batch_reached env real ops (Suc base) k" and "f_op env base (setfacl_call real (fst x)) = None"
  shows "batch_reached env real (x # ops) base (Suc k)"
  unfolding batch_reached_def
proof (intro conjI allI impI)
  show "Suc k \<le> length (x # ops)" using assms(1) by (simp add: batch_reached_def)
next
  fix m
  assume "Suc m < Suc k"
  then show "f_op env (base + m) (setfacl_call real (fst ((x # ops) ! m))) = None"
    using assms by (cases m) (auto simp: batch_reached_def)
next
  assume "Suc k < length (x # ops)"
  then show "(\<exists>i. f_cancelled env i) \<or> 0 < Suc k \<and> f_op env (base + (Suc k - 1)) (setfacl_call real (fst ((x # ops) ! (Suc k - 1)))) \<noteq> None"
    using assms(1) by (cases k) (auto simp: batch_reached_def)
qed

lemma acl_batch_order:
  assumes "target_of cfg p = Ok real"
  shows "\<exists>k. batch_reached env real ops (length (fs_state.issued (t_fs t))) k
     \<and> fs_state.issued (t_fs (snd (run_acl_batch env cfg p DirOnly n i ops msg t)))
         = fs_state.issued (t_fs t) @ map (setfacl_call real \<circ> fst) (take k ops)"
proof (induction ops arbitrary: i msg t)
  case Nil
  then show ?case by (simp add: batch_reached_def)
next
  case (Cons x ops)
  obtain dm fm cmd op where x: "x = (dm, fm, cmd, op)" by (metis prod.exhaust)
  obtain c t2 where l: "on_fs (look env) t = (c, t2)" by (rule prod.exhaust)
  then have i2: "fs_state.issued (t_fs t2) = fs_state.issued (t_fs t)" and c: "c = f_cancelled env (fs_state.looks (t_fs t))"
    by (auto simp: on_fs_def look_def)
  let ?t = "t2\<lparr>t_phase := ''applying ACLs'' @ '' ('' @ show_nat (i + 1) @ ''/'' @ show_nat n @ '')''\<rparr>"
  obtain ok why t3 where r: "run_acl_op env cfg p DirOnly dm fm ?t = ((ok, why), t3)" by (metis prod.exhaust)
  note one = run_acl_op_single [OF assms r]
  show ?case
  proof (cases c)
    case True
    then show ?thesis using l i2 c by (intro exI [of _ 0]) (auto simp: x Let_def batch_reached_def)
  next
    case go: False
    show ?thesis
    proof (cases ok)
      case True
      then have f: "f_op env (length (fs_state.issued (t_fs t))) (setfacl_call real (fst x)) = None" using one(2) i2 x by simp
      let ?msg = "msg @ nl @ ''ACL '' @ op @ ('' ('' @ show_nat (i + 1) @ ''/'' @ show_nat n @ '')'') @ '' OK: '' @ why @ fusion_note dm fm"
      from Cons.IH [of t3 "i + 1" ?msg] obtain k where k: "batch_reached env real ops (length (fs_state.issued (t_fs t3))) k"
        "fs_state.issued (t_fs (snd (run_acl_batch env cfg p DirOnly n (i + 1) ops ?msg t3)))
          = fs_state.issued (t_fs t3) @ map (setfacl_call real \<circ> fst) (take k ops)" by blast
      have "batch_reached env real ops (Suc (length (fs_state.issued (t_fs t)))) k" using k(1) one(1) i2 by simp
      from batch_reached_Suc [OF this f] k(2) one(1) i2 go l r True show ?thesis
        by (intro exI [of _ "Suc k"]) (simp add: x Let_def)
    next
      case False
      then show ?thesis using one i2 go l r by (intro exI [of _ 1]) (auto simp: x Let_def batch_reached_def)
    qed
  qed
qed

lemma walk_issues_no_acl:
  assumes "apply_permissions_with_progress env cfg p uid gid sp s = (res, s')"
  shows "\<exists>ops. fs_state.issued s' = fs_state.issued s @ ops \<and> (\<forall>x \<in> set ops. \<not> is_acl_call x)"
  using assms
proof (cases rule: apply_permissions_cases)
  case (walked target)
  from apply_walk_effect [OF walked(4)] show ?thesis by fastforce
qed auto

text \<open>
  C12: An apply to one node carries out its staged edits after the change of owner and mode, in the order in which
  they were staged, each with one call, and stops at the first that fails: all but the last call were
  successful, and edits are left out only after a failure, a cancellation or a refused change of mode.
\<close>

theorem staged_edits_in_order:
  assumes "spec_scope (j_spec j) = DirOnly" and "target_of cfg (j_path j) = Ok real"
    and "track env cfg (PosixJob j) = k"
  shows "\<exists>posix n. tk_todo k = posix @ map (setfacl_call real \<circ> fst) (take n (j_acl j)) \<and> (\<forall>x \<in> set posix. \<not> is_acl_call x)
     \<and> (\<forall>m. Suc m < n \<longrightarrow> f_op env (length posix + m) (setfacl_call real (fst (j_acl j ! m))) = None)
     \<and> (n < length (j_acl j) \<longrightarrow>
          (\<exists>i. f_cancelled env i) \<or> 0 < n \<and> f_op env (length posix + (n - 1)) (setfacl_call real (fst (j_acl j ! (n - 1)))) \<noteq> None
          \<or> spec_mode (j_spec j) AND 0x800 \<noteq> 0 \<or> spec_file_mode (j_spec j) \<noteq> None)"
proof -
  obtain res t3 where a: "on_fs (apply_permissions_with_progress env cfg (j_path j) (j_uid j) (j_gid j) (j_spec j)) (scan_phase env cfg j fresh_task) = (res, t3)"
    by (rule prod.exhaust)
  then have p: "apply_permissions_with_progress env cfg (j_path j) (j_uid j) (j_gid j) (j_spec j) (t_fs (scan_phase env cfg j fresh_task)) = (res, t_fs t3)"
    by (auto simp: on_fs_def split: prod.splits)
  from walk_issues_no_acl [OF p] have posix: "\<forall>x \<in> set (fs_state.issued (t_fs t3)). \<not> is_acl_call x" by auto
  have todo: "tk_todo k = fs_state.issued (t_fs (snd (run_apply env cfg j fresh_task)))" using assms(3) by (auto simp: track_def)
  show ?thesis
    using a
  proof (cases rule: run_apply_issued)
    case walk_only
    have "res \<noteq> Err e" if "spec_mode (j_spec j) AND 0x800 = 0" "spec_file_mode (j_spec j) = None" for e
    proof -
      from p show ?thesis
      proof (cases rule: apply_permissions_cases)
        case (refused e)
        with p that assms(2) show ?thesis
          by (auto simp: apply_permissions_with_progress_def apply_tree_with_progress_def target_of_def Let_def
                split: if_splits dest: apply_walk_effect)
      next
        case (walked target)
        from apply_walk_effect [OF walked(4)] show ?thesis by auto
      qed
    qed
    then show ?thesis
      using walk_only posix todo by (intro exI [of _ "fs_state.issued (t_fs t3)"] exI [of _ 0]) auto
  next
    case (batch msg t4)
    from acl_batch_order [OF assms(2), of env "j_acl j" t4 "length (j_acl j)" 0 msg] obtain n where n:
      "batch_reached env real (j_acl j) (length (fs_state.issued (t_fs t3))) n"
      "tk_todo k = fs_state.issued (t_fs t3) @ map (setfacl_call real \<circ> fst) (take n (j_acl j))"
      using batch assms(1) todo by auto
    then show ?thesis
      using posix by (intro exI [of _ "fs_state.issued (t_fs t3)"] exI [of _ n]) (auto simp: batch_reached_def)
  qed
qed

section \<open>One apply at a time\<close>

definition slot_ok :: "app \<Rightarrow> bool" where
  "slot_ok a \<longleftrightarrow>
     (case apply_slot a of None \<Rightarrow> ap_tasks a = [] | Some i \<Rightarrow> Suc i = length (ap_tasks a))
     \<and> (\<forall>k. Suc k < length (ap_tasks a) \<longrightarrow> tk_finished (ap_tasks a ! k))
     \<and> sorted (map fst (ap_log a)) \<and> (\<forall>x \<in> set (ap_log a). fst x < length (ap_tasks a))"

lemma slot_ok_cong [simp]: "slot_ok (a\<lparr>ap_auth := m\<rparr>) = slot_ok a" "slot_ok (a\<lparr>ap_ui := s\<rparr>) = slot_ok a"
  by (simp_all add: slot_ok_def split: option.split)

lemma slot_ok_claim: "slot_ok a \<Longrightarrow> slot_ok (snd (try_claim_apply_slot k a))"
proof (cases "apply_in_progress a")
  case False
  assume ok: "slot_ok a"
  then have "tk_finished (ap_tasks a ! i)" if "i < length (ap_tasks a)" for i
  proof (cases "Suc i < length (ap_tasks a)")
    case last: False
    with that have "apply_slot a = Some i" using ok by (auto simp: slot_ok_def split: option.splits)
    with False show ?thesis by (simp add: apply_in_progress_def)
  qed (use ok in \<open>simp add: slot_ok_def\<close>)
  with ok False show ?thesis by (auto simp: slot_ok_def try_claim_apply_slot_def nth_append less_Suc_eq)
qed (simp add: try_claim_apply_slot_def)

lemma slot_ok_update:
  assumes "slot_ok a" and "\<And>k. tk_finished k \<Longrightarrow> tk_finished (f k)"
  shows "slot_ok (a\<lparr>ap_tasks := (ap_tasks a)[i := f (ap_tasks a ! i)]\<rparr>)"
proof (cases "i < length (ap_tasks a)")
  case True
  then show ?thesis using assms by (auto simp: slot_ok_def nth_list_update split: option.splits)
next
  case False
  then show ?thesis using assms(1) by (simp add: list_update_beyond)
qed

lemma slot_ok_guarded:
  assumes "\<And>b. slot_ok b \<Longrightarrow> slot_ok (snd (g b))" and "slot_ok a"
  shows "slot_ok (snd (guarded w h g a))"
  using assms by (auto simp: guarded_def split: prod.split sum.split)

lemma slot_ok_handlers:
  assumes "slot_ok a"
  shows "slot_ok (snd (apply_permissions w json env fs h f a))" "slot_ok (snd (acl_apply w env fs h g a))"
    "slot_ok (snd (apply_progress w h a))" "slot_ok (snd (cancel_apply w h a))"
proof -
  have claim: "slot_ok b'" if "try_claim_apply_slot k (b\<lparr>ap_ui := s\<rparr>) = (c, b')" "slot_ok b" for k b s c b'
    using slot_ok_claim [of "b\<lparr>ap_ui := s\<rparr>" k] that by simp
  show "slot_ok (snd (apply_permissions w json env fs h f a))" "slot_ok (snd (acl_apply w env fs h g a))"
    unfolding apply_permissions_def acl_apply_def using assms
    by (auto intro!: slot_ok_guarded split: prod.split sum.split bool.split dest: claim)
  show "slot_ok (snd (apply_progress w h a))" "slot_ok (snd (cancel_apply w h a))"
    unfolding apply_progress_def cancel_apply_def using assms
    by (auto intro!: slot_ok_guarded slot_ok_update [where f = "tk_cancelled_update (\<lambda>_. True)"] split: option.split)
qed

lemma slot_ok_work:
  assumes "slot_ok a" and "i < length (ap_tasks a)" "\<not> tk_finished (ap_tasks a ! i)" and same: "\<And>k. tk_finished (f k) = tk_finished k"
  shows "slot_ok (a\<lparr>ap_tasks := (ap_tasks a)[i := f (ap_tasks a ! i)], ap_log := ap_log a @ [(i, x)]\<rparr>)"
proof -
  have "Suc i = length (ap_tasks a)"
    using assms(1-3) unfolding slot_ok_def by (metis Suc_lessI)
  then show ?thesis using assms by (auto simp: slot_ok_def sorted_append nth_list_update split: option.splits)
qed

lemma slot_ok_step: "app_step w a a' \<Longrightarrow> slot_ok a \<Longrightarrow> slot_ok a'"
proof (induction rule: app_step.induct)
  case (work i a x xs t)
  then show ?case using slot_ok_work [of a i "\<lambda>k. k\<lparr>tk_todo := xs, tk_live := t\<rparr>" x] by simp
next
  case (finish i a)
  then show ?case using slot_ok_update [of a "\<lambda>k. k\<lparr>tk_finished := True\<rparr>" i] by simp
qed (simp_all add: slot_ok_handlers slot_ok_claim)

lemma slot_ok_run: "app_run w a \<Longrightarrow> slot_ok a"
proof (induction rule: app_run.induct)
  case (start a)
  then show ?case by (simp add: slot_ok_def)
qed (rule slot_ok_step)

text \<open>
  C10: However requests and tasks interleave, even when two requests both pass the first check, at most one apply
  is unfinished, and the operations on the file system come in blocks, one per apply, in the order in
  which the applies claimed the slot.
\<close>

theorem applies_never_interleave:
  assumes "app_run w a"
  shows "sorted (map fst (ap_log a))
     \<and> (\<forall>i j. i < length (ap_tasks a) \<and> j < length (ap_tasks a) \<and> \<not> tk_finished (ap_tasks a ! i) \<and> \<not> tk_finished (ap_tasks a ! j) \<longrightarrow> i = j)"
proof -
  have "slot_ok a" using assms by (rule slot_ok_run)
  then have "Suc i = length (ap_tasks a)" if "i < length (ap_tasks a)" "\<not> tk_finished (ap_tasks a ! i)" for i
    using that unfolding slot_ok_def by (metis Suc_lessI)
  then show ?thesis using \<open>slot_ok a\<close> by (metis nat.inject slot_ok_def)
qed

section \<open>The log page\<close>

lemma apply_entry_fused:
  assumes "apply_entry env uid gid mode opts e r s = (Ok r', s')" and "length (fused_dirs r) \<le> fused_dir_count r"
  shows "length (fused_dirs r') \<le> fused_dir_count r'"
  using assms
  by (auto simp: apply_entry_def op_error_def add_error_def Let_def case_prod_beta split: if_splits option.splits prod.splits)

lemma apply_walk_fused:
  assumes "apply_walk env uid gid mode opts its r s = (Ok r', s')" and "length (fused_dirs r) \<le> fused_dir_count r"
  shows "length (fused_dirs r') \<le> fused_dir_count r'"
  using assms
proof (induction its arbitrary: r s)
  case (Cons it its)
  then show ?case
    by (auto simp: add_error_def look_def Let_def split: if_splits sum.splits prod.splits dest: apply_entry_fused)
qed simp

lemma batch_keeps_text: "prefix msg (fst (run_acl_batch env cfg p scope n i ops msg t))"
proof (induction ops arbitrary: i msg t)
  case (Cons x ops)
  obtain dm fm cmd op where x: "x = (dm, fm, cmd, op)" by (metis prod.exhaust)
  obtain c t2 where l: "on_fs (look env) t = (c, t2)" by (rule prod.exhaust)
  obtain ok why t3 where r: "run_acl_op env cfg p scope dm fm (t2\<lparr>t_phase := ''applying ACLs'' @ '' ('' @ show_nat (i + 1) @ ''/'' @ show_nat n @ '')''\<rparr>) = ((ok, why), t3)"
    by (metis prod.exhaust)
  have "prefix msg (fst (run_acl_batch env cfg p scope n (i + 1) ops (msg @ rest) t3))" for rest
    using Cons.IH [of "msg @ rest"] by (rule append_prefixD)
  with l r show ?case by (cases c; cases ok) (simp_all add: x Let_def)
qed simp

lemma run_apply_text:
  assumes "apply_permissions_with_progress env cfg (j_path j) (j_uid j) (j_gid j) (j_spec j) (t_fs (scan_phase env cfg j t)) = (Ok r, s)"
  shows "\<exists>c at. prefix (apply_text (j_path j) (dir_mode_r_implies_x (spec_mode (j_spec j))) c at r) (fst (run_apply env cfg j t))"
proof -
  obtain t3 where a: "on_fs (apply_permissions_with_progress env cfg (j_path j) (j_uid j) (j_gid j) (j_spec j)) (scan_phase env cfg j t) = (Ok r, t3)"
    using assms by (simp add: on_fs_def)
  obtain c4 t4 c5 t5 where l: "on_fs (look env) t3 = (c4, t4)" "on_fs (look env) t4 = (c5, t5)" by (metis prod.exhaust)
  show ?thesis
    by (intro exI [of _ c4] exI [of _ "last_path (prog (t_fs t4))"]) (cases c5, simp_all add: run_apply_def a l Let_def batch_keeps_text)
qed

lemma sublist_into: "sublist x y \<Longrightarrow> sublist x (l @ y)" "sublist x y \<Longrightarrow> sublist x (y @ l)"
  by (meson sublist_append_leftI sublist_append_rightI sublist_order.order_trans)+

lemma status_page_shows: "sublist x res \<Longrightarrow> sublist x (render_apply_status_oob cmd res active)"
  unfolding render_apply_status_oob_def apply_log_shell_def
  by (rule sublist_into(1), rule sublist_into(2)) (intro sublist_into(1))

lemma fused_in_text: "q \<in> set (fused_dirs r) \<Longrightarrow> fused_dir_count r \<noteq> 0 \<Longrightarrow> sublist (path_text q) (apply_text p dm c at r)"
proof -
  assume q: "q \<in> set (fused_dirs r)" and n: "fused_dir_count r \<noteq> 0"
  from q obtain ps qs where f: "fused_dirs r = ps @ q # qs" by (auto simp: in_set_conv_decomp)
  have "sublist (path_text q) (fused_line dm q)"
    unfolding fused_line_def by (intro sublist_into(1) sublist_into(2) [OF sublist_order.order_refl])
  then have "sublist (path_text q) (fused_lines dm r)"
    using n unfolding fused_lines_def f by (simp only: if_False map_append list.map concat_append concat.simps append_assoc) (intro sublist_into; assumption)
  then show ?thesis unfolding apply_text_def by (intro sublist_into(1))
qed


section \<open>Witnesses\<close>

lemma sample_cfg_eq: "sample_share_cfg = sample_cfg"
  by (simp add: sample_share_cfg_def sample_cfg_def sample_share_def)

definition sample_panel :: ui_env where
  "sample_panel =
     \<lparr>ue_ldap = sample_ui, ue_acl = sample_acl (Some True),
      ue_stat = (\<lambda>_. Some \<lparr>n_uid = 1000, n_gid = 0, n_mode = 0x41ED, n_is_dir = True\<rparr>),
      ue_read_dir = (\<lambda>_. None), ue_getfacl = (\<lambda>_. None), ue_getfacl_batch = (\<lambda>_. None), ue_date = (\<lambda>_. []),
      ue_snap = Some sample_mounts, ue_cfg = sample_cfg, keytab_hostname = ''nas''\<rparr>"

definition sample_state :: ui_state where
  "sample_state = \<lparr>us_ldap = sample_client, us_caps = empty_caps\<rparr>"

lemma sample_real: "target_of sample_cfg ''/srv/data/'' = Ok [RootDir, Normal ''export'', Normal ''data'']"
  using sample_target allowed_mapped [of sample_cfg "normalize_for_matching ''/srv/data/''"] by (auto simp: target_of_def Let_def)

lemma sample_meta:
  "get_node_meta (ue_stat sample_panel) (ue_cfg sample_panel) ''/srv/data/'' = Some \<lparr>n_uid = 1000, n_gid = 0, n_mode = 0x1ED, n_is_dir = True\<rparr>"
  by (simp add: get_node_meta_def sample_panel_def sample_real)


text \<open>One staged edit, an entry for the user 1001, on a node whose gate is open.\<close>

definition sample_edit :: AclOpSpec where
  "sample_edit = \<lparr>so_op = ''set'', so_typ = ''user'', so_id = ''1001'', so_name = [], so_perms = ''rw'', so_layer = []\<rparr>"

definition sample_form :: ApplyForm where
  "sample_form =
     \<lparr>af_path = ''/srv/data/x'', af_owner_user = [], af_owner_group = [], af_mode = ''755'', af_scope = ''none'', af_file_mode = [],
      af_owner_uid = ''7'', af_owner_gid = ''8'', af_acl_ops = ''[1]''\<rparr>"

lemma sample_gate:
  "editable (fst (acl_apply_gate (sample_acl (Some True)) (Some sample_mounts) sample_cfg ''/srv/data/x'' empty_caps))"
  unfolding sample_cfg_eq [symmetric]
  by (simp add: acl_apply_gate_def sample_paths sample_outcomes acl_capability_decision_def share_level_decision_def)

lemma sample_texts:
  "trim ''[1]'' = ''[1]''" "to_lowercase (trim ''set'') = ''set''" "eq_ignore_ascii_case (trim []) ''default'' = False"
  by code_simp+

lemma sample_numbers:
  "parse_u32 (trim ''7'') = Some 7" "parse_u32 (trim ''8'') = Some 8" "parse_u32 (trim ''1001'') = Some 1001"
proof -
  have "trim ''7'' = ''7''" "trim ''8'' = ''8''" "trim ''1001'' = ''1001''" by code_simp+
  then show "parse_u32 (trim ''7'') = Some 7" "parse_u32 (trim ''8'') = Some 8" "parse_u32 (trim ''1001'') = Some 1001"
    by (simp_all add: parse_u32_def parse_unsigned_def is_ascii_digit_def digit_value_def)
qed

lemma sample_staged:
  "\<exists>x. stage_op e False p sample_edit c = (Ok x, c)"
  by (simp add: stage_op_def sample_edit_def sample_texts sample_numbers build_acl_modification_def Let_def)

lemma sample_prepared: "\<exists>j s'. prepare_apply (\<lambda>_. Some [sample_edit]) sample_panel sample_form sample_state = (Ok j, s')"
proof -
  obtain g caps where g: "acl_apply_gate (sample_acl (Some True)) (Some sample_mounts) sample_cfg ''/srv/data/x'' empty_caps = (g, caps)"
    by (rule prod.exhaust)
  then have "editable g" using sample_gate by simp
  obtain x where x: "stage_op sample_ui False ''/srv/data/x'' sample_edit sample_client = (Ok x, sample_client)" using sample_staged by blast
  have "(case get_node_meta (ue_stat sample_panel) sample_cfg ''/srv/data/x'' of Some m \<Rightarrow> \<not> n_is_dir m | None \<Rightarrow> False) = False"
    by (auto simp: get_node_meta_def sample_panel_def split: sum.split)
  then show ?thesis
    using g \<open>editable g\<close> x
    by (simp add: prepare_apply_def resolve_owners_def lookup_id_def typed_id_def sample_form_def sample_texts sample_numbers stage_batch_def scope_of_def
        sample_state_def sample_panel_def Let_def)
qed

theorem staged_batch_checked_witness:
  "\<exists>j s'. prepare_apply (\<lambda>_. Some [sample_edit]) sample_panel sample_form sample_state = (Ok j, s') \<and> length (j_acl j) = 1"
proof -
  obtain j s' where j: "prepare_apply (\<lambda>_. Some [sample_edit]) sample_panel sample_form sample_state = (Ok j, s')" using sample_prepared by blast
  have "trim (af_acl_ops sample_form) \<noteq> []" by (simp add: sample_form_def sample_texts)
  from staged_batch_checked [OF j this] j show ?thesis by auto
qed

definition sample_job :: apply_job where
  "sample_job =
     \<lparr>j_path = ''/srv/data/'', j_uid = 7, j_gid = 8, j_spec = \<lparr>spec_mode = 0x1ED, spec_scope = DirOnly, spec_file_mode = None\<rparr>,
      j_acl = [(SetMask (from_str ''r-x'') False, SetMask (from_str ''r-x'') False, [], ''mask'')], j_cmd = []\<rparr>"

theorem staged_edits_in_order_witness:
  "\<exists>posix. tk_todo (track sample_fs sample_cfg (PosixJob sample_job))
     = posix @ [setfacl_call [RootDir, Normal ''export'', Normal ''data''] (SetMask (from_str ''r-x'') False)]"
proof -
  have d: "spec_scope (j_spec sample_job) = DirOnly" and t: "target_of sample_cfg (j_path sample_job) = Ok [RootDir, Normal ''export'', Normal ''data'']"
    by (simp_all add: sample_job_def sample_real)
  from staged_edits_in_order [OF d t refl, of sample_fs] obtain posix n where
    n: "tk_todo (track sample_fs sample_cfg (PosixJob sample_job)) =
          posix @ map (setfacl_call [RootDir, Normal ''export'', Normal ''data''] \<circ> fst) (take n (j_acl sample_job))"
    and "\<not> n < length (j_acl sample_job)"
    by (auto simp: sample_fs_def sample_job_def)
  then show ?thesis by (auto simp: sample_job_def)
qed

definition sample_acl_job :: acl_job where
  "sample_acl_job =
     \<lparr>aj_path = ''/srv/data/'', aj_op = ''mask'', aj_dir_mod = SetMask (from_str ''r-x'') False, aj_file_mod = SetMask (from_str ''r-x'') False,
      aj_scope = DirOnly, aj_cmd = []\<rparr>"


definition sample_app :: app where
  "sample_app = \<lparr>ap_auth = installed None, ap_ui = sample_state, apply_slot = None, ap_tasks = [], ap_log = []\<rparr>"

theorem applies_never_interleave_witness:
  "\<exists>a. app_run sample_web a \<and> length (ap_tasks a) = 1 \<and> sorted (map fst (ap_log a))"
proof -
  let ?a = "snd (try_claim_apply_slot (track sample_fs sample_cfg (PosixJob sample_job)) sample_app)"
  have "app_run sample_web sample_app" by (rule app_run.start) (simp_all add: sample_app_def)
  then have run: "app_run sample_web ?a" by (rule app_run.again) (rule app_step.claim)
  have "length (ap_tasks ?a) = 1" by (simp add: try_claim_apply_slot_def apply_in_progress_def sample_app_def)
  with applies_never_interleave [OF run] run show ?thesis by blast
qed

text \<open>A share in which a user has made a directory whose name is a piece of markup.\<close>

definition markup :: string where
  "markup = ''<img src=x onerror=alert(1)>''"

definition marked_fs :: fs_env where
  "marked_fs =
     \<lparr>f_walk = (\<lambda>root _. [Inr \<lparr>w_path = root, w_depth = 0, w_type = IsDir\<rparr>, Inr \<lparr>w_path = root @ [Normal markup], w_depth = 1, w_type = IsDir\<rparr>]),
      f_op = (\<lambda>_ _. None), f_cancelled = (\<lambda>_. False)\<rparr>"

definition marked_job :: apply_job where
  "marked_job =
     \<lparr>j_path = ''/srv/data/'', j_uid = 7, j_gid = 8, j_spec = \<lparr>spec_mode = 0x124, spec_scope = AllEntries, spec_file_mode = Some 0x124\<rparr>,
      j_acl = [], j_cmd = []\<rparr>"

lemma marked_apply:
  "\<exists>r s'. apply_permissions_with_progress marked_fs sample_cfg (j_path marked_job) (j_uid marked_job) (j_gid marked_job) (j_spec marked_job) s = (Ok r, s')
     \<and> [RootDir, Normal ''export'', Normal ''data'', Normal markup] \<in> set (fused_dirs r)"
proof -
  have "is_allowed sample_cfg (normalize_for_matching ''/srv/data/'')" using sample_target allowed_mapped by blast
  moreover have "dir_mode_r_implies_x 0x124 = 0x16D" by (simp add: dir_mode_r_implies_x_def)
  ultimately show ?thesis
    by (simp add: apply_permissions_with_progress_def apply_tree_with_progress_def marked_job_def marked_fs_def sample_target Let_def look_def
        apply_entry_def should_apply_entry_def run_op_def empty_result_def)
qed


text \<open>
  Special bits are refused in the mode for files of a recursive apply, but not in the mode of a file that
  is itself the target: such an apply is accepted and sets the bit for the group.
\<close>

lemma file_target_takes_setgid:
  assumes "get_node_meta (ue_stat env) (ue_cfg env) (af_path f) = Some m" "\<not> n_is_dir m"
    and "af_mode f = ''2755''" "af_acl_ops f = []" "resolve_owners env f (us_ldap s) = (Ok (uid, gid), c)"
  shows "\<exists>j s'. prepare_apply json env f s = (Ok j, s') \<and> bit (spec_mode (j_spec j)) 10 \<and> spec_file_mode (j_spec j) = None"
proof -
  have "from_str_radix_8 ''2755'' = Some 0x5ED" by (simp add: from_str_radix_8_def is_octal_digit_def)
  moreover have "bit (0x5ED :: 32 word) 10" by simp
  ultimately show ?thesis using assms by (simp add: prepare_apply_def Let_def stage_batch_def)
qed

text \<open>A mode that is not an octal number is not refused: it is applied as 770.\<close>

lemma malformed_mode_applies_770:
  assumes "from_str_radix_8 (af_mode f) = None" "af_acl_ops f = []" "af_scope f = ''none''"
    and "resolve_owners env f (us_ldap s) = (Ok (uid, gid), c)"
  shows "\<exists>j s'. prepare_apply json env f s = (Ok j, s') \<and> spec_mode (j_spec j) = 0x1F8"
  using assms by (simp add: prepare_apply_def Let_def stage_batch_def scope_of_def)

text \<open>The entry of the number 0, which a list may hold, cannot be staged for removal.\<close>

lemma zero_entry_not_removable:
  assumes "to_lowercase (trim (so_op sp)) = ''delete''" "parse_u32 (trim (so_id sp)) = Some 0" "so_name sp = ''0''" "so_layer sp = []"
  shows "\<exists>why. fst (stage_op e False p sp c) = Err (PrincipalUnknown why)"
proof -
  have "normalize_editor_search_query (Some ''0'') = Some ''0''" "eq_ignore_ascii_case (trim []) ''default'' = False" "trim ''0'' = ''0''" by code_simp+
  moreover have "parse_u32 ''0'' = Some 0" by (simp add: parse_u32_def parse_unsigned_def is_ascii_digit_def digit_value_def)
  ultimately show ?thesis using assms by (simp add: stage_op_def principal_id_def Let_def)
qed

end
