(* ===== verification/Spec2Isabelle.thy ===== *)
theory Spec2Isabelle
  imports Supervisor_Laws Observer_Laws Settings_Save Readiness Apply_Laws
begin

text \<open>
  A verification development for nfs-klldap-host: a container that runs an NFS-Ganesha server whose
  users and groups come from an LDAP directory and whose clients authenticate with Kerberos.

  \<^bold>\<open>The program.\<close> One configuration file, \<^verbatim>\<open>nfs-klldap.conf\<close>, is the only input an operator edits.
  \<^verbatim>\<open>nfs-klldap-config\<close> validates it, completes it from the environment and generates from it every
  configuration file of the stack. The same binary is process 1 of the container: the supervisor
  starts the services, regenerates on a signal, decides from fingerprints of the generated files
  which services have to be reloaded or restarted, and respawns services that die.
  \<^verbatim>\<open>nfs-klldap-identity\<close> holds what the binaries share about Kerberos names, LDAP and NSS rows.
  \<^verbatim>\<open>nfs-klldap-ui\<close> is the web interface an administrator uses to edit the file and the permissions.

  \<^bold>\<open>Conventions.\<close> A Rust \<^verbatim>\<open>String\<close> is the list of its UTF-8 bytes, as a HOL \<open>string\<close>; the functions of
  the standard library the code calls (trimming, splitting, number parsing and printing, case
  mapping on ASCII) are defined in \<open>Rust_Str\<close> and \<open>Prelude\<close>. A \<^verbatim>\<open>Result\<close> is a sum with \<open>Err\<close> on the
  left, an early return with \<^verbatim>\<open>?\<close> is \<open>and_then\<close>. Hashes are 64-bit words and wrap. Environment
  variables are a map. Commands the code runs, files it only reads and the clock are parameters.

  \<^bold>\<open>Theories.\<close>
  \<^item> \<open>Prelude\<close>, \<open>Rust_Str\<close>: results, options, bytes, ASCII case, string functions and their laws.
  \<^item> \<open>Krb5\<close> (\<^verbatim>\<open>nfs-klldap-identity/src/krb5/\<close>): principal names, realms, host variants, keytab listings.
  \<^item> \<open>Identity_Ldap\<close> (\<^verbatim>\<open>nfs-klldap-identity/src/ldap/\<close>, \<^verbatim>\<open>nss/\<close>): filter escaping, attribute mapping, TLS
    policy, passwd and group rows.
  \<^item> \<open>Config_Model\<close> (\<^verbatim>\<open>config.rs\<close>, \<^verbatim>\<open>constants.rs\<close>): the typed configuration.
  \<^item> \<open>Validate\<close> (\<^verbatim>\<open>validate.rs\<close>): environment overrides, normalization, derivation and every check.
  \<^item> \<open>Fs_Probe\<close> (\<^verbatim>\<open>fs_probe.rs\<close>): the mount table and what a served path can store.
  \<^item> \<open>Generate_Fragments\<close>, \<open>Generate_Conf\<close> (\<^verbatim>\<open>generate/\<close>): export fragments, adverts and the other files.
  \<^item> \<open>Fingerprint\<close> (\<^verbatim>\<open>exports_fingerprint.rs\<close>): FNV-1a hashes of directories, files and shares.
  \<^item> \<open>Respawn\<close> (\<^verbatim>\<open>supervisor/respawn.rs\<close>, \<^verbatim>\<open>recycle_plan.rs\<close>): the rate limiter and the recycle plan.
  \<^item> \<open>Startup\<close> (\<^verbatim>\<open>startup.rs\<close>, \<^verbatim>\<open>hostname.rs\<close>, \<^verbatim>\<open>persist.rs\<close>): wizard steps, probes, host name.
  \<^item> \<open>Supervisor\<close>, \<open>Supervisor_Laws\<close> (\<^verbatim>\<open>supervisor/\<close>, \<^verbatim>\<open>signals.rs\<close>, \<^verbatim>\<open>hook.rs\<close>, \<^verbatim>\<open>main.rs\<close>): the process supervisor
    as a state machine over an operating system that answers every question anew.
  \<^item> \<open>Web_Auth\<close> (\<^verbatim>\<open>nfs-klldap-ui/src/auth.rs\<close>, \<^verbatim>\<open>web/auth.rs\<close>): passwords, sessions, cookies and the guard of the
    web interface.
  \<^item> \<open>Id_Cache\<close>, \<open>Nss_Files\<close>, \<open>Nss_Laws\<close> (\<^verbatim>\<open>bin/idhelper/common.rs\<close>, \<^verbatim>\<open>materialize.rs\<close>): the cache of resolved
    principals and the passwd and group files the server reads.
  \<^item> \<open>Ldap_Resolver\<close>, \<open>Resolver_Laws\<close> (\<^verbatim>\<open>nfs-klldap-identity/src/ldap/resolver.rs\<close>): lookups over pooled connections
    and caches that expire.
  \<^item> \<open>Id_Resolve\<close>, \<open>Id_Resolve_Laws\<close> (\<^verbatim>\<open>bin/idhelper/resolve.rs\<close>): how a principal becomes a uid, a gid and a
    list of groups.
  \<^item> \<open>Acl\<close>, \<open>Fs_Manager\<close>, \<open>Fs_Manager_Laws\<close> (\<^verbatim>\<open>nfs-klldap-ui/src/privileged.rs\<close>, \<^verbatim>\<open>fs.rs\<close>): access lists, which
    paths may be managed, and applying ownership, modes and access lists to a tree.
  \<^item> \<open>Id_Daemon\<close>, \<open>Id_Daemon_Laws\<close> (\<^verbatim>\<open>bin/idhelper/daemon.rs\<close>, \<^verbatim>\<open>main.rs\<close>, the socket client of \<^verbatim>\<open>ganesha_readiness.rs\<close>):
    reloads, requests and answers, threads, command line.
  \<^item> \<open>Log_Lines\<close>, \<open>Id_Observer\<close>, \<open>Observer_Laws\<close> (\<^verbatim>\<open>bin/idhelper/observer.rs\<close>, \<^verbatim>\<open>network.rs\<close>): reading the log of the
    server, repairs, and the service as a whole.
  \<^item> \<open>Recycle_Latch\<close> (\<^verbatim>\<open>nfs-klldap-ui/src/web/settings/mod.rs\<close>): the latch that turns requests into signals to the supervisor.
  \<^item> \<open>Setup_Wizard\<close> (\<^verbatim>\<open>web/setup.rs\<close>, the gate of \<^verbatim>\<open>web/mod.rs\<close>): the steps of the first configuration.
  \<^item> \<open>Ui_Ldap\<close> (\<^verbatim>\<open>nfs-klldap-ui/src/ldap.rs\<close>): the directory as the web interface sees it: lists, owner fields, logins,
    the live check of an administrator.
  \<^item> \<open>Acl_Gate\<close>, \<open>Acl_Watch\<close> (\<^verbatim>\<open>fs_warnings.rs\<close>, \<^verbatim>\<open>web/acl_capability.rs\<close>, \<^verbatim>\<open>acl_status.rs\<close>, \<^verbatim>\<open>manifest.rs\<close>, \<^verbatim>\<open>acl_watch.rs\<close>):
    probe verdicts, the class of a share, the gates before an edit and the periodic watch.
  \<^item> \<open>Perm_Panel\<close>, \<open>Apply_Ui\<close>, \<open>Apply_Task\<close>, \<open>Apply_Laws\<close> (\<^verbatim>\<open>web/permission_tree.rs\<close>): the pages of the permission editor, how
    a submitted form becomes a job, the task that carries it out, the slot and the log page.
  \<^item> \<open>Settings_Save\<close> (\<^verbatim>\<open>web/settings_form.rs\<close>, \<^verbatim>\<open>web/settings/spec.rs\<close>, \<^verbatim>\<open>apply.rs\<close>, the save handlers of
    \<^verbatim>\<open>web/settings/mod.rs\<close>, \<^verbatim>\<open>config.rs\<close>): the forms of the settings pages and what a save checks, keeps and writes.
  \<^item> \<open>Nss_Contract\<close> (\<^verbatim>\<open>ganesha_nss_contract.rs\<close>, \<^verbatim>\<open>ganesha_identity_pipeline.rs\<close>): the gate on what the server will see
    of an identity and the principals that are probed before it starts.
  \<^item> \<open>Readiness\<close> (\<^verbatim>\<open>ganesha_readiness.rs\<close>, \<^verbatim>\<open>ganesha_log_contract.rs\<close>): the environment of the server, the check that it is
    ready, and the diagnosis of its log.


  \<^bold>\<open>Interfaces.\<close> Locales state what one part relies on and are interpreted on the definitions of the
  model: \<open>normal_form\<close> (canonical principals), \<open>escaping\<close> (LDAP filter and XML escapes with their
  decoders), \<open>byte_hash\<close> (a hash that is injective in its state), \<open>rate_limiter\<close> (the respawn budget),
  \<open>synced_dir\<close> (a directory brought to a set of files by writing and pruning), \<open>sup_ops\<close> and
  \<open>sup_invariant\<close> (a predicate kept by the primitive effects of the supervisor is kept by every
  handler, by the loop and by boot). \<open>auth_invariant\<close> (a predicate kept by every operation of the session store
  holds after any sequence of requests), \<open>session_check\<close> (what a guarded route may rely on),
  \<open>resolver_invariant\<close> and \<open>id_invariant\<close> (a predicate kept by the primitive steps of the resolver and by the
  additions to the identity cache is kept by every lookup); \<open>daemon_invariant\<close> extends the latter to
  reloads, requests, start and log lines.

  \<^bold>\<open>What is shown.\<close> For the supervisor: never two live servers, none in host mode, a reload keeps the
  identity services, a failed reload changes no process, a full recycle restarts the stack, a
  shutdown signals every child; respawns are rate limited, recover and report exhaustion once.
  For the configuration: acceptance gives a well-formed configuration, is stable and lets the
  environment win; the generator writes exactly the fragments of the shares, or leaves the
  directory as it was; generated texts cannot be broken by names. For the probes: the mount found
  is the deepest visible one and access lists are enabled only on proof. For the hashes: listing
  order is irrelevant and a changed byte is noticed. For names: filters are safe, principals have
  one canonical form, rows and listings are read back. For the web interface: a guarded request is
  served only for a live session, a session is issued only against credentials, a password change
  takes effect and ends other sessions, and passwords and sessions survive a restart. For the
  name service files: a principal has one row with its own ids, every claimed group lists it,
  revoked memberships disappear, unchanged data is never rewritten, and the cache file is read back. For the
  resolver: the pool is bounded, a cached answer is recent, a miss is remembered, and a bulk load
  forgets what came before. For resolution: only the full name of a realm principal is asked for,
  unknown ones are refused and leave nothing behind, known ones stay known, and what was resolved
  can be read back from the passwd files. For the file-system manager: a path is
  allowed exactly when it maps into a share, an apply touches only paths inside the shares and sets no
  setuid bit, it touches exactly the entries of its scope, and chunked access-list changes name each of
  them once; what \<^verbatim>\<open>getfacl\<close> prints is read back. For the identity service: an
  outage takes no identity away, a reload leaves files that match the cache, clients read what the
  daemon answered, equal requests are worked on once, every client is served, repairs keep their
  distance, and the cache is sound over the whole life of the service. For the setup wizard: only what
  was tested is saved, but the wizard stays open after setup. For access lists: an edit of a node passes
  the gate only where its mount can hold it, every surface agrees with the export, the watch spaces its
  recycles. For the permission editor: an unchanged panel changes nothing, staged edits are checked as a
  whole and carried out in order, two applies never interleave, every operation stays inside the shares;
  names reach the log page unescaped. For logins: a password check and a membership are needed, and the
  live check asks the directory anew. A full restart that was accepted is never dropped by the latch. For the settings pages: a
  refused save changes nothing, keys the shares form does not show follow the position of a share and not
  its name, and a structured save checks a configuration other than the one it writes. For the server's
  contracts: what was resolved passes the strict probe of the gate, the server inherits no variable beyond
  those of its name service and the helper, its environment is read back from its process, an old warning
  in the log blocks readiness, and the diagnosis of the log means what its windows say.


  \<^bold>\<open>Bounds and fuel.\<close> The waits of \<^verbatim>\<open>stop_ganesha\<close> poll until a deadline; the number of polls is the
  answer \<open>o_polls\<close> of the operating system, any number, so the loop \<open>wait_gone\<close> is total by
  recursion on it and the theorems hold for every deadline. All other recursions are structural
  or have a termination proof. Sleeps and log lines only advance the time of the model.

  \<^bold>\<open>Not modelled.\<close> The scripted CI modes of the supervisor and their bounded loop, log rotation,
  the variable \<^verbatim>\<open>NFS_KLLDAP_GANESHA_PID\<close> the supervisor sets for itself, ownership and
  mode fix-ups of generated files, TOML syntax (the \<^verbatim>\<open>toml\<close> crate), HTTP and template rendering, the
  LDAP client library, TLS certificates, and the self-check command of the helper. SHA-256 and the random
  generator are parameters of the web model. Of the web interface also the template of the settings page,
  its status and test endpoints, the other templates, dates and certificates; the \<^verbatim>\<open>toml_edit\<close> document and its
  operations are a parameter. The percentage of the log page is exact division
  in the model and floating point in the code.

\<close>

section \<open>Reloading an invalid configuration\<close>

lemma generate_invalid:
  assumes "load (o_env os) (o_conf os (now s)) = Err e"
  shows "\<exists>e'. run_generate os s = (Err e', tick s)"
  using assms by (simp add: run_generate_def handle_generate_def split: option.split)

lemma refresh_disk: "disk (refresh_tracked_ganesha_pid os s) = disk s"
  by (simp add: refresh_tracked_ganesha_pid_def set_pid_def tick_def split: option.split)

text \<open>C37: an invalid configuration file cannot take the stack down: while the file on disk does not
  parse or validate, every reload and every full recycle fails, leaves each generated file as it
  was and neither signals, starts nor stops a process.\<close>

theorem invalid_config_reload_is_noop:
  assumes "handler \<in> {handle_sighup, handle_full_recycle}"
    and "\<And>t. \<exists>e. load (o_env os) (o_conf os t) = Err e"
  shows "\<exists>e t. handler os s = (Err e, t) \<and> disk t = disk s \<and> trace t = trace s"
proof -
  define s0 where "s0 = refresh_tracked_ganesha_pid os (tick s)"
  from assms(2) generate_invalid obtain e where g: "run_generate os s0 = (Err e, tick s0)" by blast
  have "regenerate_and_diff os s0 = (Err e, tick s0)" by (simp add: regenerate_and_diff_def g Let_def)
  then have "handler os s = (Err e, tick s0)"
    using assms(1) by (auto simp: handle_sighup_def handle_full_recycle_def s0_def [symmetric])
  moreover have "disk (tick s0) = disk s" "trace (tick s0) = trace s"
    by (simp_all add: s0_def refresh_disk refresh_frame)
  ultimately show ?thesis by blast
qed

theorem invalid_config_reload_is_noop_witness:
  "\<exists>e t. handle_full_recycle (sample_os\<lparr>o_conf := \<lambda>_. Ok default_config\<rparr>) (fresh_supervisor sample_os empty_artifacts) = (Err e, t)
     \<and> disk t = empty_artifacts"
proof -
  define os where "os = sample_os\<lparr>o_conf := \<lambda>_. Ok default_config\<rparr>"
  have "isl (validate_and_derive (\<lambda>_. None) default_config)"
    by (simp add: validate_and_derive_def apply_core_env_overrides_def default_config_def env_set_def env_set_opt_def Let_def)
  then have "\<exists>e. load (o_env os) (o_conf os t) = Err e" for t
    by (cases "validate_and_derive (\<lambda>_. None) default_config") (simp_all add: os_def load_def)
  from invalid_config_reload_is_noop [OF _ this, of handle_full_recycle "fresh_supervisor sample_os empty_artifacts"]
  have "\<exists>e t. handle_full_recycle os (fresh_supervisor sample_os empty_artifacts) = (Err e, t)
      \<and> disk t = disk (fresh_supervisor sample_os empty_artifacts)" by blast
  then show ?thesis unfolding os_def by (simp add: fresh_supervisor_def)
qed

end
